(* ===== verification/Prelude.thy ===== *)
theory Prelude
  imports Main "HOL-Library.List_Lexorder" "HOL-Library.Product_Lexorder"
begin

text \<open>
  What every component shares: the error values of the Go code, the result type
  \<open>err + 'a\<close> with its sequencing operator \<open>bindE\<close> (Go's
  ``if err != nil { return err }''), loops over slices that stop at the first error, and Go's
  64-bit arithmetic. A database transaction is explicit state passing: an operation
  takes the tables and returns \<open>Inl e\<close> (the caller rolls back, so no state survives)
  or \<open>Inr\<close> of the new tables.
\<close>

section \<open>Errors\<close>

text \<open>
  An \<open>AppError\<close> is a value of \<open>httpx.NewError\<close>, identified by its code; each
  component abbreviates its own under their Go names. \<open>ErrNoRows\<close> is
  \<open>pgx.ErrNoRows\<close>, \<open>ErrDb\<close> any other error of the driver that no code path
  converts (a violated CHECK or foreign key, a bigint out of range), \<open>ErrMsg\<close> an
  \<open>errors.New\<close> or \<open>fmt.Errorf\<close> value, by a tag.
\<close>

datatype err = ErrDb | ErrNoRows | ErrMsg string | AppError string

abbreviation ErrNotFound :: err where
  "ErrNotFound \<equiv> AppError ''not_found''"

text \<open>Facts that split a result into its two cases, and facts that evaluate a model.\<close>

named_theorems result_simps \<open>what a sequenced result being Inl or Inr means\<close>
named_theorems frame_simps \<open>which tables an operation leaves alone\<close>

section \<open>Results\<close>

definition bindE :: "'e + 'a \<Rightarrow> ('a \<Rightarrow> 'e + 'b) \<Rightarrow> 'e + 'b" where
  "bindE m k = (case m of Inl e \<Rightarrow> Inl e | Inr a \<Rightarrow> k a)"

lemma bindE_Inl [simp]: "bindE (Inl e) k = Inl e"
  by (simp add: bindE_def)

lemma bindE_Inr [simp]: "bindE (Inr a) k = k a"
  by (simp add: bindE_def)

lemma bindE_eq_Inr [result_simps]:
  "bindE m k = Inr y \<longleftrightarrow> (\<exists>a. m = Inr a \<and> k a = Inr y)"
  by (cases m) auto

lemma bindE_eq_Inl [result_simps]:
  "bindE m k = Inl e \<longleftrightarrow> m = Inl e \<or> (\<exists>a. m = Inr a \<and> k a = Inl e)"
  by (cases m) auto

lemma if_Inl_eq_Inr [result_simps]:
  "((if c then Inl e else r) = Inr y) \<longleftrightarrow> \<not> c \<and> r = Inr y"
  by auto

lemma bindE_cong [fundef_cong]:
  assumes "m = m'" and "\<And>a. m' = Inr a \<Longrightarrow> k a = k' a"
  shows "bindE m k = bindE m' k'"
  using assms by (cases m') auto

lemma bindE_assoc: "bindE (bindE m f) g = bindE m (\<lambda>a. bindE (f a) g)"
  by (cases m) auto

text \<open>Whether a result is an error.\<close>

definition failed :: "'e + 'a \<Rightarrow> bool" where
  "failed r = (case r of Inl _ \<Rightarrow> True | Inr _ \<Rightarrow> False)"

lemma failed_Inl [simp]: "failed (Inl e)"
  and failed_Inr [simp]: "\<not> failed (Inr a)"
  by (simp_all add: failed_def)

text \<open>A Go loop over a slice whose body may return an error.\<close>

fun foldE :: "('x \<Rightarrow> 's \<Rightarrow> 'e + 's) \<Rightarrow> 'x list \<Rightarrow> 's \<Rightarrow> 'e + 's" where
  "foldE f [] s = Inr s"
| "foldE f (x # xs) s = bindE (f x s) (foldE f xs)"

lemma foldE_append: "foldE f (xs @ ys) s = bindE (foldE f xs s) (foldE f ys)"
  by (induction xs arbitrary: s) (simp_all add: bindE_def split: sum.split)

lemma foldE_cong [fundef_cong]:
  assumes "xs = ys" and "s = t" and "\<And>x u. x \<in> set ys \<Longrightarrow> f x u = g x u"
  shows "foldE f xs s = foldE g ys t"
proof -
  have "foldE f ys u = foldE g ys u" for u
    using assms(3) by (induction ys arbitrary: u) (auto intro!: bindE_cong)
  then show ?thesis using assms(1,2) by simp
qed

text \<open>The loop rule: what every iteration keeps holds after the loop.\<close>

lemma foldE_inv:
  assumes "foldE f xs s = Inr t" and "P s"
    and "\<And>x u v. x \<in> set xs \<Longrightarrow> P u \<Longrightarrow> f x u = Inr v \<Longrightarrow> P v"
  shows "P t"
  using assms
proof (induction xs arbitrary: s)
  case Nil
  then show ?case by simp
next
  case (Cons x xs)
  from Cons.prems(1) obtain u where u: "f x s = Inr u" and t: "foldE f xs u = Inr t"
    by (auto simp: result_simps)
  from Cons.prems(3)[of x s u] Cons.prems(2) u have "P u" by simp
  then show ?case using Cons.IH[OF t] Cons.prems(3) by (meson list.set_intros(2))
qed

section \<open>Go integers\<close>

text \<open>
  \<open>int64\<close> arithmetic wraps modulo 2 to the 64; a Postgres \<open>bigint\<close> column raises an
  error instead. Division truncates towards zero.
\<close>

definition wrap64 :: "int \<Rightarrow> int" where
  "wrap64 x = (x + 2 ^ 63) mod 2 ^ 64 - 2 ^ 63"

definition in64 :: "int \<Rightarrow> bool" where
  "in64 x \<longleftrightarrow> - (2 ^ 63) \<le> x \<and> x < 2 ^ 63"

definition go_div :: "int \<Rightarrow> int \<Rightarrow> int" where
  "go_div a b = (if (a < 0) = (b < 0) then \<bar>a\<bar> div \<bar>b\<bar> else - (\<bar>a\<bar> div \<bar>b\<bar>))"

definition go_mod :: "int \<Rightarrow> int \<Rightarrow> int" where
  "go_mod a b = a - b * go_div a b"

lemma wrap64_id [simp]: "in64 x \<Longrightarrow> wrap64 x = x"
  by (simp add: wrap64_def in64_def)

lemma in64_wrap64 [simp]: "in64 (wrap64 x)"
proof -
  have "0 \<le> (x + 2 ^ 63) mod (2 ^ 64 :: int)" and "(x + 2 ^ 63) mod (2 ^ 64 :: int) < 2 ^ 64"
    by simp_all
  then show ?thesis by (simp add: wrap64_def in64_def)
qed

lemma go_div_nonneg: "0 \<le> a \<Longrightarrow> 0 < b \<Longrightarrow> go_div a b = a div b"
  by (simp add: go_div_def)

lemma go_mod_nonneg: "0 \<le> a \<Longrightarrow> 0 < b \<Longrightarrow> go_mod a b = a mod b"
  by (simp add: go_mod_def go_div_nonneg minus_mult_div_eq_mod)

section \<open>Lists and sums\<close>

lemma sum_list_filter_le:
  fixes f :: "'a \<Rightarrow> int"
  assumes "\<And>x. x \<in> set xs \<Longrightarrow> 0 \<le> f x"
  shows "sum_list (map f (filter P xs)) \<le> sum_list (map f xs)"
  using assms by (induction xs) (auto intro: add_increasing)

lemma sum_list_map_nonneg:
  fixes f :: "'a \<Rightarrow> int"
  assumes "\<And>x. x \<in> set xs \<Longrightarrow> 0 \<le> f x"
  shows "0 \<le> sum_list (map f xs)"
  using assms by (induction xs) auto

lemma sum_list_map_if_zero:
  fixes f :: "'a \<Rightarrow> int"
  shows "sum_list (map (\<lambda>x. if P x then f x else 0) xs) = sum_list (map f (filter P xs))"
  by (induction xs) auto

lemma sum_list_map_rev:
  fixes f :: "'a \<Rightarrow> int"
  shows "sum_list (map f (rev xs)) = sum_list (map f xs)"
  by (induction xs) simp_all

lemma sum_list_map_sort_key:
  fixes f :: "'a \<Rightarrow> int"
  shows "sum_list (map f (sort_key k xs)) = sum_list (map f xs)"
proof -
  have "sum_list (map f (insort_key k x ys)) = f x + sum_list (map f ys)" for x ys
    by (induction ys) auto
  then show ?thesis by (induction xs) simp_all
qed

text \<open>Updating the one row of a table that has a key changes a sum over the table by that row.\<close>

lemma sum_list_update_key:
  fixes g :: "'a \<Rightarrow> int"
  assumes "distinct (map key xs)" and "x \<in> set xs"
  shows "sum_list (map g (map (\<lambda>y. if key y = key x then f y else y) xs)) = sum_list (map g xs) + g (f x) - g x"
  using assms
proof (induction xs)
  case (Cons y ys)
  show ?case
  proof (cases "y = x")
    case True
    then have "map (\<lambda>z. if key z = key x then f z else z) ys = ys"
      using Cons.prems(1) by (intro map_idI) (auto simp: rev_image_eqI)
    with True show ?thesis by simp
  next
    case False
    with Cons.prems have "key y \<noteq> key x" by auto
    with False Cons show ?thesis by simp
  qed
qed simp

lemma find_distinct_key:
  "distinct (map key xs) \<Longrightarrow> x \<in> set xs \<Longrightarrow> P x \<Longrightarrow> find (\<lambda>y. key y = key x \<and> P y) xs = Some x"
  by (induction xs) (auto simp: rev_image_eqI)

text \<open>Between a moment where something is false and a later one where it is true it becomes true.\<close>

lemma becomes_true:
  fixes t v :: int
  assumes "t \<le> v" and "P v" and "\<not> P t"
  shows "\<exists>x. t < x \<and> x \<le> v \<and> P x \<and> \<not> P (x - 1)"
  using assms
proof (induction v rule: int_ge_induct)
  case (step i)
  show ?case
  proof (cases "P i")
    case True
    with step obtain x where "t < x" "x \<le> i" "P x" "\<not> P (x - 1)" by blast
    then show ?thesis by (intro exI[of _ x]) simp
  next
    case False
    with step show ?thesis by (intro exI[of _ "i + 1"]) simp
  qed
qed simp

section \<open>Strings\<close>

text \<open>A point of the map, which only the geometry looks into, and the order of the database on identifiers and names.\<close>

type_synonym point = "int \<times> int"

definition text_key :: "string \<Rightarrow> nat list" where
  "text_key s = map (\<lambda>c. of_char c :: nat) s"

text \<open>\<open>strings.TrimSpace\<close>, on its ASCII spaces.\<close>

definition is_space :: "char \<Rightarrow> bool" where
  "is_space c \<longleftrightarrow> (of_char c :: nat) \<in> {9, 10, 11, 12, 13, 32}"

definition TrimSpace :: "string \<Rightarrow> string" where
  "TrimSpace s = rev (dropWhile is_space (rev (dropWhile is_space s)))"

lemma TrimSpace_id: "\<forall>c\<in>set s. \<not> is_space c \<Longrightarrow> TrimSpace s = s"
proof -
  assume a: "\<forall>c\<in>set s. \<not> is_space c"
  then have "dropWhile is_space s = s" by (cases s) simp_all
  moreover have "dropWhile is_space (rev s) = rev s" using a by (cases "rev s") (auto dest: arg_cong[of _ _ set])
  ultimately show ?thesis by (simp add: TrimSpace_def)
qed

end
