(* ===== verification/Pricing.thy ===== *)
theory Pricing
  imports Complex_Main Prelude
begin

text \<open>
  The price rules of \<open>pricing/pricing.go\<close>, \<open>pricing/commission_source.go\<close> and
  \<open>pricing/percent2.go\<close>: the margin a sale price carries, a commission as a mode and a
  value, the delivery fee by distance, and percentages held as whole hundredths with their printer
  and parser. Amounts are \<open>int64\<close>: sums and products wrap. A distance is a rational: the
  rounding of the floating-point quotient by 1000 is left out.
\<close>

section \<open>Settings\<close>

record store =
  getString :: "string \<Rightarrow> string"
  getInt :: "string \<Rightarrow> int"
  getHundredths :: "string \<Rightarrow> int"
  getBool :: "string \<Rightarrow> bool"

section \<open>The sale price\<close>

record margin_rule =
  mr_value :: int

definition RuleFrom :: "store option \<Rightarrow> margin_rule" where
  "RuleFrom st = (case st of None \<Rightarrow> \<lparr>mr_value = 0\<rparr>
                  | Some s \<Rightarrow> \<lparr>mr_value = getInt s ''pricing.margin_fixed''\<rparr>)"

definition SalePrice :: "margin_rule \<Rightarrow> int \<Rightarrow> int option \<Rightarrow> int option \<Rightarrow> int" where
  "SalePrice r merchantPrice itemOverride categoryOverride =
    (let margin = (case itemOverride of Some m \<Rightarrow> m
                   | None \<Rightarrow> (case categoryOverride of Some m \<Rightarrow> m | None \<Rightarrow> mr_value r));
         sale = wrap64 (merchantPrice + margin)
     in if sale < merchantPrice then merchantPrice else sale)"

section \<open>Commissions\<close>

record amount =
  am_mode :: string
  am_value :: int

definition ModePercent2 :: string where "ModePercent2 = ''percent2''"

definition Pct :: "int \<Rightarrow> int" where "Pct p = wrap64 (p * 100)"

definition Amount_Percent :: "amount \<Rightarrow> int" where
  "Amount_Percent a = (if am_mode a = ModePercent2 then am_value a else Pct (am_value a))"

definition roundDiv :: "int \<Rightarrow> int \<Rightarrow> int" where
  "roundDiv n d = (if n < 0 then go_div n d else go_div (wrap64 (n + go_div d 2)) d)"

definition Amount_Of :: "amount \<Rightarrow> int \<Rightarrow> int" where
  "Amount_Of a base =
    (if base \<le> 0 then 0
     else let v = (if am_mode a = ''fixed'' then am_value a
                   else if am_mode a = ModePercent2 then roundDiv (wrap64 (base * am_value a)) 10000
                   else roundDiv (wrap64 (base * am_value a)) 100)
          in if v < 0 then 0 else if v > base then base else v)"

definition MerchantCommission :: "store option \<Rightarrow> int option \<Rightarrow> amount" where
  "MerchantCommission st override =
    (case override of Some p \<Rightarrow> \<lparr>am_mode = ModePercent2, am_value = p\<rparr>
     | None \<Rightarrow> (case st of None \<Rightarrow> \<lparr>am_mode = ModePercent2, am_value = 0\<rparr>
        | Some s \<Rightarrow> \<lparr>am_mode = ModePercent2, am_value = getHundredths s ''merchants.commission_percent''\<rparr>))"

definition RepCommission :: "store option \<Rightarrow> amount" where
  "RepCommission st =
    (case st of None \<Rightarrow> \<lparr>am_mode = ''percent'', am_value = 0\<rparr>
     | Some s \<Rightarrow> \<lparr>am_mode = ''percent'', am_value = getInt s ''sales.commission_percent''\<rparr>)"

datatype commission_source = SourcePlatformCommission | SourcePricingMargin | SourceBoth

definition RepCommissionSource :: "store option \<Rightarrow> err + commission_source" where
  "RepCommissionSource st =
    (case st of None \<Rightarrow> Inl (ErrMsg ''pricing: no settings store'') | Some _ \<Rightarrow> Inr SourceBoth)"

definition RepCommissionBase :: "commission_source \<Rightarrow> int \<Rightarrow> int \<Rightarrow> int \<Rightarrow> int" where
  "RepCommissionBase src platformCommission pricingMargin promoCost =
    (let base = (case src of SourcePlatformCommission \<Rightarrow> platformCommission
                 | SourcePricingMargin \<Rightarrow> pricingMargin
                 | SourceBoth \<Rightarrow> wrap64 (platformCommission + pricingMargin));
         base = (if promoCost > 0 then wrap64 (base - promoCost) else base)
     in if base < 0 then 0 else base)"

section \<open>The delivery fee\<close>

definition DeliveryFee :: "store option \<Rightarrow> int" where
  "DeliveryFee st = (case st of None \<Rightarrow> 0
     | Some s \<Rightarrow> (let fee = getInt s ''delivery.fee'' in if fee < 0 then 0 else fee))"

record fee_keys =
  fk_base :: string
  fk_by_distance :: string
  fk_per_km :: string
  fk_max :: string

definition StandardFeeKeys :: fee_keys where
  "StandardFeeKeys = \<lparr>fk_base = ''delivery.fee'', fk_by_distance = ''delivery.by_distance'',
     fk_per_km = ''delivery.per_km'', fk_max = ''delivery.max_fee''\<rparr>"

definition MerchantDeliveryFeeKeys :: fee_keys where
  "MerchantDeliveryFeeKeys = \<lparr>fk_base = ''delivery.merchant_base_fee'',
     fk_by_distance = ''delivery.merchant_by_distance'', fk_per_km = ''delivery.merchant_per_km'',
     fk_max = ''delivery.merchant_max_fee''\<rparr>"

definition WhatsAppFeeKeys :: fee_keys where
  "WhatsAppFeeKeys = \<lparr>fk_base = ''delivery.whatsapp_base_fee'',
     fk_by_distance = ''delivery.whatsapp_by_distance'', fk_per_km = ''delivery.whatsapp_per_km'',
     fk_max = ''delivery.whatsapp_max_fee''\<rparr>"

record fee_rule =
  fe_base :: int
  fe_per_km :: int
  fe_max :: int
  fe_by_distance :: bool

definition RuleOf :: "store option \<Rightarrow> fee_keys \<Rightarrow> fee_rule" where
  "RuleOf st k =
    (case st of None \<Rightarrow> \<lparr>fe_base = 0, fe_per_km = 0, fe_max = 0, fe_by_distance = False\<rparr>
     | Some s \<Rightarrow>
        (let r = \<lparr>fe_base = getInt s (fk_base k), fe_per_km = getInt s (fk_per_km k),
                  fe_max = getInt s (fk_max k), fe_by_distance = getBool s (fk_by_distance k)\<rparr>
         in if fe_base r < 0 then r\<lparr>fe_base := 0\<rparr> else r))"

definition FeeRule_At :: "fee_rule \<Rightarrow> rat \<Rightarrow> int" where
  "FeeRule_At r meters =
    (if \<not> fe_by_distance r \<or> fe_per_km r \<le> 0 \<or> meters \<le> 0 then fe_base r
     else let fee = wrap64 (fe_base r + wrap64 (fe_per_km r * \<lceil>meters / 1000\<rceil>))
          in if fe_max r > 0 \<and> fee > fe_max r then fe_max r else fee)"

definition DeliveryFeeAt :: "store option \<Rightarrow> rat \<Rightarrow> int" where
  "DeliveryFeeAt st meters = FeeRule_At (RuleOf st StandardFeeKeys) meters"

section \<open>What the rules promise\<close>

lemma in64_between: "0 \<le> a \<Longrightarrow> a \<le> b \<Longrightarrow> in64 b \<Longrightarrow> in64 a"
  by (simp add: in64_def)

lemma roundDiv_exact:
  assumes "0 \<le> n" and "0 < d" and "in64 (n + d div 2)"
  shows "roundDiv n d = (n + d div 2) div d"
  using assms by (simp add: roundDiv_def go_div_nonneg)

text \<open>Rounding to the nearest, halves up.\<close>

lemma div_round_nearest:
  fixes n d :: int
  assumes "0 < d"
  shows "2 * d * ((n + d div 2) div d) \<le> 2 * n + d" "2 * n - d < 2 * d * ((n + d div 2) div d)"
proof -
  have q: "d * ((n + d div 2) div d) = n + d div 2 - (n + d div 2) mod d"
    by (simp add: minus_mod_eq_mult_div)
  have "0 \<le> (n + d div 2) mod d" and "(n + d div 2) mod d < d" using assms by simp_all
  with q show "2 * d * ((n + d div 2) div d) \<le> 2 * n + d" "2 * n - d < 2 * d * ((n + d div 2) div d)"
    by linarith+
qed

lemma Amount_Of_range: "0 \<le> Amount_Of a base \<and> (0 \<le> base \<longrightarrow> Amount_Of a base \<le> base)"
  by (simp add: Amount_Of_def Let_def)

text \<open>What a hundred percent is in the units of a mode: hundredths of a percent, or percents.\<close>

definition hundred_percent :: "amount \<Rightarrow> int" where
  "hundred_percent a = (if am_mode a = ModePercent2 then 10000 else 100)"

lemma Amount_Of_percent:
  assumes "am_mode a \<noteq> ''fixed''" and "0 \<le> am_value a" and "am_value a \<le> hundred_percent a" and "0 < base"
    and "in64 (base * am_value a + hundred_percent a div 2)"
  shows "Amount_Of a base = (base * am_value a + hundred_percent a div 2) div hundred_percent a"
proof -
  have w: "0 < hundred_percent a" "hundred_percent a div 2 \<le> hundred_percent a" by (simp_all add: hundred_percent_def)
  have prod: "0 \<le> base * am_value a" using assms by simp
  then have fits: "in64 (base * am_value a)" using assms(5) w(1) by (auto simp: in64_def hundred_percent_def split: if_splits)
  have v: "roundDiv (wrap64 (base * am_value a)) (hundred_percent a) = (base * am_value a + hundred_percent a div 2) div hundred_percent a"
    using roundDiv_exact[of "base * am_value a" "hundred_percent a"] assms(5) prod fits w(1) by simp
  have "base * am_value a \<le> base * hundred_percent a" using assms by (intro mult_left_mono) auto
  then have "(base * am_value a + hundred_percent a div 2) div hundred_percent a \<le> base" by (simp add: hundred_percent_def split: if_splits)
  moreover have "0 \<le> (base * am_value a + hundred_percent a div 2) div hundred_percent a" using prod w(1) by (simp add: pos_imp_zdiv_nonneg_iff hundred_percent_def)
  ultimately show ?thesis using v assms(1,4) by (auto simp: Amount_Of_def Let_def hundred_percent_def split: if_splits)
qed

lemma Amount_Of_percent2:
  assumes "am_mode a = ModePercent2" and "0 \<le> am_value a" and "am_value a \<le> 10000" and "0 < base"
    and "in64 (base * am_value a + 5000)"
  shows "Amount_Of a base = (base * am_value a + 5000) div 10000"
  using Amount_Of_percent[of a base] assms by (simp add: hundred_percent_def ModePercent2_def)

text \<open>No addition of the fee wraps.\<close>

definition fee_fits :: "fee_rule \<Rightarrow> rat \<Rightarrow> bool" where
  "fee_fits r meters \<longleftrightarrow>
     in64 (fe_per_km r * \<lceil>meters / 1000\<rceil>) \<and> in64 (fe_base r + fe_per_km r * \<lceil>meters / 1000\<rceil>)"

lemma FeeRule_At_fits:
  assumes "fee_fits r m" and "fe_by_distance r" and "0 < fe_per_km r" and "0 < m"
  shows "FeeRule_At r m =
    (if 0 < fe_max r then min (fe_max r) (fe_base r + fe_per_km r * \<lceil>m / 1000\<rceil>)
     else fe_base r + fe_per_km r * \<lceil>m / 1000\<rceil>)"
  using assms by (simp add: FeeRule_At_def fee_fits_def Let_def min_def)

lemma FeeRule_At_base:
  "\<not> fe_by_distance r \<or> fe_per_km r \<le> 0 \<or> m \<le> 0 \<Longrightarrow> FeeRule_At r m = fe_base r"
  by (auto simp: FeeRule_At_def)

section \<open>Properties\<close>



text \<open>
  The delivery fee by distance grows with the distance, starts from the base and respects the
  ceiling, as long as the ceiling is not below the base and the sums fit in 64 bits; the rule read
  from the settings never has a negative base.
\<close>

theorem delivery_fee_monotone:
  assumes "m \<le> m'" and "fee_fits (RuleOf st k) m" and "fee_fits (RuleOf st k) m'"
    and "fe_max (RuleOf st k) \<le> 0 \<or> fe_base (RuleOf st k) \<le> fe_max (RuleOf st k)"
  shows "0 \<le> fe_base (RuleOf st k) \<and>
         fe_base (RuleOf st k) \<le> FeeRule_At (RuleOf st k) m \<and>
         FeeRule_At (RuleOf st k) m \<le> FeeRule_At (RuleOf st k) m' \<and>
         (0 < fe_max (RuleOf st k) \<longrightarrow> FeeRule_At (RuleOf st k) m' \<le> fe_max (RuleOf st k))"
proof -
  define r where "r = RuleOf st k"
  have base: "0 \<le> fe_base r"
    by (simp add: r_def RuleOf_def Let_def split: option.split)
  have step: "fe_per_km r * \<lceil>m / 1000\<rceil> \<le> fe_per_km r * \<lceil>m' / 1000\<rceil>" if "0 < fe_per_km r"
    using that assms(1) by (intro mult_left_mono ceiling_mono divide_right_mono) auto
  have pos: "0 \<le> fe_per_km r * \<lceil>x / 1000\<rceil>" if "0 < fe_per_km r" "0 < x" for x
  proof -
    have "0 < x / 1000" using that(2) by simp
    then have "0 < \<lceil>x / 1000\<rceil>" by (simp only: zero_less_ceiling)
    with that(1) show ?thesis by simp
  qed
  note fits = assms(2,3)[folded r_def] and cap = assms(4)[folded r_def]
  consider "\<not> fe_by_distance r \<or> fe_per_km r \<le> 0 \<or> m' \<le> 0"
    | "fe_by_distance r" "0 < fe_per_km r" "m \<le> 0" "0 < m'"
    | "fe_by_distance r" "0 < fe_per_km r" "0 < m" "0 < m'"
    using assms(1) by linarith
  then have "fe_base r \<le> FeeRule_At r m \<and> FeeRule_At r m \<le> FeeRule_At r m' \<and>
      (0 < fe_max r \<longrightarrow> FeeRule_At r m' \<le> fe_max r)"
  proof cases
    case 1
    then have "FeeRule_At r m = fe_base r" "FeeRule_At r m' = fe_base r"
      using assms(1) by (auto intro!: FeeRule_At_base)
    with cap show ?thesis by auto
  next
    case 2
    with cap pos[of m'] show ?thesis by (auto simp: FeeRule_At_base FeeRule_At_fits[OF fits(2)] min_def)
  next
    case 3
    define p p' where "p = fe_per_km r * \<lceil>m / 1000\<rceil>" and "p' = fe_per_km r * \<lceil>m' / 1000\<rceil>"
    have "0 \<le> p" "p \<le> p'" using pos[OF 3(2,3)] step[OF 3(2)] by (simp_all only: p_def p'_def)
    with cap FeeRule_At_fits[OF fits(1) 3(1-3)] FeeRule_At_fits[OF fits(2) 3(1,2,4)] show ?thesis
      unfolding p_def[symmetric] p'_def[symmetric] by (auto simp: min_def)
  qed
  with base show ?thesis by (simp add: r_def)
qed

lemma delivery_fee_monotone_witness:
  "FeeRule_At (RuleOf (Some \<lparr>getString = \<lambda>_. [], getInt = (\<lambda>key. if key = ''delivery.fee'' then 2000
      else if key = ''delivery.per_km'' then 500 else 0), getHundredths = \<lambda>_. 0, getBool = \<lambda>_. True\<rparr>)
      StandardFeeKeys) 1000
   \<le> FeeRule_At (RuleOf (Some \<lparr>getString = \<lambda>_. [], getInt = (\<lambda>key. if key = ''delivery.fee'' then 2000
      else if key = ''delivery.per_km'' then 500 else 0), getHundredths = \<lambda>_. 0, getBool = \<lambda>_. True\<rparr>)
      StandardFeeKeys) 4000"
  by (rule delivery_fee_monotone[THEN conjunct2, THEN conjunct2, THEN conjunct1])
    (simp_all add: RuleOf_def StandardFeeKeys_def fee_fits_def in64_def)

end
