(* ===== verification/Percent2.thy ===== *)
theory Percent2
  imports Pricing
begin

text \<open>
  Percentages as whole hundredths (\<open>pricing/percent2.go\<close>): the printer, the parser, the
  JSON pair, the database pair and the rounding to whole percents. A string is a list of bytes.
\<close>

section \<open>Decimal text\<close>

definition digit_char :: "nat \<Rightarrow> char" where
  "digit_char n = char_of (48 + n)"

definition digit_val :: "char \<Rightarrow> nat" where
  "digit_val c = of_char c - 48"

definition is_digit :: "char \<Rightarrow> bool" where
  "is_digit c \<longleftrightarrow> 48 \<le> (of_char c :: nat) \<and> (of_char c :: nat) \<le> 57"

fun digits :: "nat \<Rightarrow> string" where
  "digits n = (if n < 10 then [digit_char n] else digits (n div 10) @ [digit_char (n mod 10)])"

declare digits.simps [simp del]

definition parse_digits :: "string \<Rightarrow> nat" where
  "parse_digits s = foldl (\<lambda>a c. 10 * a + digit_val c) 0 s"

text \<open>The verbs \<open>%d\<close> and \<open>%02d\<close>.\<close>

definition fmt_d :: "int \<Rightarrow> string" where
  "fmt_d i = (if i < 0 then ''-'' @ digits (nat (- i)) else digits (nat i))"

definition fmt_02d :: "int \<Rightarrow> string" where
  "fmt_02d i = (if 0 \<le> i \<and> i < 10 then ''0'' @ digits (nat i) else fmt_d i)"

definition TrimRight :: "char \<Rightarrow> string \<Rightarrow> string" where
  "TrimRight c s = rev (dropWhile (\<lambda>x. x = c) (rev s))"

section \<open>The type Percent2\<close>

definition Percent2_String :: "int \<Rightarrow> string" where
  "Percent2_String p =
    (let sign = (if p < 0 then ''-'' else '''');
         v = (if p < 0 then wrap64 (- p) else p);
         whole = go_div v 100; frac = go_mod v 100
     in if frac = 0 then sign @ fmt_d whole
        else if go_mod frac 10 = 0 then sign @ fmt_d whole @ ''.'' @ fmt_d (go_div frac 10)
        else sign @ fmt_d whole @ ''.'' @ fmt_02d frac)"

definition ErrBadPercent2 :: err where "ErrBadPercent2 = ErrMsg ''pricing: bad percent2''"

text \<open>What follows the optional sign.\<close>

definition parse_unsigned :: "bool \<Rightarrow> string \<Rightarrow> err + int" where
  "parse_unsigned neg s =
    (let whole = takeWhile (\<lambda>c. c \<noteq> CHR ''.'') s;
         rest = dropWhile (\<lambda>c. c \<noteq> CHR ''.'') s;
         hasDot = (rest \<noteq> []); frac = tl rest;
         whole = (if whole = [] then ''0'' else whole)
     in if hasDot \<and> frac = [] then Inl ErrBadPercent2
        else let frac = TrimRight (CHR ''0'') frac
             in if length frac > 2 then Inl ErrBadPercent2
                else if list_ex (\<lambda>c. \<not> is_digit c) (whole @ frac) then Inl ErrBadPercent2
                else if length whole > 12 then Inl ErrBadPercent2
                else let w = int (parse_digits whole);
                         f = int (parse_digits (frac @ replicate (2 - length frac) (CHR ''0'')));
                         v = wrap64 (wrap64 (w * 100) + f)
                     in Inr (if neg then wrap64 (- v) else v))"

definition ParsePercent2 :: "string \<Rightarrow> err + int" where
  "ParsePercent2 s0 =
    (let s = TrimSpace s0
     in if s = [] then Inl ErrBadPercent2
        else if hd s = CHR ''-'' \<or> hd s = CHR ''+'' then parse_unsigned (hd s = CHR ''-'') (tl s)
        else parse_unsigned False s)"

definition MarshalJSON :: "int \<Rightarrow> string" where
  "MarshalJSON p = Percent2_String p"

text \<open>\<open>UnmarshalJSON\<close> writes through the pointer: \<open>old\<close> is what it holds before.\<close>

definition UnmarshalJSON :: "int \<Rightarrow> string \<Rightarrow> err + int" where
  "UnmarshalJSON old b =
    (let s = TrimSpace b
     in if s = ''null'' then Inr old
        else let s = (if length s \<ge> 2 \<and> hd s = CHR 0x22 \<and> last s = CHR 0x22
                      then butlast (tl s) else s)
             in ParsePercent2 s)"

text \<open>
  \<open>RoundedPercent\<close> calls itself on the negation: on the smallest \<open>int64\<close>, its own
  negation, the recursion never ends.
\<close>

partial_function (option) RoundedPercent :: "int \<Rightarrow> int option" where
  "RoundedPercent p =
     (if p < 0 then Option.bind (RoundedPercent (wrap64 (- p))) (\<lambda>r. Some (wrap64 (- r)))
      else Some (go_div (wrap64 (p + 50)) 100))"

text \<open>A \<open>numeric\<close> of the database: an unbounded integer and an exponent of ten.\<close>

record numeric =
  nu_valid :: bool
  nu_nan :: bool
  nu_infinite :: bool
  nu_int :: int
  nu_exp :: int

definition NumericValue :: "int \<Rightarrow> numeric" where
  "NumericValue p = \<lparr>nu_valid = True, nu_nan = False, nu_infinite = False, nu_int = p, nu_exp = - 2\<rparr>"

definition ScanNumeric :: "numeric \<Rightarrow> err + int" where
  "ScanNumeric n =
    (if \<not> nu_valid n then Inl (ErrMsg ''pricing: null percent2'')
     else if nu_nan n \<or> nu_infinite n then Inl ErrBadPercent2
     else let shift = nu_exp n + 2
          in if shift \<ge> 0 then
               (let v = nu_int n * 10 ^ nat shift in if in64 v then Inr v else Inl ErrBadPercent2)
             else let d = 10 ^ nat (- shift); v = go_div (nu_int n) d
                  in if nu_int n - d * v \<noteq> 0 then Inl ErrBadPercent2
                     else if in64 v then Inr v else Inl ErrBadPercent2)"

definition RoundedPtr :: "int option \<Rightarrow> int option option" where
  "RoundedPtr p = (case p of None \<Rightarrow> Some None | Some v \<Rightarrow> map_option Some (RoundedPercent v))"

section \<open>Digits\<close>

lemma of_char_digit [simp]: "n < 10 \<Longrightarrow> of_char (digit_char n) = 48 + n"
  by (simp add: digit_char_def)

lemma digit_val_char [simp]: "n < 10 \<Longrightarrow> digit_val (digit_char n) = n"
  by (simp add: digit_val_def)

lemma is_digit_char [simp]: "n < 10 \<Longrightarrow> is_digit (digit_char n)"
  by (simp add: is_digit_def)

lemma digit_char_0: "digit_char 0 = CHR ''0''"
  by (simp add: digit_char_def char_of_eq_iff)

lemma digit_char_eq_0: "n < 10 \<Longrightarrow> digit_char n = CHR ''0'' \<longleftrightarrow> n = 0"
  by (metis digit_char_0 digit_val_char zero_less_numeral)

lemma is_digit_facts:
  assumes "is_digit c"
  shows "c \<noteq> CHR ''.''" "c \<noteq> CHR ''-''" "c \<noteq> CHR ''+''" "\<not> is_space c" "c \<noteq> CHR 0x22" "c \<noteq> CHR ''n''"
  using assms by (auto simp: is_digit_def is_space_def)

lemma digits_digits: "c \<in> set (digits n) \<Longrightarrow> is_digit c"
  by (induction n rule: digits.induct) (subst (asm) (2) digits.simps, auto split: if_splits)

lemma digits_not_Nil [simp]: "digits n \<noteq> []"
  by (subst digits.simps) simp

lemma parse_digits_snoc: "parse_digits (s @ [c]) = 10 * parse_digits s + digit_val c"
  by (simp add: parse_digits_def)

lemma parse_digits_digits [simp]: "parse_digits (digits n) = n"
proof (induction n rule: digits.induct)
  case (1 n)
  then show ?case
    by (cases "n < 10") (simp_all add: digits.simps[of n] parse_digits_snoc, simp add: parse_digits_def)
qed

lemma length_digits: "n < 10 ^ Suc k \<Longrightarrow> length (digits n) \<le> Suc k"
proof (induction k arbitrary: n)
  case 0
  then show ?case by (subst digits.simps) simp
next
  case (Suc k)
  then have "n div 10 < 10 ^ Suc k" by simp
  from Suc.IH[OF this] show ?case by (subst digits.simps) simp
qed

section \<open>Printing and parsing\<close>

lemma fmt_d_nonneg: "0 \<le> i \<Longrightarrow> fmt_d i = digits (nat i)"
  by (simp add: fmt_d_def)

lemma digits_one: "n < 10 \<Longrightarrow> digits n = [digit_char n]"
  by (simp add: digits.simps)

lemma fmt_02d_two:
  assumes "0 \<le> f" and "f < 100"
  shows "fmt_02d f = [digit_char (nat f div 10), digit_char (nat f mod 10)]"
proof (cases "f < 10")
  case True
  then show ?thesis using assms by (simp add: fmt_02d_def digits_one digit_char_0)
next
  case False
  then have "\<not> nat f < 10" "nat f div 10 < 10" using assms by auto
  then show ?thesis using assms False by (simp add: fmt_02d_def fmt_d_def digits.simps[of "nat f"] digits_one)
qed

text \<open>The fraction the printer writes, and what the parser makes of it.\<close>

definition frac_text :: "nat \<Rightarrow> string" where
  "frac_text f = (if f mod 10 = 0 then [digit_char (f div 10)]
                  else [digit_char (f div 10), digit_char (f mod 10)])"

lemma frac_text_facts:
  assumes "0 < f" and "f < 100"
  shows "TrimRight (CHR ''0'') (frac_text f) = frac_text f"
    and "\<forall>c\<in>set (frac_text f). is_digit c" and "length (frac_text f) \<le> 2" and "frac_text f \<noteq> []"
    and "parse_digits (frac_text f @ replicate (2 - length (frac_text f)) (CHR ''0'')) = f"
proof -
  have d: "f div 10 < 10" using assms by simp
  have nz: "f mod 10 = 0 \<Longrightarrow> f div 10 \<noteq> 0" using assms by presburger
  show "TrimRight (CHR ''0'') (frac_text f) = frac_text f"
    using d nz assms(1) by (auto simp: frac_text_def TrimRight_def digit_char_eq_0)
  show "\<forall>c\<in>set (frac_text f). is_digit c" "length (frac_text f) \<le> 2" "frac_text f \<noteq> []"
    using d by (auto simp: frac_text_def)
  have "digit_val CHR ''0'' = 0" by (simp add: digit_val_def)
  then show "parse_digits (frac_text f @ replicate (2 - length (frac_text f)) (CHR ''0'')) = f"
    using d by (auto simp: frac_text_def parse_digits_def)
qed

lemma Percent2_String_shape:
  fixes p :: int
  defines "a \<equiv> nat \<bar>p\<bar>"
  assumes "in64 p" and "p \<noteq> - (2 ^ 63)"
  shows "Percent2_String p = (if p < 0 then ''-'' else '''') @ digits (a div 100) @
           (if a mod 100 = 0 then '''' else ''.'' @ frac_text (a mod 100))"
proof -
  have v: "(if p < 0 then wrap64 (- p) else p) = int a"
    using assms by (auto simp: in64_def)
  have whole: "fmt_d (go_div (int a) 100) = digits (a div 100)"
    by (simp add: go_div_nonneg fmt_d_nonneg nat_div_distrib)
  have frac: "go_mod (int a) 100 = int (a mod 100)"
    by (simp add: go_mod_nonneg zmod_int)
  let ?f = "a mod 100"
  have f: "?f < 100" by simp
  have "?f div 10 < 10" using f by simp
  have tens: "go_mod (int ?f) 10 = 0 \<longleftrightarrow> ?f mod 10 = 0"
    by (simp only: go_mod_nonneg of_nat_0_le_iff zero_less_numeral) presburger
  have one: "fmt_d (go_div (int ?f) 10) = [digit_char (?f div 10)]"
    using \<open>?f div 10 < 10\<close> by (simp add: go_div_nonneg fmt_d_nonneg nat_div_distrib digits_one)
  have two: "fmt_02d (int ?f) = [digit_char (?f div 10), digit_char (?f mod 10)]"
    using fmt_02d_two[of "int ?f"] by simp
  show ?thesis
    unfolding Percent2_String_def Let_def v whole frac tens one two frac_text_def by simp
qed

lemma parse_unsigned_parts:
  assumes whole: "\<forall>c\<in>set w. is_digit c" "w \<noteq> []" "length w \<le> 12"
    and rest: "r = [] \<or> (\<exists>x. r = CHR ''.'' # x \<and> x \<noteq> [])"
    and frac: "TrimRight (CHR ''0'') (tl r) = f" "\<forall>c\<in>set f. is_digit c" "length f \<le> 2"
    and val: "v = int (parse_digits w) * 100 + int (parse_digits (f @ replicate (2 - length f) (CHR ''0'')))"
    and fits: "in64 (int (parse_digits w) * 100)" "in64 v" "in64 (- v)"
  shows "parse_unsigned neg (w @ r) = Inr (if neg then - v else v)"
proof -
  have nodot: "\<forall>c\<in>set w. c \<noteq> CHR ''.''" using whole(1) is_digit_facts(1) by blast
  have "takeWhile (\<lambda>c. c \<noteq> CHR ''.'') r = []" "dropWhile (\<lambda>c. c \<noteq> CHR ''.'') r = r"
    using rest by auto
  then have tk: "takeWhile (\<lambda>c. c \<noteq> CHR ''.'') (w @ r) = w"
    and dw: "dropWhile (\<lambda>c. c \<noteq> CHR ''.'') (w @ r) = r"
    using nodot by (simp_all add: takeWhile_append2 dropWhile_append2)
  have "\<not> (r \<noteq> [] \<and> tl r = [])" using rest by auto
  moreover have "\<not> list_ex (\<lambda>c. \<not> is_digit c) (w @ f)" using whole(1) frac(2) by (auto simp: list_ex_iff)
  moreover have "\<not> length f > 2" "\<not> length w > 12" using frac(3) whole(3) by simp_all
  moreover have "wrap64 (wrap64 (int (parse_digits w) * 100) +
      int (parse_digits (f @ replicate (2 - length f) (CHR ''0'')))) = v"
    using fits val by simp
  ultimately show ?thesis
    unfolding parse_unsigned_def Let_def tk dw if_not_P[OF whole(2)] frac(1) using fits(3) by simp
qed

lemma parse_unsigned_text:
  assumes "w < 10 ^ 12" and "f < 100"
  shows "parse_unsigned neg (digits w @ (if f = 0 then '''' else ''.'' @ frac_text f)) =
           Inr (if neg then - (int w * 100 + int f) else int w * 100 + int f)"
proof -
  have len: "length (digits w) \<le> 12" using length_digits[of w 11] assms(1) by simp
  have small: "in64 (int w * 100)" "in64 (int w * 100 + int f)" "in64 (- (int w * 100 + int f))"
    using assms by (simp_all add: in64_def)
  note parts = parse_unsigned_parts[OF _ digits_not_Nil len, where v = "int w * 100 + int f"]
  show ?thesis
  proof (cases "f = 0")
    case True
    show ?thesis
      by (rule parts[where f = "[]"])
        (use True small digits_digits in \<open>auto simp: TrimRight_def parse_digits_def[of "_ # _"]
          digit_val_def numeral_2_eq_2\<close>)
  next
    case False
    then have "0 < f" by simp
    note ft = frac_text_facts[OF this assms(2)]
    show ?thesis
      by (rule parts[where f = "frac_text f"]) (use False small digits_digits ft in auto)
  qed
qed

lemma hd_digits [simp]: "is_digit (hd (digits n))"
  using digits_digits[OF hd_in_set[OF digits_not_Nil]] .

lemma Percent2_String_chars:
  assumes "c \<in> set (Percent2_String p)" and "in64 p" and "p \<noteq> - (2 ^ 63)"
  shows "is_digit c \<or> c = CHR ''.'' \<or> c = CHR ''-''"
  using assms(1) digits_digits frac_text_facts(2)[of "nat \<bar>p\<bar> mod 100"]
  unfolding Percent2_String_shape[OF assms(2,3)] by (auto split: if_splits)

lemma Percent2_String_hd:
  assumes "in64 p" and "p \<noteq> - (2 ^ 63)"
  shows "p < 0 \<and> hd (Percent2_String p) = CHR ''-'' \<or> 0 \<le> p \<and> is_digit (hd (Percent2_String p))"
    and "Percent2_String p \<noteq> []"
  unfolding Percent2_String_shape[OF assms] by auto

lemma ParsePercent2_String:
  assumes "\<bar>p\<bar> < 10 ^ 14"
  shows "ParsePercent2 (Percent2_String p) = Inr p"
proof -
  have p: "in64 p" "p \<noteq> - (2 ^ 63)" using assms by (auto simp: in64_def)
  let ?a = "nat \<bar>p\<bar>"
  have "\<not> is_space c" if "c \<in> set (Percent2_String p)" for c
    using Percent2_String_chars[OF that p] is_digit_facts(4) by (auto simp: is_space_def)
  then have trim: "TrimSpace (Percent2_String p) = Percent2_String p" using TrimSpace_id by blast
  have recombine: "int (?a div 100) * 100 + int (?a mod 100) = int ?a"
    by (metis div_mult_mod_eq of_nat_add of_nat_mult of_nat_numeral)
  have "?a div 100 < 10 ^ 12" "?a mod 100 < 100" using assms by auto
  then have body: "parse_unsigned neg (digits (?a div 100) @ (if ?a mod 100 = 0 then '''' else ''.'' @ frac_text (?a mod 100)))
      = Inr (if neg then - int ?a else int ?a)" for neg
    using parse_unsigned_text[of "?a div 100" "?a mod 100" neg] unfolding recombine by blast
  have shape: "Percent2_String p = (if p < 0 then ''-'' else '''') @ digits (?a div 100) @
      (if ?a mod 100 = 0 then '''' else ''.'' @ frac_text (?a mod 100))"
    by (rule Percent2_String_shape[OF p])
  show ?thesis
  proof (cases "p < 0")
    case True
    with shape have "Percent2_String p = CHR ''-'' # digits (?a div 100) @
        (if ?a mod 100 = 0 then '''' else ''.'' @ frac_text (?a mod 100))" by simp
    then show ?thesis
      using body[of True] True trim by (simp add: ParsePercent2_def Let_def)
  next
    case False
    with shape have plain: "Percent2_String p = digits (?a div 100) @
        (if ?a mod 100 = 0 then '''' else ''.'' @ frac_text (?a mod 100))" by simp
    have hd: "hd (Percent2_String p) \<noteq> CHR ''-''" "hd (Percent2_String p) \<noteq> CHR ''+''"
      using Percent2_String_hd(1)[OF p] False is_digit_facts(2,3) by auto
    have "parse_unsigned False (Percent2_String p) = Inr p"
      using body[of False] False unfolding plain[symmetric] by simp
    then show ?thesis
      using hd Percent2_String_hd(2)[OF p] trim by (simp add: ParsePercent2_def Let_def)
  qed
qed

section \<open>Rounding\<close>

lemma RoundedPercent_nonneg: "0 \<le> p \<Longrightarrow> RoundedPercent p = Some (go_div (wrap64 (p + 50)) 100)"
  by (subst RoundedPercent.simps) simp

text \<open>Where the code would recurse for ever: the smallest \<open>int64\<close> is its own negation.\<close>

lemma wrap64_min: "wrap64 (2 ^ 63) = - (2 ^ 63)"
  by (simp add: wrap64_def)

lemma RoundedPercent_value:
  assumes "- (2 ^ 63) + 50 < p" and "p < 2 ^ 63 - 50"
  shows "RoundedPercent p = Some (if p < 0 then - ((- p + 50) div 100) else (p + 50) div 100)"
proof -
  have nonneg: "RoundedPercent q = Some ((q + 50) div 100)" if "0 \<le> q" "q < 2 ^ 63 - 50" for q
    using that by (simp add: RoundedPercent_nonneg in64_def go_div_nonneg)
  show ?thesis
  proof (cases "p < 0")
    case True
    have "in64 (- p)" "in64 (- ((- p + 50) div 100))" using assms True by (auto simp: in64_def)
    then show ?thesis using True nonneg[of "- p"] assms by (subst RoundedPercent.simps) simp
  qed (use nonneg assms in simp)
qed

section \<open>Properties\<close>

text \<open>
  C5. A percentage survives both of its trips: printing and parsing it (with fewer than twelve
  whole digits), as text or as JSON over any previous value, and writing it to the database and
  reading it back, answer the same percentage.
\<close>

theorem percent2_round_trip:
  assumes "\<bar>p\<bar> < 10 ^ 14"
  shows "ParsePercent2 (Percent2_String p) = Inr p \<and> UnmarshalJSON old (MarshalJSON p) = Inr p \<and>
         ScanNumeric (NumericValue p) = Inr p"
proof -
  have p: "in64 p" "p \<noteq> - (2 ^ 63)" using assms by (auto simp: in64_def)
  note chars = Percent2_String_chars[OF _ p]
  have "\<not> is_space c" if "c \<in> set (Percent2_String p)" for c
    using chars[OF that] is_digit_facts(4) by (auto simp: is_space_def)
  then have trim: "TrimSpace (Percent2_String p) = Percent2_String p" using TrimSpace_id by blast
  have hd: "hd (Percent2_String p) \<noteq> CHR 0x22" "hd (Percent2_String p) \<noteq> CHR ''n''"
    using Percent2_String_hd[OF p] is_digit_facts(5,6) by auto
  then have "Percent2_String p \<noteq> ''null''" by auto
  then have "UnmarshalJSON old (MarshalJSON p) = Inr p"
    using hd trim ParsePercent2_String[OF assms] by (simp add: UnmarshalJSON_def MarshalJSON_def Let_def)
  then show ?thesis
    using ParsePercent2_String[OF assms] p by (simp add: ScanNumeric_def NumericValue_def)
qed

lemma percent2_round_trip_witness:
  "Percent2_String (- 1205) = ''-12.05'' \<and> ParsePercent2 (Percent2_String (- 1205)) = Inr (- 1205)"
proof
  show "Percent2_String (- 1205) = ''-12.05''" by code_simp
  show "ParsePercent2 (Percent2_String (- 1205)) = Inr (- 1205)"
    using percent2_round_trip[of "- 1205"] by simp
qed

text \<open>
  Rounding to whole percents returns the nearest one, halves away from zero, and is odd, for
  every percentage within 50 of the ends of \<open>int64\<close>.
\<close>

theorem rounded_percent_nearest:
  assumes "- (2 ^ 63) + 50 < p" and "p < 2 ^ 63 - 50"
  shows "\<exists>r. RoundedPercent p = Some r \<and> \<bar>100 * r - p\<bar> \<le> 50 \<and>
             (\<bar>100 * r - p\<bar> = 50 \<longrightarrow> \<bar>p\<bar> < 100 * \<bar>r\<bar>) \<and> RoundedPercent (- p) = Some (- r)"
proof (cases "p < 0")
  case True
  have "RoundedPercent (- p) = Some ((- p + 50) div 100)"
    using RoundedPercent_value[of "- p"] assms True by simp
  moreover have "RoundedPercent p = Some (- ((- p + 50) div 100))"
    using RoundedPercent_value[OF assms] True by simp
  moreover define q where "q = (- p + 50) div 100"
  moreover have "100 * q \<le> - p + 50" "- p + 50 < 100 * q + 100" unfolding q_def by simp_all
  then have "\<bar>100 * - q - p\<bar> \<le> 50" "\<bar>100 * - q - p\<bar> = 50 \<longrightarrow> \<bar>p\<bar> < 100 * \<bar>- q\<bar>"
    using True by linarith+
  ultimately show ?thesis by (intro exI[of _ "- q"]) simp
next
  case False
  have "RoundedPercent (- p) = Some (- ((p + 50) div 100))"
    using RoundedPercent_value[of "- p"] RoundedPercent_value[of 0] assms False
    by (cases "p = 0") (simp_all only: minus_minus neg_less_0_iff_less, simp_all)
  moreover have "RoundedPercent p = Some ((p + 50) div 100)"
    using RoundedPercent_value[OF assms] False by simp
  moreover define q where "q = (p + 50) div 100"
  moreover have "100 * q \<le> p + 50" "p + 50 < 100 * q + 100" unfolding q_def by simp_all
  then have "\<bar>100 * q - p\<bar> \<le> 50" "\<bar>100 * q - p\<bar> = 50 \<longrightarrow> \<bar>p\<bar> < 100 * \<bar>q\<bar>"
    using False by linarith+
  ultimately show ?thesis by (intro exI[of _ q]) simp
qed

lemma rounded_percent_nearest_witness:
  "\<exists>r. RoundedPercent (- 1250) = Some r \<and> \<bar>100 * r - (- 1250)\<bar> \<le> 50"
  using rounded_percent_nearest[of "- 1250"] by auto

end
