(* ===== verification/Ledger.thy ===== *)
theory Ledger
  imports Prelude
begin

text \<open>
  The contract the wallets, the cash boxes and the office drawers share: a balance kept beside a
  log of signed entries, moved only by posting an entry. The facts proved here once hold of each
  of them through an interpretation.
\<close>

locale ledger =
  fixes held :: "'s \<Rightarrow> 'k \<Rightarrow> int"
    and entries :: "'s \<Rightarrow> 'k \<Rightarrow> int list"
    and post :: "'k \<Rightarrow> int \<Rightarrow> 's \<Rightarrow> 'e + 's"
  assumes post_held:
      "post k a s = Inr s' \<Longrightarrow> held s' k' = held s k' + (if k' = k then a else 0)"
    and post_entries:
      "post k a s = Inr s' \<Longrightarrow> entries s' k' = entries s k' @ (if k' = k then [a] else [])"
    and post_zero: "failed (post k 0 s)"
begin

definition balanced :: "'s \<Rightarrow> bool" where
  "balanced s \<longleftrightarrow> (\<forall>k. held s k = sum_list (entries s k))"

lemma post_balanced: "post k a s = Inr s' \<Longrightarrow> balanced s \<Longrightarrow> balanced s'"
  by (auto simp: balanced_def post_held post_entries)

text \<open>A batch of entries, stopped by the first one refused.\<close>

definition post_all :: "('k \<times> int) list \<Rightarrow> 's \<Rightarrow> 'e + 's" where
  "post_all es s = foldE (\<lambda>(k, a). post k a) es s"

lemma post_all_balanced: "post_all es s = Inr s' \<Longrightarrow> balanced s \<Longrightarrow> balanced s'"
  unfolding post_all_def by (erule foldE_inv) (auto intro: post_balanced)

lemma post_all_held:
  "post_all es s = Inr s' \<Longrightarrow> held s' k = held s k + sum_list (map snd (filter (\<lambda>e. fst e = k) es))"
  unfolding post_all_def
proof (induction es arbitrary: s)
  case (Cons e es)
  then obtain u where "post (fst e) (snd e) s = Inr u" "foldE (\<lambda>(k, a). post k a) es u = Inr s'"
    by (auto simp: result_simps split: prod.splits)
  with Cons.IH[of u] post_held[of "fst e" "snd e" s u k] show ?case by auto
qed simp

lemma post_all_nonzero:
  "post_all es s = Inr s' \<Longrightarrow> e \<in> set es \<Longrightarrow> snd e \<noteq> 0"
  unfolding post_all_def
proof (induction es arbitrary: s)
  case (Cons x es)
  then obtain u where u: "post (fst x) (snd x) s = Inr u" "foldE (\<lambda>(k, a). post k a) es u = Inr s'"
    by (auto simp: result_simps split: prod.splits)
  have "snd x \<noteq> 0" using u(1) post_zero[of "fst x" s] by (metis failed_Inr)
  with Cons u(2) show ?case by auto
qed simp

text \<open>Taking from one account and giving to another moves no money in or out.\<close>

lemma transfer_held:
  assumes "post a (- x) s = Inr u" and "post b x u = Inr t" and "a \<noteq> b"
  shows "held t a = held s a - x" and "held t b = held s b + x"
    and "k \<noteq> a \<Longrightarrow> k \<noteq> b \<Longrightarrow> held t k = held s k"
  using assms by (auto simp: post_held)

lemma transfer_total:
  assumes "post a (- x) s = Inr u" and "post b x u = Inr t" and "finite K" and "a \<in> K" and "b \<in> K"
  shows "(\<Sum>k\<in>K. held t k) = (\<Sum>k\<in>K. held s k)"
proof -
  have "held t k = held s k + (if k = a then - x else 0) + (if k = b then x else 0)" for k
    using post_held[OF assms(1), of k] post_held[OF assms(2), of k] by simp
  then show ?thesis using assms(3-5) by (simp add: sum.distrib)
qed

end

end
