(* ===== verification/Wallet.thy ===== *)
theory Wallet
  imports "HOL-Library.AList" Ledger
begin

text \<open>
  The money wallets: \<open>wallet/wallet.go\<close> (balance, posting, advances, the treasury and the
  cash-holding account, the paged statement) and \<open>wallet/reserve.go\<close> (the reserved layer).
  A table is a list of rows; the constraints and the trigger of the \<open>wallets\<close> table
  (migration 0474) are part of every write, because the code relies on their refusals. The sums
  of a statement are unbounded integers: the code adds \<open>int64\<close> amounts the same ledger holds.
\<close>

section \<open>Tables\<close>

type_synonym user_id = string

record user =
  u_id :: user_id
  u_phone :: string
  u_admin :: bool
  u_deleted :: bool
  u_created :: int
  u_status :: string
  u_driver :: bool
  u_on_shift :: bool
  u_shift_started :: "int option"
  u_last_assigned :: "int option"
  u_location :: "point option"
  u_location_at :: "int option"

record wallet =
  w_balance :: int
  w_reserved :: int
  w_advance :: int
  w_treasury :: bool
  w_cash_holding :: bool

record wallet_tx =
  tx_id :: int
  tx_user :: user_id
  tx_amount :: int
  tx_kind :: string
  tx_ref :: string
  tx_note :: string
  tx_by :: "user_id option"
  tx_at :: int

text \<open>\<open>db_now\<close> is the transaction's clock, \<open>next_tx\<close> the sequence of the log.\<close>

record wallet_db =
  users :: "user list"
  wallets :: "(user_id \<times> wallet) list"
  wallet_txs :: "wallet_tx list"
  next_tx :: int
  db_now :: int

definition ErrInsufficient :: err where "ErrInsufficient = AppError ''insufficient_balance''"
definition ErrInvalidAmount :: err where "ErrInvalidAmount = AppError ''invalid_amount''"
definition ErrReservedTooMuch :: err where "ErrReservedTooMuch = ErrMsg ''wallet: reserved exceeds available''"

lemma wallet_errors_distinct [simp]:
  "ErrInsufficient \<noteq> ErrInvalidAmount" "ErrInvalidAmount \<noteq> ErrInsufficient"
  "ErrInsufficient \<noteq> ErrDb" "ErrInvalidAmount \<noteq> ErrDb" "ErrReservedTooMuch \<noteq> ErrDb"
  "ErrDb \<noteq> ErrInsufficient" "ErrDb \<noteq> ErrInvalidAmount" "ErrDb \<noteq> ErrReservedTooMuch"
  "ErrReservedTooMuch \<noteq> ErrInvalidAmount" "ErrInvalidAmount \<noteq> ErrReservedTooMuch"
  by (simp_all add: ErrInsufficient_def ErrInvalidAmount_def ErrReservedTooMuch_def)

section \<open>Writing a wallet row\<close>

definition zero_wallet :: wallet where
  "zero_wallet = \<lparr>w_balance = 0, w_reserved = 0, w_advance = 0, w_treasury = False, w_cash_holding = False\<rparr>"

definition wallet_of :: "'a wallet_db_scheme \<Rightarrow> user_id \<Rightarrow> wallet option" where
  "wallet_of db u = map_of (wallets db) u"

text \<open>The trigger \<open>wallets_advance_clamp\<close> and the three CHECK constraints.\<close>

definition advance_clamp :: "wallet \<Rightarrow> wallet" where
  "advance_clamp w = w\<lparr>w_advance := min (w_advance w) (max 0 (- w_balance w))\<rparr>"

definition wallet_ok :: "wallet \<Rightarrow> bool" where
  "wallet_ok w \<longleftrightarrow> 0 \<le> w_advance w \<and> (- w_advance w \<le> w_balance w \<or> w_treasury w) \<and>
     0 \<le> w_reserved w \<and> (w_reserved w = 0 \<or> w_reserved w \<le> w_balance w \<or> w_treasury w)"

definition wallet_fits :: "wallet \<Rightarrow> bool" where
  "wallet_fits w \<longleftrightarrow> in64 (w_balance w) \<and> in64 (w_reserved w) \<and> in64 (w_advance w)"

text \<open>\<open>INSERT INTO wallets ... ON CONFLICT DO NOTHING\<close>: the user must exist.\<close>

definition ensure_wallet :: "user_id \<Rightarrow> 'a wallet_db_scheme \<Rightarrow> err + 'a wallet_db_scheme" where
  "ensure_wallet u db =
    (if wallet_of db u \<noteq> None then Inr db
     else if u \<notin> u_id ` set (users db) then Inl ErrDb
     else Inr (db\<lparr>wallets := AList.update u zero_wallet (wallets db)\<rparr>))"

text \<open>
  \<open>UPDATE wallets SET ... RETURNING\<close>: no row, a number out of range, a violated CHECK
  (which the caller turns into its own error), or the row as the trigger leaves it.
\<close>

definition update_wallet ::
  "err \<Rightarrow> user_id \<Rightarrow> (wallet \<Rightarrow> wallet) \<Rightarrow> 'a wallet_db_scheme \<Rightarrow> err + wallet \<times> 'a wallet_db_scheme" where
  "update_wallet check_err u f db =
    (case wallet_of db u of
       None \<Rightarrow> Inl ErrNoRows
     | Some w \<Rightarrow>
         if \<not> wallet_fits (f w) then Inl ErrDb
         else let w' = advance_clamp (f w)
              in if wallet_ok w' then Inr (w', db\<lparr>wallets := AList.update u w' (wallets db)\<rparr>)
                 else Inl check_err)"

definition insert_wallet_tx ::
  "user_id \<Rightarrow> int \<Rightarrow> string \<Rightarrow> string \<Rightarrow> string \<Rightarrow> user_id option \<Rightarrow> 'a wallet_db_scheme \<Rightarrow> int \<times> 'a wallet_db_scheme" where
  "insert_wallet_tx u amount kind ref note actor db =
    (next_tx db, db\<lparr>wallet_txs := wallet_txs db @
       [\<lparr>tx_id = next_tx db, tx_user = u, tx_amount = amount, tx_kind = kind, tx_ref = ref,
         tx_note = note, tx_by = actor, tx_at = db_now db\<rparr>], next_tx := next_tx db + 1\<rparr>)"

section \<open>Posting\<close>

definition Balance :: "'a wallet_db_scheme \<Rightarrow> user_id \<Rightarrow> int" where
  "Balance db u = (case wallet_of db u of None \<Rightarrow> 0 | Some w \<Rightarrow> w_balance w)"

text \<open>\<open>applyTx\<close> answers the new balance and the id of the log row.\<close>

definition applyTx ::
  "user_id \<Rightarrow> int \<Rightarrow> string \<Rightarrow> string \<Rightarrow> string \<Rightarrow> user_id option \<Rightarrow> 'a wallet_db_scheme \<Rightarrow>
     err + (int \<times> int) \<times> 'a wallet_db_scheme" where
  "applyTx u amount kind ref note actor db =
    (if amount = 0 then Inl ErrInvalidAmount
     else bindE (ensure_wallet u db) (\<lambda>db.
          bindE (update_wallet ErrInsufficient u (\<lambda>w. w\<lparr>w_balance := w_balance w + amount\<rparr>) db) (\<lambda>(w, db).
          let (i, db) = insert_wallet_tx u amount kind ref note actor db
          in Inr ((w_balance w, i), db))))"

definition ApplyTxID ::
  "user_id \<Rightarrow> int \<Rightarrow> string \<Rightarrow> string \<Rightarrow> string \<Rightarrow> user_id option \<Rightarrow> 'a wallet_db_scheme \<Rightarrow>
     err + (int \<times> int) \<times> 'a wallet_db_scheme" where
  "ApplyTxID = applyTx"

definition ApplyTx ::
  "user_id \<Rightarrow> int \<Rightarrow> string \<Rightarrow> string \<Rightarrow> string \<Rightarrow> user_id option \<Rightarrow> 'a wallet_db_scheme \<Rightarrow>
     err + int \<times> 'a wallet_db_scheme" where
  "ApplyTx u amount kind ref note actor db =
     bindE (applyTx u amount kind ref note actor db) (\<lambda>((b, _), db). Inr (b, db))"

definition AdvanceTx ::
  "user_id \<Rightarrow> int \<Rightarrow> string \<Rightarrow> string \<Rightarrow> user_id option \<Rightarrow> 'a wallet_db_scheme \<Rightarrow> err + int \<times> 'a wallet_db_scheme" where
  "AdvanceTx u amount ref note actor db =
    (if amount \<le> 0 then Inl ErrInvalidAmount
     else bindE (ensure_wallet u db) (\<lambda>db.
          bindE (update_wallet ErrInsufficient u
                  (\<lambda>w. w\<lparr>w_balance := w_balance w - amount, w_advance := w_advance w + amount\<rparr>) db) (\<lambda>(w, db).
          let (_, db) = insert_wallet_tx u (- amount) ''advance'' ref note actor db
          in Inr (w_balance w, db))))"

section \<open>The treasury and the cash-holding account\<close>

text \<open>The empty id is Go's answer while there is no admin yet.\<close>

definition EnsureTreasury :: "'a wallet_db_scheme \<Rightarrow> err + user_id \<times> 'a wallet_db_scheme" where
  "EnsureTreasury db =
    (case find (\<lambda>(_, w). w_treasury w) (wallets db) of
       Some (u, _) \<Rightarrow> Inr (u, db)
     | None \<Rightarrow>
        (case sort_key u_created [x \<leftarrow> users db. u_admin x \<and> \<not> u_deleted x] of
           [] \<Rightarrow> Inr ('''', db)
         | x # _ \<Rightarrow>
             bindE (ensure_wallet (u_id x) db) (\<lambda>db.
             bindE (update_wallet ErrDb (u_id x) (\<lambda>w. w\<lparr>w_treasury := True\<rparr>) db) (\<lambda>(_, db).
             Inr (u_id x, db)))))"

definition cashHoldingPhone :: string where "cashHoldingPhone = ''+000000000001''"

text \<open>\<open>fresh\<close> is the id the database generates for the system user, if it inserts one.\<close>

definition EnsureCashHolding :: "user_id \<Rightarrow> 'a wallet_db_scheme \<Rightarrow> err + user_id \<times> 'a wallet_db_scheme" where
  "EnsureCashHolding fresh db =
    (case find (\<lambda>(_, w). w_cash_holding w) (wallets db) of
       Some (u, _) \<Rightarrow> Inr (u, db)
     | None \<Rightarrow>
        (let (uid, db) = (case find (\<lambda>x. u_phone x = cashHoldingPhone) (users db) of
               Some x \<Rightarrow> (u_id x, db)
             | None \<Rightarrow> (fresh, db\<lparr>users := users db @
                 [\<lparr>u_id = fresh, u_phone = cashHoldingPhone, u_admin = False, u_deleted = False,
                   u_created = db_now db, u_status = ''active'', u_driver = False, u_on_shift = False,
       u_shift_started = None, u_last_assigned = None, u_location = None, u_location_at = None\<rparr>]\<rparr>))
         in bindE (ensure_wallet uid db) (\<lambda>db.
            bindE (update_wallet ErrDb uid (\<lambda>w. w\<lparr>w_cash_holding := True\<rparr>) db) (\<lambda>(_, db).
            Inr (uid, db)))))"

section \<open>The reserved layer\<close>

record layers =
  l_balance :: int
  l_reserved :: int
  l_available :: int

definition LayersTx :: "'a wallet_db_scheme \<Rightarrow> user_id \<Rightarrow> layers" where
  "LayersTx db u =
    (let b = Balance db u; r = (case wallet_of db u of None \<Rightarrow> 0 | Some w \<Rightarrow> w_reserved w)
     in \<lparr>l_balance = b, l_reserved = r, l_available = b - r\<rparr>)"

definition AvailableTx :: "'a wallet_db_scheme \<Rightarrow> user_id \<Rightarrow> int" where
  "AvailableTx db u = l_available (LayersTx db u)"

definition ReserveTx :: "user_id \<Rightarrow> int \<Rightarrow> 'a wallet_db_scheme \<Rightarrow> err + 'a wallet_db_scheme" where
  "ReserveTx u amount db =
    (if amount \<le> 0 then Inl ErrInvalidAmount
     else bindE (ensure_wallet u db) (\<lambda>db.
          bindE (update_wallet ErrReservedTooMuch u (\<lambda>w. w\<lparr>w_reserved := w_reserved w + amount\<rparr>) db) (\<lambda>(_, db).
          Inr db)))"

definition ReleaseTx :: "user_id \<Rightarrow> int \<Rightarrow> 'a wallet_db_scheme \<Rightarrow> err + 'a wallet_db_scheme" where
  "ReleaseTx u amount db =
    (if amount \<le> 0 then Inl ErrInvalidAmount
     else bindE (update_wallet ErrReservedTooMuch u (\<lambda>w. w\<lparr>w_reserved := w_reserved w - amount\<rparr>) db) (\<lambda>(_, db).
          Inr db))"

definition SettleReservedTx ::
  "user_id \<Rightarrow> int \<Rightarrow> string \<Rightarrow> string \<Rightarrow> string \<Rightarrow> user_id option \<Rightarrow> 'a wallet_db_scheme \<Rightarrow>
     err + int \<times> 'a wallet_db_scheme" where
  "SettleReservedTx u amount kind ref note actor db =
     bindE (ReleaseTx u amount db) (ApplyTx u (- amount) kind ref note actor)"

section \<open>The statement\<close>

record statement_range =
  sr_from :: "int option"
  sr_to :: "int option"
  sr_limit :: int
  sr_page :: int

record statement =
  st_balance :: int
  st_rows :: "wallet_tx list"
  st_opening :: int
  st_closing :: int
  st_truncated :: bool
  st_total :: nat
  st_page :: int
  st_per_page :: int

definition maxStatementRows :: int where "maxStatementRows = 2000"

definition statementLimit :: "statement_range \<Rightarrow> int" where
  "statementLimit rng =
    (if 0 < sr_limit rng \<and> sr_limit rng \<le> maxStatementRows then sr_limit rng
     else if sr_from rng \<noteq> None \<or> sr_to rng \<noteq> None then maxStatementRows else 50)"

definition in_range :: "statement_range \<Rightarrow> user_id \<Rightarrow> wallet_tx \<Rightarrow> bool" where
  "in_range rng u t \<longleftrightarrow> tx_user t = u \<and>
     (case sr_from rng of None \<Rightarrow> True | Some a \<Rightarrow> a \<le> tx_at t) \<and>
     (case sr_to rng of None \<Rightarrow> True | Some b \<Rightarrow> tx_at t < b)"

text \<open>The rows of the range, latest id first.\<close>

definition range_rows :: "'a wallet_db_scheme \<Rightarrow> user_id \<Rightarrow> statement_range \<Rightarrow> wallet_tx list" where
  "range_rows db u rng = rev (sort_key tx_id [t \<leftarrow> wallet_txs db. in_range rng u t])"

definition Statement :: "'a wallet_db_scheme \<Rightarrow> user_id \<Rightarrow> statement_range \<Rightarrow> statement" where
  "Statement db u rng =
    (let limit = statementLimit rng;
         page = (if sr_page rng < 1 then 1 else sr_page rng);
         offset = (page - 1) * limit;
         rows = range_rows db u rng;
         closing = Balance db u;
         closing = (case sr_to rng of None \<Rightarrow> closing
           | Some b \<Rightarrow> closing - sum_list (map tx_amount [t \<leftarrow> wallet_txs db. tx_user t = u \<and> b \<le> tx_at t]));
         closing = (if offset > 0 then closing - sum_list (map tx_amount (take (nat offset) rows)) else closing);
         shown = take (nat limit) (drop (nat offset) rows)
     in \<lparr>st_balance = Balance db u, st_rows = shown,
         st_opening = closing - sum_list (map tx_amount shown), st_closing = closing,
         st_truncated = (int (length rows) > offset + int (length shown)),
         st_total = length rows, st_page = page, st_per_page = limit\<rparr>)"

definition StatementFor :: "'a wallet_db_scheme \<Rightarrow> user_id \<Rightarrow> int \<Rightarrow> statement" where
  "StatementFor db u limit =
     Statement db u \<lparr>sr_from = None, sr_to = None, sr_limit = limit, sr_page = 0\<rparr>"

section \<open>What each write does\<close>

lemma wallet_of_put [simp]:
  "wallet_of (db\<lparr>wallets := AList.update u w (wallets db)\<rparr>) v = (if v = u then Some w else wallet_of db v)"
  by (simp add: wallet_of_def update_conv)

lemma wallet_of_more [simp]:
  "wallet_of (db\<lparr>wallet_txs := x\<rparr>) v = wallet_of db v"
  "wallet_of (db\<lparr>next_tx := n\<rparr>) v = wallet_of db v"
  "wallet_of (db\<lparr>users := us\<rparr>) v = wallet_of db v"
  by (simp_all add: wallet_of_def)

lemma clamp_simps [simp]:
  "w_balance (advance_clamp w) = w_balance w" "w_reserved (advance_clamp w) = w_reserved w"
  "w_treasury (advance_clamp w) = w_treasury w" "w_cash_holding (advance_clamp w) = w_cash_holding w"
  "w_advance (advance_clamp w) = min (w_advance w) (max 0 (- w_balance w))"
  by (simp_all add: advance_clamp_def)

lemma update_wallet_Inr:
  "update_wallet e u f db = Inr (w', db') \<longleftrightarrow>
     (\<exists>w. wallet_of db u = Some w \<and> wallet_fits (f w) \<and> w' = advance_clamp (f w) \<and> wallet_ok w' \<and>
          db' = db\<lparr>wallets := AList.update u w' (wallets db)\<rparr>)"
  by (auto simp: update_wallet_def Let_def split: option.splits if_splits)

lemma ensure_wallet_Inr:
  "ensure_wallet u db = Inr db' \<Longrightarrow>
     wallet_of db' u = Some (case wallet_of db u of None \<Rightarrow> zero_wallet | Some w \<Rightarrow> w) \<and>
     (\<forall>v. v \<noteq> u \<longrightarrow> wallet_of db' v = wallet_of db v) \<and>
     wallet_txs db' = wallet_txs db \<and> next_tx db' = next_tx db \<and> users db' = users db \<and>
     db_now db' = db_now db"
  by (auto simp: ensure_wallet_def split: if_splits option.splits)

text \<open>Every posting, whatever its caller calls it, moves one balance and appends one row.\<close>

definition posted :: "user_id \<Rightarrow> int \<Rightarrow> 'a wallet_db_scheme \<Rightarrow> 'a wallet_db_scheme \<Rightarrow> bool" where
  "posted u a db db' \<longleftrightarrow>
     (\<forall>v. Balance db' v = Balance db v + (if v = u then a else 0)) \<and>
     (\<exists>t. wallet_txs db' = wallet_txs db @ [t] \<and> tx_user t = u \<and> tx_amount t = a \<and>
          tx_id t = next_tx db \<and> tx_at t = db_now db) \<and>
     next_tx db' = next_tx db + 1 \<and> users db' = users db \<and> db_now db' = db_now db \<and> a \<noteq> 0 \<and>
     (\<forall>v. v \<noteq> u \<longrightarrow> wallet_of db' v = wallet_of db v) \<and>
     (\<exists>w. wallet_of db' u = Some w \<and> wallet_ok w \<and> w_advance w \<le> max 0 (- w_balance w))"

lemma applyTx_Inr:
  assumes "applyTx u amount kind ref note actor db = Inr ((b, i), db')"
  shows "posted u amount db db'" and "b = Balance db u + amount" and "i = next_tx db"
    and "\<exists>w. wallet_of db' u = Some w \<and> w_balance w = b \<and>
           w_reserved w = l_reserved (LayersTx db u) \<and>
           w_advance w \<le> (case wallet_of db u of None \<Rightarrow> 0 | Some w0 \<Rightarrow> w_advance w0)"
proof -
  from assms obtain db1 w where a: "amount \<noteq> 0" and e: "ensure_wallet u db = Inr db1"
    and w: "wallet_of db1 u = Some w"
    and ok: "wallet_ok (advance_clamp (w\<lparr>w_balance := w_balance w + amount\<rparr>))"
    and db': "db' = snd (insert_wallet_tx u amount kind ref note actor
        (db1\<lparr>wallets := AList.update u (advance_clamp (w\<lparr>w_balance := w_balance w + amount\<rparr>)) (wallets db1)\<rparr>))"
    and b: "b = w_balance w + amount" and i: "i = next_tx db1"
    by (auto simp: applyTx_def result_simps update_wallet_Inr insert_wallet_tx_def split: if_splits prod.splits)
  note e' = ensure_wallet_Inr[OF e]
  have bal: "w_balance w = Balance db u"
    using e' w by (auto simp: Balance_def zero_wallet_def split: option.splits)
  show "posted u amount db db'"
    using a e' ok bal unfolding posted_def db'
    by (auto simp: insert_wallet_tx_def Balance_def)
  show "b = Balance db u + amount" "i = next_tx db" using b bal i e' by auto
  show "\<exists>w. wallet_of db' u = Some w \<and> w_balance w = b \<and> w_reserved w = l_reserved (LayersTx db u) \<and>
           w_advance w \<le> (case wallet_of db u of None \<Rightarrow> 0 | Some w0 \<Rightarrow> w_advance w0)"
    using e' w b unfolding db'
    by (auto simp: insert_wallet_tx_def LayersTx_def Let_def zero_wallet_def split: option.splits)
qed

text \<open>A posting touches the wallet tables alone, whatever else the database holds.\<close>

lemma applyTx_frame:
  assumes "applyTx u amount kind ref nt actor db = Inr (r, db')"
  shows "\<exists>ws ts n. db' = db\<lparr>wallets := ws, wallet_txs := ts, next_tx := n\<rparr>"
proof -
  have "\<exists>ws. db1 = db\<lparr>wallets := ws\<rparr>" if "ensure_wallet u db = Inr db1" for db1
    using that by (auto simp: ensure_wallet_def split: if_splits intro: exI[of _ "wallets db"])
  with assms show ?thesis
    by (fastforce simp: applyTx_def result_simps update_wallet_Inr insert_wallet_tx_def split: if_splits prod.splits)
qed

lemma ApplyTx_Inr:
  assumes "ApplyTx u amount kind ref note actor db = Inr (b, db')"
  shows "posted u amount db db'" and "b = Balance db u + amount"
  using assms applyTx_Inr[of u amount kind ref "note" actor db]
  by (auto simp: ApplyTx_def result_simps split: prod.splits)

lemma AdvanceTx_Inr:
  assumes "AdvanceTx u amount ref note actor db = Inr (b, db')"
  shows "posted u (- amount) db db'" and "b = Balance db u - amount" and "0 < amount"
proof -
  from assms obtain db1 w where a: "0 < amount" and e: "ensure_wallet u db = Inr db1"
    and w: "wallet_of db1 u = Some w"
    and ok: "wallet_ok (advance_clamp (w\<lparr>w_balance := w_balance w - amount, w_advance := w_advance w + amount\<rparr>))"
    and db': "db' = snd (insert_wallet_tx u (- amount) ''advance'' ref note actor
        (db1\<lparr>wallets := AList.update u (advance_clamp (w\<lparr>w_balance := w_balance w - amount,
           w_advance := w_advance w + amount\<rparr>)) (wallets db1)\<rparr>))"
    and b: "b = w_balance w - amount"
    by (auto simp: AdvanceTx_def result_simps update_wallet_Inr insert_wallet_tx_def split: if_splits prod.splits)
  note e' = ensure_wallet_Inr[OF e]
  have bal: "w_balance w = Balance db u"
    using e' w by (auto simp: Balance_def zero_wallet_def split: option.splits)
  show "posted u (- amount) db db'"
    using a e' ok bal unfolding posted_def db' by (auto simp: insert_wallet_tx_def Balance_def)
  show "b = Balance db u - amount" "0 < amount" using b bal a by auto
qed

section \<open>The wallet as a ledger\<close>

definition tx_amounts :: "'a wallet_db_scheme \<Rightarrow> user_id \<Rightarrow> int list" where
  "tx_amounts db u = map tx_amount [t \<leftarrow> wallet_txs db. tx_user t = u]"

definition post_wallet ::
  "string \<Rightarrow> string \<Rightarrow> string \<Rightarrow> user_id option \<Rightarrow> user_id \<Rightarrow> int \<Rightarrow> 'a wallet_db_scheme \<Rightarrow> err + 'a wallet_db_scheme" where
  "post_wallet kind ref note actor u a db = bindE (ApplyTx u a kind ref note actor db) (\<lambda>(_, db). Inr db)"

lemma post_wallet_Inr: "post_wallet kind ref nt actor u a db = Inr db' \<Longrightarrow> posted u a db db'"
  by (auto simp: post_wallet_def result_simps dest: ApplyTx_Inr)

lemma posted_tx_amounts: "posted u a db db' \<Longrightarrow> tx_amounts db' v = tx_amounts db v @ (if v = u then [a] else [])"
  by (auto simp: posted_def tx_amounts_def)

interpretation wallet_ledger: ledger Balance tx_amounts "post_wallet kind ref nt actor"
  for kind ref nt actor
proof
  show "failed (post_wallet kind ref nt actor k 0 s)" for k s
    by (simp add: post_wallet_def ApplyTx_def applyTx_def)
qed (auto dest!: post_wallet_Inr simp: posted_tx_amounts, auto simp: posted_def)

text \<open>The ledger invariant in full: rows within their constraints, balances explained by the log.\<close>

definition wallet_inv :: "'a wallet_db_scheme \<Rightarrow> bool" where
  "wallet_inv db \<longleftrightarrow>
     (\<forall>u. Balance db u = sum_list (tx_amounts db u)) \<and>
     (\<forall>u w. wallet_of db u = Some w \<longrightarrow> wallet_ok w \<and> w_advance w \<le> max 0 (- w_balance w)) \<and>
     (\<forall>t\<in>set (wallet_txs db). tx_amount t \<noteq> 0 \<and> tx_id t < next_tx db) \<and>
     sorted (map tx_id (wallet_txs db)) \<and> distinct (map tx_id (wallet_txs db))"

lemma posted_inv:
  assumes "posted u a db db'" and "wallet_inv db"
  shows "wallet_inv db'"
proof -
  from assms(1) obtain t w where t: "wallet_txs db' = wallet_txs db @ [t]" "tx_amount t = a" "tx_id t = next_tx db"
    and w: "wallet_of db' u = Some w" "wallet_ok w" "w_advance w \<le> max 0 (- w_balance w)"
    and rest: "\<And>v. v \<noteq> u \<Longrightarrow> wallet_of db' v = wallet_of db v" "next_tx db' = next_tx db + 1" "a \<noteq> 0"
    and bal: "\<And>v. Balance db' v = Balance db v + (if v = u then a else 0)"
    unfolding posted_def by blast
  have "Balance db' v = sum_list (tx_amounts db' v)" for v
    using assms bal posted_tx_amounts[OF assms(1)] by (simp add: wallet_inv_def)
  moreover have "wallet_ok x \<and> w_advance x \<le> max 0 (- w_balance x)" if "wallet_of db' v = Some x" for v x
  proof (cases "v = u")
    case False
    with that rest(1) assms(2) show ?thesis by (auto simp: wallet_inv_def)
  qed (use that w in auto)
  moreover have "\<forall>x\<in>set (wallet_txs db'). tx_amount x \<noteq> 0 \<and> tx_id x < next_tx db'"
    using assms(2) t rest by (auto simp: wallet_inv_def)
  moreover have "sorted (map tx_id (wallet_txs db'))" "distinct (map tx_id (wallet_txs db'))"
    using assms(2) t by (auto simp: wallet_inv_def sorted_append intro: less_imp_le)
  ultimately show ?thesis unfolding wallet_inv_def by blast
qed

lemma wallets_only_inv:
  assumes "wallet_inv db" and "wallet_txs db' = wallet_txs db" and "next_tx db' = next_tx db"
    and "\<And>v. Balance db' v = Balance db v"
    and "\<And>v w. wallet_of db' v = Some w \<Longrightarrow> wallet_ok w \<and> w_advance w \<le> max 0 (- w_balance w)"
  shows "wallet_inv db'"
  using assms by (auto simp: wallet_inv_def tx_amounts_def)

lemma ensure_wallet_inv:
  assumes "ensure_wallet u db = Inr db'" and "wallet_inv db"
  shows "wallet_inv db'"
proof (rule wallets_only_inv[OF assms(2)])
  note e = ensure_wallet_Inr[OF assms(1)]
  show "Balance db' v = Balance db v" for v
    using e by (cases "v = u") (auto simp: Balance_def zero_wallet_def split: option.splits)
  show "wallet_ok w \<and> w_advance w \<le> max 0 (- w_balance w)" if "wallet_of db' v = Some w" for v w
    using that e assms(2)
    by (cases "v = u") (auto simp: wallet_inv_def zero_wallet_def wallet_ok_def split: option.splits)
qed (use ensure_wallet_Inr[OF assms(1)] in auto)

lemma update_wallet_inv:
  assumes "update_wallet e u f db = Inr (w', db')" and "wallet_inv db"
    and "\<And>w. w_balance (f w) = w_balance w"
  shows "wallet_inv db'"
proof (rule wallets_only_inv[OF assms(2)])
  from assms(1) obtain w where w: "wallet_of db u = Some w" "w' = advance_clamp (f w)" "wallet_ok w'"
    and db': "db' = db\<lparr>wallets := AList.update u w' (wallets db)\<rparr>"
    by (auto simp: update_wallet_Inr)
  show "Balance db' v = Balance db v" for v
    using w assms(3) unfolding db' Balance_def by auto
  show "wallet_ok x \<and> w_advance x \<le> max 0 (- w_balance x)" if "wallet_of db' v = Some x" for v x
    using that w assms(2) unfolding db' by (auto simp: wallet_inv_def split: if_splits)
qed (use assms(1) in \<open>auto simp: update_wallet_Inr\<close>)

section \<open>Every operation keeps the invariant\<close>

datatype wallet_op =
    Op_Apply user_id int string string string "user_id option"
  | Op_Advance user_id int string string "user_id option"
  | Op_Reserve user_id int
  | Op_Release user_id int
  | Op_SettleReserved user_id int string string string "user_id option"
  | Op_EnsureTreasury
  | Op_EnsureCashHolding user_id

fun run_wallet_op :: "wallet_op \<Rightarrow> 'a wallet_db_scheme \<Rightarrow> err + 'a wallet_db_scheme" where
  "run_wallet_op (Op_Apply u a k r n by) db = bindE (ApplyTx u a k r n by db) (\<lambda>(_, db). Inr db)"
| "run_wallet_op (Op_Advance u a r n by) db = bindE (AdvanceTx u a r n by db) (\<lambda>(_, db). Inr db)"
| "run_wallet_op (Op_Reserve u a) db = ReserveTx u a db"
| "run_wallet_op (Op_Release u a) db = ReleaseTx u a db"
| "run_wallet_op (Op_SettleReserved u a k r n by) db =
     bindE (SettleReservedTx u a k r n by db) (\<lambda>(_, db). Inr db)"
| "run_wallet_op Op_EnsureTreasury db = bindE (EnsureTreasury db) (\<lambda>(_, db). Inr db)"
| "run_wallet_op (Op_EnsureCashHolding fresh) db = bindE (EnsureCashHolding fresh db) (\<lambda>(_, db). Inr db)"

lemma ReleaseTx_inv: "ReleaseTx u a db = Inr db' \<Longrightarrow> wallet_inv db \<Longrightarrow> wallet_inv db'"
  by (auto simp: ReleaseTx_def result_simps elim!: update_wallet_inv)

lemma ReserveTx_inv: "ReserveTx u a db = Inr db' \<Longrightarrow> wallet_inv db \<Longrightarrow> wallet_inv db'"
  by (auto simp: ReserveTx_def result_simps elim!: update_wallet_inv ensure_wallet_inv)

lemma EnsureTreasury_inv: "EnsureTreasury db = Inr (u, db') \<Longrightarrow> wallet_inv db \<Longrightarrow> wallet_inv db'"
  by (auto simp: EnsureTreasury_def result_simps split: option.splits list.splits prod.splits
      elim!: update_wallet_inv ensure_wallet_inv)

lemma users_only_inv: "wallet_inv (db\<lparr>users := us\<rparr>) \<longleftrightarrow> wallet_inv db"
  by (simp add: wallet_inv_def tx_amounts_def Balance_def)

lemma EnsureCashHolding_inv:
  "EnsureCashHolding fresh db = Inr (u, db') \<Longrightarrow> wallet_inv db \<Longrightarrow> wallet_inv db'"
  by (auto simp: EnsureCashHolding_def result_simps Let_def users_only_inv split: option.splits prod.splits
      elim!: update_wallet_inv ensure_wallet_inv)

lemma run_wallet_op_inv: "run_wallet_op op db = Inr db' \<Longrightarrow> wallet_inv db \<Longrightarrow> wallet_inv db'"
proof (cases op)
  case (Op_SettleReserved u a k r n by')
  assume "run_wallet_op op db = Inr db'" "wallet_inv db"
  then show ?thesis
    unfolding Op_SettleReserved
    by (auto simp: SettleReservedTx_def result_simps dest: ReleaseTx_inv posted_inv ApplyTx_Inr(1))
qed (auto simp: result_simps dest: posted_inv ApplyTx_Inr(1) AdvanceTx_Inr(1) ReserveTx_inv ReleaseTx_inv
    EnsureTreasury_inv EnsureCashHolding_inv)

definition empty_wallet_db :: "user list \<Rightarrow> int \<Rightarrow> wallet_db" where
  "empty_wallet_db us now = \<lparr>users = us, wallets = [], wallet_txs = [], next_tx = 1, db_now = now\<rparr>"

lemma empty_wallet_inv [simp]: "wallet_inv (empty_wallet_db us now)"
  by (simp add: wallet_inv_def empty_wallet_db_def Balance_def wallet_of_def tx_amounts_def)

lemma run_wallet_ops_inv:
  "foldE run_wallet_op ops db = Inr db' \<Longrightarrow> wallet_inv db \<Longrightarrow> wallet_inv db'"
  by (erule foldE_inv) (auto intro: run_wallet_op_inv)

section \<open>What a posting answers\<close>

lemma ensure_wallet_present: "wallet_of db u = Some w \<Longrightarrow> ensure_wallet u db = Inr db"
  by (simp add: ensure_wallet_def)

lemma wallet_ok_apply:
  assumes "0 \<le> w_advance w" and "0 \<le> w_reserved w" and "\<not> w_treasury w"
  shows "wallet_ok (advance_clamp (w\<lparr>w_balance := b\<rparr>)) \<longleftrightarrow>
           - w_advance w \<le> b \<and> (w_reserved w = 0 \<or> w_reserved w \<le> b)"
  using assms by (auto simp: wallet_ok_def)

lemma applyTx_present:
  assumes "wallet_of db u = Some w" and "a \<noteq> 0"
  shows "applyTx u a kind ref nt actor db =
    (if \<not> wallet_fits (w\<lparr>w_balance := w_balance w + a\<rparr>) then Inl ErrDb
     else if \<not> wallet_ok (advance_clamp (w\<lparr>w_balance := w_balance w + a\<rparr>)) then Inl ErrInsufficient
     else Inr ((w_balance w + a, next_tx db), snd (insert_wallet_tx u a kind ref nt actor
       (db\<lparr>wallets := AList.update u (advance_clamp (w\<lparr>w_balance := w_balance w + a\<rparr>)) (wallets db)\<rparr>))))"
  using assms
  by (simp add: applyTx_def ensure_wallet_present update_wallet_def Let_def insert_wallet_tx_def)

lemma wallet_inv_row:
  assumes "wallet_inv db" and "wallet_of db u = Some w"
  shows "wallet_ok w" "0 \<le> w_advance w" "0 \<le> w_reserved w" "w_advance w \<le> max 0 (- w_balance w)"
  using assms by (auto simp: wallet_inv_def wallet_ok_def)

text \<open>A small ledger for the examples: one wallet of 900, of which 300 are reserved.\<close>

definition example_wallet_db :: wallet_db where
  "example_wallet_db = (empty_wallet_db [] 0)
     \<lparr>wallets := [(''a'', zero_wallet\<lparr>w_balance := 900, w_reserved := 300\<rparr>)],
      wallet_txs := [\<lparr>tx_id = 0, tx_user = ''a'', tx_amount = 900, tx_kind = [], tx_ref = [],
        tx_note = [], tx_by = None, tx_at = 0\<rparr>]\<rparr>"

lemma example_wallet_db:
  "wallet_inv example_wallet_db"
  "wallet_of example_wallet_db ''a'' = Some (zero_wallet\<lparr>w_balance := 900, w_reserved := 300\<rparr>)"
  by (auto simp: wallet_inv_def Balance_def wallet_of_def tx_amounts_def empty_wallet_db_def
      wallet_ok_def zero_wallet_def example_wallet_db_def)

section \<open>Properties\<close>

text \<open>
  C6. After any sequence of wallet operations that the database accepts, from an empty ledger,
  every balance is the sum of its log, no log row is zero, no ids repeat, and a wallet other than
  the treasury is never below its outstanding advance nor below what is reserved in it.
\<close>

theorem wallet_history_explains_balance:
  assumes "foldE run_wallet_op ops (empty_wallet_db us now) = Inr db"
  shows "(\<forall>u. Balance db u = sum_list (tx_amounts db u) \<and> 0 \<notin> set (tx_amounts db u)) \<and>
         distinct (map tx_id (wallet_txs db)) \<and>
         (\<forall>u w. wallet_of db u = Some w \<longrightarrow> \<not> w_treasury w \<longrightarrow>
            - w_advance w \<le> w_balance w \<and> 0 \<le> w_reserved w \<and> (0 < w_reserved w \<longrightarrow> w_reserved w \<le> w_balance w))"
proof (intro conjI allI impI)
  have inv: "wallet_inv db" by (rule run_wallet_ops_inv[OF assms empty_wallet_inv])
  then show "Balance db u = sum_list (tx_amounts db u)" "0 \<notin> set (tx_amounts db u)"
    and "distinct (map tx_id (wallet_txs db))" for u
    by (auto simp: wallet_inv_def tx_amounts_def)
  fix u w assume w: "wallet_of db u = Some w" "\<not> w_treasury w"
  show "- w_advance w \<le> w_balance w" "0 \<le> w_reserved w"
    and "0 < w_reserved w \<Longrightarrow> w_reserved w \<le> w_balance w"
    using wallet_inv_row(1)[OF inv w(1)] w(2) by (auto simp: wallet_ok_def)
qed

lemma wallet_history_explains_balance_witness:
  "\<exists>db. foldE run_wallet_op [Op_Apply ''a'' 900 ''topup'' [] [] None, Op_Reserve ''a'' 300,
          Op_Apply ''a'' (- 500) ''order'' ''o1'' [] None]
        (empty_wallet_db [\<lparr>u_id = ''a'', u_phone = [], u_admin = True, u_deleted = False, u_created = 0, u_status = ''active'', u_driver = False, u_on_shift = False,
       u_shift_started = None, u_last_assigned = None, u_location = None, u_location_at = None\<rparr>] 7) = Inr db
      \<and> Balance db ''a'' = sum_list (tx_amounts db ''a'')"
proof -
  let ?ops = "[Op_Apply ''a'' 900 ''topup'' [] [] None, Op_Reserve ''a'' 300,
      Op_Apply ''a'' (- 500) ''order'' ''o1'' [] None]"
  let ?db = "empty_wallet_db [\<lparr>u_id = ''a'', u_phone = [], u_admin = True, u_deleted = False, u_created = 0, u_status = ''active'', u_driver = False, u_on_shift = False,
       u_shift_started = None, u_last_assigned = None, u_location = None, u_location_at = None\<rparr>] 7"
  have "\<not> failed (foldE run_wallet_op ?ops ?db)" by code_simp
  then obtain db where db: "foldE run_wallet_op ?ops ?db = Inr db"
    by (cases "foldE run_wallet_op ?ops ?db") auto
  with wallet_history_explains_balance[OF db] show ?thesis by blast
qed

text \<open>
  A posting to an existing wallet (not the treasury's) answers exactly this: zero is invalid,
  a balance outside 64 bits is a database error, a balance below the outstanding advance or below
  the reserved money is insufficient, and everything else moves the balance by the amount and
  appends its one log row.
\<close>

theorem posting_answers:
  assumes "wallet_inv db" and "wallet_of db u = Some w" and "\<not> w_treasury w" and "wallet_fits w"
  shows "if a = 0 then ApplyTx u a kind ref nt actor db = Inl ErrInvalidAmount
         else if \<not> in64 (w_balance w + a) then ApplyTx u a kind ref nt actor db = Inl ErrDb
         else if w_balance w + a < - w_advance w \<or> (w_reserved w \<noteq> 0 \<and> w_balance w + a < w_reserved w)
         then ApplyTx u a kind ref nt actor db = Inl ErrInsufficient
         else \<exists>db'. ApplyTx u a kind ref nt actor db = Inr (w_balance w + a, db') \<and> posted u a db db'"
proof -
  note row = wallet_inv_row[OF assms(1,2)]
  have fits: "wallet_fits (w\<lparr>w_balance := w_balance w + a\<rparr>) \<longleftrightarrow> in64 (w_balance w + a)"
    using assms(4) by (simp add: wallet_fits_def)
  note app = applyTx_present[OF assms(2), of a kind ref nt actor] wallet_ok_apply[OF row(2,3) assms(3)]
  have post: "posted u a db db'" if "ApplyTx u a kind ref nt actor db = Inr (w_balance w + a, db')" for db'
    using ApplyTx_Inr(1)[OF that] .
  show ?thesis
  proof (cases "a = 0")
    case True
    then show ?thesis by (simp add: ApplyTx_def applyTx_def)
  next
    case False
    show ?thesis
      using app False fits post by (fastforce simp: ApplyTx_def not_less)
  qed
qed

lemma posting_answers_witness:
  "ApplyTx ''a'' (- 700) ''order'' [] [] None example_wallet_db = Inl ErrInsufficient"
  using posting_answers[OF example_wallet_db, of "- 700" "''order''" "[]" "[]" None]
  by (simp add: zero_wallet_def wallet_fits_def in64_def)

text \<open>
  Reserved money is really there: whatever happened since it was reserved, settling up to the
  reserved amount of a wallet succeeds, takes it from the balance and from the reservation alike,
  so that what is available does not change, and writes one log row.
\<close>

theorem reserved_money_settles:
  assumes "wallet_inv db" and "wallet_of db u = Some w" and "\<not> w_treasury w" and "wallet_fits w"
    and "0 < a" and "a \<le> w_reserved w"
  shows "\<exists>db'. SettleReservedTx u a kind ref nt actor db = Inr (w_balance w - a, db') \<and>
           l_reserved (LayersTx db' u) = w_reserved w - a \<and>
           AvailableTx db' u = AvailableTx db u \<and> wallet_txs db' \<noteq> wallet_txs db \<and> wallet_inv db'"
proof -
  note row = wallet_inv_row[OF assms(1,2)]
  have big: "w_reserved w \<le> w_balance w" using row(1) assms(3,5,6) by (auto simp: wallet_ok_def)
  let ?w1 = "advance_clamp (w\<lparr>w_reserved := w_reserved w - a\<rparr>)"
  let ?db1 = "db\<lparr>wallets := AList.update u ?w1 (wallets db)\<rparr>"
  have adv: "w_advance w = 0" using row(2,4) big assms(5,6) by simp
  have "wallet_fits (w\<lparr>w_reserved := w_reserved w - a\<rparr>)" "wallet_ok ?w1"
    using assms(3-6) big adv by (auto simp: wallet_fits_def in64_def wallet_ok_def)
  then have upd: "update_wallet ErrReservedTooMuch u (\<lambda>w. w\<lparr>w_reserved := w_reserved w - a\<rparr>) db = Inr (?w1, ?db1)"
    using assms(2) by (simp add: update_wallet_Inr)
  then have rel: "ReleaseTx u a db = Inr ?db1" using assms(5) by (simp add: ReleaseTx_def)
  have inv1: "wallet_inv ?db1" by (rule ReleaseTx_inv[OF rel assms(1)])
  have row1: "wallet_of ?db1 u = Some ?w1" by simp
  have "wallet_fits (?w1\<lparr>w_balance := w_balance ?w1 - a\<rparr>)"
    using assms(4-6) big adv by (auto simp: wallet_fits_def in64_def)
  moreover have "wallet_ok (advance_clamp (?w1\<lparr>w_balance := w_balance ?w1 - a\<rparr>))"
    using assms(3,5,6) big adv by (auto simp: wallet_ok_def)
  ultimately obtain i db' where ap: "applyTx u (- a) kind ref nt actor ?db1 = Inr ((w_balance w - a, i), db')"
    using applyTx_present[OF row1, of "- a" kind ref nt actor] assms(5) by auto
  then have "SettleReservedTx u a kind ref nt actor db = Inr (w_balance w - a, db')"
    by (simp add: SettleReservedTx_def rel ApplyTx_def)
  moreover obtain w' where w': "wallet_of db' u = Some w'" "w_balance w' = w_balance w - a"
      "w_reserved w' = w_reserved w - a"
    using applyTx_Inr(4)[OF ap] by (auto simp: LayersTx_def Let_def)
  moreover have "wallet_inv db'" by (rule posted_inv[OF applyTx_Inr(1)[OF ap] inv1])
  moreover have "wallet_txs db' \<noteq> wallet_txs db" using applyTx_Inr(1)[OF ap] by (auto simp: posted_def)
  ultimately show ?thesis
    using assms(2) by (auto simp: LayersTx_def Let_def AvailableTx_def Balance_def)
qed

lemma reserved_money_settles_witness:
  "\<exists>db'. SettleReservedTx ''a'' 200 ''order'' [] [] None example_wallet_db = Inr (700, db')"
  using reserved_money_settles[OF example_wallet_db, of 200 "''order''" "[]" "[]" None]
  by (auto simp: zero_wallet_def wallet_fits_def in64_def)

lemma statementLimit_pos: "0 < statementLimit rng"
  by (auto simp: statementLimit_def maxStatementRows_def)

lemma sum_take_drop:
  fixes f :: "'b \<Rightarrow> int"
  shows "sum_list (map f (take n xs)) + sum_list (map f (take m (drop n xs))) = sum_list (map f (take (n + m) xs))"
  by (simp add: take_add)

text \<open>The closing balance of a page is the balance before all later rows.\<close>

definition range_closing :: "'a wallet_db_scheme \<Rightarrow> user_id \<Rightarrow> statement_range \<Rightarrow> int" where
  "range_closing db u rng = Balance db u - (case sr_to rng of None \<Rightarrow> 0
     | Some b \<Rightarrow> sum_list (map tx_amount [t \<leftarrow> wallet_txs db. tx_user t = u \<and> b \<le> tx_at t]))"

lemma Statement_page:
  fixes rng :: statement_range and p :: nat and db :: "'a wallet_db_scheme" and u :: user_id
  assumes "sr_page rng = int p + 1"
  defines "L \<equiv> nat (statementLimit rng)" and "rows \<equiv> range_rows db u rng"
  shows "st_rows (Statement db u rng) = take L (drop (p * L) rows)"
    and "st_closing (Statement db u rng) = range_closing db u rng - sum_list (map tx_amount (take (p * L) rows))"
    and "st_opening (Statement db u rng) = range_closing db u rng - sum_list (map tx_amount (take (p * L + L) rows))"
    and "st_total (Statement db u rng) = length rows"
    and "st_truncated (Statement db u rng) \<longleftrightarrow> p * L + L < length rows"
proof -
  have L: "0 < L" "statementLimit rng = int L" using statementLimit_pos[of rng] by (simp_all add: L_def)
  have page: "(if sr_page rng < 1 then 1 else sr_page rng) - 1 = int p" using assms(1) by simp
  have off: "nat (int p * int L) = p * L" "(0 < int p * int L) = (0 < p * L)"
    using L by (simp_all add: nat_mult_distrib zero_less_mult_iff)
  show "st_rows (Statement db u rng) = take L (drop (p * L) rows)"
    and "st_total (Statement db u rng) = length rows"
    by (simp_all add: Statement_def Let_def rows_def L(2) page off)
  show closing: "st_closing (Statement db u rng) =
      range_closing db u rng - sum_list (map tx_amount (take (p * L) rows))"
    using L by (auto simp: Statement_def Let_def rows_def L(2) page off range_closing_def split: option.splits)
  have "st_opening (Statement db u rng) =
      st_closing (Statement db u rng) - sum_list (map tx_amount (st_rows (Statement db u rng)))"
    by (simp add: Statement_def Let_def)
  then show "st_opening (Statement db u rng) =
      range_closing db u rng - sum_list (map tx_amount (take (p * L + L) rows))"
    unfolding closing \<open>st_rows (Statement db u rng) = take L (drop (p * L) rows)\<close>
    using sum_take_drop[of tx_amount "p * L" rows L] by simp
  have "int (length rows) > int p * int L + int (length (take L (drop (p * L) rows))) \<longleftrightarrow> p * L + L < length rows"
    by (simp only: length_take length_drop flip: of_nat_mult of_nat_add, simp only: of_nat_less_iff) (simp add: min_def, linarith)
  then show "st_truncated (Statement db u rng) \<longleftrightarrow> p * L + L < length rows"
    by (simp add: Statement_def Let_def rows_def L(2) page off)
qed

text \<open>Every row of the user is before the end of the range, in it, or after it.\<close>

lemma range_closing_all:
  assumes "wallet_inv db" and "sr_from rng = None"
  shows "range_closing db u rng = sum_list (map tx_amount (range_rows db u rng))"
proof -
  have "sum_list (map tx_amount (range_rows db u rng)) =
      sum_list (map tx_amount [t \<leftarrow> wallet_txs db. in_range rng u t])"
    by (simp add: range_rows_def sum_list_map_rev sum_list_map_sort_key)
  moreover have "sum_list (map tx_amount [t \<leftarrow> ts. tx_user t = u]) =
      sum_list (map tx_amount [t \<leftarrow> ts. in_range rng u t]) + (case sr_to rng of None \<Rightarrow> 0
        | Some b \<Rightarrow> sum_list (map tx_amount [t \<leftarrow> ts. tx_user t = u \<and> b \<le> tx_at t]))" for ts
    using assms(2) by (induction ts) (auto simp: in_range_def split: option.splits)
  ultimately show ?thesis
    using assms(1) by (simp add: range_closing_def wallet_inv_def tx_amounts_def)
qed

text \<open>
  A statement adds up across its pages: on every page the opening balance plus the rows shown
  is the closing balance, the opening of a page is the closing of the next, the first page of an
  open range closes at the wallet's balance, and where nothing is left to show the range without a
  start opens at zero.
\<close>

theorem statement_pages_chain:
  fixes p :: nat
  assumes "wallet_inv db" and "sr_page rng = int p + 1"
  shows "st_opening (Statement db u rng) + sum_list (map tx_amount (st_rows (Statement db u rng)))
           = st_closing (Statement db u rng) \<and>
         st_opening (Statement db u rng) = st_closing (Statement db u (rng\<lparr>sr_page := int p + 2\<rparr>)) \<and>
         (p = 0 \<and> sr_to rng = None \<longrightarrow> st_closing (Statement db u rng) = Balance db u) \<and>
         (sr_from rng = None \<and> \<not> st_truncated (Statement db u rng) \<longrightarrow> st_opening (Statement db u rng) = 0)"
proof (intro conjI impI)
  note page = Statement_page[OF assms(2)]
  have next_page: "sr_page (rng\<lparr>sr_page := int p + 2\<rparr>) = int (p + 1) + 1" by simp
  have same: "statementLimit (rng\<lparr>sr_page := x\<rparr>) = statementLimit rng"
    "range_rows db u (rng\<lparr>sr_page := x\<rparr>) = range_rows db u rng"
    "range_closing db u (rng\<lparr>sr_page := x\<rparr>) = range_closing db u rng" for x
    by (simp_all add: statementLimit_def range_rows_def in_range_def[abs_def] range_closing_def)
  show "st_opening (Statement db u rng) + sum_list (map tx_amount (st_rows (Statement db u rng)))
      = st_closing (Statement db u rng)"
    by (simp add: Statement_def Let_def)
  show "st_opening (Statement db u rng) = st_closing (Statement db u (rng\<lparr>sr_page := int p + 2\<rparr>))"
    unfolding page(3) Statement_page(2)[OF next_page] same by (simp add: algebra_simps)
  show "st_closing (Statement db u rng) = Balance db u" if "p = 0 \<and> sr_to rng = None"
    using that page(2)[of db u] by (simp add: range_closing_def)
  show "st_opening (Statement db u rng) = 0" if "sr_from rng = None \<and> \<not> st_truncated (Statement db u rng)"
    using that page(3,5)[of db u] range_closing_all[OF assms(1)] by simp
qed

lemma statement_pages_chain_witness:
  "st_opening (Statement example_wallet_db ''a''
     \<lparr>sr_from = None, sr_to = None, sr_limit = 10, sr_page = 1\<rparr>) = 0"
proof -
  let ?r = "\<lparr>sr_from = None, sr_to = None, sr_limit = 10, sr_page = 1\<rparr>"
  have "\<not> st_truncated (Statement example_wallet_db ''a'' ?r)" by code_simp
  then show ?thesis
    using statement_pages_chain[OF example_wallet_db(1), of ?r 0 "''a''"] by simp
qed

end
