(* ===== verification/Statuses.thy ===== *)
theory Statuses
  imports Prelude
begin

text \<open>
  The order status machine of \<open>orders/statuses.go\<close>: the fourteen statuses, the three kinds
  of order, the transition maps (the general one, the custom one, the head of the merchant
  delivery) with the roles each edge authorises, and the functions that read them. Roles are
  strings, as in the code: a role that no map mentions authorises nothing.
\<close>

section \<open>Statuses, kinds, transitions\<close>

datatype status =
    StPending | StAccepted | StPreparing | StDispatching | StAssigned | StAtPickup
  | StPickedUp | StOnTheWay | StAtDropoff | StDelivered | StRejected | StCancelled
  | StFailed | StRefunded

datatype kind = KindStandard | KindCustom | KindMerchantDelivery

type_synonym role = string

record transition =
  t_to :: status
  t_roles :: "role list"

definition opsRoles :: "role list" where
  "opsRoles = [''ops'']"

definition merchantOps :: "role list" where
  "merchantOps = [''merchant'', ''ops'']"

definition driverOps :: "role list" where
  "driverOps = [''driver'', ''ops'']"

definition edge :: "status \<Rightarrow> role list \<Rightarrow> transition" where
  "edge t rs = \<lparr>t_to = t, t_roles = rs\<rparr>"

lemma edge_sel [simp]: "t_to (edge t rs) = t" "t_roles (edge t rs) = rs"
  by (simp_all add: edge_def)

section \<open>The maps\<close>

text \<open>A Go map without the key answers the empty slice; \<open>None\<close> is the missing key.\<close>

fun allowedTransitions :: "status \<Rightarrow> transition list option" where
  "allowedTransitions StPending = Some
     [edge StAccepted merchantOps, edge StRejected merchantOps,
      edge StCancelled [''customer'', ''ops'']]"
| "allowedTransitions StAccepted = Some
     [edge StPreparing merchantOps, edge StDispatching opsRoles,
      edge StCancelled [''customer'', ''merchant'', ''ops'']]"
| "allowedTransitions StPreparing = Some
     [edge StDispatching opsRoles, edge StCancelled merchantOps]"
| "allowedTransitions StDispatching = Some
     [edge StAssigned driverOps, edge StCancelled opsRoles]"
| "allowedTransitions StAssigned = Some
     [edge StAtPickup driverOps, edge StDispatching driverOps, edge StCancelled opsRoles]"
| "allowedTransitions StAtPickup = Some
     [edge StPickedUp driverOps, edge StFailed driverOps, edge StDispatching driverOps,
      edge StCancelled opsRoles]"
| "allowedTransitions StPickedUp = Some
     [edge StOnTheWay driverOps, edge StDispatching opsRoles, edge StFailed opsRoles]"
| "allowedTransitions StOnTheWay = Some
     [edge StAtDropoff driverOps, edge StDispatching opsRoles, edge StFailed opsRoles]"
| "allowedTransitions StAtDropoff = Some
     [edge StDelivered driverOps, edge StFailed opsRoles, edge StDispatching opsRoles]"
| "allowedTransitions StDelivered = Some [edge StRefunded []]"
| "allowedTransitions _ = None"

fun customTransitions :: "status \<Rightarrow> transition list option" where
  "customTransitions StPending = Some
     [edge StDispatching opsRoles, edge StRejected opsRoles,
      edge StCancelled [''customer'', ''ops'']]"
| "customTransitions StDispatching = Some
     [edge StAssigned driverOps, edge StCancelled [''customer'', ''ops'']]"
| "customTransitions StAssigned = Some
     [edge StPickedUp [''driver''], edge StDispatching [''driver'', ''ops''],
      edge StCancelled opsRoles]"
| "customTransitions _ = None"

fun merchantDeliveryHead :: "status \<Rightarrow> transition list option" where
  "merchantDeliveryHead StPending = Some
     [edge StAccepted opsRoles, edge StRejected opsRoles, edge StCancelled merchantOps]"
| "merchantDeliveryHead StAccepted = Some
     [edge StDispatching opsRoles, edge StCancelled merchantOps]"
| "merchantDeliveryHead _ = None"

definition merchantOnlyStates :: "status list" where
  "merchantOnlyStates = [StAccepted, StPreparing]"

definition slice_of :: "'a list option \<Rightarrow> 'a list" where
  "slice_of m = (case m of None \<Rightarrow> [] | Some xs \<Rightarrow> xs)"

lemma slice_of_simps [simp]: "slice_of None = []" "slice_of (Some xs) = xs"
  by (simp_all add: slice_of_def)

definition withoutMerchantSteps :: "status \<Rightarrow> transition list" where
  "withoutMerchantSteps from =
     (if from \<in> set merchantOnlyStates then []
      else [t \<leftarrow> slice_of (allowedTransitions from). t_to t \<notin> set merchantOnlyStates])"

definition merchantDeliveryEdges :: "status \<Rightarrow> transition list" where
  "merchantDeliveryEdges from =
     (let out = withoutMerchantSteps from
      in if from \<noteq> StDispatching \<and> from \<noteq> StAssigned \<and> from \<noteq> StAtPickup then out
         else map (\<lambda>t. if t_to t = StCancelled \<and> ''merchant'' \<notin> set (t_roles t)
                       then edge (t_to t) (t_roles t @ [''merchant'']) else t) out)"

fun transitionsFor :: "kind \<Rightarrow> status \<Rightarrow> transition list" where
  "transitionsFor KindCustom from =
     (case customTransitions from of Some ts \<Rightarrow> ts | None \<Rightarrow> withoutMerchantSteps from)"
| "transitionsFor KindMerchantDelivery from =
     (case merchantDeliveryHead from of Some ts \<Rightarrow> ts | None \<Rightarrow> merchantDeliveryEdges from)"
| "transitionsFor KindStandard from = slice_of (allowedTransitions from)"

lemmas map_simps = withoutMerchantSteps_def merchantDeliveryEdges_def merchantOnlyStates_def
  opsRoles_def merchantOps_def driverOps_def Let_def

section \<open>Reading the maps\<close>

definition terminal :: "status \<Rightarrow> bool" where
  "terminal st \<longleftrightarrow> st \<in> {StDelivered, StRejected, StCancelled, StFailed, StRefunded}"

definition TerminalStatuses :: "status list" where
  "TerminalStatuses = [StDelivered, StRejected, StCancelled, StFailed, StRefunded]"

definition refundOnEnter :: "status \<Rightarrow> bool" where
  "refundOnEnter st \<longleftrightarrow> st \<in> {StRejected, StCancelled, StFailed, StRefunded}"

definition canTransition :: "kind \<Rightarrow> status \<Rightarrow> status \<Rightarrow> role list \<Rightarrow> bool" where
  "canTransition k from to roles =
     (if ''admin'' \<in> set roles
      then list_ex (\<lambda>t. t_to t = to) (transitionsFor k from)
      else list_ex (\<lambda>t. t_to t = to \<and> list_ex (\<lambda>allowed. allowed \<in> set roles) (t_roles t))
             (transitionsFor k from))"

definition authorizingRole :: "kind \<Rightarrow> status \<Rightarrow> status \<Rightarrow> role list \<Rightarrow> role" where
  "authorizingRole k from to roles =
     (case find (\<lambda>r. canTransition k from to [r]) roles of None \<Rightarrow> '''' | Some r \<Rightarrow> r)"

definition has_edge :: "kind \<Rightarrow> status \<Rightarrow> status \<Rightarrow> bool" where
  "has_edge k from to \<longleftrightarrow> list_ex (\<lambda>t. t_to t = to) (transitionsFor k from)"

section \<open>Edges and who owns them\<close>

lemma transitionsFor_targets [simp]:
  "t_to ` set (transitionsFor k from) = {to. has_edge k from to}"
  by (auto simp: has_edge_def list_ex_iff)

lemma canTransition_has_edge: "canTransition k from to roles \<Longrightarrow> has_edge k from to"
  by (auto simp: canTransition_def has_edge_def list_ex_iff split: if_splits)

lemma canTransition_admin: "''admin'' \<in> set roles \<Longrightarrow> canTransition k from to roles = has_edge k from to"
  by (simp add: canTransition_def has_edge_def)

lemma canTransition_iff:
  "canTransition k from to roles \<longleftrightarrow>
     (\<exists>t\<in>set (transitionsFor k from). t_to t = to \<and>
        (''admin'' \<in> set roles \<or> (\<exists>r\<in>set (t_roles t). r \<in> set roles)))"
  by (cases "''admin'' \<in> set roles") (simp_all add: canTransition_def list_ex_iff)

lemma canTransition_one:
  "canTransition k from to [r] \<longleftrightarrow> (\<exists>t\<in>set (transitionsFor k from). t_to t = to \<and>
     (r = ''admin'' \<or> r \<in> set (t_roles t)))"
  unfolding canTransition_iff by (intro bex_cong refl conj_cong disj_cong) auto

lemma canTransition_single:
  "canTransition k from to roles \<longleftrightarrow> (\<exists>r\<in>set roles. canTransition k from to [r])"
  unfolding canTransition_one unfolding canTransition_iff by blast

lemma canTransition_mono:
  "set roles \<subseteq> set roles' \<Longrightarrow> canTransition k from to roles \<Longrightarrow> canTransition k from to roles'"
  using canTransition_single[of k "from" to roles] canTransition_single[of k "from" to roles'] by auto

lemma canTransition_nobody [simp]: "\<not> canTransition k from to []"
  by (simp add: canTransition_def list_ex_iff)

text \<open>The edges of each kind, as one table: what every later proof about a concrete pair reads.\<close>

lemma has_edge_standard [simp]:
  "has_edge KindStandard from to \<longleftrightarrow> to \<in> (case from of
     StPending \<Rightarrow> {StAccepted, StRejected, StCancelled}
   | StAccepted \<Rightarrow> {StPreparing, StDispatching, StCancelled}
   | StPreparing \<Rightarrow> {StDispatching, StCancelled}
   | StDispatching \<Rightarrow> {StAssigned, StCancelled}
   | StAssigned \<Rightarrow> {StAtPickup, StDispatching, StCancelled}
   | StAtPickup \<Rightarrow> {StPickedUp, StFailed, StDispatching, StCancelled}
   | StPickedUp \<Rightarrow> {StOnTheWay, StDispatching, StFailed}
   | StOnTheWay \<Rightarrow> {StAtDropoff, StDispatching, StFailed}
   | StAtDropoff \<Rightarrow> {StDelivered, StFailed, StDispatching}
   | StDelivered \<Rightarrow> {StRefunded}
   | _ \<Rightarrow> {})"
  by (cases "from") (auto simp: has_edge_def map_simps)

lemma has_edge_custom [simp]:
  "has_edge KindCustom from to \<longleftrightarrow> to \<in> (case from of
     StPending \<Rightarrow> {StDispatching, StRejected, StCancelled}
   | StDispatching \<Rightarrow> {StAssigned, StCancelled}
   | StAssigned \<Rightarrow> {StPickedUp, StDispatching, StCancelled}
   | StAtPickup \<Rightarrow> {StPickedUp, StFailed, StDispatching, StCancelled}
   | StPickedUp \<Rightarrow> {StOnTheWay, StDispatching, StFailed}
   | StOnTheWay \<Rightarrow> {StAtDropoff, StDispatching, StFailed}
   | StAtDropoff \<Rightarrow> {StDelivered, StFailed, StDispatching}
   | StDelivered \<Rightarrow> {StRefunded}
   | _ \<Rightarrow> {})"
  by (cases "from") (auto simp: has_edge_def map_simps)

lemma has_edge_merchant_delivery [simp]:
  "has_edge KindMerchantDelivery from to \<longleftrightarrow> to \<in> (case from of
     StPending \<Rightarrow> {StAccepted, StRejected, StCancelled}
   | StAccepted \<Rightarrow> {StDispatching, StCancelled}
   | StDispatching \<Rightarrow> {StAssigned, StCancelled}
   | StAssigned \<Rightarrow> {StAtPickup, StDispatching, StCancelled}
   | StAtPickup \<Rightarrow> {StPickedUp, StFailed, StDispatching, StCancelled}
   | StPickedUp \<Rightarrow> {StOnTheWay, StDispatching, StFailed}
   | StOnTheWay \<Rightarrow> {StAtDropoff, StDispatching, StFailed}
   | StAtDropoff \<Rightarrow> {StDelivered, StFailed, StDispatching}
   | StDelivered \<Rightarrow> {StRefunded}
   | _ \<Rightarrow> {})"
  by (cases "from") (auto simp: has_edge_def map_simps)

section \<open>A status map as an interface\<close>

text \<open>
  What the rest of the engine relies on: the closed statuses are closed but for the one refund
  edge, and a live status never gets stuck. \<open>rank\<close> is the number of forward steps left.
\<close>

locale status_map =
  fixes step :: "status \<Rightarrow> status \<Rightarrow> bool"
    and live :: "status \<Rightarrow> bool"
    and rank :: "status \<Rightarrow> nat"
  assumes closed: "terminal s \<Longrightarrow> step s t \<Longrightarrow> s = StDelivered \<and> t = StRefunded"
    and live_step: "live s \<Longrightarrow> step s t \<Longrightarrow> live t \<or> terminal t"
    and progress: "live s \<Longrightarrow> step s StDelivered \<or> (\<exists>t. step s t \<and> live t \<and> rank t < rank s)"
begin

lemma closed_rtrancl:
  assumes "step\<^sup>*\<^sup>* s t" and "terminal s"
  shows "t = s \<or> (s = StDelivered \<and> t = StRefunded)"
  using assms
proof (induction rule: rtranclp_induct)
  case base
  then show ?case by simp
next
  case (step t u)
  then have "t = s \<or> s = StDelivered \<and> t = StRefunded" by simp
  then have "terminal t" using step.prems by (auto simp: terminal_def)
  then show ?case using closed[OF \<open>terminal t\<close> step.hyps(2)] step by auto
qed

lemma live_rtrancl:
  assumes "step\<^sup>*\<^sup>* s t" and "live s"
  shows "live t \<or> terminal t"
  using assms
proof (induction rule: rtranclp_induct)
  case (step t u)
  show ?case
  proof (cases "terminal t")
    case True
    with closed[OF True step.hyps(2)] show ?thesis by (simp add: terminal_def)
  next
    case False
    with step live_step[of t u] show ?thesis by blast
  qed
qed simp

lemma delivered_reachable: "live s \<Longrightarrow> step\<^sup>*\<^sup>* s StDelivered"
proof (induction "rank s" arbitrary: s rule: less_induct)
  case less
  from progress[OF less.prems] show ?case
  proof (elim disjE exE conjE)
    fix t assume "step s t" "live t" "rank t < rank s"
    then show ?thesis using less.hyps[of t] by (meson converse_rtranclp_into_rtranclp)
  qed auto
qed

end

text \<open>The statuses an order of each kind can be in before it ends, and its forward distance.\<close>

fun liveStatus :: "kind \<Rightarrow> status \<Rightarrow> bool" where
  "liveStatus KindStandard s \<longleftrightarrow> \<not> terminal s"
| "liveStatus KindCustom s \<longleftrightarrow> \<not> terminal s \<and> s \<notin> {StAccepted, StPreparing, StAtPickup}"
| "liveStatus KindMerchantDelivery s \<longleftrightarrow> \<not> terminal s \<and> s \<noteq> StPreparing"

fun stepsLeft :: "status \<Rightarrow> nat" where
  "stepsLeft StPending = 9"
| "stepsLeft StAccepted = 8"
| "stepsLeft StPreparing = 7"
| "stepsLeft StDispatching = 6"
| "stepsLeft StAssigned = 5"
| "stepsLeft StAtPickup = 4"
| "stepsLeft StPickedUp = 3"
| "stepsLeft StOnTheWay = 2"
| "stepsLeft StAtDropoff = 1"
| "stepsLeft _ = 0"

lemma canTransition_driver_ops [simp]:
  "canTransition k from to [''driver'', ''ops''] \<longleftrightarrow>
     (\<exists>t\<in>set (transitionsFor k from). t_to t = to \<and>
        (''driver'' \<in> set (t_roles t) \<or> ''ops'' \<in> set (t_roles t)))"
  unfolding canTransition_iff by auto

interpretation edge_map: status_map "has_edge k" "liveStatus k" stepsLeft for k
proof
  show "terminal s \<Longrightarrow> has_edge k s t \<Longrightarrow> s = StDelivered \<and> t = StRefunded" for s t
    by (cases k) (auto simp: terminal_def)
  show "liveStatus k s \<Longrightarrow> has_edge k s t \<Longrightarrow> liveStatus k t \<or> terminal t" for s t
    by (cases k; cases s) (auto simp: terminal_def)
  show "liveStatus k s \<Longrightarrow> has_edge k s StDelivered \<or>
      (\<exists>t. has_edge k s t \<and> liveStatus k t \<and> stepsLeft t < stepsLeft s)" for s
    by (cases k; cases s) (simp_all add: terminal_def ex_disj_distrib conj_disj_distribR)
qed

text \<open>The same contract when only a driver and the office act.\<close>

interpretation staff_map:
  status_map "\<lambda>s t. canTransition k s t [''driver'', ''ops'']" "liveStatus k" stepsLeft for k
proof
  fix s t
  show "terminal s \<Longrightarrow> canTransition k s t [''driver'', ''ops''] \<Longrightarrow> s = StDelivered \<and> t = StRefunded"
    using edge_map.closed canTransition_has_edge by blast
  show "liveStatus k s \<Longrightarrow> canTransition k s t [''driver'', ''ops''] \<Longrightarrow> liveStatus k t \<or> terminal t"
    using edge_map.live_step canTransition_has_edge by blast
  show "liveStatus k s \<Longrightarrow> canTransition k s StDelivered [''driver'', ''ops''] \<or>
      (\<exists>t. canTransition k s t [''driver'', ''ops''] \<and> liveStatus k t \<and> stepsLeft t < stepsLeft s)"
    by (cases k; cases s)
      (simp_all add: terminal_def map_simps ex_disj_distrib conj_disj_distribR)
qed

section \<open>Runs of an order\<close>

text \<open>A run lists the statuses an order enters, each with the roles of the actor that moved it.\<close>

inductive order_run :: "kind \<Rightarrow> status \<Rightarrow> (status \<times> role list) list \<Rightarrow> status \<Rightarrow> bool" for k where
  stay: "order_run k s [] s"
| move: "canTransition k s t rs \<Longrightarrow> order_run k t moves u \<Longrightarrow> order_run k s ((t, rs) # moves) u"

inductive_cases order_run_ConsE: "order_run k s ((t, rs) # moves) u"
inductive_simps order_run_Nil [simp]: "order_run k s [] u"
inductive_simps order_run_Cons: "order_run k s (m # moves) u"

lemma order_run_edges: "order_run k s moves t \<Longrightarrow> (has_edge k)\<^sup>*\<^sup>* s t"
  by (induction rule: order_run.induct)
    (auto intro: converse_rtranclp_into_rtranclp dest: canTransition_has_edge)

lemma rtranclp_order_run:
  "(\<lambda>s t. canTransition k s t rs)\<^sup>*\<^sup>* s t \<Longrightarrow> \<exists>moves. order_run k s moves t \<and> (\<forall>m\<in>set moves. snd m = rs)"
proof (induction rule: converse_rtranclp_induct)
  case base
  then show ?case by (intro exI[of _ "[]"]) simp
next
  case (step s u)
  then obtain moves where "order_run k u moves t" "\<forall>m\<in>set moves. snd m = rs" by blast
  then show ?case using step.hyps(1) by (intro exI[of _ "(u, rs) # moves"]) (simp add: order_run_Cons)
qed

lemma liveStatus_pending [simp]: "liveStatus k StPending"
  by (cases k) (simp_all add: terminal_def)

lemma refund_edge_admin:
  "canTransition k StDelivered StRefunded roles \<longleftrightarrow> ''admin'' \<in> set roles"
  unfolding canTransition_iff by (cases k) (simp_all add: map_simps)

lemma refunded_no_move [simp]: "\<not> canTransition k StRefunded t rs"
  using canTransition_has_edge[of k StRefunded t rs] by (cases k) auto

section \<open>Properties\<close>

text \<open>
  C1. A closed order stays closed: any run that starts in a closed status is empty, or is the
  single refund of a delivered order, and only an admin makes it.
\<close>

theorem closed_order_stays_closed:
  assumes "order_run k s moves t" and "terminal s"
  shows "moves = [] \<and> t = s \<or>
         s = StDelivered \<and> t = StRefunded \<and> (\<exists>rs. moves = [(StRefunded, rs)] \<and> ''admin'' \<in> set rs)"
  using assms(1)
proof cases
  case (move u rs ms)
  from canTransition_has_edge[OF move(2)] edge_map.closed[OF assms(2)]
  have su: "s = StDelivered" "u = StRefunded" by auto
  moreover have "ms = [] \<and> t = StRefunded"
    using move(3) su(2) by cases auto
  ultimately show ?thesis using move refund_edge_admin by auto
qed simp

lemma closed_order_stays_closed_witness:
  "order_run KindStandard StDelivered [(StRefunded, [''admin''])] StRefunded \<and> terminal StDelivered"
  using closed_order_stays_closed
    [of KindStandard StDelivered "[(StRefunded, [''admin''])]" StRefunded]
  by (simp add: order_run_Cons refund_edge_admin terminal_def)

text \<open>
  C2. No order gets stuck: wherever a run from the first status has led, as long as the order is
  not closed there is a continuation to delivered in which only a driver and the office act.
\<close>

theorem delivery_always_possible:
  assumes "order_run k StPending moves s" and "\<not> terminal s"
  shows "\<exists>more. order_run k s more StDelivered \<and> (\<forall>m\<in>set more. snd m = [''driver'', ''ops''])"
proof -
  from edge_map.live_rtrancl[OF order_run_edges[OF assms(1)] liveStatus_pending] assms(2)
  have "liveStatus k s" by simp
  then show ?thesis by (rule rtranclp_order_run[OF staff_map.delivered_reachable])
qed

lemma delivery_always_possible_witness:
  "\<exists>more. order_run KindCustom StDispatching more StDelivered \<and>
     (\<forall>m\<in>set more. snd m = [''driver'', ''ops''])"
  by (rule delivery_always_possible[of _ "[(StDispatching, [''ops''])]"])
    (simp_all add: order_run_Cons canTransition_one terminal_def opsRoles_def)

text \<open>
  Each kind of order keeps to its own statuses: a custom order is never accepted, prepared or
  at a pickup, and a merchant delivery is never prepared.
\<close>

theorem kind_keeps_its_statuses:
  assumes "order_run k StPending moves s"
  shows "(k = KindCustom \<longrightarrow> s \<notin> {StAccepted, StPreparing, StAtPickup}) \<and>
         (k = KindMerchantDelivery \<longrightarrow> s \<noteq> StPreparing)"
  using edge_map.live_rtrancl[OF order_run_edges[OF assms] liveStatus_pending]
  by (auto simp: terminal_def)

lemma kind_keeps_its_statuses_witness:
  "order_run KindCustom StPending [(StDispatching, [''ops'']), (StAssigned, [''driver''])] StAssigned \<and>
   StAssigned \<notin> {StAccepted, StPreparing, StAtPickup}"
  using kind_keeps_its_statuses
    [of KindCustom "[(StDispatching, [''ops'']), (StAssigned, [''driver''])]" StAssigned]
  by (simp add: order_run_Cons canTransition_one opsRoles_def driverOps_def)

text \<open>
  Who may cancel, on every kind and in every status: in particular nobody at all, the admin
  included, once the goods are with the driver.
\<close>

theorem who_may_cancel:
  "canTransition k from StCancelled roles \<longleftrightarrow>
     (\<exists>r\<in>set roles. r \<in> (case from of
         StPending \<Rightarrow> {''admin'', ''ops'', if k = KindMerchantDelivery then ''merchant'' else ''customer''}
       | StAccepted \<Rightarrow> (if k = KindCustom then {} else {''admin'', ''merchant'', ''ops''}
           \<union> (if k = KindStandard then {''customer''} else {}))
       | StPreparing \<Rightarrow> (if k = KindStandard then {''admin'', ''merchant'', ''ops''} else {})
       | StDispatching \<Rightarrow> {''admin'', ''ops''} \<union> (if k = KindCustom then {''customer''}
           else if k = KindMerchantDelivery then {''merchant''} else {})
       | StAssigned \<Rightarrow> {''admin'', ''ops''} \<union> (if k = KindMerchantDelivery then {''merchant''} else {})
       | StAtPickup \<Rightarrow> {''admin'', ''ops''} \<union> (if k = KindMerchantDelivery then {''merchant''} else {})
       | _ \<Rightarrow> {}))"
  unfolding canTransition_iff by (cases k; cases "from") (auto simp: map_simps)

text \<open>
  The role written on the history row is the one that authorised the move: it is one of the
  actor's roles, it authorises the move alone, no earlier role does, and it is missing exactly
  when the actor may not make the move.
\<close>

theorem authorizingRole_correct:
  assumes "'''' \<notin> set roles"
  shows "(canTransition k from to roles \<longleftrightarrow> authorizingRole k from to roles \<noteq> '''') \<and>
         (canTransition k from to roles \<longrightarrow>
            (\<exists>before after. roles = before @ authorizingRole k from to roles # after \<and>
               canTransition k from to [authorizingRole k from to roles] \<and>
               \<not> canTransition k from to before))"
proof (cases "find (\<lambda>r. canTransition k from to [r]) roles")
  case None
  then have "authorizingRole k from to roles = ''''" by (simp add: authorizingRole_def)
  then show ?thesis
    using None canTransition_single[of k "from" to roles] by (auto simp: find_None_iff)
next
  case (Some r)
  then obtain i where i: "i < length roles" "canTransition k from to [r]" "r = roles ! i"
      "\<forall>j<i. \<not> canTransition k from to [roles ! j]"
    by (auto simp: find_Some_iff)
  then have "\<not> canTransition k from to (take i roles)"
    using canTransition_single[of k "from" to "take i roles"] by (auto simp: in_set_conv_nth)
  moreover have "roles = take i roles @ r # drop (Suc i) roles" and "r \<in> set roles"
    using i id_take_nth_drop[of i roles] by auto
  ultimately show ?thesis
    using Some assms i(2) canTransition_single[of k "from" to roles]
    by (auto simp: authorizingRole_def)
qed

lemma authorizingRole_correct_witness:
  "authorizingRole KindCustom StAssigned StPickedUp [''customer'', ''driver''] = ''driver'' \<and>
   canTransition KindCustom StAssigned StPickedUp [''customer'', ''driver'']"
  using authorizingRole_correct[of "[''customer'', ''driver'']" KindCustom StAssigned StPickedUp]
  by (simp add: authorizingRole_def canTransition_one driverOps_def)

end
