(* ===== verification/Orders_Table.thy ===== *)
theory Orders_Table
  imports Wallet Statuses
begin

text \<open>
  The row of the \<open>orders\<close> table, with the columns the money and transition code reads and
  writes, and the money database extended by that table. A nullable column is an option; a
  timestamp is a number of seconds.
\<close>

record order_money =
  o_id :: string
  o_kind :: kind
  o_status :: status
  o_customer :: user_id
  o_driver :: "user_id option"
  o_merchant :: "string option"
  o_wallet_paid :: int
  o_cash_due :: int
  o_driver_fee :: int
  o_subtotal :: int
  o_platform_commission :: int
  o_custom_mode :: string
  o_custom_reserved :: int
  o_custom_store_paid :: "int option"
  o_custom_goods :: "int option"
  o_snap_merchant_pct :: "int option"
  o_snap_rep_pct :: "int option"
  o_snap_source :: "string option"
  o_snap_activation :: "int option"
  o_payment_method :: string
  o_custom_paid_at :: "int option"
  o_promo_waived :: int
  o_discount :: int
  o_fee_payer :: "string option"
  o_delivery_mode :: string
  o_delivery_fee :: int
  o_partner_merchant :: "string option"
  o_partner_pct :: "int option"

record order = order_money +
  o_origin :: string
  o_stops :: int
  o_promo_code :: string
  o_agreed_at :: "int option"
  o_quote_confirmed :: "int option"
  o_quote_version :: int
  o_goods_pending :: bool
  o_fail_reason :: "string option"
  o_fault :: "string option"
  o_ended_by :: "string option"
  o_cancel_reason :: "string option"
  o_prep_minutes :: "int option"
  o_accepted_at :: "int option"
  o_dispatched_at :: "int option"
  o_picked_up_at :: "int option"
  o_delivered_at :: "int option"
  o_closed_at :: "int option"
  o_door_instruction :: "string option"
  o_created_at :: int
  o_number :: int
  o_ready_at :: "int option"
  o_sent_at :: "int option"
  o_offered_driver :: "user_id option"
  o_offer_expires :: "int option"
  o_collect_amount :: "int option"
  o_fetch_status :: "string option"
  o_recipient_phone :: "string option"
  o_code :: "string option"
  o_code_attempts :: int
  o_total :: int
  o_sources_fee :: int
  o_share_pct :: int
  o_share_fixed :: int
  o_offer_passed :: "user_id list"
  o_excluded :: "user_id list"
  o_pickup_override :: "point option"
  o_dropoff :: "point option"
  o_dropoff_known :: bool
  o_zone :: "string option"
  o_commission_waived :: int
  o_goods_settled :: "string option"
  o_returned_at :: "int option"
  o_return_to :: "string option"
  o_goods_handed_at :: "int option"
  o_goods_comp_none_at :: "int option"

record orders_db = wallet_db +
  orders :: "order list"

definition order_of :: "'a orders_db_scheme \<Rightarrow> string \<Rightarrow> order option" where
  "order_of db i = find (\<lambda>x. o_id x = i) (orders db)"

text \<open>\<open>UPDATE orders SET ... WHERE id = $1\<close>: no row is no error.\<close>

definition update_order :: "string \<Rightarrow> (order \<Rightarrow> order) \<Rightarrow> 'a orders_db_scheme \<Rightarrow> 'a orders_db_scheme" where
  "update_order i f db = db\<lparr>orders := map (\<lambda>x. if o_id x = i then f x else x) (orders db)\<rparr>"

lemma order_of_update:
  assumes "\<And>x. o_id (f x) = o_id x"
  shows "order_of (update_order i f db) j = (if j = i then map_option f (order_of db i) else order_of db j)"
proof -
  have "find (\<lambda>x. o_id x = j) (map (\<lambda>x. if o_id x = i then f x else x) os) =
      (if j = i then map_option f (find (\<lambda>x. o_id x = i) os) else find (\<lambda>x. o_id x = j) os)" for os
    using assms by (induction os) auto
  then show ?thesis by (simp add: order_of_def update_order_def)
qed

lemma order_of_Some: "order_of db i = Some x \<Longrightarrow> o_id x = i \<and> x \<in> set (orders db)"
  by (auto simp: order_of_def find_Some_iff)

lemma update_order_frame [simp]:
  "wallets (update_order i f db) = wallets db" "wallet_txs (update_order i f db) = wallet_txs db"
  "next_tx (update_order i f db) = next_tx db" "users (update_order i f db) = users db"
  "db_now (update_order i f db) = db_now db" "wallet_of (update_order i f db) u = wallet_of db u"
  "Balance (update_order i f db) u = Balance db u"
  by (simp_all add: update_order_def wallet_of_def Balance_def)

end
