(* ===== verification/Cashbox.thy ===== *)
theory Cashbox
  imports Orders_Table
begin

text \<open>
  The cash a driver carries (\<open>cashbox/cashbox.go\<close>, \<open>cashbox/exposure.go\<close>) and the
  admission of a driver to an order (\<open>orders/admission.go\<close>). The tables
  \<open>driver_cash_boxes\<close> and \<open>driver_cash_entries\<close> carry their constraints
  (\<open>held >= 0\<close>, \<open>amount <> 0\<close>, the partial unique indexes of migrations 0475, 0477,
  0481), and the two SQL functions of migrations 0330 and 0476 the guard calls are modelled with
  the fixed offset of Asia/Damascus. The advisory lock of the admission has no effect on a model
  that runs one transaction at a time.
\<close>

section \<open>Tables\<close>

record cash_entry =
  ce_id :: int
  ce_driver :: user_id
  ce_amount :: int
  ce_kind :: string
  ce_ref :: string
  ce_note :: string
  ce_by :: "user_id option"
  ce_at :: int

record cash_db = orders_db +
  boxes :: "(user_id \<times> int) list"
  cash_entries :: "cash_entry list"
  next_entry :: int
  cash_override :: "user_id \<Rightarrow> int option"
  cash_overdue_stop :: bool
  cash_overdue_days :: int
  day_start_hour :: int

definition ErrOverSettle :: err where "ErrOverSettle = AppError ''over_settle''"
definition ErrLimitExceed :: err where "ErrLimitExceed = AppError ''cash_limit_exceeded''"
definition ErrCashOverdue :: err where "ErrCashOverdue = AppError ''cash_overdue''"
definition ErrTooManyActive :: err where "ErrTooManyActive = AppError ''too_many_active_orders''"

lemma cash_errors_distinct [simp]:
  "ErrOverSettle \<noteq> ErrDb" "ErrLimitExceed \<noteq> ErrCashOverdue" "ErrTooManyActive \<noteq> ErrLimitExceed"
  "ErrTooManyActive \<noteq> ErrCashOverdue" "ErrCashOverdue \<noteq> ErrLimitExceed"
  by (simp_all add: ErrOverSettle_def ErrLimitExceed_def ErrCashOverdue_def ErrTooManyActive_def)

section \<open>Reading and posting\<close>

definition Held :: "'a cash_db_scheme \<Rightarrow> user_id \<Rightarrow> int" where
  "Held db d = (case map_of (boxes db) d of None \<Rightarrow> 0 | Some h \<Rightarrow> h)"

definition OverLimit :: "int \<Rightarrow> 'a cash_db_scheme \<Rightarrow> user_id \<Rightarrow> bool" where
  "OverLimit limit db d \<longleftrightarrow> limit \<le> Held db d"

text \<open>The partial unique indexes on the entries.\<close>

definition entry_clashes :: "'a cash_db_scheme \<Rightarrow> user_id \<Rightarrow> string \<Rightarrow> string \<Rightarrow> bool" where
  "entry_clashes db d kind ref \<longleftrightarrow> list_ex (\<lambda>e. ce_kind e = kind \<and> ce_ref e = ref \<and>
     (kind = ''commission_waived'' \<or> kind = ''recipient_cash_returned'' \<or>
      kind = ''collection_reversed'' \<and> ce_driver e = d)) (cash_entries db)"

definition insert_cash_entry ::
  "user_id \<Rightarrow> int \<Rightarrow> string \<Rightarrow> string \<Rightarrow> string \<Rightarrow> user_id option \<Rightarrow> 'a cash_db_scheme \<Rightarrow> err + 'a cash_db_scheme" where
  "insert_cash_entry d amount kind ref note actor db =
    (if amount = 0 \<or> entry_clashes db d kind ref then Inl ErrDb
     else Inr (db\<lparr>cash_entries := cash_entries db @
       [\<lparr>ce_id = next_entry db, ce_driver = d, ce_amount = amount, ce_kind = kind, ce_ref = ref,
         ce_note = note, ce_by = actor, ce_at = db_now db\<rparr>], next_entry := next_entry db + 1\<rparr>))"

text \<open>\<open>applyTx\<close> of the cash box: the box is made on demand, and a negative box refused.\<close>

definition box_applyTx ::
  "user_id \<Rightarrow> int \<Rightarrow> string \<Rightarrow> string \<Rightarrow> string \<Rightarrow> user_id option \<Rightarrow> 'a cash_db_scheme \<Rightarrow> err + int \<times> 'a cash_db_scheme" where
  "box_applyTx d amount kind ref note actor db =
    (if map_of (boxes db) d = None \<and> d \<notin> u_id ` set (users db) then Inl ErrDb
     else let held = Held db d + amount
          in if \<not> in64 held then Inl ErrDb
             else if held < 0 then Inl ErrOverSettle
             else bindE (insert_cash_entry d amount kind ref note actor
                    (db\<lparr>boxes := AList.update d held (boxes db)\<rparr>)) (\<lambda>db. Inr (held, db)))"

definition CollectTx :: "user_id \<Rightarrow> int \<Rightarrow> string \<Rightarrow> user_id option \<Rightarrow> 'a cash_db_scheme \<Rightarrow> err + 'a cash_db_scheme" where
  "CollectTx d amount order_id actor db =
    (if amount \<le> 0 then Inr db
     else bindE (box_applyTx d amount ''order_collection'' order_id '''' actor db) (\<lambda>(_, db). Inr db))"

definition WaiveCommissionTx ::
  "user_id \<Rightarrow> int \<Rightarrow> string \<Rightarrow> string \<Rightarrow> user_id \<Rightarrow> 'a cash_db_scheme \<Rightarrow> err + int \<times> 'a cash_db_scheme" where
  "WaiveCommissionTx d amount order_id reason actor db =
    (if amount \<le> 0 then Inl ErrOverSettle
     else box_applyTx d (- amount) ''commission_waived'' order_id reason (Some actor) db)"

definition ReturnRecipientCashTx ::
  "user_id \<Rightarrow> int \<Rightarrow> string \<Rightarrow> user_id option \<Rightarrow> 'a cash_db_scheme \<Rightarrow> err + 'a cash_db_scheme" where
  "ReturnRecipientCashTx d amount order_id actor db =
    (if amount \<le> 0 then Inr db
     else bindE (box_applyTx d (- amount) ''recipient_cash_returned'' order_id
            ''cash returned to the recipient'' actor db) (\<lambda>(_, db). Inr db))"

definition ReverseCollectionTx ::
  "user_id \<Rightarrow> int \<Rightarrow> string \<Rightarrow> user_id \<Rightarrow> 'a cash_db_scheme \<Rightarrow> err + int \<times> 'a cash_db_scheme" where
  "ReverseCollectionTx d amount order_id actor db =
    (if amount \<le> 0 then Inl ErrOverSettle
     else box_applyTx d (- amount) ''collection_reversed'' order_id
            ''collection of a wrongly delivered order'' (Some actor) db)"

definition SettleTx :: "user_id \<Rightarrow> int \<Rightarrow> string \<Rightarrow> user_id \<Rightarrow> 'a cash_db_scheme \<Rightarrow> err + int \<times> 'a cash_db_scheme" where
  "SettleTx d amount note actor db =
    (if amount \<le> 0 then Inl ErrOverSettle
     else box_applyTx d (- amount) ''settlement'' '''' note (Some actor) db)"

section \<open>The overdue stop\<close>

text \<open>
  \<open>driver_cash_oldest_unpaid\<close>: what was handed in pays the oldest collections first, and
  the first collection whose running total exceeds it is the oldest money still out.
\<close>

definition paid_in :: "'a cash_db_scheme \<Rightarrow> user_id \<Rightarrow> int" where
  "paid_in db d = - sum_list (map ce_amount [e \<leftarrow> cash_entries db. ce_driver e = d \<and> ce_amount e < 0])"

definition collections :: "'a cash_db_scheme \<Rightarrow> user_id \<Rightarrow> cash_entry list" where
  "collections db d =
     sort_key ce_at (sort_key ce_id [e \<leftarrow> cash_entries db. ce_driver e = d \<and> ce_amount e > 0])"

fun running_totals :: "int \<Rightarrow> cash_entry list \<Rightarrow> (int \<times> int) list" where
  "running_totals cum [] = []"
| "running_totals cum (e # es) = (ce_at e, cum + ce_amount e) # running_totals (cum + ce_amount e) es"

definition unpaid_times :: "int \<Rightarrow> int \<Rightarrow> cash_entry list \<Rightarrow> int list" where
  "unpaid_times paid cum es = [at. (at, c) \<leftarrow> running_totals cum es, c > paid]"

definition oldest_unpaid :: "'a cash_db_scheme \<Rightarrow> user_id \<Rightarrow> int option" where
  "oldest_unpaid db d =
    (case unpaid_times (paid_in db d) 0 (collections db d) of
       [] \<Rightarrow> None | x # xs \<Rightarrow> Some (fold min xs x))"

definition damascus_offset :: int where "damascus_offset = 10800"

definition account_day :: "int \<Rightarrow> int \<Rightarrow> int" where
  "account_day hour ts = (ts + damascus_offset - hour * 3600) div 86400"

definition account_day_start :: "int \<Rightarrow> int \<Rightarrow> int" where
  "account_day_start hour d = d * 86400 + hour * 3600 - damascus_offset"

definition cash_overdue_stopped :: "'a cash_db_scheme \<Rightarrow> user_id \<Rightarrow> bool" where
  "cash_overdue_stopped db d =
    (if cash_overdue_stop db then
       (case oldest_unpaid db d of None \<Rightarrow> False
        | Some t \<Rightarrow> t < account_day_start (day_start_hour db) (account_day (day_start_hour db) (db_now db))
                         - cash_overdue_days db * 86400)
     else False)"

section \<open>Exposure and admission\<close>

definition open_orders :: "'a orders_db_scheme \<Rightarrow> user_id \<Rightarrow> order list" where
  "open_orders db d = [x \<leftarrow> orders db. o_driver x = Some d \<and> o_closed_at x = None]"

definition Exposure :: "'a cash_db_scheme \<Rightarrow> user_id \<Rightarrow> int" where
  "Exposure db d = Held db d + sum_list (map o_cash_due (open_orders db d))"

definition GuardTx :: "user_id \<Rightarrow> int \<Rightarrow> int \<Rightarrow> 'a cash_db_scheme \<Rightarrow> err + unit" where
  "GuardTx d incoming limit db =
    (if incoming \<le> 0 then Inr ()
     else let current = Exposure db d;
              limit = (case cash_override db d of Some l \<Rightarrow> l | None \<Rightarrow> limit)
          in if current + incoming > limit then Inl ErrLimitExceed
             else if cash_overdue_stopped db d then Inl ErrCashOverdue
             else Inr ())"

record admission =
  ad_cash_due :: int
  ad_cash_limit :: int
  ad_active_max :: int

text \<open>The service may run without a cash box.\<close>

definition AdmitDriverTx :: "bool \<Rightarrow> user_id \<Rightarrow> admission \<Rightarrow> 'a cash_db_scheme \<Rightarrow> err + unit" where
  "AdmitDriverTx has_cashbox d ad db =
    (if ad_active_max ad > 0 \<and> int (length (open_orders db d)) + 1 > ad_active_max ad
     then Inl ErrTooManyActive
     else if \<not> has_cashbox then Inr ()
     else GuardTx d (ad_cash_due ad) (ad_cash_limit ad) db)"

section \<open>The statement page\<close>

record open_cash_order =
  oc_id :: string
  oc_status :: status
  oc_expected :: int

record cash_statement =
  cs_held :: int
  cs_limit :: int
  cs_limit_is_override :: bool
  cs_entries :: "cash_entry list"
  cs_total :: nat
  cs_page :: int
  cs_per_page :: int
  cs_open_orders :: "open_cash_order list"
  cs_open_cash :: int

definition StatementPage :: "int \<Rightarrow> 'a cash_db_scheme \<Rightarrow> user_id \<Rightarrow> int \<Rightarrow> int \<Rightarrow> cash_statement" where
  "StatementPage setting db d limit page =
    (let limit = (if limit < 1 \<or> limit > 200 then 50 else limit);
         page = (if page < 1 then 1 else page);
         mine = rev (sort_key ce_id [e \<leftarrow> cash_entries db. ce_driver e = d])
     in \<lparr>cs_held = Held db d,
         cs_limit = (case cash_override db d of Some l \<Rightarrow> l | None \<Rightarrow> setting),
         cs_limit_is_override = (cash_override db d \<noteq> None),
         cs_entries = take (nat limit) (drop (nat ((page - 1) * limit)) mine),
         cs_total = length mine, cs_page = page, cs_per_page = limit,
         cs_open_orders = map (\<lambda>x. \<lparr>oc_id = o_id x, oc_status = o_status x, oc_expected = o_cash_due x\<rparr>)
           (sort_key o_created_at (open_orders db d)),
         cs_open_cash = sum_list (map o_cash_due (open_orders db d))\<rparr>)"

section \<open>The cash box as a ledger\<close>

definition cash_amounts :: "'a cash_db_scheme \<Rightarrow> user_id \<Rightarrow> int list" where
  "cash_amounts db d = map ce_amount [e \<leftarrow> cash_entries db. ce_driver e = d]"

definition cash_posted :: "user_id \<Rightarrow> int \<Rightarrow> string \<Rightarrow> string \<Rightarrow> 'a cash_db_scheme \<Rightarrow> 'a cash_db_scheme \<Rightarrow> bool" where
  "cash_posted d a kind ref db db' \<longleftrightarrow>
     (\<forall>x. Held db' x = Held db x + (if x = d then a else 0)) \<and> 0 \<le> Held db' d \<and> a \<noteq> 0 \<and>
     \<not> entry_clashes db d kind ref \<and>
     (\<exists>e. cash_entries db' = cash_entries db @ [e] \<and> ce_driver e = d \<and> ce_amount e = a \<and>
          ce_kind e = kind \<and> ce_ref e = ref \<and> ce_at e = db_now db) \<and>
     wallets db' = wallets db \<and> wallet_txs db' = wallet_txs db \<and> orders db' = orders db"

lemma box_applyTx_Inr:
  assumes "box_applyTx d a kind ref nt actor db = Inr (h, db')"
  shows "cash_posted d a kind ref db db'" and "h = Held db d + a"
  using assms
  by (auto simp: box_applyTx_def Let_def insert_cash_entry_def cash_posted_def result_simps Held_def
      update_conv entry_clashes_def split: if_splits)

definition post_box ::
  "string \<Rightarrow> string \<Rightarrow> string \<Rightarrow> user_id option \<Rightarrow> user_id \<Rightarrow> int \<Rightarrow> 'a cash_db_scheme \<Rightarrow> err + 'a cash_db_scheme" where
  "post_box kind ref note actor d a db = bindE (box_applyTx d a kind ref note actor db) (\<lambda>(_, db). Inr db)"

lemma post_box_Inr: "post_box kind ref nt actor d a db = Inr db' \<Longrightarrow> cash_posted d a kind ref db db'"
  by (auto simp: post_box_def result_simps dest: box_applyTx_Inr)

interpretation cash_ledger: ledger Held cash_amounts "post_box kind ref nt actor"
  for kind ref nt actor
proof
  show "failed (post_box kind ref nt actor k 0 s)" for k s
    by (cases "post_box kind ref nt actor k 0 s") (auto dest: post_box_Inr simp: cash_posted_def)
qed (auto dest!: post_box_Inr simp: cash_posted_def cash_amounts_def)

text \<open>The kinds of entry that happen once: per order, and per order and driver.\<close>

definition once_kinds :: "'a cash_db_scheme \<Rightarrow> bool" where
  "once_kinds db \<longleftrightarrow>
     distinct (map ce_ref [e \<leftarrow> cash_entries db. ce_kind e = ''commission_waived'']) \<and>
     distinct (map ce_ref [e \<leftarrow> cash_entries db. ce_kind e = ''recipient_cash_returned'']) \<and>
     distinct (map (\<lambda>e. (ce_ref e, ce_driver e)) [e \<leftarrow> cash_entries db. ce_kind e = ''collection_reversed''])"

definition cash_inv :: "'a cash_db_scheme \<Rightarrow> bool" where
  "cash_inv db \<longleftrightarrow> (\<forall>d. Held db d = sum_list (cash_amounts db d) \<and> 0 \<le> Held db d) \<and> once_kinds db"

lemma cash_posted_once: "cash_posted d a kind ref db db' \<Longrightarrow> once_kinds db \<Longrightarrow> once_kinds db'"
  unfolding cash_posted_def once_kinds_def entry_clashes_def list_ex_iff by (auto, blast+)

lemma cash_posted_inv:
  assumes "cash_posted d a kind ref db db'" and "cash_inv db"
  shows "cash_inv db'"
proof -
  have "Held db' x = sum_list (cash_amounts db' x) \<and> 0 \<le> Held db' x" for x
  proof -
    have "Held db x = sum_list (cash_amounts db x)" "0 \<le> Held db x" using assms(2) unfolding cash_inv_def by blast+
    with assms(1) show ?thesis by (cases "x = d") (auto simp: cash_posted_def cash_amounts_def)
  qed
  then show ?thesis
    using cash_posted_once[OF assms(1)] assms(2) unfolding cash_inv_def by blast
qed

datatype cash_op =
    Op_Collect user_id int string "user_id option"
  | Op_WaiveCommission user_id int string string user_id
  | Op_ReturnRecipientCash user_id int string "user_id option"
  | Op_ReverseCollection user_id int string user_id
  | Op_Settle user_id int string user_id

fun run_cash_op :: "cash_op \<Rightarrow> 'a cash_db_scheme \<Rightarrow> err + 'a cash_db_scheme" where
  "run_cash_op (Op_Collect d a i by) db = CollectTx d a i by db"
| "run_cash_op (Op_WaiveCommission d a i r by) db = bindE (WaiveCommissionTx d a i r by db) (\<lambda>(_, db). Inr db)"
| "run_cash_op (Op_ReturnRecipientCash d a i by) db = ReturnRecipientCashTx d a i by db"
| "run_cash_op (Op_ReverseCollection d a i by) db = bindE (ReverseCollectionTx d a i by db) (\<lambda>(_, db). Inr db)"
| "run_cash_op (Op_Settle d a n by) db = bindE (SettleTx d a n by db) (\<lambda>(_, db). Inr db)"

lemmas cash_op_defs = CollectTx_def WaiveCommissionTx_def ReturnRecipientCashTx_def
  ReverseCollectionTx_def SettleTx_def

lemma run_cash_op_inv: "run_cash_op c db = Inr db' \<Longrightarrow> cash_inv db \<Longrightarrow> cash_inv db'"
  by (cases c) (auto simp: cash_op_defs result_simps split: if_splits
      dest!: box_applyTx_Inr(1) intro: cash_posted_inv)

section \<open>First collected, first paid\<close>

lemma unpaid_times_simps [simp]:
  "unpaid_times p cum [] = []"
  "unpaid_times p cum (e # es) =
     (if p < cum + ce_amount e then [ce_at e] else []) @ unpaid_times p (cum + ce_amount e) es"
  by (simp_all add: unpaid_times_def)

lemma unpaid_times_set: "set (unpaid_times p cum es) \<subseteq> ce_at ` set es"
  by (induction es arbitrary: cum) auto

lemma unpaid_before:
  assumes "sorted (map ce_at es)" and "cum \<le> p" and "\<forall>h\<in>set (unpaid_times p cum es). t \<le> h"
  shows "cum + sum_list (map ce_amount [e \<leftarrow> es. ce_at e < t]) \<le> p"
  using assms
proof (induction es arbitrary: cum)
  case (Cons e es)
  show ?case
  proof (cases "ce_at e < t")
    case True
    with Cons.prems(3) have "cum + ce_amount e \<le> p" by (force split: if_splits)
    with Cons.IH[of "cum + ce_amount e"] Cons.prems True show ?thesis by (auto simp: add.assoc)
  next
    case False
    with Cons.prems(1) have "[x \<leftarrow> e # es. ce_at x < t] = []" by (auto simp: filter_empty_conv)
    with Cons.prems(2) show ?thesis by (simp only: list.map sum_list.Nil)
  qed
qed simp

lemma unpaid_until:
  assumes "sorted (map ce_at es)" and "\<forall>e\<in>set es. 0 < ce_amount e" and "t \<in> set (unpaid_times p cum es)"
  shows "p < cum + sum_list (map ce_amount [e \<leftarrow> es. ce_at e \<le> t])"
  using assms
proof (induction es arbitrary: cum)
  case (Cons e es)
  have rest: "0 \<le> sum_list (map ce_amount [x \<leftarrow> es. ce_at x \<le> t])"
    using Cons.prems(2) by (intro sum_list_map_nonneg) (auto intro: less_imp_le)
  show ?case
  proof (cases "t \<in> set (unpaid_times p (cum + ce_amount e) es)")
    case True
    then have "ce_at e \<le> t" using Cons.prems(1) unpaid_times_set by fastforce
    with Cons.IH[OF _ _ True] Cons.prems show ?thesis by (simp add: add.assoc)
  next
    case False
    with Cons.prems(3) have "t = ce_at e" "p < cum + ce_amount e" by (auto split: if_splits)
    with rest show ?thesis by simp
  qed
qed simp

lemma unpaid_none:
  "unpaid_times p cum es = [] \<Longrightarrow> cum \<le> p \<Longrightarrow> cum + sum_list (map ce_amount es) \<le> p"
proof (induction es arbitrary: cum)
  case (Cons e es)
  then have "cum + ce_amount e \<le> p" "unpaid_times p (cum + ce_amount e) es = []"
    by (auto split: if_splits)
  with Cons.IH[of "cum + ce_amount e"] show ?case by (simp add: add.assoc)
qed simp

lemma fold_min: "fold min xs (x :: int) = Min (set (x # xs))"
  by (rule Min.set_eq_fold[symmetric])

lemma collections_facts:
  "sorted (map ce_at (collections db d))" "\<forall>e\<in>set (collections db d). 0 < ce_amount e"
  "sum_list (map f [e \<leftarrow> collections db d. P e]) =
     (sum_list (map f [e \<leftarrow> cash_entries db. ce_driver e = d \<and> 0 < ce_amount e \<and> P e]) :: int)"
  by (auto simp: collections_def filter_sort sum_list_map_sort_key intro!: arg_cong[where f = sum_list]
      intro: filter_cong)

lemma held_split:
  assumes "cash_inv db"
  shows "Held db d = sum_list (map ce_amount (collections db d)) - paid_in db d" and "0 \<le> paid_in db d"
proof -
  have "sum_list (map ce_amount [e \<leftarrow> es. ce_driver e = d]) =
      sum_list (map ce_amount [e \<leftarrow> es. ce_driver e = d \<and> 0 < ce_amount e]) +
      sum_list (map ce_amount [e \<leftarrow> es. ce_driver e = d \<and> ce_amount e < 0])" for es
    by (induction es) auto
  then show "Held db d = sum_list (map ce_amount (collections db d)) - paid_in db d"
    using assms collections_facts(3)[where f = ce_amount and db = db and d = d and P = "\<lambda>_. True"]
    by (simp add: cash_inv_def cash_amounts_def paid_in_def)
  have "sum_list (map ce_amount [e \<leftarrow> es. ce_driver e = d \<and> ce_amount e < 0]) \<le> 0" for es
    by (induction es) auto
  then show "0 \<le> paid_in db d" by (simp add: paid_in_def)
qed

lemma oldest_unpaid_iff:
  "oldest_unpaid db d = (let ts = unpaid_times (paid_in db d) 0 (collections db d)
     in if ts = [] then None else Some (Min (set ts)))"
  by (cases "unpaid_times (paid_in db d) 0 (collections db d)") (simp_all add: oldest_unpaid_def fold_min)

definition empty_cash_db :: "user list \<Rightarrow> int \<Rightarrow> cash_db" where
  "empty_cash_db us now = \<lparr>users = us, wallets = [], wallet_txs = [], next_tx = 1, db_now = now, orders = [],
     boxes = [], cash_entries = [], next_entry = 1, cash_override = (\<lambda>_. None), cash_overdue_stop = True,
     cash_overdue_days = 3, day_start_hour = 9\<rparr>"

lemma empty_cash_inv [simp]: "cash_inv (empty_cash_db us now)"
  by (simp add: cash_inv_def once_kinds_def empty_cash_db_def Held_def cash_amounts_def)

lemma run_cash_ops_inv: "foldE run_cash_op ops db = Inr db' \<Longrightarrow> cash_inv db \<Longrightarrow> cash_inv db'"
  by (erule foldE_inv) (auto intro: run_cash_op_inv)

section \<open>The caps of a driver\<close>

definition cash_cap :: "user_id \<Rightarrow> int \<Rightarrow> 'a cash_db_scheme \<Rightarrow> int" where
  "cash_cap d limit db = (case cash_override db d of None \<Rightarrow> limit | Some l \<Rightarrow> l)"

text \<open>What a driver carries: the orders in his hands that are not closed, and the money he has or will collect of them.\<close>

definition carries :: "user_id \<Rightarrow> order \<Rightarrow> bool" where
  "carries d x \<longleftrightarrow> o_driver x = Some d \<and> o_closed_at x = None"

definition within_caps :: "user_id \<Rightarrow> int \<Rightarrow> int \<Rightarrow> 'a cash_db_scheme \<Rightarrow> bool" where
  "within_caps d limit most db \<longleftrightarrow>
     (0 < most \<longrightarrow> sum_list (map (\<lambda>x. if carries d x then 1 else 0) (orders db)) \<le> most) \<and>
     Held db d + sum_list (map (\<lambda>x. if carries d x then o_cash_due x else 0) (orders db)) \<le> cash_cap d limit db"

definition collected_by :: "user_id \<Rightarrow> cash_op \<Rightarrow> int" where
  "collected_by d c = (case c of Op_Collect v a i by \<Rightarrow> if v = d then max 0 a else 0 | _ \<Rightarrow> 0)"

text \<open>A step of the day of driver \<open>d\<close>: of his own, of another driver, of the office.\<close>

inductive day_step :: "user_id \<Rightarrow> int \<Rightarrow> int \<Rightarrow> 'a cash_db_scheme \<Rightarrow> 'a cash_db_scheme \<Rightarrow> bool"
  for d :: user_id and limit most :: int where
    taken: "order_of db ord = Some x \<Longrightarrow> o_driver x = None \<Longrightarrow> o_closed_at x = None \<Longrightarrow>
      AdmitDriverTx True d \<lparr>ad_cash_due = o_cash_due x, ad_cash_limit = limit, ad_active_max = most\<rparr> db = Inr () \<Longrightarrow>
      day_step d limit most db (update_order ord (\<lambda>x. x\<lparr>o_driver := Some d\<rparr>) db)"
  | left: "v \<noteq> Some d \<Longrightarrow> day_step d limit most db (update_order ord (\<lambda>x. x\<lparr>o_driver := v\<rparr>) db)"
  | ended: "day_step d limit most db (update_order ord (\<lambda>x. x\<lparr>o_closed_at := Some t\<rparr>) db)"
  | delivered: "order_of db ord = Some x \<Longrightarrow> carries d x \<Longrightarrow> run_cash_op c db = Inr db' \<Longrightarrow> collected_by d c \<le> o_cash_due x \<Longrightarrow>
      day_step d limit most db (update_order ord (\<lambda>x. x\<lparr>o_closed_at := Some t\<rparr>) db')"
  | box: "run_cash_op c db = Inr db' \<Longrightarrow> collected_by d c = 0 \<Longrightarrow> day_step d limit most db db'"

definition day_inv :: "user_id \<Rightarrow> int \<Rightarrow> int \<Rightarrow> 'a cash_db_scheme \<Rightarrow> bool" where
  "day_inv d limit most db \<longleftrightarrow> within_caps d limit most db \<and> distinct (map o_id (orders db)) \<and> (\<forall>y\<in>set (orders db). 0 \<le> o_cash_due y)"

lemma carried:
  "int (length (open_orders db d)) = sum_list (map (\<lambda>x. if carries d x then 1 else 0) (orders db))"
  "Exposure db d = Held db d + sum_list (map (\<lambda>x. if carries d x then o_cash_due x else 0) (orders db))"
proof -
  have "int (length [x \<leftarrow> xs. carries d x]) = sum_list (map (\<lambda>x. if carries d x then 1 else 0) xs)" for xs by (induction xs) auto
  then show "int (length (open_orders db d)) = sum_list (map (\<lambda>x. if carries d x then 1 else 0) (orders db))"
    by (simp add: open_orders_def carries_def)
  show "Exposure db d = Held db d + sum_list (map (\<lambda>x. if carries d x then o_cash_due x else 0) (orders db))"
    by (simp add: Exposure_def open_orders_def sum_list_map_if_zero carries_def)
qed

lemma update_order_sum:
  fixes g :: "order \<Rightarrow> int"
  assumes "distinct (map o_id (orders db))" and "order_of db ord = Some x"
  shows "sum_list (map g (orders (update_order ord f db))) = sum_list (map g (orders db)) + g (f x) - g x"
  using sum_list_update_key[OF assms(1), of x g f] order_of_Some[OF assms(2)] by (simp add: update_order_def)

lemma update_order_sum_none:
  assumes "order_of db ord = None"
  shows "orders (update_order ord f db) = orders db"
  using assms by (auto simp: update_order_def order_of_def find_None_iff intro: map_idI)

lemma box_orders:
  fixes db :: "'a cash_db_scheme"
  assumes "run_cash_op c db = Inr db'"
  shows "orders db' = orders db \<and> cash_override db' = cash_override db \<and> Held db' d \<le> Held db d + collected_by d c"
proof -
  have a: "orders v = orders u \<and> cash_override v = cash_override u \<and> Held v d = Held u d + (if d = w then a else 0)"
    if "box_applyTx w a kind ref nt act u = Inr (h, v)" for w a kind ref nt act h and u v :: "'a cash_db_scheme"
    using that by (auto simp: box_applyTx_def Let_def insert_cash_entry_def result_simps Held_def update_conv split: if_splits)
  show ?thesis
    using assms by (cases c) (auto simp: cash_op_defs result_simps collected_by_def split: if_splits dest!: a)
qed

text \<open>The sums of a driver after an order is rewritten.\<close>

lemma within_caps_update:
  fixes db :: "'a cash_db_scheme"
  assumes "distinct (map o_id (orders db))" and "order_of db ord = Some x"
  shows "within_caps d limit most (update_order ord f db) \<longleftrightarrow>
    (0 < most \<longrightarrow> int (length (open_orders db d)) + (if carries d (f x) then 1 else 0) - (if carries d x then 1 else 0) \<le> most) \<and>
    Exposure db d + (if carries d (f x) then o_cash_due (f x) else 0) - (if carries d x then o_cash_due x else 0) \<le> cash_cap d limit db"
proof -
  have h: "Held (update_order ord f db) d = Held db d" "cash_cap d limit (update_order ord f db) = cash_cap d limit db"
    by (simp_all add: update_order_def Held_def cash_cap_def)
  show ?thesis
    unfolding within_caps_def update_order_sum[OF assms] h carried by (simp add: algebra_simps)
qed

lemma within_caps_iff:
  "within_caps d limit most db \<longleftrightarrow> (0 < most \<longrightarrow> int (length (open_orders db d)) \<le> most) \<and> Exposure db d \<le> cash_cap d limit db"
  by (simp add: within_caps_def carried)

lemma admitted_iff:
  fixes db :: "'a cash_db_scheme"
  assumes "day_inv d limit most db"
  shows "order_of db ord = Some x \<and> o_driver x = None \<and> o_closed_at x = None \<longrightarrow>
      (AdmitDriverTx True d \<lparr>ad_cash_due = o_cash_due x, ad_cash_limit = limit, ad_active_max = most\<rparr> db = Inr () \<longleftrightarrow>
        within_caps d limit most (update_order ord (\<lambda>x. x\<lparr>o_driver := Some d\<rparr>) db) \<and>
        \<not> (0 < o_cash_due x \<and> cash_overdue_stopped db d))"
proof
  assume x: "order_of db ord = Some x \<and> o_driver x = None \<and> o_closed_at x = None"
  have dist: "distinct (map o_id (orders db))" and caps: "within_caps d limit most db" and due: "0 \<le> o_cash_due x"
    using assms x order_of_Some[of db ord x] by (auto simp: day_inv_def)
  have after: "within_caps d limit most (update_order ord (\<lambda>x. x\<lparr>o_driver := Some d\<rparr>) db) \<longleftrightarrow>
      (0 < most \<longrightarrow> int (length (open_orders db d)) + 1 \<le> most) \<and> Exposure db d + o_cash_due x \<le> cash_cap d limit db"
    using within_caps_update[OF dist conjunct1[OF x], of d limit most "\<lambda>x. x\<lparr>o_driver := Some d\<rparr>"] x by (simp add: carries_def)
  show "AdmitDriverTx True d \<lparr>ad_cash_due = o_cash_due x, ad_cash_limit = limit, ad_active_max = most\<rparr> db = Inr () \<longleftrightarrow>
      within_caps d limit most (update_order ord (\<lambda>x. x\<lparr>o_driver := Some d\<rparr>) db) \<and> \<not> (0 < o_cash_due x \<and> cash_overdue_stopped db d)"
    using caps due unfolding after
    by (auto simp: AdmitDriverTx_def GuardTx_def Let_def within_caps_iff cash_cap_def split: option.splits)
qed

lemma day_step_inv:
  fixes db :: "'a cash_db_scheme"
  assumes "day_step d limit most db db'" and "day_inv d limit most db"
  shows "day_inv d limit most db'"
proof -
  have upd: "day_inv d limit most (update_order ord f u)"
    if "distinct (map o_id (orders u))" "\<forall>y\<in>set (orders u). 0 \<le> o_cash_due y" "\<And>y. o_id (f y) = o_id y" "\<And>y. o_cash_due (f y) = o_cash_due y"
      "within_caps d limit most (update_order ord f u)" for ord f and u :: "'a cash_db_scheme"
  proof -
    have "map o_id (orders (update_order ord f u)) = map o_id (orders u)" using that(3) by (simp add: update_order_def)
    moreover have "\<forall>y\<in>set (orders (update_order ord f u)). 0 \<le> o_cash_due y" using that(2,4) by (auto simp: update_order_def)
    ultimately show ?thesis using that(1,5) by (simp add: day_inv_def)
  qed
  have fewer: "within_caps d limit most (update_order ord f u)"
    if "day_inv d limit most u" "\<And>y. carries d (f y) \<Longrightarrow> carries d y" "\<And>y. o_cash_due (f y) = o_cash_due y" for ord f and u :: "'a cash_db_scheme"
  proof (cases "order_of u ord")
    case None
    then have "update_order ord f u = u" using update_order_sum_none[OF None, of f] by (simp add: update_order_def)
    with that(1) show ?thesis by (simp add: day_inv_def)
  next
    case (Some y)
    have y: "0 \<le> o_cash_due y" "distinct (map o_id (orders u))" "within_caps d limit most u"
      using that(1) order_of_Some[OF Some] by (auto simp: day_inv_def)
    show ?thesis
      unfolding within_caps_update[OF y(2) Some] using y(1,3) that(2)[of y] that(3)[of y] by (auto simp: within_caps_iff)
  qed
  have inv: "distinct (map o_id (orders db))" "\<forall>y\<in>set (orders db). 0 \<le> o_cash_due y" "within_caps d limit most db"
    using assms(2) by (simp_all add: day_inv_def)
  from assms(1) show ?thesis
  proof cases
    case (taken ord x)
    have "within_caps d limit most (update_order ord (\<lambda>x. x\<lparr>o_driver := Some d\<rparr>) db)"
      using admitted_iff[OF assms(2), of ord x] taken(2-) by simp
    then show ?thesis unfolding taken(1) by (intro upd[OF inv(1,2)]) simp_all
  next
    case (left v ord)
    show ?thesis unfolding left(1) by (rule upd[OF inv(1,2)]) (use left(2) in \<open>auto intro!: fewer[OF assms(2)] simp: carries_def\<close>)
  next
    case (ended ord t)
    show ?thesis unfolding ended(1) by (rule upd[OF inv(1,2)]) (auto intro!: fewer[OF assms(2)] simp: carries_def)
  next
    case (box c)
    with box_orders[OF box(1), of d] assms(2) show ?thesis by (auto simp: day_inv_def within_caps_def cash_cap_def)
  next
    case (delivered ord x c u t)
    note b = box_orders[OF delivered(4), of d]
    then have "within_caps d limit most (update_order ord (\<lambda>x. x\<lparr>o_closed_at := Some t\<rparr>) u)"
      using within_caps_update[of u ord x d limit most "\<lambda>x. x\<lparr>o_closed_at := Some t\<rparr>"] inv delivered(2,3,5)
      by (auto simp: order_of_def within_caps_iff carries_def cash_cap_def open_orders_def Exposure_def)
    with b inv show ?thesis unfolding delivered(1) by (intro upd) auto
  qed
qed

section \<open>Properties\<close>

text \<open>
  C7. After any sequence of cash box operations that the database accepts, from an empty state,
  what a driver holds is the sum of his entries and never negative, and a commission is waived, and
  a recipient's cash given back, at most once per order.
\<close>

theorem cash_history_explains_box:
  assumes "foldE run_cash_op ops (empty_cash_db us now) = Inr db"
  shows "(\<forall>d. Held db d = sum_list (cash_amounts db d) \<and> 0 \<le> Held db d) \<and>
         distinct (map ce_ref [e \<leftarrow> cash_entries db. ce_kind e = ''commission_waived'']) \<and>
         distinct (map ce_ref [e \<leftarrow> cash_entries db. ce_kind e = ''recipient_cash_returned''])"
  using run_cash_ops_inv[OF assms empty_cash_inv] unfolding cash_inv_def once_kinds_def by blast

definition example_driver :: user where
  "example_driver = \<lparr>u_id = ''d'', u_phone = [], u_admin = False, u_deleted = False, u_created = 0, u_status = ''active'', u_driver = True, u_on_shift = True,
       u_shift_started = None, u_last_assigned = None, u_location = None, u_location_at = None\<rparr>"

definition example_cash_ops :: "cash_op list" where
  "example_cash_ops = [Op_Collect ''d'' 900 ''o1'' None, Op_WaiveCommission ''d'' 100 ''o1'' [] ''a'',
     Op_Settle ''d'' 500 [] ''a'']"

lemma cash_history_explains_box_witness:
  "\<exists>db. foldE run_cash_op example_cash_ops (empty_cash_db [example_driver] 7) = Inr db \<and> 0 \<le> Held db ''d''"
proof -
  have "\<not> failed (foldE run_cash_op example_cash_ops (empty_cash_db [example_driver] 7))" by code_simp
  then obtain db where db: "foldE run_cash_op example_cash_ops (empty_cash_db [example_driver] 7) = Inr db"
    by (cases "foldE run_cash_op example_cash_ops (empty_cash_db [example_driver] 7)") auto
  with cash_history_explains_box[OF db] show ?thesis by blast
qed


definition example_cap_order :: "string \<Rightarrow> int \<Rightarrow> order" where
  "example_cap_order i cash = \<lparr>o_id = i, o_kind = KindStandard, o_status = StDispatching, o_customer = ''a'', o_driver = None,
     o_merchant = Some ''m'', o_wallet_paid = 0, o_cash_due = cash, o_driver_fee = 100, o_subtotal = 1000,
     o_platform_commission = 0, o_custom_mode = [], o_custom_reserved = 0, o_custom_store_paid = None, o_custom_goods = None,
     o_snap_merchant_pct = None, o_snap_rep_pct = None, o_snap_source = None, o_snap_activation = None,
     o_payment_method = ''cash'', o_custom_paid_at = None, o_promo_waived = 0, o_discount = 0, o_fee_payer = None,
     o_delivery_mode = [], o_delivery_fee = 150, o_partner_merchant = None, o_partner_pct = None,
     o_origin = [], o_stops = 1, o_promo_code = [], o_agreed_at = None, o_quote_confirmed = None, o_quote_version = 0,
     o_goods_pending = False, o_fail_reason = None, o_fault = None, o_ended_by = None, o_cancel_reason = None,
     o_prep_minutes = None, o_accepted_at = None, o_dispatched_at = None, o_picked_up_at = None, o_delivered_at = None,
     o_closed_at = None, o_door_instruction = None, o_created_at = 0, o_number = 1, o_ready_at = None, o_sent_at = None,
     o_offered_driver = None, o_offer_expires = None, o_collect_amount = None, o_fetch_status = None,
     o_recipient_phone = None, o_code = None, o_code_attempts = 0, o_total = 1200, o_sources_fee = 0,
     o_share_pct = 0, o_share_fixed = 0, o_offer_passed = [], o_excluded = [],
     o_pickup_override = None, o_dropoff = None, o_dropoff_known = False, o_zone = None,
     o_commission_waived = 0, o_goods_settled = None, o_returned_at = None, o_return_to = None, o_goods_handed_at = None,
     o_goods_comp_none_at = None\<rparr>"

definition example_cap_db :: cash_db where
  "example_cap_db = (empty_cash_db [example_driver] 7)\<lparr>orders := [example_cap_order ''o1'' 600, example_cap_order ''o2'' 500]\<rparr>"


text \<open>
  C9. What a driver hands in pays his oldest collections first: with nothing in his box no
  collection is unpaid and he is never stopped; otherwise the oldest unpaid moment is such that all
  he collected before it is covered by what he handed in, and what he collected up to it is not.
\<close>

theorem oldest_unpaid_first_in_first_out:
  assumes "cash_inv db"
  shows "case oldest_unpaid db d of
      None \<Rightarrow> Held db d = 0 \<and> \<not> cash_overdue_stopped db d
    | Some t \<Rightarrow> 0 < Held db d \<and>
        sum_list (map ce_amount [e \<leftarrow> cash_entries db. ce_driver e = d \<and> 0 < ce_amount e \<and> ce_at e < t])
          \<le> paid_in db d \<and>
        paid_in db d <
          sum_list (map ce_amount [e \<leftarrow> cash_entries db. ce_driver e = d \<and> 0 < ce_amount e \<and> ce_at e \<le> t])"
proof -
  let ?ts = "unpaid_times (paid_in db d) 0 (collections db d)"
  note held = held_split[OF assms, of d] and cs = collections_facts(1,2)[of db d]
  have nonneg: "0 \<le> Held db d" using assms unfolding cash_inv_def by blast
  show ?thesis
  proof (cases "?ts = []")
    case True
    then have "oldest_unpaid db d = None" by (simp add: oldest_unpaid_iff)
    moreover have "Held db d = 0" using unpaid_none[OF True held(2)] held(1) nonneg by simp
    ultimately show ?thesis by (simp add: cash_overdue_stopped_def)
  next
    case False
    define t where "t = Min (set ?ts)"
    have t: "t \<in> set ?ts" "\<forall>h\<in>set ?ts. t \<le> h" using False by (simp_all add: t_def)
    have before: "sum_list (map ce_amount [e \<leftarrow> collections db d. ce_at e < t]) \<le> paid_in db d"
      using unpaid_before[OF cs(1) held(2) t(2)] by simp
    have until: "paid_in db d < sum_list (map ce_amount [e \<leftarrow> collections db d. ce_at e \<le> t])"
      using unpaid_until[OF cs t(1)] by simp
    have "sum_list (map ce_amount [e \<leftarrow> collections db d. ce_at e \<le> t]) \<le> sum_list (map ce_amount (collections db d))"
      using cs(2) by (intro sum_list_filter_le) (auto intro: less_imp_le)
    with until held(1) have "0 < Held db d" by linarith
    moreover have "oldest_unpaid db d = Some t" using False by (simp add: oldest_unpaid_iff t_def Let_def)
    ultimately show ?thesis
      using before until
        collections_facts(3)[where f = ce_amount and db = db and d = d and P = "\<lambda>e. ce_at e < t"]
        collections_facts(3)[where f = ce_amount and db = db and d = d and P = "\<lambda>e. ce_at e \<le> t"]
      by simp
  qed
qed

lemma oldest_unpaid_first_in_first_out_witness:
  "\<exists>db. foldE run_cash_op example_cash_ops (empty_cash_db [example_driver] 7) = Inr db \<and> 0 < Held db ''d''"
proof -
  let ?r = "foldE run_cash_op example_cash_ops (empty_cash_db [example_driver] 7)"
  have "(case ?r of Inl _ \<Rightarrow> False | Inr db \<Rightarrow> oldest_unpaid db ''d'' = Some 7)" by code_simp
  then obtain db where db: "?r = Inr db" "oldest_unpaid db ''d'' = Some 7" by (cases ?r) auto
  have "cash_inv db" by (rule run_cash_ops_inv[OF db(1) empty_cash_inv])
  from oldest_unpaid_first_in_first_out[OF this, of "''d''"] db show ?thesis by auto
qed

end
