(* ===== verification/Obligations.thy ===== *)
theory Obligations
  imports Cashbox
begin

text \<open>
  What the parties owe the platform (\<open>obligations/obligations.go\<close>) and its payment from money
  that comes in (\<open>obligations/credit.go\<close>): obligations opened once per origin, settled
  oldest first, with a settlement row for every payment and a cached total on the party's row.
  The constraints of \<open>financial_obligations\<close> (migrations 0130, 0439, 0497) and of
  \<open>obligation_settlements\<close> (0130: the references; 0340: the methods) are part of the
  writes. An id is a number from a counter, so among obligations of the same moment the older
  number is the older one (the code orders them by a random uuid). The text of a notice is its
  data: what happened, to whom, and the amounts.
\<close>

section \<open>Tables\<close>

record obligation =
  ob_id :: int
  ob_kind :: string
  ob_party :: string
  ob_amount :: int
  ob_settled :: int
  ob_cause :: string
  ob_order :: "string option"
  ob_source :: "string option"
  ob_by :: "user_id option"
  ob_at :: int
  ob_closed :: "int option"

record obligation_payment =
  op_obligation :: int
  op_amount :: int
  op_order :: "string option"
  op_tx :: "int option"
  op_remaining :: int
  op_by :: "user_id option"
  op_method :: string
  op_ref :: string

record merchant =
  m_id :: string
  m_owner :: "user_id option"
  m_commission :: "int option"
  m_method :: string
  m_rep :: "user_id option"
  m_debt :: int
  m_created :: int
  m_name :: string
  m_prep :: "int option"
  m_location :: "point option"

datatype notice_body = NoticeCreated int string | NoticeDeducted int int

record notice_row =
  nt_user :: user_id
  nt_app :: string
  nt_body :: notice_body

record obligations_db = cash_db +
  obligations :: "obligation list"
  next_obligation :: int
  payments :: "obligation_payment list"
  merchants :: "merchant list"
  rep_debt :: "user_id \<Rightarrow> int"
  driver_debt :: "user_id \<Rightarrow> int"
  notices :: "notice_row list"

definition PartyMerchant :: string where "PartyMerchant = ''merchant''"
definition PartyRep :: string where "PartyRep = ''rep''"
definition PartyDriver :: string where "PartyDriver = ''driver''"

lemmas party_defs = PartyMerchant_def PartyRep_def PartyDriver_def

definition MethodEarning :: string where "MethodEarning = ''earning''"
definition MethodVoided :: string where "MethodVoided = ''voided''"
definition CauseRefundMerchant :: string where "CauseRefundMerchant = ''refund_merchant_earning''"

definition obligationCauses :: "string list" where
  "obligationCauses =
    [''refund_merchant_earning'', ''refund_rep_commission'', ''returned_goods'', ''legacy_opening'',
     ''merchant_delivery_fee'', ''penalty_remainder'', ''dispute_remainder'', ''failed_order_driver'',
     ''delivery_failed_recipient'', ''refund_rep_share'', ''waived_rep_commission'',
     ''undelivered_order'', ''order_edit'']"

text \<open>The causes with words of their own; the others are plainly a debt.\<close>

definition CauseWords :: "string \<Rightarrow> string" where
  "CauseWords cause = (if cause \<in> set obligationCauses - {''order_edit''} then cause else ''debt'')"

section \<open>Reading\<close>

definition ob_rest :: "obligation \<Rightarrow> int" where
  "ob_rest x = ob_amount x - ob_settled x"

definition open_of :: "string \<Rightarrow> string \<Rightarrow> obligation \<Rightarrow> bool" where
  "open_of k i x \<longleftrightarrow> ob_kind x = k \<and> ob_party x = i \<and> ob_closed x = None"

definition Debt :: "'a obligations_db_scheme \<Rightarrow> string \<Rightarrow> string \<Rightarrow> int" where
  "Debt db k i = sum_list (map ob_rest [x \<leftarrow> obligations db. open_of k i x])"

definition open_list :: "'a obligations_db_scheme \<Rightarrow> string \<Rightarrow> string \<Rightarrow> obligation list" where
  "open_list db k i = sort_key ob_at (sort_key ob_id [x \<leftarrow> obligations db. open_of k i x])"

fun offset_words :: "int \<Rightarrow> string list \<Rightarrow> obligation list \<Rightarrow> string list" where
  "offset_words amt seen [] = []"
| "offset_words amt seen (x # xs) =
    (if amt \<le> 0 then []
     else let w = CauseWords (ob_cause x)
          in if w \<in> set seen then offset_words (amt - ob_rest x) seen xs
             else w # offset_words (amt - ob_rest x) (w # seen) xs)"

text \<open>The note of a deduction: the words of the debts it touches, joined.\<close>

definition OffsetNote :: "'a obligations_db_scheme \<Rightarrow> string \<Rightarrow> string \<Rightarrow> int \<Rightarrow> string" where
  "OffsetNote db k i amt =
     ''debt deduction'' @ concat (map (\<lambda>w. '' '' @ w) (offset_words amt [] (open_list db k i)))"

definition merchant_of :: "'a obligations_db_scheme \<Rightarrow> string \<Rightarrow> merchant option" where
  "merchant_of db i = find (\<lambda>m. m_id m = i) (merchants db)"

text \<open>The account behind a party; the empty id when there is none.\<close>

definition PartyUser :: "'a obligations_db_scheme \<Rightarrow> string \<Rightarrow> string \<Rightarrow> user_id \<times> string" where
  "PartyUser db k i =
    (if k = PartyRep then (i, ''rep'')
     else if k = PartyDriver then (i, ''driver'')
     else case merchant_of db i of None \<Rightarrow> ('''', '''')
          | Some m \<Rightarrow> (case m_owner m of None \<Rightarrow> '''' | Some u \<Rightarrow> u, ''merchant''))"

definition send_notice :: "string \<Rightarrow> string \<Rightarrow> notice_body \<Rightarrow> 'a obligations_db_scheme \<Rightarrow> 'a obligations_db_scheme" where
  "send_notice k i body db =
    (let (u, app) = PartyUser db k i
     in if u = '''' then db
        else db\<lparr>notices := notices db @ [\<lparr>nt_user = u, nt_app = app, nt_body = body\<rparr>]\<rparr>)"

section \<open>Writing\<close>

text \<open>The cached totals carry a CHECK that they are never negative; a missing row is no error.\<close>

definition bumpCache :: "string \<Rightarrow> string \<Rightarrow> int \<Rightarrow> 'a obligations_db_scheme \<Rightarrow> err + 'a obligations_db_scheme" where
  "bumpCache k i delta db =
    (if k = PartyMerchant then
       (if list_ex (\<lambda>m. m_id m = i \<and> \<not> (0 \<le> m_debt m + delta \<and> in64 (m_debt m + delta))) (merchants db)
        then Inl ErrDb
        else Inr (db\<lparr>merchants := map (\<lambda>m. if m_id m = i then m\<lparr>m_debt := m_debt m + delta\<rparr> else m) (merchants db)\<rparr>))
     else if k = PartyRep then
       (if i \<notin> u_id ` set (users db) then Inr db
        else if \<not> (0 \<le> rep_debt db i + delta \<and> in64 (rep_debt db i + delta)) then Inl ErrDb
        else Inr (db\<lparr>rep_debt := (rep_debt db)(i := rep_debt db i + delta)\<rparr>))
     else if k = PartyDriver then
       (if i \<notin> u_id ` set (users db) then Inr db
        else if \<not> (0 \<le> driver_debt db i + delta \<and> in64 (driver_debt db i + delta)) then Inl ErrDb
        else Inr (db\<lparr>driver_debt := (driver_debt db)(i := driver_debt db i + delta)\<rparr>))
     else Inl (ErrMsg ''obligations: unknown party''))"

text \<open>The two unique indexes that make the opening of an obligation happen once.\<close>

definition origin_taken ::
  "'a obligations_db_scheme \<Rightarrow> string \<Rightarrow> string \<Rightarrow> string \<Rightarrow> string option \<Rightarrow> string option \<Rightarrow> bool" where
  "origin_taken db k i cause ord src \<longleftrightarrow>
     (case src of
        Some s \<Rightarrow> list_ex (\<lambda>x. ob_cause x = cause \<and> ob_source x = Some s) (obligations db)
      | None \<Rightarrow> (case ord of None \<Rightarrow> False
          | Some r \<Rightarrow> list_ex (\<lambda>x. ob_kind x = k \<and> ob_party x = i \<and> ob_order x = Some r \<and>
              ob_cause x = cause \<and> ob_source x = None) (obligations db)))"

definition CreateRef ::
  "string \<Rightarrow> string \<Rightarrow> int \<Rightarrow> string \<Rightarrow> string \<Rightarrow> string \<Rightarrow> user_id option \<Rightarrow> 'a obligations_db_scheme \<Rightarrow>
     err + bool \<times> 'a obligations_db_scheme" where
  "CreateRef k i amount cause order_id source_ref actor db =
    (if amount \<le> 0 then Inl (ErrMsg ''obligations: amount not positive'')
     else let ord = (if order_id = '''' then None else Some order_id);
              src = (if source_ref = '''' then None else Some source_ref)
          in if k \<notin> {PartyMerchant, PartyRep, PartyDriver} \<or> cause \<notin> set obligationCauses \<or> \<not> in64 amount
             then Inl ErrDb
             else if origin_taken db k i cause ord src then Inr (False, db)
             else if (case ord of None \<Rightarrow> False | Some r \<Rightarrow> order_of db r = None) then Inl ErrDb
             else bindE (bumpCache k i amount (db\<lparr>
                    obligations := obligations db @ [\<lparr>ob_id = next_obligation db, ob_kind = k, ob_party = i,
                      ob_amount = amount, ob_settled = 0, ob_cause = cause, ob_order = ord, ob_source = src,
                      ob_by = actor, ob_at = db_now db, ob_closed = None\<rparr>],
                    next_obligation := next_obligation db + 1\<rparr>)) (\<lambda>db.
                  Inr (True, send_notice k i (NoticeCreated amount cause) db)))"

definition Create ::
  "string \<Rightarrow> string \<Rightarrow> int \<Rightarrow> string \<Rightarrow> string \<Rightarrow> user_id option \<Rightarrow> 'a obligations_db_scheme \<Rightarrow>
     err + bool \<times> 'a obligations_db_scheme" where
  "Create k i amount cause order_id actor db = CreateRef k i amount cause order_id '''' actor db"

text \<open>One payment: its row, and the obligation's new total, closed when it is full.\<close>

definition pay_ob :: "int \<Rightarrow> int \<Rightarrow> obligation \<Rightarrow> obligation" where
  "pay_ob now amt x = x\<lparr>ob_settled := ob_settled x + amt,
     ob_closed := (if ob_settled x + amt \<ge> ob_amount x then Some now else None)\<rparr>"

definition write_payment ::
  "int \<Rightarrow> int \<Rightarrow> string \<Rightarrow> int \<Rightarrow> int \<Rightarrow> user_id option \<Rightarrow> string \<Rightarrow> string \<Rightarrow> 'a obligations_db_scheme \<Rightarrow>
     'a obligations_db_scheme" where
  "write_payment i amt order_id ledgerTx remaining actor meth ref db =
     db\<lparr>payments := payments db @ [\<lparr>op_obligation = i, op_amount = amt,
          op_order = (if order_id = '''' then None else Some order_id),
          op_tx = (if ledgerTx > 0 then Some ledgerTx else None), op_remaining = remaining,
          op_by = actor, op_method = meth, op_ref = ref\<rparr>],
        obligations := map (\<lambda>x. if ob_id x = i then pay_ob (db_now db) amt x else x) (obligations db)\<rparr>"

text \<open>The methods the CHECK of migration 0340 allows, and the rows a payment refers to: its order, its ledger entry, its author.\<close>

definition payment_methods :: "string list" where
  "payment_methods = [''earning'', ''voided'', ''office_cash'', ''wallet_topup'', ''written_off'']"

definition payment_accepted :: "string \<Rightarrow> int \<Rightarrow> user_id option \<Rightarrow> string \<Rightarrow> 'a obligations_db_scheme \<Rightarrow> bool" where
  "payment_accepted order_id ledgerTx actor meth db \<longleftrightarrow> meth \<in> set payment_methods \<and>
     (order_id = '''' \<or> order_of db order_id \<noteq> None) \<and>
     (ledgerTx \<le> 0 \<or> ledgerTx \<in> tx_id ` set (wallet_txs db)) \<and>
     (case actor of None \<Rightarrow> True | Some u \<Rightarrow> u \<in> u_id ` set (users db))"

text \<open>
  The insert fails on a violated CHECK or a missing row, the update where more would be paid than is owed
  (\<open>obligations_settled_ck\<close>); either fails the whole transaction.
\<close>

definition record_payment ::
  "int \<Rightarrow> int \<Rightarrow> string \<Rightarrow> int \<Rightarrow> int \<Rightarrow> user_id option \<Rightarrow> string \<Rightarrow> string \<Rightarrow> 'a obligations_db_scheme \<Rightarrow>
     err + 'a obligations_db_scheme" where
  "record_payment i amt order_id ledgerTx remaining actor meth ref db =
    (if amt \<le> 0 \<or> remaining < 0 \<or> i \<notin> ob_id ` set (obligations db) \<or> \<not> payment_accepted order_id ledgerTx actor meth db then Inl ErrDb
     else if list_ex (\<lambda>x. ob_id x = i \<and> ob_settled x + amt > ob_amount x) (obligations db) then Inl ErrDb
     else Inr (write_payment i amt order_id ledgerTx remaining actor meth ref db))"

fun settle_loop ::
  "int \<Rightarrow> string \<Rightarrow> int \<Rightarrow> user_id option \<Rightarrow> string \<Rightarrow> string \<Rightarrow> (int \<times> int) list \<Rightarrow> 'a obligations_db_scheme \<Rightarrow>
     err + int \<times> 'a obligations_db_scheme" where
  "settle_loop available order_id tx actor meth ref [] db = Inr (0, db)"
| "settle_loop available order_id tx actor meth ref ((i, rest) # xs) db =
    (if available \<le> 0 then Inr (0, db)
     else let amt = (if available < rest then available else rest)
          in bindE (record_payment i amt order_id tx (rest - amt) actor meth ref db) (\<lambda>db.
             bindE (settle_loop (available - amt) order_id tx actor meth ref xs db) (\<lambda>(taken, db).
             Inr (amt + taken, db))))"

definition SettleBy ::
  "string \<Rightarrow> string \<Rightarrow> int \<Rightarrow> string \<Rightarrow> int \<Rightarrow> user_id option \<Rightarrow> string \<Rightarrow> string \<Rightarrow> 'a obligations_db_scheme \<Rightarrow>
     err + int \<times> 'a obligations_db_scheme" where
  "SettleBy k i available order_id tx actor meth ref db =
    (if available \<le> 0 then Inr (0, db)
     else bindE (settle_loop available order_id tx actor meth ref
                (map (\<lambda>x. (ob_id x, ob_rest x)) (open_list db k i)) db) (\<lambda>(taken, db).
          if taken = 0 then Inr (0, db)
          else bindE (bumpCache k i (- taken) db) (\<lambda>db.
               Inr (taken, if meth = MethodEarning
                           then send_notice k i (NoticeDeducted taken (Debt db k i)) db else db))))"
definition SettleDebt ::
  "string \<Rightarrow> string \<Rightarrow> int \<Rightarrow> string \<Rightarrow> int \<Rightarrow> user_id option \<Rightarrow> 'a obligations_db_scheme \<Rightarrow>
     err + int \<times> 'a obligations_db_scheme" where
  "SettleDebt k i available order_id tx actor db = SettleBy k i available order_id tx actor MethodEarning '''' db"

definition VoidForOrder ::
  "string \<Rightarrow> string \<Rightarrow> string \<Rightarrow> string \<Rightarrow> user_id option \<Rightarrow> 'a obligations_db_scheme \<Rightarrow> err + 'a obligations_db_scheme" where
  "VoidForOrder k i order_id cause actor db =
    (case find (\<lambda>x. open_of k i x \<and> ob_order x = Some order_id \<and> ob_cause x = cause) (obligations db) of
       None \<Rightarrow> Inr db
     | Some x \<Rightarrow>
         if ob_rest x \<le> 0 then Inr db
         else bindE (record_payment (ob_id x) (ob_rest x) order_id 0 0 actor MethodVoided '''' db) (bumpCache k i (- ob_rest x)))"

definition ErrClosed :: err where "ErrClosed = ErrMsg ''obligation closed or short''"

definition SettleOne ::
  "int \<Rightarrow> int \<Rightarrow> string \<Rightarrow> string \<Rightarrow> int \<Rightarrow> user_id option \<Rightarrow> 'a obligations_db_scheme \<Rightarrow>
     err + (string \<times> string \<times> int) \<times> 'a obligations_db_scheme" where
  "SettleOne i amount meth ref tx actor db =
    (if amount \<le> 0 then Inl (ErrMsg ''obligations: payment not positive'')
     else case find (\<lambda>x. ob_id x = i \<and> ob_closed x = None) (obligations db) of
            None \<Rightarrow> Inl ErrClosed
          | Some x \<Rightarrow>
              if amount > ob_rest x then Inl ErrClosed
              else bindE (record_payment i amount '''' tx (ob_rest x - amount) actor meth ref db) (\<lambda>db.
                   bindE (bumpCache (ob_kind x) (ob_party x) (- amount) db) (\<lambda>db.
                   Inr ((ob_kind x, ob_party x, ob_rest x - amount), db))))"

section \<open>The cached totals\<close>

definition cached :: "'a obligations_db_scheme \<Rightarrow> string \<Rightarrow> string \<Rightarrow> int option" where
  "cached db k i =
    (if k = PartyMerchant then map_option m_debt (merchant_of db i)
     else if k = PartyRep then (if i \<in> u_id ` set (users db) then Some (rep_debt db i) else None)
     else if k = PartyDriver then (if i \<in> u_id ` set (users db) then Some (driver_debt db i) else None)
     else None)"

lemma find_map_bump:
  "find (\<lambda>m. m_id m = j) (map (\<lambda>m. if m_id m = i then m\<lparr>m_debt := m_debt m + d\<rparr> else m) ms) =
     map_option (\<lambda>m. if m_id m = i then m\<lparr>m_debt := m_debt m + d\<rparr> else m) (find (\<lambda>m. m_id m = j) ms)"
  by (induction ms) auto

lemma merchant_of_id: "merchant_of db i = Some m \<Longrightarrow> m_id m = i"
  by (auto simp: merchant_of_def find_Some_iff)

lemma bumpCache_Inr:
  assumes "bumpCache k i d db = Inr db'"
  shows "cached db' k' i' = map_option (\<lambda>c. c + (if k' = k \<and> i' = i then d else 0)) (cached db k' i')"
    and "obligations db' = obligations db" "payments db' = payments db"
      "next_obligation db' = next_obligation db" "notices db' = notices db" "db_now db' = db_now db"
      "wallets db' = wallets db" "wallet_txs db' = wallet_txs db" "orders db' = orders db"
proof -
  show "cached db' k' i' = map_option (\<lambda>c. c + (if k' = k \<and> i' = i then d else 0)) (cached db k' i')"
  proof (cases "k = PartyMerchant")
    case True
    then have db': "db' = db\<lparr>merchants := map (\<lambda>m. if m_id m = i then m\<lparr>m_debt := m_debt m + d\<rparr> else m) (merchants db)\<rparr>"
      using assms by (auto simp: bumpCache_def split: if_splits)
    have "merchant_of db' j = map_option (\<lambda>m. if m_id m = i then m\<lparr>m_debt := m_debt m + d\<rparr> else m) (merchant_of db j)" for j
      unfolding db' merchant_of_def by (simp add: find_map_bump)
    then have m: "map_option m_debt (merchant_of db' i') =
        map_option (\<lambda>c. c + (if i' = i then d else 0)) (map_option m_debt (merchant_of db i'))"
      using merchant_of_id[of db i'] by (cases "merchant_of db i'") auto
    show ?thesis
    proof (cases "k' = PartyMerchant")
      case True
      with m \<open>k = PartyMerchant\<close> show ?thesis by (simp add: cached_def)
    next
      case False
      then show ?thesis using \<open>k = PartyMerchant\<close> by (simp add: cached_def db' option.map_ident)
    qed
  next
    case False
    then show ?thesis
      using assms by (auto simp: bumpCache_def cached_def merchant_of_def option.map_ident split: if_splits)
  qed
qed (use assms in \<open>auto simp: bumpCache_def split: if_splits\<close>)

section \<open>The book of obligations\<close>

definition ob_ok :: "obligation \<Rightarrow> bool" where
  "ob_ok x \<longleftrightarrow> 0 < ob_amount x \<and> 0 \<le> ob_settled x \<and> ob_settled x \<le> ob_amount x \<and>
     (ob_closed x = None \<longleftrightarrow> ob_settled x < ob_amount x)"

definition paid_on :: "obligation_payment list \<Rightarrow> int \<Rightarrow> int" where
  "paid_on ps i = sum_list (map op_amount [p \<leftarrow> ps. op_obligation p = i])"

definition book_ok :: "'a obligations_db_scheme \<Rightarrow> bool" where
  "book_ok db \<longleftrightarrow>
     distinct (map ob_id (obligations db)) \<and>
     (\<forall>x\<in>set (obligations db). ob_ok x \<and> ob_id x < next_obligation db \<and>
        ob_settled x = paid_on (payments db) (ob_id x)) \<and>
     (\<forall>p\<in>set (payments db). op_obligation p < next_obligation db \<and> 0 < op_amount p)"

text \<open>The caches are the sums of what is open, up to a difference \<open>off\<close> still to be booked.\<close>

definition caches_off :: "(string \<Rightarrow> string \<Rightarrow> int) \<Rightarrow> 'a obligations_db_scheme \<Rightarrow> bool" where
  "caches_off off db \<longleftrightarrow> (\<forall>k i c. cached db k i = Some c \<longrightarrow> c = Debt db k i + off k i)"

abbreviation no_off :: "string \<Rightarrow> string \<Rightarrow> int" where
  "no_off \<equiv> \<lambda>_ _. 0"

definition only_off :: "string \<Rightarrow> string \<Rightarrow> int \<Rightarrow> string \<Rightarrow> string \<Rightarrow> int" where
  "only_off k i d = (\<lambda>k' i'. if k' = k \<and> i' = i then d else 0)"

lemma only_off_0 [simp]: "only_off k i 0 = no_off"
  by (auto simp: only_off_def)

definition caches_sane :: "'a obligations_db_scheme \<Rightarrow> bool" where
  "caches_sane db \<longleftrightarrow> distinct (map m_id (merchants db)) \<and> (\<forall>k i c. cached db k i = Some c \<longrightarrow> in64 c)"

definition obligations_inv :: "'a obligations_db_scheme \<Rightarrow> bool" where
  "obligations_inv db \<longleftrightarrow> book_ok db \<and> caches_off no_off db \<and> caches_sane db"

definition open_rest :: "string \<Rightarrow> string \<Rightarrow> obligation \<Rightarrow> int" where
  "open_rest k i x = (if open_of k i x then ob_rest x else 0)"

lemma Debt_alt: "Debt db k i = sum_list (map (open_rest k i) (obligations db))"
  by (simp add: Debt_def open_rest_def[abs_def] sum_list_map_if_zero)

lemma Debt_nonneg: "book_ok db \<Longrightarrow> 0 \<le> Debt db k i"
  unfolding Debt_alt
  by (intro sum_list_map_nonneg) (auto simp: open_rest_def ob_rest_def book_ok_def ob_ok_def)

lemma bumpCache_Debt:
  assumes "bumpCache k i d db = Inr db'"
  shows "Debt db' k' i' = Debt db k' i'" and "book_ok db' = book_ok db"
  using bumpCache_Inr[OF assms] by (simp_all add: Debt_def book_ok_def)

lemma bumpCache_off:
  assumes "bumpCache k i d db = Inr db'" and "caches_off (only_off k i (- d)) db"
  shows "caches_off no_off db'"
  using assms(2) bumpCache_Inr(1)[OF assms(1)] bumpCache_Debt(1)[OF assms(1)]
  by (auto simp: caches_off_def only_off_def split: if_splits)

lemma merchant_of_row:
  "distinct (map m_id (merchants db)) \<Longrightarrow> m \<in> set (merchants db) \<Longrightarrow> merchant_of db (m_id m) = Some m"
  using find_distinct_key[of m_id "merchants db" m "\<lambda>_. True"] by (simp add: merchant_of_def)

lemma bumpCache_sane:
  assumes "bumpCache k i d db = Inr db'" and "caches_sane db"
  shows "caches_sane db'"
proof -
  have "in64 c" if "cached db' k' i' = Some c" for k' i' c
  proof (cases "k' = k \<and> i' = i")
    case False
    with that bumpCache_Inr(1)[OF assms(1), of k' i'] assms(2) show ?thesis
      by (auto simp: caches_sane_def)
  next
    case True
    with that bumpCache_Inr(1)[OF assms(1), of k' i'] obtain c0 where c0: "cached db k i = Some c0" "c = c0 + d"
      by (cases "cached db k i") auto
    have "in64 (c0 + d)"
    proof (cases "k = PartyMerchant")
      case True
      then obtain m where "merchant_of db i = Some m" "m_debt m = c0" using c0(1) by (auto simp: cached_def)
      then have "m \<in> set (merchants db)" "m_id m = i" by (auto simp: merchant_of_def find_Some_iff)
      with \<open>m_debt m = c0\<close> assms(1) True show ?thesis
        by (auto simp: bumpCache_def list_ex_iff split: if_splits)
    next
      case False
      with c0(1) assms(1) show ?thesis by (auto simp: bumpCache_def cached_def split: if_splits)
    qed
    with c0(2) show ?thesis by simp
  qed
  moreover have "map m_id (merchants db') = map m_id (merchants db)"
    using assms(1) by (auto simp: bumpCache_def split: if_splits)
  ultimately show ?thesis using assms(2) by (simp add: caches_sane_def)
qed

lemma bumpCache_succeeds:
  assumes "caches_sane db" and "k \<in> {PartyMerchant, PartyRep, PartyDriver}"
    and "\<And>c. cached db k i = Some c \<Longrightarrow> 0 \<le> c + d \<and> in64 (c + d)"
  shows "\<exists>db'. bumpCache k i d db = Inr db'"
proof (cases "k = PartyMerchant")
  case True
  have "0 \<le> m_debt m + d \<and> in64 (m_debt m + d)" if "m \<in> set (merchants db)" "m_id m = i" for m
    using merchant_of_row[of db m] that assms(1,3) True by (auto simp: caches_sane_def cached_def)
  with True show ?thesis by (auto simp: bumpCache_def list_ex_iff)
next
  case False
  with assms(2,3) show ?thesis by (auto simp: bumpCache_def cached_def party_defs split: if_splits)
qed

text \<open>One payment of an open obligation.\<close>

lemma write_payment_frame:
  "cached (write_payment i amt ord tx rest actor meth ref db) k j = cached db k j"
  "next_obligation (write_payment i amt ord tx rest actor meth ref db) = next_obligation db"
  "db_now (write_payment i amt ord tx rest actor meth ref db) = db_now db"
  "obligations (write_payment i amt ord tx rest actor meth ref db) =
     map (\<lambda>x. if ob_id x = i then pay_ob (db_now db) amt x else x) (obligations db)"
  "wallets (write_payment i amt ord tx rest actor meth ref db) = wallets db"
  "wallet_txs (write_payment i amt ord tx rest actor meth ref db) = wallet_txs db"
  "merchants (write_payment i amt ord tx rest actor meth ref db) = merchants db"
  by (simp_all add: write_payment_def cached_def merchant_of_def)

lemma pay_ob_simps [simp]:
  "ob_id (pay_ob now a x) = ob_id x" "ob_kind (pay_ob now a x) = ob_kind x"
  "ob_party (pay_ob now a x) = ob_party x" "ob_settled (pay_ob now a x) = ob_settled x + a"
  "ob_amount (pay_ob now a x) = ob_amount x"
  by (simp_all add: pay_ob_def)

lemma pay_ob_ok: "ob_ok x \<Longrightarrow> 0 < a \<Longrightarrow> a \<le> ob_rest x \<Longrightarrow> ob_ok (pay_ob now a x)"
  by (auto simp: ob_ok_def ob_rest_def pay_ob_def)

lemma pay_ob_open_rest:
  "ob_ok x \<Longrightarrow> open_of k i x \<Longrightarrow> 0 < a \<Longrightarrow> a \<le> ob_rest x \<Longrightarrow>
     open_rest k' i' (pay_ob now a x) = open_rest k' i' x - (if k' = k \<and> i' = i then a else 0)"
  by (auto simp: open_rest_def open_of_def ob_rest_def pay_ob_def ob_ok_def)

lemma write_payment_step:
  fixes db :: "'a obligations_db_scheme"
  assumes "book_ok db" and "x \<in> set (obligations db)" and "open_of k i x" and "0 < a" and "a \<le> ob_rest x"
  shows "book_ok (write_payment (ob_id x) a ord tx rest actor meth ref db)"
    and "Debt (write_payment (ob_id x) a ord tx rest actor meth ref db) k' i' =
           Debt db k' i' - (if k' = k \<and> i' = i then a else 0)"
proof -
  let ?f = "\<lambda>y. if ob_id y = ob_id x then pay_ob (db_now db) a y else y"
  have dist: "distinct (map ob_id (obligations db))" and ok: "ob_ok x"
    using assms(1,2) by (auto simp: book_ok_def)
  have ids: "map ob_id (map ?f (obligations db)) = map ob_id (obligations db)" by simp
  have uniq: "y = x" if "y \<in> set (obligations db)" "ob_id y = ob_id x" for y
    using that dist assms(2) by (auto simp: distinct_map inj_on_def)
  show "book_ok (write_payment (ob_id x) a ord tx rest actor meth ref db)"
    (is "book_ok ?db")
  proof -
    have paid: "paid_on (payments ?db) j = paid_on (payments db) j + (if j = ob_id x then a else 0)" for j
      by (simp add: write_payment_def paid_on_def)
    have row: "ob_ok y \<and> ob_id y < next_obligation ?db \<and> ob_settled y = paid_on (payments ?db) (ob_id y)"
      if y: "y \<in> set (obligations ?db)" for y
    proof -
      obtain z where z: "z \<in> set (obligations db)" "y = ?f z" using y by (auto simp: write_payment_frame)
      have z': "ob_ok z" "ob_id z < next_obligation db" "ob_settled z = paid_on (payments db) (ob_id z)"
        using assms(1) z(1) by (auto simp: book_ok_def)
      show ?thesis
      proof (cases "ob_id z = ob_id x")
        case True
        with z uniq have "y = pay_ob (db_now db) a x" "z = x" by auto
        with z' pay_ob_ok[OF ok assms(4,5)] show ?thesis by (simp add: paid write_payment_frame)
      next
        case False
        with z z' show ?thesis by (simp add: paid write_payment_frame)
      qed
    qed
    have "op_obligation q < next_obligation ?db \<and> 0 < op_amount q" if "q \<in> set (payments ?db)" for q
      using that assms(1,2,4) by (auto simp: write_payment_def book_ok_def)
    moreover have "distinct (map ob_id (obligations ?db))"
      using dist ids by (simp only: write_payment_frame)
    ultimately show ?thesis using row unfolding book_ok_def by blast
  qed
  have "sum_list (map (open_rest k' i') (map ?f (obligations db))) =
      sum_list (map (open_rest k' i') (obligations db)) + open_rest k' i' (pay_ob (db_now db) a x) - open_rest k' i' x"
    by (rule sum_list_update_key[OF dist assms(2)])
  then show "Debt (write_payment (ob_id x) a ord tx rest actor meth ref db) k' i' =
      Debt db k' i' - (if k' = k \<and> i' = i then a else 0)"
    using pay_ob_open_rest[OF ok assms(3-5)]
    by (simp only: Debt_alt write_payment_frame(4))
qed

section \<open>Settling, oldest first\<close>

text \<open>The loop where every payment is accepted.\<close>

fun pay_loop ::
  "int \<Rightarrow> string \<Rightarrow> int \<Rightarrow> user_id option \<Rightarrow> string \<Rightarrow> string \<Rightarrow> (int \<times> int) list \<Rightarrow> 'a obligations_db_scheme \<Rightarrow>
     int \<times> 'a obligations_db_scheme" where
  "pay_loop available order_id tx actor meth ref [] db = (0, db)"
| "pay_loop available order_id tx actor meth ref ((i, rest) # xs) db =
    (if available \<le> 0 then (0, db)
     else let amt = (if available < rest then available else rest);
              (taken, db) = pay_loop (available - amt) order_id tx actor meth ref xs
                (write_payment i amt order_id tx (rest - amt) actor meth ref db)
          in (amt + taken, db))"

lemma record_payment_Inr:
  assumes "record_payment i a ord tx rest actor meth ref db = Inr db'"
  shows "db' = write_payment i a ord tx rest actor meth ref db" and "payment_accepted ord tx actor meth db"
  using assms by (auto simp: record_payment_def split: if_splits)

lemma payment_accepted_write [simp]:
  "payment_accepted ord' tx' actor' meth' (write_payment i a ord tx rest actor meth ref db) = payment_accepted ord' tx' actor' meth' db"
  by (simp add: payment_accepted_def write_payment_def order_of_def split: option.split)

lemma settle_loop_Inr:
  "settle_loop available ord tx actor meth ref xs db = Inr r \<Longrightarrow> pay_loop available ord tx actor meth ref xs db = r"
proof (induction xs arbitrary: available db r)
  case (Cons x xs)
  obtain i s where x: "x = (i, s)" by (cases x)
  show ?case
  proof (cases "available \<le> 0")
    case True
    with Cons.prems show ?thesis by (simp add: x)
  next
    case False
    define a where "a = (if available < s then available else s)"
    from Cons.prems False obtain d t u where "record_payment i a ord tx (s - a) actor meth ref db = Inr d"
        "settle_loop (available - a) ord tx actor meth ref xs d = Inr (t, u)" "r = (a + t, u)"
      by (auto simp: x a_def[symmetric] Let_def bindE_eq_Inr)
    with Cons.IH[of "available - a" d] record_payment_Inr(1) False show ?thesis
      by (fastforce simp: x a_def[symmetric] Let_def)
  qed
qed simp

text \<open>What the loop pays on each obligation: the first ones in full, the last one what is left.\<close>

fun alloc :: "int \<Rightarrow> (int \<times> int) list \<Rightarrow> (int \<times> int) list" where
  "alloc available [] = []"
| "alloc available ((i, rest) # xs) =
    (if available \<le> 0 then [] else (i, min available rest) # alloc (available - min available rest) xs)"

definition settle_ready :: "string \<Rightarrow> string \<Rightarrow> (int \<times> int) list \<Rightarrow> 'a obligations_db_scheme \<Rightarrow> bool" where
  "settle_ready k p xs db \<longleftrightarrow> book_ok db \<and> distinct (map fst xs) \<and>
     (\<forall>(i, r)\<in>set xs. \<exists>x\<in>set (obligations db). ob_id x = i \<and> open_of k p x \<and> ob_rest x = r)"

lemma settle_ready_step:
  assumes "settle_ready k p ((i, r) # xs) db" and "0 < a" and "a \<le> r"
    and db': "db' = write_payment i a ord tx rest actor meth ref db"
  shows "settle_ready k p xs db'" and "Debt db' k' p' = Debt db k' p' - (if k' = k \<and> p' = p then a else 0)"
    and "0 < r"
proof -
  obtain x where x: "x \<in> set (obligations db)" "ob_id x = i" "open_of k p x" "ob_rest x = r"
    using assms(1) by (auto simp: settle_ready_def)
  have book: "book_ok db" using assms(1) by (simp add: settle_ready_def)
  note step = write_payment_step[OF book x(1,3), of a ord tx rest actor meth ref]
  show "Debt db' k' p' = Debt db k' p' - (if k' = k \<and> p' = p then a else 0)"
    using step(2)[of k' p'] assms(2,3) x(2,4) by (simp add: db')
  show "0 < r" using assms(2,3) by simp
  have "\<exists>y\<in>set (obligations db'). ob_id y = j \<and> open_of k p y \<and> ob_rest y = s" if "(j, s) \<in> set xs" for j s
  proof -
    from that assms(1) obtain y where y: "y \<in> set (obligations db)" "ob_id y = j" "open_of k p y" "ob_rest y = s"
      by (auto simp: settle_ready_def)
    moreover have "j \<noteq> i" using that assms(1) by (force simp: settle_ready_def)
    ultimately show ?thesis unfolding db' write_payment_frame(4) by force
  qed
  moreover have "book_ok db'" using step(1) assms(2,3) x(2,4) by (simp add: db')
  ultimately show "settle_ready k p xs db'" using assms(1) by (auto simp: settle_ready_def)
qed

lemma pay_loop_spec:
  assumes "settle_ready k p xs db" and "\<forall>x\<in>set xs. 0 < snd x"
    and "pay_loop available ord tx actor meth ref xs db = (t, db')"
  shows "book_ok db' \<and> t = max 0 (min available (sum_list (map snd xs))) \<and>
    (\<forall>k' p'. Debt db' k' p' = Debt db k' p' - (if k' = k \<and> p' = p then t else 0)) \<and>
    (\<forall>k' p'. cached db' k' p' = cached db k' p') \<and> db_now db' = db_now db \<and>
    wallets db' = wallets db \<and> wallet_txs db' = wallet_txs db \<and> merchants db' = merchants db \<and>
    map ob_id (obligations db') = map ob_id (obligations db)"
  using assms
proof (induction xs arbitrary: available db t)
  case Nil
  then show ?case by (simp add: settle_ready_def)
next
  case (Cons x xs)
  obtain i r where x: "x = (i, r)" by (cases x)
  have r: "0 < r" using Cons.prems(2) x by simp
  have rest: "0 \<le> sum_list (map snd xs)"
    using Cons.prems(2) by (intro sum_list_map_nonneg) (auto simp: less_imp_le)
  show ?case
  proof (cases "available \<le> 0")
    case True
    with Cons.prems x show ?thesis by (auto simp: settle_ready_def)
  next
    case False
    define a where "a = (if available < r then available else r)"
    define db1 where "db1 = write_payment i a ord tx (r - a) actor meth ref db"
    have a: "0 < a" "a \<le> r" using False r by (auto simp: a_def)
    from Cons.prems(3) x False obtain t1 where
      t1: "pay_loop (available - a) ord tx actor meth ref xs db1 = (t1, db')" "t = a + t1"
      by (auto simp: a_def db1_def Let_def split: prod.splits)
    have ready: "settle_ready k p ((i, r) # xs) db" using Cons.prems(1) x by simp
    note step = settle_ready_step[OF ready a db1_def]
    have "\<forall>x\<in>set xs. 0 < snd x" using Cons.prems(2) by simp
    note IH = Cons.IH[OF step(1) this t1(1)]
    have "t = max 0 (min available (sum_list (map snd (x # xs))))"
      using IH t1(2) False rest r by (auto simp: x a_def)
    with IH t1(2) step(2) show ?thesis
      by (auto simp: db1_def write_payment_frame)
  qed
qed

text \<open>The loop succeeds exactly when the first payment does: what a payment refers to stays while it runs.\<close>

lemma record_payment_ok:
  assumes "settle_ready k p ((i, r) # xs) db" and "0 < a" and "a \<le> r" and "payment_accepted ord tx actor meth db"
  shows "record_payment i a ord tx (r - a) actor meth ref db = Inr (write_payment i a ord tx (r - a) actor meth ref db)"
proof -
  obtain x where x: "x \<in> set (obligations db)" "ob_id x = i" "ob_rest x = r" and dist: "distinct (map ob_id (obligations db))"
    using assms(1) by (auto simp: settle_ready_def book_ok_def)
  have "ob_settled y + a \<le> ob_amount y" if "y \<in> set (obligations db)" "ob_id y = i" for y
  proof -
    have "y = x" using that x dist by (auto simp: distinct_map inj_on_def)
    then show ?thesis using x(3) assms(3) by (simp add: ob_rest_def)
  qed
  then have "\<not> list_ex (\<lambda>x. ob_id x = i \<and> ob_settled x + a > ob_amount x) (obligations db)" by (force simp: list_ex_iff)
  with x(1,2) assms(2-4) show ?thesis by (auto simp: record_payment_def)
qed

lemma settle_loop_ok:
  assumes "settle_ready k p xs db" and "\<forall>x\<in>set xs. 0 < snd x" and "payment_accepted ord tx actor meth db"
  shows "settle_loop available ord tx actor meth ref xs db = Inr (pay_loop available ord tx actor meth ref xs db)"
  using assms
proof (induction xs arbitrary: available db)
  case (Cons x xs)
  obtain i r where x: "x = (i, r)" by (cases x)
  show ?case
  proof (cases "available \<le> 0")
    case False
    define a where "a = (if available < r then available else r)"
    have a: "0 < a" "a \<le> r" using False Cons.prems(2) by (auto simp: a_def x)
    have ready: "settle_ready k p ((i, r) # xs) db" using Cons.prems(1) x by simp
    have "settle_loop (available - a) ord tx actor meth ref xs (write_payment i a ord tx (r - a) actor meth ref db) =
        Inr (pay_loop (available - a) ord tx actor meth ref xs (write_payment i a ord tx (r - a) actor meth ref db))"
      by (rule Cons.IH[OF settle_ready_step(1)[OF ready a refl]]) (use Cons.prems in simp_all)
    with record_payment_ok[OF ready a Cons.prems(3)] False show ?thesis
      by (simp add: x a_def[symmetric] Let_def split: prod.split)
  qed (simp add: x)
qed simp

lemma settle_loop_refused:
  assumes "\<not> payment_accepted ord tx actor meth db" and "0 < available" and "xs \<noteq> []"
  shows "settle_loop available ord tx actor meth ref xs db = Inl ErrDb"
  using assms by (cases xs) (auto simp: record_payment_def Let_def)

lemma open_list_set: "set (open_list db k i) = {x \<in> set (obligations db). open_of k i x}"
  by (simp add: open_list_def)

lemma open_list_sum: "sum_list (map ob_rest (open_list db k i)) = Debt db k i"
  by (simp add: open_list_def Debt_def sum_list_map_sort_key)

lemma distinct_sort_key_map: "distinct (map f (sort_key g xs)) \<longleftrightarrow> distinct (map f xs)"
  by (simp add: distinct_map)

lemma open_list_ready:
  assumes "book_ok db"
  shows "settle_ready k p (map (\<lambda>x. (ob_id x, ob_rest x)) (open_list db k p)) db"
    and "\<forall>x\<in>set (map (\<lambda>x. (ob_id x, ob_rest x)) (open_list db k p)). 0 < snd x"
proof -
  have "distinct (map ob_id (open_list db k p))"
    using assms by (simp add: open_list_def distinct_sort_key_map distinct_map_filter book_ok_def)
  then show "settle_ready k p (map (\<lambda>x. (ob_id x, ob_rest x)) (open_list db k p)) db"
    using assms by (auto simp: settle_ready_def open_list_set o_def)
  show "\<forall>x\<in>set (map (\<lambda>x. (ob_id x, ob_rest x)) (open_list db k p)). 0 < snd x"
    using assms by (auto simp: open_list_set open_of_def ob_rest_def book_ok_def ob_ok_def)
qed

text \<open>What the loop pays on each obligation.\<close>

lemma pay_loop_paid_other:
  assumes "pay_loop available ord tx actor meth ref xs db = (t, db')" and "j \<notin> fst ` set xs"
  shows "paid_on (payments db') j = paid_on (payments db) j"
  using assms
proof (induction xs arbitrary: available db t)
  case (Cons x xs)
  then show ?case
    by (cases x) (auto simp: Let_def write_payment_def paid_on_def split: if_splits prod.splits dest!: Cons.IH)
qed simp

lemma pay_loop_paid:
  assumes "pay_loop available ord tx actor meth ref (ys @ (j, r) # zs) db = (t, db')"
    and "distinct (map fst (ys @ (j, r) # zs))" and "\<forall>x\<in>set ys. 0 < snd x" and "0 < r"
  shows "paid_on (payments db') j = paid_on (payments db) j + max 0 (min r (available - sum_list (map snd ys)))"
  using assms
proof (induction ys arbitrary: available db t)
  case Nil
  show ?case
  proof (cases "available \<le> 0")
    case False
    define a where "a = (if available < r then available else r)"
    obtain t1 where "pay_loop (available - a) ord tx actor meth ref zs
        (write_payment j a ord tx (r - a) actor meth ref db) = (t1, db')"
      using Nil.prems(1) False by (auto simp: a_def Let_def split: prod.splits)
    from pay_loop_paid_other[OF this, of j] Nil.prems(2,4) False show ?thesis
      by (auto simp: write_payment_def paid_on_def a_def)
  qed (use Nil in simp)
next
  case (Cons x ys)
  obtain i s where x: "x = (i, s)" by (cases x)
  have s: "0 < s" using Cons.prems(3) x by simp
  have ys: "0 \<le> sum_list (map snd ys)"
    using Cons.prems(3) by (intro sum_list_map_nonneg) (auto simp: less_imp_le)
  show ?case
  proof (cases "available \<le> 0")
    case True
    with Cons.prems(1) x s ys show ?thesis by simp
  next
    case False
    define a where "a = (if available < s then available else s)"
    obtain t1 where l: "pay_loop (available - a) ord tx actor meth ref (ys @ (j, r) # zs)
        (write_payment i a ord tx (s - a) actor meth ref db) = (t1, db')"
      using Cons.prems(1) False x by (auto simp: a_def Let_def split: prod.splits)
    have "i \<noteq> j" using Cons.prems(2) x by auto
    moreover have "max 0 (min r (available - a - sum_list (map snd ys))) =
        max 0 (min r (available - (s + sum_list (map snd ys))))"
      using ys Cons.prems(4) False by (auto simp: a_def)
    ultimately show ?thesis
      using Cons.IH[OF l] Cons.prems(2-4) x by (simp add: write_payment_def paid_on_def)
  qed
qed

text \<open>The whole operation, where its payments are accepted: it succeeds, and takes what is owed as far as the money goes.\<close>

lemma SettleBy_spec:
  assumes "obligations_inv db" and "k \<in> {PartyMerchant, PartyRep, PartyDriver}" and pay: "payment_accepted ord tx actor meth db"
  shows "\<exists>db'. SettleBy k p available ord tx actor meth ref db = Inr (max 0 (min available (Debt db k p)), db') \<and>
    obligations_inv db' \<and>
    (\<forall>k' p'. Debt db' k' p' = Debt db k' p' - (if k' = k \<and> p' = p then max 0 (min available (Debt db k p)) else 0)) \<and>
    wallets db' = wallets db \<and> wallet_txs db' = wallet_txs db \<and>
    (0 < available \<longrightarrow>
      obligations db' = obligations (snd (pay_loop available ord tx actor meth ref
        (map (\<lambda>x. (ob_id x, ob_rest x)) (open_list db k p)) db)) \<and>
      payments db' = payments (snd (pay_loop available ord tx actor meth ref
        (map (\<lambda>x. (ob_id x, ob_rest x)) (open_list db k p)) db)))"
proof (cases "available \<le> 0")
  case True
  then show ?thesis using assms by (simp add: SettleBy_def)
next
  case False
  obtain t db1 where l: "pay_loop available ord tx actor meth ref
      (map (\<lambda>x. (ob_id x, ob_rest x)) (open_list db k p)) db = (t, db1)" by fastforce
  have book: "book_ok db" and sane: "caches_sane db" and cache: "caches_off no_off db"
    using assms(1) by (simp_all add: obligations_inv_def)
  note spec = pay_loop_spec[OF open_list_ready(1)[OF book] open_list_ready(2)[OF book] l]
  have loop: "settle_loop available ord tx actor meth ref (map (\<lambda>x. (ob_id x, ob_rest x)) (open_list db k p)) db = Inr (t, db1)"
    using settle_loop_ok[OF open_list_ready(1)[OF book] open_list_ready(2)[OF book] pay] l by simp
  have t: "t = max 0 (min available (Debt db k p))"
    using spec by (simp add: o_def open_list_sum)
  have sane1: "caches_sane db1" and off1: "caches_off (only_off k p t) db1"
    using spec sane cache by (auto simp: caches_sane_def caches_off_def only_off_def)
  show ?thesis
  proof (cases "t = 0")
    case True
    then have "Debt db k p = 0" using t Debt_nonneg[OF book, of k p] False by auto
    then have "open_list db k p = []"
      using open_list_ready(2)[OF book, of k p] open_list_sum[of db k p]
        sum_list_map_nonneg[of "tl (open_list db k p)" ob_rest]
      by (cases "open_list db k p") (auto simp: less_imp_le add_nonneg_eq_0_iff)
    then show ?thesis using assms True t False by (simp add: SettleBy_def)
  next
    case nz: False
    have bump: "\<exists>db2. bumpCache k p (- t) db1 = Inr db2"
    proof (rule bumpCache_succeeds[OF sane1 assms(2)])
      fix c assume c: "cached db1 k p = Some c"
      then have "c = Debt db k p" "in64 c"
        using spec cache sane by (auto simp: caches_off_def caches_sane_def)
      then show "0 \<le> c + - t \<and> in64 (c + - t)" using t Debt_nonneg[OF book, of k p] by (auto simp: in64_def)
    qed
    then obtain db2 where b: "bumpCache k p (- t) db1 = Inr db2" by blast
    define db3 where "db3 = (if meth = MethodEarning
        then send_notice k p (NoticeDeducted t (Debt db2 k p)) db2 else db2)"
    have r: "SettleBy k p available ord tx actor meth ref db = Inr (t, db3)"
      using False nz loop b by (simp add: SettleBy_def db3_def)
    note bi = bumpCache_Inr[OF b] and bd = bumpCache_Debt[OF b]
    have same: "obligations db3 = obligations db2" "payments db3 = payments db2"
      "next_obligation db3 = next_obligation db2" "merchants db3 = merchants db2"
      "cached db3 k' p' = cached db2 k' p'" "wallets db3 = wallets db2" "wallet_txs db3 = wallet_txs db2" for k' p'
      by (auto simp: db3_def send_notice_def Let_def cached_def merchant_of_def split: prod.split)
    have "obligations_inv db2"
      using spec bd(2) bumpCache_off[OF b, unfolded minus_minus] off1 bumpCache_sane[OF b sane1]
      by (simp add: obligations_inv_def)
    then have "obligations_inv db3"
      using same by (simp add: obligations_inv_def book_ok_def caches_off_def caches_sane_def Debt_def)
    moreover have "Debt db3 k' p' = Debt db1 k' p'" for k' p'
      using bd(1)[of k' p'] same(1) by (simp add: Debt_def)
    ultimately show ?thesis
      using r spec bi same t l by auto
  qed
qed

section \<open>Every operation keeps the book\<close>

lemma send_notice_frame [simp]:
  "obligations (send_notice k i b db) = obligations db" "payments (send_notice k i b db) = payments db"
  "next_obligation (send_notice k i b db) = next_obligation db" "merchants (send_notice k i b db) = merchants db"
  "cached (send_notice k i b db) k' i' = cached db k' i'" "wallets (send_notice k i b db) = wallets db"
  "wallet_txs (send_notice k i b db) = wallet_txs db" "Debt (send_notice k i b db) k' i' = Debt db k' i'"
  "orders (send_notice k i b db) = orders db"
  by (simp_all add: send_notice_def Let_def cached_def merchant_of_def Debt_def split: prod.split)

lemma send_notice_inv [simp]: "obligations_inv (send_notice k i b db) = obligations_inv db"
  by (simp add: obligations_inv_def book_ok_def caches_off_def caches_sane_def)

text \<open>Book first, then the cached total: the shape of every write.\<close>

lemma bump_restores:
  assumes "book_ok db1" and "caches_sane db1" and "caches_off (only_off k i (- d)) db1"
    and "bumpCache k i d db1 = Inr db2"
  shows "obligations_inv db2" and "Debt db2 k' i' = Debt db1 k' i'"
  using assms bumpCache_Debt[OF assms(4)] bumpCache_off[OF assms(4,3)] bumpCache_sane[OF assms(4,2)]
  by (simp_all add: obligations_inv_def)

definition new_obligation ::
  "string \<Rightarrow> string \<Rightarrow> int \<Rightarrow> string \<Rightarrow> string option \<Rightarrow> string option \<Rightarrow> user_id option \<Rightarrow> 'a obligations_db_scheme \<Rightarrow>
     'a obligations_db_scheme" where
  "new_obligation k i amount cause ord src actor db =
     db\<lparr>obligations := obligations db @ [\<lparr>ob_id = next_obligation db, ob_kind = k, ob_party = i,
          ob_amount = amount, ob_settled = 0, ob_cause = cause, ob_order = ord, ob_source = src,
          ob_by = actor, ob_at = db_now db, ob_closed = None\<rparr>],
        next_obligation := next_obligation db + 1\<rparr>"

lemma new_obligation_facts:
  assumes "obligations_inv db" and "0 < amount"
  shows "book_ok (new_obligation k i amount cause ord src actor db)"
    and "caches_sane (new_obligation k i amount cause ord src actor db)"
    and "caches_off (only_off k i (- amount)) (new_obligation k i amount cause ord src actor db)"
    and "Debt (new_obligation k i amount cause ord src actor db) k' i' =
           Debt db k' i' + (if k' = k \<and> i' = i then amount else 0)"
proof -
  let ?db = "new_obligation k i amount cause ord src actor db"
  have cached: "cached ?db k' i' = cached db k' i'" for k' i'
    by (simp add: new_obligation_def cached_def merchant_of_def)
  show debt: "Debt ?db k' i' = Debt db k' i' + (if k' = k \<and> i' = i then amount else 0)" for k' i'
    by (simp add: new_obligation_def Debt_def open_of_def ob_rest_def)
  have book: "book_ok db" and off: "caches_off no_off db" and sane: "caches_sane db"
    using assms(1) by (simp_all add: obligations_inv_def)
  have fresh: "paid_on (payments db) (next_obligation db) = 0"
  proof -
    have "[p \<leftarrow> payments db. op_obligation p = next_obligation db] = []"
      using book by (auto simp: book_ok_def filter_empty_conv)
    then show ?thesis by (simp add: paid_on_def)
  qed
  have "\<forall>x\<in>set (obligations db). ob_id x < next_obligation db" using book by (simp add: book_ok_def)
  then show "book_ok ?db"
    using book assms(2) fresh
    by (auto simp: book_ok_def new_obligation_def ob_ok_def)
  show "caches_sane ?db" using sane cached by (simp add: caches_sane_def new_obligation_def)
  show "caches_off (only_off k i (- amount)) ?db"
    using off cached debt by (auto simp: caches_off_def only_off_def)
qed

lemma CreateRef_inv:
  assumes "CreateRef k i amount cause order_id src actor db = Inr (made, db')" and "obligations_inv db"
  shows "obligations_inv db'"
    and "Debt db' k' i' = Debt db k' i' + (if made \<and> k' = k \<and> i' = i then amount else 0)"
    and "\<not> made \<Longrightarrow> db' = db"
proof -
  from assms(1) have pos: "0 < amount" by (auto simp: CreateRef_def split: if_splits)
  show "\<not> made \<Longrightarrow> db' = db"
    using assms(1) by (auto simp: CreateRef_def Let_def result_simps split: if_splits)
  have "obligations_inv db' \<and> Debt db' k' i' = Debt db k' i' + (if made \<and> k' = k \<and> i' = i then amount else 0)"
  proof (cases made)
    case False
    then show ?thesis using assms by (auto simp: CreateRef_def Let_def result_simps split: if_splits)
  next
    case True
    then obtain db1 where b: "bumpCache k i amount (new_obligation k i amount cause
          (if order_id = '''' then None else Some order_id) (if src = '''' then None else Some src) actor db) = Inr db1"
      and db': "db' = send_notice k i (NoticeCreated amount cause) db1"
      using assms(1) by (auto simp: CreateRef_def Let_def result_simps new_obligation_def split: if_splits)
    note f = new_obligation_facts[OF assms(2) pos]
    from bump_restores[OF f(1) f(2) f(3) b] f(4) True db' show ?thesis by simp
  qed
  then show "obligations_inv db'"
    and "Debt db' k' i' = Debt db k' i' + (if made \<and> k' = k \<and> i' = i then amount else 0)" by auto
qed

lemma payment_bump_inv:
  assumes "obligations_inv db" and "x \<in> set (obligations db)" and "ob_closed x = None"
    and "0 < a" and "a \<le> ob_rest x"
    and "bumpCache (ob_kind x) (ob_party x) (- a)
           (write_payment (ob_id x) a ord tx rest actor meth ref db) = Inr db'"
  shows "obligations_inv db'"
    and "Debt db' k' i' = Debt db k' i' - (if k' = ob_kind x \<and> i' = ob_party x then a else 0)"
proof -
  let ?db = "write_payment (ob_id x) a ord tx rest actor meth ref db"
  have inv: "book_ok db" "caches_off no_off db" "caches_sane db"
    using assms(1) by (simp_all add: obligations_inv_def)
  have op: "open_of (ob_kind x) (ob_party x) x" using assms(3) by (simp add: open_of_def)
  note step = write_payment_step[OF inv(1) assms(2) op assms(4,5), of ord tx rest actor meth ref]
  have "caches_sane ?db" using inv(3) by (simp add: caches_sane_def write_payment_frame)
  moreover have "caches_off (only_off (ob_kind x) (ob_party x) (- (- a))) ?db"
    using inv(2) step(2) by (auto simp: caches_off_def only_off_def write_payment_frame)
  ultimately show "obligations_inv db'"
    and "Debt db' k' i' = Debt db k' i' - (if k' = ob_kind x \<and> i' = ob_party x then a else 0)"
    using bump_restores[OF step(1) _ _ assms(6)] step(2) by auto
qed

lemma VoidForOrder_inv:
  assumes "VoidForOrder k i order_id cause actor db = Inr db'" and "obligations_inv db"
  shows "obligations_inv db'"
proof (cases "find (\<lambda>x. open_of k i x \<and> ob_order x = Some order_id \<and> ob_cause x = cause) (obligations db)")
  case None
  with assms show ?thesis by (simp add: VoidForOrder_def)
next
  case (Some x)
  then have x: "x \<in> set (obligations db)" "open_of k i x" by (auto simp: find_Some_iff)
  then have k: "ob_kind x = k" "ob_party x = i" "ob_closed x = None" by (simp_all add: open_of_def)
  show ?thesis
  proof (cases "ob_rest x \<le> 0")
    case False
    with assms(1) Some k have "bumpCache (ob_kind x) (ob_party x) (- ob_rest x)
        (write_payment (ob_id x) (ob_rest x) order_id 0 0 actor MethodVoided '''' db) = Inr db'"
      by (auto simp: VoidForOrder_def bindE_eq_Inr dest: record_payment_Inr(1))
    from payment_bump_inv(1)[OF assms(2) x(1) k(3) _ _ this] False show ?thesis by simp
  qed (use assms Some in \<open>simp add: VoidForOrder_def\<close>)
qed

lemma SettleOne_inv:
  assumes "SettleOne i amount meth ref tx actor db = Inr ((k, p, rest), db')" and "obligations_inv db"
  shows "obligations_inv db'" and "Debt db' k p = Debt db k p - amount" and "0 \<le> rest"
proof -
  from assms(1) obtain x where x: "find (\<lambda>x. ob_id x = i \<and> ob_closed x = None) (obligations db) = Some x"
    and a: "0 < amount" "amount \<le> ob_rest x" and r: "k = ob_kind x" "p = ob_party x" "rest = ob_rest x - amount"
    and b: "bumpCache (ob_kind x) (ob_party x) (- amount)
        (write_payment i amount '''' tx (ob_rest x - amount) actor meth ref db) = Inr db'"
    by (auto simp: SettleOne_def result_simps split: if_splits option.splits dest!: record_payment_Inr(1))
  have x': "x \<in> set (obligations db)" "ob_closed x = None" "ob_id x = i" using x by (auto simp: find_Some_iff)
  show "obligations_inv db'" and "Debt db' k p = Debt db k p - amount" and "0 \<le> rest"
    using payment_bump_inv[OF assms(2) x'(1,2) a] b x'(3) a r by auto
qed

datatype obligation_op =
    Op_Open string string int string string string "user_id option"
  | Op_SettleBy string string int string int "user_id option" string string
  | Op_Void string string string string "user_id option"
  | Op_SettleOne int int string string int "user_id option"

fun run_obligation_op :: "obligation_op \<Rightarrow> 'a obligations_db_scheme \<Rightarrow> err + 'a obligations_db_scheme" where
  "run_obligation_op (Op_Open k i a c r s by) db = bindE (CreateRef k i a c r s by db) (\<lambda>(_, db). Inr db)"
| "run_obligation_op (Op_SettleBy k i a r t by m f) db = bindE (SettleBy k i a r t by m f db) (\<lambda>(_, db). Inr db)"
| "run_obligation_op (Op_Void k i r c by) db = VoidForOrder k i r c by db"
| "run_obligation_op (Op_SettleOne i a m f t by) db = bindE (SettleOne i a m f t by db) (\<lambda>(_, db). Inr db)"

lemma pay_loop_zero:
  assumes "settle_ready k p xs db" and "\<forall>x\<in>set xs. 0 < snd x" and "0 < available"
    and "pay_loop available ord tx actor meth ref xs db = (0, db')"
  shows "db' = db"
proof (cases xs)
  case Nil
  with assms(4) show ?thesis by simp
next
  case (Cons x ys)
  have "0 \<le> sum_list (map snd ys)"
    using assms(2) Cons by (intro sum_list_map_nonneg) (auto simp: less_imp_le)
  moreover have "0 < snd x" using assms(2) Cons by simp
  ultimately have "0 \<noteq> max 0 (min available (sum_list (map snd xs)))" using assms(3) Cons by simp
  with pay_loop_spec[OF assms(1,2,4)] show ?thesis by blast
qed

text \<open>A settlement that took nothing wrote nothing; one that took something had its payments accepted.\<close>

lemma SettleBy_cases:
  fixes db :: "'a obligations_db_scheme"
  assumes "SettleBy k i a r t by' m f db = Inr (x, db')" and "obligations_inv db"
  shows "x = 0 \<and> db' = db \<or> payment_accepted r t by' m db"
proof (cases "a \<le> 0 \<or> open_list db k i = []")
  case True
  with assms(1) show ?thesis by (cases "a \<le> 0") (simp_all add: SettleBy_def)
next
  case False
  then have "payment_accepted r t by' m db"
    using assms(1) settle_loop_refused[of r t by' m db a "map (\<lambda>x. (ob_id x, ob_rest x)) (open_list db k i)" f]
    by (cases "payment_accepted r t by' m db") (simp_all add: SettleBy_def)
  then show ?thesis ..
qed

lemma SettleBy_inv:
  fixes db :: "'a obligations_db_scheme"
  assumes "SettleBy k i a r t by' m f db = Inr (x, db')" and "obligations_inv db"
  shows "obligations_inv db'"
proof (cases "k \<in> {PartyMerchant, PartyRep, PartyDriver}")
  case True
  then show ?thesis using SettleBy_cases[OF assms] SettleBy_spec[OF assms(2) True, of r t by' m i a f] assms by auto
next
  case False
  then have unknown: "bumpCache k i d db0 = Inl (ErrMsg ''obligations: unknown party'')"
    for d and db0 :: "'a obligations_db_scheme"
    by (auto simp: bumpCache_def)
  have book: "book_ok db" using assms(2) by (simp add: obligations_inv_def)
  note zero = pay_loop_zero[OF open_list_ready[OF book, of k i]]
  have "db' = db" using assms(1) unknown by (auto simp: SettleBy_def bindE_eq_Inr split: if_splits dest!: settle_loop_Inr zero[rotated])
  with assms(2) show ?thesis by simp
qed
lemma run_obligation_op_inv:
  "run_obligation_op c db = Inr db' \<Longrightarrow> obligations_inv db \<Longrightarrow> obligations_inv db'"
  by (cases c) (auto simp: result_simps
      dest: CreateRef_inv(1) SettleBy_inv VoidForOrder_inv SettleOne_inv(1))

lemma run_obligation_ops_inv:
  "foldE run_obligation_op ops db = Inr db' \<Longrightarrow> obligations_inv db \<Longrightarrow> obligations_inv db'"
  by (erule foldE_inv) (auto intro: run_obligation_op_inv)

text \<open>A state before any obligation.\<close>

definition blank_book :: "'a obligations_db_scheme \<Rightarrow> bool" where
  "blank_book db \<longleftrightarrow> obligations db = [] \<and> payments db = [] \<and> distinct (map m_id (merchants db)) \<and>
     list_all (\<lambda>m. m_debt m = 0) (merchants db) \<and>
     list_all (\<lambda>u. rep_debt db (u_id u) = 0 \<and> driver_debt db (u_id u) = 0) (users db)"

lemma blank_book_inv:
  assumes "blank_book db"
  shows "obligations_inv db"
proof -
  have "c = 0" if "cached db k i = Some c" for k i c
    using that assms
    by (auto simp: cached_def blank_book_def list_all_iff merchant_of_def find_Some_iff split: if_splits)
  moreover have "in64 0" by (simp add: in64_def)
  ultimately have "\<forall>k i c. cached db k i = Some c \<longrightarrow> c = 0 \<and> in64 c" by metis
  then show ?thesis
    using assms by (auto simp: obligations_inv_def book_ok_def caches_off_def caches_sane_def Debt_def blank_book_def)
qed

definition example_debt_db :: obligations_db where
  "example_debt_db = \<lparr>users = [example_driver], wallets = [], wallet_txs = [], next_tx = 1, db_now = 5, orders = [],
     boxes = [], cash_entries = [], next_entry = 1, cash_override = (\<lambda>_. None), cash_overdue_stop = False,
     cash_overdue_days = 3, day_start_hour = 9, obligations = [], next_obligation = 1, payments = [],
     merchants = [\<lparr>m_id = ''m'', m_owner = Some ''d'', m_commission = None, m_method = ''wallet'', m_rep = None,
       m_debt = 0, m_created = 0, m_name = [], m_prep = None, m_location = None\<rparr>],
     rep_debt = (\<lambda>_. 0), driver_debt = (\<lambda>_. 0), notices = []\<rparr>"

lemma example_debt_blank: "blank_book example_debt_db"
  by (simp add: blank_book_def example_debt_db_def)

definition example_debt_ops :: "obligation_op list" where
  "example_debt_ops =
    [Op_Open ''merchant'' ''m'' 300 ''penalty_remainder'' [] ''p1'' None,
     Op_Open ''merchant'' ''m'' 500 ''dispute_remainder'' [] ''q1'' None,
     Op_SettleBy ''merchant'' ''m'' 400 [] 0 None ''earning'' []]"

section \<open>Properties\<close>

text \<open>
  C10. The book of obligations explains itself after any sequence of openings, settlements, voids
  and single payments: every obligation has been paid exactly what its payment rows say, never more
  than its amount, it is closed exactly when fully paid, and the debt shown on a merchant, a
  representative or a driver is the sum of what he still owes.
\<close>

theorem obligations_book_explained:
  assumes "blank_book db0" and "foldE run_obligation_op ops db0 = Inr db"
  shows "(\<forall>x\<in>set (obligations db). ob_settled x = paid_on (payments db) (ob_id x) \<and>
            ob_settled x \<le> ob_amount x \<and> (ob_closed x \<noteq> None \<longleftrightarrow> ob_settled x = ob_amount x)) \<and>
         (\<forall>m\<in>set (merchants db). m_debt m = Debt db PartyMerchant (m_id m)) \<and>
         (\<forall>u\<in>u_id ` set (users db). rep_debt db u = Debt db PartyRep u \<and> driver_debt db u = Debt db PartyDriver u)"
proof -
  have inv: "obligations_inv db"
    by (rule run_obligation_ops_inv[OF assms(2) blank_book_inv[OF assms(1)]])
  then have "book_ok db" and cache: "\<And>k i c. cached db k i = Some c \<Longrightarrow> c = Debt db k i"
    and dist: "distinct (map m_id (merchants db))"
    by (auto simp: obligations_inv_def caches_off_def caches_sane_def)
  moreover have "m_debt m = Debt db PartyMerchant (m_id m)" if "m \<in> set (merchants db)" for m
    using cache[of PartyMerchant "m_id m"] merchant_of_row[OF dist that] by (simp add: cached_def)
  moreover have "rep_debt db u = Debt db PartyRep u \<and> driver_debt db u = Debt db PartyDriver u"
    if "u \<in> u_id ` set (users db)" for u
    using cache[of PartyRep u] cache[of PartyDriver u] that by (simp add: cached_def party_defs)
  ultimately show ?thesis by (auto simp: book_ok_def ob_ok_def)
qed

lemma obligations_book_explained_witness:
  "\<exists>db. foldE run_obligation_op example_debt_ops example_debt_db = Inr db \<and>
     Debt db PartyMerchant ''m'' = 400 \<and> map m_debt (merchants db) = [400]"
proof -
  let ?r = "foldE run_obligation_op example_debt_ops example_debt_db"
  have "(case ?r of Inl _ \<Rightarrow> False | Inr db \<Rightarrow> Debt db PartyMerchant ''m'' = 400 \<and> map m_id (merchants db) = [''m''])"
    by code_simp
  then obtain db where db: "?r = Inr db" "Debt db PartyMerchant ''m'' = 400" "map m_id (merchants db) = [''m'']"
    by (cases ?r) auto
  from db(3) obtain m where "merchants db = [m]" "m_id m = ''m''" by auto
  with obligations_book_explained[OF example_debt_blank db(1)] db(1,2) show ?thesis by auto
qed

text \<open>
  C11. Money that settles an open debt pays the oldest obligation first. Where the rows of its payments are accepted (a
  known method, an order, a ledger entry and an author that exist) the operation succeeds, takes all that is owed
  as far as the money goes, and an open obligation receives exactly what is left after all the older ones are
  paid in full, up to its own remainder; where they are not, it fails with the error of the database.
\<close>

theorem settlement_pays_oldest_first:
  assumes "obligations_inv db" and "k \<in> {PartyMerchant, PartyRep, PartyDriver}"
    and "open_list db k p = older @ x # newer" and "0 < available"
  shows "if payment_accepted ord tx actor meth db
    then \<exists>db' x'. SettleBy k p available ord tx actor meth ref db = Inr (min available (Debt db k p), db') \<and>
           Debt db' k p = Debt db k p - min available (Debt db k p) \<and>
           x' \<in> set (obligations db') \<and> ob_id x' = ob_id x \<and>
           ob_settled x' = ob_settled x +
             max 0 (min (ob_rest x) (available - sum_list (map ob_rest older)))
    else SettleBy k p available ord tx actor meth ref db = Inl ErrDb"
proof (cases "payment_accepted ord tx actor meth db")
  case False
  have "open_list db k p \<noteq> []" using assms(3) by simp
  with False assms(4) settle_loop_refused[OF False assms(4), of "map (\<lambda>x. (ob_id x, ob_rest x)) (open_list db k p)" ref]
  show ?thesis by (simp add: SettleBy_def)
next
  case accepted: True
  let ?pairs = "map (\<lambda>x. (ob_id x, ob_rest x)) (open_list db k p)"
  have book: "book_ok db" using assms(1) by (simp add: obligations_inv_def)
  obtain t db1 where l: "pay_loop available ord tx actor meth ref ?pairs db = (t, db1)" by fastforce
  obtain db' where db': "SettleBy k p available ord tx actor meth ref db = Inr (max 0 (min available (Debt db k p)), db')"
      "obligations_inv db'" "Debt db' k p = Debt db k p - max 0 (min available (Debt db k p))"
      "obligations db' = obligations db1" "payments db' = payments db1"
    using SettleBy_spec[OF assms(1,2) accepted, of p available ref] assms(4) l by auto
  note ready = open_list_ready[OF book, of k p]
  have loop: "pay_loop available ord tx actor meth ref
      (map (\<lambda>x. (ob_id x, ob_rest x)) older @ (ob_id x, ob_rest x) # map (\<lambda>x. (ob_id x, ob_rest x)) newer) db = (t, db1)"
    using l by (simp add: assms(3))
  have paid: "paid_on (payments db1) (ob_id x) = paid_on (payments db) (ob_id x) +
      max 0 (min (ob_rest x) (available - sum_list (map ob_rest older)))"
    using pay_loop_paid[OF loop] ready by (simp add: assms(3) settle_ready_def o_def)
  have x: "x \<in> set (obligations db)" using open_list_set[of db k p] by (auto simp: assms(3))
  have "map ob_id (obligations db1) = map ob_id (obligations db)"
    using pay_loop_spec[OF ready l] by blast
  then have "ob_id x \<in> ob_id ` set (obligations db')" using x db'(4) by (metis image_eqI list.set_map)
  then obtain x' where x': "x' \<in> set (obligations db')" "ob_id x' = ob_id x" by auto
  have "ob_settled x' = paid_on (payments db1) (ob_id x)"
    using db'(2,5) x' by (simp add: obligations_inv_def book_ok_def)
  moreover have "ob_settled x = paid_on (payments db) (ob_id x)" using book x by (simp add: book_ok_def)
  moreover have "max 0 (min available (Debt db k p)) = min available (Debt db k p)"
    using assms(4) Debt_nonneg[OF book, of k p] by simp
  ultimately have "\<exists>db' x'. SettleBy k p available ord tx actor meth ref db = Inr (min available (Debt db k p), db') \<and>
      Debt db' k p = Debt db k p - min available (Debt db k p) \<and> x' \<in> set (obligations db') \<and> ob_id x' = ob_id x \<and>
      ob_settled x' = ob_settled x + max 0 (min (ob_rest x) (available - sum_list (map ob_rest older)))"
    using db'(1,3) x' paid by (intro exI[of _ db'] exI[of _ x']) simp
  with accepted show ?thesis by simp
qed

lemma settlement_pays_oldest_first_witness:
  "\<exists>db. foldE run_obligation_op (take 2 example_debt_ops) example_debt_db = Inr db \<and>
     (\<exists>db' x'. SettleBy ''merchant'' ''m'' 400 [] 0 None ''earning'' [] db = Inr (400, db') \<and>
        x' \<in> set (obligations db') \<and> ob_settled x' = 100) \<and>
     SettleBy ''merchant'' ''m'' 400 [] 0 None ''gift'' [] db = Inl ErrDb"
proof -
  let ?r = "foldE run_obligation_op (take 2 example_debt_ops) example_debt_db"
  have "(case ?r of Inl _ \<Rightarrow> False | Inr db \<Rightarrow> map ob_rest (open_list db ''merchant'' ''m'') = [300, 500] \<and>
      map ob_settled (open_list db ''merchant'' ''m'') = [0, 0] \<and> Debt db ''merchant'' ''m'' = 800)"
    by code_simp
  then obtain db where db: "?r = Inr db" "map ob_rest (open_list db ''merchant'' ''m'') = [300, 500]"
      "map ob_settled (open_list db ''merchant'' ''m'') = [0, 0]" "Debt db ''merchant'' ''m'' = 800"
    by (cases ?r) auto
  have inv: "obligations_inv db"
    by (rule run_obligation_ops_inv[OF db(1) blank_book_inv[OF example_debt_blank]])
  from db(2,3) obtain y x where l: "open_list db ''merchant'' ''m'' = [y] @ x # []"
    and v: "ob_rest y = 300" "ob_rest x = 500" "ob_settled x = 0" by (auto simp: map_eq_Cons_conv)
  have k: "''merchant'' \<in> {PartyMerchant, PartyRep, PartyDriver}" by (simp add: PartyMerchant_def)
  have m: "payment_accepted [] 0 None ''earning'' db" "\<not> payment_accepted [] 0 None ''gift'' db"
    by (simp_all add: payment_accepted_def payment_methods_def)
  from settlement_pays_oldest_first[OF inv k l, of 400 "[]" 0 None "''earning''" "[]"]
    settlement_pays_oldest_first[OF inv k l, of 400 "[]" 0 None "''gift''" "[]"] m v db(1,4)
  show ?thesis by auto
qed

text \<open>
  An obligation has one origin: opening it again, with the same source or, without a source,
  for the same party, order and cause, changes nothing and says so, whatever the amount; and opening it
  the first time raises the party's debt by exactly its amount.
\<close>

theorem obligation_opened_once:
  assumes "obligations_inv db"
    and "CreateRef k i amount cause order_id src actor db = Inr (made, db')"
    and "order_id \<noteq> '''' \<or> src \<noteq> ''''" and "0 < amount'" and "in64 amount'"
  shows "CreateRef k i amount' cause order_id src actor' db' = Inr (False, db') \<and>
         Debt db' k i = Debt db k i + (if made then amount else 0)"
proof
  show "Debt db' k i = Debt db k i + (if made then amount else 0)"
    using CreateRef_inv(2)[OF assms(2,1), of k i] by simp
  let ?ord = "if order_id = '''' then None else Some order_id" and ?src = "if src = '''' then None else Some src"
  have known: "k \<in> {PartyMerchant, PartyRep, PartyDriver}" "cause \<in> set obligationCauses"
    using assms(2) by (auto simp: CreateRef_def Let_def split: if_splits)
  have "origin_taken db' k i cause ?ord ?src"
  proof (cases made)
    case False
    then have "db' = db" using CreateRef_inv(3)[OF assms(2,1)] by simp
    then show ?thesis using assms(2) False by (auto simp: CreateRef_def Let_def result_simps split: if_splits)
  next
    case True
    then obtain db1 where "bumpCache k i amount (new_obligation k i amount cause ?ord ?src actor db) = Inr db1"
      and "db' = send_notice k i (NoticeCreated amount cause) db1"
      using assms(2) by (auto simp: CreateRef_def Let_def result_simps new_obligation_def split: if_splits)
    then have "obligations db' = obligations (new_obligation k i amount cause ?ord ?src actor db)"
      using bumpCache_Inr(2) by fastforce
    then show ?thesis using assms(3) by (auto simp: origin_taken_def new_obligation_def)
  qed
  then show "CreateRef k i amount' cause order_id src actor' db' = Inr (False, db')"
    using assms(4,5) known by (simp add: CreateRef_def Let_def)
qed

lemma obligation_opened_once_witness:
  "\<exists>db'. CreateRef ''merchant'' ''m'' 300 ''penalty_remainder'' [] ''p1'' None example_debt_db = Inr (True, db') \<and>
     CreateRef ''merchant'' ''m'' 800 ''penalty_remainder'' [] ''p1'' None db' = Inr (False, db')"
proof -
  let ?r = "CreateRef ''merchant'' ''m'' 300 ''penalty_remainder'' [] ''p1'' None example_debt_db"
  have "(case ?r of Inl _ \<Rightarrow> False | Inr (m, _) \<Rightarrow> m)" by code_simp
  then obtain db' where db': "?r = Inr (True, db')" by (cases ?r) auto
  from obligation_opened_once[OF blank_book_inv[OF example_debt_blank] db', of 800 None] db'
  show ?thesis by (simp add: in64_def)
qed

end
