(* ===== verification/Office_Cash.thy ===== *)
theory Office_Cash
  imports Obligations
begin

text \<open>
  The office drawer (\<open>officecash/officecash.go\<close>): every movement of cash in the office is one
  row, keyed by its source and reference, in the direction the source has.
\<close>

datatype direction = CashIn | CashOut

record office_entry =
  oe_direction :: direction
  oe_amount :: int
  oe_source :: string
  oe_ref :: string
  oe_user :: string
  oe_actor :: string
  oe_note :: string

record office_db = obligations_db +
  office_entries :: "office_entry list"

definition SourceMerchantCashPaid :: string where "SourceMerchantCashPaid = ''merchant_cash_paid''"
definition SourceAdvanceReturn :: string where "SourceAdvanceReturn = ''advance_return''"

definition Sources :: "(string \<times> direction) list" where
  "Sources =
    [(''driver_settle'', CashIn), (''wallet_topup'', CashIn), (''merchant_cash_paid'', CashOut),
     (''payout_paid'', CashOut), (''payout_reversed'', CashIn), (''treasury_withdrawal'', CashOut),
     (''shortfall_found'', CashIn), (''obligation_cash'', CashIn), (''expense_cash'', CashOut),
     (''advance_return'', CashOut), (''expense_cash_void'', CashIn), (''owner_deposit'', CashIn),
     (''advance'', CashOut), (''undelivered_return'', CashOut)]"

definition ErrOfficeInvalid :: err where "ErrOfficeInvalid = ErrMsg ''officecash: invalid entry''"

text \<open>The empty user and actor are NULL; any other must be a user.\<close>

definition user_ref_ok :: "'a office_db_scheme \<Rightarrow> string \<Rightarrow> bool" where
  "user_ref_ok db u \<longleftrightarrow> u = '''' \<or> u \<in> u_id ` set (users db)"

definition entry_known :: "'a office_db_scheme \<Rightarrow> office_entry \<Rightarrow> bool" where
  "entry_known db e \<longleftrightarrow> list_ex (\<lambda>x. oe_source x = oe_source e \<and> oe_ref x = oe_ref e) (office_entries db)"

definition Record :: "office_entry \<Rightarrow> 'a office_db_scheme \<Rightarrow> err + 'a office_db_scheme" where
  "Record e db =
    (if oe_amount e \<le> 0 \<or> oe_ref e = '''' then Inl ErrOfficeInvalid
     else if map_of Sources (oe_source e) \<noteq> Some (oe_direction e) then Inl ErrOfficeInvalid
     else if \<not> in64 (oe_amount e) then Inl ErrDb
     else if entry_known db e then Inr db
     else if \<not> user_ref_ok db (oe_user e) \<or> \<not> user_ref_ok db (oe_actor e) then Inl ErrDb
     else Inr (db\<lparr>office_entries := office_entries db @ [e]\<rparr>))"

definition signed :: "office_entry \<Rightarrow> int" where
  "signed e = (if oe_direction e = CashIn then oe_amount e else - oe_amount e)"

definition Book :: "'a office_db_scheme \<Rightarrow> int" where
  "Book db = sum_list (map signed (office_entries db))"

section \<open>What recording does\<close>

lemma Record_Inr:
  assumes "Record e db = Inr db'"
  shows "entry_known db' e" and "entry_known db e \<Longrightarrow> db' = db"
    and "Book db' = Book db + (if entry_known db e then 0 else signed e)"
    and "map_of Sources (oe_source e) = Some (oe_direction e)" and "0 < oe_amount e"
    and "\<exists>es. db' = db\<lparr>office_entries := es\<rparr>"
    and "entry_known db' x = (entry_known db x \<or> oe_source x = oe_source e \<and> oe_ref x = oe_ref e)"
  using assms by (auto simp: Record_def entry_known_def Book_def split: if_splits intro: exI[of _ "office_entries db"])

lemma Record_again:
  assumes "Record e db = Inr db'" and "entry_known db2 e"
  shows "Record e db2 = Inr db2"
  using assms by (simp add: Record_def split: if_splits)

lemma Record_all_known:
  assumes "foldE Record es db = Inr db'"
  shows "entry_known db' x \<longleftrightarrow> entry_known db x \<or> (\<exists>e\<in>set es. oe_source x = oe_source e \<and> oe_ref x = oe_ref e)"
  using assms
proof (induction es arbitrary: db)
  case (Cons e es)
  then obtain db1 where "Record e db = Inr db1" "foldE Record es db1 = Inr db'" by (auto simp: result_simps)
  with Cons.IH[of db1] Record_Inr(7)[of e db db1 x] show ?case by auto
qed simp

lemma Record_all_again:
  assumes "foldE Record es db = Inr db'" and "\<forall>e\<in>set es. entry_known db2 e"
  shows "foldE Record es db2 = Inr db2"
  using assms
proof (induction es arbitrary: db)
  case (Cons e es)
  then obtain db1 where "Record e db = Inr db1" "foldE Record es db1 = Inr db'" by (auto simp: result_simps)
  with Cons Record_again[of e db db1 db2] show ?case by simp
qed simp

section \<open>Properties\<close>

text \<open>
  The office drawer counts every movement once: a batch of entries recorded again changes
  nothing, an entry whose source and reference are already in the drawer is ignored, and otherwise
  the book moves by its amount in the direction its source has.
\<close>

theorem office_entries_count_once:
  assumes "foldE Record es db = Inr db'"
  shows "foldE Record es db' = Inr db' \<and>
         (\<forall>e db''. Record e db' = Inr db'' \<longrightarrow>
            Book db'' = Book db' + (if entry_known db' e then 0
              else if map_of Sources (oe_source e) = Some CashIn then oe_amount e else - oe_amount e))"
proof (intro conjI allI impI)
  show "foldE Record es db' = Inr db'"
    by (rule Record_all_again[OF assms]) (use Record_all_known[OF assms] in blast)
  fix e db'' assume r: "Record e db' = Inr db''"
  show "Book db'' = Book db' + (if entry_known db' e then 0
      else if map_of Sources (oe_source e) = Some CashIn then oe_amount e else - oe_amount e)"
    using Record_Inr(3,4)[OF r] by (cases "oe_direction e") (auto simp: signed_def)
qed

definition example_office_entry :: office_entry where
  "example_office_entry = \<lparr>oe_direction = CashIn, oe_amount = 700, oe_source = ''driver_settle'', oe_ref = ''r1'',
     oe_user = ''d'', oe_actor = ''d'', oe_note = []\<rparr>"

lemma office_entries_count_once_witness:
  "\<exists>db'. foldE Record [example_office_entry] (obligations_db.extend example_debt_db \<lparr>office_entries = []\<rparr>) = Inr db' \<and>
     foldE Record [example_office_entry] db' = Inr db'"
proof -
  let ?r = "foldE Record [example_office_entry] (obligations_db.extend example_debt_db \<lparr>office_entries = []\<rparr>)"
  have "\<not> failed ?r" by code_simp
  then obtain db' where "?r = Inr db'" by (cases ?r) auto
  with office_entries_count_once[OF this] show ?thesis by blast
qed

end
