(* ===== verification/Hours.thy ===== *)
theory Hours
  imports Prelude "HOL-Library.Multiset"
begin

text \<open>
  Opening hours (\<open>platform/hours.go\<close>, \<open>platform/workday.go\<close>). A moment is the number of
  seconds of the civil time of Asia/Damascus since 1970-01-01 00:00 (a Thursday); the offset of
  the zone is constant, so a day is 86400 seconds. Weekdays count from Sunday. Fractions of a
  second are left out.
\<close>

section \<open>Windows and moments\<close>

record window =
  wd_day :: int
  wd_start :: int
  wd_end :: int

definition dayMinutes :: int where "dayMinutes = 1440"
definition weekMinutes :: int where "weekMinutes = 10080"

definition day_of :: "int \<Rightarrow> int" where "day_of t = t div 86400"
definition weekday :: "int \<Rightarrow> int" where "weekday d = (d + 4) mod 7"
definition minute_of :: "int \<Rightarrow> int" where "minute_of t = (t mod 86400) div 60"

text \<open>\<open>time.Date\<close> of a day and a minute of it.\<close>

definition moment :: "int \<Rightarrow> int \<Rightarrow> int" where "moment d m = d * 86400 + m * 60"

definition AllDay :: "window \<Rightarrow> bool" where
  "AllDay w \<longleftrightarrow> wd_start w = 0 \<and> wd_end w = 0"

definition CrossesMidnight :: "window \<Rightarrow> bool" where
  "CrossesMidnight w \<longleftrightarrow> wd_end w \<le> wd_start w"

definition span :: "window \<Rightarrow> int \<times> int" where
  "span w =
    (let from = wd_day w * dayMinutes + wd_start w; to = wd_day w * dayMinutes + wd_end w
     in (from, if CrossesMidnight w then to + dayMinutes else to))"

definition ErrBadWindow :: err where "ErrBadWindow = ErrMsg ''bad window''"
definition ErrEmptyWindow :: err where "ErrEmptyWindow = ErrMsg ''empty window''"
definition ErrOverlap :: err where "ErrOverlap = ErrMsg ''overlapping windows''"

definition foldWeek :: "int \<Rightarrow> int \<Rightarrow> (int \<times> int) list" where
  "foldWeek from to =
    (let from = go_mod from weekMinutes
     in if to \<le> weekMinutes then [(from, to)] else [(from, weekMinutes), (0, to - weekMinutes)])"

definition overlapOnWeek :: "int \<Rightarrow> int \<Rightarrow> int \<Rightarrow> int \<Rightarrow> bool" where
  "overlapOnWeek a1 a2 b1 b2 \<longleftrightarrow>
     list_ex (\<lambda>(x, y). list_ex (\<lambda>(u, v). x < v \<and> u < y) (foldWeek b1 b2)) (foldWeek a1 a2)"

fun overlaps_later :: "window list \<Rightarrow> bool" where
  "overlaps_later [] = False"
| "overlaps_later (w # ws) \<longleftrightarrow>
     list_ex (\<lambda>v. overlapOnWeek (fst (span w)) (snd (span w)) (fst (span v)) (snd (span v))) ws \<or>
     overlaps_later ws"

fun first_bad :: "window list \<Rightarrow> err option" where
  "first_bad [] = None"
| "first_bad (w # ws) =
    (if wd_day w < 0 \<or> wd_day w > 6 then Some ErrBadWindow
     else if wd_start w < 0 \<or> wd_start w \<ge> dayMinutes \<or> wd_end w < 0 \<or> wd_end w \<ge> dayMinutes
     then Some ErrBadWindow
     else if wd_start w = wd_end w then Some ErrEmptyWindow
     else first_bad ws)"

definition Validate :: "window list \<Rightarrow> err + window list" where
  "Validate ws =
    (case first_bad ws of Some e \<Rightarrow> Inl e
     | None \<Rightarrow> let out = sort_key wd_day (sort_key wd_start ws)
               in if overlaps_later out then Inl ErrOverlap else Inr out)"

section \<open>Reading a schedule\<close>

definition window_open :: "int \<Rightarrow> window \<Rightarrow> bool" where
  "window_open now w =
    (let day = weekday (day_of now); m = minute_of now; yesterday = (day + 6) mod 7
     in if wd_day w = day \<and> AllDay w then True
        else if wd_day w = day \<and> \<not> CrossesMidnight w then wd_start w \<le> m \<and> m < wd_end w
        else if wd_day w = day \<and> CrossesMidnight w then wd_start w \<le> m
        else if wd_day w = yesterday \<and> CrossesMidnight w then m < wd_end w
        else False)"

definition OpenAt :: "window list \<Rightarrow> int \<Rightarrow> bool" where
  "OpenAt s now = list_ex (window_open now) s"

text \<open>The starts of a day after \<open>now\<close>, and the earliest of them.\<close>

definition day_starts :: "window list \<Rightarrow> int \<Rightarrow> int \<Rightarrow> int list" where
  "day_starts s now d =
     [st \<leftarrow> map (\<lambda>w. moment d (wd_start w)) [w \<leftarrow> s. wd_day w = weekday d]. now < st]"

definition earliest :: "int list \<Rightarrow> int option" where
  "earliest xs = (case xs of [] \<Rightarrow> None | x # ys \<Rightarrow> Some (fold min ys x))"

fun next_open_loop :: "window list \<Rightarrow> int \<Rightarrow> int list \<Rightarrow> int option" where
  "next_open_loop s now [] = None"
| "next_open_loop s now (d # ds) =
    (case earliest (day_starts s now (day_of now + d)) of
       Some b \<Rightarrow> Some b | None \<Rightarrow> next_open_loop s now ds)"

definition NextOpenAt :: "window list \<Rightarrow> int \<Rightarrow> int option" where
  "NextOpenAt s now =
    (if s = [] then None
     else if OpenAt s now then Some now
     else next_open_loop s now [0, 1, 2, 3, 4, 5, 6, 7, 8])"

definition window_close :: "int \<Rightarrow> window \<Rightarrow> int option" where
  "window_close now w =
    (let day = weekday (day_of now); m = minute_of now; yesterday = (day + 6) mod 7
     in if wd_day w = day \<and> \<not> CrossesMidnight w then
          (if wd_start w \<le> m \<and> m < wd_end w then Some (moment (day_of now) (wd_end w)) else None)
        else if wd_day w = day \<and> CrossesMidnight w then
          (if wd_start w \<le> m then Some (moment (day_of now + 1) (wd_end w)) else None)
        else if wd_day w = yesterday \<and> CrossesMidnight w then
          (if m < wd_end w then Some (moment (day_of now) (wd_end w)) else None)
        else None)"

fun NextCloseAt :: "window list \<Rightarrow> int \<Rightarrow> int option" where
  "NextCloseAt [] now = None"
| "NextCloseAt (w # ws) now =
     (case window_close now w of Some c \<Rightarrow> Some c | None \<Rightarrow> NextCloseAt ws now)"

definition Today :: "window list \<Rightarrow> int \<Rightarrow> window list" where
  "Today s now = [w \<leftarrow> s. wd_day w = weekday (day_of now)]"

section \<open>The end of a work day\<close>

fun close_loop :: "nat \<Rightarrow> window list \<Rightarrow> int \<Rightarrow> int \<Rightarrow> int option" where
  "close_loop 0 s next_day t = None"
| "close_loop (Suc i) s next_day t =
    (case NextCloseAt s t of
       None \<Rightarrow> None
     | Some c \<Rightarrow>
         if \<not> c < next_day then None
         else case NextOpenAt s c of
                None \<Rightarrow> Some c
              | Some ot \<Rightarrow> if \<not> ot < next_day then Some c else close_loop i s next_day ot)"

definition WorkDayClose :: "window list \<Rightarrow> bool \<Rightarrow> int \<Rightarrow> int \<Rightarrow> int option" where
  "WorkDayClose s enforced start next_day =
    (if \<not> enforced \<or> s = [] then None
     else if OpenAt s start then close_loop 16 s next_day start
     else case NextOpenAt s start of
            None \<Rightarrow> None
          | Some ot \<Rightarrow> if \<not> ot < next_day then None else close_loop 16 s next_day ot)"

section \<open>The same schedule as intervals of time\<close>

text \<open>Windows as the database and the validator let them through.\<close>

definition window_ok :: "window \<Rightarrow> bool" where
  "window_ok w \<longleftrightarrow> 0 \<le> wd_day w \<and> wd_day w \<le> 6 \<and> 0 \<le> wd_start w \<and> wd_start w < 1440 \<and>
     0 \<le> wd_end w \<and> wd_end w < 1440"

definition schedule_ok :: "window list \<Rightarrow> bool" where
  "schedule_ok s \<longleftrightarrow> list_all window_ok s"

text \<open>A window occurs on every day of its weekday, for this many seconds.\<close>

definition window_seconds :: "window \<Rightarrow> int" where
  "window_seconds w = (wd_end w - wd_start w) * 60 + (if CrossesMidnight w then 86400 else 0)"

definition occurs :: "window \<Rightarrow> int \<Rightarrow> int \<Rightarrow> bool" where
  "occurs w d t \<longleftrightarrow> weekday d = wd_day w \<and> moment d (wd_start w) \<le> t \<and>
     t < moment d (wd_start w) + window_seconds w"

lemma day_bounds: "day_of t * 86400 \<le> t" "t < day_of t * 86400 + 86400"
proof -
  have "t = day_of t * 86400 + t mod 86400" by (simp add: day_of_def)
  moreover have "0 \<le> t mod 86400" "t mod 86400 < 86400" by simp_all
  ultimately show "day_of t * 86400 \<le> t" "t < day_of t * 86400 + 86400" by linarith+
qed

lemma day_of_eq: "d * 86400 \<le> t \<Longrightarrow> t < d * 86400 + 86400 \<Longrightarrow> day_of t = d"
  using day_bounds[of t] by linarith

lemma minute_of_le: "m \<le> minute_of t \<longleftrightarrow> day_of t * 86400 + m * 60 \<le> t"
proof -
  have t: "t = day_of t * 86400 + t mod 86400" by (simp add: day_of_def)
  define r where "r = t mod 86400"
  have "m \<le> r div 60 \<longleftrightarrow> m * 60 \<le> r" by linarith
  with t show ?thesis unfolding minute_of_def r_def by linarith
qed

lemma weekday_range: "0 \<le> weekday d" "weekday d \<le> 6"
  by (simp_all add: weekday_def)

lemma weekday_prev: "(weekday d + 6) mod 7 = weekday (d - 1)"
  unfolding weekday_def by presburger

lemma weekday_prev_neq: "weekday (d - 1) \<noteq> weekday d"
  unfolding weekday_def by presburger

lemma window_seconds_pos: "window_ok w \<Longrightarrow> 0 < window_seconds w \<and> window_seconds w \<le> 86400"
  by (auto simp: window_ok_def window_seconds_def CrossesMidnight_def)

text \<open>The case distinction of the code is the union of today's and yesterday's occurrence.\<close>

lemma window_open_occurs:
  assumes "window_ok w"
  shows "window_open t w \<longleftrightarrow> occurs w (day_of t) t \<or> occurs w (day_of t - 1) t"
proof -
  note ok = assms[unfolded window_ok_def] and b = day_bounds[of t]
  have prev: "weekday (day_of t - 1) \<noteq> weekday (day_of t)" by (rule weekday_prev_neq)
  consider "wd_day w = weekday (day_of t)" | "wd_day w = weekday (day_of t - 1)"
    | "wd_day w \<noteq> weekday (day_of t)" "wd_day w \<noteq> weekday (day_of t - 1)" by blast
  then show ?thesis
  proof cases
    case 1
    then show ?thesis
      using prev ok b
      by (auto simp: window_open_def Let_def occurs_def moment_def window_seconds_def CrossesMidnight_def
          AllDay_def minute_of_le not_le[symmetric])
  next
    case 2
    then show ?thesis
      using prev ok b weekday_prev[of "day_of t"]
      by (auto simp: window_open_def Let_def occurs_def moment_def window_seconds_def CrossesMidnight_def
          minute_of_le not_le[symmetric])
  next
    case 3
    then show ?thesis using weekday_prev[of "day_of t"] by (auto simp: window_open_def Let_def occurs_def)
  qed
qed

lemma occurs_day: "window_ok w \<Longrightarrow> occurs w d t \<Longrightarrow> d = day_of t \<or> d = day_of t - 1"
  using window_seconds_pos[of w] day_bounds[of t]
  by (auto simp: occurs_def moment_def window_ok_def)

lemma window_open_iff: "window_ok w \<Longrightarrow> window_open t w \<longleftrightarrow> (\<exists>d. occurs w d t)"
  using window_open_occurs[of w t] occurs_day[of w _ t] by blast

lemma OpenAt_iff: "schedule_ok s \<Longrightarrow> OpenAt s t \<longleftrightarrow> (\<exists>w\<in>set s. \<exists>d. occurs w d t)"
  by (auto simp: OpenAt_def list_ex_iff schedule_ok_def list_all_iff window_open_iff)

lemma start_opens: "schedule_ok s \<Longrightarrow> w \<in> set s \<Longrightarrow> weekday d = wd_day w \<Longrightarrow> OpenAt s (moment d (wd_start w))"
  using window_seconds_pos[of w]
  by (auto simp: OpenAt_iff occurs_def schedule_ok_def list_all_iff intro!: bexI[of _ w] exI[of _ d])

lemma day_of_moment: "0 \<le> m \<Longrightarrow> m < 1440 \<Longrightarrow> day_of (moment d m) = d"
  by (rule day_of_eq) (simp_all add: moment_def)

text \<open>A closed schedule opens only where a window starts.\<close>

lemma opening_is_start:
  assumes "schedule_ok s" and "OpenAt s v" and "\<not> OpenAt s (v - 1)"
  shows "\<exists>w\<in>set s. weekday (day_of v) = wd_day w \<and> v = moment (day_of v) (wd_start w)"
proof -
  obtain w d where w: "w \<in> set s" "occurs w d v" using assms(1,2) by (auto simp: OpenAt_iff)
  have ok: "window_ok w" using assms(1) w(1) by (simp add: schedule_ok_def list_all_iff)
  have "\<not> occurs w d (v - 1)" using assms(1,3) w(1) by (auto simp: OpenAt_iff)
  with w(2) have v: "v = moment d (wd_start w)" by (auto simp: occurs_def)
  moreover have "day_of v = d" using v ok day_of_moment by (simp add: window_ok_def)
  ultimately show ?thesis using w by (auto simp: occurs_def)
qed

section \<open>The next opening\<close>

lemma earliest_spec:
  "earliest xs = None \<longleftrightarrow> xs = []" "earliest xs = Some b \<longleftrightarrow> b \<in> set xs \<and> (\<forall>x\<in>set xs. b \<le> x)"
proof -
  show "earliest xs = None \<longleftrightarrow> xs = []" by (simp add: earliest_def split: list.split)
  have "fold min ys x = Min (set (x # ys))" for x :: int and ys by (rule Min.set_eq_fold[symmetric])
  then show "earliest xs = Some b \<longleftrightarrow> b \<in> set xs \<and> (\<forall>x\<in>set xs. b \<le> x)"
    by (cases xs) (auto simp: earliest_def Min_eq_iff simp del: set_simps, auto)
qed

lemma day_starts_set:
  "set (day_starts s now d) = {moment d (wd_start w) | w. w \<in> set s \<and> wd_day w = weekday d \<and> now < moment d (wd_start w)}"
  by (auto simp: day_starts_def)

lemma day_starts_day:
  "schedule_ok s \<Longrightarrow> x \<in> set (day_starts s now d) \<Longrightarrow> day_of x = d"
  by (auto simp: day_starts_set schedule_ok_def list_all_iff window_ok_def day_of_moment)

lemma next_open_loop_Some:
  assumes "schedule_ok s" and "sorted_wrt (<) ds" and "next_open_loop s now ds = Some b"
  shows "\<exists>d\<in>set ds. b \<in> set (day_starts s now (day_of now + d))"
    and "\<forall>d\<in>set ds. \<forall>x\<in>set (day_starts s now (day_of now + d)). b \<le> x"
  using assms(2,3)
proof (induction ds)
  case (Cons d ds)
  { case 1 with Cons.IH show ?case by (auto split: option.splits simp: earliest_spec)
  next
    case 2
    show ?case
    proof (cases "earliest (day_starts s now (day_of now + d))")
      case None
      with 2 Cons.IH show ?thesis by (auto simp: earliest_spec)
    next
      case (Some e)
      with 2 have b: "b \<in> set (day_starts s now (day_of now + d))"
          "\<forall>x\<in>set (day_starts s now (day_of now + d)). b \<le> x"
        by (auto simp: earliest_spec)
      have "b \<le> x" if "d' \<in> set ds" "x \<in> set (day_starts s now (day_of now + d'))" for d' x
        using that 2(1) day_starts_day[OF assms(1) b(1)] day_starts_day[OF assms(1) that(2)]
          day_bounds[of b] day_bounds[of x] by fastforce
      with b(2) show ?thesis by simp
    qed }
qed simp_all

lemma next_open_loop_None:
  "next_open_loop s now ds = None \<Longrightarrow> d \<in> set ds \<Longrightarrow> day_starts s now (day_of now + d) = []"
  by (induction ds) (auto split: option.splits simp: earliest_spec)

lemma NextOpenAt_exists:
  assumes "schedule_ok s" and "s \<noteq> []"
  shows "NextOpenAt s now \<noteq> None"
proof
  assume none: "NextOpenAt s now = None"
  then have loop: "next_open_loop s now [0, 1, 2, 3, 4, 5, 6, 7, 8] = None"
    using assms(2) by (simp add: NextOpenAt_def split: if_splits)
  obtain w where w: "w \<in> set s" using assms(2) by (cases s) auto
  then have ok: "window_ok w" using assms(1) by (simp add: schedule_ok_def list_all_iff)
  define k where "k = (wd_day w - weekday (day_of now) - 1) mod 7 + 1"
  have k: "1 \<le> k" "k \<le> 7" by (simp_all add: k_def)
  have "weekday (day_of now + k) = (weekday (day_of now) + k) mod 7"
    by (simp add: weekday_def mod_simps algebra_simps)
  also have "\<dots> = (weekday (day_of now) + (wd_day w - weekday (day_of now) - 1) + 1) mod 7"
  proof -
    have "(a + x mod 7 + 1) mod 7 = (a + x + 1) mod 7" for a x :: int
      by (metis mod_add_left_eq mod_add_right_eq)
    then show ?thesis unfolding k_def add.assoc[symmetric] .
  qed
  also have "\<dots> = wd_day w" using ok by (simp add: window_ok_def)
  finally have "weekday (day_of now + k) = wd_day w" .
  moreover have "now < moment (day_of now + k) (wd_start w)"
    using k(1) ok day_bounds[of now] by (simp add: moment_def window_ok_def)
  ultimately have "moment (day_of now + k) (wd_start w) \<in> set (day_starts s now (day_of now + k))"
    using w by (auto simp: day_starts_set)
  moreover have "k \<in> set [0, 1, 2, 3, 4, 5, 6, 7, 8]" using k by auto
  ultimately show False using next_open_loop_None[OF loop] by fastforce
qed

lemma NextOpenAt_least:
  assumes "schedule_ok s" and "NextOpenAt s now = Some u"
  shows "OpenAt s u" and "now \<le> u" and "\<And>v. now \<le> v \<Longrightarrow> v < u \<Longrightarrow> \<not> OpenAt s v"
proof -
  have "OpenAt s u \<and> now \<le> u \<and> (\<forall>v. now \<le> v \<and> v < u \<longrightarrow> \<not> OpenAt s v)"
  proof (cases "OpenAt s now")
    case True
    with assms(2) show ?thesis by (auto simp: NextOpenAt_def split: if_splits)
  next
    case False
    let ?ds = "[0, 1, 2, 3, 4, 5, 6, 7, 8] :: int list"
    have loop: "next_open_loop s now ?ds = Some u" using assms(2) False by (simp add: NextOpenAt_def split: if_splits)
    have "sorted_wrt (<) ?ds" by simp
    note spec = next_open_loop_Some[OF assms(1) this loop]
    obtain d where d: "d \<in> set ?ds" "u \<in> set (day_starts s now (day_of now + d))" using spec(1) by blast
    then obtain w where w: "w \<in> set s" "u = moment (day_of now + d) (wd_start w)" "now < u"
        "weekday (day_of now + d) = wd_day w" by (auto simp: day_starts_set)
    have "\<not> OpenAt s v" if v: "now \<le> v" "v < u" for v
    proof
      assume "OpenAt s v"
      with becomes_true[of now v "OpenAt s"] v(1) False obtain x
        where x: "now < x" "x \<le> v" "OpenAt s x" "\<not> OpenAt s (x - 1)" by blast
      from opening_is_start[OF assms(1) x(3,4)] obtain w' where
        w': "w' \<in> set s" "weekday (day_of x) = wd_day w'" "x = moment (day_of x) (wd_start w')" by blast
      have "day_of now \<le> day_of x" "day_of x \<le> day_of now + d"
        using day_bounds[of x] day_bounds[of now] day_bounds[of u] x v day_starts_day[OF assms(1) d(2)]
        by linarith+
      moreover have "d \<le> 8" using d(1) by auto
      moreover have "e \<in> set ?ds" if "0 \<le> e" "e \<le> 8" for e :: int
        using that by (simp, presburger)
      ultimately have e: "day_of x - day_of now \<in> set ?ds" by fastforce
      have "x \<in> set (day_starts s now (day_of now + (day_of x - day_of now)))"
        using w' x(1) by (auto simp: day_starts_set)
      with spec(2) e have "u \<le> x" by blast
      with x(2) v(2) show False by simp
    qed
    with w start_opens[OF assms(1) w(1,4)] show ?thesis by auto
  qed
  then show "OpenAt s u" and "now \<le> u" and "\<And>v. now \<le> v \<Longrightarrow> v < u \<Longrightarrow> \<not> OpenAt s v" by auto
qed

section \<open>The end of the window that is open\<close>

lemma window_close_occurs:
  assumes "window_ok w"
  shows "window_close t w = None \<Longrightarrow> \<not> occurs w d t"
    and "window_close t w = Some c \<Longrightarrow> \<exists>d. occurs w d t \<and> c = moment d (wd_start w) + window_seconds w"
proof -
  note ok = assms[unfolded window_ok_def] and b = day_bounds[of t]
  note prev = weekday_prev_neq[of "day_of t"] weekday_prev[of "day_of t"]
  note defs = window_close_def Let_def occurs_def moment_def window_seconds_def CrossesMidnight_def
    minute_of_le not_le[symmetric]
  show "\<not> occurs w d t" if "window_close t w = None"
  proof
    assume oc: "occurs w d t"
    from occurs_day[OF assms oc] show False
    proof
      assume "d = day_of t"
      with oc that prev ok b show False by (auto simp: defs split: if_splits)
    next
      assume "d = day_of t - 1"
      with oc that prev ok b show False by (auto simp: defs split: if_splits)
    qed
  qed
  assume c: "window_close t w = Some c"
  then consider "wd_day w = weekday (day_of t)" | "wd_day w = weekday (day_of t - 1)"
    using prev by (auto simp: window_close_def Let_def split: if_splits)
  then show "\<exists>d. occurs w d t \<and> c = moment d (wd_start w) + window_seconds w"
  proof cases
    case 1
    then show ?thesis using c prev ok b by (intro exI[of _ "day_of t"]) (auto simp: defs split: if_splits)
  next
    case 2
    then show ?thesis using c prev ok b by (intro exI[of _ "day_of t - 1"]) (auto simp: defs split: if_splits)
  qed
qed

lemma NextCloseAt_spec:
  assumes "schedule_ok s"
  shows "NextCloseAt s t = None \<Longrightarrow> \<not> OpenAt s t"
    and "NextCloseAt s t = Some c \<Longrightarrow> \<exists>w\<in>set s. \<exists>d. occurs w d t \<and> c = moment d (wd_start w) + window_seconds w"
proof -
  show "\<not> OpenAt s t" if "NextCloseAt s t = None"
  proof -
    have "\<forall>w\<in>set s. window_close t w = None"
      using that by (induction s) (auto split: option.splits)
    then show ?thesis
      using assms window_close_occurs(1) by (auto simp: OpenAt_iff schedule_ok_def list_all_iff)
  qed
  show "\<exists>w\<in>set s. \<exists>d. occurs w d t \<and> c = moment d (wd_start w) + window_seconds w" if "NextCloseAt s t = Some c"
  proof -
    have "\<exists>w\<in>set s. window_close t w = Some c" using that by (induction s) (auto split: option.splits)
    then obtain w where w: "w \<in> set s" "window_close t w = Some c" by blast
    then have "window_ok w" using assms by (simp add: schedule_ok_def list_all_iff)
    from window_close_occurs(2)[OF this w(2)] w(1) show ?thesis by blast
  qed
qed

lemma NextCloseAt_open_until:
  assumes "schedule_ok s" and "NextCloseAt s t = Some c"
  shows "t < c" and "c \<le> t + 86400" and "\<And>v. t \<le> v \<Longrightarrow> v < c \<Longrightarrow> OpenAt s v"
proof -
  obtain w d where w: "w \<in> set s" "occurs w d t" "c = moment d (wd_start w) + window_seconds w"
    using NextCloseAt_spec(2)[OF assms] by blast
  have ok: "window_ok w" using assms(1) w(1) by (simp add: schedule_ok_def list_all_iff)
  show "t < c" "c \<le> t + 86400" using w(2,3) window_seconds_pos[OF ok] by (auto simp: occurs_def)
  show "OpenAt s v" if "t \<le> v" "v < c" for v
  proof -
    have "occurs w d v" using w(2,3) that by (auto simp: occurs_def)
    then show ?thesis using assms(1) w(1) by (auto simp: OpenAt_iff)
  qed
qed

lemma NextCloseAt_open: "schedule_ok s \<Longrightarrow> OpenAt s t \<Longrightarrow> NextCloseAt s t \<noteq> None"
  using NextCloseAt_spec(1) by blast

section \<open>No overlap on the week\<close>

definition week_minute :: "int \<Rightarrow> int" where
  "week_minute t = weekday (day_of t) * 1440 + minute_of t"

definition in_folded :: "window \<Rightarrow> int \<Rightarrow> bool" where
  "in_folded w x \<longleftrightarrow> list_ex (\<lambda>(a, b). a \<le> x \<and> x < b) (foldWeek (fst (span w)) (snd (span w)))"

lemma minute_of_range: "0 \<le> minute_of t" "minute_of t < 1440"
  by (simp_all add: minute_of_def)

lemma foldWeek_window:
  assumes "window_ok w"
  shows "foldWeek (fst (span w)) (snd (span w)) =
    (let f = wd_day w * 1440 + wd_start w; t = wd_day w * 1440 + wd_end w + (if CrossesMidnight w then 1440 else 0)
     in if t \<le> 10080 then [(f, t)] else [(f, 10080), (0, t - 10080)])"
proof -
  have "0 \<le> wd_day w * 1440 + wd_start w" "wd_day w * 1440 + wd_start w < 10080"
    using assms by (auto simp: window_ok_def)
  then have "go_mod (wd_day w * 1440 + wd_start w) 10080 = wd_day w * 1440 + wd_start w"
    by (simp add: go_mod_nonneg)
  then show ?thesis by (simp add: foldWeek_def span_def Let_def dayMinutes_def weekMinutes_def add.assoc)
qed

lemma window_open_folded:
  assumes "window_ok w"
  shows "window_open t w \<longleftrightarrow> in_folded w (week_minute t)"
proof -
  note ok = assms[unfolded window_ok_def] and m = minute_of_range[of t]
  define day where "day = weekday (day_of t)"
  define k where "k = minute_of t"
  have day: "0 \<le> day" "day \<le> 6" using weekday_range by (simp_all add: day_def)
  have mk: "0 \<le> k" "k < 1440" using m by (simp_all add: k_def)
  have yest: "(day + 6) mod 7 = (if day = 0 then 6 else day - 1)"
    using day by presburger
  show ?thesis
    unfolding window_open_def Let_def day_def[symmetric] k_def[symmetric] in_folded_def
      foldWeek_window[OF assms] week_minute_def yest
    using ok day mk
    by (cases "wd_day w = 6"; cases "day < wd_day w"; cases "day = wd_day w")
      (auto simp: AllDay_def CrossesMidnight_def split: if_splits)
qed

lemma week_minute_range: "0 \<le> week_minute t" "week_minute t < 10080"
  using weekday_range[of "day_of t"] minute_of_range[of t] by (auto simp: week_minute_def)

text \<open>Every minute of the week is one of the days 3 to 9 (1970-01-04 was a Sunday).\<close>

lemma week_minute_onto:
  assumes "0 \<le> x" and "x < 10080"
  shows "\<exists>t. week_minute t = x"
proof -
  define d where "d = x div 1440"
  define m where "m = x mod 1440"
  have x: "x = d * 1440 + m" "0 \<le> m" "m < 1440" by (simp_all add: d_def m_def)
  then have d: "0 \<le> d" "d \<le> 6" using assms by linarith+
  have day: "day_of (moment (d + 3) m) = d + 3" using x by (simp add: day_of_moment)
  have wd: "weekday (d + 3) = d" using d by (simp add: weekday_def)
  have "minute_of (moment (d + 3) m) = m"
  proof (rule antisym)
    show "m \<le> minute_of (moment (d + 3) m)" using day by (simp add: minute_of_le) (simp add: moment_def)
    have "\<not> m + 1 \<le> minute_of (moment (d + 3) m)" using day by (simp add: minute_of_le) (simp add: moment_def)
    then show "minute_of (moment (d + 3) m) \<le> m" by simp
  qed
  with day wd x show ?thesis by (intro exI[of _ "moment (d + 3) m"]) (simp add: week_minute_def)
qed

definition window_valid :: "window \<Rightarrow> bool" where
  "window_valid w \<longleftrightarrow> window_ok w \<and> wd_start w \<noteq> wd_end w"

lemma foldWeek_proper:
  assumes "window_valid w" and "(a, b) \<in> set (foldWeek (fst (span w)) (snd (span w)))"
  shows "0 \<le> a \<and> a < b \<and> b \<le> 10080"
proof -
  note ok = assms(1)[unfolded window_valid_def window_ok_def]
  from assms have "window_ok w" by (simp add: window_valid_def)
  from assms(2)[unfolded foldWeek_window[OF this]] ok show ?thesis
    by (auto simp: CrossesMidnight_def Let_def split: if_splits)
qed

lemma overlap_in_folded:
  assumes "window_valid w" and "window_valid v"
  shows "overlapOnWeek (fst (span w)) (snd (span w)) (fst (span v)) (snd (span v)) \<longleftrightarrow>
    (\<exists>x. 0 \<le> x \<and> x < 10080 \<and> in_folded w x \<and> in_folded v x)"
  (is "?L \<longleftrightarrow> ?R")
proof
  assume ?L
  then obtain a b c d where w: "(a, b) \<in> set (foldWeek (fst (span w)) (snd (span w)))"
    and v: "(c, d) \<in> set (foldWeek (fst (span v)) (snd (span v)))" and lt: "a < d" "c < b"
    by (auto simp: overlapOnWeek_def list_ex_iff)
  have pw: "a < b" "0 \<le> a" "b \<le> 10080" and pv: "c < d" "0 \<le> c" "d \<le> 10080"
    using foldWeek_proper[OF assms(1) w] foldWeek_proper[OF assms(2) v] by simp_all
  have "in_folded w (max a c)" unfolding in_folded_def list_ex_iff
    by (rule bexI[OF _ w]) (use lt pw pv in simp)
  moreover have "in_folded v (max a c)" unfolding in_folded_def list_ex_iff
    by (rule bexI[OF _ v]) (use lt pw pv in simp)
  ultimately have "in_folded w (max a c)" "in_folded v (max a c)" .
  then show ?R using pw pv lt by (intro exI[of _ "max a c"]) auto
next
  assume ?R
  then obtain x a b c d where w: "(a, b) \<in> set (foldWeek (fst (span w)) (snd (span w)))"
    and v: "(c, d) \<in> set (foldWeek (fst (span v)) (snd (span v)))" and "a \<le> x" "x < b" "c \<le> x" "x < d"
    by (auto simp: in_folded_def list_ex_iff)
  then have "a < d \<and> c < b" by linarith
  with w v show ?L unfolding overlapOnWeek_def list_ex_iff by blast
qed

lemma overlap_iff_both_open:
  assumes "window_valid w" and "window_valid v"
  shows "overlapOnWeek (fst (span w)) (snd (span w)) (fst (span v)) (snd (span v)) \<longleftrightarrow>
    (\<exists>t. window_open t w \<and> window_open t v)"
proof -
  have ok: "window_ok w" "window_ok v" using assms by (simp_all add: window_valid_def)
  show ?thesis
    unfolding overlap_in_folded[OF assms] window_open_folded[OF ok(1)] window_open_folded[OF ok(2)]
    using week_minute_onto week_minute_range by metis
qed

section \<open>What the validator accepts\<close>

definition windows_apart :: "window list \<Rightarrow> bool" where
  "windows_apart ws \<longleftrightarrow> sorted_wrt (\<lambda>w v. \<not> (\<exists>t. window_open t w \<and> window_open t v)) ws"

definition starts_before :: "window \<Rightarrow> window \<Rightarrow> bool" where
  "starts_before w v \<longleftrightarrow> wd_day w < wd_day v \<or> wd_day w = wd_day v \<and> wd_start w < wd_start v"

lemma sorted_wrt_mset:
  assumes "\<And>x y. P x y \<Longrightarrow> P y x" and "mset xs = mset ys" and "sorted_wrt P xs"
  shows "sorted_wrt P ys"
  using assms(2,3)
proof (induction xs arbitrary: ys)
  case (Cons x xs)
  then have "x \<in> set ys" by (metis list.set_intros(1) set_mset_mset)
  then obtain as bs where ys: "ys = as @ x # bs" by (auto simp: in_set_conv_decomp)
  then have m: "mset xs = mset (as @ bs)" using Cons.prems(1) by simp
  then have "set xs = set as \<union> set bs" by (metis set_append set_mset_mset)
  with Cons.prems(2) have x: "\<forall>y\<in>set as. P x y" "\<forall>y\<in>set bs. P x y" by simp_all
  from x(1) have "\<forall>y\<in>set as. P y x" using assms(1) by blast
  moreover have "sorted_wrt P (as @ bs)" using Cons.IH[OF m] Cons.prems(2) by simp
  ultimately show ?case using x(2) by (simp add: ys sorted_wrt_append)
qed simp

lemma sorted_wrt_unique:
  assumes "\<And>x y. x \<in> set xs \<Longrightarrow> y \<in> set xs \<Longrightarrow> R x y \<Longrightarrow> R y x \<Longrightarrow> x = y"
    and "mset xs = mset ys" and "sorted_wrt R xs" and "sorted_wrt R ys"
  shows "xs = ys"
  using assms
proof (induction xs arbitrary: ys)
  case (Cons x xs)
  then obtain y zs where ys: "ys = y # zs" by (cases ys) auto
  have eq: "x = y"
  proof (rule ccontr)
    assume ne: "x \<noteq> y"
    have mem: "x \<in> set ys" "y \<in> set (x # xs)" using ys mset_eq_setD[OF Cons.prems(2)] by auto
    with ne have "R y x" "R x y" using Cons.prems(3,4) ys by auto
    with Cons.prems(1)[of x y] mem(2) ne show False by simp
  qed
  have "xs = zs"
    by (rule Cons.IH) (use Cons.prems eq ys in auto)
  with eq ys show ?case by simp
qed simp

lemma starts_before_total:
  "sorted_wrt starts_before ws \<Longrightarrow> w \<in> set ws \<Longrightarrow> v \<in> set ws \<Longrightarrow> w = v \<or> starts_before w v \<or> starts_before v w"
  by (induction ws) auto

lemma overlaps_later_iff:
  "list_all window_valid ws \<Longrightarrow> \<not> overlaps_later ws \<longleftrightarrow> windows_apart ws"
  by (induction ws) (auto simp: windows_apart_def list_ex_iff list_all_iff overlap_iff_both_open)

lemma first_bad_None: "first_bad ws = None \<longleftrightarrow> list_all window_valid ws"
  by (induction ws) (auto simp: window_valid_def window_ok_def dayMinutes_def)

lemma sort_day_start:
  fixes ws :: "window list"
  defines "out \<equiv> sort_key wd_day (sort_key wd_start ws)"
  shows "mset out = mset ws"
    and "sorted_wrt (\<lambda>w v. wd_day w < wd_day v \<or> wd_day w = wd_day v \<and> wd_start w \<le> wd_start v) out"
proof -
  show "mset out = mset ws" by (simp add: out_def)
  have s: "sorted (map wd_day out)" by (simp add: out_def)
  have stable: "sorted (map wd_start [w \<leftarrow> out. wd_day w = d])" for d
    unfolding out_def sort_key_stable by (rule sorted_filter) simp
  show "sorted_wrt (\<lambda>w v. wd_day w < wd_day v \<or> wd_day w = wd_day v \<and> wd_start w \<le> wd_start v) out"
    using s stable
  proof (induction out)
    case (Cons w ws)
    have "sorted (map wd_start [v \<leftarrow> ws. wd_day v = d])" for d
      using Cons.prems(2)[of d] by (auto split: if_splits)
    with Cons.IH Cons.prems(1) have ih: "sorted_wrt (\<lambda>w v. wd_day w < wd_day v \<or>
        wd_day w = wd_day v \<and> wd_start w \<le> wd_start v) ws" by simp
    have "wd_day w < wd_day v \<or> wd_day w = wd_day v \<and> wd_start w \<le> wd_start v" if v: "v \<in> set ws" for v
    proof (cases "wd_day w = wd_day v")
      case True
      then show ?thesis using Cons.prems(2)[of "wd_day w"] v by auto
    next
      case False
      moreover have "wd_day w \<le> wd_day v" using Cons.prems(1) v by simp
      ultimately show ?thesis by simp
    qed
    with ih show ?case by simp
  qed simp
qed

lemma sort_sorted_windows:
  assumes "sorted_wrt starts_before ws"
  shows "sort_key wd_day (sort_key wd_start ws) = ws"
proof (rule sorted_wrt_unique[of _ "\<lambda>w v. wd_day w < wd_day v \<or> wd_day w = wd_day v \<and> wd_start w \<le> wd_start v"])
  show "mset (sort_key wd_day (sort_key wd_start ws)) = mset ws" by (rule sort_day_start)
  show "sorted_wrt (\<lambda>w v. wd_day w < wd_day v \<or> wd_day w = wd_day v \<and> wd_start w \<le> wd_start v) ws"
    by (rule sorted_wrt_mono_rel[OF _ assms]) (auto simp: starts_before_def)
  show "w = v" if mem: "w \<in> set (sort_key wd_day (sort_key wd_start ws))" "v \<in> set (sort_key wd_day (sort_key wd_start ws))"
    and R: "wd_day w < wd_day v \<or> wd_day w = wd_day v \<and> wd_start w \<le> wd_start v"
      "wd_day v < wd_day w \<or> wd_day v = wd_day w \<and> wd_start v \<le> wd_start w" for w v
  proof -
    have "wd_day w = wd_day v" "wd_start w = wd_start v" using R by auto
    then have "\<not> starts_before w v" "\<not> starts_before v w" by (simp_all add: starts_before_def)
    with starts_before_total[OF assms, of w v] mem show ?thesis by simp
  qed
qed (rule sort_day_start)

lemma Validate_accepts:
  "(\<exists>out. Validate ws = Inr out) \<longleftrightarrow> list_all window_valid ws \<and> windows_apart ws"
proof (cases "first_bad ws")
  case None
  define out where "out = sort_key wd_day (sort_key wd_start ws)"
  have m: "mset out = mset ws" unfolding out_def by (rule sort_day_start)
  have valid: "list_all window_valid ws" using None by (simp add: first_bad_None)
  then have "list_all window_valid out" using mset_eq_setD[OF m] by (simp add: list_all_iff)
  then have "\<not> overlaps_later out \<longleftrightarrow> windows_apart out" by (rule overlaps_later_iff)
  also have "\<dots> \<longleftrightarrow> windows_apart ws"
    unfolding windows_apart_def by (rule iffI; erule sorted_wrt_mset[rotated -1]) (use m in auto)
  finally show ?thesis using None valid by (auto simp: Validate_def Let_def out_def[symmetric])
next
  case (Some e)
  then have "\<not> list_all window_valid ws" using first_bad_None[of ws] by simp
  with Some show ?thesis by (simp add: Validate_def)
qed

lemma same_start_both_open:
  assumes "window_valid w" and "window_valid v" and "wd_day w = wd_day v" and "wd_start w = wd_start v"
  shows "\<exists>t. window_open t w \<and> window_open t v"
proof -
  have ok: "window_ok w" "window_ok v" using assms by (simp_all add: window_valid_def)
  obtain t where t: "week_minute t = wd_day w * 1440 + wd_start w"
    using week_minute_onto[of "wd_day w * 1440 + wd_start w"] ok(1) by (auto simp: window_ok_def)
  have "in_folded w (week_minute t)" "in_folded v (week_minute t)"
    using assms ok t unfolding in_folded_def foldWeek_window[OF ok(1)] foldWeek_window[OF ok(2)]
    by (auto simp: window_ok_def window_valid_def CrossesMidnight_def Let_def)
  then show ?thesis by (auto simp: window_open_folded[OF ok(1)] window_open_folded[OF ok(2)])
qed

lemma Validate_strict:
  assumes "Validate ws = Inr out"
  shows "mset out = mset ws" and "sorted_wrt starts_before out"
proof -
  have out: "out = sort_key wd_day (sort_key wd_start ws)"
    using assms by (auto simp: Validate_def Let_def split: option.splits if_splits)
  show m: "mset out = mset ws" unfolding out by (rule sort_day_start)
  have acc: "list_all window_valid ws" "windows_apart ws" using assms Validate_accepts[of ws] by auto
  have valid: "\<forall>w\<in>set out. window_valid w" using acc(1) mset_eq_setD[OF m] by (simp add: list_all_iff)
  have "windows_apart out"
    using acc(2) unfolding windows_apart_def by (rule sorted_wrt_mset[rotated -1]) (use m in auto)
  moreover have "sorted_wrt (\<lambda>w v. wd_day w < wd_day v \<or> wd_day w = wd_day v \<and> wd_start w \<le> wd_start v) out"
    unfolding out by (rule sort_day_start)
  ultimately show "sorted_wrt starts_before out"
    using valid
  proof (induction out)
    case (Cons w out)
    have "starts_before w v" if "v \<in> set out" for v
    proof -
      have "\<not> (\<exists>t. window_open t w \<and> window_open t v)"
        using Cons.prems(1) that by (simp add: windows_apart_def)
      then have "\<not> (wd_day w = wd_day v \<and> wd_start w = wd_start v)"
        using same_start_both_open[of w v] Cons.prems(3) that by auto
      with Cons.prems(2) that show ?thesis by (auto simp: starts_before_def)
    qed
    moreover have "sorted_wrt starts_before out"
      by (rule Cons.IH) (use Cons.prems in \<open>simp_all add: windows_apart_def\<close>)
    ultimately show ?case by simp
  qed simp
qed

text \<open>
  C12. The schedule validator accepts exactly the lists whose windows have a real weekday, start and
  end inside the day and a length, and of which no two are ever open at the same moment of any week
  (the tail of a window past midnight and past Saturday included); what it returns is the same
  windows in the only order in which each starts before the next.
\<close>

theorem Validate_iff:
  "Validate ws = Inr out \<longleftrightarrow>
     list_all window_valid ws \<and> windows_apart ws \<and> mset out = mset ws \<and> sorted_wrt starts_before out"
proof
  assume "Validate ws = Inr out"
  with Validate_accepts[of ws] Validate_strict[of ws out]
  show "list_all window_valid ws \<and> windows_apart ws \<and> mset out = mset ws \<and> sorted_wrt starts_before out"
    by blast
next
  assume r: "list_all window_valid ws \<and> windows_apart ws \<and> mset out = mset ws \<and> sorted_wrt starts_before out"
  then obtain out' where o': "Validate ws = Inr out'" using Validate_accepts[of ws] by blast
  have "out' = out"
    by (rule sorted_wrt_unique[of _ starts_before])
      (use r Validate_strict[OF o'] in \<open>auto simp: starts_before_def\<close>)
  with o' show "Validate ws = Inr out" by simp
qed

section \<open>The next opening and the next close\<close>

definition closed_during :: "window list \<Rightarrow> int \<Rightarrow> int \<Rightarrow> bool" where
  "closed_during s a b \<longleftrightarrow> (\<forall>v. a \<le> v \<and> v < b \<longrightarrow> \<not> OpenAt s v)"

definition open_during :: "window list \<Rightarrow> int \<Rightarrow> int \<Rightarrow> bool" where
  "open_during s a b \<longleftrightarrow> (\<forall>v. a \<le> v \<and> v < b \<longrightarrow> OpenAt s v)"

definition example_hours :: "window list" where
  "example_hours = [\<lparr>wd_day = 0, wd_start = 540, wd_end = 840\<rparr>, \<lparr>wd_day = 0, wd_start = 1020, wd_end = 60\<rparr>,
    \<lparr>wd_day = 4, wd_start = 600, wd_end = 1320\<rparr>]"

text \<open>
  C13. A schedule that has a window always has a next opening: the first moment from now on that lies
  in an occurrence of one of its windows; until then it is closed.
\<close>

theorem NextOpenAt_first:
  assumes "schedule_ok s" and "s \<noteq> []"
  shows "\<exists>u w d. NextOpenAt s now = Some u \<and> now \<le> u \<and> w \<in> set s \<and> occurs w d u \<and> closed_during s now u"
proof -
  obtain u where u: "NextOpenAt s now = Some u" using NextOpenAt_exists[OF assms] by blast
  note least = NextOpenAt_least[OF assms(1) u]
  obtain w d where "w \<in> set s" "occurs w d u" using least(1) assms(1) by (auto simp: OpenAt_iff)
  with u least show ?thesis by (auto simp: closed_during_def)
qed

theorem NextOpenAt_first_witness:
  "schedule_ok example_hours \<and> NextOpenAt example_hours 0 = Some 36000 \<and> closed_during example_hours 0 36000"
proof -
  have ok: "schedule_ok example_hours" "example_hours \<noteq> []" by (simp_all add: schedule_ok_def example_hours_def window_ok_def)
  have "NextOpenAt example_hours 0 = Some 36000" by code_simp
  with NextOpenAt_first[OF ok, of 0] ok show ?thesis by auto
qed

text \<open>
  While a schedule is open its next close is the end of an occurrence of one of its windows that
  is running now, at most a day ahead, and the schedule stays open until then.
\<close>

theorem NextCloseAt_running:
  assumes "schedule_ok s" and "OpenAt s t"
  shows "\<exists>c w d. NextCloseAt s t = Some c \<and> w \<in> set s \<and> occurs w d t \<and>
    c = moment d (wd_start w) + window_seconds w \<and> t < c \<and> c \<le> t + 86400 \<and> open_during s t c"
proof -
  obtain c where c: "NextCloseAt s t = Some c" using NextCloseAt_open[OF assms] by blast
  from NextCloseAt_spec(2)[OF assms(1) c] NextCloseAt_open_until[OF assms(1) c] c
  show ?thesis by (auto simp: open_during_def)
qed

theorem NextCloseAt_running_witness:
  "OpenAt example_hours 320400 \<and> NextCloseAt example_hours 320400 = Some 349200 \<and>
   open_during example_hours 320400 349200"
proof -
  have ok: "schedule_ok example_hours" by (simp add: schedule_ok_def example_hours_def window_ok_def)
  have "OpenAt example_hours 320400" "NextCloseAt example_hours 320400 = Some 349200" by code_simp+
  with NextCloseAt_running[OF ok, of 320400] show ?thesis by auto
qed

text \<open>Two windows that touch: the close that is reported is not the end of the opening.\<close>

lemma NextCloseAt_adjacent:
  "NextCloseAt [\<lparr>wd_day = 4, wd_start = 540, wd_end = 720\<rparr>, \<lparr>wd_day = 4, wd_start = 720, wd_end = 1020\<rparr>] 36000
     = Some 43200"
  "OpenAt [\<lparr>wd_day = 4, wd_start = 540, wd_end = 720\<rparr>, \<lparr>wd_day = 4, wd_start = 720, wd_end = 1020\<rparr>] 43200"
  by code_simp+

section \<open>The end of the work day\<close>

text \<open>The ends of the occurrences strictly between two moments.\<close>

definition closings :: "window list \<Rightarrow> int \<Rightarrow> int \<Rightarrow> int list" where
  "closings s a b =
     [e \<leftarrow> concat (map (\<lambda>d. map (\<lambda>w. moment d (wd_start w) + window_seconds w) [w \<leftarrow> s. weekday d = wd_day w])
        [day_of a - 1..day_of b]). a < e \<and> e < b]"

lemma closing_listed:
  assumes "window_ok w" and "w \<in> set s" and "occurs w d t"
    and "a \<le> t" and "moment d (wd_start w) + window_seconds w < b"
  shows "moment d (wd_start w) + window_seconds w \<in> set (closings s a b)"
proof -
  note sec = window_seconds_pos[OF assms(1)]
  from assms(3) have oc: "weekday d = wd_day w" "moment d (wd_start w) \<le> t" "t < moment d (wd_start w) + window_seconds w"
    by (auto simp: occurs_def)
  from occurs_day[OF assms(1,3)] have d: "day_of t - 1 \<le> d" "d \<le> day_of t" by auto
  have "day_of a \<le> day_of t" "day_of t \<le> day_of b"
    using assms(4,5) oc day_bounds[of a] day_bounds[of b] day_bounds[of t] by linarith+
  with d have "d \<in> set [day_of a - 1..day_of b]" by simp
  with oc assms show ?thesis by (auto simp: closings_def)
qed

lemma close_loop_result:
  assumes ok: "schedule_ok s"
    and E: "finite E" "\<And>w d v. w \<in> set s \<Longrightarrow> occurs w d v \<Longrightarrow> t \<le> v \<Longrightarrow>
      moment d (wd_start w) + window_seconds w < b \<Longrightarrow> moment d (wd_start w) + window_seconds w \<in> E"
    and fuel: "card {e \<in> E. t < e} < n" and t: "OpenAt s t" "t < b"
  shows "case close_loop n s b t of
      Some c \<Rightarrow> t < c \<and> c < b \<and> OpenAt s (c - 1) \<and> closed_during s c b
    | None \<Rightarrow> OpenAt s (b - 1)"
  using E(2) fuel t
proof (induction n arbitrary: t)
  case (Suc n)
  have ne: "s \<noteq> []" using Suc.prems(3) by (auto simp: OpenAt_def)
  obtain c where c: "NextCloseAt s t = Some c" using NextCloseAt_open[OF ok Suc.prems(3)] by blast
  note cp = NextCloseAt_open_until[OF ok c]
  obtain w d where w: "w \<in> set s" "occurs w d t" "c = moment d (wd_start w) + window_seconds w"
    using NextCloseAt_spec(2)[OF ok c] by blast
  obtain u where u: "NextOpenAt s c = Some u" using NextOpenAt_exists[OF ok ne] by blast
  note up = NextOpenAt_least[OF ok u]
  consider "b \<le> c" | "c < b" "b \<le> u" | "c < b" "u < b" by linarith
  then show ?case
  proof cases
    case 1
    then show ?thesis using c cp(3)[of "b - 1"] Suc.prems(4) by simp
  next
    case 2
    then show ?thesis using c u cp up by (auto simp: closed_during_def)
  next
    case 3
    have "c \<in> {e \<in> E. t < e}" using Suc.prems(1)[OF w(1,2)] w(3) 3 cp(1) by simp
    moreover have "{e \<in> E. u < e} \<subseteq> {e \<in> E. t < e} - {c}" using up(2) cp(1) by auto
    ultimately have "card {e \<in> E. u < e} < card {e \<in> E. t < e}"
      using E(1) by (intro psubset_card_mono) auto
    then have "case close_loop n s b u of
        Some c \<Rightarrow> u < c \<and> c < b \<and> OpenAt s (c - 1) \<and> closed_during s c b | None \<Rightarrow> OpenAt s (b - 1)"
      using Suc.prems(1,2) up 3 cp(1) by (intro Suc.IH) auto
    then show ?thesis using c u 3 cp(1) up(2) by (auto split: option.splits)
  qed
qed simp

lemma WorkDayClose_from:
  assumes ok: "schedule_ok s" and few: "length (closings s a b) \<le> 15"
    and t: "a \<le> t" "OpenAt s t" "t < b"
  shows "case close_loop 16 s b t of
      Some c \<Rightarrow> t < c \<and> c < b \<and> OpenAt s (c - 1) \<and> closed_during s c b
    | None \<Rightarrow> OpenAt s (b - 1)"
proof (rule close_loop_result[OF ok])
  show "finite (set (closings s a b))" by simp
  show "moment d (wd_start w) + window_seconds w \<in> set (closings s a b)"
    if "w \<in> set s" "occurs w d v" "t \<le> v" "moment d (wd_start w) + window_seconds w < b" for w d v
    using that t(1) ok by (intro closing_listed[of w s d v]) (auto simp: schedule_ok_def list_all_iff)
  have "card {e \<in> set (closings s a b). t < e} \<le> card (set (closings s a b))"
    by (rule card_mono) auto
  with few card_length[of "closings s a b"] show "card {e \<in> set (closings s a b). t < e} < 16" by simp
qed (use t in simp_all)

text \<open>
  The end of the work day: with at most 15 closes inside the day, the moment returned is the
  last close of the day - the schedule is in force, it was open just before it and stays closed until
  the next day starts - and when none is returned the schedule is not in force, is closed all day, or
  is still open when the day ends.
\<close>

theorem WorkDayClose_last:
  assumes "schedule_ok s" and "start < next_day" and "length (closings s start next_day) \<le> 15"
  shows "case WorkDayClose s enforced start next_day of
      Some c \<Rightarrow> enforced \<and> start < c \<and> c < next_day \<and> OpenAt s (c - 1) \<and> closed_during s c next_day
    | None \<Rightarrow> \<not> enforced \<or> closed_during s start next_day \<or> OpenAt s (next_day - 1)"
proof (cases "enforced \<and> s \<noteq> []")
  case False
  then show ?thesis by (auto simp: WorkDayClose_def closed_during_def OpenAt_def)
next
  case True
  show ?thesis
  proof (cases "OpenAt s start")
    case is_open: True
    from WorkDayClose_from[OF assms(1,3) order_refl is_open assms(2)] True is_open show ?thesis
      by (auto simp: WorkDayClose_def split: option.splits)
  next
    case is_closed: False
    obtain u where u: "NextOpenAt s start = Some u" using NextOpenAt_exists[OF assms(1)] True by blast
    note up = NextOpenAt_least[OF assms(1) u]
    show ?thesis
    proof (cases "u < next_day")
      case lt: True
      from WorkDayClose_from[OF assms(1,3) up(2,1) lt] True is_closed u up(2) lt show ?thesis
        by (auto simp: WorkDayClose_def split: option.splits)
    next
      case False
      with True is_closed u up(3) show ?thesis by (auto simp: WorkDayClose_def closed_during_def)
    qed
  qed
qed

theorem WorkDayClose_last_witness:
  "WorkDayClose example_hours True 291600 378000 = Some 349200 \<and> closed_during example_hours 349200 378000"
proof -
  have ok: "schedule_ok example_hours" by (simp add: schedule_ok_def example_hours_def window_ok_def)
  have "length (closings example_hours 291600 378000) \<le> 15"
    "WorkDayClose example_hours True 291600 378000 = Some 349200" by code_simp+
  with WorkDayClose_last[OF ok, of 291600 378000 True] show ?thesis by simp
qed

end
