(* ===== verification/Platform.thy ===== *)
theory Platform
  imports Hours
begin

text \<open>
  Whether the platform takes orders now (\<open>platform/state.go\<close>, \<open>platform/zones.go\<close>,
  \<open>platform/service.go\<close>): the temporary closure before the schedule, the owner's switch, the
  delivery zones, the first moment at which all of them agree, and the tables behind them. The
  settings store is an argument. Server time is an argument too; the columns that only record who
  changed a row and when are left out.
\<close>

section \<open>The state of ordering\<close>

datatype reason = ReasonOpen | ReasonTemporarilyUnavailable | ReasonPlatformClosedNow

record closure =
  cl_active :: bool
  cl_message :: string
  cl_ends_at :: "int option"

definition no_closure :: closure where
  "no_closure = \<lparr>cl_active = False, cl_message = [], cl_ends_at = None\<rparr>"

definition ActiveAt :: "closure \<Rightarrow> int \<Rightarrow> bool" where
  "ActiveAt c now =
    (if \<not> cl_active c then False
     else case cl_ends_at c of Some e \<Rightarrow> now < e | None \<Rightarrow> True)"

record state =
  OrderingAvailable :: bool
  Reason :: reason
  Message :: string
  NextAvailableAt :: "int option"
  State_NextCloseAt :: "int option"
  ServerTime :: int
  HoursEnforced :: bool
  TodayWindows :: "window list"

definition availableFrom :: "int \<Rightarrow> bool \<Rightarrow> window list \<Rightarrow> int option" where
  "availableFrom t enforced sch =
    (if \<not> enforced then Some t else if OpenAt sch t then Some t else NextOpenAt sch t)"

definition Decide :: "int \<Rightarrow> bool \<Rightarrow> window list \<Rightarrow> closure \<Rightarrow> state" where
  "Decide now enforced sch c =
    (let st = \<lparr>OrderingAvailable = False, Reason = ReasonOpen, Message = [], NextAvailableAt = None,
               State_NextCloseAt = None, ServerTime = now, HoursEnforced = enforced,
               TodayWindows = Today sch now\<rparr>
     in if ActiveAt c now then
          let st = st\<lparr>Reason := ReasonTemporarilyUnavailable, Message := cl_message c\<rparr>
          in case cl_ends_at c of
               Some e \<Rightarrow> st\<lparr>NextAvailableAt := availableFrom e enforced sch\<rparr> | None \<Rightarrow> st
        else if enforced \<and> \<not> OpenAt sch now then
          st\<lparr>Reason := ReasonPlatformClosedNow, NextAvailableAt := NextOpenAt sch now\<rparr>
        else
          let st = st\<lparr>OrderingAvailable := True\<rparr>
          in if enforced then st\<lparr>State_NextCloseAt := NextCloseAt sch now\<rparr> else st)"

definition WithClosedText :: "state \<Rightarrow> string \<Rightarrow> state" where
  "WithClosedText st txt =
    (if Reason st = ReasonPlatformClosedNow \<and> Message st = [] then st\<lparr>Message := txt\<rparr> else st)"

section \<open>Zones and gates\<close>

record zone_state =
  zs_open :: bool
  zs_enforced :: bool
  zs_next_open_at :: "int option"
  zs_next_close_at :: "int option"

definition DecideZone :: "int \<Rightarrow> bool \<Rightarrow> window list \<Rightarrow> zone_state" where
  "DecideZone now enforced sch =
    (if \<not> enforced then \<lparr>zs_open = True, zs_enforced = False, zs_next_open_at = None, zs_next_close_at = None\<rparr>
     else if OpenAt sch now
     then \<lparr>zs_open = True, zs_enforced = True, zs_next_open_at = None, zs_next_close_at = NextCloseAt sch now\<rparr>
     else \<lparr>zs_open = False, zs_enforced = True, zs_next_open_at = NextOpenAt sch now, zs_next_close_at = None\<rparr>)"

record gate =
  gate_enforced :: bool
  gate_sch :: "window list"

definition Gate_openAt :: "gate \<Rightarrow> int \<Rightarrow> bool" where
  "Gate_openAt g t \<longleftrightarrow> \<not> gate_enforced g \<or> OpenAt (gate_sch g) t"

definition starts :: "int \<Rightarrow> window list \<Rightarrow> int list" where
  "starts now sch =
    concat (map (\<lambda>d. map (\<lambda>w. moment (day_of now + d) (wd_start w))
        [w \<leftarrow> sch. wd_day w = weekday (day_of now + d)]) [0, 1, 2, 3, 4, 5, 6, 7, 8])"

definition all_open :: "closure \<Rightarrow> gate list \<Rightarrow> int \<Rightarrow> bool" where
  "all_open c gates t \<longleftrightarrow> \<not> ActiveAt c t \<and> list_all (\<lambda>g. Gate_openAt g t) gates"

definition candidates :: "int \<Rightarrow> closure \<Rightarrow> gate list \<Rightarrow> int list" where
  "candidates now c gates =
    (case cl_ends_at c of Some e \<Rightarrow> if now < e then [e] else [] | None \<Rightarrow> []) @
    concat (map (\<lambda>g. if gate_enforced g then starts now (gate_sch g) else []) gates)"

definition NextAllOpen :: "int \<Rightarrow> closure \<Rightarrow> gate list \<Rightarrow> int option" where
  "NextAllOpen now c gates =
    (if all_open c gates now then Some now
     else earliest [t \<leftarrow> candidates now c gates. now < t \<and> all_open c gates t])"

definition NextBothOpen :: "int \<Rightarrow> bool \<Rightarrow> window list \<Rightarrow> closure \<Rightarrow> bool \<Rightarrow> window list \<Rightarrow> int option" where
  "NextBothOpen now pEnforced pSch c zEnforced zSch =
    NextAllOpen now c [\<lparr>gate_enforced = pEnforced, gate_sch = pSch\<rparr>, \<lparr>gate_enforced = zEnforced, gate_sch = zSch\<rparr>]"

section \<open>The tables\<close>

text \<open>A \<open>time\<close> column is a pair of an hour and a minute (\<open>make_time\<close>, \<open>EXTRACT\<close>).\<close>

record hour_row =
  hr_day :: int
  hr_starts_at :: "int \<times> int"
  hr_ends_at :: "int \<times> int"

record platform_db =
  platform_hours :: "hour_row list"
  service_closure :: "closure option"
  zones_enforced :: "string \<rightharpoonup> bool"
  zone_hours :: "(string \<times> hour_row) list"

record settings =
  GetBool :: "string \<Rightarrow> bool"
  GetString :: "string \<Rightarrow> string"

definition EnforcedKey :: string where "EnforcedKey = ''hours.platform_enforced''"
definition SwitchKey :: string where "SwitchKey = ''hours.platform_switch''"
definition ClosedTextKey :: string where "ClosedTextKey = ''app_text.platform_closed_now''"

definition ErrClosureRange :: err where "ErrClosureRange = AppError ''invalid_closure_range''"
definition ErrZoneNotFound :: err where "ErrZoneNotFound = AppError ''not_found''"
definition ErrBadSchedule :: err where "ErrBadSchedule = AppError ''invalid_hours''"

definition row_window :: "hour_row \<Rightarrow> window" where
  "row_window r = \<lparr>wd_day = hr_day r, wd_start = fst (hr_starts_at r) * 60 + snd (hr_starts_at r),
     wd_end = fst (hr_ends_at r) * 60 + snd (hr_ends_at r)\<rparr>"

definition window_row :: "window \<Rightarrow> hour_row" where
  "window_row w = \<lparr>hr_day = wd_day w, hr_starts_at = (go_div (wd_start w) 60, go_mod (wd_start w) 60),
     hr_ends_at = (go_div (wd_end w) 60, go_mod (wd_end w) 60)\<rparr>"

text \<open>\<open>make_time\<close> and the constraints of the two hour tables.\<close>

definition time_ok :: "int \<times> int \<Rightarrow> bool" where
  "time_ok t \<longleftrightarrow> 0 \<le> fst t \<and> fst t < 24 \<and> 0 \<le> snd t \<and> snd t < 60"

definition row_fits :: "hour_row \<Rightarrow> hour_row list \<Rightarrow> bool" where
  "row_fits r rows \<longleftrightarrow> time_ok (hr_starts_at r) \<and> time_ok (hr_ends_at r) \<and>
     0 \<le> hr_day r \<and> hr_day r \<le> 6 \<and> hr_starts_at r \<noteq> hr_ends_at r \<and>
     \<not> list_ex (\<lambda>x. hr_day x = hr_day r \<and> hr_starts_at x = hr_starts_at r) rows"

definition read_rows :: "hour_row list \<Rightarrow> window list" where
  "read_rows rows = sort_key wd_day (sort_key wd_start (map row_window rows))"

section \<open>The service\<close>

definition Schedule :: "platform_db \<Rightarrow> window list" where
  "Schedule db = read_rows (platform_hours db)"

definition Closure :: "platform_db \<Rightarrow> closure" where
  "Closure db = (case service_closure db of Some c \<Rightarrow> c | None \<Rightarrow> no_closure)"

definition platformGate :: "settings \<Rightarrow> window list \<Rightarrow> bool \<times> window list" where
  "platformGate st sch =
    (if GetString st SwitchKey = ''open'' then (False, sch)
     else if GetString st SwitchKey = ''closed'' then (True, [])
     else (GetBool st EnforcedKey, sch))"

definition closedText :: "settings \<Rightarrow> string" where
  "closedText st = TrimSpace (GetString st ClosedTextKey)"

definition State :: "settings \<Rightarrow> int \<Rightarrow> platform_db \<Rightarrow> state" where
  "State st now db =
    (let (enforced, gate) = platformGate st (Schedule db)
     in WithClosedText (Decide now enforced gate (Closure db)) (closedText st))"

definition HoursClosedAt :: "settings \<Rightarrow> int \<Rightarrow> platform_db \<Rightarrow> bool" where
  "HoursClosedAt st now db =
    (let (enforced, gate) = platformGate st (Schedule db) in enforced \<and> \<not> OpenAt gate now)"

definition Service_WorkDayClose :: "settings \<Rightarrow> int \<Rightarrow> int \<Rightarrow> platform_db \<Rightarrow> int option" where
  "Service_WorkDayClose st start next_day db =
    (let (enforced, gate) = platformGate st (Schedule db) in WorkDayClose gate enforced start next_day)"

definition insert_hour :: "window \<Rightarrow> platform_db \<Rightarrow> err + platform_db" where
  "insert_hour w db =
    (if row_fits (window_row w) (platform_hours db)
     then Inr (db\<lparr>platform_hours := platform_hours db @ [window_row w]\<rparr>) else Inl ErrBadSchedule)"

definition SetSchedule :: "window list \<Rightarrow> platform_db \<Rightarrow> err + window list \<times> platform_db" where
  "SetSchedule ws db =
    (case Validate ws of Inl _ \<Rightarrow> Inl ErrBadSchedule
     | Inr clean \<Rightarrow>
         bindE (foldE insert_hour clean (db\<lparr>platform_hours := []\<rparr>)) (\<lambda>db. Inr (clean, db)))"

definition SetClosure :: "int \<Rightarrow> closure \<Rightarrow> platform_db \<Rightarrow> err + closure \<times> platform_db" where
  "SetClosure now c db =
    (if cl_active c \<and> (case cl_ends_at c of Some e \<Rightarrow> \<not> now < e | None \<Rightarrow> False) then Inl ErrClosureRange
     else Inr (c, db\<lparr>service_closure := Some c\<rparr>))"

definition ZoneWindows :: "string \<Rightarrow> platform_db \<Rightarrow> window list" where
  "ZoneWindows z db = read_rows (map snd [r \<leftarrow> zone_hours db. fst r = z])"

definition ZoneSchedule :: "string \<Rightarrow> platform_db \<Rightarrow> err + window list \<times> bool" where
  "ZoneSchedule z db =
    (if z = [] then Inr ([], False)
     else case zones_enforced db z of None \<Rightarrow> Inl ErrNoRows
          | Some enforced \<Rightarrow> if \<not> enforced then Inr ([], False) else Inr (ZoneWindows z db, True))"

definition ZoneStateOf :: "int \<Rightarrow> string \<Rightarrow> platform_db \<Rightarrow> err + zone_state" where
  "ZoneStateOf now z db =
    bindE (ZoneSchedule z db) (\<lambda>(sch, enforced). Inr (DecideZone now enforced sch))"

definition insert_zone_hour :: "string \<Rightarrow> window \<Rightarrow> platform_db \<Rightarrow> err + platform_db" where
  "insert_zone_hour z w db =
    (if row_fits (window_row w) (map snd [r \<leftarrow> zone_hours db. fst r = z])
     then Inr (db\<lparr>zone_hours := zone_hours db @ [(z, window_row w)]\<rparr>) else Inl ErrBadSchedule)"

definition SetZoneSchedule :: "string \<Rightarrow> bool \<Rightarrow> window list \<Rightarrow> platform_db \<Rightarrow> err + window list \<times> platform_db" where
  "SetZoneSchedule z enforced ws db =
    (case Validate ws of Inl _ \<Rightarrow> Inl ErrBadSchedule
     | Inr clean \<Rightarrow>
         if zones_enforced db z = None then Inl ErrZoneNotFound
         else bindE (foldE (insert_zone_hour z) clean
                (db\<lparr>zone_hours := [r \<leftarrow> zone_hours db. fst r \<noteq> z]\<rparr>))
              (\<lambda>db. Inr (clean, db\<lparr>zones_enforced := (zones_enforced db)(z \<mapsto> enforced)\<rparr>)))"

definition NextOrderingAt :: "settings \<Rightarrow> int \<Rightarrow> string \<Rightarrow> platform_db \<Rightarrow> err + int option" where
  "NextOrderingAt st now z db =
    bindE (ZoneSchedule z db) (\<lambda>(zSch, zEnforced).
      let (pEnforced, pGate) = platformGate st (Schedule db)
      in Inr (NextBothOpen now pEnforced pGate (Closure db) zEnforced zSch))"

definition ZoneOpen :: "settings \<Rightarrow> int \<Rightarrow> string \<Rightarrow> platform_db \<Rightarrow> err + bool \<times> int option" where
  "ZoneOpen st now z db =
    bindE (ZoneStateOf now z db) (\<lambda>zs.
      if zs_open zs then Inr (True, None)
      else case NextOrderingAt st now z db of Inl _ \<Rightarrow> Inr (False, None) | Inr next \<Rightarrow> Inr (False, next))"

record snapshot =
  snap_closure :: closure
  snap_platform :: gate
  snap_zone :: gate
  snap_now :: int

definition Snapshot :: "settings \<Rightarrow> int \<Rightarrow> string \<Rightarrow> platform_db \<Rightarrow> err + snapshot" where
  "Snapshot st now z db =
    bindE (ZoneSchedule z db) (\<lambda>(zSch, zEnforced).
      let (pEnforced, pGate) = platformGate st (Schedule db)
      in Inr \<lparr>snap_closure = Closure db, snap_platform = \<lparr>gate_enforced = pEnforced, gate_sch = pGate\<rparr>,
               snap_zone = \<lparr>gate_enforced = zEnforced, gate_sch = zSch\<rparr>, snap_now = now\<rparr>)"

section \<open>First moments\<close>

definition first_moment :: "(int \<Rightarrow> bool) \<Rightarrow> int \<Rightarrow> int option \<Rightarrow> bool" where
  "first_moment P now r \<longleftrightarrow>
    (case r of Some u \<Rightarrow> now \<le> u \<and> P u \<and> (\<forall>v. now \<le> v \<and> v < u \<longrightarrow> \<not> P v)
     | None \<Rightarrow> \<forall>v. now \<le> v \<longrightarrow> \<not> P v)"

lemma NextOpenAt_first_moment: "schedule_ok s \<Longrightarrow> first_moment (OpenAt s) t (NextOpenAt s t)"
proof (cases "s = []")
  case True
  then show ?thesis by (simp add: first_moment_def NextOpenAt_def OpenAt_def)
next
  case False
  assume ok: "schedule_ok s"
  obtain u where u: "NextOpenAt s t = Some u" using NextOpenAt_exists[OF ok False] by blast
  from NextOpenAt_least[OF ok u] u show ?thesis by (simp add: first_moment_def)
qed

lemma availableFrom_first: "schedule_ok s \<Longrightarrow> first_moment (\<lambda>v. enforced \<longrightarrow> OpenAt s v) t (availableFrom t enforced s)"
  using NextOpenAt_first_moment[of s t] by (auto simp: availableFrom_def first_moment_def split: option.splits)

lemma first_moment_later:
  assumes "first_moment P e r" and "now \<le> e" and "\<And>v. now \<le> v \<Longrightarrow> v < e \<Longrightarrow> \<not> Q v" and "\<And>v. e \<le> v \<Longrightarrow> Q v \<longleftrightarrow> P v"
  shows "first_moment Q now r"
proof -
  have "\<not> Q v" if "now \<le> v" "e \<le> v \<Longrightarrow> \<not> P v" for v
    using assms(3,4)[of v] that by (cases "v < e") auto
  with assms show ?thesis by (auto simp: first_moment_def split: option.splits)
qed

lemma not_ActiveAt_later: "\<not> ActiveAt c t \<Longrightarrow> t \<le> v \<Longrightarrow> \<not> ActiveAt c v"
  by (auto simp: ActiveAt_def split: if_splits option.splits)

definition taking_orders :: "bool \<Rightarrow> window list \<Rightarrow> closure \<Rightarrow> int \<Rightarrow> bool" where
  "taking_orders enforced sch c t \<longleftrightarrow> \<not> ActiveAt c t \<and> (enforced \<longrightarrow> OpenAt sch t)"

lemma Decide_available: "OrderingAvailable (Decide now enforced sch c) \<longleftrightarrow> taking_orders enforced sch c now"
  by (auto simp: Decide_def Let_def taking_orders_def split: option.splits)

lemma Decide_next:
  assumes "schedule_ok sch" and "\<not> taking_orders enforced sch c now"
  shows "first_moment (taking_orders enforced sch c) now (NextAvailableAt (Decide now enforced sch c))"
proof (cases "ActiveAt c now")
  case act: True
  show ?thesis
  proof (cases "cl_ends_at c")
    case None
    with act have "ActiveAt c v" for v by (simp add: ActiveAt_def split: if_splits)
    with act None show ?thesis by (simp add: Decide_def Let_def first_moment_def taking_orders_def)
  next
    case (Some e)
    with act have e: "now \<le> e" "ActiveAt c v \<longleftrightarrow> v < e" for v by (auto simp: ActiveAt_def split: if_splits)
    have "first_moment (taking_orders enforced sch c) now (availableFrom e enforced sch)"
      by (rule first_moment_later[OF availableFrom_first[OF assms(1)]]) (auto simp: e taking_orders_def)
    with act Some show ?thesis by (simp add: Decide_def Let_def)
  qed
next
  case False
  with assms(2) have cl: "enforced" "\<not> OpenAt sch now" by (auto simp: taking_orders_def)
  have "first_moment (taking_orders enforced sch c) now (NextOpenAt sch now)"
    by (rule first_moment_later[OF NextOpenAt_first_moment[OF assms(1)]])
      (use False not_ActiveAt_later[OF False] cl in \<open>auto simp: taking_orders_def\<close>)
  with False cl show ?thesis by (simp add: Decide_def)
qed

text \<open>
  What the platform answers about ordering: available exactly when no temporary closure is
  running and the schedule, if in force, is open; the closure names itself before the schedule does;
  when it is not available the next available moment is the first one at which it will be, and none
  is given only when there will be none; when it is available under a schedule in force, the close it
  names is later and it takes orders until then.
\<close>

theorem Decide_first_available:
  assumes "schedule_ok sch"
  shows "let st = Decide now enforced sch c; P = taking_orders enforced sch c in
    (OrderingAvailable st \<longleftrightarrow> P now) \<and>
    Reason st = (if ActiveAt c now then ReasonTemporarilyUnavailable
                 else if P now then ReasonOpen else ReasonPlatformClosedNow) \<and>
    (P now \<or> first_moment P now (NextAvailableAt st)) \<and>
    (P now \<and> enforced \<longrightarrow> (\<exists>u. State_NextCloseAt st = Some u \<and> now < u \<and> open_during sch now u))"
proof -
  have "\<exists>u. State_NextCloseAt (Decide now enforced sch c) = Some u \<and> now < u \<and> open_during sch now u"
    if p: "taking_orders enforced sch c now" "enforced"
  proof -
    have op: "OpenAt sch now" "\<not> ActiveAt c now" using p by (auto simp: taking_orders_def)
    obtain u where u: "NextCloseAt sch now = Some u" using NextCloseAt_open[OF assms op(1)] by blast
    from NextCloseAt_open_until[OF assms u] u op p(2) show ?thesis
      by (simp add: Decide_def Let_def open_during_def)
  qed
  moreover have "Reason (Decide now enforced sch c) = (if ActiveAt c now then ReasonTemporarilyUnavailable
      else if taking_orders enforced sch c now then ReasonOpen else ReasonPlatformClosedNow)"
    by (auto simp: Decide_def Let_def taking_orders_def split: option.splits)
  ultimately show ?thesis using Decide_available[of now enforced sch c] Decide_next[OF assms, of enforced c now]
    unfolding Let_def by blast
qed

theorem Decide_first_available_witness:
  "first_moment (taking_orders True example_hours \<lparr>cl_active = True, cl_message = [], cl_ends_at = Some 311400\<rparr>)
     291600 (Some 320400)"
proof -
  let ?c = "\<lparr>cl_active = True, cl_message = [], cl_ends_at = Some 311400\<rparr>"
  have ok: "schedule_ok example_hours" by (simp add: schedule_ok_def example_hours_def window_ok_def)
  have "NextAvailableAt (Decide 291600 True example_hours ?c) = Some 320400"
    "\<not> OrderingAvailable (Decide 291600 True example_hours ?c)" by code_simp+
  with Decide_first_available[OF ok, of 291600 True ?c] show ?thesis by (auto simp: Let_def)
qed

section \<open>The first moment at which every gate is open\<close>

lemma OpenAt_weekly: "OpenAt s (t + 604800) = OpenAt s t"
proof -
  have d: "day_of (t + 604800) = day_of t + 7" by (simp add: day_of_def)
  have "(t + 604800) mod 86400 = t mod 86400" using mod_mult_self1[of t 7 86400] by simp
  then have "minute_of (t + 604800) = minute_of t" by (simp add: minute_of_def)
  moreover have "weekday (day_of (t + 604800)) = weekday (day_of t)" 
    using mod_mult_self1[of "day_of t + 4" 1 7] by (simp add: d weekday_def algebra_simps)
  ultimately have "window_open (t + 604800) = window_open t" by (simp add: fun_eq_iff window_open_def Let_def)
  then show ?thesis by (simp add: OpenAt_def)
qed

lemma gates_weekly: "list_all (\<lambda>g. Gate_openAt g (t + 604800)) gs = list_all (\<lambda>g. Gate_openAt g t) gs"
  by (simp add: Gate_openAt_def OpenAt_weekly)

definition gates_ok :: "gate list \<Rightarrow> bool" where
  "gates_ok gs \<longleftrightarrow> list_all (\<lambda>g. schedule_ok (gate_sch g)) gs"

lemma starts_listed:
  assumes "w \<in> set s" and "wd_day w = weekday d" and "day_of now \<le> d" and "d \<le> day_of now + 8"
  shows "moment d (wd_start w) \<in> set (starts now s)"
proof -
  let ?f = "\<lambda>d. map (\<lambda>w. moment (day_of now + d) (wd_start w)) [w \<leftarrow> s. wd_day w = weekday (day_of now + d)]"
  define k where "k = d - day_of now"
  have "0 \<le> k" "k \<le> 8" using assms(3,4) by (simp_all add: k_def)
  then have "k \<in> set [0, 1, 2, 3, 4, 5, 6, 7, 8]" by (simp, presburger)
  then have "?f k \<in> set (map ?f [0, 1, 2, 3, 4, 5, 6, 7, 8])" unfolding set_map by (rule imageI)
  moreover have "moment d (wd_start w) \<in> set (?f k)" using assms(1,2) by (simp add: k_def)
  ultimately show ?thesis unfolding starts_def set_concat by (rule UN_I)
qed

text \<open>Where a gate or the closure lets everything open there is a candidate, if it is near enough.\<close>

lemma all_open_begins:
  assumes "gates_ok gs" and "all_open c gs x" and "\<not> all_open c gs (x - 1)" and "now < x"
    and "day_of x \<le> day_of now + 8 \<or> cl_ends_at c = Some x"
  shows "x \<in> set (candidates now c gs)"
proof (cases "cl_ends_at c = Some x")
  case True
  with assms(4) show ?thesis by (simp add: candidates_def)
next
  case False
  have "\<not> ActiveAt c (x - 1)"
    using assms(2) False by (auto simp: all_open_def ActiveAt_def split: if_splits option.splits)
  with assms(3) obtain g where g: "g \<in> set gs" "\<not> Gate_openAt g (x - 1)" by (auto simp: all_open_def list_all_iff)
  have "Gate_openAt g x" using assms(2) g(1) by (simp add: all_open_def list_all_iff)
  with g(2) have op: "OpenAt (gate_sch g) x" "\<not> OpenAt (gate_sch g) (x - 1)" "gate_enforced g"
    by (auto simp: Gate_openAt_def)
  have ok: "schedule_ok (gate_sch g)" using assms(1) g(1) by (simp add: gates_ok_def list_all_iff)
  from opening_is_start[OF ok op(1,2)] obtain w where
    w: "w \<in> set (gate_sch g)" "weekday (day_of x) = wd_day w" "x = moment (day_of x) (wd_start w)" by blast
  have "day_of now \<le> day_of x" using assms(4) day_bounds[of x] day_bounds[of now] by linarith
  with starts_listed[OF w(1) w(2)[symmetric]] w(3) assms(5) False have "x \<in> set (starts now (gate_sch g))" by simp
  with g(1) op(3) show ?thesis by (auto simp: candidates_def)
qed

lemma least_moment:
  fixes t v :: int
  assumes "t \<le> v" and "P v"
  shows "\<exists>x. t \<le> x \<and> x \<le> v \<and> P x \<and> (\<forall>y. t \<le> y \<and> y < x \<longrightarrow> \<not> P y)"
proof -
  define n where "n = (LEAST n. P (t + int n))"
  have ex: "P (t + int (nat (v - t)))" using assms by simp
  have "P (t + int n)" unfolding n_def using ex by (rule LeastI)
  moreover have "n \<le> nat (v - t)" unfolding n_def using ex by (rule Least_le)
  moreover have "\<not> P y" if "t \<le> y" "y < t + int n" for y
    using not_less_Least[of "nat (y - t)" "\<lambda>n. P (t + int n)"] that by (auto simp: n_def[symmetric])
  ultimately show ?thesis using assms(1) by (intro exI[of _ "t + int n"]) auto
qed

lemma candidates_near:
  assumes "gates_ok gs" and "x \<in> set (candidates now c gs)"
  shows "cl_ends_at c = Some x \<or> day_of x \<le> day_of now + 8"
  using assms
  by (auto simp: candidates_def starts_def gates_ok_def list_all_iff schedule_ok_def window_ok_def day_of_moment
      split: option.splits if_splits)

lemma week_earlier:
  assumes "all_open c gs x" and "\<not> ActiveAt c (x - 604800)"
  shows "all_open c gs (x - 604800)"
  using assms gates_weekly[of "x - 604800" gs] by (simp add: all_open_def)

lemma NextAllOpen_Some:
  assumes "gates_ok gs" and "NextAllOpen now c gs = Some u"
  shows "now \<le> u" and "all_open c gs u" and "\<And>v. now \<le> v \<Longrightarrow> v < u \<Longrightarrow> \<not> all_open c gs v"
proof -
  have "now \<le> u \<and> all_open c gs u \<and> (\<forall>v. now \<le> v \<and> v < u \<longrightarrow> \<not> all_open c gs v)"
  proof (cases "all_open c gs now")
    case True
    with assms(2) show ?thesis by (auto simp: NextAllOpen_def)
  next
    case False
    with assms(2) have u: "u \<in> set (candidates now c gs)" "now < u" "all_open c gs u"
        "\<And>x. x \<in> set (candidates now c gs) \<Longrightarrow> now < x \<Longrightarrow> all_open c gs x \<Longrightarrow> u \<le> x"
      by (auto simp: NextAllOpen_def earliest_spec)
    have "\<not> all_open c gs v" if v: "now \<le> v" "v < u" for v
    proof
      assume "all_open c gs v"
      from least_moment[OF v(1), of "all_open c gs", OF this] obtain x where
        x: "now \<le> x" "x \<le> v" "all_open c gs x" "\<And>y. now \<le> y \<Longrightarrow> y < x \<Longrightarrow> \<not> all_open c gs y" by blast
      have lt: "now < x" using x(1,3) False by (cases "x = now") auto
      have prev: "\<not> all_open c gs (x - 1)" using x(4)[of "x - 1"] lt by simp
      have "\<not> (day_of x \<le> day_of now + 8 \<or> cl_ends_at c = Some x)"
        using all_open_begins[OF assms(1) x(3) prev lt] u(4)[OF _ lt x(3)] x(2) v(2) by fastforce
      then have far: "\<not> day_of x \<le> day_of now + 8" by simp
      then have wk: "now \<le> x - 604800" using day_bounds[of x] day_bounds[of now] by linarith
      have "ActiveAt c (x - 604800)" using week_earlier[OF x(3)] x(4)[OF wk] by auto
      moreover have "\<not> ActiveAt c x" using x(3) by (simp add: all_open_def)
      ultimately have e: "\<exists>e. cl_ends_at c = Some e \<and> e \<le> x" by (auto simp: ActiveAt_def split: if_splits option.splits)
      have "day_of x \<le> day_of u" using x(2) v(2) day_bounds[of x] day_bounds[of u] by linarith
      with far candidates_near[OF assms(1) u(1)] have "cl_ends_at c = Some u" by auto
      with e x(2) v(2) show False by auto
    qed
    with u show ?thesis by auto
  qed
  then show "now \<le> u" and "all_open c gs u" and "\<And>v. now \<le> v \<Longrightarrow> v < u \<Longrightarrow> \<not> all_open c gs v" by auto
qed

lemma NextAllOpen_None:
  assumes "gates_ok gs" and "NextAllOpen now c gs = None" and "now \<le> v" and "all_open c gs v"
  shows "day_of now + 8 < day_of v" and "ActiveAt c now"
    and "\<And>e. cl_ends_at c = Some e \<Longrightarrow> day_of now + 1 < day_of e"
proof -
  from least_moment[OF assms(3), of "all_open c gs", OF assms(4)] obtain x where
    x: "now \<le> x" "x \<le> v" "all_open c gs x" "\<And>y. now \<le> y \<Longrightarrow> y < x \<Longrightarrow> \<not> all_open c gs y" by blast
  have closed: "\<not> all_open c gs now" "\<And>y. y \<in> set (candidates now c gs) \<Longrightarrow> now < y \<Longrightarrow> \<not> all_open c gs y"
    using assms(2) by (auto simp: NextAllOpen_def earliest_spec filter_empty_conv split: if_splits)
  have lt: "now < x" using x(1,3) closed(1) by (cases "x = now") auto
  have prev: "\<not> all_open c gs (x - 1)" using x(4)[of "x - 1"] lt by simp
  have far: "\<not> day_of x \<le> day_of now + 8" "cl_ends_at c \<noteq> Some x"
    using all_open_begins[OF assms(1) x(3) prev lt] closed(2)[OF _ lt] x(3) by auto
  then show "day_of now + 8 < day_of v" using x(2) day_bounds[of x] day_bounds[of v] by linarith
  have wk: "now \<le> x - 604800" using far(1) day_bounds[of x] day_bounds[of now] by linarith
  have act: "ActiveAt c (x - 604800)" using week_earlier[OF x(3)] x(4)[OF wk] by auto
  then show "ActiveAt c now" using not_ActiveAt_later[of c now] wk by blast
  show "day_of now + 1 < day_of e" if e: "cl_ends_at c = Some e" for e
  proof -
    have "x - 604800 < e" using act e by (simp add: ActiveAt_def split: if_splits)
    with far(1) show ?thesis using day_bounds[of x] day_bounds[of e] day_bounds[of now] by linarith
  qed
qed

text \<open>
  The moment offered to the customer is the first one at which the closure is over and the
  platform, the zone and every other gate are open at once. When none is offered, nothing opens
  within the next eight days; and no such moment exists at all unless a closure is running that has
  no end before the day after tomorrow.
\<close>

theorem NextAllOpen_first:
  assumes "gates_ok gs"
  shows "case NextAllOpen now c gs of
      Some u \<Rightarrow> first_moment (all_open c gs) now (Some u)
    | None \<Rightarrow> (\<forall>v. now \<le> v \<and> day_of v \<le> day_of now + 8 \<longrightarrow> \<not> all_open c gs v) \<and>
        (\<not> ActiveAt c now \<or> (\<exists>e. cl_ends_at c = Some e \<and> day_of e \<le> day_of now + 1) \<longrightarrow>
         first_moment (all_open c gs) now None)"
proof (cases "NextAllOpen now c gs")
  case None
  show ?thesis using NextAllOpen_None[OF assms None] None
    by (force simp: first_moment_def)
next
  case (Some u)
  show ?thesis using NextAllOpen_Some[OF assms Some] Some by (simp add: first_moment_def)
qed

definition example_zone_hours :: "window list" where
  "example_zone_hours = [\<lparr>wd_day = 0, wd_start = 780, wd_end = 1080\<rparr>, \<lparr>wd_day = 2, wd_start = 600, wd_end = 660\<rparr>]"

theorem NextAllOpen_first_witness:
  "first_moment (all_open no_closure [\<lparr>gate_enforced = True, gate_sch = example_hours\<rparr>,
     \<lparr>gate_enforced = True, gate_sch = example_zone_hours\<rparr>]) 0 (Some 306000)"
proof -
  let ?gs = "[\<lparr>gate_enforced = True, gate_sch = example_hours\<rparr>, \<lparr>gate_enforced = True, gate_sch = example_zone_hours\<rparr>]"
  have ok: "gates_ok ?gs"
    by (simp add: gates_ok_def schedule_ok_def example_hours_def example_zone_hours_def window_ok_def)
  have "NextAllOpen 0 no_closure ?gs = Some 306000" by code_simp
  with NextAllOpen_first[OF ok, of 0 no_closure] show ?thesis by simp
qed

text \<open>
  The horizon shows: after a closure of ten days that ends in closed hours, the state above names the
  next opening and this search names none.
\<close>

lemma horizon_differs:
  "NextAvailableAt (Decide 0 True example_hours \<lparr>cl_active = True, cl_message = [], cl_ends_at = Some 864000\<rparr>)
     = Some 896400"
  "NextAllOpen 0 \<lparr>cl_active = True, cl_message = [], cl_ends_at = Some 864000\<rparr>
     [\<lparr>gate_enforced = True, gate_sch = example_hours\<rparr>] = None"
  by code_simp+

section \<open>Writing a schedule and reading it back\<close>

lemma clock_back: "0 \<le> m \<Longrightarrow> go_div m 60 * 60 + go_mod m 60 = m"
  by (simp add: go_div_nonneg go_mod_nonneg)

lemma clock_inj:
  "0 \<le> a \<Longrightarrow> 0 \<le> b \<Longrightarrow> (go_div a 60, go_mod a 60) = (go_div b 60, go_mod b 60) \<longleftrightarrow> a = b"
  using clock_back[of a] clock_back[of b] by (metis prod.inject)

lemma clock_time_ok: "0 \<le> m \<Longrightarrow> m < 1440 \<Longrightarrow> time_ok (go_div m 60, go_mod m 60)"
  by (simp add: time_ok_def go_div_nonneg go_mod_nonneg) linarith

lemma row_window_row: "window_ok w \<Longrightarrow> row_window (window_row w) = w"
  by (simp add: row_window_def window_row_def window_ok_def clock_back)

lemma row_fits_next:
  assumes "window_valid w" and "\<forall>v\<in>set pre. window_valid v \<and> starts_before v w"
  shows "row_fits (window_row w) (map window_row pre)"
proof -
  have "hr_day (window_row v) \<noteq> hr_day (window_row w) \<or> hr_starts_at (window_row v) \<noteq> hr_starts_at (window_row w)"
    if "v \<in> set pre" for v
    using assms that clock_inj[of "wd_start v" "wd_start w"]
    by (auto simp: window_row_def starts_before_def window_valid_def window_ok_def)
  with assms(1) clock_inj[of "wd_start w" "wd_end w"] show ?thesis
    by (auto simp: row_fits_def window_row_def window_valid_def window_ok_def clock_time_ok list_ex_iff simp del: prod.inject)
qed

lemma insert_hours:
  assumes "platform_hours db = map window_row pre" and "sorted_wrt starts_before (pre @ ws)"
    and "\<forall>w\<in>set (pre @ ws). window_valid w"
  shows "foldE insert_hour ws db = Inr (db\<lparr>platform_hours := map window_row (pre @ ws)\<rparr>)"
  using assms
proof (induction ws arbitrary: db pre)
  case (Cons w ws)
  have "row_fits (window_row w) (map window_row pre)"
    by (rule row_fits_next) (use Cons.prems in \<open>auto simp: sorted_wrt_append\<close>)
  then have "insert_hour w db = Inr (db\<lparr>platform_hours := map window_row (pre @ [w])\<rparr>)"
    using Cons.prems(1) by (simp add: insert_hour_def)
  moreover have "foldE insert_hour ws (db\<lparr>platform_hours := map window_row (pre @ [w])\<rparr>) =
      Inr (db\<lparr>platform_hours := map window_row (pre @ [w])\<rparr>\<lparr>platform_hours := map window_row ((pre @ [w]) @ ws)\<rparr>)"
    by (rule Cons.IH) (use Cons.prems in simp_all)
  ultimately show ?case by simp
qed simp

lemma insert_zone_hours:
  assumes "map snd [r \<leftarrow> zone_hours db. fst r = z] = map window_row pre" and "sorted_wrt starts_before (pre @ ws)"
    and "\<forall>w\<in>set (pre @ ws). window_valid w"
  shows "foldE (insert_zone_hour z) ws db = Inr (db\<lparr>zone_hours := zone_hours db @ map (\<lambda>w. (z, window_row w)) ws\<rparr>)"
  using assms
proof (induction ws arbitrary: db pre)
  case (Cons w ws)
  have "row_fits (window_row w) (map window_row pre)"
    by (rule row_fits_next) (use Cons.prems in \<open>auto simp: sorted_wrt_append\<close>)
  then have "insert_zone_hour z w db = Inr (db\<lparr>zone_hours := zone_hours db @ [(z, window_row w)]\<rparr>)"
    using Cons.prems(1) by (simp add: insert_zone_hour_def)
  moreover have "foldE (insert_zone_hour z) ws (db\<lparr>zone_hours := zone_hours db @ [(z, window_row w)]\<rparr>) =
      Inr (db\<lparr>zone_hours := zone_hours db @ [(z, window_row w)]\<rparr>
        \<lparr>zone_hours := (zone_hours db @ [(z, window_row w)]) @ map (\<lambda>w. (z, window_row w)) ws\<rparr>)"
    using Cons.IH[of "db\<lparr>zone_hours := zone_hours db @ [(z, window_row w)]\<rparr>" "pre @ [w]"] Cons.prems by simp
  ultimately show ?case by simp
qed simp

lemma read_written:
  assumes "sorted_wrt starts_before ws" and "\<forall>w\<in>set ws. window_valid w"
  shows "read_rows (map window_row ws) = ws"
proof -
  have "map row_window (map window_row ws) = ws"
    using assms(2) by (simp add: map_idI row_window_row window_valid_def)
  then show ?thesis using sort_sorted_windows[OF assms(1)] by (simp add: read_rows_def)
qed

lemma Validate_good:
  assumes "Validate ws = Inr out"
  shows "sorted_wrt starts_before out" and "\<forall>w\<in>set out. window_valid w"
  using Validate_strict[OF assms] Validate_accepts[of ws] assms mset_eq_setD[of out ws]
  by (auto simp: list_all_iff)

text \<open>
  Replacing the platform's schedule is refused exactly when the validator refuses the windows,
  always with the same error; an accepted schedule is written whole, reading it returns the very
  list the caller got, and nothing else changes.
\<close>

theorem SetSchedule_round_trip:
  "case SetSchedule ws db of
     Inl e \<Rightarrow> e = ErrBadSchedule \<and> failed (Validate ws)
   | Inr (out, db') \<Rightarrow> Validate ws = Inr out \<and> Schedule db' = out \<and>
       db' = db\<lparr>platform_hours := platform_hours db'\<rparr>"
proof (cases "Validate ws")
  case (Inl e)
  then show ?thesis by (simp add: SetSchedule_def)
next
  case (Inr out)
  note good = Validate_good[OF Inr]
  have "foldE insert_hour out (db\<lparr>platform_hours := []\<rparr>) = Inr (db\<lparr>platform_hours := map window_row out\<rparr>)"
    using insert_hours[of "db\<lparr>platform_hours := []\<rparr>" "[]" out] good by simp
  with Inr read_written[OF good] show ?thesis by (simp add: SetSchedule_def Schedule_def)
qed

text \<open>
  The same for a delivery zone: an unknown zone is refused as not found, a bad schedule as bad;
  otherwise the zone's windows are replaced, its flag is set, reading the zone back gives the new
  schedule when the flag is on and no gate when it is off, and every other zone reads as before.
\<close>

theorem SetZoneSchedule_round_trip:
  assumes "z \<noteq> []"
  shows "case SetZoneSchedule z enforced ws db of
     Inl e \<Rightarrow> failed (Validate ws) \<and> e = ErrBadSchedule \<or> zones_enforced db z = None \<and> e = ErrZoneNotFound
   | Inr (out, db') \<Rightarrow> Validate ws = Inr out \<and>
       ZoneSchedule z db' = Inr (if enforced then (out, True) else ([], False)) \<and> ZoneWindows z db' = out \<and>
       (\<forall>y. y \<noteq> z \<longrightarrow> ZoneSchedule y db' = ZoneSchedule y db) \<and> Schedule db' = Schedule db"
proof (cases "Validate ws")
  case (Inl e)
  then show ?thesis by (simp add: SetZoneSchedule_def)
next
  case (Inr out)
  note good = Validate_good[OF Inr]
  let ?db = "db\<lparr>zone_hours := [r \<leftarrow> zone_hours db. fst r \<noteq> z]\<rparr>"
  have ins: "foldE (insert_zone_hour z) out ?db =
      Inr (?db\<lparr>zone_hours := zone_hours ?db @ map (\<lambda>w. (z, window_row w)) out\<rparr>)"
    by (rule insert_zone_hours[where pre = "[]"]) (use good in \<open>auto simp: filter_empty_conv\<close>)
  let ?rows = "[r \<leftarrow> zone_hours db. fst r \<noteq> z] @ map (\<lambda>w. (z, window_row w)) out"
  have self: "map snd [r \<leftarrow> ?rows. fst r = z] = map window_row out"
    by (simp add: filter_map o_def filter_empty_conv)
  have other: "[r \<leftarrow> ?rows. fst r = y] = [r \<leftarrow> zone_hours db. fst r = y]" if "y \<noteq> z" for y
  proof -
    have "[r \<leftarrow> map (\<lambda>w. (z, window_row w)) out. fst r = y] = []"
      using that by (simp add: filter_map o_def)
    moreover have "[r \<leftarrow> [r \<leftarrow> zone_hours db. fst r \<noteq> z]. fst r = y] = [r \<leftarrow> zone_hours db. fst r = y]"
      unfolding filter_filter by (rule filter_cong) (use that in auto)
    ultimately show ?thesis by simp
  qed
  show ?thesis
  proof (cases "zones_enforced db z")
    case None
    with Inr show ?thesis by (simp add: SetZoneSchedule_def)
  next
    case (Some f)
    let ?db' = "?db\<lparr>zone_hours := ?rows, zones_enforced := (zones_enforced db)(z \<mapsto> enforced)\<rparr>"
    have res: "SetZoneSchedule z enforced ws db = Inr (out, ?db')"
      using Inr Some ins by (simp add: SetZoneSchedule_def)
    have win: "ZoneWindows z ?db' = out" using read_written[OF good] by (simp add: ZoneWindows_def self del: filter_append)
    have "ZoneSchedule z ?db' = Inr (if enforced then (out, True) else ([], False))"
      using win assms by (cases enforced) (simp_all add: ZoneSchedule_def)
    moreover have "ZoneSchedule y ?db' = ZoneSchedule y db" if "y \<noteq> z" for y
      using that other[OF that] by (simp add: ZoneSchedule_def ZoneWindows_def split: option.split)
    moreover have "Schedule ?db' = Schedule db" by (simp add: Schedule_def)
    ultimately show ?thesis unfolding res using Inr win by simp
  qed
qed

definition example_platform_db :: platform_db where
  "example_platform_db = \<lparr>platform_hours = [], service_closure = None,
     zones_enforced = [''z1'' \<mapsto> False, ''z2'' \<mapsto> True],
     zone_hours = [(''z2'', window_row \<lparr>wd_day = 3, wd_start = 60, wd_end = 120\<rparr>)]\<rparr>"

theorem SetZoneSchedule_round_trip_witness:
  "\<exists>db'. SetZoneSchedule ''z1'' True (rev example_hours) example_platform_db = Inr (example_hours, db') \<and>
     ZoneSchedule ''z1'' db' = Inr (example_hours, True) \<and>
     ZoneSchedule ''z2'' db' = Inr ([\<lparr>wd_day = 3, wd_start = 60, wd_end = 120\<rparr>], True)"
proof -
  have "case SetZoneSchedule ''z1'' True (rev example_hours) example_platform_db of
      Inl _ \<Rightarrow> False | Inr r \<Rightarrow> fst r = example_hours" by code_simp
  then obtain db' where r: "SetZoneSchedule ''z1'' True (rev example_hours) example_platform_db = Inr (example_hours, db')"
    by (auto split: sum.splits)
  have "ZoneSchedule ''z2'' example_platform_db = Inr ([\<lparr>wd_day = 3, wd_start = 60, wd_end = 120\<rparr>], True)" by code_simp
  with SetZoneSchedule_round_trip[where z = "''z1''" and enforced = True and ws = "rev example_hours" and db = example_platform_db] r
  show ?thesis by auto
qed

section \<open>The owner's switch\<close>

text \<open>
  The switch is above the schedule and below the closure: the hours are closed when it is turned
  to closed, never when it is turned to open, and otherwise when the schedule is in force and not
  open. Orders are taken exactly when no closure runs and the hours are not closed; the reason and
  the owner's text that go with a refusal are those of the first of the two.
\<close>

theorem State_switch:
  "let s = State st now db; sw = GetString st SwitchKey; hours_closed = HoursClosedAt st now db in
    (OrderingAvailable s \<longleftrightarrow> \<not> ActiveAt (Closure db) now \<and> \<not> hours_closed) \<and>
    (hours_closed \<longleftrightarrow> sw = ''closed'' \<or> sw \<noteq> ''open'' \<and> GetBool st EnforcedKey \<and> \<not> OpenAt (Schedule db) now) \<and>
    (Reason s, Message s) =
      (if ActiveAt (Closure db) now then (ReasonTemporarilyUnavailable, cl_message (Closure db))
       else if hours_closed then (ReasonPlatformClosedNow, closedText st) else (ReasonOpen, []))"
proof -
  have empty: "\<not> OpenAt [] t" for t by (simp add: OpenAt_def)
  show ?thesis
    unfolding State_def HoursClosedAt_def platformGate_def Decide_def WithClosedText_def Let_def
    by (auto simp: empty split: option.splits)
qed

end
