(* ===== verification/Credit.thy ===== *)
theory Credit
  imports Obligations
begin

text \<open>
  Paying a debt out of money that has just come in: \<open>PayFromCredit\<close>
  (\<open>obligations/credit.go\<close>) and the two offsets of the settlement of an order,
  \<open>offsetMerchantDebt\<close> and \<open>offsetRepDebt\<close> (\<open>orders/transitions.go\<close>). All three take
  money from a wallet and settle exactly that much debt, or fail; what they share is the locale
  \<open>deduction\<close>, interpreted on each: the ledger entry a deduction posts is \<open>known\<close> to the row of the payment. The
  wallet service of \<open>CreditPay\<close> is always present.
\<close>

section \<open>Taking money and settling with it\<close>

definition ErrMismatch :: err where "ErrMismatch = ErrMsg ''debt settlement does not match''"

definition deduct ::
  "(int \<Rightarrow> 's \<Rightarrow> err + int \<times> 's) \<Rightarrow> (int \<Rightarrow> int \<Rightarrow> 's \<Rightarrow> err + int \<times> 's) \<Rightarrow> int \<Rightarrow> 's \<Rightarrow> err + 's" where
  "deduct pay settle amt db =
     bindE (pay amt db) (\<lambda>(tx, db).
     bindE (settle amt tx db) (\<lambda>(applied, db).
     if applied \<noteq> amt then Inl ErrMismatch else Inr db))"

definition offset_debt ::
  "('s \<Rightarrow> int) \<Rightarrow> (int \<Rightarrow> 's \<Rightarrow> err + int \<times> 's) \<Rightarrow> (int \<Rightarrow> int \<Rightarrow> 's \<Rightarrow> err + int \<times> 's) \<Rightarrow> int \<Rightarrow> 's \<Rightarrow> err + 's" where
  "offset_debt debt pay settle available db =
    (if debt db \<le> 0 then Inr db
     else let amt = (if available < debt db then available else debt db)
          in if amt \<le> 0 then Inr db else deduct pay settle amt db)"

locale deduction =
  fixes debt :: "'s \<Rightarrow> int" and money :: "'s \<Rightarrow> 'm" and good :: "'s \<Rightarrow> bool"
    and known :: "int \<Rightarrow> 's \<Rightarrow> bool"
    and pay :: "int \<Rightarrow> 's \<Rightarrow> err + int \<times> 's" and settle :: "int \<Rightarrow> int \<Rightarrow> 's \<Rightarrow> err + int \<times> 's"
  assumes pay_keeps: "good s \<Longrightarrow> pay a s = Inr (tx, s') \<Longrightarrow> good s' \<and> debt s' = debt s \<and> known tx s'"
    and settle_takes: "good s \<Longrightarrow> known tx s \<Longrightarrow> \<exists>s'. settle a tx s = Inr (max 0 (min a (debt s)), s') \<and> good s' \<and>
          debt s' = debt s - max 0 (min a (debt s)) \<and> money s' = money s"
begin

text \<open>A deduction within the debt fails only when the payment does, and never mismatches.\<close>

lemma deduct_exact:
  assumes "good s" and "0 < a" and "a \<le> debt s"
  shows "case pay a s of Inl e \<Rightarrow> deduct pay settle a s = Inl e
    | Inr (tx, t) \<Rightarrow> \<exists>s'. deduct pay settle a s = Inr s' \<and> good s' \<and> debt s' = debt s - a \<and> money s' = money t"
proof (cases "pay a s")
  case (Inl e)
  then show ?thesis by (simp add: deduct_def)
next
  case (Inr r)
  obtain tx t where r: "r = (tx, t)" by (cases r)
  with Inr pay_keeps[OF assms(1)] have t: "good t" "debt t = debt s" "known tx t" by auto
  have "max 0 (min a (debt t)) = a" using assms(2,3) t(2) by simp
  with settle_takes[OF t(1,3), of a] t(2) Inr r show ?thesis by (auto simp: deduct_def)
qed

lemma offset_exact:
  assumes "good s" and "offset_debt debt pay settle available s = Inr s'"
  defines "n \<equiv> max 0 (min available (debt s))"
  shows "good s'" and "debt s' = debt s - n"
    and "if n = 0 then s' = s else \<exists>tx t. pay n s = Inr (tx, t) \<and> money s' = money t"
proof -
  have "good s' \<and> debt s' = debt s - n \<and> (if n = 0 then s' = s else \<exists>tx t. pay n s = Inr (tx, t) \<and> money s' = money t)"
  proof (cases "n = 0")
    case True
    then have "s' = s" using assms(2) by (auto simp: offset_debt_def n_def Let_def split: if_splits)
    with True assms(1) show ?thesis by simp
  next
    case False
    then have n: "0 < n" "n \<le> debt s" "n = (if available < debt s then available else debt s)" by (auto simp: n_def)
    then have "deduct pay settle n s = Inr s'" using assms(2) by (simp add: offset_debt_def Let_def split: if_splits)
    with deduct_exact[OF assms(1) n(1,2)] False show ?thesis by (auto split: sum.splits)
  qed
  then show "good s'" and "debt s' = debt s - n"
    and "if n = 0 then s' = s else \<exists>tx t. pay n s = Inr (tx, t) \<and> money s' = money t" by auto
qed

lemma offset_never_mismatches:
  assumes "good s" and "offset_debt debt pay settle available s = Inl e"
  shows "0 < min available (debt s) \<and> pay (max 0 (min available (debt s))) s = Inl e"
proof -
  let ?a = "if available < debt s then available else debt s"
  have a: "0 < ?a" "?a \<le> debt s" and d: "deduct pay settle ?a s = Inl e"
    using assms(2) by (auto simp: offset_debt_def Let_def split: if_splits)
  have "max 0 (min available (debt s)) = ?a" using a(1) by auto
  moreover have "pay ?a s = Inl e" using deduct_exact[OF assms(1) a] d by (auto split: sum.splits)
  ultimately show ?thesis using a(1) by (auto split: if_splits)
qed

end

section \<open>The operations\<close>

record credit_pay =
  cp_treasury :: user_id
  cp_method :: string
  cp_from :: string

definition offset_pay ::
  "user_id \<Rightarrow> string \<Rightarrow> string \<Rightarrow> user_id \<Rightarrow> string \<Rightarrow> string \<Rightarrow> int \<Rightarrow> 'a obligations_db_scheme \<Rightarrow>
     err + int \<times> 'a obligations_db_scheme" where
  "offset_pay u kind ord actor k i amt db =
     bindE (ApplyTxID u (- amt) kind ord (OffsetNote db k i amt) (Some actor) db) (\<lambda>((_, tx), db). Inr (tx, db))"

definition offsetMerchantDebt ::
  "string \<Rightarrow> user_id \<Rightarrow> int \<Rightarrow> string \<Rightarrow> user_id \<Rightarrow> 'a obligations_db_scheme \<Rightarrow> err + 'a obligations_db_scheme" where
  "offsetMerchantDebt m owner available ord actor =
     offset_debt (\<lambda>db. Debt db PartyMerchant m) (offset_pay owner ''merchant_earning'' ord actor PartyMerchant m)
       (\<lambda>amt tx. SettleDebt PartyMerchant m amt ord tx (Some actor)) available"

definition offsetRepDebt ::
  "user_id \<Rightarrow> int \<Rightarrow> string \<Rightarrow> user_id \<Rightarrow> 'a obligations_db_scheme \<Rightarrow> err + 'a obligations_db_scheme" where
  "offsetRepDebt rep available ord actor =
     offset_debt (\<lambda>db. Debt db PartyRep rep) (offset_pay rep ''commission'' ord actor PartyRep rep)
       (\<lambda>amt tx. SettleDebt PartyRep rep amt ord tx (Some actor)) available"

text \<open>The parties of a user that owe something, the one with the oldest debt first.\<close>

definition party_of_user :: "'a obligations_db_scheme \<Rightarrow> user_id \<Rightarrow> obligation \<Rightarrow> bool" where
  "party_of_user db u x \<longleftrightarrow> ob_closed x = None \<and>
     (ob_kind x \<in> {PartyDriver, PartyRep} \<and> ob_party x = u \<or>
      ob_kind x = PartyMerchant \<and> list_ex (\<lambda>m. m_owner m = Some u \<and> m_id m = ob_party x) (merchants db))"

definition open_parties :: "'a obligations_db_scheme \<Rightarrow> user_id \<Rightarrow> (string \<times> string) list" where
  "open_parties db u =
    (let mine = filter (party_of_user db u) (obligations db); key = (\<lambda>x. (ob_kind x, ob_party x))
     in sort_key (\<lambda>k. Min (set (map ob_at [x \<leftarrow> mine. key x = k]))) (remdups (map key mine)))"

definition credit_note :: "credit_pay \<Rightarrow> string \<Rightarrow> string" where
  "credit_note opt nt =
    (if cp_from opt = '''' then nt else ''debt payment from '' @ cp_from opt @ drop (length ''debt deduction'') nt)"

definition credit_debit ::
  "user_id \<Rightarrow> string \<Rightarrow> user_id option \<Rightarrow> credit_pay \<Rightarrow> string \<Rightarrow> string \<Rightarrow> int \<Rightarrow> 'a obligations_db_scheme \<Rightarrow>
     err + int \<times> 'a obligations_db_scheme" where
  "credit_debit u ref actor opt k i amt db =
    (let nt = credit_note opt (OffsetNote db k i amt)
     in bindE (ApplyTxID u (- amt) ''adjustment'' ref nt actor db) (\<lambda>((_, tx), db).
        if cp_treasury opt = '''' then Inr (tx, db)
        else bindE (ApplyTxID (cp_treasury opt) amt ''platform_profit'' ref nt actor db) (\<lambda>((_, tx), db).
             Inr (tx, db))))"

fun credit_loop ::
  "user_id \<Rightarrow> string \<Rightarrow> user_id option \<Rightarrow> credit_pay \<Rightarrow> (string \<times> string) list \<Rightarrow> int \<Rightarrow> int \<Rightarrow>
     'a obligations_db_scheme \<Rightarrow> err + int \<times> 'a obligations_db_scheme" where
  "credit_loop u ref actor opt [] budget paid db = Inr (paid, db)"
| "credit_loop u ref actor opt ((k, i) # ps) budget paid db =
    (if budget \<le> 0 then Inr (paid, db)
     else let amt = min (Debt db k i) (min budget (AvailableTx db u))
          in if amt \<le> 0 then credit_loop u ref actor opt ps budget paid db
             else bindE (deduct (credit_debit u ref actor opt k i)
                    (\<lambda>amt tx. SettleBy k i amt '''' tx actor (cp_method opt) ref) amt db)
                  (credit_loop u ref actor opt ps (budget - amt) (paid + amt)))"

definition PayFromCredit ::
  "user_id \<Rightarrow> int \<Rightarrow> string \<Rightarrow> user_id option \<Rightarrow> credit_pay \<Rightarrow> 'a obligations_db_scheme \<Rightarrow>
     err + int \<times> 'a obligations_db_scheme" where
  "PayFromCredit u credit ref actor opt db =
    (if credit \<le> 0 \<or> u = '''' then Inr (0, db)
     else let opt = (if cp_method opt = '''' then opt\<lparr>cp_method := MethodEarning\<rparr> else opt)
          in credit_loop u ref actor opt (open_parties db u) credit 0 db)"

section \<open>What each side leaves alone\<close>

text \<open>The tables a settlement does not touch.\<close>

definition money_tables :: "'a obligations_db_scheme \<Rightarrow> _" where
  "money_tables db = (users db, wallets db, wallet_txs db, next_tx db, db_now db, orders db, cash_entries db)"

lemma money_tables_eqD:
  assumes "money_tables db' = money_tables db"
  shows "wallets db' = wallets db" "wallet_txs db' = wallet_txs db" "next_tx db' = next_tx db" "users db' = users db"
    "wallet_of db' = wallet_of db" "Balance db' u = Balance db u" "AvailableTx db' u = AvailableTx db u"
    "orders db' = orders db" "db_now db' = db_now db"
  using assms by (auto simp: money_tables_def wallet_of_def fun_eq_iff Balance_def AvailableTx_def LayersTx_def Let_def)

lemma write_payment_tables [simp]: "money_tables (write_payment i a ord tx rest actor meth ref db) = money_tables db"
  by (simp add: money_tables_def write_payment_def)

lemma pay_loop_tables [simp]: "money_tables (snd (pay_loop av ord tx actor meth ref xs db)) = money_tables db"
  by (induction av ord tx actor meth ref xs db rule: pay_loop.induct) (auto simp: Let_def split: prod.splits)

lemma bumpCache_tables: "bumpCache k i d db = Inr db' \<Longrightarrow> money_tables db' = money_tables db"
  by (auto simp: bumpCache_def money_tables_def split: if_splits)

lemma send_notice_tables [simp]: "money_tables (send_notice k i b db) = money_tables db"
  by (simp add: send_notice_def Let_def money_tables_def split: prod.split)

lemma SettleBy_tables:
  assumes "SettleBy k i av ord tx actor meth ref db = Inr (n, db')"
  shows "money_tables db' = money_tables db"
proof -
  let ?r = "pay_loop av ord tx actor meth ref (map (\<lambda>x. (ob_id x, ob_rest x)) (open_list db k i)) db"
  have t: "money_tables (snd ?r) = money_tables db" by simp
  with assms show ?thesis
    by (cases ?r) (auto simp: SettleBy_def result_simps dest!: bumpCache_tables settle_loop_Inr split: if_splits)
qed

lemma CreateRef_tables:
  assumes "CreateRef k i a c ord src actor db = Inr (m, db')"
  shows "money_tables db' = money_tables db"
  using assms
  by (auto simp: CreateRef_def Let_def result_simps dest!: bumpCache_tables split: if_splits)
    (simp_all add: money_tables_def)

text \<open>The same for whatever record the database is extended to: only the debts change.\<close>

definition wipe_debts :: "'a obligations_db_scheme \<Rightarrow> 'a obligations_db_scheme" where
  "wipe_debts db = db\<lparr>obligations := [], next_obligation := 0, payments := [],
     merchants := map (\<lambda>m. m\<lparr>m_debt := 0\<rparr>) (merchants db), rep_debt := (\<lambda>_. 0), driver_debt := (\<lambda>_. 0), notices := []\<rparr>"

lemma write_payment_wipe [simp]: "wipe_debts (write_payment i a ord tx rest actor meth ref db) = wipe_debts db"
  by (simp add: wipe_debts_def write_payment_def)

lemma record_payment_wipe: "record_payment i a ord tx rest actor meth ref db = Inr db' \<Longrightarrow> wipe_debts db' = wipe_debts db"
  by (auto dest!: record_payment_Inr(1))

lemma pay_loop_wipe [simp]: "wipe_debts (snd (pay_loop av ord tx actor meth ref xs db)) = wipe_debts db"
  by (induction av ord tx actor meth ref xs db rule: pay_loop.induct) (auto simp: Let_def split: prod.splits)

lemma bumpCache_wipe: "bumpCache k i d db = Inr db' \<Longrightarrow> wipe_debts db' = wipe_debts db"
  by (auto simp: bumpCache_def wipe_debts_def split: if_splits)

lemma send_notice_wipe [simp]: "wipe_debts (send_notice k i b db) = wipe_debts db"
  by (simp add: send_notice_def Let_def wipe_debts_def split: prod.split)

lemma SettleBy_wipe:
  assumes "SettleBy k i av ord tx actor meth ref db = Inr (n, db')"
  shows "wipe_debts db' = wipe_debts db"
proof -
  let ?r = "pay_loop av ord tx actor meth ref (map (\<lambda>x. (ob_id x, ob_rest x)) (open_list db k i)) db"
  have t: "wipe_debts (snd ?r) = wipe_debts db" by simp
  with assms show ?thesis
    by (cases ?r) (auto simp: SettleBy_def result_simps dest!: bumpCache_wipe settle_loop_Inr split: if_splits)
qed

lemma VoidForOrder_wipe: "VoidForOrder k i ord cause actor db = Inr db' \<Longrightarrow> wipe_debts db' = wipe_debts db"
  by (auto simp: VoidForOrder_def bindE_eq_Inr split: option.split_asm if_split_asm dest!: bumpCache_wipe record_payment_wipe)

lemma CreateRef_wipe:
  assumes "CreateRef k i a c ord src actor db = Inr (m, db')"
  shows "wipe_debts db' = wipe_debts db"
  using assms
  by (auto simp: CreateRef_def Let_def result_simps dest!: bumpCache_wipe split: if_splits)
    (simp_all add: wipe_debts_def)

lemma wallet_inv_tables: "money_tables db' = money_tables db \<Longrightarrow> wallet_inv db' = wallet_inv db"
  using money_tables_eqD[of db' db] by (simp add: wallet_inv_def tx_amounts_def)

text \<open>A posting leaves the book of obligations alone.\<close>

lemma applyTx_book:
  fixes db :: "'a obligations_db_scheme"
  assumes "applyTx u a kind ref nt actor db = Inr (r, db')"
  shows "obligations_inv db' = obligations_inv db" and "Debt db' k i = Debt db k i"
    and "open_parties db' v = open_parties db v" and "merchants db' = merchants db" and "orders db' = orders db"
proof -
  obtain ws ts n where db': "db' = db\<lparr>wallets := ws, wallet_txs := ts, next_tx := n\<rparr>"
    using applyTx_frame[OF assms] by blast
  show "Debt db' k i = Debt db k i" for k i by (simp add: db' Debt_def)
  then show "obligations_inv db' = obligations_inv db"
    by (simp add: obligations_inv_def book_ok_def caches_off_def caches_sane_def)
      (simp add: db' cached_def merchant_of_def)
  have "party_of_user db' v = party_of_user db v" by (simp add: db' party_of_user_def fun_eq_iff)
  then show "open_parties db' v = open_parties db v" by (simp add: open_parties_def db')
  show "merchants db' = merchants db" "orders db' = orders db" by (simp_all add: db')
qed

definition wallets_fit :: "'a wallet_db_scheme \<Rightarrow> bool" where
  "wallets_fit db \<longleftrightarrow> (\<forall>u w. wallet_of db u = Some w \<longrightarrow> wallet_fits w)"

lemma wallets_fit_tables: "money_tables db' = money_tables db \<Longrightarrow> wallets_fit db' = wallets_fit db"
  using money_tables_eqD(5)[of db' db] by (simp add: wallets_fit_def)

lemma applyTx_fit:
  assumes "applyTx u a kind ref nt actor db = Inr (r, db')" and "wallets_fit db" and "wallet_inv db"
  shows "wallets_fit db'"
proof -
  obtain db1 where e: "ensure_wallet u db = Inr db1"
    using assms(1) by (auto simp: applyTx_def result_simps split: if_splits)
  note ei = ensure_wallet_Inr[OF e]
  have in0: "in64 0" by (simp add: in64_def)
  have fit1: "wallets_fit db1"
    unfolding wallets_fit_def
  proof (intro allI impI)
    fix v w assume v: "wallet_of db1 v = Some w"
    show "wallet_fits w"
    proof (cases "v = u")
      case True
      with v ei assms(2) show ?thesis
        by (cases "wallet_of db u") (auto simp: wallets_fit_def wallet_fits_def zero_wallet_def in0)
    next
      case False
      with v ei assms(2) show ?thesis by (auto simp: wallets_fit_def)
    qed
  qed
  obtain w where w: "wallet_of db1 u = Some w" "wallet_fits (w\<lparr>w_balance := w_balance w + a\<rparr>)"
    and db': "wallets db' = AList.update u (advance_clamp (w\<lparr>w_balance := w_balance w + a\<rparr>)) (wallets db1)"
    using assms(1) e
    by (auto simp: applyTx_def result_simps update_wallet_def insert_wallet_tx_def Let_def split: if_splits option.splits)
  have "wallet_fits (advance_clamp x)" if "wallet_fits x" for x
    using that by (auto simp: wallet_fits_def advance_clamp_def in64_def min_def max_def)
  with w fit1 show ?thesis by (auto simp: wallets_fit_def wallet_of_def db' update_conv' split: if_splits)
qed

lemma applyTx_inv: "applyTx u a kind ref nt actor db = Inr (r, db') \<Longrightarrow> wallet_inv db \<Longrightarrow> wallet_inv db'"
  by (cases r) (auto intro: posted_inv dest: applyTx_Inr(1))

section \<open>The two offsets\<close>

definition books_ok :: "'a obligations_db_scheme \<Rightarrow> bool" where
  "books_ok db \<longleftrightarrow> obligations_inv db \<and> wallet_inv db \<and> wallets_fit db"

lemma applyTx_books: "applyTx u a kind ref nt actor db = Inr (r, db') \<Longrightarrow> books_ok db \<Longrightarrow> books_ok db'"
  using applyTx_book(1)[of u a kind ref nt actor db r db'] applyTx_fit[of u a kind ref nt actor db r db']
    applyTx_inv[of u a kind ref nt actor db r db']
  by (simp add: books_ok_def)

lemma books_tables:
  "obligations_inv db' \<Longrightarrow> money_tables db' = money_tables db \<Longrightarrow> books_ok db \<Longrightarrow> books_ok db'"
  unfolding books_ok_def using wallet_inv_tables[of db' db] wallets_fit_tables[of db' db] by blast

text \<open>What a payment refers to: a posting adds its ledger entry, a settlement keeps it all.\<close>

lemma payment_accepted_tables: "money_tables db' = money_tables db \<Longrightarrow> payment_accepted ord tx actor meth db' = payment_accepted ord tx actor meth db"
  using money_tables_eqD[of db' db] by (simp add: payment_accepted_def order_of_def split: option.split)

lemma payment_accepted_posted:
  fixes db :: "'a obligations_db_scheme"
  assumes "applyTx u a kind ref nt by' db = Inr ((b, i), db')"
  shows "payment_accepted ord i actor meth db' = payment_accepted ord 0 actor meth db"
    and "payment_accepted ord 0 actor meth db' = payment_accepted ord 0 actor meth db"
proof -
  have "i \<in> tx_id ` set (wallet_txs db')" "users db' = users db"
    using applyTx_Inr(1,3)[OF assms] by (auto simp: posted_def)
  moreover have "order_of db' ord = order_of db ord" using applyTx_book(5)[OF assms] by (simp add: order_of_def)
  ultimately show "payment_accepted ord i actor meth db' = payment_accepted ord 0 actor meth db"
    and "payment_accepted ord 0 actor meth db' = payment_accepted ord 0 actor meth db"
    by (simp_all add: payment_accepted_def split: option.split)
qed

lemma SettleBy_takes:
  assumes "books_ok db" and "k \<in> {PartyMerchant, PartyRep, PartyDriver}" and "payment_accepted ord tx actor meth db"
  shows "\<exists>db'. SettleBy k i a ord tx actor meth ref db = Inr (max 0 (min a (Debt db k i)), db') \<and>
    books_ok db' \<and> Debt db' k i = Debt db k i - max 0 (min a (Debt db k i)) \<and> money_tables db' = money_tables db"
proof -
  have inv: "obligations_inv db" using assms(1) by (simp add: books_ok_def)
  obtain db' where
    r: "SettleBy k i a ord tx actor meth ref db = Inr (max 0 (min a (Debt db k i)), db')" "obligations_inv db'"
    and d: "Debt db' k' p' = Debt db k' p' - (if k' = k \<and> p' = i then max 0 (min a (Debt db k i)) else 0)" for k' p'
    using SettleBy_spec[OF inv assms(2,3), of i a ref] by blast
  note r = r(1) r(2) d[of k i, simplified]
  with books_tables[OF r(2) SettleBy_tables[OF r(1)] assms(1)] SettleBy_tables[OF r(1)] show ?thesis by blast
qed

lemma SettleBy_refused:
  assumes "\<not> payment_accepted ord tx actor meth db" and "0 < a" and "Debt db k i \<noteq> 0"
  shows "SettleBy k i a ord tx actor meth ref db = Inl ErrDb"
proof -
  have "open_list db k i \<noteq> []" using assms(3) open_list_sum[of db k i] by auto
  then show ?thesis
    using assms(2) settle_loop_refused[OF assms(1,2), of "map (\<lambda>x. (ob_id x, ob_rest x)) (open_list db k i)" ref]
    by (simp add: SettleBy_def)
qed

lemma offset_pay_Inr:
  assumes "offset_pay u kind ord actor k i amt db = Inr (tx, db')" and "books_ok db"
  shows "books_ok db'" and "Debt db' k' i' = Debt db k' i'" and "posted u (- amt) db db'"
    and "payment_accepted r tx by' meth db' = payment_accepted r 0 by' meth db"
    and "payment_accepted r 0 by' meth db' = payment_accepted r 0 by' meth db"
  using assms by (auto simp: offset_pay_def result_simps ApplyTxID_def payment_accepted_posted
      dest: applyTx_books applyTx_book(2) applyTx_Inr(1))

text \<open>The books are in order, and a payment of the order by its author refers to rows that exist.\<close>

definition offset_ready :: "string \<Rightarrow> user_id \<Rightarrow> 'a obligations_db_scheme \<Rightarrow> bool" where
  "offset_ready ord actor db \<longleftrightarrow> books_ok db \<and> payment_accepted ord 0 (Some actor) MethodEarning db"

lemma party_deduction:
  assumes "k \<in> {PartyMerchant, PartyRep, PartyDriver}"
  shows "deduction (\<lambda>db. Debt db k i) money_tables (offset_ready ord actor)
    (\<lambda>tx. payment_accepted ord tx (Some actor) MethodEarning) (offset_pay u kind ord actor k i)
    (\<lambda>amt tx. SettleDebt k i amt ord tx (Some actor))"
proof unfold_locales
  fix s s' :: "'a obligations_db_scheme" and a tx
  assume "offset_ready ord actor s" and "offset_pay u kind ord actor k i a s = Inr (tx, s')"
  then show "offset_ready ord actor s' \<and> Debt s' k i = Debt s k i \<and> payment_accepted ord tx (Some actor) MethodEarning s'"
    using offset_pay_Inr[of u kind ord actor k i a s tx s'] by (simp add: offset_ready_def)
next
  fix s :: "'a obligations_db_scheme" and a tx
  assume s: "offset_ready ord actor s" and tx: "payment_accepted ord tx (Some actor) MethodEarning s"
  have ok: "books_ok s" "payment_accepted ord 0 (Some actor) MethodEarning s" using s by (simp_all add: offset_ready_def)
  from SettleBy_takes[OF ok(1) assms tx, of i a "''''"] ok(2) payment_accepted_tables
  show "\<exists>s'. SettleDebt k i a ord tx (Some actor) s = Inr (max 0 (min a (Debt s k i)), s') \<and> offset_ready ord actor s' \<and>
      Debt s' k i = Debt s k i - max 0 (min a (Debt s k i)) \<and> money_tables s' = money_tables s"
    unfolding SettleDebt_def offset_ready_def by blast
qed

interpretation merchant_offset: deduction "\<lambda>db. Debt db PartyMerchant m" money_tables "offset_ready ord actor"
  "\<lambda>tx. payment_accepted ord tx (Some actor) MethodEarning" "offset_pay owner ''merchant_earning'' ord actor PartyMerchant m"
  "\<lambda>amt tx. SettleDebt PartyMerchant m amt ord tx (Some actor)"
  for m owner ord actor
  by (rule party_deduction) simp

interpretation rep_offset: deduction "\<lambda>db. Debt db PartyRep r" money_tables "offset_ready ord actor"
  "\<lambda>tx. payment_accepted ord tx (Some actor) MethodEarning" "offset_pay r ''commission'' ord actor PartyRep r"
  "\<lambda>amt tx. SettleDebt PartyRep r amt ord tx (Some actor)"
  for r ord actor
  by (rule party_deduction) simp
definition offset_result ::
  "user_id \<Rightarrow> string \<Rightarrow> string \<Rightarrow> user_id \<Rightarrow> string \<Rightarrow> string \<Rightarrow> int \<Rightarrow> 'a obligations_db_scheme \<Rightarrow>
     err + 'a obligations_db_scheme \<Rightarrow> bool" where
  "offset_result u kind ord actor k i available db r \<longleftrightarrow>
    (let n = max 0 (min available (Debt db k i)) in
     case r of
       Inl e \<Rightarrow> 0 < n \<and> failed r \<and> (\<exists>nt. applyTx u (- n) kind ord nt (Some actor) db = Inl e)
     | Inr db' \<Rightarrow> books_ok db' \<and> Debt db' k i = Debt db k i - n \<and>
         (\<forall>v. Balance db' v = Balance db v - (if v = u then n else 0)) \<and>
         tx_amounts db' u = tx_amounts db u @ (if n = 0 then [] else [- n]))"

lemma offset_resultI:
  assumes "offset_ready ord actor db" and "k \<in> {PartyMerchant, PartyRep, PartyDriver}"
  shows "offset_result u kind ord actor k i available db
    (offset_debt (\<lambda>db. Debt db k i) (offset_pay u kind ord actor k i)
      (\<lambda>amt tx. SettleDebt k i amt ord tx (Some actor)) available db)"
proof -
  note D = party_deduction[OF assms(2)]
  let ?n = "max 0 (min available (Debt db k i))"
  let ?r = "offset_debt (\<lambda>db. Debt db k i) (offset_pay u kind ord actor k i)
    (\<lambda>amt tx. SettleDebt k i amt ord tx (Some actor)) available db"
  show ?thesis
  proof (cases ?r)
    case (Inl e)
    from deduction.offset_never_mismatches[OF D assms(1) Inl] have "0 < ?n" "offset_pay u kind ord actor k i ?n db = Inl e"
      by auto
    with Inl show ?thesis
      by (auto simp: offset_result_def Let_def offset_pay_def ApplyTxID_def bindE_eq_Inl split: prod.splits)
  next
    case (Inr db')
    note ex = deduction.offset_exact[OF D assms(1) Inr]
    have "(\<forall>v. Balance db' v = Balance db v - (if v = u then ?n else 0)) \<and>
        tx_amounts db' u = tx_amounts db u @ (if ?n = 0 then [] else [- ?n])"
    proof (cases "?n = 0")
      case True
      with ex(3) show ?thesis by simp
    next
      case False
      with ex(3) obtain tx t where p: "offset_pay u kind ord actor k i ?n db = Inr (tx, t)"
        and tab: "money_tables db' = money_tables t" by auto
      note post = offset_pay_Inr(3)[OF p] assms(1)
      then have post: "posted u (- ?n) db t" by (simp add: offset_ready_def)
      have "tx_amounts t u = tx_amounts db u @ [- ?n]" using posted_tx_amounts[OF post, of u] by simp
      moreover have "Balance t v = Balance db v - (if v = u then ?n else 0)" for v
        using post by (simp add: posted_def)
      moreover have "tx_amounts db' u = tx_amounts t u" using money_tables_eqD(2)[OF tab] by (simp add: tx_amounts_def)
      ultimately show ?thesis using money_tables_eqD(6)[OF tab] False by simp
    qed
    with Inr ex(1,2) show ?thesis by (simp add: offset_result_def Let_def offset_ready_def)
  qed
qed

section \<open>When a posting succeeds\<close>

lemma available_wallet:
  assumes "0 < AvailableTx db u" and "wallet_inv db"
  obtains w where "wallet_of db u = Some w" and "AvailableTx db u = w_balance w - w_reserved w"
  using assms by (cases "wallet_of db u") (auto simp: AvailableTx_def LayersTx_def Let_def Balance_def)

lemma debit_available:
  assumes "books_ok db" and "0 < a" and "a \<le> AvailableTx db u"
  shows "\<exists>r db'. applyTx u (- a) kind ref nt actor db = Inr (r, db')"
proof -
  have inv: "wallet_inv db" using assms(1) by (simp add: books_ok_def)
  have pos: "0 < AvailableTx db u" using assms(2,3) by linarith
  obtain w where w: "wallet_of db u = Some w" "AvailableTx db u = w_balance w - w_reserved w"
    by (rule available_wallet[OF pos inv])
  note row = wallet_inv_row[OF inv w(1)]
  have fit: "wallet_fits w" using assms(1) w(1) by (simp add: books_ok_def wallets_fit_def)
  have le: "w_reserved w \<le> w_balance w - a" using assms(3) w(2) by linarith
  have "wallet_fits (w\<lparr>w_balance := w_balance w + - a\<rparr>)"
    using fit row(3) le assms(2) by (auto simp: wallet_fits_def in64_def)
  moreover have "wallet_ok (advance_clamp (w\<lparr>w_balance := w_balance w + - a\<rparr>))"
    using row le by (auto simp: wallet_ok_def advance_clamp_def)
  ultimately show ?thesis using applyTx_present[OF w(1), of "- a"] assms(2) by auto
qed

lemma credit_posts:
  assumes "wallet_inv db" and "wallets_fit db" and "wallet_of db u = Some w" and "0 < a" and "in64 (w_balance w + a)"
  shows "\<exists>r db'. applyTx u a kind ref nt actor db = Inr (r, db')"
proof -
  note row = wallet_inv_row[OF assms(1,3)]
  have "wallet_fits (w\<lparr>w_balance := w_balance w + a\<rparr>)"
    using assms by (auto simp: wallet_fits_def wallets_fit_def)
  moreover have "wallet_ok (advance_clamp (w\<lparr>w_balance := w_balance w + a\<rparr>))"
    using row assms(4) by (auto simp: wallet_ok_def advance_clamp_def)
  ultimately show ?thesis using applyTx_present[OF assms(3), of a] assms(4) by auto
qed

lemma applyTx_available:
  assumes "applyTx u a kind ref nt actor db = Inr (r, db')"
  shows "AvailableTx db' v = AvailableTx db v + (if v = u then a else 0)"
    and "Balance db' v = Balance db v + (if v = u then a else 0)"
    and "v \<noteq> u \<Longrightarrow> wallet_of db' v = wallet_of db v"
    and "\<exists>w. wallet_of db' u = Some w \<and> w_balance w = Balance db u + a"
proof -
  obtain b i where r: "r = (b, i)" by (cases r)
  note p = applyTx_Inr[OF assms[unfolded r]]
  show bal: "Balance db' v = Balance db v + (if v = u then a else 0)" for v using p(1) by (simp add: posted_def)
  show other: "v \<noteq> u \<Longrightarrow> wallet_of db' v = wallet_of db v" for v using p(1) by (simp add: posted_def)
  show "\<exists>w. wallet_of db' u = Some w \<and> w_balance w = Balance db u + a" using p(2,4) by auto
  show "AvailableTx db' v = AvailableTx db v + (if v = u then a else 0)"
    using p(2,4) other[of v] bal[of v] by (cases "v = u") (auto simp: AvailableTx_def LayersTx_def Let_def Balance_def)
qed

section \<open>Paying from money that came in\<close>

definition treasury_ready :: "user_id \<Rightarrow> user_id \<Rightarrow> int \<Rightarrow> 'a wallet_db_scheme \<Rightarrow> bool" where
  "treasury_ready t u n db \<longleftrightarrow> t = '''' \<or>
     t \<noteq> u \<and> (\<exists>w. wallet_of db t = Some w \<and> in64 (w_balance w + n) \<and> in64 (w_balance w))"

lemma credit_debit_spec:
  assumes ok: "books_ok db" and a: "0 < a" "a \<le> AvailableTx db u" "a \<le> n"
    and t: "treasury_ready (cp_treasury opt) u n db"
  shows "\<exists>tx db'. credit_debit u ref actor opt k i a db = Inr (tx, db') \<and> books_ok db' \<and>
    (\<forall>by' meth. payment_accepted '''' tx by' meth db' = payment_accepted '''' 0 by' meth db \<and>
       payment_accepted '''' 0 by' meth db' = payment_accepted '''' 0 by' meth db) \<and>
    treasury_ready (cp_treasury opt) u (n - a) db' \<and>
    (\<forall>k i. Debt db' k i = Debt db k i) \<and> AvailableTx db' u = AvailableTx db u - a \<and>
    (\<forall>v. Balance db' v = Balance db v - (if v = u then a else 0) +
       (if cp_treasury opt \<noteq> '''' \<and> v = cp_treasury opt then a else 0))"
proof -
  define nt where "nt = credit_note opt (OffsetNote db k i a)"
  obtain r1 db1 where d: "applyTx u (- a) ''adjustment'' ref nt actor db = Inr (r1, db1)"
    using debit_available[OF ok a(1,2)] by blast
  note d' = applyTx_books[OF d ok] applyTx_book(2)[OF d] applyTx_available[OF d]
  have acc1: "payment_accepted '''' (snd r1) by' meth db1 = payment_accepted '''' 0 by' meth db"
    "payment_accepted '''' 0 by' meth db1 = payment_accepted '''' 0 by' meth db" for by' meth
    using payment_accepted_posted[of u "- a" "''adjustment''" ref nt actor db "fst r1" "snd r1" db1] d by simp_all
  show ?thesis
  proof (cases "cp_treasury opt = ''''")
    case True
    with d d' show ?thesis
      using acc1 by (auto simp: credit_debit_def ApplyTxID_def Let_def nt_def[symmetric] treasury_ready_def split: prod.splits)
  next
    case False
    with t obtain w where w: "cp_treasury opt \<noteq> u" "wallet_of db (cp_treasury opt) = Some w" "in64 (w_balance w + n)"
        "in64 (w_balance w)"
      by (auto simp: treasury_ready_def)
    have w1: "wallet_of db1 (cp_treasury opt) = Some w" using d'(5)[OF w(1)] w(2) by simp
    have ina: "in64 (w_balance w + a)" using w(3,4) a by (auto simp: in64_def)
    have wi: "wallet_inv db1" "wallets_fit db1" using d'(1) by (simp_all add: books_ok_def)
    obtain r2 db2 where c: "applyTx (cp_treasury opt) a ''platform_profit'' ref nt actor db1 = Inr (r2, db2)"
      using credit_posts[OF wi w1 a(1) ina] by blast
    note c' = applyTx_books[OF c d'(1)] applyTx_book(2)[OF c] applyTx_available[OF c]
    have "Balance db1 (cp_treasury opt) = w_balance w" using w1 by (simp add: Balance_def)
    then have "treasury_ready (cp_treasury opt) u (n - a) db2"
      using c'(6) w ina by (auto simp: treasury_ready_def)
    moreover have "credit_debit u ref actor opt k i a db = Inr (snd r2, db2)"
      using False d c by (simp add: credit_debit_def ApplyTxID_def Let_def nt_def[symmetric] split: prod.split)
    moreover have "payment_accepted '''' (snd r2) by' meth db2 = payment_accepted '''' 0 by' meth db"
      "payment_accepted '''' 0 by' meth db2 = payment_accepted '''' 0 by' meth db" for by' meth
      using payment_accepted_posted[of "cp_treasury opt" a "''platform_profit''" ref nt actor db1 "fst r2" "snd r2" db2] c acc1 by simp_all
    ultimately show ?thesis using d' c' w(1) False by auto
  qed
qed

lemma credit_step:
  assumes ok: "books_ok db" and a: "0 < a" "a \<le> AvailableTx db u" "a \<le> n" "a \<le> Debt db k i"
    and t: "treasury_ready (cp_treasury opt) u n db" and k: "k \<in> {PartyMerchant, PartyRep, PartyDriver}"
    and acc: "payment_accepted '''' 0 actor (cp_method opt) db"
  shows "\<exists>db'. deduct (credit_debit u ref actor opt k i)
        (\<lambda>amt tx. SettleBy k i amt '''' tx actor (cp_method opt) ref) a db = Inr db' \<and> books_ok db' \<and>
    payment_accepted '''' 0 actor (cp_method opt) db' \<and>
    treasury_ready (cp_treasury opt) u (n - a) db' \<and> AvailableTx db' u = AvailableTx db u - a \<and>
    (\<forall>k' i'. Debt db' k' i' = Debt db k' i' - (if k' = k \<and> i' = i then a else 0)) \<and>
    (\<forall>v. Balance db' v = Balance db v - (if v = u then a else 0) +
       (if cp_treasury opt \<noteq> '''' \<and> v = cp_treasury opt then a else 0))"
proof -
  from credit_debit_spec[OF ok a(1-3) t] obtain tx db1 where
    d: "credit_debit u ref actor opt k i a db = Inr (tx, db1)" "books_ok db1"
      "treasury_ready (cp_treasury opt) u (n - a) db1" "\<And>k i. Debt db1 k i = Debt db k i"
      "AvailableTx db1 u = AvailableTx db u - a"
      "\<And>v. Balance db1 v = Balance db v - (if v = u then a else 0) +
         (if cp_treasury opt \<noteq> '''' \<and> v = cp_treasury opt then a else 0)"
    and acc1: "payment_accepted '''' tx actor (cp_method opt) db1" "payment_accepted '''' 0 actor (cp_method opt) db1" using acc by metis
  have inv1: "obligations_inv db1" using d(2) by (simp add: books_ok_def)
  have n: "max 0 (min a (Debt db1 k i)) = a" using a d(4) by simp
  obtain db2 where s: "SettleBy k i a '''' tx actor (cp_method opt) ref db1 = Inr (a, db2)" "obligations_inv db2"
    and debt: "\<And>k' i'. Debt db2 k' i' = Debt db1 k' i' - (if k' = k \<and> i' = i then a else 0)"
    using SettleBy_spec[OF inv1 k acc1(1), of i a ref] unfolding n by blast
  note tab = SettleBy_tables[OF s(1)] and eq = money_tables_eqD[OF SettleBy_tables[OF s(1)]]
  have "treasury_ready (cp_treasury opt) u (n - a) db2" using d(3) by (simp add: treasury_ready_def eq(5))
  moreover have "books_ok db2" by (rule books_tables[OF s(2) tab d(2)])
  moreover have "payment_accepted '''' 0 actor (cp_method opt) db2" using acc1(2) payment_accepted_tables[OF tab] by simp
  ultimately show ?thesis using d s debt eq(6,7) by (auto simp: deduct_def)
qed

lemma credit_step_refused:
  assumes ok: "books_ok db" and a: "0 < a" "a \<le> AvailableTx db u" "a \<le> n" "a \<le> Debt db k i"
    and t: "treasury_ready (cp_treasury opt) u n db" and acc: "\<not> payment_accepted '''' 0 actor (cp_method opt) db"
  shows "deduct (credit_debit u ref actor opt k i) (\<lambda>amt tx. SettleBy k i amt '''' tx actor (cp_method opt) ref) a db = Inl ErrDb"
proof -
  from credit_debit_spec[OF ok a(1-3) t, of ref actor k i] acc obtain tx db1 where
    d: "credit_debit u ref actor opt k i a db = Inr (tx, db1)" "Debt db1 k i = Debt db k i"
      "\<not> payment_accepted '''' tx actor (cp_method opt) db1" by metis
  have "Debt db1 k i \<noteq> 0" using a d(2) by simp
  from SettleBy_refused[OF d(3) a(1) this] d(1) show ?thesis by (simp add: deduct_def)
qed

definition debt_sum :: "(string \<times> string) list \<Rightarrow> 'a obligations_db_scheme \<Rightarrow> int" where
  "debt_sum ps db = sum_list (map (\<lambda>(k, i). Debt db k i) ps)"

lemma debt_sum_other:
  assumes "\<And>k' i'. Debt db' k' i' = Debt db k' i' - (if k' = k \<and> i' = i then a else 0)" and "(k, i) \<notin> set ps"
  shows "debt_sum ps db' = debt_sum ps db"
proof -
  have "map (\<lambda>(k, i). Debt db' k i) ps = map (\<lambda>(k, i). Debt db k i) ps" using assms by (intro map_cong) auto
  then show ?thesis unfolding debt_sum_def by (rule arg_cong)
qed

lemma debt_sum_nonneg: "books_ok db \<Longrightarrow> 0 \<le> debt_sum ps db"
  unfolding debt_sum_def
  by (intro sum_list_map_nonneg) (auto simp: books_ok_def obligations_inv_def intro: Debt_nonneg)

lemma debt_sum_pos:
  assumes "books_ok db"
  shows "(\<exists>(k, i)\<in>set ps. 0 < Debt db k i) \<longleftrightarrow> 0 < debt_sum ps db"
proof (induction ps)
  case (Cons p ps)
  obtain k i where p: "p = (k, i)" by (cases p)
  have "0 \<le> Debt db k i" using assms by (auto simp: books_ok_def obligations_inv_def intro: Debt_nonneg)
  moreover have "0 \<le> debt_sum ps db" by (rule debt_sum_nonneg[OF assms])
  moreover have "debt_sum (p # ps) db = Debt db k i + debt_sum ps db" by (simp add: debt_sum_def p)
  ultimately show ?case using Cons.IH p by auto
qed (simp add: debt_sum_def)

lemma greedy_skip:
  fixes d s b a :: int
  assumes "0 \<le> d" and "0 \<le> s" and "min d (min b a) \<le> 0"
  shows "max 0 (min (d + s) (min b a)) = max 0 (min s (min b a))"
  using assms by linarith

lemma greedy_take:
  fixes d s b a x :: int
  assumes "0 \<le> d" and "0 \<le> s" and "x = min d (min b a)" and "0 < x"
  shows "max 0 (min (d + s) (min b a)) = x + max 0 (min s (min (b - x) (a - x)))"
  using assms by linarith

definition parties_ok :: "(string \<times> string) list \<Rightarrow> bool" where
  "parties_ok ps \<longleftrightarrow> distinct ps \<and> fst ` set ps \<subseteq> {PartyMerchant, PartyRep, PartyDriver}"

lemma credit_loop_spec:
  assumes "books_ok db" and "parties_ok ps" and "treasury_ready (cp_treasury opt) u (max 0 budget) db"
    and "payment_accepted '''' 0 actor (cp_method opt) db"
  defines "n \<equiv> max 0 (min (debt_sum ps db) (min budget (AvailableTx db u)))"
  shows "\<exists>db'. credit_loop u ref actor opt ps budget paid db = Inr (paid + n, db') \<and> books_ok db' \<and>
    debt_sum ps db' = debt_sum ps db - n \<and>
    (\<forall>k i. (k, i) \<notin> set ps \<longrightarrow> Debt db' k i = Debt db k i) \<and>
    (\<forall>v. Balance db' v = Balance db v - (if v = u then n else 0) +
       (if cp_treasury opt \<noteq> '''' \<and> v = cp_treasury opt then n else 0))"
  using assms(1-4) unfolding n_def
proof (induction ps arbitrary: budget paid db)
  case Nil
  then show ?case by (simp add: debt_sum_def)
next
  case (Cons p ps)
  obtain k i where p: "p = (k, i)" by (cases p)
  have ps: "parties_ok ps" "(k, i) \<notin> set ps" "k \<in> {PartyMerchant, PartyRep, PartyDriver}"
    using Cons.prems(2) p by (auto simp: parties_ok_def)
  have sum: "debt_sum (p # ps) db = Debt db k i + debt_sum ps db" for db :: "'a obligations_db_scheme"
    by (simp add: debt_sum_def p)
  have nonneg: "0 \<le> Debt db k i" "0 \<le> debt_sum ps db"
    using Cons.prems(1) debt_sum_nonneg[of db ps]
    by (auto simp: books_ok_def obligations_inv_def intro: Debt_nonneg)
  define a where "a = min (Debt db k i) (min budget (AvailableTx db u))"
  consider "budget \<le> 0" | "0 < budget" "a \<le> 0" | "0 < budget" "0 < a" by linarith
  then show ?case
  proof cases
    case 1
    then show ?thesis using Cons.prems(1) by (simp add: p)
  next
    case 2
    then have skip: "credit_loop u ref actor opt (p # ps) budget paid db = credit_loop u ref actor opt ps budget paid db"
      by (simp add: p Let_def a_def)
    have n: "max 0 (min (debt_sum (p # ps) db) (min budget (AvailableTx db u))) =
        max 0 (min (debt_sum ps db) (min budget (AvailableTx db u)))"
      unfolding sum by (rule greedy_skip) (use 2 nonneg in \<open>simp_all add: a_def\<close>)
    obtain db' where r: "credit_loop u ref actor opt ps budget paid db =
          Inr (paid + max 0 (min (debt_sum ps db) (min budget (AvailableTx db u))), db')" "books_ok db'"
        "debt_sum ps db' = debt_sum ps db - max 0 (min (debt_sum ps db) (min budget (AvailableTx db u)))"
        "\<And>k i. (k, i) \<notin> set ps \<Longrightarrow> Debt db' k i = Debt db k i"
        "\<And>v. Balance db' v = Balance db v - (if v = u then max 0 (min (debt_sum ps db) (min budget (AvailableTx db u))) else 0) +
          (if cp_treasury opt \<noteq> '''' \<and> v = cp_treasury opt
           then max 0 (min (debt_sum ps db) (min budget (AvailableTx db u))) else 0)"
      using Cons.IH[OF Cons.prems(1) ps(1) Cons.prems(3,4), of paid] by blast
    have self: "Debt db' k i = Debt db k i" using r(4) ps(2) by blast
    show ?thesis
      unfolding n skip unfolding sum
      by (rule exI[of _ db']) (use r self p in auto)
  next
    case 3
    have le: "a \<le> AvailableTx db u" "a \<le> max 0 budget" "a \<le> Debt db k i" "a \<le> budget" by (auto simp: a_def)
    from credit_step[OF Cons.prems(1) 3(2) le(1-3) Cons.prems(3) ps(3) Cons.prems(4), of ref]
    obtain db1 where s: "deduct (credit_debit u ref actor opt k i)
        (\<lambda>amt tx. SettleBy k i amt '''' tx actor (cp_method opt) ref) a db = Inr db1" "books_ok db1"
      and t: "treasury_ready (cp_treasury opt) u (max 0 budget - a) db1" "AvailableTx db1 u = AvailableTx db u - a"
      and debt: "\<And>k' i'. Debt db1 k' i' = Debt db k' i' - (if k' = k \<and> i' = i then a else 0)"
      and bal: "\<And>v. Balance db1 v = Balance db v - (if v = u then a else 0) +
         (if cp_treasury opt \<noteq> '''' \<and> v = cp_treasury opt then a else 0)"
      and acc: "payment_accepted '''' 0 actor (cp_method opt) db1" by metis
    have t': "treasury_ready (cp_treasury opt) u (max 0 (budget - a)) db1"
      using t(1) le(4) 3 by (simp add: max_def)
    have rest: "debt_sum ps db1 = debt_sum ps db" by (rule debt_sum_other[OF debt ps(2)])
    have loop: "credit_loop u ref actor opt (p # ps) budget paid db =
        credit_loop u ref actor opt ps (budget - a) (paid + a) db1"
      using 3 s(1) by (simp add: p a_def[symmetric])
    let ?m = "max 0 (min (debt_sum ps db) (min (budget - a) (AvailableTx db u - a)))"
    have n: "max 0 (min (debt_sum (p # ps) db) (min budget (AvailableTx db u))) = a + ?m"
      unfolding sum by (rule greedy_take) (use 3 nonneg in \<open>simp_all add: a_def\<close>)
    obtain db' where r: "credit_loop u ref actor opt ps (budget - a) (paid + a) db1 = Inr (paid + a + ?m, db')"
        "books_ok db'" "debt_sum ps db' = debt_sum ps db - ?m"
        "\<And>k i. (k, i) \<notin> set ps \<Longrightarrow> Debt db' k i = Debt db1 k i"
        "\<And>v. Balance db' v = Balance db1 v - (if v = u then ?m else 0) +
           (if cp_treasury opt \<noteq> '''' \<and> v = cp_treasury opt then ?m else 0)"
      using Cons.IH[OF s(2) ps(1) t' acc, of "paid + a"] unfolding rest t(2) by blast
    have self: "Debt db' k i = Debt db k i - a" using r(4)[OF ps(2)] debt[of k i] by simp
    show ?thesis
      unfolding n loop unfolding sum
      by (rule exI[of _ db']) (use r self debt bal p in auto)
  qed
qed

text \<open>Where no payment would be accepted the loop fails at the first debt it would pay.\<close>

lemma credit_loop_refused:
  assumes "books_ok db" and "treasury_ready (cp_treasury opt) u (max 0 budget) db"
    and "\<not> payment_accepted '''' 0 actor (cp_method opt) db"
  shows "credit_loop u ref actor opt ps budget paid db =
    (if 0 < budget \<and> 0 < AvailableTx db u \<and> (\<exists>(k, i)\<in>set ps. 0 < Debt db k i) then Inl ErrDb else Inr (paid, db))"
proof (induction ps)
  case (Cons p ps)
  obtain k i where p: "p = (k, i)" by (cases p)
  define a where "a = min (Debt db k i) (min budget (AvailableTx db u))"
  show ?case
  proof (cases "0 < budget \<and> 0 < a")
    case True
    then have a: "0 < a" "a \<le> AvailableTx db u" "a \<le> max 0 budget" "a \<le> Debt db k i" by (auto simp: a_def)
    have "credit_loop u ref actor opt (p # ps) budget paid db = Inl ErrDb"
      using True credit_step_refused[OF assms(1) a assms(2,3), of ref] by (simp add: p a_def[symmetric])
    with True show ?thesis by (auto simp: p a_def)
  next
    case False
    then show ?thesis using Cons.IH by (auto simp: p Let_def a_def)
  qed
qed simp

section \<open>All that a user owes\<close>

definition user_debt :: "'a obligations_db_scheme \<Rightarrow> user_id \<Rightarrow> int" where
  "user_debt db u = sum_list (map ob_rest [x \<leftarrow> obligations db. party_of_user db u x])"

lemma sum_by_key:
  "finite K \<Longrightarrow> key ` set xs \<subseteq> K \<Longrightarrow>
     (\<Sum>k\<in>K. sum_list (map f [x \<leftarrow> xs. key x = k])) = sum_list (map (f :: _ \<Rightarrow> int) xs)"
proof (induction xs)
  case (Cons x xs)
  have "(\<Sum>k\<in>K. sum_list (map f [y \<leftarrow> x # xs. key y = k])) =
      (\<Sum>k\<in>K. (if k = key x then f x else 0) + sum_list (map f [y \<leftarrow> xs. key y = k]))"
    by (intro sum.cong) auto
  also have "\<dots> = f x + sum_list (map f xs)"
    using Cons by (simp add: sum.distrib)
  finally show ?case by simp
qed simp

lemma open_parties_facts:
  shows "parties_ok (open_parties db u)"
    and "set (open_parties db u) = (\<lambda>x. (ob_kind x, ob_party x)) ` {x \<in> set (obligations db). party_of_user db u x}"
proof -
  show s: "set (open_parties db u) = (\<lambda>x. (ob_kind x, ob_party x)) ` {x \<in> set (obligations db). party_of_user db u x}"
    by (simp add: open_parties_def Let_def)
  have "distinct (open_parties db u)" by (simp add: open_parties_def Let_def)
  with s show "parties_ok (open_parties db u)" by (auto simp: parties_ok_def party_of_user_def)
qed

lemma open_parties_debt: "debt_sum (open_parties db u) db = user_debt db u"
proof -
  let ?key = "\<lambda>x. (ob_kind x, ob_party x)" and ?mine = "[x \<leftarrow> obligations db. party_of_user db u x]"
  have dist: "distinct (open_parties db u)" using open_parties_facts(1)[of db u] by (simp add: parties_ok_def)
  have same: "Debt db (fst k) (snd k) = sum_list (map ob_rest [x \<leftarrow> ?mine. ?key x = k])"
    if "k \<in> set (open_parties db u)" for k
  proof -
    from that obtain y where y: "party_of_user db u y" "k = ?key y" by (auto simp: open_parties_facts(2))
    have "open_of (fst k) (snd k) x \<longleftrightarrow> party_of_user db u x \<and> ?key x = k" for x
      using y by (auto simp: open_of_def party_of_user_def)
    then show ?thesis by (simp add: Debt_def filter_filter conj_commute)
  qed
  have "debt_sum (open_parties db u) db = (\<Sum>k\<in>set (open_parties db u). Debt db (fst k) (snd k))"
    using dist by (simp add: debt_sum_def case_prod_beta sum_list_distinct_conv_sum_set)
  also have "\<dots> = (\<Sum>k\<in>set (open_parties db u). sum_list (map ob_rest [x \<leftarrow> ?mine. ?key x = k]))"
    by (intro sum.cong refl same)
  also have "\<dots> = sum_list (map ob_rest ?mine)"
    by (rule sum_by_key) (auto simp: open_parties_facts(2))
  finally show ?thesis by (simp add: user_debt_def)
qed

section \<open>Properties\<close>

definition example_credit_db :: obligations_db where
  "example_credit_db = example_debt_db\<lparr>
     users := [example_driver\<lparr>u_id := ''a''\<rparr>],
     wallets := [(''a'', zero_wallet\<lparr>w_balance := 900, w_reserved := 300\<rparr>), (''t'', zero_wallet\<lparr>w_treasury := True\<rparr>)],
     wallet_txs := [\<lparr>tx_id = 0, tx_user = ''a'', tx_amount = 900, tx_kind = [], tx_ref = [],
        tx_note = [], tx_by = None, tx_at = 0\<rparr>],
     merchants := map (\<lambda>m. m\<lparr>m_owner := Some ''a''\<rparr>) (merchants example_debt_db)\<rparr>"

lemma example_credit_books: "books_ok example_credit_db"
proof -
  have "blank_book example_credit_db"
    by (simp add: blank_book_def example_credit_db_def example_debt_db_def example_driver_def)
  moreover have "wallet_inv example_credit_db"
    by (auto simp: wallet_inv_def Balance_def wallet_of_def tx_amounts_def wallet_ok_def zero_wallet_def
        example_credit_db_def example_debt_db_def)
  moreover have "wallets_fit example_credit_db"
    by (auto simp: wallets_fit_def wallet_of_def wallet_fits_def zero_wallet_def in64_def example_credit_db_def
        split: if_splits)
  ultimately show ?thesis by (simp add: books_ok_def blank_book_inv)
qed

text \<open>
  C14. Money that comes in pays what the user owes, under whatever name he owes it. With no treasury named, or the
  wallet of another user as the treasury that can hold the credit, and payments that are accepted (a known
  method, an author that exists), the operation succeeds and takes exactly the smallest of the credit, what is
  available in his wallet and the whole of his debts; his debts, his wallet and the treasury's wallet (when one
  is named) move by exactly that, nobody else's wallet or debt moves, and the books stay consistent. Where
  payments are not accepted it fails with the error of the database, unless there is nothing to pay.
\<close>

theorem credit_pays_debts:
  fixes db :: "'a obligations_db_scheme"
  assumes "books_ok db" and "u \<noteq> ''''" and "0 < credit" and "treasury_ready (cp_treasury opt) u credit db"
  defines "n \<equiv> max 0 (min (user_debt db u) (min credit (AvailableTx db u)))"
    and "meth \<equiv> if cp_method opt = '''' then MethodEarning else cp_method opt"
  shows "if n = 0 \<or> payment_accepted '''' 0 actor meth db
    then \<exists>db'. PayFromCredit u credit ref actor opt db = Inr (n, db') \<and> books_ok db' \<and>
      debt_sum (open_parties db u) db' = user_debt db u - n \<and>
      (\<forall>k i. (k, i) \<notin> set (open_parties db u) \<longrightarrow> Debt db' k i = Debt db k i) \<and>
      (\<forall>v. Balance db' v = Balance db v - (if v = u then n else 0) +
         (if cp_treasury opt \<noteq> '''' \<and> v = cp_treasury opt then n else 0))
    else PayFromCredit u credit ref actor opt db = Inl ErrDb"
proof -
  define opt' where "opt' = (if cp_method opt = '''' then opt\<lparr>cp_method := MethodEarning\<rparr> else opt)"
  have t: "cp_treasury opt' = cp_treasury opt" "cp_method opt' = meth" by (simp_all add: opt'_def meth_def)
  have ready: "treasury_ready (cp_treasury opt') u (max 0 credit) db" using assms(3,4) t by simp
  have pay: "PayFromCredit u credit ref actor opt db =
      credit_loop u ref actor opt' (open_parties db u) credit 0 db"
    using assms(2,3) by (simp add: PayFromCredit_def Let_def opt'_def)
  show ?thesis
  proof (cases "payment_accepted '''' 0 actor meth db")
    case True
    then show ?thesis
      using credit_loop_spec[OF assms(1) open_parties_facts(1)[of db u] ready, of actor, where ref = ref and paid = 0]
      unfolding pay t open_parties_debt n_def by simp
  next
    case False
    have owes: "(\<exists>(k, i)\<in>set (open_parties db u). 0 < Debt db k i) \<longleftrightarrow> 0 < user_debt db u"
      using debt_sum_pos[OF assms(1), of "open_parties db u"] unfolding open_parties_debt .
    have "PayFromCredit u credit ref actor opt db = (if 0 < n then Inl ErrDb else Inr (0, db))"
      unfolding pay credit_loop_refused[OF assms(1) ready False[folded t(2)]] owes n_def using assms(3) by auto
    moreover have "0 \<le> n" by (simp add: n_def)
    ultimately show ?thesis using False assms(1) open_parties_debt[of db u] by (cases "n = 0") simp_all
  qed
qed
definition "example_driver_debt = CreateRef ''driver'' ''a'' 250 ''penalty_remainder'' [] ''p1'' None example_credit_db"
definition "example_merchant_debt = CreateRef ''merchant'' ''m'' 250 ''penalty_remainder'' [] ''p2'' None example_credit_db"

lemma example_owing:
  assumes "CreateRef k i a c [] src None example_credit_db = Inr (True, db)"
  shows "books_ok db" and "money_tables db = money_tables example_credit_db"
proof -
  show tab: "money_tables db = money_tables example_credit_db" by (rule CreateRef_tables[OF assms])
  have "obligations_inv db" using CreateRef_inv(1)[OF assms] example_credit_books by (simp add: books_ok_def)
  then show "books_ok db" by (rule books_tables[OF _ tab example_credit_books])
qed

lemma credit_pays_debts_witness:
  "\<exists>db db'. example_driver_debt = Inr (True, db) \<and>
     PayFromCredit ''a'' 400 ''r'' None \<lparr>cp_treasury = ''t'', cp_method = [], cp_from = []\<rparr> db = Inr (250, db') \<and>
     Balance db' ''a'' = 650 \<and> Balance db' ''t'' = 250 \<and>
     PayFromCredit ''a'' 400 ''r'' None \<lparr>cp_treasury = ''t'', cp_method = ''gift'', cp_from = []\<rparr> db = Inl ErrDb"
proof -
  have "case example_driver_debt of Inl _ \<Rightarrow> False | Inr (m, db) \<Rightarrow> m \<and> user_debt db ''a'' = 250" by code_simp
  then obtain db where db: "example_driver_debt = Inr (True, db)" "user_debt db ''a'' = 250"
    by (auto split: sum.splits)
  note ow = example_owing[OF db(1)[unfolded example_driver_debt_def]]
  note eq = money_tables_eqD[OF ow(2)]
  have w: "wallet_of db ''t'' = Some (zero_wallet\<lparr>w_treasury := True\<rparr>)" "AvailableTx db ''a'' = 600"
    "Balance db ''a'' = 900" "Balance db ''t'' = 0"
    unfolding eq(5-7) by (simp_all add: example_credit_db_def wallet_of_def AvailableTx_def LayersTx_def Balance_def Let_def zero_wallet_def)
  have "treasury_ready ''t'' ''a'' 400 db" using w(1) by (simp add: treasury_ready_def zero_wallet_def in64_def)
  moreover have "payment_accepted [] 0 None MethodEarning db" "\<not> payment_accepted [] 0 None ''gift'' db"
    by (simp_all add: payment_accepted_def payment_methods_def MethodEarning_def)
  ultimately show ?thesis
    using credit_pays_debts[OF ow(1), of "''a''" 400 "\<lparr>cp_treasury = ''t'', cp_method = [], cp_from = []\<rparr>" None "''r''"]
      credit_pays_debts[OF ow(1), of "''a''" 400 "\<lparr>cp_treasury = ''t'', cp_method = ''gift'', cp_from = []\<rparr>" None "''r''"] db w
    by auto
qed

text \<open>
  Taking a debt out of what an order earns is exact, for merchants and representatives alike, of an order and by an
  author that exist: it
  either fails because the wallet refuses the deduction of the full amount, never for a mismatch, or
  lowers the debt and the wallet by the smaller of the two amounts (by nothing when nothing is owed),
  with one ledger row for it and no other wallet touched.
\<close>

theorem offsets_exact:
  assumes "offset_ready ord actor db"
  shows "offset_result owner ''merchant_earning'' ord actor PartyMerchant m available db
      (offsetMerchantDebt m owner available ord actor db) \<and>
    offset_result r ''commission'' ord actor PartyRep r available db (offsetRepDebt r available ord actor db)"
  unfolding offsetMerchantDebt_def offsetRepDebt_def by (intro conjI offset_resultI[OF assms]) simp_all

lemma offsets_exact_witness:
  "\<exists>db db'. example_merchant_debt = Inr (True, db) \<and>
     offsetMerchantDebt ''m'' ''a'' 100 [] ''a'' db = Inr db' \<and> Debt db' PartyMerchant ''m'' = 150 \<and>
     Balance db' ''a'' = 800"
proof -
  have "case example_merchant_debt of Inl _ \<Rightarrow> False | Inr (m, db) \<Rightarrow> m \<and> Debt db PartyMerchant ''m'' = 250 \<and>
      Balance db ''a'' = 900 \<and> \<not> failed (offsetMerchantDebt ''m'' ''a'' 100 [] ''a'' db) \<and> payment_accepted [] 0 (Some ''a'') MethodEarning db"
    by code_simp
  then obtain db where d: "example_merchant_debt = Inr (True, db)" "Debt db PartyMerchant ''m'' = 250"
      "Balance db ''a'' = 900" "\<not> failed (offsetMerchantDebt ''m'' ''a'' 100 [] ''a'' db)" "payment_accepted [] 0 (Some ''a'') MethodEarning db"
    by (auto split: sum.splits)
  then obtain db' where "offsetMerchantDebt ''m'' ''a'' 100 [] ''a'' db = Inr db'"
    by (cases "offsetMerchantDebt ''m'' ''a'' 100 [] ''a'' db") auto
  note db = d(1-3) this
  note ow = example_owing[OF db(1)[unfolded example_merchant_debt_def]]
  have "offset_ready [] ''a'' db" using ow(1) d(5) by (simp add: offset_ready_def)
  from offsets_exact[OF this, of "''a''" "''m''" 100 "''a''"] db show ?thesis
    by (auto simp: offset_result_def Let_def)
qed

end
