(* ===== verification/Settlements_Table.thy ===== *)
theory Settlements_Table
  imports Office_Cash Credit
begin

text \<open>
  The tables behind the settlement of merchants (migrations 0163, 0438, 0475, 0497, 0506):
  \<open>merchant_settlements\<close> with one row per order and merchant, the log of its reversals, the log
  of its corrections, and the \<open>order_items\<close> the shares are computed from; with the constraints of
  the rows. A generated uuid is a text that was not used before, built from a counter.
\<close>

record settlement =
  st_id :: string
  st_order :: string
  st_merchant :: string
  st_owner :: user_id
  st_method :: string
  st_amount :: int
  st_adjusted :: int
  st_reversed :: int
  st_state :: string
  st_pct :: "int option"
  st_waived :: int
  st_earning_tx :: "int option"
  st_accrued_tx :: "int option"
  st_paid_tx :: "int option"
  st_paid_by :: "user_id option"
  st_paid_owner :: "user_id option"
  st_paid_via :: "string option"
  st_note :: string
  st_created :: int

record reversal =
  rv_settlement :: string
  rv_tx :: int
  rv_amount :: int
  rv_cause :: string
  rv_event :: string

record adjustment =
  ad_id :: string
  ad_settlement :: string
  ad_order :: string
  ad_delta :: int
  ad_earning_tx :: "int option"
  ad_accrued_tx :: "int option"
  ad_paid_tx :: "int option"
  ad_paid_by :: "user_id option"
  ad_paid_via :: "string option"
  ad_debt :: int

record order_item =
  oi_order :: string
  oi_merchant :: "string option"
  oi_price :: int
  oi_unit_price :: int
  oi_qty :: int
  oi_method :: "string option"
  oi_id :: string
  oi_name :: string
  oi_menu :: "string option"
  oi_drink_for :: "string option"

record audit_row =
  au_actor :: user_id
  au_action :: string
  au_entity :: string
  au_amount :: int

record settle_db = office_db +
  settlements :: "settlement list"
  reversals :: "reversal list"
  adjustments :: "adjustment list"
  order_items :: "order_item list"
  audit_log :: "audit_row list"
  next_uuid :: nat

definition uuid :: "nat \<Rightarrow> string" where "uuid n = replicate (Suc n) CHR ''u''"

definition settlement_of :: "'a settle_db_scheme \<Rightarrow> string \<Rightarrow> settlement option" where
  "settlement_of db i = find (\<lambda>s. st_id s = i) (settlements db)"

definition settlement_for :: "'a settle_db_scheme \<Rightarrow> string \<Rightarrow> string \<Rightarrow> settlement option" where
  "settlement_for db ord m = find (\<lambda>s. st_order s = ord \<and> st_merchant s = m) (settlements db)"

text \<open>The CHECK constraints of a settlement row.\<close>

definition method_state_ok :: "string \<Rightarrow> string \<Rightarrow> bool" where
  "method_state_ok meth state \<longleftrightarrow>
     meth = ''wallet'' \<and> state \<in> {''wallet_credited'', ''wallet_reversed''} \<or>
     meth = ''cash'' \<and> state \<in> {''cash_due'', ''cash_paid'', ''cash_reversed''}"

definition settlement_fits :: "settlement \<Rightarrow> bool" where
  "settlement_fits s \<longleftrightarrow> 0 < st_amount s \<and> in64 (st_amount s) \<and> in64 (st_adjusted s) \<and>
     0 \<le> st_amount s + st_adjusted s \<and> 0 \<le> st_reversed s \<and> st_reversed s \<le> st_amount s \<and>
     method_state_ok (st_method s) (st_state s) \<and>
     (st_state s = ''cash_paid'' \<longrightarrow> st_paid_via s \<noteq> None) \<and>
     0 \<le> st_waived s \<and> (st_waived s = 0 \<or> st_method s = ''cash'' \<and> st_paid_via s = Some ''driver'')"

definition update_settlement ::
  "string \<Rightarrow> (settlement \<Rightarrow> settlement) \<Rightarrow> 'a settle_db_scheme \<Rightarrow> err + 'a settle_db_scheme" where
  "update_settlement i f db =
    (if list_ex (\<lambda>s. st_id s = i \<and> \<not> settlement_fits (f s)) (settlements db) then Inl ErrDb
     else Inr (db\<lparr>settlements := map (\<lambda>s. if st_id s = i then f s else s) (settlements db)\<rparr>))"

lemma update_settlement_Inr:
  "update_settlement i f db = Inr db' \<longleftrightarrow>
     (\<forall>s\<in>set (settlements db). st_id s = i \<longrightarrow> settlement_fits (f s)) \<and>
     db' = db\<lparr>settlements := map (\<lambda>s. if st_id s = i then f s else s) (settlements db)\<rparr>"
  by (auto simp: update_settlement_def list_ex_iff)

section \<open>The system wallets\<close>

definition treasuryOn :: "'a wallet_db_scheme \<Rightarrow> user_id" where
  "treasuryOn db = (case find (\<lambda>(_, w). w_treasury w) (wallets db) of Some (u, _) \<Rightarrow> u | None \<Rightarrow> '''')"

definition ErrNoHolding :: err where "ErrNoHolding = ErrMsg ''no holding wallet''"

definition cashHoldingOn :: "'a wallet_db_scheme \<Rightarrow> err + user_id" where
  "cashHoldingOn db =
    (case find (\<lambda>(_, w). w_cash_holding w) (wallets db) of Some (u, _) \<Rightarrow> Inr u | None \<Rightarrow> Inl ErrNoHolding)"

text \<open>A posting never changes which wallet is which.\<close>

lemma find_AList_update:
  assumes "map_of xs u = Some w" and "P (u, w') = P (u, w)"
  shows "map_option fst (find P (AList.update u w' xs)) = map_option fst (find P xs)"
  using assms by (induction xs) (auto split: if_splits)

lemma find_AList_new:
  assumes "map_of xs u = None" and "\<not> P (u, w')"
  shows "find P (AList.update u w' xs) = find P xs"
  using assms by (induction xs) (auto split: if_splits)

lemma applyTx_find:
  assumes "applyTx u a kind ref nt actor db = Inr (r, db')"
    and "\<And>w b. P (u, advance_clamp (w\<lparr>w_balance := b\<rparr>)) = P (u, w)" and "\<not> P (u, zero_wallet)"
  shows "map_option fst (find P (wallets db')) = map_option fst (find P (wallets db))"
proof -
  obtain db1 w where e: "ensure_wallet u db = Inr db1" and w: "wallet_of db1 u = Some w"
    and db': "wallets db' = AList.update u (advance_clamp (w\<lparr>w_balance := w_balance w + a\<rparr>)) (wallets db1)"
    using assms(1)
    by (auto simp: applyTx_def result_simps update_wallet_def insert_wallet_tx_def Let_def split: if_splits option.splits)
  have "map_option fst (find P (wallets db')) = map_option fst (find P (wallets db1))"
    unfolding db' using w assms(2) by (intro find_AList_update[where w = w]) (auto simp: wallet_of_def)
  also have "\<dots> = map_option fst (find P (wallets db))"
    using e assms(3) by (auto simp: ensure_wallet_def wallet_of_def find_AList_new split: if_splits)
  finally show ?thesis .
qed

lemma case_find_fst:
  "(case x of Some (u, _) \<Rightarrow> f u | None \<Rightarrow> d) = (case map_option fst x of Some u \<Rightarrow> f u | None \<Rightarrow> d)"
  by (auto split: option.split)

lemma applyTx_system:
  assumes "applyTx u a kind ref nt actor db = Inr (r, db')"
  shows "treasuryOn db' = treasuryOn db" and "cashHoldingOn db' = cashHoldingOn db"
proof -
  have "map_option fst (find (\<lambda>(_, w). w_treasury w) (wallets db')) = map_option fst (find (\<lambda>(_, w). w_treasury w) (wallets db))"
    by (rule applyTx_find[OF assms]) (simp_all add: advance_clamp_def zero_wallet_def)
  then show "treasuryOn db' = treasuryOn db" unfolding treasuryOn_def case_find_fst by simp
  have "map_option fst (find (\<lambda>(_, w). w_cash_holding w) (wallets db')) = map_option fst (find (\<lambda>(_, w). w_cash_holding w) (wallets db))"
    by (rule applyTx_find[OF assms]) (simp_all add: advance_clamp_def zero_wallet_def)
  then show "cashHoldingOn db' = cashHoldingOn db" unfolding cashHoldingOn_def case_find_fst by simp
qed

lemma system_wallets_eq:
  "wallets db' = wallets db \<Longrightarrow> treasuryOn db' = treasuryOn db"
  "wallets db' = wallets db \<Longrightarrow> cashHoldingOn db' = cashHoldingOn db"
  by (simp_all add: treasuryOn_def cashHoldingOn_def)

text \<open>The tables of this theory, which a posting and the book of obligations leave alone.\<close>

definition settle_tables :: "'a settle_db_scheme \<Rightarrow> _" where
  "settle_tables db = (settlements db, reversals db, adjustments db, order_items db, next_uuid db)"

lemma settle_tables_eqD:
  assumes "settle_tables db' = settle_tables db"
  shows "settlements db' = settlements db" "reversals db' = reversals db" "adjustments db' = adjustments db"
    "order_items db' = order_items db" "next_uuid db' = next_uuid db"
  using assms by (auto simp: settle_tables_def)

lemma applyTx_settle_tables:
  fixes db :: "'a settle_db_scheme"
  assumes "applyTx u a kind ref nt actor db = Inr (r, db')"
  shows "settle_tables db' = settle_tables db"
  using applyTx_frame[OF assms] by (auto simp: settle_tables_def)

lemma wipe_settle_tables:
  assumes "wipe_debts db' = wipe_debts db"
  shows "settle_tables db' = settle_tables db" and "office_entries db' = office_entries db"
    and "audit_log db' = audit_log db" and "cash_entries db' = cash_entries db" and "boxes db' = boxes db"
proof -
  have w: "settle_tables (wipe_debts x) = settle_tables x" "office_entries (wipe_debts x) = office_entries x"
    "audit_log (wipe_debts x) = audit_log x" "cash_entries (wipe_debts x) = cash_entries x"
    "boxes (wipe_debts x) = boxes x" for x :: "'a settle_db_scheme"
    by (simp_all add: wipe_debts_def settle_tables_def)
  show "settle_tables db' = settle_tables db" "office_entries db' = office_entries db" "audit_log db' = audit_log db"
    "cash_entries db' = cash_entries db" "boxes db' = boxes db"
    using w[of db] w[of db'] assms by simp_all
qed

end
