(* ===== verification/Cash_Settlement.thy ===== *)
theory Cash_Settlement
  imports Settlements_Table
begin

text \<open>
  What a merchant is owed in cash (\<open>orders/cash_settlement.go\<close>): the amount waits in the
  cash-holding wallet from the moment the goods leave the store until the office or the driver pays it,
  a debt takes its part of it, and a returned order takes it back. The lists of a merchant's
  settlements and the audit details are reduced to their figures; Begin and Commit are the result type.
\<close>

section \<open>Operations\<close>

definition ErrSettlementNotFound :: err where "ErrSettlementNotFound = AppError ''settlement_not_found''"
definition ErrSettlementNotCash :: err where "ErrSettlementNotCash = AppError ''settlement_not_cash''"
definition ErrSettlementNotPayable :: err where "ErrSettlementNotPayable = AppError ''settlement_not_payable''"

lemma settlement_errors_distinct [simp]:
  "ErrSettlementNotFound \<noteq> ErrSettlementNotCash" "ErrSettlementNotFound \<noteq> ErrSettlementNotPayable"
  "ErrSettlementNotCash \<noteq> ErrSettlementNotPayable" "ErrSettlementNotCash \<noteq> ErrSettlementNotFound"
  "ErrSettlementNotPayable \<noteq> ErrSettlementNotFound" "ErrSettlementNotPayable \<noteq> ErrSettlementNotCash"
  by (simp_all add: ErrSettlementNotFound_def ErrSettlementNotCash_def ErrSettlementNotPayable_def)

definition initialState :: "string \<Rightarrow> string" where
  "initialState meth = (if meth = ''wallet'' then ''wallet_credited'' else ''cash_due'')"

definition validateSettlement :: "string \<Rightarrow> string \<Rightarrow> string \<Rightarrow> int \<Rightarrow> 'a settle_db_scheme \<Rightarrow> err + unit" where
  "validateSettlement ord m meth due db =
    (case settlement_for db ord m of
       None \<Rightarrow> Inl ErrNoRows
     | Some s \<Rightarrow>
         if st_method s \<noteq> meth then Inl (ErrMsg ''XS-1 method'')
         else if st_amount s + st_adjusted s \<noteq> due then Inl (ErrMsg ''XS-1 amount'')
         else if st_method s = ''wallet'' then
           (if st_state s \<noteq> ''wallet_credited'' \<and> st_state s \<noteq> ''wallet_reversed'' then Inl (ErrMsg ''XS-1 wallet state'')
            else if st_state s = ''wallet_credited'' \<and> st_earning_tx s = None then Inl (ErrMsg ''XS-1 no earning'')
            else Inr ())
         else if st_method s = ''cash'' then
           (if st_state s \<notin> {''cash_due'', ''cash_paid'', ''cash_reversed''} then Inl (ErrMsg ''XS-1 cash state'')
            else if st_accrued_tx s = None then Inl (ErrMsg ''XS-1 no accrual'')
            else if st_state s = ''cash_paid'' \<and> st_paid_tx s = None then Inl (ErrMsg ''XS-1 no payment'')
            else Inr ())
         else Inl (ErrMsg ''XS-1 unknown method''))"

definition cashReversalNote :: "string \<Rightarrow> string" where
  "cashReversalNote cause =
    (if cause = ''debt_offset'' then ''earlier debt taken from cash due''
     else if cause = ''returned_goods'' then ''cash due reversed for returned goods''
     else ''cash due reversed for a refunded order'')"

text \<open>Zero is the answer of a reversal that posts nothing.\<close>

definition postCashReversal ::
  "string \<Rightarrow> user_id \<Rightarrow> int \<Rightarrow> string \<Rightarrow> string \<Rightarrow> string \<Rightarrow> user_id \<Rightarrow> 'a settle_db_scheme \<Rightarrow>
     err + int \<times> 'a settle_db_scheme" where
  "postCashReversal sid hid amount cause event ord actor db =
    (if amount \<le> 0 then Inr (0, db)
     else if list_ex (\<lambda>r. rv_settlement r = sid \<and> rv_event r = event) (reversals db) then Inr (0, db)
     else bindE (ApplyTxID hid (- amount) ''merchant_cash_accrued'' ord (cashReversalNote cause) (Some actor) db)
       (\<lambda>((_, tx), db).
        if settlement_of db sid = None then Inl ErrDb
        else bindE (update_settlement sid (\<lambda>s. s\<lparr>st_reversed := st_reversed s + amount,
               st_state := (if st_reversed s + amount \<ge> st_amount s then ''cash_reversed'' else st_state s)\<rparr>)
             (db\<lparr>reversals := reversals db @ [\<lparr>rv_settlement = sid, rv_tx = tx, rv_amount = amount,
               rv_cause = cause, rv_event = event\<rparr>]\<rparr>))
           (\<lambda>db. Inr (tx, db))))"

definition offsetMerchantDebtCash ::
  "string \<Rightarrow> string \<Rightarrow> user_id \<Rightarrow> int \<Rightarrow> string \<Rightarrow> user_id \<Rightarrow> 'a settle_db_scheme \<Rightarrow> err + 'a settle_db_scheme" where
  "offsetMerchantDebtCash sid m hid available ord actor db =
    (let debt = Debt db PartyMerchant m
     in if debt \<le> 0 then Inr db
        else let amt = (if available < debt then available else debt)
             in if amt \<le> 0 then Inr db
                else bindE (postCashReversal sid hid amt ''debt_offset'' (''debt:'' @ ord) ord actor db) (\<lambda>(tx, db).
                     if tx = 0 then Inr db
                     else bindE (SettleDebt PartyMerchant m amt ord tx (Some actor) db) (\<lambda>(applied, db).
                          if applied \<noteq> amt then Inl ErrMismatch else Inr db)))"

definition accrueCashSettlement ::
  "string \<Rightarrow> string \<Rightarrow> string \<Rightarrow> int \<Rightarrow> user_id \<Rightarrow> 'a settle_db_scheme \<Rightarrow> err + 'a settle_db_scheme" where
  "accrueCashSettlement sid ord m due actor db =
     bindE (cashHoldingOn db) (\<lambda>hid.
     bindE (ApplyTxID hid due ''merchant_cash_accrued'' ord ''cash due to the merchant'' (Some actor) db) (\<lambda>((_, tx), db).
     bindE (update_settlement sid (\<lambda>s. s\<lparr>st_accrued_tx := Some tx\<rparr>) db) (\<lambda>db.
     offsetMerchantDebtCash sid m hid due ord actor db)))"

definition st_outstanding :: "settlement \<Rightarrow> int" where
  "st_outstanding s = st_amount s + st_adjusted s - st_reversed s"

definition reverse_cash_row ::
  "string \<Rightarrow> user_id \<Rightarrow> user_id \<Rightarrow> settlement \<Rightarrow> 'a settle_db_scheme \<Rightarrow> err + 'a settle_db_scheme" where
  "reverse_cash_row ord hid actor s db =
    (if st_state s = ''cash_due'' then
       bindE (postCashReversal (st_id s) hid (st_outstanding s) ''refund_full'' (''refund:'' @ ord) ord actor db)
         (\<lambda>(_, db). Inr db)
     else if st_state s = ''cash_paid'' then
       (if st_outstanding s + st_waived s > 0
        then bindE (Create PartyMerchant (st_merchant s) (st_outstanding s + st_waived s) CauseRefundMerchant ord (Some actor) db)
               (\<lambda>(_, db). Inr db)
        else Inr db)
     else Inr db)"

definition reverseCashSettlements :: "string \<Rightarrow> user_id \<Rightarrow> 'a settle_db_scheme \<Rightarrow> err + 'a settle_db_scheme" where
  "reverseCashSettlements ord actor db =
    (let rows = [s \<leftarrow> settlements db. st_order s = ord \<and> st_method s = ''cash'']
     in if rows = [] then Inr db
        else bindE (cashHoldingOn db) (\<lambda>hid. foldE (reverse_cash_row ord hid actor) rows db))"

definition paidViaOffice :: string where "paidViaOffice = ''office''"
definition paidViaDriver :: string where "paidViaDriver = ''driver''"

text \<open>The owner of the merchant now; without one the payment stops.\<close>

definition payCashSettlement ::
  "string \<Rightarrow> string \<Rightarrow> string \<Rightarrow> int \<Rightarrow> user_id \<Rightarrow> string \<Rightarrow> string \<Rightarrow> string \<Rightarrow> 'a settle_db_scheme \<Rightarrow>
     err + user_id \<times> 'a settle_db_scheme" where
  "payCashSettlement sid ord m outstanding payer via txNote nt db =
     bindE (cashHoldingOn db) (\<lambda>hid.
     case merchant_of db m of
       None \<Rightarrow> Inl ErrNoRows
     | Some x \<Rightarrow> (case m_owner x of
         None \<Rightarrow> Inl ErrDb
       | Some owner \<Rightarrow>
           bindE (ApplyTxID hid (- outstanding) ''merchant_cash_paid'' ord txNote (Some payer) db) (\<lambda>((_, tx), db).
           bindE (update_settlement sid (\<lambda>s. s\<lparr>st_state := ''cash_paid'', st_paid_tx := Some tx, st_paid_by := Some payer,
                    st_paid_owner := Some owner, st_note := nt, st_paid_via := Some via\<rparr>) db) (\<lambda>db.
           Inr (owner, db)))))"

definition payCashByDriver ::
  "string \<Rightarrow> string \<Rightarrow> string \<Rightarrow> user_id \<Rightarrow> 'a settle_db_scheme \<Rightarrow> err + 'a settle_db_scheme" where
  "payCashByDriver sid ord m driver db =
    (case settlement_of db sid of
       None \<Rightarrow> Inl ErrNoRows
     | Some s \<Rightarrow>
         if st_state s \<noteq> ''cash_due'' \<or> st_amount s - st_reversed s \<le> 0 then Inr db
         else bindE (payCashSettlement sid ord m (st_amount s - st_reversed s) driver paidViaDriver
                ''cash due paid by the driver at pickup'' ''paid by the driver at pickup'' db) (\<lambda>(_, db). Inr db))"

text \<open>The amounts behind the payment entries of drivers, all of them and one driver's.\<close>

definition tx_amount_of :: "'a wallet_db_scheme \<Rightarrow> int option \<Rightarrow> int list" where
  "tx_amount_of db t = (case t of None \<Rightarrow> [] | Some i \<Rightarrow> map tx_amount [x \<leftarrow> wallet_txs db. tx_id x = i])"

definition driver_payments :: "string \<Rightarrow> 'a settle_db_scheme \<Rightarrow> (user_id option \<times> int) list" where
  "driver_payments ord db =
     concat (map (\<lambda>s. map (Pair (st_paid_by s)) (tx_amount_of db (st_paid_tx s)))
       [s \<leftarrow> settlements db. st_order s = ord \<and> st_paid_via s = Some paidViaDriver]) @
     concat (map (\<lambda>a. map (Pair (ad_paid_by a)) (tx_amount_of db (ad_paid_tx a)))
       [a \<leftarrow> adjustments db. ad_order a = ord \<and> ad_paid_via a = Some paidViaDriver])"

definition driverPaidFor :: "string \<Rightarrow> user_id \<Rightarrow> 'a settle_db_scheme \<Rightarrow> int \<times> int" where
  "driverPaidFor ord driver db =
    (let p = driver_payments ord db
     in (- sum_list (map snd p), - sum_list (map snd [x \<leftarrow> p. fst x = Some driver])))"

definition recordAdvanceReturn ::
  "string \<Rightarrow> user_id \<Rightarrow> int \<Rightarrow> user_id \<Rightarrow> 'a settle_db_scheme \<Rightarrow> err + 'a settle_db_scheme" where
  "recordAdvanceReturn ord driver amount actor db =
    (if amount \<le> 0 then Inr db
     else Record \<lparr>oe_direction = CashOut, oe_amount = amount, oe_source = SourceAdvanceReturn, oe_ref = ord,
            oe_user = driver, oe_actor = actor, oe_note = ''advance returned''\<rparr> db)"

definition collectAndReturnAdvance ::
  "string \<Rightarrow> user_id option \<Rightarrow> int \<Rightarrow> user_id \<Rightarrow> 'a settle_db_scheme \<Rightarrow> err + 'a settle_db_scheme" where
  "collectAndReturnAdvance ord driver cashDue actor db =
    (case driver of
       None \<Rightarrow> Inr db
     | Some d \<Rightarrow>
         let (all, mine) = driverPaidFor ord d db;
             collect = (if cashDue - mine < 0 then 0 else cashDue - mine)
         in bindE (if collect > 0 then CollectTx d collect ord (Some actor) db else Inr db) (\<lambda>db.
            recordAdvanceReturn ord d (collect - cashDue + all) actor db))"

record cash_paid_result =
  cr_settlement :: string
  cr_order :: string
  cr_merchant :: string
  cr_owner :: user_id
  cr_amount :: int
  cr_already :: bool

definition MarkCashSettlementPaid ::
  "string \<Rightarrow> user_id \<Rightarrow> string \<Rightarrow> 'a settle_db_scheme \<Rightarrow> err + cash_paid_result \<times> 'a settle_db_scheme" where
  "MarkCashSettlementPaid sid admin nt db =
    (case settlement_of db sid of
       None \<Rightarrow> Inl ErrSettlementNotFound
     | Some s \<Rightarrow>
         if st_method s \<noteq> ''cash'' then Inl ErrSettlementNotCash
         else let res = \<lparr>cr_settlement = sid, cr_order = st_order s, cr_merchant = st_merchant s, cr_owner = '''',
                cr_amount = st_amount s - st_reversed s, cr_already = False\<rparr>
         in if st_state s = ''cash_paid'' then
              Inr (res\<lparr>cr_owner := (case st_paid_owner s of None \<Rightarrow> '''' | Some u \<Rightarrow> u), cr_already := True\<rparr>, db)
            else if st_state s \<noteq> ''cash_due'' then Inl ErrSettlementNotPayable
            else if st_amount s - st_reversed s \<le> 0 then Inl ErrSettlementNotPayable
            else bindE (payCashSettlement sid (st_order s) (st_merchant s) (st_amount s - st_reversed s) admin
                   paidViaOffice ''cash due paid by the office'' nt db) (\<lambda>(owner, db).
                 bindE (Record \<lparr>oe_direction = CashOut, oe_amount = st_amount s - st_reversed s,
                   oe_source = SourceMerchantCashPaid, oe_ref = sid, oe_user = owner, oe_actor = admin,
                   oe_note = nt\<rparr> db) (\<lambda>db.
                 Inr (res\<lparr>cr_owner := owner\<rparr>, db\<lparr>audit_log := audit_log db @
                   [\<lparr>au_actor = admin, au_action = ''finance.merchant_cash_paid'', au_entity = st_merchant s,
                     au_amount = st_amount s - st_reversed s\<rparr>]\<rparr>))))"

text \<open>The list a merchant sees, newest first, and what is still due of it.\<close>

record cash_row =
  cw_settlement :: string
  cw_order :: string
  cw_amount :: int
  cw_reversed :: int
  cw_outstanding :: int
  cw_state :: string

definition MerchantCashSettlements :: "'a settle_db_scheme \<Rightarrow> string \<Rightarrow> int \<times> cash_row list" where
  "MerchantCashSettlements db m =
    (let rows = rev (sort_key st_created [s \<leftarrow> settlements db. st_merchant s = m \<and> st_method s = ''cash'']);
         out = map (\<lambda>s. \<lparr>cw_settlement = st_id s, cw_order = st_order s, cw_amount = st_amount s,
           cw_reversed = st_reversed s, cw_outstanding = st_amount s - st_reversed s, cw_state = st_state s\<rparr>) rows
     in (sum_list (map cw_outstanding [r \<leftarrow> out. cw_state r = ''cash_due'']), out))"

section \<open>The holding wallet explains what is due\<close>

definition due_of :: "settlement \<Rightarrow> int" where
  "due_of s = (if st_method s = ''cash'' \<and> st_state s = ''cash_due'' then st_outstanding s else 0)"

definition due_total :: "'a settle_db_scheme \<Rightarrow> int" where
  "due_total db = sum_list (map due_of (settlements db))"

definition rev_total :: "'a settle_db_scheme \<Rightarrow> string \<Rightarrow> int" where
  "rev_total db i = sum_list (map rv_amount [r \<leftarrow> reversals db. rv_settlement r = i])"

definition settlement_ok :: "settlement \<Rightarrow> bool" where
  "settlement_ok s \<longleftrightarrow> settlement_fits s \<and>
     (st_state s = ''cash_due'' \<longrightarrow> st_adjusted s = 0 \<and> st_waived s = 0 \<and> st_reversed s < st_amount s)"

definition rows_ok :: "'a settle_db_scheme \<Rightarrow> bool" where
  "rows_ok db \<longleftrightarrow>
     distinct (map st_id (settlements db)) \<and>
     (\<forall>s\<in>set (settlements db). settlement_ok s \<and> st_reversed s = rev_total db (st_id s) \<and>
        (\<exists>n<next_uuid db. st_id s = uuid n)) \<and>
     (\<forall>r\<in>set (reversals db). 0 < rv_amount r \<and> rv_settlement r \<in> st_id ` set (settlements db)) \<and>
     distinct (map (\<lambda>r. (rv_settlement r, rv_event r)) (reversals db))"

definition holding_gap :: "int \<Rightarrow> 'a settle_db_scheme \<Rightarrow> bool" where
  "holding_gap d db \<longleftrightarrow> (\<forall>h. cashHoldingOn db = Inr h \<longrightarrow> Balance db h + d = due_total db)"

definition settle_inv :: "'a settle_db_scheme \<Rightarrow> bool" where
  "settle_inv db \<longleftrightarrow> rows_ok db \<and> holding_gap 0 db"

lemma settlement_of_Some: "settlement_of db i = Some s \<Longrightarrow> s \<in> set (settlements db) \<and> st_id s = i"
  by (auto simp: settlement_of_def find_Some_iff)

lemma settlement_of_row:
  "distinct (map st_id (settlements db)) \<Longrightarrow> s \<in> set (settlements db) \<Longrightarrow> settlement_of db (st_id s) = Some s"
  using find_distinct_key[of st_id "settlements db" s "\<lambda>_. True"] by (simp add: settlement_of_def)

text \<open>What depends only on the settlement tables.\<close>

lemma settle_tables_inv:
  assumes "settle_tables db' = settle_tables db"
  shows "rows_ok db' = rows_ok db" and "due_total db' = due_total db" and "settlement_of db' = settlement_of db"
    and "rev_total db' = rev_total db" and "settlement_for db' = settlement_for db"
  using settle_tables_eqD[OF assms]
  by (simp_all add: rows_ok_def due_total_def settlement_of_def rev_total_def settlement_for_def fun_eq_iff)

lemma settle_tables_gap:
  assumes "settle_tables db' = settle_tables db" and "wallets db' = wallets db"
  shows "holding_gap d db' = holding_gap d db"
  using settle_tables_inv(2)[OF assms(1)] assms(2)
  by (simp add: holding_gap_def cashHoldingOn_def Balance_def wallet_of_def)

lemma wipe_wallets: "wipe_debts db' = wipe_debts db \<Longrightarrow> wallets db' = wallets db"
proof -
  assume "wipe_debts db' = wipe_debts db"
  then have "wallets (wipe_debts db') = wallets (wipe_debts db)" by simp
  then show ?thesis unfolding wipe_debts_def by simp
qed

lemma debts_settle_inv:
  assumes "wipe_debts db' = wipe_debts db"
  shows "rows_ok db' = rows_ok db" and "holding_gap d db' = holding_gap d db" and "settle_inv db' = settle_inv db"
    and "cashHoldingOn db' = cashHoldingOn db" and "settlement_of db' = settlement_of db"
  using settle_tables_inv[OF wipe_settle_tables(1)[OF assms]]
    settle_tables_gap[OF wipe_settle_tables(1)[OF assms] wipe_wallets[OF assms]]
    system_wallets_eq(2)[OF wipe_wallets[OF assms]]
  by (simp_all add: settle_inv_def)

text \<open>A posting moves the gap only on the holding wallet.\<close>

lemma applyTx_gap:
  fixes db :: "'a settle_db_scheme"
  assumes "applyTx u a kind ref nt actor db = Inr (r, db')" and "holding_gap d db"
  shows "rows_ok db' = rows_ok db" and "settlement_of db' = settlement_of db"
    and "cashHoldingOn db' = Inr u \<Longrightarrow> holding_gap (d - a) db'"
    and "cashHoldingOn db' \<noteq> Inr u \<Longrightarrow> holding_gap d db'"
proof -
  note tab = applyTx_settle_tables[OF assms(1)]
  show "rows_ok db' = rows_ok db" "settlement_of db' = settlement_of db"
    using settle_tables_inv[OF tab] by simp_all
  have due: "due_total db' = due_total db" by (rule settle_tables_inv(2)[OF tab])
  note sys = applyTx_system(2)[OF assms(1)]
  note bal = applyTx_available(2)[OF assms(1)]
  show "cashHoldingOn db' = Inr u \<Longrightarrow> holding_gap (d - a) db'"
    using assms(2) by (simp add: holding_gap_def due sys bal)
  show "cashHoldingOn db' \<noteq> Inr u \<Longrightarrow> holding_gap d db'"
    using assms(2) by (auto simp: holding_gap_def due sys bal)
qed

text \<open>Changing one row.\<close>

lemma update_settlement_effect:
  assumes "update_settlement i f db = Inr db'" and "settlement_of db i = Some s"
    and "distinct (map st_id (settlements db))" and "\<And>x. st_id (f x) = st_id x"
  shows "settlement_fits (f s)" and "due_total db' = due_total db + due_of (f s) - due_of s"
    and "map st_id (settlements db') = map st_id (settlements db)"
    and "set (settlements db') = insert (f s) (set (settlements db) - {s})"
    and "db' = db\<lparr>settlements := settlements db'\<rparr>"
    and "\<And>j. settlement_of db' j = (if j = i then Some (f s) else settlement_of db j)"
proof -
  from assms(1) have fits: "\<forall>x\<in>set (settlements db). st_id x = i \<longrightarrow> settlement_fits (f x)"
    and db': "db' = db\<lparr>settlements := map (\<lambda>s. if st_id s = i then f s else s) (settlements db)\<rparr>"
    by (auto simp: update_settlement_Inr)
  note s = settlement_of_Some[OF assms(2)]
  show "settlement_fits (f s)" using fits s by blast
  show "due_total db' = due_total db + due_of (f s) - due_of s"
    using sum_list_update_key[OF assms(3), of s due_of f] s by (simp add: due_total_def db')
  show ids: "map st_id (settlements db') = map st_id (settlements db)" using assms(4) by (simp add: db')
  have uniq: "x = s" if "x \<in> set (settlements db)" "st_id x = i" for x
    using assms(3) s that by (metis distinct_map inj_onD)
  show "set (settlements db') = insert (f s) (set (settlements db) - {s})"
  proof (rule set_eqI, rule iffI)
    fix y assume "y \<in> set (settlements db')"
    then obtain x where "x \<in> set (settlements db)" "y = (if st_id x = i then f x else x)" by (auto simp: db')
    then show "y \<in> insert (f s) (set (settlements db) - {s})" using uniq[of x] s by (cases "st_id x = i") auto
  next
    fix y assume "y \<in> insert (f s) (set (settlements db) - {s})"
    then consider "y = f s" | "y \<in> set (settlements db)" "y \<noteq> s" by blast
    then show "y \<in> set (settlements db')"
    proof cases
      case 1
      then have "y = (if st_id s = i then f s else s)" using s by simp
      then show ?thesis using s unfolding db' by (auto intro!: image_eqI[of _ _ s])
    next
      case 2
      with uniq[of y] have "st_id y \<noteq> i" by blast
      then have "y = (if st_id y = i then f y else y)" by simp
      then show ?thesis using 2(1) unfolding db' by (auto intro!: image_eqI[of _ _ y])
    qed
  qed
  show "db' = db\<lparr>settlements := settlements db'\<rparr>" by (simp add: db')
  show "settlement_of db' j = (if j = i then Some (f s) else settlement_of db j)" for j
  proof -
    have "find (\<lambda>s. st_id s = j) (map (\<lambda>s. if st_id s = i then f s else s) xs) =
        (if j = i then map_option f (find (\<lambda>s. st_id s = i) xs) else find (\<lambda>s. st_id s = j) xs)" for xs
      using assms(4) by (induction xs) auto
    then show ?thesis using assms(2) by (simp add: settlement_of_def db')
  qed
qed

lemma update_settlement_rows:
  assumes "update_settlement i f db = Inr db'" and "settlement_of db i = Some s" and "rows_ok db"
    and "\<And>x. st_id (f x) = st_id x" and "st_reversed (f s) = st_reversed s" and "settlement_ok (f s)"
  shows "rows_ok db'"
proof -
  have dist: "distinct (map st_id (settlements db))" using assms(3) by (simp add: rows_ok_def)
  note e = update_settlement_effect[OF assms(1,2) dist assms(4)]
  note s = settlement_of_Some[OF assms(2)]
  have rev: "rev_total db' = rev_total db" "reversals db' = reversals db" "next_uuid db' = next_uuid db"
    by (subst e(5), simp add: rev_total_def fun_eq_iff)+
  have ids: "st_id ` set (settlements db') = st_id ` set (settlements db)" using e(3) by (metis list.set_map)
  show ?thesis
    unfolding rows_ok_def rev ids e(3)
    using assms(3-6) s by (auto simp: rows_ok_def e(4))
qed

section \<open>Every operation keeps it so\<close>

definition reversed_row :: "int \<Rightarrow> settlement \<Rightarrow> settlement" where
  "reversed_row a s = s\<lparr>st_reversed := st_reversed s + a,
     st_state := (if st_reversed s + a \<ge> st_amount s then ''cash_reversed'' else st_state s)\<rparr>"

lemma postCashReversal_Inr:
  assumes "postCashReversal sid hid a cause event ord actor db = Inr (tx, db')" and "0 < a"
    and "\<not> list_ex (\<lambda>r. rv_settlement r = sid \<and> rv_event r = event) (reversals db)"
  obtains b db1 where "applyTx hid (- a) ''merchant_cash_accrued'' ord (cashReversalNote cause) (Some actor) db = Inr ((b, tx), db1)"
    and "settlement_of db1 sid \<noteq> None"
    and "update_settlement sid (reversed_row a)
      (db1\<lparr>reversals := reversals db1 @ [\<lparr>rv_settlement = sid, rv_tx = tx, rv_amount = a, rv_cause = cause, rv_event = event\<rparr>]\<rparr>)
      = Inr db'"
  using assms
  by (auto simp: postCashReversal_def result_simps ApplyTxID_def reversed_row_def[abs_def] split: if_splits prod.splits)

lemma postCashReversal_same:
  assumes "a \<le> 0 \<or> list_ex (\<lambda>r. rv_settlement r = sid \<and> rv_event r = event) (reversals db)"
  shows "postCashReversal sid hid a cause event ord actor db = Inr (0, db)"
  using assms by (auto simp: postCashReversal_def)

lemma postCashReversal_inv:
  fixes db :: "'a settle_db_scheme"
  assumes r: "postCashReversal sid hid a cause event ord actor db = Inr (tx, db')"
    and inv: "rows_ok db" "holding_gap d db" and hid: "cashHoldingOn db = Inr hid"
    and s: "settlement_of db sid = Some s" "st_method s = ''cash''" "st_state s = ''cash_due''"
    and a: "a \<le> st_amount s - st_reversed s"
  shows "rows_ok db'" and "holding_gap d db'" and "cashHoldingOn db' = Inr hid"
    and "\<And>j. j \<noteq> sid \<Longrightarrow> settlement_of db' j = settlement_of db j"
proof -
  have "rows_ok db' \<and> holding_gap d db' \<and> cashHoldingOn db' = Inr hid \<and>
      (\<forall>j. j \<noteq> sid \<longrightarrow> settlement_of db' j = settlement_of db j)"
  proof (cases "a \<le> 0 \<or> list_ex (\<lambda>r. rv_settlement r = sid \<and> rv_event r = event) (reversals db)")
    case True
    then show ?thesis using postCashReversal_same[of a sid event db hid cause ord actor] r inv hid by auto
  next
    case False
    then have pos: "0 < a" and fresh: "\<not> list_ex (\<lambda>r. rv_settlement r = sid \<and> rv_event r = event) (reversals db)"
      by auto
    obtain b db1 where p: "applyTx hid (- a) ''merchant_cash_accrued'' ord (cashReversalNote cause) (Some actor) db = Inr ((b, tx), db1)"
      and u: "update_settlement sid (reversed_row a)
        (db1\<lparr>reversals := reversals db1 @ [\<lparr>rv_settlement = sid, rv_tx = tx, rv_amount = a, rv_cause = cause, rv_event = event\<rparr>]\<rparr>)
        = Inr db'" (is "update_settlement sid _ ?db2 = _")
      by (rule postCashReversal_Inr[OF r pos fresh])
    note tab = applyTx_settle_tables[OF p]
    note teq = settle_tables_eqD[OF tab]
    have hid1: "cashHoldingOn db1 = Inr hid" using applyTx_system(2)[OF p] hid by simp
    have gap1: "holding_gap (d - - a) db1" by (rule applyTx_gap(3)[OF p inv(2) hid1])
    have rows1: "rows_ok db1" using applyTx_gap(1)[OF p inv(2)] inv(1) by simp
    have s1: "settlement_of ?db2 sid = Some s"
      using applyTx_gap(2)[OF p inv(2)] s(1) by (simp add: settlement_of_def fun_eq_iff)
    have dist: "distinct (map st_id (settlements ?db2))" using rows1 by (simp add: rows_ok_def)
    note e = update_settlement_effect[OF u s1 dist]
    have idf: "st_id (reversed_row a x) = st_id x" for x by (simp add: reversed_row_def)
    have sm: "s \<in> set (settlements db)" "st_id s = sid" using settlement_of_Some[OF s(1)] by simp_all
    have sok: "settlement_ok s" using inv(1) sm(1) by (simp add: rows_ok_def)
    then have adj: "st_adjusted s = 0" "st_waived s = 0" using s(3) by (simp_all add: settlement_ok_def)
    have due: "due_total db' = due_total db1 - a"
      using e(2)[OF idf] adj s(2,3) a
      by (auto simp: due_of_def reversed_row_def st_outstanding_def due_total_def)
    have db': "db' = ?db2\<lparr>settlements := settlements db'\<rparr>" by (rule e(5)[OF idf])
    have w: "wallets db' = wallets db1" "reversals db' = reversals ?db2" "next_uuid db' = next_uuid db1"
      by (subst db', simp)+
    have "Balance db' h = Balance db1 h" for h by (simp add: Balance_def wallet_of_def w(1))
    then have gap: "holding_gap d db'"
      using gap1 due system_wallets_eq(2)[OF w(1)] by (auto simp: holding_gap_def)
    have rev: "rev_total db' i = rev_total db1 i + (if i = sid then a else 0)" for i
      by (simp add: rev_total_def w(2))
    have ok: "settlement_ok (reversed_row a s)"
      using e(1)[OF idf] sok adj s(3) a pos by (auto simp: settlement_ok_def reversed_row_def)
    have rows: "rows_ok db'"
    proof -
      have ids: "map st_id (settlements db') = map st_id (settlements db1)" using e(3)[OF idf] by simp
      then have idset: "st_id ` set (settlements db') = st_id ` set (settlements db1)" by (metis list.set_map)
      have set': "set (settlements db') = insert (reversed_row a s) (set (settlements db1) - {s})" using e(4)[OF idf] by simp
      have other: "st_id x \<noteq> sid" if "x \<in> set (settlements db1) - {s}" for x
        using that sm teq(1) inv(1) by (auto simp: rows_ok_def distinct_map dest: inj_onD)
      have row: "settlement_ok x \<and> st_reversed x = rev_total db' (st_id x) \<and> (\<exists>n<next_uuid db'. st_id x = uuid n)"
        if "x \<in> set (settlements db')" for x
      proof (cases "x = reversed_row a s")
        case True
        with ok rows1 sm teq(1) show ?thesis by (auto simp: rows_ok_def rev w(3) reversed_row_def)
      next
        case False
        with that set' have x: "x \<in> set (settlements db1) - {s}" by blast
        with rows1 other[OF x] show ?thesis by (auto simp: rows_ok_def rev w(3))
      qed
      have "sid \<in> st_id ` set (settlements db1)" using sm teq(1) by auto
      then have revs: "\<forall>r\<in>set (reversals db'). 0 < rv_amount r \<and> rv_settlement r \<in> st_id ` set (settlements db')"
        using rows1 pos unfolding idset w(2) by (auto simp: rows_ok_def)
      have "distinct (map (\<lambda>r. (rv_settlement r, rv_event r)) (reversals db'))"
        using rows1 fresh teq(2) by (auto simp: rows_ok_def w(2) list_ex_iff)
      then show ?thesis unfolding rows_ok_def ids using rows1 row revs by (simp add: rows_ok_def)
    qed
    have "settlement_of db' j = settlement_of db j" if "j \<noteq> sid" for j
      using e(6)[OF idf, of j] that applyTx_gap(2)[OF p inv(2)] by (simp add: settlement_of_def fun_eq_iff)
    with rows gap hid1 w(1) show ?thesis by (simp add: cashHoldingOn_def)
  qed
  then show "rows_ok db'" and "holding_gap d db'" and "cashHoldingOn db' = Inr hid"
    and "\<And>j. j \<noteq> sid \<Longrightarrow> settlement_of db' j = settlement_of db j" by blast+
qed

lemma offsetMerchantDebtCash_inv:
  fixes db :: "'a settle_db_scheme"
  assumes r: "offsetMerchantDebtCash sid m hid available ord actor db = Inr db'"
    and inv: "rows_ok db" "holding_gap d db" and hid: "cashHoldingOn db = Inr hid"
    and s: "settlement_of db sid = Some s" "st_method s = ''cash''" "st_state s = ''cash_due''"
    and a: "available \<le> st_amount s - st_reversed s"
  shows "rows_ok db'" and "holding_gap d db'" and "\<And>j. j \<noteq> sid \<Longrightarrow> settlement_of db' j = settlement_of db j"
    and "cashHoldingOn db' = cashHoldingOn db"
proof -
  have "rows_ok db' \<and> holding_gap d db' \<and> (\<forall>j. j \<noteq> sid \<longrightarrow> settlement_of db' j = settlement_of db j) \<and>
      cashHoldingOn db' = Inr hid"
  proof (cases "db' = db")
    case False
    define amt where "amt = (if available < Debt db PartyMerchant m then available else Debt db PartyMerchant m)"
    have le: "amt \<le> st_amount s - st_reversed s" using a by (auto simp: amt_def)
    from False r obtain tx db1 where p: "postCashReversal sid hid amt ''debt_offset'' (''debt:'' @ ord) ord actor db = Inr (tx, db1)"
      and rest: "db' = db1 \<or> (\<exists>n. SettleDebt PartyMerchant m amt ord tx (Some actor) db1 = Inr (n, db'))"
      unfolding offsetMerchantDebtCash_def Let_def amt_def[symmetric]
      by (auto simp: result_simps split: if_splits)
    note pi = postCashReversal_inv[OF p inv hid s le]
    from rest have "db' = db1 \<or> wipe_debts db' = wipe_debts db1"
      by (auto simp: SettleDebt_def dest: SettleBy_wipe)
    then show ?thesis
    proof
      assume w: "wipe_debts db' = wipe_debts db1"
      from debts_settle_inv[OF w] pi show ?thesis by auto
    qed (use pi in auto)
  qed (use inv hid in simp)
  then show "rows_ok db'" and "holding_gap d db'" and "\<And>j. j \<noteq> sid \<Longrightarrow> settlement_of db' j = settlement_of db j"
    and "cashHoldingOn db' = cashHoldingOn db" using hid by auto
qed

text \<open>Accruing fills the gap that the new row opened.\<close>

lemma accrueCashSettlement_inv:
  fixes db :: "'a settle_db_scheme"
  assumes r: "accrueCashSettlement sid ord m due actor db = Inr db'"
    and inv: "rows_ok db" "holding_gap due db"
    and s: "settlement_of db sid = Some s" "st_method s = ''cash''" "st_state s = ''cash_due''"
    and a: "due \<le> st_amount s - st_reversed s"
  shows "settle_inv db'" and "\<And>j. j \<noteq> sid \<Longrightarrow> settlement_of db' j = settlement_of db j"
    and "cashHoldingOn db' = cashHoldingOn db"
proof -
  from r obtain hid b tx db1 db2 where hid: "cashHoldingOn db = Inr hid"
    and p: "applyTx hid due ''merchant_cash_accrued'' ord ''cash due to the merchant'' (Some actor) db = Inr ((b, tx), db1)"
    and u: "update_settlement sid (\<lambda>s. s\<lparr>st_accrued_tx := Some tx\<rparr>) db1 = Inr db2"
    and o: "offsetMerchantDebtCash sid m hid due ord actor db2 = Inr db'"
    by (auto simp: accrueCashSettlement_def result_simps ApplyTxID_def split: prod.splits)
  have hid1: "cashHoldingOn db1 = Inr hid" using applyTx_system(2)[OF p] hid by simp
  note g = applyTx_gap[OF p inv(2)]
  have rows1: "rows_ok db1" and gap1: "holding_gap 0 db1" using g(1) inv(1) g(3)[OF hid1] by simp_all
  have s1: "settlement_of db1 sid = Some s" using g(2) s(1) by simp
  have dist: "distinct (map st_id (settlements db1))" using rows1 by (simp add: rows_ok_def)
  note e = update_settlement_effect[OF u s1 dist, simplified]
  have sok: "settlement_ok s" using inv(1) settlement_of_Some[OF s(1)] by (auto simp: rows_ok_def)
  then have ok: "settlement_ok (s\<lparr>st_accrued_tx := Some tx\<rparr>)" by (simp add: settlement_ok_def settlement_fits_def)
  have rows2: "rows_ok db2" by (rule update_settlement_rows[OF u s1 rows1]) (use ok in simp_all)
  have w: "wallets db2 = wallets db1" by (subst e(5), simp)
  have "due_total db2 = due_total db1" using e(2) by (simp add: due_of_def st_outstanding_def)
  moreover have "Balance db2 h = Balance db1 h" for h by (simp add: Balance_def wallet_of_def w)
  ultimately have gap2: "holding_gap 0 db2" using gap1 system_wallets_eq(2)[OF w] by (simp add: holding_gap_def)
  have hid2: "cashHoldingOn db2 = Inr hid" using hid1 system_wallets_eq(2)[OF w] by simp
  have s2: "settlement_of db2 sid = Some (s\<lparr>st_accrued_tx := Some tx\<rparr>)" using e(6) by simp
  note oi = offsetMerchantDebtCash_inv[OF o rows2 gap2 hid2 s2, simplified, OF s(2,3) a]
  show "settle_inv db'" using oi(1,2) by (simp add: settle_inv_def)
  show "\<And>j. j \<noteq> sid \<Longrightarrow> settlement_of db' j = settlement_of db j" using oi(3) e(6) g(2) by simp
  show "cashHoldingOn db' = cashHoldingOn db" using oi(4) hid hid2 by simp
qed

lemma payCashSettlement_inv:
  fixes db :: "'a settle_db_scheme"
  assumes r: "payCashSettlement sid ord m x payer via txNote nt db = Inr (owner, db')"
    and inv: "settle_inv db"
    and s: "settlement_of db sid = Some s" "st_method s = ''cash''" "st_state s = ''cash_due''"
    and a: "x = st_amount s - st_reversed s"
  shows "settle_inv db'" and "\<And>j. j \<noteq> sid \<Longrightarrow> settlement_of db' j = settlement_of db j"
    and "\<exists>tx. settlement_of db' sid = Some (s\<lparr>st_state := ''cash_paid'', st_paid_tx := Some tx, st_paid_by := Some payer,
           st_paid_owner := Some owner, st_note := nt, st_paid_via := Some via\<rparr>)"
    and "cashHoldingOn db' = cashHoldingOn db"
    and "Balance db' u = Balance db u - (if cashHoldingOn db = Inr u then x else 0)"
proof -
  from r obtain hid b tx db1 where hid: "cashHoldingOn db = Inr hid"
    and p: "applyTx hid (- x) ''merchant_cash_paid'' ord txNote (Some payer) db = Inr ((b, tx), db1)"
    and u: "update_settlement sid (\<lambda>s. s\<lparr>st_state := ''cash_paid'', st_paid_tx := Some tx, st_paid_by := Some payer,
                    st_paid_owner := Some owner, st_note := nt, st_paid_via := Some via\<rparr>) db1 = Inr db'"
  proof -
    from r obtain y o' where "merchant_of db m = Some y" "m_owner y = Some o'"
      by (cases "merchant_of db m"; cases "m_owner (the (merchant_of db m))") (auto simp: payCashSettlement_def result_simps)
    with r that show thesis by (auto simp: payCashSettlement_def result_simps ApplyTxID_def split: prod.splits)
  qed
  have hid1: "cashHoldingOn db1 = Inr hid" using applyTx_system(2)[OF p] hid by simp
  have inv': "rows_ok db" "holding_gap 0 db" using inv by (simp_all add: settle_inv_def)
  note g = applyTx_gap[OF p inv'(2)]
  have rows1: "rows_ok db1" and gap1: "holding_gap x db1" using g(1) inv'(1) g(3)[OF hid1] by simp_all
  have s1: "settlement_of db1 sid = Some s" using g(2) s(1) by simp
  have dist: "distinct (map st_id (settlements db1))" using rows1 by (simp add: rows_ok_def)
  note e = update_settlement_effect[OF u s1 dist, simplified]
  have sok: "settlement_ok s" using inv'(1) settlement_of_Some[OF s(1)] by (auto simp: rows_ok_def)
  then have adj: "st_adjusted s = 0" "st_waived s = 0" using s(3) by (simp_all add: settlement_ok_def)
  have rows: "rows_ok db'"
    by (rule update_settlement_rows[OF u s1 rows1]) (use e(1) in \<open>simp_all add: settlement_ok_def\<close>)
  have w: "wallets db' = wallets db1" by (subst e(5), simp)
  have "due_total db' = due_total db1 - x" using e(2) s(2,3) a adj by (simp add: due_of_def st_outstanding_def)
  moreover have "Balance db' h = Balance db1 h" for h by (simp add: Balance_def wallet_of_def w)
  ultimately have "holding_gap 0 db'" using gap1 system_wallets_eq(2)[OF w] by (auto simp: holding_gap_def)
  with rows show "settle_inv db'" by (simp add: settle_inv_def)
  show "Balance db' u = Balance db u - (if cashHoldingOn db = Inr u then x else 0)"
    using applyTx_available(2)[OF p, of u] hid by (auto simp: Balance_def wallet_of_def w)
  show "\<And>j. j \<noteq> sid \<Longrightarrow> settlement_of db' j = settlement_of db j" using e(6) g(2) by simp
  show "\<exists>tx. settlement_of db' sid = Some (s\<lparr>st_state := ''cash_paid'', st_paid_tx := Some tx, st_paid_by := Some payer,
           st_paid_owner := Some owner, st_note := nt, st_paid_via := Some via\<rparr>)" using e(6) by auto
  show "cashHoldingOn db' = cashHoldingOn db" using hid hid1 system_wallets_eq(2)[OF w] by simp
qed

lemma payCashByDriver_inv:
  fixes db :: "'a settle_db_scheme"
  assumes r: "payCashByDriver sid ord m driver db = Inr db'" and inv: "settle_inv db"
    and cash: "\<And>s. settlement_of db sid = Some s \<Longrightarrow> st_method s = ''cash''"
  shows "settle_inv db'" and "cashHoldingOn db' = cashHoldingOn db"
    and "\<And>j. j \<noteq> sid \<Longrightarrow> settlement_of db' j = settlement_of db j"
proof -
  from r obtain s where s: "settlement_of db sid = Some s" by (auto simp: payCashByDriver_def split: option.splits)
  have "settle_inv db' \<and> cashHoldingOn db' = cashHoldingOn db \<and>
      (\<forall>j. j \<noteq> sid \<longrightarrow> settlement_of db' j = settlement_of db j)"
  proof (cases "st_state s \<noteq> ''cash_due'' \<or> st_amount s - st_reversed s \<le> 0")
    case True
    with r s inv show ?thesis by (auto simp: payCashByDriver_def)
  next
    case False
    with r s obtain owner where p: "payCashSettlement sid ord m (st_amount s - st_reversed s) driver paidViaDriver
        ''cash due paid by the driver at pickup'' ''paid by the driver at pickup'' db = Inr (owner, db')"
      by (auto simp: payCashByDriver_def result_simps split: prod.splits)
    show ?thesis using payCashSettlement_inv[OF p inv s cash[OF s]] False by simp
  qed
  then show "settle_inv db'" and "cashHoldingOn db' = cashHoldingOn db"
    and "\<And>j. j \<noteq> sid \<Longrightarrow> settlement_of db' j = settlement_of db j" by blast+
qed

lemma reverse_cash_row_inv:
  fixes db :: "'a settle_db_scheme"
  assumes r: "reverse_cash_row ord hid actor s db = Inr db'" and inv: "settle_inv db"
    and hid: "cashHoldingOn db = Inr hid"
    and s: "settlement_of db (st_id s) = Some s" "st_method s = ''cash''"
  shows "settle_inv db' \<and> cashHoldingOn db' = Inr hid \<and>
    (\<forall>j. j \<noteq> st_id s \<longrightarrow> settlement_of db' j = settlement_of db j)"
proof -
  have inv': "rows_ok db" "holding_gap 0 db" using inv by (simp_all add: settle_inv_def)
  have sok: "settlement_ok s" using inv'(1) settlement_of_Some[OF s(1)] by (auto simp: rows_ok_def)
  consider "st_state s = ''cash_due''" | "st_state s = ''cash_paid''" | "st_state s \<noteq> ''cash_due''" "st_state s \<noteq> ''cash_paid''"
    by blast
  then show ?thesis
  proof cases
    case 1
    with sok have le: "st_outstanding s \<le> st_amount s - st_reversed s" by (simp add: settlement_ok_def st_outstanding_def)
    from r 1 obtain tx where "postCashReversal (st_id s) hid (st_outstanding s) ''refund_full'' (''refund:'' @ ord) ord actor db = Inr (tx, db')"
      by (auto simp: reverse_cash_row_def result_simps)
    from postCashReversal_inv[OF this inv' hid s 1 le] show ?thesis by (simp add: settle_inv_def)
  next
    case 2
    with r have "db' = db \<or> wipe_debts db' = wipe_debts db"
      by (auto simp: reverse_cash_row_def result_simps Create_def split: if_splits dest: CreateRef_wipe)
    then show ?thesis using inv hid debts_settle_inv[of db' db] by auto
  qed (use r inv hid in \<open>simp add: reverse_cash_row_def\<close>)
qed

lemma reverseCashSettlements_inv:
  fixes db :: "'a settle_db_scheme"
  assumes r: "reverseCashSettlements ord actor db = Inr db'" and inv: "settle_inv db"
  shows "settle_inv db'"
proof (cases "[s \<leftarrow> settlements db. st_order s = ord \<and> st_method s = ''cash''] = []")
  case True
  with r inv show ?thesis by (simp add: reverseCashSettlements_def)
next
  case False
  with r obtain hid where hid: "cashHoldingOn db = Inr hid"
    and f: "foldE (reverse_cash_row ord hid actor) [s \<leftarrow> settlements db. st_order s = ord \<and> st_method s = ''cash''] db = Inr db'"
    by (auto simp: reverseCashSettlements_def result_simps)
  have dist: "distinct (map st_id (settlements db))" using inv by (simp add: settle_inv_def rows_ok_def)
  have run: "foldE (reverse_cash_row ord hid actor) rows d = Inr db' \<Longrightarrow> settle_inv d \<Longrightarrow> cashHoldingOn d = Inr hid \<Longrightarrow>
      distinct (map st_id rows) \<Longrightarrow> \<forall>s\<in>set rows. settlement_of d (st_id s) = Some s \<and> st_method s = ''cash'' \<Longrightarrow> settle_inv db'"
    for rows and d :: "'a settle_db_scheme"
  proof (induction rows arbitrary: d)
    case (Cons s rows)
    then obtain d1 where step: "reverse_cash_row ord hid actor s d = Inr d1"
      and rest: "foldE (reverse_cash_row ord hid actor) rows d1 = Inr db'" by (auto simp: result_simps)
    have "settle_inv d1 \<and> cashHoldingOn d1 = Inr hid \<and> (\<forall>j. j \<noteq> st_id s \<longrightarrow> settlement_of d1 j = settlement_of d j)"
      using reverse_cash_row_inv[OF step Cons.prems(2,3)] Cons.prems(5) by simp
    moreover have "st_id x \<noteq> st_id s" if "x \<in> set rows" for x using Cons.prems(4) that by (metis distinct.simps(2) image_eqI list.map(2) list.set_map)
    ultimately show ?case using Cons.IH[OF rest] Cons.prems(4,5) by auto
  qed simp
  show ?thesis
  proof (rule run[OF f inv hid])
    show "distinct (map st_id [s \<leftarrow> settlements db. st_order s = ord \<and> st_method s = ''cash''])"
      using dist by (rule distinct_map_filter)
    show "\<forall>s\<in>set [s \<leftarrow> settlements db. st_order s = ord \<and> st_method s = ''cash'']. settlement_of db (st_id s) = Some s \<and> st_method s = ''cash''"
      using settlement_of_row[OF dist] by auto
  qed
qed

text \<open>The drawer and the audit log are not read by the invariant.\<close>

lemma drawer_settle_inv:
  "settle_inv (db\<lparr>office_entries := es\<rparr>) = settle_inv db" "settle_inv (db\<lparr>audit_log := au\<rparr>) = settle_inv db"
  "cashHoldingOn (db\<lparr>office_entries := es\<rparr>) = cashHoldingOn db" "cashHoldingOn (db\<lparr>audit_log := au\<rparr>) = cashHoldingOn db"
  "settlement_of (db\<lparr>office_entries := es\<rparr>) = settlement_of db" "settlement_of (db\<lparr>audit_log := au\<rparr>) = settlement_of db"
  by (simp_all add: settle_inv_def rows_ok_def holding_gap_def due_total_def rev_total_def[abs_def] cashHoldingOn_def
      Balance_def wallet_of_def settlement_of_def fun_eq_iff)

lemma MarkCashSettlementPaid_inv:
  fixes db :: "'a settle_db_scheme"
  assumes r: "MarkCashSettlementPaid sid admin nt db = Inr (res, db')" and inv: "settle_inv db"
  shows "settle_inv db'" and "cr_already res \<Longrightarrow> db' = db"
    and "\<not> cr_already res \<Longrightarrow> \<exists>s. settlement_of db sid = Some s \<and> st_method s = ''cash'' \<and> st_state s = ''cash_due'' \<and>
           0 < st_amount s - st_reversed s \<and> cr_amount res = st_amount s - st_reversed s \<and>
           (\<exists>tx. settlement_of db' sid = Some (s\<lparr>st_state := ''cash_paid'', st_paid_tx := Some tx, st_paid_by := Some admin,
             st_paid_owner := Some (cr_owner res), st_note := nt, st_paid_via := Some paidViaOffice\<rparr>)) \<and>
           (\<forall>u. Balance db' u = Balance db u - (if cashHoldingOn db = Inr u then cr_amount res else 0)) \<and>
           (\<exists>e\<in>set (office_entries db'). oe_source e = SourceMerchantCashPaid \<and> oe_ref e = sid)"
    and "cr_settlement res = sid" and "\<exists>s. settlement_of db sid = Some s \<and> cr_order res = st_order s \<and> cr_merchant res = st_merchant s"
proof -
  from r obtain s where s: "settlement_of db sid = Some s" and cash: "st_method s = ''cash''"
    by (auto simp: MarkCashSettlementPaid_def split: option.splits if_splits)
  have "settle_inv db' \<and> (cr_already res \<longrightarrow> db' = db) \<and> (\<not> cr_already res \<longrightarrow> st_state s = ''cash_due'' \<and>
      0 < st_amount s - st_reversed s \<and> cr_amount res = st_amount s - st_reversed s \<and>
      (\<exists>tx. settlement_of db' sid = Some (s\<lparr>st_state := ''cash_paid'', st_paid_tx := Some tx, st_paid_by := Some admin,
             st_paid_owner := Some (cr_owner res), st_note := nt, st_paid_via := Some paidViaOffice\<rparr>)) \<and>
      (\<forall>u. Balance db' u = Balance db u - (if cashHoldingOn db = Inr u then cr_amount res else 0)) \<and>
      (\<exists>e\<in>set (office_entries db'). oe_source e = SourceMerchantCashPaid \<and> oe_ref e = sid)) \<and>
      cr_settlement res = sid \<and> cr_order res = st_order s \<and> cr_merchant res = st_merchant s"
  proof (cases "st_state s = ''cash_paid''")
    case True
    with r s cash inv show ?thesis by (auto simp: MarkCashSettlementPaid_def)
  next
    case False
    with r s cash have due: "st_state s = ''cash_due''" "0 < st_amount s - st_reversed s"
      by (auto simp: MarkCashSettlementPaid_def Let_def split: if_splits)
    with r s cash obtain owner db1 db2 where p: "payCashSettlement sid (st_order s) (st_merchant s) (st_amount s - st_reversed s) admin
          paidViaOffice ''cash due paid by the office'' nt db = Inr (owner, db1)"
      and o: "Record \<lparr>oe_direction = CashOut, oe_amount = st_amount s - st_reversed s, oe_source = SourceMerchantCashPaid,
          oe_ref = sid, oe_user = owner, oe_actor = admin, oe_note = nt\<rparr> db1 = Inr db2"
      and res: "cr_owner res = owner" "cr_amount res = st_amount s - st_reversed s" "\<not> cr_already res"
        "cr_settlement res = sid" "cr_order res = st_order s" "cr_merchant res = st_merchant s"
      and db': "db' = db2\<lparr>audit_log := audit_log db2 @ [\<lparr>au_actor = admin, au_action = ''finance.merchant_cash_paid'',
          au_entity = st_merchant s, au_amount = st_amount s - st_reversed s\<rparr>]\<rparr>"
      by (auto simp: MarkCashSettlementPaid_def Let_def result_simps)
    obtain es where db2: "db2 = db1\<lparr>office_entries := es\<rparr>" using Record_Inr(6)[OF o] by blast
    note pi = payCashSettlement_inv[OF p inv s cash due(1) refl]
    have known: "\<exists>e\<in>set (office_entries db'). oe_source e = SourceMerchantCashPaid \<and> oe_ref e = sid"
      using Record_Inr(1)[OF o] by (auto simp: db' entry_known_def list_ex_iff)
    have "Balance db' u = Balance db1 u" for u by (simp add: db' db2 Balance_def wallet_of_def)
    with pi(5) known show ?thesis unfolding db' db2 drawer_settle_inv using pi(1,3) due res by simp
  qed
  with s cash show "settle_inv db'" and "cr_already res \<Longrightarrow> db' = db"
    and "\<not> cr_already res \<Longrightarrow> \<exists>s. settlement_of db sid = Some s \<and> st_method s = ''cash'' \<and> st_state s = ''cash_due'' \<and>
           0 < st_amount s - st_reversed s \<and> cr_amount res = st_amount s - st_reversed s \<and>
           (\<exists>tx. settlement_of db' sid = Some (s\<lparr>st_state := ''cash_paid'', st_paid_tx := Some tx, st_paid_by := Some admin,
             st_paid_owner := Some (cr_owner res), st_note := nt, st_paid_via := Some paidViaOffice\<rparr>)) \<and>
           (\<forall>u. Balance db' u = Balance db u - (if cashHoldingOn db = Inr u then cr_amount res else 0)) \<and>
           (\<exists>e\<in>set (office_entries db'). oe_source e = SourceMerchantCashPaid \<and> oe_ref e = sid)"
    and "cr_settlement res = sid" and "\<exists>s. settlement_of db sid = Some s \<and> cr_order res = st_order s \<and> cr_merchant res = st_merchant s"
    by blast+
qed

text \<open>What the operation answers for a row already paid.\<close>

lemma MarkCashSettlementPaid_paid:
  assumes "settlement_of db sid = Some s" and "st_method s = ''cash''" and "st_state s = ''cash_paid''"
  shows "MarkCashSettlementPaid sid admin nt db = Inr (\<lparr>cr_settlement = sid, cr_order = st_order s,
    cr_merchant = st_merchant s, cr_owner = (case st_paid_owner s of None \<Rightarrow> '''' | Some u \<Rightarrow> u),
    cr_amount = st_amount s - st_reversed s, cr_already = True\<rparr>, db)"
  using assms by (simp add: MarkCashSettlementPaid_def)

section \<open>Properties\<close>

definition example_settle_db :: settle_db where
  "example_settle_db = office_db.extend (obligations_db.extend (example_credit_db\<lparr>
       wallets := wallets example_credit_db @ [(''h'', zero_wallet\<lparr>w_cash_holding := True, w_balance := 900\<rparr>)],
       users := map (\<lambda>i. example_driver\<lparr>u_id := i\<rparr>) [''a'', ''d'', ''h'']\<rparr>) \<lparr>office_entries = []\<rparr>)
     \<lparr>settlements = [\<lparr>st_id = uuid 0, st_order = ''o1'', st_merchant = ''m'', st_owner = ''a'', st_method = ''cash'',
        st_amount = 1000, st_adjusted = 0, st_reversed = 100, st_state = ''cash_due'', st_pct = Some 0, st_waived = 0,
        st_earning_tx = None, st_accrued_tx = Some 0, st_paid_tx = None, st_paid_by = None, st_paid_owner = None,
        st_paid_via = None, st_note = [], st_created = 1\<rparr>],
      reversals = [\<lparr>rv_settlement = uuid 0, rv_tx = 0, rv_amount = 100, rv_cause = ''debt_offset'', rv_event = ''debt:o1''\<rparr>],
      adjustments = [], order_items = [], audit_log = [], next_uuid = 1\<rparr>"

lemma example_settle_inv: "settle_inv example_settle_db"
  by (simp add: settle_inv_def rows_ok_def holding_gap_def due_total_def due_of_def rev_total_def settlement_ok_def
      settlement_fits_def method_state_ok_def st_outstanding_def cashHoldingOn_def Balance_def wallet_of_def in64_def
      zero_wallet_def example_settle_db_def example_credit_db_def example_debt_db_def uuid_def
      obligations_db.defs office_db.defs)

text \<open>
  C15. The office pays a merchant's cash once: what it pays is exactly what was due on the row, the
  holding wallet gives exactly that and no other wallet moves, and the drawer has the payment; asked
  again, by anyone, the operation changes nothing and answers the same figures as already paid.
\<close>

theorem cash_paid_once:
  fixes db :: "'a settle_db_scheme"
  assumes "settle_inv db" and "MarkCashSettlementPaid sid admin nt db = Inr (res, db')"
  shows "MarkCashSettlementPaid sid admin2 nt2 db' = Inr (res\<lparr>cr_already := True\<rparr>, db') \<and>
    (if cr_already res then db' = db
     else 0 < cr_amount res \<and> map_option st_outstanding (settlement_of db sid) = Some (cr_amount res) \<and>
       (\<forall>u. Balance db' u = Balance db u - (if cashHoldingOn db = Inr u then cr_amount res else 0)) \<and>
       (\<exists>e\<in>set (office_entries db'). oe_source e = SourceMerchantCashPaid \<and> oe_ref e = sid))"
proof (cases "cr_already res")
  case True
  from assms(2) obtain s where s: "settlement_of db sid = Some s" "st_method s = ''cash''"
    by (auto simp: MarkCashSettlementPaid_def split: option.splits if_splits)
  with True assms(2) have paid: "st_state s = ''cash_paid''"
    by (auto simp: MarkCashSettlementPaid_def Let_def result_simps split: if_splits)
  have "res\<lparr>cr_already := True\<rparr> = res" using True by simp
  moreover have "db' = db" by (rule MarkCashSettlementPaid_inv(2)[OF assms(2,1) True])
  moreover have "MarkCashSettlementPaid sid admin2 nt2 db = Inr (res, db)"
    using MarkCashSettlementPaid_paid[OF s paid] assms(2) \<open>db' = db\<close> by (metis Pair_inject sum.inject(2))
  ultimately show ?thesis using True by simp
next
  case False
  note m = MarkCashSettlementPaid_inv[OF assms(2,1)]
  from m(3)[OF False] obtain s tx where s: "settlement_of db sid = Some s" "st_method s = ''cash''" "st_state s = ''cash_due''"
    and amt: "0 < st_amount s - st_reversed s" "cr_amount res = st_amount s - st_reversed s"
    and s': "settlement_of db' sid = Some (s\<lparr>st_state := ''cash_paid'', st_paid_tx := Some tx, st_paid_by := Some admin,
             st_paid_owner := Some (cr_owner res), st_note := nt, st_paid_via := Some paidViaOffice\<rparr>)" (is "_ = Some ?s'")
    by blast
  from m(5) s(1) have res: "cr_order res = st_order s" "cr_merchant res = st_merchant s" by auto
  have "settlement_ok s" using assms(1) settlement_of_Some[OF s(1)] by (auto simp: settle_inv_def rows_ok_def)
  then have out: "st_outstanding s = cr_amount res" using s(3) amt by (simp add: settlement_ok_def st_outstanding_def)
  have "MarkCashSettlementPaid sid admin2 nt2 db' = Inr (res\<lparr>cr_already := True\<rparr>, db')"
    using MarkCashSettlementPaid_paid[OF s', of admin2 nt2] s(2) amt res m(4) by simp
  with False m(3)[OF False] out amt s(1) show ?thesis by simp
qed

lemma cash_paid_once_witness:
  "\<exists>db res. MarkCashSettlementPaid (uuid 0) ''d'' '''' example_settle_db = Inr (res, db) \<and> cr_amount res = 900 \<and>
     Balance db ''h'' = 0 \<and>
     MarkCashSettlementPaid (uuid 0) ''a'' ''again'' db = Inr (res\<lparr>cr_already := True\<rparr>, db)"
proof -
  let ?r = "MarkCashSettlementPaid (uuid 0) ''d'' '''' example_settle_db"
  have "(case ?r of Inl _ \<Rightarrow> False | Inr (res, db) \<Rightarrow> cr_amount res = 900 \<and> Balance db ''h'' = 0)" by code_simp
  then obtain res db where r: "?r = Inr (res, db)" "cr_amount res = 900" "Balance db ''h'' = 0"
    by (auto split: sum.splits)
  with cash_paid_once[OF example_settle_inv r(1), of "''a''" "''again''"] show ?thesis by blast
qed

end
