(* ===== verification/Treasury.thy ===== *)
theory Treasury
  imports Cash_Settlement
begin

text \<open>
  The platform's own wallet (\<open>orders/treasury.go\<close>): after every settlement of an order its
  share is computed again from what the customer paid and what the ledger says was given to others,
  and only the difference is posted. Sums are exact (the database adds in \<open>numeric\<close>); a posting
  outside 64 bits is refused by the wallet.
\<close>

section \<open>Operations\<close>

text \<open>The sum of an order's ledger rows of some kinds.\<close>

definition tx_sum :: "'a wallet_db_scheme \<Rightarrow> string \<Rightarrow> string list \<Rightarrow> int" where
  "tx_sum db r ks = sum_list (map tx_amount [t \<leftarrow> wallet_txs db. tx_ref t = r \<and> tx_kind t \<in> set ks])"

definition party_kinds :: "string list" where
  "party_kinds = [''merchant_earning'', ''driver_earning'', ''commission'', ''merchant_cash_accrued'', ''custom_goods_return'']"

definition collected_at_door :: "'a cash_db_scheme \<Rightarrow> string \<Rightarrow> int" where
  "collected_at_door db r =
     sum_list (map ce_amount [e \<leftarrow> cash_entries db. ce_ref e = r \<and> ce_kind e \<in> {''order_collection'', ''recipient_cash_returned''}])"

definition courier_goods :: "order \<Rightarrow> int" where
  "courier_goods x =
    (if o_kind x = KindCustom \<and> o_custom_mode x = ''purchase''
     then (case o_custom_store_paid x of Some v \<Rightarrow> v | None \<Rightarrow> (case o_custom_goods x of Some v \<Rightarrow> v | None \<Rightarrow> 0))
     else 0)"

definition lost_goods :: "order \<Rightarrow> int" where
  "lost_goods x =
    (if o_kind x = KindCustom \<and> o_custom_mode x = ''purchase'' \<and> o_status x \<in> {StFailed, StCancelled, StRejected}
     then (case o_custom_store_paid x of Some v \<Rightarrow> v | None \<Rightarrow> 0) else 0)"

definition order_paid :: "'a cash_db_scheme \<Rightarrow> order \<Rightarrow> int" where
  "order_paid db x =
    (let walletPaid = (if [t \<leftarrow> wallet_txs db. tx_ref t = o_id x \<and> tx_kind t = ''order_payment''] = [] then o_wallet_paid x
                       else - tx_sum db (o_id x) [''order_payment'']);
         paid = walletPaid + (if o_status x \<in> {StDelivered, StRefunded} then o_cash_due x else 0);
         paid = (if o_kind x = KindMerchantDelivery then walletPaid + collected_at_door db (o_id x) else paid);
         paid = (if courier_goods x > 0 \<and> paid > 0 \<and> lost_goods x = 0 then paid - min (courier_goods x) paid else paid)
     in paid - lost_goods x)"

definition creditTreasury :: "string \<Rightarrow> user_id \<Rightarrow> 'a cash_db_scheme \<Rightarrow> err + 'a cash_db_scheme" where
  "creditTreasury ord actor db =
    (let tid = treasuryOn db
     in if tid = '''' then Inr db
        else case order_of db ord of
          None \<Rightarrow> Inl ErrNoRows
        | Some x \<Rightarrow>
            let delta = order_paid db x - tx_sum db ord [''refund''] - tx_sum db ord party_kinds - tx_sum db ord [''platform_profit'']
            in if delta = 0 then Inr db
               else bindE (ApplyTx tid delta ''platform_profit'' ord ''platform share'' (Some actor) db) (\<lambda>(_, db). Inr db))"

definition DebitTreasury :: "int \<Rightarrow> string \<Rightarrow> string \<Rightarrow> user_id \<Rightarrow> 'a wallet_db_scheme \<Rightarrow> err + 'a wallet_db_scheme" where
  "DebitTreasury amount ref nt actor db =
    (let tid = treasuryOn db
     in if tid = '''' \<or> amount \<le> 0 then Inr db
        else bindE (ApplyTx tid (- amount) ''platform_expense'' ref nt (Some actor) db) (\<lambda>(_, db). Inr db))"

definition CreditTreasuryTx :: "string \<Rightarrow> user_id \<Rightarrow> 'a cash_db_scheme \<Rightarrow> err + 'a cash_db_scheme" where
  "CreditTreasuryTx = creditTreasury"

text \<open>Zero is the answer when nothing is posted.\<close>

definition CreditTreasuryDirectID ::
  "int \<Rightarrow> string \<Rightarrow> string \<Rightarrow> user_id \<Rightarrow> 'a wallet_db_scheme \<Rightarrow> err + int \<times> 'a wallet_db_scheme" where
  "CreditTreasuryDirectID amount ref nt actor db =
    (if amount \<le> 0 then Inr (0, db)
     else let tid = treasuryOn db
          in if tid = '''' then Inr (0, db)
             else bindE (ApplyTxID tid amount ''platform_profit'' ref nt (Some actor) db) (\<lambda>((_, tx), db). Inr (tx, db)))"

definition CreditTreasuryDirect ::
  "int \<Rightarrow> string \<Rightarrow> string \<Rightarrow> user_id \<Rightarrow> 'a wallet_db_scheme \<Rightarrow> err + 'a wallet_db_scheme" where
  "CreditTreasuryDirect amount ref nt actor db =
    (if amount \<le> 0 then Inr db
     else let tid = treasuryOn db
          in if tid = '''' then Inr db
             else bindE (ApplyTx tid amount ''platform_profit'' ref nt (Some actor) db) (\<lambda>(_, db). Inr db))"

definition PayDebtFromCreditTx ::
  "user_id \<Rightarrow> int \<Rightarrow> string \<Rightarrow> string \<Rightarrow> user_id \<Rightarrow> 'a obligations_db_scheme \<Rightarrow> err + int \<times> 'a obligations_db_scheme" where
  "PayDebtFromCreditTx u credit ref src actor db =
     PayFromCredit u credit ref (if actor = '''' then None else Some actor)
       \<lparr>cp_treasury = treasuryOn db, cp_method = MethodEarning, cp_from = src\<rparr> db"

section \<open>The ledger after a posting\<close>

lemma applyTx_log:
  assumes "applyTx u a kind ref nt actor db = Inr ((b, i), db')"
  shows "\<exists>now. wallet_txs db' = wallet_txs db @ [\<lparr>tx_id = i, tx_user = u, tx_amount = a, tx_kind = kind, tx_ref = ref,
     tx_note = nt, tx_by = actor, tx_at = now\<rparr>]"
  using assms
  by (auto simp: applyTx_def result_simps update_wallet_def insert_wallet_tx_def ensure_wallet_def Let_def split: if_splits option.splits)

lemma applyTx_tx_sum:
  assumes "applyTx u a kind ref nt actor db = Inr ((b, i), db')"
  shows "tx_sum db' r ks = tx_sum db r ks + (if r = ref \<and> kind \<in> set ks then a else 0)"
  using applyTx_log[OF assms] by (auto simp: tx_sum_def)

lemma tx_sum_append: "set ks \<inter> set ls = {} \<Longrightarrow> tx_sum db r (ks @ ls) = tx_sum db r ks + tx_sum db r ls"
proof -
  assume d: "set ks \<inter> set ls = {}"
  have "sum_list (map tx_amount [t \<leftarrow> ts. tx_ref t = r \<and> (tx_kind t \<in> set ks \<or> tx_kind t \<in> set ls)]) =
      sum_list (map tx_amount [t \<leftarrow> ts. tx_ref t = r \<and> tx_kind t \<in> set ks]) +
      sum_list (map tx_amount [t \<leftarrow> ts. tx_ref t = r \<and> tx_kind t \<in> set ls])" for ts
    using d by (induction ts) auto
  then show ?thesis by (simp add: tx_sum_def)
qed

lemma applyTx_orders_cash:
  fixes db :: "'a cash_db_scheme"
  assumes "applyTx u a kind ref nt actor db = Inr (r, db')"
  shows "orders db' = orders db" and "cash_entries db' = cash_entries db" and "order_of db' = order_of db"
    and "collected_at_door db' = collected_at_door db"
proof -
  obtain ws ts n where "db' = db\<lparr>wallets := ws, wallet_txs := ts, next_tx := n\<rparr>" using applyTx_frame[OF assms] by blast
  then show "orders db' = orders db" "cash_entries db' = cash_entries db" "order_of db' = order_of db"
    "collected_at_door db' = collected_at_door db"
    by (simp_all add: order_of_def collected_at_door_def fun_eq_iff)
qed

text \<open>A posting that is no payment of the order leaves what was paid for it.\<close>

lemma applyTx_order_paid:
  fixes db :: "'a cash_db_scheme"
  assumes "applyTx u a kind ref nt actor db = Inr ((b, i), db')" and "kind \<noteq> ''order_payment''"
  shows "order_paid db' x = order_paid db x"
proof -
  obtain t where t: "wallet_txs db' = wallet_txs db @ [t]" "tx_kind t = kind" using applyTx_log[OF assms(1)] by auto
  have "[t \<leftarrow> wallet_txs db'. tx_ref t = r \<and> tx_kind t = ''order_payment''] =
      [t \<leftarrow> wallet_txs db. tx_ref t = r \<and> tx_kind t = ''order_payment'']" for r
    using t assms(2) by simp
  moreover have "tx_sum db' r [''order_payment''] = tx_sum db r [''order_payment'']" for r
    using applyTx_tx_sum[OF assms(1)] assms(2) by simp
  ultimately show ?thesis using applyTx_orders_cash(4)[OF assms(1)] by (simp add: order_paid_def Let_def)
qed

lemma creditTreasury_Inr:
  fixes db :: "'a cash_db_scheme"
  assumes r: "creditTreasury ord actor db = Inr db'" and t: "treasuryOn db \<noteq> ''''" and x: "order_of db ord = Some x"
  defines "delta \<equiv> order_paid db x - tx_sum db ord [''refund''] - tx_sum db ord party_kinds - tx_sum db ord [''platform_profit'']"
  shows "delta = 0 \<and> db' = db \<or>
    delta \<noteq> 0 \<and> (\<exists>b i. applyTx (treasuryOn db) delta ''platform_profit'' ord ''platform share'' (Some actor) db = Inr ((b, i), db'))"
proof (cases "delta = 0")
  case True
  with r t x show ?thesis unfolding creditTreasury_def delta_def Let_def by simp
next
  case False
  with r t x have "bindE (ApplyTx (treasuryOn db) delta ''platform_profit'' ord ''platform share'' (Some actor) db) (\<lambda>(_, db). Inr db) = Inr db'"
    unfolding creditTreasury_def delta_def Let_def by simp
  with False show ?thesis by (auto simp: ApplyTx_def result_simps)
qed

lemma creditTreasury_share:
  fixes db :: "'a cash_db_scheme"
  assumes r: "creditTreasury ord actor db = Inr db'" and t: "treasuryOn db \<noteq> ''''" and x: "order_of db ord = Some x"
  shows "treasuryOn db' = treasuryOn db" and "order_of db' ord = Some x" and "order_paid db' y = order_paid db y"
    and "collected_at_door db' = collected_at_door db"
    and "tx_sum db' ord [''platform_profit''] = order_paid db x - tx_sum db ord [''refund''] - tx_sum db ord party_kinds"
    and "set ks \<inter> {''platform_profit''} = {} \<Longrightarrow> tx_sum db' ord ks = tx_sum db ord ks"
    and "Balance db' u = Balance db u + (if u = treasuryOn db
           then tx_sum db' ord [''platform_profit''] - tx_sum db ord [''platform_profit''] else 0)"
proof -
  define delta where "delta = order_paid db x - tx_sum db ord [''refund''] - tx_sum db ord party_kinds - tx_sum db ord [''platform_profit'']"
  note c = creditTreasury_Inr[OF r t x, folded delta_def]
  have "treasuryOn db' = treasuryOn db \<and> order_of db' ord = Some x \<and> order_paid db' y = order_paid db y \<and>
      collected_at_door db' = collected_at_door db \<and>
      tx_sum db' ord [''platform_profit''] = tx_sum db ord [''platform_profit''] + delta \<and>
      (set ks \<inter> {''platform_profit''} = {} \<longrightarrow> tx_sum db' ord ks = tx_sum db ord ks) \<and>
      Balance db' u = Balance db u + (if u = treasuryOn db then delta else 0)"
    using c
  proof (elim disjE conjE exE)
    fix b i assume p: "applyTx (treasuryOn db) delta ''platform_profit'' ord ''platform share'' (Some actor) db = Inr ((b, i), db')"
    show ?thesis
      using applyTx_system(1)[OF p] applyTx_orders_cash(3,4)[OF p] applyTx_order_paid[OF p] applyTx_tx_sum[OF p, of ord]
        applyTx_available(2)[OF p, of u] x by auto
  qed (use x in simp)
  then show "treasuryOn db' = treasuryOn db" and "order_of db' ord = Some x" and "order_paid db' y = order_paid db y"
    and "collected_at_door db' = collected_at_door db"
    and "tx_sum db' ord [''platform_profit''] = order_paid db x - tx_sum db ord [''refund''] - tx_sum db ord party_kinds"
    and "set ks \<inter> {''platform_profit''} = {} \<Longrightarrow> tx_sum db' ord ks = tx_sum db ord ks"
    and "Balance db' u = Balance db u + (if u = treasuryOn db
           then tx_sum db' ord [''platform_profit''] - tx_sum db ord [''platform_profit''] else 0)"
    by (simp_all add: delta_def)
qed

text \<open>The part of the payment that reached the platform in cash.\<close>

definition cash_part :: "'a cash_db_scheme \<Rightarrow> order \<Rightarrow> int" where
  "cash_part db x =
    (if o_kind x = KindMerchantDelivery then collected_at_door db (o_id x)
     else if o_status x \<in> {StDelivered, StRefunded} then o_cash_due x else 0)"

definition order_kinds :: "string list" where
  "order_kinds = ''order_payment'' # ''refund'' # ''platform_profit'' # party_kinds"

lemma tx_sum_order_kinds:
  "tx_sum db r order_kinds = tx_sum db r [''order_payment''] + tx_sum db r [''refund''] + tx_sum db r [''platform_profit''] +
     tx_sum db r party_kinds"
proof -
  have "tx_sum db r ([''order_payment''] @ [''refund''] @ [''platform_profit''] @ party_kinds) =
      tx_sum db r [''order_payment''] + (tx_sum db r [''refund''] + (tx_sum db r [''platform_profit''] + tx_sum db r party_kinds))"
    by (subst tx_sum_append, simp add: party_kinds_def)+ simp
  then show ?thesis by (simp add: order_kinds_def)
qed

text \<open>What the books of an order are once the share is taken.\<close>

lemma treasury_closed:
  fixes db :: "'a cash_db_scheme"
  assumes "creditTreasury ord actor db = Inr db'" and "treasuryOn db \<noteq> ''''"
    and "order_of db ord = Some x"
  shows "(o_kind x \<noteq> KindCustom \<longrightarrow> tx_sum db' ord order_kinds = cash_part db' x +
      (if list_ex (\<lambda>t. tx_ref t = ord \<and> tx_kind t = ''order_payment'') (wallet_txs db) then 0 else o_wallet_paid x)) \<and>
    (\<forall>u. Balance db' u = Balance db u + (if u = treasuryOn db
       then tx_sum db' ord [''platform_profit''] - tx_sum db ord [''platform_profit''] else 0)) \<and>
    creditTreasury ord actor2 db' = Inr db'"
proof (intro conjI impI allI)
  note c = creditTreasury_share[OF assms]
  have parties: "tx_sum db' ord party_kinds = tx_sum db ord party_kinds" by (rule c(6)) (simp add: party_kinds_def)
  have others: "tx_sum db' ord [''refund''] = tx_sum db ord [''refund'']"
    "tx_sum db' ord [''order_payment''] = tx_sum db ord [''order_payment'']" by (rule c(6), simp)+
  have id: "o_id x = ord" using order_of_Some[OF assms(3)] by simp
  show "Balance db' u = Balance db u + (if u = treasuryOn db
       then tx_sum db' ord [''platform_profit''] - tx_sum db ord [''platform_profit''] else 0)" for u by (rule c(7))
  show "creditTreasury ord actor2 db' = Inr db'"
    using assms(2) c(1,2) by (simp add: creditTreasury_def c(3,5) parties others Let_def)
  assume kind: "o_kind x \<noteq> KindCustom"
  then have plain: "courier_goods x = 0" "lost_goods x = 0" by (simp_all add: courier_goods_def lost_goods_def)
  define payment where "payment = (if list_ex (\<lambda>t. tx_ref t = ord \<and> tx_kind t = ''order_payment'') (wallet_txs db)
    then - tx_sum db ord [''order_payment''] else o_wallet_paid x)"
  have ex: "list_ex (\<lambda>t. tx_ref t = ord \<and> tx_kind t = ''order_payment'') (wallet_txs db) \<longleftrightarrow>
      [t \<leftarrow> wallet_txs db. tx_ref t = ord \<and> tx_kind t = ''order_payment''] \<noteq> []"
    by (auto simp: list_ex_iff filter_empty_conv)
  have paid: "order_paid db x = payment + cash_part db' x"
    using c(4) by (simp add: order_paid_def Let_def id plain payment_def ex cash_part_def)
  have none: "tx_sum db ord [''order_payment''] = 0" if "\<not> list_ex (\<lambda>t. tx_ref t = ord \<and> tx_kind t = ''order_payment'') (wallet_txs db)"
    using that unfolding ex by (simp add: tx_sum_def)
  show "tx_sum db' ord order_kinds = cash_part db' x +
      (if list_ex (\<lambda>t. tx_ref t = ord \<and> tx_kind t = ''order_payment'') (wallet_txs db) then 0 else o_wallet_paid x)"
    using none by (simp add: tx_sum_order_kinds c(5) others parties paid payment_def)
qed

text \<open>
  The office's money for the goods of a custom purchase, of an order that was paid so much: what the driver gave the store,
  or the price of the goods where that is not known; all of it when the order ended undelivered after it was
  given.
\<close>

definition office_goods :: "order \<Rightarrow> int \<Rightarrow> int" where
  "office_goods x paid =
    (if o_kind x \<noteq> KindCustom \<or> o_custom_mode x \<noteq> ''purchase'' then 0
     else case o_custom_store_paid x of
       None \<Rightarrow> max 0 (min (case o_custom_goods x of None \<Rightarrow> 0 | Some price \<Rightarrow> price) paid)
     | Some given \<Rightarrow> if o_status x \<in> {StFailed, StCancelled, StRejected} \<and> given \<noteq> 0 then given else max 0 (min given paid))"

lemma office_goods_courier:
  "office_goods x paid = (if courier_goods x > 0 \<and> paid > 0 \<and> lost_goods x = 0 then min (courier_goods x) paid else 0) + lost_goods x"
proof (cases "o_kind x = KindCustom \<and> o_custom_mode x = ''purchase''")
  case True
  have cut: "max 0 (min a b) = (if 0 < a \<and> 0 < b then min a b else 0)" for a b :: int by auto
  show ?thesis using True
    by (cases "o_custom_store_paid x"; cases "o_custom_goods x") (simp_all add: office_goods_def courier_goods_def lost_goods_def cut)
next
  case False
  then have "courier_goods x = 0" "lost_goods x = 0" by (auto simp: courier_goods_def lost_goods_def)
  with False show ?thesis by (simp add: office_goods_def)
qed

lemma treasury_books:
  fixes db :: "'a cash_db_scheme"
  assumes "creditTreasury ord actor db = Inr db'" and "treasuryOn db \<noteq> ''''" and "order_of db ord = Some x"
  defines "unposted \<equiv> (if list_ex (\<lambda>t. tx_ref t = ord \<and> tx_kind t = ''order_payment'') (wallet_txs db) then 0 else o_wallet_paid x)"
  shows "tx_sum db' ord order_kinds = cash_part db' x + unposted -
      office_goods x (unposted - tx_sum db' ord [''order_payment''] + cash_part db' x)"
proof -
  note c = creditTreasury_share[OF assms(1-3)]
  have parties: "tx_sum db' ord party_kinds = tx_sum db ord party_kinds" by (rule c(6)) (simp add: party_kinds_def)
  have others: "tx_sum db' ord [''refund''] = tx_sum db ord [''refund'']"
    "tx_sum db' ord [''order_payment''] = tx_sum db ord [''order_payment'']" by (rule c(6), simp)+
  have id: "o_id x = ord" using order_of_Some[OF assms(3)] by simp
  have ex: "list_ex (\<lambda>t. tx_ref t = ord \<and> tx_kind t = ''order_payment'') (wallet_txs db) \<longleftrightarrow>
      [t \<leftarrow> wallet_txs db. tx_ref t = ord \<and> tx_kind t = ''order_payment''] \<noteq> []"
    by (auto simp: list_ex_iff filter_empty_conv)
  have none: "tx_sum db ord [''order_payment''] = 0" if "\<not> list_ex (\<lambda>t. tx_ref t = ord \<and> tx_kind t = ''order_payment'') (wallet_txs db)"
    using that unfolding ex by (simp add: tx_sum_def)
  define paid where "paid = unposted - tx_sum db ord [''order_payment''] + cash_part db' x"
  have wallet: "(if [t \<leftarrow> wallet_txs db. tx_ref t = ord \<and> tx_kind t = ''order_payment''] = [] then o_wallet_paid x
      else - tx_sum db ord [''order_payment'']) = unposted - tx_sum db ord [''order_payment'']"
    using none unfolding unposted_def ex by auto
  have "collected_at_door db' = collected_at_door db" by (rule c(4))
  then have "(if o_kind x = KindMerchantDelivery then unposted - tx_sum db ord [''order_payment''] + collected_at_door db ord
      else unposted - tx_sum db ord [''order_payment''] + (if o_status x \<in> {StDelivered, StRefunded} then o_cash_due x else 0)) = paid"
    by (simp add: paid_def cash_part_def id)
  then have "order_paid db x = paid - office_goods x paid"
    unfolding order_paid_def Let_def id wallet office_goods_courier by simp
  then show ?thesis
    by (simp add: tx_sum_order_kinds c(5) others parties paid_def)
qed

section \<open>Properties\<close>

text \<open>
  C16. The books of an order close, whatever its kind: after the treasury has taken its share, the payment, the refunds,
  what was given to others and the share itself add up to the cash that came from outside (the cash due
  of a delivered order, what the driver collected on a delivery), so nothing is created or lost. Two things enter
  beside it: an order without a payment entry counts what its row says the wallet paid, and of a custom purchase the
  money of the office for the goods is left out, up to what was paid, or the whole of it when the goods were
  lost. Only the treasury's wallet moved, by the change of its share, and taking the share again, by anyone, posts
  nothing.
\<close>

theorem treasury_closes_the_books:
  fixes db :: "'a cash_db_scheme"
  assumes "creditTreasury ord actor db = Inr db'" and "treasuryOn db \<noteq> ''''"
    and "order_of db ord = Some x"
  defines "unposted \<equiv> (if list_ex (\<lambda>t. tx_ref t = ord \<and> tx_kind t = ''order_payment'') (wallet_txs db) then 0 else o_wallet_paid x)"
  shows "tx_sum db' ord order_kinds = cash_part db' x + unposted -
      office_goods x (unposted - tx_sum db' ord [''order_payment''] + cash_part db' x) \<and>
    (\<forall>u. Balance db' u = Balance db u + (if u = treasuryOn db
       then tx_sum db' ord [''platform_profit''] - tx_sum db ord [''platform_profit''] else 0)) \<and>
    creditTreasury ord actor2 db' = Inr db'"
  using treasury_closed[OF assms(1-3), of actor2] treasury_books[OF assms(1-3)] unfolding unposted_def by blast
definition example_order :: order where
  "example_order = \<lparr>o_id = ''o1'', o_kind = KindStandard, o_status = StDelivered, o_customer = ''a'', o_driver = Some ''d'',
     o_merchant = Some ''m'', o_wallet_paid = 700, o_cash_due = 500, o_driver_fee = 100, o_subtotal = 1000,
     o_platform_commission = 0, o_custom_mode = [], o_custom_reserved = 0, o_custom_store_paid = None, o_custom_goods = None,
     o_snap_merchant_pct = Some 1000, o_snap_rep_pct = Some 10, o_snap_source = Some ''both'', o_snap_activation = Some 1,
     o_payment_method = ''wallet'', o_custom_paid_at = None, o_promo_waived = 0, o_discount = 0, o_fee_payer = None,
     o_delivery_mode = [], o_delivery_fee = 150, o_partner_merchant = None, o_partner_pct = None,
     o_origin = [], o_stops = 1, o_promo_code = [], o_agreed_at = None, o_quote_confirmed = None, o_quote_version = 0,
     o_goods_pending = False, o_fail_reason = None, o_fault = None, o_ended_by = None, o_cancel_reason = None,
     o_prep_minutes = None, o_accepted_at = None, o_dispatched_at = None, o_picked_up_at = None, o_delivered_at = None,
     o_closed_at = None, o_door_instruction = None, o_created_at = 0, o_number = 1, o_ready_at = None, o_sent_at = None,
     o_offered_driver = None, o_offer_expires = None, o_collect_amount = None, o_fetch_status = None,
     o_recipient_phone = None, o_code = None, o_code_attempts = 0, o_total = 1200, o_sources_fee = 0,
     o_share_pct = 0, o_share_fixed = 0, o_offer_passed = [], o_excluded = [],
     o_pickup_override = None, o_dropoff = None, o_dropoff_known = False, o_zone = None,
     o_commission_waived = 0, o_goods_settled = None, o_returned_at = None, o_return_to = None, o_goods_handed_at = None,
     o_goods_comp_none_at = None\<rparr>"

definition example_order_db :: settle_db where
  "example_order_db = example_settle_db\<lparr>
     wallets := (''t'', zero_wallet\<lparr>w_treasury := True\<rparr>) # [x \<leftarrow> wallets example_settle_db. fst x \<noteq> ''t''],
     wallet_txs := [\<lparr>tx_id = 0, tx_user = ''a'', tx_amount = - 700, tx_kind = ''order_payment'', tx_ref = ''o1'',
       tx_note = [], tx_by = None, tx_at = 0\<rparr>],
     orders := [example_order]\<rparr>"

lemma treasury_closes_the_books_witness:
  "\<exists>db. creditTreasury ''o1'' ''d'' example_order_db = Inr db \<and> tx_sum db ''o1'' [''platform_profit''] = 1200 \<and>
     tx_sum db ''o1'' order_kinds = 500 \<and> creditTreasury ''o1'' ''a'' db = Inr db"
proof -
  let ?r = "creditTreasury ''o1'' ''d'' example_order_db"
  have "case ?r of Inl _ \<Rightarrow> False | Inr db \<Rightarrow> tx_sum db ''o1'' [''platform_profit''] = 1200 \<and> cash_part db example_order = 500"
    by code_simp
  then obtain db where r: "?r = Inr db" "tx_sum db ''o1'' [''platform_profit''] = 1200" "cash_part db example_order = 500"
    by (auto split: sum.splits)
  have t: "treasuryOn example_order_db \<noteq> ''''" "order_of example_order_db ''o1'' = Some example_order"
    "list_ex (\<lambda>t. tx_ref t = ''o1'' \<and> tx_kind t = ''order_payment'') (wallet_txs example_order_db)"
    "office_goods example_order p = 0" for p by (code_simp, code_simp, code_simp, simp add: office_goods_def example_order_def)
  from treasury_closes_the_books[OF r(1) t(1,2), of "''a''"] r t(3,4) show ?thesis by auto
qed

end
