(* ===== verification/Settlement.thy ===== *)
theory Settlement
  imports Treasury Pricing
begin

text \<open>
  The shares of the stores of an order and their settlement (\<open>orders/economics_snapshot.go\<close>,
  \<open>merchantShares\<close>, \<open>settleMerchantFor\<close>, \<open>payDriver\<close> and
  \<open>reverseCommissions\<close> of \<open>orders/transitions.go\<close>). A sum the database cannot hand over in
  64 bits is a database error. Groups come in the order of their first item.
\<close>

section \<open>What a settlement reports\<close>

record wallet_credit =
  wc_user :: user_id
  wc_amount :: int
  wc_title :: string
  wc_app :: string

record rep_paid =
  rp_rep :: user_id
  rp_amount :: int
  rp_store :: string

record settled =
  so_reps :: "rep_paid list"
  so_credits :: "wallet_credit list"
  so_compensation :: bool

definition settled_credit :: "user_id \<Rightarrow> int \<Rightarrow> string \<Rightarrow> string \<Rightarrow> settled \<Rightarrow> settled" where
  "settled_credit u amount title app out =
    (if u = '''' \<or> amount = 0 then out
     else out\<lparr>so_credits := so_credits out @ [\<lparr>wc_user = u, wc_amount = amount, wc_title = title, wc_app = app\<rparr>]\<rparr>)"

definition no_report :: settled where
  "no_report = \<lparr>so_reps = [], so_credits = [], so_compensation = False\<rparr>"

section \<open>The economics frozen on the order\<close>

record economics_snapshot =
  es_merchant_pct :: int
  es_rep_pct :: int
  es_source :: string
  es_activation :: int

definition ActivationFromFirstOrder :: int where "ActivationFromFirstOrder = 1"
definition ErrNoSnapshot :: err where "ErrNoSnapshot = ErrMsg ''orders: no economics snapshot''"

definition snapshotOf :: "string \<Rightarrow> 'a orders_db_scheme \<Rightarrow> err + economics_snapshot" where
  "snapshotOf ord db =
    (case order_of db ord of
       None \<Rightarrow> Inl ErrNoRows
     | Some x \<Rightarrow> (case (o_snap_merchant_pct x, o_snap_rep_pct x, o_snap_source x, o_snap_activation x) of
         (Some mp, Some rp, Some src, Some act) \<Rightarrow>
           Inr \<lparr>es_merchant_pct = mp, es_rep_pct = rp, es_source = src, es_activation = act\<rparr>
       | _ \<Rightarrow> Inl ErrNoSnapshot))"

definition orderPct :: "int option \<Rightarrow> economics_snapshot \<Rightarrow> int" where
  "orderPct override snap = (case override of Some p \<Rightarrow> p | None \<Rightarrow> es_merchant_pct snap)"

definition settledPct :: "int option \<Rightarrow> int option \<Rightarrow> economics_snapshot \<Rightarrow> int" where
  "settledPct override frozen snap = (case frozen of Some p \<Rightarrow> p | None \<Rightarrow> orderPct override snap)"

section \<open>The shares\<close>

record source_share =
  ss_merchant :: string
  ss_owner :: "user_id option"
  ss_commission :: int
  ss_due :: int
  ss_method :: string
  ss_pct :: int

text \<open>The lines of the order whose store is known, each with its store; the store of a line without one is the order's.\<close>

definition item_store :: "order \<Rightarrow> order_item \<Rightarrow> string option" where
  "item_store x i = (case oi_merchant i of Some m \<Rightarrow> Some m | None \<Rightarrow> o_merchant x)"

definition store_items :: "'a settle_db_scheme \<Rightarrow> order \<Rightarrow> string \<Rightarrow> order_item list" where
  "store_items db x m = [i \<leftarrow> order_items db. oi_order i = o_id x \<and> item_store x i = Some m]"

definition order_stores :: "'a settle_db_scheme \<Rightarrow> order \<Rightarrow> string list" where
  "order_stores db x =
     remdups (concat (map (\<lambda>i. case item_store x i of None \<Rightarrow> [] | Some m \<Rightarrow> if merchant_of db m = None then [] else [m])
       [i \<leftarrow> order_items db. oi_order i = o_id x]))"

text \<open>\<open>max\<close> of the two methods an item may have, then the store's own.\<close>

definition items_method :: "order_item list \<Rightarrow> string \<Rightarrow> string" where
  "items_method is own =
    (if list_ex (\<lambda>i. oi_method i = Some ''wallet'') is then ''wallet''
     else if list_ex (\<lambda>i. oi_method i = Some ''cash'') is then ''cash'' else own)"

definition items_cost :: "order_item list \<Rightarrow> err + int" where
  "items_cost is =
    (if list_ex (\<lambda>i. \<not> in64 (oi_price i * oi_qty i)) is then Inl ErrDb
     else let c = sum_list (map (\<lambda>i. oi_price i * oi_qty i) is) in if in64 c then Inr c else Inl ErrDb)"

definition share_of :: "economics_snapshot \<Rightarrow> merchant \<Rightarrow> int option \<Rightarrow> string \<Rightarrow> int \<Rightarrow> source_share" where
  "share_of snap m frozen meth cost =
    (let p = settledPct (m_commission m) frozen snap;
         c = Amount_Of (MerchantCommission None (Some p)) cost
     in \<lparr>ss_merchant = m_id m, ss_owner = m_owner m, ss_commission = c, ss_due = wrap64 (cost - c),
         ss_method = meth, ss_pct = p\<rparr>)"

definition frozen_pct :: "'a settle_db_scheme \<Rightarrow> string \<Rightarrow> string \<Rightarrow> int option" where
  "frozen_pct db ord m = (case settlement_for db ord m of None \<Rightarrow> None | Some s \<Rightarrow> st_pct s)"

definition store_share :: "'a settle_db_scheme \<Rightarrow> economics_snapshot \<Rightarrow> order \<Rightarrow> string \<Rightarrow> err + source_share" where
  "store_share db snap x m =
    (case merchant_of db m of
       None \<Rightarrow> Inl ErrNoRows
     | Some row \<Rightarrow>
         bindE (items_cost (store_items db x m)) (\<lambda>cost.
         Inr (share_of snap row (frozen_pct db (o_id x) m) (items_method (store_items db x m) (m_method row)) cost)))"

text \<open>An order without such lines has one share, of its subtotal.\<close>

definition sole_share :: "'a settle_db_scheme \<Rightarrow> economics_snapshot \<Rightarrow> order \<Rightarrow> err + source_share" where
  "sole_share db snap x =
    (case o_merchant x of
       None \<Rightarrow> Inl ErrNoRows
     | Some m \<Rightarrow> (case merchant_of db m of
         None \<Rightarrow> Inl ErrNoRows
       | Some row \<Rightarrow> Inr (share_of snap row (frozen_pct db (o_id x) m) (m_method row) (o_subtotal x))))"

definition merchantShares :: "string \<Rightarrow> 'a settle_db_scheme \<Rightarrow> err + source_share list \<times> int" where
  "merchantShares ord db =
     bindE (snapshotOf ord db) (\<lambda>snap.
     case order_of db ord of
       None \<Rightarrow> Inl ErrNoRows
     | Some x \<Rightarrow>
         bindE (foldE (\<lambda>m shares. bindE (store_share db snap x m) (\<lambda>sh. Inr (shares @ [sh]))) (order_stores db x) []) (\<lambda>shares.
         if shares \<noteq> [] then Inr (shares, foldl (\<lambda>t sh. wrap64 (t + ss_commission sh)) 0 shares)
         else bindE (sole_share db snap x) (\<lambda>sh. Inr ([sh], ss_commission sh))))"

section \<open>Settling the stores\<close>

text \<open>The ASCII letters; an identifier has no others.\<close>

definition lower_char :: "char \<Rightarrow> char" where
  "lower_char c = (let n = of_char c :: nat in if 65 \<le> n \<and> n \<le> 90 then char_of (n + 32) else c)"

definition EqualFold :: "string \<Rightarrow> string \<Rightarrow> bool" where
  "EqualFold a b \<longleftrightarrow> map lower_char a = map lower_char b"

text \<open>The row of a share with the defaults of its columns.\<close>

definition new_settlement :: "string \<Rightarrow> source_share \<Rightarrow> user_id \<Rightarrow> 'a settle_db_scheme \<Rightarrow> settlement" where
  "new_settlement ord sh owner db =
     \<lparr>st_id = uuid (next_uuid db), st_order = ord, st_merchant = ss_merchant sh, st_owner = owner,
       st_method = ss_method sh, st_amount = ss_due sh, st_adjusted = 0, st_reversed = 0,
       st_state = initialState (ss_method sh), st_pct = Some (ss_pct sh), st_waived = 0, st_earning_tx = None,
       st_accrued_tx = None, st_paid_tx = None, st_paid_by = None, st_paid_owner = None, st_paid_via = None,
       st_note = '''', st_created = db_now db\<rparr>"

text \<open>The insertion of a row, whose CHECK constraints come before its conflict; nothing when there is one.\<close>

definition insert_settlement ::
  "string \<Rightarrow> source_share \<Rightarrow> user_id \<Rightarrow> 'a settle_db_scheme \<Rightarrow> err + string option \<times> 'a settle_db_scheme" where
  "insert_settlement ord sh owner db =
    (let row = new_settlement ord sh owner db
     in if \<not> settlement_fits row then Inl ErrDb
        else if settlement_for db ord (ss_merchant sh) \<noteq> None then Inr (None, db)
        else Inr (Some (st_id row), db\<lparr>settlements := settlements db @ [row], next_uuid := next_uuid db + 1\<rparr>))"

definition settle_share ::
  "string \<Rightarrow> user_id \<Rightarrow> user_id option \<Rightarrow> string \<Rightarrow> source_share \<Rightarrow> settled \<times> 'a settle_db_scheme \<Rightarrow>
     err + settled \<times> 'a settle_db_scheme" where
  "settle_share ord actor driver only sh = (\<lambda>(out, db).
    case ss_owner sh of
      None \<Rightarrow> Inr (out, db)
    | Some owner \<Rightarrow>
        if ss_due sh \<le> 0 then Inr (out, db)
        else if only \<noteq> '''' \<and> \<not> EqualFold (ss_merchant sh) only then Inr (out, db)
        else bindE (insert_settlement ord sh owner db) (\<lambda>(created, db).
          case created of
            None \<Rightarrow> bindE (validateSettlement ord (ss_merchant sh) (ss_method sh) (ss_due sh) db) (\<lambda>_. Inr (out, db))
          | Some sid \<Rightarrow>
              if ss_method sh = ''wallet'' then
                bindE (ApplyTxID owner (ss_due sh) ''merchant_earning'' ord ''due for goods handed over'' (Some actor) db)
                  (\<lambda>((_, tx), db).
                bindE (update_settlement sid (\<lambda>s. s\<lparr>st_earning_tx := Some tx\<rparr>) db) (\<lambda>db.
                bindE (offsetMerchantDebt (ss_merchant sh) owner (ss_due sh) ord actor db) (\<lambda>db.
                Inr (settled_credit owner (ss_due sh) ''merchantEarned'' ''merchant'' out, db))))
              else
                bindE (accrueCashSettlement sid ord (ss_merchant sh) (ss_due sh) actor db) (\<lambda>db.
                case driver of
                  None \<Rightarrow> Inr (out, db)
                | Some d \<Rightarrow> bindE (payCashByDriver sid ord (ss_merchant sh) d db) (\<lambda>db. Inr (out, db)))))"

definition legacy_settled :: "'a settle_db_scheme \<Rightarrow> string \<Rightarrow> bool" where
  "legacy_settled db ord \<longleftrightarrow>
     \<not> list_ex (\<lambda>s. st_order s = ord) (settlements db) \<and>
     list_ex (\<lambda>t. tx_ref t = ord \<and> tx_kind t = ''merchant_earning'') (wallet_txs db)"

definition settleMerchantFor ::
  "string \<Rightarrow> user_id \<Rightarrow> user_id option \<Rightarrow> string \<Rightarrow> settled \<times> 'a settle_db_scheme \<Rightarrow> err + settled \<times> 'a settle_db_scheme" where
  "settleMerchantFor ord actor driver only = (\<lambda>(out, db).
    if legacy_settled db ord then Inr (out, db)
    else bindE (merchantShares ord db) (\<lambda>(shares, totalCommission).
         foldE (settle_share ord actor driver only) shares
           (out, update_order ord (\<lambda>x. x\<lparr>o_platform_commission := totalCommission\<rparr>) db)))"

definition settleMerchant ::
  "string \<Rightarrow> user_id \<Rightarrow> user_id option \<Rightarrow> settled \<times> 'a settle_db_scheme \<Rightarrow> err + settled \<times> 'a settle_db_scheme" where
  "settleMerchant ord actor driver = settleMerchantFor ord actor driver ''''"

section \<open>Paying the driver\<close>

definition offsetDriverDebt ::
  "user_id \<Rightarrow> int \<Rightarrow> string \<Rightarrow> user_id \<Rightarrow> 'a obligations_db_scheme \<Rightarrow> err + 'a obligations_db_scheme" where
  "offsetDriverDebt d available ord actor db =
    (let amt = min (Debt db PartyDriver d) available
     in if amt \<le> 0 then Inr db
        else deduct (offset_pay d ''driver_earning'' ord actor PartyDriver d)
               (\<lambda>amt tx. SettleDebt PartyDriver d amt ord tx (Some actor)) amt db)"

definition payDriver ::
  "user_id option \<Rightarrow> int \<Rightarrow> string \<Rightarrow> user_id \<Rightarrow> settled \<times> 'a obligations_db_scheme \<Rightarrow> err + settled \<times> 'a obligations_db_scheme" where
  "payDriver driver fee ord actor = (\<lambda>(out, db).
    case driver of
      None \<Rightarrow> Inr (out, db)
    | Some d \<Rightarrow>
        if fee \<le> 0 then Inr (out, db)
        else bindE (ApplyTx d fee ''driver_earning'' ord ''delivery fee'' (Some actor) db) (\<lambda>(_, db).
             bindE (offsetDriverDebt d fee ord actor db) (\<lambda>db.
             Inr (settled_credit d fee ''driverEarned'' ''driver'' out, db))))"

section \<open>What the shares are computed from\<close>

definition share_env :: "'a settle_db_scheme \<Rightarrow> _" where
  "share_env db = (orders db, order_items db, map (\<lambda>m. m\<lparr>m_debt := 0\<rparr>) (merchants db))"

text \<open>The commission of the order is written, not read.\<close>

definition blank_commission :: "'a settle_db_scheme \<Rightarrow> 'a settle_db_scheme" where
  "blank_commission db = db\<lparr>orders := map (\<lambda>x. x\<lparr>o_platform_commission := 0\<rparr>) (orders db)\<rparr>"

lemma share_env_blank:
  "share_env db' = share_env db \<Longrightarrow> share_env (blank_commission db') = share_env (blank_commission db)"
  by (simp add: share_env_def blank_commission_def)

lemma share_env_eqD:
  assumes "share_env (blank_commission db') = share_env (blank_commission db)"
  shows "map_option (\<lambda>x. x\<lparr>o_platform_commission := 0\<rparr>) (order_of db' i) = map_option (\<lambda>x. x\<lparr>o_platform_commission := 0\<rparr>) (order_of db i)"
    and "order_items db' = order_items db"
    and "map_option (\<lambda>m. m\<lparr>m_debt := 0\<rparr>) (merchant_of db' j) = map_option (\<lambda>m. m\<lparr>m_debt := 0\<rparr>) (merchant_of db j)"
proof -
  have f: "map_option (\<lambda>x. x\<lparr>o_platform_commission := 0\<rparr>) (find (\<lambda>x. o_id x = i) xs) =
      find (\<lambda>x. o_id x = i) (map (\<lambda>x. x\<lparr>o_platform_commission := 0\<rparr>) xs)" for xs :: "order list"
    by (induction xs) auto
  have g: "map_option (\<lambda>m. m\<lparr>m_debt := 0\<rparr>) (find (\<lambda>m. m_id m = j) xs) =
      find (\<lambda>m. m_id m = j) (map (\<lambda>m. m\<lparr>m_debt := 0\<rparr>) xs)" for xs :: "merchant list"
    by (induction xs) auto
  show "map_option (\<lambda>x. x\<lparr>o_platform_commission := 0\<rparr>) (order_of db' i) = map_option (\<lambda>x. x\<lparr>o_platform_commission := 0\<rparr>) (order_of db i)"
    unfolding order_of_def f using assms by (simp add: share_env_def blank_commission_def)
  show "order_items db' = order_items db" using assms by (simp add: share_env_def blank_commission_def)
  show "map_option (\<lambda>m. m\<lparr>m_debt := 0\<rparr>) (merchant_of db' j) = map_option (\<lambda>m. m\<lparr>m_debt := 0\<rparr>) (merchant_of db j)"
    unfolding merchant_of_def g using assms by (simp add: share_env_def blank_commission_def)
qed

lemma applyTx_share_env:
  fixes db :: "'a settle_db_scheme"
  assumes "applyTx u a kind ref nt actor db = Inr (r, db')"
  shows "share_env db' = share_env db" and "settlements db' = settlements db" and "merchant_of db' = merchant_of db"
proof -
  obtain ws ts n where "db' = db\<lparr>wallets := ws, wallet_txs := ts, next_tx := n\<rparr>" using applyTx_frame[OF assms] by blast
  then show "share_env db' = share_env db" "settlements db' = settlements db" "merchant_of db' = merchant_of db"
    by (simp_all add: share_env_def merchant_of_def fun_eq_iff)
qed

lemma wipe_share_env:
  fixes db :: "'a settle_db_scheme"
  assumes "wipe_debts db' = wipe_debts db"
  shows "share_env db' = share_env db" and "settlements db' = settlements db"
proof -
  have w: "map (\<lambda>m. m\<lparr>m_debt := 0\<rparr>) (merchants (wipe_debts x)) = map (\<lambda>m. m\<lparr>m_debt := 0\<rparr>) (merchants x)"
    "orders (wipe_debts x) = orders x" for x :: "'a settle_db_scheme"
    by (simp_all add: wipe_debts_def)
  note t = settle_tables_eqD[OF wipe_settle_tables(1)[OF assms]]
  show "share_env db' = share_env db" using w[of db] w[of db'] assms t by (simp add: share_env_def)
  show "settlements db' = settlements db" using t by simp
qed

lemma order_env:
  fixes db :: "'a settle_db_scheme"
  shows "share_env (blank_commission (update_order ord (\<lambda>x. x\<lparr>o_platform_commission := c\<rparr>) db)) = share_env (blank_commission db)"
    and "share_env (db\<lparr>settlements := ss\<rparr>) = share_env db" and "share_env (db\<lparr>reversals := rs\<rparr>) = share_env db"
    and "share_env (db\<lparr>next_uuid := n\<rparr>) = share_env db"
  by (auto simp: share_env_def update_order_def blank_commission_def)

text \<open>The shares depend only on that and on the percentage settled with each store.\<close>

lemma store_share_env:
  fixes db db' :: "'a settle_db_scheme"
  assumes env: "share_env (blank_commission db') = share_env (blank_commission db)" and x: "x'\<lparr>o_platform_commission := 0\<rparr> = x\<lparr>o_platform_commission := 0\<rparr>"
    and pct: "\<And>row. merchant_of db m = Some row \<Longrightarrow>
      settledPct (m_commission row) (frozen_pct db' (o_id x) m) snap = settledPct (m_commission row) (frozen_pct db (o_id x) m) snap"
  shows "store_share db' snap x' m = store_share db snap x m"
proof -
  have id: "o_id x' = o_id x" "o_merchant x' = o_merchant x"
    using arg_cong[OF x, of o_id] arg_cong[OF x, of o_merchant] by simp_all
  have "item_store x' = item_store x" using id by (simp add: item_store_def fun_eq_iff split: option.split)
  then have items: "store_items db' x' m = store_items db x m"
    using share_env_eqD(2)[OF env] id by (simp add: store_items_def)
  show ?thesis
  proof (cases "merchant_of db m")
    case None
    with share_env_eqD(3)[OF env, of m] have "merchant_of db' m = None" by simp
    with None show ?thesis by (simp add: store_share_def)
  next
    case (Some r)
    with share_env_eqD(3)[OF env, of m] obtain r' where r': "merchant_of db' m = Some r'"
      and eq: "r'\<lparr>m_debt := 0\<rparr> = r\<lparr>m_debt := 0\<rparr>" by auto
    have f: "m_id r' = m_id r" "m_owner r' = m_owner r" "m_commission r' = m_commission r" "m_method r' = m_method r"
      using arg_cong[OF eq, of m_id] arg_cong[OF eq, of m_owner] arg_cong[OF eq, of m_commission] arg_cong[OF eq, of m_method]
      by simp_all
    have p: "settledPct (m_commission r) (frozen_pct db' (o_id x) m) snap = settledPct (m_commission r) (frozen_pct db (o_id x) m) snap"
      by (rule pct[OF Some])
    show ?thesis using Some r' items by (simp add: store_share_def share_of_def f p id Let_def)
  qed
qed

lemma snapshotOf_env:
  assumes "x'\<lparr>o_platform_commission := 0\<rparr> = x\<lparr>o_platform_commission := 0\<rparr>" and "order_of db' ord = Some x'" and "order_of db ord = Some x"
  shows "snapshotOf ord db' = snapshotOf ord db"
  using assms(2,3) arg_cong[OF assms(1), of o_snap_merchant_pct] arg_cong[OF assms(1), of o_snap_rep_pct]
    arg_cong[OF assms(1), of o_snap_source] arg_cong[OF assms(1), of o_snap_activation]
  by (simp add: snapshotOf_def)

lemma merchantShares_env:
  fixes db db' :: "'a settle_db_scheme"
  assumes env: "share_env (blank_commission db') = share_env (blank_commission db)"
    and pct: "\<And>m row snap. snapshotOf ord db = Inr snap \<Longrightarrow> merchant_of db m = Some row \<Longrightarrow>
      settledPct (m_commission row) (frozen_pct db' ord m) snap = settledPct (m_commission row) (frozen_pct db ord m) snap"
  shows "merchantShares ord db' = merchantShares ord db"
proof (cases "order_of db ord")
  case None
  with share_env_eqD(1)[OF env, of ord] show ?thesis by (simp add: merchantShares_def snapshotOf_def)
next
  case (Some x)
  with share_env_eqD(1)[OF env, of ord] obtain x' where x': "order_of db' ord = Some x'"
    and eq: "x'\<lparr>o_platform_commission := 0\<rparr> = x\<lparr>o_platform_commission := 0\<rparr>" by auto
  have id: "o_id x = ord" using order_of_Some[OF Some] by simp
  have f: "o_id x' = o_id x" "o_merchant x' = o_merchant x" "o_subtotal x' = o_subtotal x"
    using arg_cong[OF eq, of o_id] arg_cong[OF eq, of o_merchant] arg_cong[OF eq, of o_subtotal] by simp_all
  have snap: "snapshotOf ord db' = snapshotOf ord db" by (rule snapshotOf_env[OF eq x' Some])
  have env_m: "(merchant_of db' m = None) = (merchant_of db m = None)" for m
    using share_env_eqD(3)[OF env, of m] by (cases "merchant_of db m") auto
  have "item_store x' = item_store x" using f by (simp add: item_store_def fun_eq_iff split: option.split)
  with env_m have stores: "order_stores db' x' = order_stores db x"
    using share_env_eqD(2)[OF env] f by (simp add: order_stores_def cong: option.case_cong)
  show ?thesis
  proof (cases "snapshotOf ord db")
    case (Inr sn)
    have share: "store_share db' sn x' m = store_share db sn x m" for m
      by (rule store_share_env[OF env eq]) (use pct[OF Inr] id in simp)
    have alone: "sole_share db' sn x' = sole_share db sn x"
    proof (cases "o_merchant x")
      case (Some m)
      show ?thesis
      proof (cases "merchant_of db m")
        case None
        with env_m[of m] Some f show ?thesis by (simp add: sole_share_def)
      next
        case (Some r)
        with share_env_eqD(3)[OF env, of m] obtain r' where r': "merchant_of db' m = Some r'"
          and req: "r'\<lparr>m_debt := 0\<rparr> = r\<lparr>m_debt := 0\<rparr>" by auto
        have "m_id r' = m_id r" "m_owner r' = m_owner r" "m_commission r' = m_commission r" "m_method r' = m_method r"
          using arg_cong[OF req, of m_id] arg_cong[OF req, of m_owner] arg_cong[OF req, of m_commission] arg_cong[OF req, of m_method]
          by simp_all
        with pct[OF Inr Some] r' Some \<open>o_merchant x = Some m\<close> f id show ?thesis
          by (simp add: sole_share_def share_of_def Let_def)
      qed
    qed (use f in \<open>simp add: sole_share_def\<close>)
    show ?thesis by (simp add: merchantShares_def snap Inr x' Some stores share alone cong: if_cong)
  qed (simp add: merchantShares_def snap)
qed

section \<open>What the operations do to a row\<close>

lemma in_key_update:
  "y \<in> set (map (\<lambda>s. if key s = i then f s else s) xs) \<Longrightarrow> (\<exists>x\<in>set xs. key x = i \<and> y = f x) \<or> y \<in> set xs \<and> key y \<noteq> i"
proof -
  assume "y \<in> set (map (\<lambda>s. if key s = i then f s else s) xs)"
  then obtain x where "x \<in> set xs" "y = (if key x = i then f x else x)" unfolding list.set_map by (rule imageE)
  then show ?thesis by (cases "key x = i") auto
qed

definition row_evolves :: "settlement \<Rightarrow> settlement \<Rightarrow> bool" where
  "row_evolves s s' \<longleftrightarrow>
     st_id s' = st_id s \<and> st_order s' = st_order s \<and> st_merchant s' = st_merchant s \<and> st_method s' = st_method s \<and>
     st_amount s' = st_amount s \<and> st_adjusted s' = st_adjusted s \<and> st_pct s' = st_pct s \<and>
     st_earning_tx s' = st_earning_tx s \<and> (st_accrued_tx s \<noteq> None \<longrightarrow> st_accrued_tx s' \<noteq> None) \<and>
     (st_state s' = ''cash_paid'' \<longrightarrow> st_paid_tx s' \<noteq> None \<or> st_state s = ''cash_paid'' \<and> st_paid_tx s' = st_paid_tx s)"

definition evolves :: "string \<Rightarrow> 'a settle_db_scheme \<Rightarrow> 'a settle_db_scheme \<Rightarrow> bool" where
  "evolves sid db db' \<longleftrightarrow> share_env db' = share_env db \<and>
     (\<exists>f. (\<forall>s. row_evolves s (f s)) \<and> settlements db' = map (\<lambda>s. if st_id s = sid then f s else s) (settlements db))"

lemma evolves_same:
  "share_env db' = share_env db \<Longrightarrow> settlements db' = settlements db \<Longrightarrow> evolves sid db db'"
  unfolding evolves_def row_evolves_def by (intro conjI exI[of _ "\<lambda>s. s"]) simp_all

lemma evolves_trans:
  assumes "evolves sid db1 db2" and "evolves sid db2 db3"
  shows "evolves sid db1 db3"
proof -
  from assms obtain f g where f: "\<And>s. row_evolves s (f s)" "settlements db2 = map (\<lambda>s. if st_id s = sid then f s else s) (settlements db1)"
    and g: "\<And>s. row_evolves s (g s)" "settlements db3 = map (\<lambda>s. if st_id s = sid then g s else s) (settlements db2)"
    unfolding evolves_def by blast
  have id: "st_id (f s) = st_id s" for s using f(1)[of s] by (simp add: row_evolves_def)
  have "row_evolves s (g (f s))" for s
    using f(1)[of s] g(1)[of "f s"] by (auto simp: row_evolves_def)
  moreover have "settlements db3 = map (\<lambda>s. if st_id s = sid then g (f s) else s) (settlements db1)"
    by (simp add: f(2) g(2) id)
  moreover have "share_env db3 = share_env db1" using assms by (simp add: evolves_def)
  ultimately show ?thesis unfolding evolves_def by (intro conjI exI[of _ "\<lambda>s. g (f s)"]) blast+
qed

lemma evolves_applyTx: "applyTx u a kind ref nt actor db = Inr (r, db') \<Longrightarrow> evolves sid db db'"
  by (rule evolves_same[OF applyTx_share_env(1,2)])

lemma evolves_wipe: "wipe_debts db' = wipe_debts db \<Longrightarrow> evolves sid db db'"
  by (rule evolves_same[OF wipe_share_env])

lemma evolves_update:
  assumes "update_settlement sid f db = Inr db'" and "\<And>s. row_evolves s (f s)"
  shows "evolves sid db db'"
proof -
  from assms(1) have db': "db' = db\<lparr>settlements := map (\<lambda>s. if st_id s = sid then f s else s) (settlements db)\<rparr>"
    by (simp add: update_settlement_Inr)
  have "share_env db' = share_env db" unfolding db' by (rule order_env(2))
  moreover have "settlements db' = map (\<lambda>s. if st_id s = sid then f s else s) (settlements db)" unfolding db' by simp
  ultimately show ?thesis unfolding evolves_def by (intro conjI exI[of _ f]) (use assms(2) in blast)+
qed

lemma postCashReversal_evolves:
  fixes db :: "'a settle_db_scheme"
  assumes "postCashReversal sid hid a cause event ord actor db = Inr (tx, db')"
  shows "evolves sid db db'"
proof (cases "a \<le> 0 \<or> list_ex (\<lambda>r. rv_settlement r = sid \<and> rv_event r = event) (reversals db)")
  case True
  then show ?thesis using postCashReversal_same[OF True] assms by (auto intro: evolves_same)
next
  case False
  then obtain b db1 where p: "applyTx hid (- a) ''merchant_cash_accrued'' ord (cashReversalNote cause) (Some actor) db = Inr ((b, tx), db1)"
    and u: "update_settlement sid (reversed_row a)
        (db1\<lparr>reversals := reversals db1 @ [\<lparr>rv_settlement = sid, rv_tx = tx, rv_amount = a, rv_cause = cause, rv_event = event\<rparr>]\<rparr>)
        = Inr db'" (is "update_settlement sid _ ?db2 = _")
    using assms by (auto elim: postCashReversal_Inr)
  have "evolves sid db1 ?db2" by (rule evolves_same) (simp_all add: order_env)
  moreover have "evolves sid ?db2 db'" by (rule evolves_update[OF u]) (auto simp: row_evolves_def reversed_row_def)
  ultimately show ?thesis using evolves_applyTx[OF p] evolves_trans by blast
qed

lemma offsetMerchantDebtCash_evolves:
  fixes db :: "'a settle_db_scheme"
  assumes "offsetMerchantDebtCash sid m hid available ord actor db = Inr db'"
  shows "evolves sid db db'"
proof (cases "db' = db")
  case False
  with assms obtain amt tx db1 where p: "postCashReversal sid hid amt ''debt_offset'' (''debt:'' @ ord) ord actor db = Inr (tx, db1)"
    and rest: "db' = db1 \<or> (\<exists>n. SettleDebt PartyMerchant m amt ord tx (Some actor) db1 = Inr (n, db'))"
    unfolding offsetMerchantDebtCash_def Let_def by (auto simp: result_simps split: if_splits)
  from rest have "evolves sid db1 db'"
    by (auto simp: SettleDebt_def intro: evolves_same dest!: SettleBy_wipe intro!: evolves_wipe)
  with postCashReversal_evolves[OF p] show ?thesis by (rule evolves_trans)
qed (auto intro: evolves_same)

lemma accrueCashSettlement_evolves:
  fixes db :: "'a settle_db_scheme"
  assumes "accrueCashSettlement sid ord m due actor db = Inr db'"
  shows "evolves sid db db'" and "\<forall>s\<in>set (settlements db'). st_id s = sid \<longrightarrow> st_accrued_tx s \<noteq> None"
proof -
  from assms obtain hid b tx db1 db2 where
    p: "applyTx hid due ''merchant_cash_accrued'' ord ''cash due to the merchant'' (Some actor) db = Inr ((b, tx), db1)"
    and u: "update_settlement sid (\<lambda>s. s\<lparr>st_accrued_tx := Some tx\<rparr>) db1 = Inr db2"
    and o: "offsetMerchantDebtCash sid m hid due ord actor db2 = Inr db'"
    by (auto simp: accrueCashSettlement_def result_simps ApplyTxID_def split: prod.splits)
  have e2: "evolves sid db1 db2" by (rule evolves_update[OF u]) (simp add: row_evolves_def)
  note e3 = offsetMerchantDebtCash_evolves[OF o]
  show "evolves sid db db'" using evolves_applyTx[OF p] e2 e3 evolves_trans by blast
  have s2: "settlements db2 = map (\<lambda>s. if st_id s = sid then s\<lparr>st_accrued_tx := Some tx\<rparr> else s) (settlements db1)"
    using u by (simp add: update_settlement_Inr)
  have acc: "st_accrued_tx s \<noteq> None" if s: "s \<in> set (settlements db2)" "st_id s = sid" for s
    using in_key_update[OF s(1)[unfolded s2]] s(2) by (elim disjE bexE conjE) simp_all
  from e3 obtain f where f: "\<forall>s. row_evolves s (f s)"
    and s': "settlements db' = map (\<lambda>s. if st_id s = sid then f s else s) (settlements db2)" unfolding evolves_def by blast
  show "\<forall>s\<in>set (settlements db'). st_id s = sid \<longrightarrow> st_accrued_tx s \<noteq> None"
  proof (intro ballI impI)
    fix s assume "s \<in> set (settlements db')" "st_id s = sid"
    then obtain s0 where "s0 \<in> set (settlements db2)" "st_id s0 = sid" "s = f s0"
      using in_key_update[of s st_id sid f] unfolding s' by blast
    with f acc[of s0] show "st_accrued_tx s \<noteq> None" unfolding row_evolves_def by blast
  qed
qed

lemma payCashSettlement_evolves:
  fixes db :: "'a settle_db_scheme"
  assumes "payCashSettlement sid ord m x payer via txNote nt db = Inr (owner, db')"
  shows "evolves sid db db'"
proof -
  from assms obtain hid b tx db1 where p: "applyTx hid (- x) ''merchant_cash_paid'' ord txNote (Some payer) db = Inr ((b, tx), db1)"
    and u: "update_settlement sid (\<lambda>s. s\<lparr>st_state := ''cash_paid'', st_paid_tx := Some tx, st_paid_by := Some payer,
       st_paid_owner := Some owner, st_note := nt, st_paid_via := Some via\<rparr>) db1 = Inr db'"
    by (cases "merchant_of db m"; cases "m_owner (the (merchant_of db m))")
      (auto simp: payCashSettlement_def result_simps ApplyTxID_def split: prod.splits)
  have "evolves sid db1 db'" by (rule evolves_update[OF u]) (simp add: row_evolves_def)
  with evolves_applyTx[OF p] show ?thesis by (rule evolves_trans)
qed

lemma payCashByDriver_evolves:
  fixes db :: "'a settle_db_scheme"
  assumes "payCashByDriver sid ord m driver db = Inr db'"
  shows "evolves sid db db'"
  using assms
  by (auto simp: payCashByDriver_def result_simps split: option.splits if_splits
      intro: evolves_same payCashSettlement_evolves)

lemma settlement_for_map:
  assumes "settlements db' = map (\<lambda>s. if st_id s = sid then f s else s) (settlements db)"
    and "\<And>s. st_order (f s) = st_order s \<and> st_merchant (f s) = st_merchant s"
  shows "settlement_for db' r m = map_option (\<lambda>s. if st_id s = sid then f s else s) (settlement_for db r m)"
proof -
  have "find (\<lambda>s. st_order s = r \<and> st_merchant s = m) (map (\<lambda>s. if st_id s = sid then f s else s) xs) =
      map_option (\<lambda>s. if st_id s = sid then f s else s) (find (\<lambda>s. st_order s = r \<and> st_merchant s = m) xs)" for xs
    using assms(2) by (induction xs) auto
  with assms(1) show ?thesis by (simp add: settlement_for_def)
qed

lemma evolves_settlement_for:
  assumes "evolves sid db db'"
  shows "\<exists>f. (\<forall>s. row_evolves s (f s)) \<and>
    (\<forall>r m. settlement_for db' r m = map_option (\<lambda>s. if st_id s = sid then f s else s) (settlement_for db r m))"
proof -
  from assms obtain f where f: "\<forall>s. row_evolves s (f s)" "settlements db' = map (\<lambda>s. if st_id s = sid then f s else s) (settlements db)"
    unfolding evolves_def by blast
  then have "st_order (f s) = st_order s \<and> st_merchant (f s) = st_merchant s" for s by (simp add: row_evolves_def)
  with settlement_for_map[OF f(2)] f(1) show ?thesis by blast
qed

section \<open>A settled share\<close>

definition row_valid :: "string \<Rightarrow> int \<Rightarrow> settlement \<Rightarrow> bool" where
  "row_valid meth due s \<longleftrightarrow> st_method s = meth \<and> st_amount s + st_adjusted s = due \<and>
     (meth = ''wallet'' \<and> (st_state s = ''wallet_credited'' \<and> st_earning_tx s \<noteq> None \<or> st_state s = ''wallet_reversed'') \<or>
      meth = ''cash'' \<and> st_state s \<in> {''cash_due'', ''cash_paid'', ''cash_reversed''} \<and> st_accrued_tx s \<noteq> None \<and>
        (st_state s = ''cash_paid'' \<longrightarrow> st_paid_tx s \<noteq> None))"

lemma validateSettlement_iff:
  "validateSettlement ord m meth due db = Inr () \<longleftrightarrow> (\<exists>s. settlement_for db ord m = Some s \<and> row_valid meth due s)"
  by (auto simp: validateSettlement_def row_valid_def split: option.splits if_splits)

definition share_applies :: "string \<Rightarrow> source_share \<Rightarrow> bool" where
  "share_applies only sh \<longleftrightarrow> ss_owner sh \<noteq> None \<and> 0 < ss_due sh \<and> (only = '''' \<or> EqualFold (ss_merchant sh) only)"

definition share_settled :: "'a settle_db_scheme \<Rightarrow> string \<Rightarrow> source_share \<Rightarrow> bool" where
  "share_settled db ord sh \<longleftrightarrow> in64 (ss_due sh) \<and> ss_method sh \<in> {''wallet'', ''cash''} \<and>
     (\<exists>s. settlement_for db ord (ss_merchant sh) = Some s \<and> row_valid (ss_method sh) (ss_due sh) s)"

lemma insert_settlement_cases:
  "insert_settlement ord sh owner db =
    (if \<not> (0 < ss_due sh \<and> in64 (ss_due sh) \<and> ss_method sh \<in> {''wallet'', ''cash''}) then Inl ErrDb
     else if settlement_for db ord (ss_merchant sh) \<noteq> None then Inr (None, db)
     else let row = new_settlement ord sh owner db
     in Inr (Some (st_id row), db\<lparr>settlements := settlements db @ [row], next_uuid := next_uuid db + 1\<rparr>))"
  by (simp add: insert_settlement_def new_settlement_def Let_def settlement_fits_def method_state_ok_def initialState_def in64_def)

text \<open>A share that is settled is left alone.\<close>

lemma settle_share_again:
  assumes "share_applies only sh \<longrightarrow> share_settled db ord sh"
  shows "settle_share ord actor driver only sh (out, db) = Inr (out, db)"
proof (cases "share_applies only sh")
  case True
  then obtain owner where "ss_owner sh = Some owner" "0 < ss_due sh" "only = '''' \<or> EqualFold (ss_merchant sh) only"
    by (auto simp: share_applies_def)
  moreover from assms True have s: "share_settled db ord sh" by simp
  then have "validateSettlement ord (ss_merchant sh) (ss_method sh) (ss_due sh) db = Inr ()"
    by (simp add: validateSettlement_iff share_settled_def)
  ultimately show ?thesis using s
    by (auto simp: settle_share_def insert_settlement_cases result_simps share_settled_def)
next
  case False
  then show ?thesis by (auto simp: settle_share_def share_applies_def split: option.split)
qed

lemma uuid_inject [simp]: "uuid m = uuid n \<longleftrightarrow> m = n"
  by (auto simp: uuid_def replicate_eq_replicate)

text \<open>A new row opens a gap of what it adds to the cash due.\<close>

lemma insert_settlement_new:
  fixes db :: "'a settle_db_scheme"
  assumes i: "insert_settlement ord sh owner db = Inr (Some sid, db')" and inv: "settle_inv db"
  shows "\<exists>row. settlement_of db' sid = Some row \<and> st_method row = ss_method sh \<and> st_state row = initialState (ss_method sh) \<and>
      st_amount row = ss_due sh \<and> st_reversed row = 0 \<and> st_adjusted row = 0 \<and> st_pct row = Some (ss_pct sh) \<and>
      settlements db' = settlements db @ [row] \<and> st_id row = sid \<and> st_order row = ord \<and> st_merchant row = ss_merchant sh"
    and "rows_ok db'" and "holding_gap (if ss_method sh = ''cash'' then ss_due sh else 0) db'"
    and "share_env db' = share_env db" and "cashHoldingOn db' = cashHoldingOn db"
    and "settlement_for db ord (ss_merchant sh) = None" and "ss_method sh \<in> {''wallet'', ''cash''}" and "in64 (ss_due sh)"
    and "sid \<notin> st_id ` set (settlements db)" and "merchants db' = merchants db"
proof -
  from i have pre: "0 < ss_due sh" "in64 (ss_due sh)" "ss_method sh \<in> {''wallet'', ''cash''}"
    "settlement_for db ord (ss_merchant sh) = None" and sid: "sid = uuid (next_uuid db)"
    by (auto simp: insert_settlement_cases new_settlement_def Let_def split: if_splits)
  define row where "row = new_settlement ord sh owner db"
  have db': "db' = db\<lparr>settlements := settlements db @ [row], next_uuid := next_uuid db + 1\<rparr>"
    using i by (auto simp: insert_settlement_cases row_def Let_def split: if_splits)
  have inv': "rows_ok db" "holding_gap 0 db" using inv by (simp_all add: settle_inv_def)
  have fresh: "sid \<notin> st_id ` set (settlements db)"
  proof
    assume "sid \<in> st_id ` set (settlements db)"
    then obtain s where "s \<in> set (settlements db)" "st_id s = uuid (next_uuid db)" by (auto simp: sid)
    with inv'(1) obtain n where "n < next_uuid db" "uuid (next_uuid db) = uuid n" by (auto simp: rows_ok_def)
    then show False by simp
  qed
  have ok: "settlement_ok row"
    using pre by (auto simp: settlement_ok_def settlement_fits_def method_state_ok_def initialState_def row_def new_settlement_def in64_def)
  have rev0: "rev_total db sid = 0"
  proof -
    have "[r \<leftarrow> reversals db. rv_settlement r = sid] = []"
      using inv'(1) fresh by (auto simp: rows_ok_def filter_empty_conv)
    then show ?thesis by (simp add: rev_total_def)
  qed
  have rev: "rev_total db' = rev_total db" by (simp add: db' rev_total_def fun_eq_iff)
  have id: "st_id row = sid" by (simp add: row_def new_settlement_def sid)
  show "rows_ok db'"
    unfolding rows_ok_def rev
    using inv'(1) fresh ok rev0 id unfolding rows_ok_def
    by (auto simp: db' row_def new_settlement_def sid less_Suc_eq intro: exI[of _ "next_uuid db"])
  have "due_of row = (if ss_method sh = ''cash'' then ss_due sh else 0)"
    by (auto simp: due_of_def row_def new_settlement_def st_outstanding_def initialState_def)
  then show "holding_gap (if ss_method sh = ''cash'' then ss_due sh else 0) db'"
    using inv'(2) by (auto simp: holding_gap_def due_total_def db' cashHoldingOn_def Balance_def wallet_of_def)
  have "find (\<lambda>s. st_id s = sid) (settlements db) = None" using fresh by (auto simp: find_None_iff)
  moreover have "find P (xs @ [y]) = (case find P xs of None \<Rightarrow> if P y then Some y else None | Some z \<Rightarrow> Some z)"
    for P :: "settlement \<Rightarrow> bool" and xs y by (induction xs) auto
  ultimately have "settlement_of db' sid = Some row" using id by (simp add: settlement_of_def db')
  then show "\<exists>row. settlement_of db' sid = Some row \<and> st_method row = ss_method sh \<and> st_state row = initialState (ss_method sh) \<and>
      st_amount row = ss_due sh \<and> st_reversed row = 0 \<and> st_adjusted row = 0 \<and> st_pct row = Some (ss_pct sh) \<and>
      settlements db' = settlements db @ [row] \<and> st_id row = sid \<and> st_order row = ord \<and> st_merchant row = ss_merchant sh"
    by (intro exI[of _ row]) (simp add: row_def new_settlement_def db' sid)
  show "share_env db' = share_env db" "cashHoldingOn db' = cashHoldingOn db" "merchants db' = merchants db"
    by (simp_all add: db' share_env_def cashHoldingOn_def)
  show "sid \<notin> st_id ` set (settlements db)" by (rule fresh)
qed (use i in \<open>auto simp: insert_settlement_cases Let_def split: if_splits\<close>)

lemma settlement_for_append:
  assumes "settlements db' = settlements db @ [row]" and "settlement_for db (st_order row) (st_merchant row) = None"
  shows "settlement_for db' r m = (if r = st_order row \<and> m = st_merchant row then Some row else settlement_for db r m)"
proof -
  have "find P (xs @ [y]) = (case find P xs of None \<Rightarrow> if P y then Some y else None | Some z \<Rightarrow> Some z)"
    for P :: "settlement \<Rightarrow> bool" and xs y by (induction xs) auto
  with assms show ?thesis by (auto simp: settlement_for_def split: option.split)
qed

lemma offsetMerchantDebt_shape:
  assumes "offsetMerchantDebt m owner available ord actor db = Inr db'"
  shows "db' = db \<or> (\<exists>a nt b tx db1 n. applyTx owner (- a) ''merchant_earning'' ord nt (Some actor) db = Inr ((b, tx), db1) \<and>
    SettleDebt PartyMerchant m a ord tx (Some actor) db1 = Inr (n, db'))"
  using assms
  unfolding offsetMerchantDebt_def offset_debt_def deduct_def offset_pay_def ApplyTxID_def Let_def
  by (fastforce simp: result_simps split: if_splits)

text \<open>What one share does: the invariant stays, no other row changes, and the share is settled.\<close>

lemma settle_wallet_row:
  fixes db :: "'a settle_db_scheme"
  assumes p: "applyTx owner due ''merchant_earning'' ord nt (Some actor) db = Inr ((b, tx), db2)"
    and u: "update_settlement sid (\<lambda>s. s\<lparr>st_earning_tx := Some tx\<rparr>) db2 = Inr db3"
    and o: "offsetMerchantDebt m owner due ord actor db3 = Inr db'"
    and inv: "rows_ok db" "holding_gap 0 db" and apart: "cashHoldingOn db \<noteq> Inr owner"
    and row: "settlement_of db sid = Some row" "st_method row = ''wallet''" "st_state row = ''wallet_credited''"
  shows "settle_inv db'" and "share_env db' = share_env db" and "cashHoldingOn db' = cashHoldingOn db"
    and "settlements db' = map (\<lambda>s. if st_id s = sid then s\<lparr>st_earning_tx := Some tx\<rparr> else s) (settlements db)"
proof -
  note g = applyTx_gap[OF p inv(2)]
  have hold2: "cashHoldingOn db2 = cashHoldingOn db" by (rule applyTx_system(2)[OF p])
  have rows2: "rows_ok db2" and gap2: "holding_gap 0 db2" using g(1,4) inv(1) apart hold2 by simp_all
  have s2: "settlement_of db2 sid = Some row" using g(2) row(1) by simp
  have dist: "distinct (map st_id (settlements db2))" using rows2 by (simp add: rows_ok_def)
  note e = update_settlement_effect[OF u s2 dist, simplified]
  have sok: "settlement_ok row" using inv(1) settlement_of_Some[OF row(1)] by (auto simp: rows_ok_def)
  have rows3: "rows_ok db3"
    by (rule update_settlement_rows[OF u s2 rows2]) (use sok in \<open>simp_all add: settlement_ok_def settlement_fits_def\<close>)
  have w3: "wallets db3 = wallets db2" by (subst e(5), simp)
  have "due_total db3 = due_total db2" using e(2) by (simp add: due_of_def st_outstanding_def)
  moreover have "Balance db3 h = Balance db2 h" for h by (simp add: Balance_def wallet_of_def w3)
  ultimately have gap3: "holding_gap 0 db3" using gap2 system_wallets_eq(2)[OF w3] by (simp add: holding_gap_def)
  have hold3: "cashHoldingOn db3 = cashHoldingOn db" using hold2 system_wallets_eq(2)[OF w3] by simp
  have env3: "share_env db3 = share_env db" using applyTx_share_env(1)[OF p] order_env(2) e(5) by metis
  have "settle_inv db' \<and> share_env db' = share_env db3 \<and> cashHoldingOn db' = cashHoldingOn db3 \<and> settlements db' = settlements db3"
    using offsetMerchantDebt_shape[OF o]
  proof (elim disjE exE conjE)
    fix a nt b tx' db4 n
    assume p4: "applyTx owner (- a) ''merchant_earning'' ord nt (Some actor) db3 = Inr ((b, tx'), db4)"
      and sd: "SettleDebt PartyMerchant m a ord tx' (Some actor) db4 = Inr (n, db')"
    note g4 = applyTx_gap[OF p4 gap3]
    have hold4: "cashHoldingOn db4 = cashHoldingOn db3" by (rule applyTx_system(2)[OF p4])
    have inv4: "settle_inv db4" using g4(1,4) rows3 hold4 hold3 apart by (simp add: settle_inv_def)
    have w: "wipe_debts db' = wipe_debts db4" using sd unfolding SettleDebt_def by (rule SettleBy_wipe)
    show ?thesis
      using debts_settle_inv[OF w] wipe_share_env[OF w] inv4 hold4 applyTx_share_env(1,2)[OF p4] by simp
  qed (use rows3 gap3 in \<open>simp add: settle_inv_def\<close>)
  moreover have "settlements db3 = map (\<lambda>s. if st_id s = sid then s\<lparr>st_earning_tx := Some tx\<rparr> else s) (settlements db)"
    using u applyTx_share_env(2)[OF p] by (simp add: update_settlement_Inr)
  ultimately show "settle_inv db'" and "share_env db' = share_env db" and "cashHoldingOn db' = cashHoldingOn db"
    and "settlements db' = map (\<lambda>s. if st_id s = sid then s\<lparr>st_earning_tx := Some tx\<rparr> else s) (settlements db)"
    using env3 hold3 by simp_all
qed

lemma settle_share_step:
  fixes db :: "'a settle_db_scheme"
  assumes r: "settle_share ord actor driver only sh (out, db) = Inr (out', db')" and inv: "settle_inv db"
    and apart: "\<And>owner. ss_owner sh = Some owner \<Longrightarrow> cashHoldingOn db \<noteq> Inr owner"
  shows "settle_inv db' \<and> share_env db' = share_env db \<and> cashHoldingOn db' = cashHoldingOn db \<and>
    (\<forall>r m. r \<noteq> ord \<or> m \<noteq> ss_merchant sh \<longrightarrow> settlement_for db' r m = settlement_for db r m) \<and>
    (share_applies only sh \<longrightarrow> share_settled db' ord sh) \<and>
    (frozen_pct db' ord (ss_merchant sh) = frozen_pct db ord (ss_merchant sh) \<or> frozen_pct db' ord (ss_merchant sh) = Some (ss_pct sh))"
proof (cases "share_applies only sh")
  case False
  with r have "db' = db" by (auto simp: settle_share_def share_applies_def split: option.splits if_splits)
  with False inv show ?thesis by simp
next
  case True
  then obtain owner where owner: "ss_owner sh = Some owner" and due: "\<not> ss_due sh \<le> 0"
    and only: "\<not> (only \<noteq> '''' \<and> \<not> EqualFold (ss_merchant sh) only)" by (auto simp: share_applies_def)
  from r obtain created db1 where i: "insert_settlement ord sh owner db = Inr (created, db1)"
    by (auto simp: settle_share_def owner due only result_simps)
  show ?thesis
  proof (cases created)
    case None
    with i have pre: "in64 (ss_due sh)" "ss_method sh \<in> {''wallet'', ''cash''}" "db1 = db"
      by (auto simp: insert_settlement_cases Let_def split: if_splits)
    with r i None have "db' = db" "validateSettlement ord (ss_merchant sh) (ss_method sh) (ss_due sh) db = Inr ()"
      by (auto simp: settle_share_def owner due only result_simps)
    with pre inv show ?thesis by (simp add: share_settled_def validateSettlement_iff)
  next
    case (Some sid)
    note n = insert_settlement_new[OF i[unfolded Some] inv]
    from n(1) obtain row where row: "settlement_of db1 sid = Some row" "st_method row = ss_method sh"
      "st_state row = initialState (ss_method sh)" "st_amount row = ss_due sh" "st_reversed row = 0" "st_adjusted row = 0"
      "st_pct row = Some (ss_pct sh)" "settlements db1 = settlements db @ [row]" "st_id row = sid" "st_order row = ord"
      "st_merchant row = ss_merchant sh" by blast
    have for1: "settlement_for db1 r m = (if r = ord \<and> m = ss_merchant sh then Some row else settlement_for db r m)" for r m
      using settlement_for_append[OF row(8)] n(6) row(10,11) by simp
    have other: "settlement_for db r m \<noteq> Some s \<or> st_id s \<noteq> sid" for r m s
      using n(9) by (auto simp: settlement_for_def find_Some_iff)
    have finish: ?thesis
      if res: "settle_inv db'" "share_env db' = share_env db1" "cashHoldingOn db' = cashHoldingOn db1"
        and f: "\<And>r m. settlement_for db' r m = map_option (\<lambda>s. if st_id s = sid then f s else s) (settlement_for db1 r m)"
        and v: "row_valid (ss_method sh) (ss_due sh) (f row)" "st_pct (f row) = Some (ss_pct sh)" for f
    proof -
      have own: "settlement_for db' ord (ss_merchant sh) = Some (f row)" using f[of ord "ss_merchant sh"] for1 row(9) by simp
      have rest: "settlement_for db' r m = settlement_for db r m" if "r \<noteq> ord \<or> m \<noteq> ss_merchant sh" for r m
        using f[of r m] for1[of r m] other[of r m] that by (cases "settlement_for db r m") auto
      show ?thesis using res n(4,5,7,8) own rest v by (simp add: share_settled_def frozen_pct_def)
    qed
    show ?thesis
    proof (cases "ss_method sh = ''wallet''")
      case True
      with r i Some obtain b tx db2 db3 where
        p: "applyTx owner (ss_due sh) ''merchant_earning'' ord ''due for goods handed over'' (Some actor) db1 = Inr ((b, tx), db2)"
        and u: "update_settlement sid (\<lambda>s. s\<lparr>st_earning_tx := Some tx\<rparr>) db2 = Inr db3"
        and o: "offsetMerchantDebt (ss_merchant sh) owner (ss_due sh) ord actor db3 = Inr db'"
        by (auto simp: settle_share_def owner due only result_simps ApplyTxID_def)
      have gap: "holding_gap 0 db1" using n(3) True by simp
      have ap: "cashHoldingOn db1 \<noteq> Inr owner" using apart[OF owner] n(5) by simp
      have st: "st_state row = ''wallet_credited''" using row(3) True by (simp add: initialState_def)
      note w = settle_wallet_row[OF p u o n(2) gap ap row(1) row(2)[unfolded True] st]
      show ?thesis
      proof (rule finish[OF w(1-3)])
        show "settlement_for db' r m = map_option (\<lambda>s. if st_id s = sid then s\<lparr>st_earning_tx := Some tx\<rparr> else s) (settlement_for db1 r m)"
          for r m by (rule settlement_for_map[OF w(4)]) simp
      qed (use row True st in \<open>simp_all add: row_valid_def\<close>)
    next
      case False
      then have cash: "ss_method sh = ''cash''" using n(7) by simp
      from r i Some False obtain db2 where a: "accrueCashSettlement sid ord (ss_merchant sh) (ss_due sh) actor db1 = Inr db2"
        and pay: "case driver of None \<Rightarrow> db' = db2 | Some d \<Rightarrow> payCashByDriver sid ord (ss_merchant sh) d db2 = Inr db'"
        by (auto simp: settle_share_def owner due only result_simps split: option.splits)
      have gap: "holding_gap (ss_due sh) db1" using n(3) cash by simp
      have rowc: "st_method row = ''cash''" "st_state row = ''cash_due''" "ss_due sh \<le> st_amount row - st_reversed row"
        using row cash by (simp_all add: initialState_def)
      note ai = accrueCashSettlement_inv[OF a n(2) gap row(1) rowc]
      note ae = accrueCashSettlement_evolves[OF a]
      have dcash: "st_method s = ''cash''" if "settlement_of db2 sid = Some s" for s
      proof -
        from ae(1) obtain f where f: "\<forall>s. row_evolves s (f s)"
          and s2: "settlements db2 = map (\<lambda>s. if st_id s = sid then f s else s) (settlements db1)" unfolding evolves_def by blast
        from settlement_of_Some[OF that] have "s \<in> set (settlements db2)" "st_id s = sid" by auto
        then obtain s0 where s0: "s0 \<in> set (settlements db1)" "st_id s0 = sid" "s = f s0"
          using in_key_update[of s st_id sid f] unfolding s2 by blast
        then have "s0 = row" using n(9) row(8) by auto
        with s0(3) f rowc(1) show ?thesis by (simp add: row_evolves_def)
      qed
      have both: "settle_inv db' \<and> cashHoldingOn db' = cashHoldingOn db2 \<and> evolves sid db2 db'"
      proof (cases driver)
        case None
        with pay ai(1) show ?thesis by (auto intro: evolves_same)
      next
        case (Some d)
        with pay have pay: "payCashByDriver sid ord (ss_merchant sh) d db2 = Inr db'" by simp
        show ?thesis using payCashByDriver_inv(1,2)[OF pay ai(1) dcash] payCashByDriver_evolves[OF pay] by blast
      qed
      then have ev: "evolves sid db1 db'" using ae(1) evolves_trans by blast
      from evolves_settlement_for[OF ev] obtain f where f: "\<And>s. row_evolves s (f s)"
        and fm: "\<And>r m. settlement_for db' r m = map_option (\<lambda>s. if st_id s = sid then f s else s) (settlement_for db1 r m)" by blast
      have rows: "rows_ok db'" using both by (simp add: settle_inv_def)
      have "settlement_for db' ord (ss_merchant sh) = Some (f row)" using fm for1 row(9) by simp
      then have mem: "f row \<in> set (settlements db')" by (auto simp: settlement_for_def find_Some_iff)
      have acc: "st_accrued_tx (f row) \<noteq> None"
      proof -
        have "st_id (f row) = sid" using f[of row] row(9) by (simp add: row_evolves_def)
        moreover from both obtain g where g: "\<forall>s. row_evolves s (g s)"
          and s2: "settlements db' = map (\<lambda>s. if st_id s = sid then g s else s) (settlements db2)" unfolding evolves_def by blast
        ultimately obtain s0 where "s0 \<in> set (settlements db2)" "st_id s0 = sid" "f row = g s0"
          using in_key_update[of "f row" st_id sid g] mem unfolding s2 by blast
        with ae(2) g show ?thesis unfolding row_evolves_def by metis
      qed
      have fits: "settlement_fits (f row)" using rows mem by (auto simp: rows_ok_def settlement_ok_def)
      have valid: "row_valid (ss_method sh) (ss_due sh) (f row)"
        using f[of row] fits acc cash rowc row by (auto simp: row_valid_def row_evolves_def settlement_fits_def method_state_ok_def)
      show ?thesis
        by (rule finish[OF _ _ _ fm valid]) (use both ai(3) ev f[of row] row(7) in \<open>simp_all add: evolves_def row_evolves_def\<close>)
    qed
  qed
qed

section \<open>All the shares\<close>

lemma foldE_collect:
  "foldE (\<lambda>m acc. bindE (g m) (\<lambda>y. Inr (acc @ [y]))) ms acc = Inr r \<Longrightarrow> \<exists>ys. r = acc @ ys \<and> list_all2 (\<lambda>m y. g m = Inr y) ms ys"
proof (induction ms arbitrary: acc)
  case (Cons m ms)
  then obtain y where y: "g m = Inr y" "foldE (\<lambda>m acc. bindE (g m) (\<lambda>y. Inr (acc @ [y]))) ms (acc @ [y]) = Inr r"
    by (auto simp: result_simps)
  from Cons.IH[OF y(2)] obtain ys where "r = (acc @ [y]) @ ys" "list_all2 (\<lambda>m y. g m = Inr y) ms ys" by blast
  with y(1) show ?case by (intro exI[of _ "y # ys"]) simp
qed simp

lemma share_of_simps [simp]:
  "ss_merchant (share_of snap row fr meth cost) = m_id row" "ss_owner (share_of snap row fr meth cost) = m_owner row"
  "ss_pct (share_of snap row fr meth cost) = settledPct (m_commission row) fr snap" "ss_method (share_of snap row fr meth cost) = meth"
  by (simp_all add: share_of_def Let_def)

lemma merchant_of_Some: "merchant_of db m = Some row \<Longrightarrow> m_id row = m \<and> row \<in> set (merchants db)"
  by (auto simp: merchant_of_def find_Some_iff)

lemma merchantShares_facts:
  assumes r: "merchantShares ord db = Inr (shares, commission)"
  shows "\<exists>snap. snapshotOf ord db = Inr snap" and "distinct (map ss_merchant shares)" and "shares \<noteq> []"
    and "\<And>sh snap. snapshotOf ord db = Inr snap \<Longrightarrow> sh \<in> set shares \<Longrightarrow> \<exists>row. merchant_of db (ss_merchant sh) = Some row \<and>
      ss_owner sh = m_owner row \<and> ss_pct sh = settledPct (m_commission row) (frozen_pct db ord (ss_merchant sh)) snap"
proof -
  from r obtain snap x shs where snap: "snapshotOf ord db = Inr snap" and x: "order_of db ord = Some x"
    and f: "foldE (\<lambda>m shares. bindE (store_share db snap x m) (\<lambda>sh. Inr (shares @ [sh]))) (order_stores db x) [] = Inr shs"
    and res: "if shs \<noteq> [] then shares = shs else \<exists>sh. sole_share db snap x = Inr sh \<and> shares = [sh]"
  proof -
    from r obtain snap where snap: "snapshotOf ord db = Inr snap" unfolding merchantShares_def result_simps by blast
    then obtain x where x: "order_of db ord = Some x" by (cases "order_of db ord") (simp_all add: snapshotOf_def)
    from r have "bindE (foldE (\<lambda>m shares. bindE (store_share db snap x m) (\<lambda>sh. Inr (shares @ [sh]))) (order_stores db x) [])
      (\<lambda>shares. if shares \<noteq> [] then Inr (shares, foldl (\<lambda>t sh. wrap64 (t + ss_commission sh)) 0 shares)
         else bindE (sole_share db snap x) (\<lambda>sh. Inr ([sh], ss_commission sh))) = Inr (shares, commission)"
      unfolding merchantShares_def snap x by (simp add: result_simps(1))
    then obtain shs where "foldE (\<lambda>m shares. bindE (store_share db snap x m) (\<lambda>sh. Inr (shares @ [sh]))) (order_stores db x) [] = Inr shs"
      and "(if shs \<noteq> [] then Inr (shs, foldl (\<lambda>t sh. wrap64 (t + ss_commission sh)) 0 shs)
         else bindE (sole_share db snap x) (\<lambda>sh. Inr ([sh], ss_commission sh))) = Inr (shares, commission)"
      unfolding result_simps by blast
    with that snap x show thesis by (auto simp: result_simps split: if_splits)
  qed
  from foldE_collect[OF f] have all: "list_all2 (\<lambda>m sh. store_share db snap x m = Inr sh) (order_stores db x) shs" by simp
  have id: "o_id x = ord" using order_of_Some[OF x] by simp
  have one: "\<exists>row. merchant_of db m = Some row \<and> ss_merchant sh = m \<and> ss_owner sh = m_owner row \<and>
      ss_pct sh = settledPct (m_commission row) (frozen_pct db ord m) snap" if "store_share db snap x m = Inr sh" for m sh
    using that merchant_of_Some[of db m] id by (auto simp: store_share_def result_simps split: option.splits)
  have sole: "\<exists>row. merchant_of db (ss_merchant sh) = Some row \<and> ss_owner sh = m_owner row \<and>
      ss_pct sh = settledPct (m_commission row) (frozen_pct db ord (ss_merchant sh)) snap" if "sole_share db snap x = Inr sh" for sh
    using that merchant_of_Some[of db] id by (auto simp: sole_share_def split: option.splits)
  have "map ss_merchant shs = order_stores db x"
    using all by (induction rule: list_all2_induct) (auto dest: one)
  moreover have "distinct (order_stores db x)" by (simp add: order_stores_def)
  ultimately have dist: "distinct (map ss_merchant shs)" by simp
  show "\<exists>snap. snapshotOf ord db = Inr snap" using snap by blast
  show "distinct (map ss_merchant shares)" using dist res by (auto split: if_splits)
  show "shares \<noteq> []" using res by (auto split: if_splits)
  fix sh snap' assume s': "snapshotOf ord db = Inr snap'" and sh: "sh \<in> set shares"
  have eq: "snap' = snap" using s' snap by simp
  show "\<exists>row. merchant_of db (ss_merchant sh) = Some row \<and> ss_owner sh = m_owner row \<and>
      ss_pct sh = settledPct (m_commission row) (frozen_pct db ord (ss_merchant sh)) snap'"
  proof (cases "shs = []")
    case True
    with res sh have "sole_share db snap x = Inr sh" by auto
    then show ?thesis unfolding eq by (rule sole)
  next
    case False
    with res sh have "sh \<in> set shs" by simp
    with all obtain m where "store_share db snap x m = Inr sh" by (auto simp: list_all2_conv_all_nth in_set_conv_nth)
    from one[OF this] show ?thesis unfolding eq by auto
  qed
qed

text \<open>No store belongs to the holding account.\<close>

definition holder_apart :: "'a settle_db_scheme \<Rightarrow> bool" where
  "holder_apart db \<longleftrightarrow> (\<forall>u. cashHoldingOn db = Inr u \<longrightarrow> Some u \<notin> m_owner ` set (merchants db))"

lemma settle_shares_loop:
  fixes db :: "'a settle_db_scheme"
  assumes "foldE (settle_share ord actor driver only) shares (out, db) = Inr (out', db')" and "settle_inv db"
    and "distinct (map ss_merchant shares)" and "\<forall>sh\<in>set shares. \<forall>owner. ss_owner sh = Some owner \<longrightarrow> cashHoldingOn db \<noteq> Inr owner"
  shows "settle_inv db' \<and> share_env db' = share_env db \<and> cashHoldingOn db' = cashHoldingOn db \<and>
    (\<forall>r m. r \<noteq> ord \<or> m \<notin> ss_merchant ` set shares \<longrightarrow> settlement_for db' r m = settlement_for db r m) \<and>
    (\<forall>sh\<in>set shares. share_applies only sh \<longrightarrow> share_settled db' ord sh) \<and>
    (\<forall>sh\<in>set shares. frozen_pct db' ord (ss_merchant sh) = frozen_pct db ord (ss_merchant sh) \<or>
       frozen_pct db' ord (ss_merchant sh) = Some (ss_pct sh))"
  using assms
proof (induction shares arbitrary: out db)
  case (Cons sh shares)
  then obtain out1 db1 where step: "settle_share ord actor driver only sh (out, db) = Inr (out1, db1)"
    and rest: "foldE (settle_share ord actor driver only) shares (out1, db1) = Inr (out', db')"
    by (auto simp: result_simps)
  have st: "settle_inv db1 \<and> share_env db1 = share_env db \<and> cashHoldingOn db1 = cashHoldingOn db \<and>
    (\<forall>r m. r \<noteq> ord \<or> m \<noteq> ss_merchant sh \<longrightarrow> settlement_for db1 r m = settlement_for db r m) \<and>
    (share_applies only sh \<longrightarrow> share_settled db1 ord sh) \<and>
    (frozen_pct db1 ord (ss_merchant sh) = frozen_pct db ord (ss_merchant sh) \<or> frozen_pct db1 ord (ss_merchant sh) = Some (ss_pct sh))"
    by (rule settle_share_step[OF step Cons.prems(2)]) (use Cons.prems(4) in auto)
  have ih: "settle_inv db' \<and> share_env db' = share_env db1 \<and> cashHoldingOn db' = cashHoldingOn db1 \<and>
    (\<forall>r m. r \<noteq> ord \<or> m \<notin> ss_merchant ` set shares \<longrightarrow> settlement_for db' r m = settlement_for db1 r m) \<and>
    (\<forall>sh\<in>set shares. share_applies only sh \<longrightarrow> share_settled db' ord sh) \<and>
    (\<forall>sh\<in>set shares. frozen_pct db' ord (ss_merchant sh) = frozen_pct db1 ord (ss_merchant sh) \<or>
       frozen_pct db' ord (ss_merchant sh) = Some (ss_pct sh))"
    by (rule Cons.IH[OF rest]) (use st Cons.prems(3,4) in auto)
  have notin: "ss_merchant sh \<notin> ss_merchant ` set shares" using Cons.prems(3) by simp
  have own: "settlement_for db' ord (ss_merchant sh) = settlement_for db1 ord (ss_merchant sh)" using ih notin by blast
  have tl: "frozen_pct db1 ord (ss_merchant s) = frozen_pct db ord (ss_merchant s)" if "s \<in> set shares" for s
    using st notin that by (auto simp: frozen_pct_def image_iff)
  show ?case using st ih own tl by (auto simp: share_settled_def frozen_pct_def)
qed simp

lemma holder_apart_env:
  fixes db db' :: "'a settle_db_scheme"
  assumes "share_env db' = share_env db" and "cashHoldingOn db' = cashHoldingOn db"
  shows "holder_apart db' = holder_apart db"
proof -
  have ow: "m_owner ` set (merchants d) = m_owner ` set (map (\<lambda>m. m\<lparr>m_debt := 0\<rparr>) (merchants d))" for d :: "'a settle_db_scheme"
    by (auto simp: image_iff)
  have "map (\<lambda>m. m\<lparr>m_debt := 0\<rparr>) (merchants db') = map (\<lambda>m. m\<lparr>m_debt := 0\<rparr>) (merchants db)"
    using assms(1) unfolding share_env_def by blast
  then have "m_owner ` set (merchants db') = m_owner ` set (merchants db)" unfolding ow[of db'] ow[of db] by (simp only:)
  then show ?thesis using assms(2) by (simp add: holder_apart_def)
qed

lemma update_order_settle_inv:
  fixes db :: "'a settle_db_scheme"
  shows "settle_inv (update_order ord f db) = settle_inv db" and "cashHoldingOn (update_order ord f db) = cashHoldingOn db"
    and "settlement_for (update_order ord f db) r m = settlement_for db r m" and "merchants (update_order ord f db) = merchants db"
  by (simp_all add: settle_inv_def rows_ok_def holding_gap_def due_total_def rev_total_def[abs_def] cashHoldingOn_def
      Balance_def wallet_of_def settlement_for_def update_order_def)

text \<open>The whole settlement of an order, the second time.\<close>

lemma settleMerchantFor_facts:
  fixes db :: "'a settle_db_scheme"
  assumes r: "settleMerchantFor ord actor driver only (out, db) = Inr (out', db')" and inv: "settle_inv db" and apart: "holder_apart db"
  shows "settle_inv db'" and "holder_apart db'"
    and "\<not> legacy_settled db ord \<Longrightarrow> \<exists>shares c. merchantShares ord db = Inr (shares, c) \<and> merchantShares ord db' = Inr (shares, c) \<and>
      (\<forall>sh\<in>set shares. share_applies only sh \<longrightarrow> share_settled db' ord sh) \<and>
      update_order ord (\<lambda>x. x\<lparr>o_platform_commission := c\<rparr>) db' = db'"
    and "legacy_settled db ord \<Longrightarrow> db' = db"
proof -
  have main: "settle_inv db' \<and> holder_apart db' \<and> (\<exists>shares c. merchantShares ord db = Inr (shares, c) \<and> merchantShares ord db' = Inr (shares, c) \<and>
      (\<forall>sh\<in>set shares. share_applies only sh \<longrightarrow> share_settled db' ord sh) \<and>
      update_order ord (\<lambda>x. x\<lparr>o_platform_commission := c\<rparr>) db' = db')" if "\<not> legacy_settled db ord"
  proof -
    from r that obtain shares c where ms: "merchantShares ord db = Inr (shares, c)"
      and loop: "foldE (settle_share ord actor driver only) shares
        (out, update_order ord (\<lambda>x. x\<lparr>o_platform_commission := c\<rparr>) db) = Inr (out', db')" (is "foldE _ _ (_, ?db1) = _")
      by (auto simp: settleMerchantFor_def result_simps)
    note f = merchantShares_facts[OF ms]
    obtain snap where snap: "snapshotOf ord db = Inr snap" using f(1) by blast
    have owners: "\<forall>sh\<in>set shares. \<forall>owner. ss_owner sh = Some owner \<longrightarrow> cashHoldingOn ?db1 \<noteq> Inr owner"
    proof (intro ballI allI impI)
      fix sh owner assume sh: "sh \<in> set shares" "ss_owner sh = Some owner"
      from f(4)[OF snap sh(1)] obtain row where "merchant_of db (ss_merchant sh) = Some row" "ss_owner sh = m_owner row" by blast
      then have "Some owner \<in> m_owner ` set (merchants db)"
        using sh(2) merchant_of_Some[of db "ss_merchant sh" row] by (auto intro!: image_eqI[of _ _ row])
      with apart show "cashHoldingOn ?db1 \<noteq> Inr owner" unfolding update_order_settle_inv holder_apart_def by blast
    qed
    have inv1: "settle_inv ?db1" using inv by (simp add: update_order_settle_inv)
    note l = settle_shares_loop[OF loop inv1 f(2) owners]
    have env: "share_env (blank_commission db') = share_env (blank_commission db)"
      using share_env_blank[of db' ?db1] l order_env(1)[of ord c db] by simp
    have same: "merchantShares ord db' = merchantShares ord db"
    proof (rule merchantShares_env[OF env])
      fix m row snap' assume s': "snapshotOf ord db = Inr snap'" and row: "merchant_of db m = Some row"
      show "settledPct (m_commission row) (frozen_pct db' ord m) snap' = settledPct (m_commission row) (frozen_pct db ord m) snap'"
      proof (cases "m \<in> ss_merchant ` set shares")
        case True
        then obtain sh where sh: "sh \<in> set shares" "ss_merchant sh = m" by blast
        from f(4)[OF s' sh(1)] row sh(2) have pct: "ss_pct sh = settledPct (m_commission row) (frozen_pct db ord m) snap'" by auto
        from l sh have "frozen_pct db' ord m = frozen_pct ?db1 ord m \<or> frozen_pct db' ord m = Some (ss_pct sh)" by blast
        moreover have "frozen_pct ?db1 ord m = frozen_pct db ord m" by (simp add: frozen_pct_def update_order_settle_inv)
        ultimately show ?thesis using pct by (auto simp: settledPct_def)
      next
        case False
        with l have "settlement_for db' ord m = settlement_for ?db1 ord m" by blast
        then show ?thesis by (simp add: frozen_pct_def update_order_settle_inv)
      qed
    qed
    have "orders db' = orders ?db1" using l by (simp add: share_env_def)
    then have again: "update_order ord (\<lambda>x. x\<lparr>o_platform_commission := c\<rparr>) db' = db'"
    proof -
      assume o: "orders db' = orders ?db1"
      have "map (\<lambda>x. if o_id x = ord then x\<lparr>o_platform_commission := c\<rparr> else x) (orders db') = orders db'"
        unfolding o by (simp add: update_order_def)
      then show ?thesis by (simp add: update_order_def)
    qed
    have "holder_apart ?db1" using apart by (simp add: holder_apart_def update_order_settle_inv)
    then have "holder_apart db'" using l holder_apart_env[of db' ?db1] by blast
    with l ms same again show ?thesis by auto
  qed
  have leg: "db' = db" if "legacy_settled db ord" using r that by (simp add: settleMerchantFor_def)
  show "settle_inv db'" "holder_apart db'" using main leg inv apart by (cases "legacy_settled db ord"; blast)+
  show "\<not> legacy_settled db ord \<Longrightarrow> \<exists>shares c. merchantShares ord db = Inr (shares, c) \<and> merchantShares ord db' = Inr (shares, c) \<and>
      (\<forall>sh\<in>set shares. share_applies only sh \<longrightarrow> share_settled db' ord sh) \<and>
      update_order ord (\<lambda>x. x\<lparr>o_platform_commission := c\<rparr>) db' = db'" using main by blast
  show "legacy_settled db ord \<Longrightarrow> db' = db" by (rule leg)
qed

lemma settle_shares_again:
  assumes "\<forall>sh\<in>set shares. share_applies only sh \<longrightarrow> share_settled db ord sh"
  shows "foldE (settle_share ord actor driver only) shares (out, db) = Inr (out, db)"
  using assms by (induction shares) (auto simp: settle_share_again)

section \<open>Sequences of operations\<close>

datatype cash_settlement_op =
    Op_SettleStores string user_id "user_id option" string
  | Op_OfficePays string user_id string
  | Op_ReverseOrder string user_id

fun run_cash_settlement_op :: "cash_settlement_op \<Rightarrow> 'a settle_db_scheme \<Rightarrow> err + 'a settle_db_scheme" where
  "run_cash_settlement_op (Op_SettleStores ord actor driver only) db =
     bindE (settleMerchantFor ord actor driver only (no_report, db)) (\<lambda>(_, db). Inr db)"
| "run_cash_settlement_op (Op_OfficePays sid admin nt) db = bindE (MarkCashSettlementPaid sid admin nt db) (\<lambda>(_, db). Inr db)"
| "run_cash_settlement_op (Op_ReverseOrder ord actor) db = reverseCashSettlements ord actor db"

lemma evolves_env: "evolves sid db db' \<Longrightarrow> share_env db' = share_env db"
  by (simp add: evolves_def)

lemma reverseCashSettlements_env:
  fixes db :: "'a settle_db_scheme"
  assumes r: "reverseCashSettlements ord actor db = Inr db'" and inv: "settle_inv db"
  shows "share_env db' = share_env db" and "cashHoldingOn db' = cashHoldingOn db"
proof -
  have "share_env db' = share_env db \<and> cashHoldingOn db' = cashHoldingOn db"
  proof (cases "[s \<leftarrow> settlements db. st_order s = ord \<and> st_method s = ''cash''] = []")
    case True
    with r show ?thesis by (simp add: reverseCashSettlements_def)
  next
    case False
    with r obtain hid where
      f: "foldE (reverse_cash_row ord hid actor) [s \<leftarrow> settlements db. st_order s = ord \<and> st_method s = ''cash''] db = Inr db'"
      by (auto simp: reverseCashSettlements_def result_simps)
    have step: "share_env d' = share_env d \<and> cashHoldingOn d' = cashHoldingOn d"
      if d: "reverse_cash_row ord hid actor s d = Inr d'" for s and d d' :: "'a settle_db_scheme"
    proof -
      consider "d' = d" | tx where "postCashReversal (st_id s) hid (st_outstanding s) ''refund_full'' (''refund:'' @ ord) ord actor d = Inr (tx, d')"
        | "wipe_debts d' = wipe_debts d"
        using d by (auto simp: reverse_cash_row_def result_simps Create_def split: if_splits dest: CreateRef_wipe)
      then show ?thesis
      proof cases
        case (2 tx)
        have "cashHoldingOn d' = cashHoldingOn d"
        proof (cases "st_outstanding s \<le> 0 \<or> list_ex (\<lambda>r. rv_settlement r = st_id s \<and> rv_event r = ''refund:'' @ ord) (reversals d)")
          case True
          with 2 show ?thesis using postCashReversal_same[OF True] by auto
        next
          case False
          then obtain b d1 where p: "applyTx hid (- st_outstanding s) ''merchant_cash_accrued'' ord (cashReversalNote ''refund_full'') (Some actor) d = Inr ((b, tx), d1)"
            and u: "update_settlement (st_id s) (reversed_row (st_outstanding s))
              (d1\<lparr>reversals := reversals d1 @ [\<lparr>rv_settlement = st_id s, rv_tx = tx, rv_amount = st_outstanding s,
                 rv_cause = ''refund_full'', rv_event = ''refund:'' @ ord\<rparr>]\<rparr>) = Inr d'"
            using 2 by (auto elim: postCashReversal_Inr)
          have "wallets d' = wallets d1" using u by (simp add: update_settlement_Inr)
          with applyTx_system(2)[OF p] system_wallets_eq(2) show ?thesis by metis
        qed
        with postCashReversal_evolves[OF 2] show ?thesis by (simp add: evolves_env)
      next
        case 3
        then show ?thesis using wipe_share_env(1)[OF 3] debts_settle_inv(4)[OF 3] by simp
      qed simp
    qed
    show ?thesis by (rule foldE_inv[OF f]) (use step in auto)
  qed
  then show "share_env db' = share_env db" and "cashHoldingOn db' = cashHoldingOn db" by blast+
qed

lemma MarkCashSettlementPaid_env:
  fixes db :: "'a settle_db_scheme"
  assumes r: "MarkCashSettlementPaid sid admin nt db = Inr (res, db')"
  shows "share_env db' = share_env db" and "cashHoldingOn db' = cashHoldingOn db"
proof -
  have "share_env db' = share_env db \<and> cashHoldingOn db' = cashHoldingOn db"
  proof (cases "cr_already res")
    case True
    with r have "db' = db" by (auto simp: MarkCashSettlementPaid_def Let_def result_simps split: option.splits if_splits)
    then show ?thesis by simp
  next
    case False
    from r obtain s where s: "settlement_of db sid = Some s" by (auto simp: MarkCashSettlementPaid_def split: option.splits)
    with r False obtain owner db1 e db2 au where p: "payCashSettlement sid (st_order s) (st_merchant s) (st_amount s - st_reversed s) admin
        paidViaOffice ''cash due paid by the office'' nt db = Inr (owner, db1)"
      and o: "Record e db1 = Inr db2" and db': "db' = db2\<lparr>audit_log := au\<rparr>"
      by (auto simp: MarkCashSettlementPaid_def Let_def result_simps split: if_splits)
    from Record_Inr(6)[OF o] obtain es where db2: "db2 = db1\<lparr>office_entries := es\<rparr>" by blast
    have "share_env db' = share_env db1" "cashHoldingOn db' = cashHoldingOn db1"
      by (simp_all add: db' db2 share_env_def cashHoldingOn_def)
    moreover have "cashHoldingOn db1 = cashHoldingOn db"
    proof -
      from p obtain hid b tx d where ap: "applyTx hid (- (st_amount s - st_reversed s)) ''merchant_cash_paid'' (st_order s)
          ''cash due paid by the office'' (Some admin) db = Inr ((b, tx), d)" and w: "wallets db1 = wallets d"
        by (cases "merchant_of db (st_merchant s)"; cases "m_owner (the (merchant_of db (st_merchant s)))")
          (auto simp: payCashSettlement_def result_simps ApplyTxID_def update_settlement_Inr split: prod.splits)
      show ?thesis using applyTx_system(2)[OF ap] system_wallets_eq(2)[OF w] by simp
    qed
    ultimately show ?thesis using evolves_env[OF payCashSettlement_evolves[OF p]] by simp
  qed
  then show "share_env db' = share_env db" and "cashHoldingOn db' = cashHoldingOn db" by blast+
qed

lemma run_cash_settlement_op_inv:
  fixes db :: "'a settle_db_scheme"
  assumes "run_cash_settlement_op c db = Inr db'" and "settle_inv db \<and> holder_apart db"
  shows "settle_inv db' \<and> holder_apart db'"
proof (cases c)
  case (Op_SettleStores ord actor driver only)
  with assms obtain out' where "settleMerchantFor ord actor driver only (no_report, db) = Inr (out', db')"
    by (auto simp: result_simps)
  from settleMerchantFor_facts(1,2)[OF this] assms(2) show ?thesis by blast
next
  case (Op_OfficePays sid admin nt)
  with assms obtain res where m: "MarkCashSettlementPaid sid admin nt db = Inr (res, db')" by (auto simp: result_simps)
  show ?thesis
    using MarkCashSettlementPaid_inv(1)[OF m] holder_apart_env[OF MarkCashSettlementPaid_env[OF m]] assms(2) by blast
next
  case (Op_ReverseOrder ord actor)
  with assms have m: "reverseCashSettlements ord actor db = Inr db'" by simp
  show ?thesis
    using reverseCashSettlements_inv[OF m] holder_apart_env[OF reverseCashSettlements_env[OF m]] assms(2) by blast
qed

section \<open>Properties\<close>

definition example_stores_db :: settle_db where
  "example_stores_db = example_order_db\<lparr>settlements := [], reversals := [], next_uuid := 0,
     wallets := [(''t'', zero_wallet\<lparr>w_treasury := True\<rparr>), (''h'', zero_wallet\<lparr>w_cash_holding := True\<rparr>)],
     order_items := [\<lparr>oi_order = ''o1'', oi_merchant = Some ''m'', oi_price = 500, oi_unit_price = 550, oi_qty = 2, oi_method = Some ''cash'',
       oi_id = ''i1'', oi_name = ''tea'', oi_menu = Some ''k1'', oi_drink_for = None\<rparr>]\<rparr>"

lemma example_stores_inv: "settle_inv example_stores_db" "holder_apart example_stores_db"
  by (simp_all add: settle_inv_def rows_ok_def holding_gap_def due_total_def holder_apart_def cashHoldingOn_def Balance_def
      wallet_of_def zero_wallet_def example_stores_db_def example_order_db_def example_settle_db_def example_credit_db_def
      example_debt_db_def obligations_db.defs office_db.defs)

text \<open>
  C17. The stores of an order are settled once: settling the order again, by anyone and whatever driver is
  given, changes nothing and reports nothing, because the shares computed again are the same (the percentage
  a store was settled with stays) and every store that is due something has its one row, of the method and
  the amount of its share.
\<close>

theorem stores_settled_once:
  fixes db :: "'a settle_db_scheme"
  assumes "settle_inv db" and "holder_apart db" and "settleMerchantFor ord actor driver only (out, db) = Inr (out', db')"
  shows "settleMerchantFor ord actor2 driver2 only (out2, db') = Inr (out2, db') \<and>
    (\<not> legacy_settled db ord \<longrightarrow> (\<exists>shares c. merchantShares ord db = Inr (shares, c) \<and> merchantShares ord db' = Inr (shares, c) \<and>
       (\<forall>sh\<in>set shares. ss_owner sh \<noteq> None \<and> 0 < ss_due sh \<and> (only = '''' \<or> EqualFold (ss_merchant sh) only) \<longrightarrow>
          (\<exists>s. settlement_for db' ord (ss_merchant sh) = Some s \<and> st_method s = ss_method sh \<and>
             st_amount s + st_adjusted s = ss_due sh))))"
proof (cases "legacy_settled db ord")
  case True
  with settleMerchantFor_facts(4)[OF assms(3,1,2)] show ?thesis by (simp add: settleMerchantFor_def)
next
  case False
  from settleMerchantFor_facts(3)[OF assms(3,1,2) False] obtain shares c where ms: "merchantShares ord db = Inr (shares, c)"
    "merchantShares ord db' = Inr (shares, c)" and st: "\<forall>sh\<in>set shares. share_applies only sh \<longrightarrow> share_settled db' ord sh"
    and up: "update_order ord (\<lambda>x. x\<lparr>o_platform_commission := c\<rparr>) db' = db'" by blast
  have again: "settleMerchantFor ord actor2 driver2 only (out2, db') = Inr (out2, db')"
    by (simp add: settleMerchantFor_def ms up settle_shares_again[OF st])
  have "\<exists>s. settlement_for db' ord (ss_merchant sh) = Some s \<and> st_method s = ss_method sh \<and> st_amount s + st_adjusted s = ss_due sh"
    if "sh \<in> set shares" "ss_owner sh \<noteq> None \<and> 0 < ss_due sh \<and> (only = '''' \<or> EqualFold (ss_merchant sh) only)" for sh
    using st that by (auto simp: share_applies_def share_settled_def row_valid_def)
  with again ms show ?thesis by blast
qed

lemma stores_settled_once_witness:
  "\<exists>out db s. settleMerchantFor ''o1'' ''d'' (Some ''d'') '''' (no_report, example_stores_db) = Inr (out, db) \<and>
     settlement_for db ''o1'' ''m'' = Some s \<and> st_state s = ''cash_paid'' \<and> st_amount s = 900 \<and>
     settleMerchantFor ''o1'' ''a'' None '''' (no_report, db) = Inr (no_report, db)"
proof -
  let ?r = "settleMerchantFor ''o1'' ''d'' (Some ''d'') '''' (no_report, example_stores_db)"
  have "case ?r of Inl _ \<Rightarrow> False | Inr (out, db) \<Rightarrow> (case settlement_for db ''o1'' ''m'' of None \<Rightarrow> False
      | Some s \<Rightarrow> st_state s = ''cash_paid'' \<and> st_amount s = 900)" by code_simp
  then obtain out db s where r: "?r = Inr (out, db)" "settlement_for db ''o1'' ''m'' = Some s" "st_state s = ''cash_paid''"
      "st_amount s = 900"
    by (auto split: sum.splits option.splits)
  with stores_settled_once[OF example_stores_inv r(1), of "''a''" None no_report] show ?thesis by blast
qed

text \<open>
  C18. The holding wallet holds exactly what is still due in cash: whatever orders are settled, paid by
  the office or by drivers, offset against debts or reversed, its balance is the sum over the rows that
  are due of their amount less what was reversed, what was reversed is what the log of reversals says, and
  no row is reversed beyond its amount.
\<close>

theorem holding_wallet_backs_cash_due:
  fixes db :: "'a settle_db_scheme"
  assumes "settle_inv db0" and "holder_apart db0" and "foldE run_cash_settlement_op ops db0 = Inr db"
  shows "(\<forall>h. cashHoldingOn db = Inr h \<longrightarrow> Balance db h = sum_list (map (\<lambda>s. st_amount s - st_reversed s)
      [s \<leftarrow> settlements db. st_method s = ''cash'' \<and> st_state s = ''cash_due''])) \<and>
    (\<forall>s\<in>set (settlements db). st_reversed s = sum_list (map rv_amount [r \<leftarrow> reversals db. rv_settlement r = st_id s]) \<and>
       st_reversed s \<le> st_amount s)"
proof -
  have inv: "settle_inv db \<and> holder_apart db"
    by (rule foldE_inv[OF assms(3)]) (use assms(1,2) run_cash_settlement_op_inv in auto)
  then have ok: "\<forall>s\<in>set (settlements db). settlement_ok s \<and> st_reversed s = rev_total db (st_id s)"
    by (simp add: settle_inv_def rows_ok_def)
  have "due_total db = sum_list (map (\<lambda>s. st_amount s - st_reversed s)
      [s \<leftarrow> settlements db. st_method s = ''cash'' \<and> st_state s = ''cash_due''])"
  proof -
    have "sum_list (map due_of xs) = sum_list (map (\<lambda>s. st_amount s - st_reversed s)
        [s \<leftarrow> xs. st_method s = ''cash'' \<and> st_state s = ''cash_due''])" if "\<forall>s\<in>set xs. settlement_ok s" for xs
      using that by (induction xs) (auto simp: due_of_def st_outstanding_def settlement_ok_def)
    with ok show ?thesis by (simp add: due_total_def)
  qed
  moreover have "holding_gap 0 db" using inv by (simp add: settle_inv_def)
  ultimately have "\<forall>h. cashHoldingOn db = Inr h \<longrightarrow> Balance db h = sum_list (map (\<lambda>s. st_amount s - st_reversed s)
      [s \<leftarrow> settlements db. st_method s = ''cash'' \<and> st_state s = ''cash_due''])" by (simp add: holding_gap_def)
  moreover have "st_reversed s = sum_list (map rv_amount [r \<leftarrow> reversals db. rv_settlement r = st_id s]) \<and> st_reversed s \<le> st_amount s"
    if "s \<in> set (settlements db)" for s
  proof -
    from ok that have s: "settlement_ok s" "st_reversed s = rev_total db (st_id s)" by blast+
    from s(1) have "st_reversed s \<le> st_amount s" by (simp add: settlement_ok_def settlement_fits_def)
    with s(2) show ?thesis by (simp add: rev_total_def)
  qed
  ultimately show ?thesis by blast
qed

lemma holding_wallet_backs_cash_due_witness:
  "\<exists>db. foldE run_cash_settlement_op [Op_SettleStores ''o1'' ''d'' None '''', Op_ReverseOrder ''o1'' ''d''] example_stores_db = Inr db \<and>
     Balance db ''h'' = 0 \<and> map st_reversed (settlements db) = [900] \<and> (\<forall>s\<in>set (settlements db). st_reversed s \<le> st_amount s)"
proof -
  let ?r = "foldE run_cash_settlement_op [Op_SettleStores ''o1'' ''d'' None '''', Op_ReverseOrder ''o1'' ''d''] example_stores_db"
  have "case ?r of Inl _ \<Rightarrow> False | Inr db \<Rightarrow> Balance db ''h'' = 0 \<and> map st_reversed (settlements db) = [900]" by code_simp
  then obtain db where r: "?r = Inr db" "Balance db ''h'' = 0" "map st_reversed (settlements db) = [900]"
    by (auto split: sum.splits)
  have "\<forall>s\<in>set (settlements db). st_reversed s \<le> st_amount s"
    using conjunct2[OF holding_wallet_backs_cash_due[OF example_stores_inv r(1)]] by blast
  then show ?thesis by (intro exI[of _ db] conjI r)
qed

end
