(* ===== verification/Rep_Money.thy ===== *)
theory Rep_Money
  imports Settlement
begin

text \<open>
  What a sales representative earns on an order (\<open>settleRep\<close> and \<open>merchantActivated\<close> of
  \<open>orders/transitions.go\<close>, \<open>orders/rep_parts.go\<close>, \<open>orders/accounts_rep_held.go\<close>): the base of
  his commission, its split over the stores of the order, and the commissions held while he is not
  active. A result of SQL arithmetic outside 64 bits is a database error.
\<close>

section \<open>Tables\<close>

record held_commission =
  hc_rep :: user_id
  hc_order :: string
  hc_amount :: int
  hc_status :: string
  hc_created :: int

record order_part =
  pa_order :: string
  pa_merchant :: string
  pa_seq :: int
  pa_status :: string
  pa_answered :: "int option"
  pa_answered_by :: "user_id option"
  pa_role :: string
  pa_prep :: "int option"
  pa_ready :: "int option"
  pa_sent :: "int option"
  pa_channel :: string
  pa_arrived :: "int option"
  pa_picked_at :: "int option"
  pa_picked_by :: "user_id option"
  pa_reason :: string
  pa_removed_fault :: string
  pa_removed_items :: "order_item list"
  pa_removed_total :: int
  pa_rep :: "user_id option"
  pa_commission :: int

definition new_part :: "string \<Rightarrow> string \<Rightarrow> int \<Rightarrow> order_part" where
  "new_part ord m s = \<lparr>pa_order = ord, pa_merchant = m, pa_seq = s, pa_status = ''pending'', pa_answered = None,
     pa_answered_by = None, pa_role = [], pa_prep = None, pa_ready = None, pa_sent = None, pa_channel = [],
     pa_arrived = None, pa_picked_at = None, pa_picked_by = None, pa_reason = [], pa_removed_fault = [], pa_removed_items = [], pa_removed_total = 0,
     pa_rep = None, pa_commission = 0\<rparr>"

record compensation_request =
  cq_id :: string
  cq_kind :: string
  cq_order :: "string option"
  cq_ticket :: "string option"
  cq_driver :: user_id
  cq_fault :: string
  cq_reason :: string
  cq_suggested :: int
  cq_status :: string
  cq_amount :: "int option"
  cq_note :: string
  cq_proposed_by :: "user_id option"
  cq_decided_by :: "user_id option"
  cq_decided_at :: "int option"
  cq_decision_note :: string
  cq_self_approved :: bool
  cq_merchant :: "string option"
  cq_created :: int

record free_claim =
  fc_campaign :: string
  fc_claimant :: string
  fc_order :: string
  fc_kind :: string
  fc_waived :: int

record money_db = settle_db +
  free_claims :: "free_claim list"
  held_commissions :: "held_commission list"
  order_parts :: "order_part list"
  compensation_requests :: "compensation_request list"

definition sql_int :: "int \<Rightarrow> err + int" where
  "sql_int x = (if in64 x then Inr x else Inl ErrDb)"

text \<open>The keys of a list in the order they are first seen.\<close>

definition firsts :: "'x list \<Rightarrow> 'x list" where
  "firsts xs = rev (remdups (rev xs))"

lemma firsts_simps [simp]: "set (firsts xs) = set xs" "distinct (firsts xs)"
  by (simp_all add: firsts_def)

section \<open>Held commissions\<close>

definition holdRepCommissionIfInactive ::
  "user_id \<Rightarrow> string \<Rightarrow> int \<Rightarrow> 'a money_db_scheme \<Rightarrow> err + bool \<times> 'a money_db_scheme" where
  "holdRepCommissionIfInactive rep ord amount db =
    (case find (\<lambda>u. u_id u = rep) (users db) of
       None \<Rightarrow> Inl ErrNoRows
     | Some u \<Rightarrow>
         if u_status u = ''active'' then Inr (False, db)
         else if amount \<le> 0 then Inl ErrDb
         else if list_ex (\<lambda>h. hc_order h = ord \<and> hc_rep h = rep) (held_commissions db) then Inr (True, db)
         else Inr (True, db\<lparr>held_commissions := held_commissions db @
           [\<lparr>hc_rep = rep, hc_order = ord, hc_amount = amount, hc_status = ''held'', hc_created = db_now db\<rparr>]\<rparr>))"

text \<open>One held commission: paid to the wallet, offset against the debt, and the share of the platform taken again.\<close>

definition release_held ::
  "user_id \<Rightarrow> user_id \<Rightarrow> held_commission \<Rightarrow> 'a money_db_scheme \<Rightarrow> err + 'a money_db_scheme" where
  "release_held rep actor h db =
     bindE (ApplyTx rep (hc_amount h) ''commission'' (hc_order h) ''held commission released'' (Some actor) db) (\<lambda>(_, db).
     bindE (offsetRepDebt rep (hc_amount h) (hc_order h) actor db) (\<lambda>db.
     bindE (creditTreasury (hc_order h) actor db) (\<lambda>db.
     Inr (db\<lparr>held_commissions := map (\<lambda>x. if hc_order x = hc_order h \<and> hc_rep x = hc_rep h
       then x\<lparr>hc_status := ''released''\<rparr> else x) (held_commissions db)\<rparr>))))"

definition ReleaseHeldCommissionsTx ::
  "user_id \<Rightarrow> user_id \<Rightarrow> 'a money_db_scheme \<Rightarrow> err + (nat \<times> int) \<times> 'a money_db_scheme" where
  "ReleaseHeldCommissionsTx rep actor db =
    (let held = sort_key hc_created [h \<leftarrow> held_commissions db. hc_rep h = rep \<and> hc_status h = ''held'']
     in bindE (foldE (release_held rep actor) held db) (\<lambda>db.
        Inr ((length held, sum_list (map hc_amount held)), db)))"

definition ForfeitHeldCommissionsTx :: "user_id \<Rightarrow> 'a money_db_scheme \<Rightarrow> nat \<times> 'a money_db_scheme" where
  "ForfeitHeldCommissionsTx rep db =
    (length [h \<leftarrow> held_commissions db. hc_rep h = rep \<and> hc_status h = ''held''],
     db\<lparr>held_commissions := map (\<lambda>h. if hc_rep h = rep \<and> hc_status h = ''held'' then h\<lparr>hc_status := ''forfeited''\<rparr> else h)
       (held_commissions db)\<rparr>)"

definition HeldCommissionTotal :: "'a money_db_scheme \<Rightarrow> user_id \<Rightarrow> int \<times> nat" where
  "HeldCommissionTotal db rep =
    (let held = [h \<leftarrow> held_commissions db. hc_rep h = rep \<and> hc_status h = ''held'']
     in (sum_list (map hc_amount held), length held))"

section \<open>The base of the commission\<close>

definition source_of :: "string \<Rightarrow> commission_source option" where
  "source_of s =
    (if s = ''platform_commission'' then Some SourcePlatformCommission
     else if s = ''pricing_margin'' then Some SourcePricingMargin
     else if s = ''both'' then Some SourceBoth else None)"

text \<open>A source that is none of the three gives the base zero.\<close>

definition rep_base :: "string \<Rightarrow> int \<Rightarrow> int \<Rightarrow> int \<Rightarrow> int" where
  "rep_base src commission margin promo =
    (case source_of src of None \<Rightarrow> 0 | Some c \<Rightarrow> RepCommissionBase c commission margin promo)"

definition rep_percent :: "economics_snapshot \<Rightarrow> amount" where
  "rep_percent snap = \<lparr>am_mode = ''percent'', am_value = es_rep_pct snap\<rparr>"

definition claim_waived :: "'a money_db_scheme \<Rightarrow> string \<Rightarrow> int" where
  "claim_waived db ord = (case find (\<lambda>c. fc_order c = ord) (free_claims db) of None \<Rightarrow> 0 | Some c \<Rightarrow> fc_waived c)"

definition promo_cost :: "'a money_db_scheme \<Rightarrow> order \<Rightarrow> err + int" where
  "promo_cost db x = sql_int (o_discount x + o_promo_waived x - claim_waived db (o_id x))"

definition line_margin :: "order_item list \<Rightarrow> err + int" where
  "line_margin is = sql_int (sum_list (map (\<lambda>i. (oi_unit_price i - oi_price i) * oi_qty i) is))"

definition order_party :: "order \<Rightarrow> string option" where
  "order_party x = (case o_merchant x of Some m \<Rightarrow> Some m | None \<Rightarrow> o_partner_merchant x)"

definition merchantActivated :: "string \<Rightarrow> int \<Rightarrow> 'a money_db_scheme \<Rightarrow> bool" where
  "merchantActivated ord threshold db =
    (threshold \<le> 1 \<or>
     threshold \<le> int (length [x \<leftarrow> orders db. o_status x = StDelivered \<and>
       (case order_of db ord of None \<Rightarrow> False
        | Some x0 \<Rightarrow> order_party x \<noteq> None \<and> order_party x = order_party x0) \<and>
       (case order_party x of None \<Rightarrow> False
        | Some m \<Rightarrow> (case merchant_of db m of None \<Rightarrow> False | Some row \<Rightarrow> m_rep row \<noteq> Some (o_customer x)))]))"

section \<open>An order of one store\<close>

definition pay_rep ::
  "user_id \<Rightarrow> int \<Rightarrow> string \<Rightarrow> string \<Rightarrow> user_id \<Rightarrow> settled \<times> 'a money_db_scheme \<Rightarrow> err + settled \<times> 'a money_db_scheme" where
  "pay_rep rep amount store ord actor = (\<lambda>(out, db).
     bindE (holdRepCommissionIfInactive rep ord amount db) (\<lambda>(held, db).
     if held then Inr (out, db)
     else bindE (ApplyTx rep amount ''commission'' ord ''commission of a delivered order'' (Some actor) db) (\<lambda>(_, db).
          bindE (offsetRepDebt rep amount ord actor db) (\<lambda>db.
          Inr (out\<lparr>so_reps := so_reps out @ [\<lparr>rp_rep = rep, rp_amount = amount, rp_store = store\<rparr>]\<rparr>, db)))))"

definition settleRepOne ::
  "string \<Rightarrow> user_id \<Rightarrow> settled \<times> 'a money_db_scheme \<Rightarrow> err + settled \<times> 'a money_db_scheme" where
  "settleRepOne ord actor = (\<lambda>(out, db).
    case order_of db ord of
      None \<Rightarrow> Inl ErrNoRows
    | Some x \<Rightarrow> (case order_party x of
        None \<Rightarrow> Inl ErrNoRows
      | Some m \<Rightarrow> (case merchant_of db m of
          None \<Rightarrow> Inl ErrNoRows
        | Some row \<Rightarrow>
            bindE (promo_cost db x) (\<lambda>promo.
            case m_rep row of
              None \<Rightarrow> Inr (out, db)
            | Some rep \<Rightarrow>
                bindE (snapshotOf ord db) (\<lambda>snap.
                if rep = o_customer x then Inr (out, db)
                else if \<not> merchantActivated ord (es_activation snap) db then Inr (out, db)
                else bindE (line_margin [i \<leftarrow> order_items db. oi_order i = ord]) (\<lambda>margin.
                     let amount = Amount_Of (rep_percent snap) (rep_base (es_source snap) (o_platform_commission x) margin promo)
                     in if amount \<le> 0 then Inr (out, db)
                        else pay_rep rep amount '''' ord actor (out, db)))))))"

section \<open>An order of several stores\<close>

record rep_store_share =
  rs_merchant :: string
  rs_name :: string
  rs_rep :: "user_id option"
  rs_part_rep :: "user_id option"
  rs_is_buyer :: bool
  rs_amount :: int

record rep_line =
  rl_share :: rep_store_share
  rl_sale :: int
  rl_margin :: int

definition part_of :: "'a money_db_scheme \<Rightarrow> string \<Rightarrow> string \<Rightarrow> order_part option" where
  "part_of db ord m = find (\<lambda>p. pa_order p = ord \<and> pa_merchant p = m) (order_parts db)"

text \<open>The stores in the order of their parts, those without one last, then by id.\<close>

definition rep_stores :: "'a money_db_scheme \<Rightarrow> order \<Rightarrow> string list" where
  "rep_stores db x = sort_key (\<lambda>m. (case part_of db (o_id x) m of None \<Rightarrow> 32767 | Some p \<Rightarrow> pa_seq p, map (\<lambda>c. of_char c :: nat) m))
     (order_stores db x)"

definition rep_line_of :: "'a money_db_scheme \<Rightarrow> order \<Rightarrow> string \<Rightarrow> err + rep_line" where
  "rep_line_of db x m =
    (case merchant_of db m of
       None \<Rightarrow> Inl ErrNoRows
     | Some row \<Rightarrow>
         bindE (sql_int (sum_list (map (\<lambda>i. oi_unit_price i * oi_qty i) (store_items db x m)))) (\<lambda>sale.
         bindE (line_margin (store_items db x m)) (\<lambda>margin.
         Inr \<lparr>rl_share = \<lparr>rs_merchant = m, rs_name = m_name row, rs_rep = m_rep row,
                rs_part_rep = (case part_of db (o_id x) m of None \<Rightarrow> None | Some p \<Rightarrow> pa_rep p),
                rs_is_buyer = (m_rep row = Some (o_customer x)), rs_amount = 0\<rparr>,
              rl_sale = sale, rl_margin = margin\<rparr>)))"

text \<open>The first line with the largest sale.\<close>

fun largest_from :: "nat \<Rightarrow> nat \<Rightarrow> int \<Rightarrow> int list \<Rightarrow> nat" where
  "largest_from i best sale [] = best"
| "largest_from i best sale (s # ss) = (if s > sale then largest_from (i + 1) i s ss else largest_from (i + 1) best sale ss)"

definition largest_sale :: "int list \<Rightarrow> nat" where
  "largest_sale ss = (case ss of [] \<Rightarrow> 0 | s # rest \<Rightarrow> largest_from 1 0 s rest)"

definition wrap_sum :: "int list \<Rightarrow> int" where
  "wrap_sum xs = foldl (\<lambda>t x. wrap64 (t + x)) 0 xs"

text \<open>The promotion split by sale, what is left over on the largest.\<close>

definition promo_parts :: "int \<Rightarrow> int list \<Rightarrow> int list" where
  "promo_parts promo sales =
    (if promo > 0 \<and> sales \<noteq> []
     then let total = wrap_sum sales;
              parts = map (\<lambda>s. if total > 0 then go_div (wrap64 (promo * s)) total else 0) sales;
              given = wrap_sum parts; k = largest_sale sales
          in parts[k := wrap64 (parts ! k + wrap64 (promo - given))]
     else map (\<lambda>_. 0) sales)"

definition repStoreShares ::
  "string \<Rightarrow> economics_snapshot \<Rightarrow> bool \<Rightarrow> 'a money_db_scheme \<Rightarrow> err + rep_store_share list" where
  "repStoreShares ord snap zeroCommission db =
    (case order_of db ord of
       None \<Rightarrow> Inl ErrNoRows
     | Some x \<Rightarrow>
         bindE (promo_cost db x) (\<lambda>promo.
         bindE (if zeroCommission then Inr [] else bindE (merchantShares ord db) (\<lambda>(shares, _). Inr shares)) (\<lambda>shares.
         bindE (foldE (\<lambda>m acc. bindE (rep_line_of db x m) (\<lambda>l. Inr (acc @ [l]))) (rep_stores db x) []) (\<lambda>ls.
         let commission = (\<lambda>m. wrap_sum (map ss_commission [sh \<leftarrow> shares. ss_merchant sh = m]))
         in Inr (map (\<lambda>(l, p). (rl_share l)\<lparr>rs_amount := Amount_Of (rep_percent snap)
              (rep_base (es_source snap) (commission (rs_merchant (rl_share l))) (rl_margin l) p)\<rparr>)
              (zip ls (promo_parts promo (map rl_sale ls))))))))"

text \<open>Whether a share goes to the representative of its store.\<close>

definition share_rep :: "rep_store_share \<Rightarrow> user_id option" where
  "share_rep sh = (if \<not> rs_is_buyer sh \<and> rs_amount sh > 0 then rs_rep sh else None)"

definition write_part :: "string \<Rightarrow> rep_store_share \<Rightarrow> 'a money_db_scheme \<Rightarrow> 'a money_db_scheme" where
  "write_part ord sh db = db\<lparr>order_parts := map (\<lambda>p. if pa_order p = ord \<and> pa_merchant p = rs_merchant sh
     then p\<lparr>pa_rep := share_rep sh, pa_commission := (if share_rep sh = None then 0 else rs_amount sh)\<rparr> else p) (order_parts db)\<rparr>"

definition add_rep :: "rep_store_share \<Rightarrow> rep_paid list \<Rightarrow> rep_paid list" where
  "add_rep sh reps =
    (case share_rep sh of
       None \<Rightarrow> reps
     | Some rep \<Rightarrow>
         if list_ex (\<lambda>r. rp_rep r = rep) reps
         then map (\<lambda>r. if rp_rep r = rep then r\<lparr>rp_amount := wrap64 (rp_amount r + rs_amount sh)\<rparr> else r) reps
         else reps @ [\<lparr>rp_rep = rep, rp_amount = rs_amount sh, rp_store = rs_name sh\<rparr>])"

definition settleRepParts ::
  "string \<Rightarrow> user_id \<Rightarrow> settled \<times> 'a money_db_scheme \<Rightarrow> err + settled \<times> 'a money_db_scheme" where
  "settleRepParts ord actor = (\<lambda>(out, db).
     bindE (snapshotOf ord db) (\<lambda>snap.
     if \<not> merchantActivated ord (es_activation snap) db then Inr (out, db)
     else bindE (repStoreShares ord snap False db) (\<lambda>shares.
          foldE (\<lambda>r. pay_rep (rp_rep r) (rp_amount r) (rp_store r) ord actor) (foldl (\<lambda>reps sh. add_rep sh reps) [] shares)
            (out, foldl (\<lambda>db sh. write_part ord sh db) db shares))))"

definition stopsAbove1 :: "string \<Rightarrow> 'a orders_db_scheme \<Rightarrow> err + bool" where
  "stopsAbove1 ord db = (case order_of db ord of None \<Rightarrow> Inl ErrNoRows | Some x \<Rightarrow> Inr (o_stops x > 1))"

definition settleRep ::
  "string \<Rightarrow> user_id \<Rightarrow> settled \<times> 'a money_db_scheme \<Rightarrow> err + settled \<times> 'a money_db_scheme" where
  "settleRep ord actor = (\<lambda>(out, db).
     bindE (stopsAbove1 ord db) (\<lambda>multi.
     if multi then settleRepParts ord actor (out, db) else settleRepOne ord actor (out, db)))"

section \<open>The share of the representatives on a refund\<close>

definition CauseRefundRepShare :: string where "CauseRefundRepShare = ''refund_rep_share''"
definition ErrRepShareNoParty :: err where "ErrRepShareNoParty = ErrMsg ''rep share: no party''"

text \<open>What each user kept of the commissions of an order, and the parts that carry a commission, largest first.\<close>

definition kept_commissions :: "'a wallet_db_scheme \<Rightarrow> string \<Rightarrow> (user_id \<times> int) list" where
  "kept_commissions db ord =
    (let ts = [t \<leftarrow> wallet_txs db. tx_ref t = ord \<and> tx_kind t = ''commission'']
     in map (\<lambda>u. (u, sum_list (map tx_amount [t \<leftarrow> ts. tx_user t = u]))) (remdups (map tx_user ts)))"

definition kept_of :: "'a wallet_db_scheme \<Rightarrow> string \<Rightarrow> user_id option \<Rightarrow> int" where
  "kept_of db ord r = (case map_of (kept_commissions db ord) (the r) of None \<Rightarrow> 0 | Some k \<Rightarrow> k)"

definition commission_parts :: "'a money_db_scheme \<Rightarrow> string \<Rightarrow> order_part list" where
  "commission_parts db ord =
     sort_key (\<lambda>p. (- pa_commission p, pa_seq p))
       [p \<leftarrow> order_parts db. pa_order p = ord \<and> pa_rep p \<noteq> None \<and> pa_commission p > 0]"

text \<open>What one representative kept, split over his parts; the rest falls on the first.\<close>

definition rep_charges :: "int \<Rightarrow> order_part list \<Rightarrow> (string \<times> int) list" where
  "rep_charges k ps =
    (let total = wrap_sum (map pa_commission ps);
         parts = map (\<lambda>p. (pa_merchant p, go_div (wrap64 (k * pa_commission p)) total)) ps
     in case parts of [] \<Rightarrow> []
        | (m, a) # rest \<Rightarrow> (m, wrap64 (a + wrap64 (k - wrap_sum (map snd parts)))) # rest)"

definition all_charges :: "'a money_db_scheme \<Rightarrow> string \<Rightarrow> (string \<times> int) list" where
  "all_charges db ord =
    (let ps = commission_parts db ord
     in concat (map (\<lambda>rep. if kept_of db ord rep \<le> 0 then []
                            else rep_charges (kept_of db ord rep) [p \<leftarrow> ps. pa_rep p = rep])
          (firsts (map pa_rep ps))))"

definition store_charge :: "(string \<times> int) list \<Rightarrow> string \<Rightarrow> int" where
  "store_charge cs m = wrap_sum (map snd [c \<leftarrow> cs. fst c = m])"

text \<open>One store of the loop that opens the debts.\<close>

definition charge_store ::
  "string \<Rightarrow> user_id option \<Rightarrow> (string \<times> int) list \<Rightarrow> string \<Rightarrow> 'a money_db_scheme \<Rightarrow> err + 'a money_db_scheme" where
  "charge_store ord actor cs m db =
     (if store_charge cs m \<le> 0 then Inr db
      else bindE (CreateRef PartyMerchant m (store_charge cs m) CauseRefundRepShare ord (ord @ '':'' @ m) actor db)
             (\<lambda>(_, db). Inr db))"

definition chargeRefundRepSharePartsTx ::
  "string \<Rightarrow> user_id option \<Rightarrow> 'a money_db_scheme \<Rightarrow> err + int \<times> 'a money_db_scheme" where
  "chargeRefundRepSharePartsTx ord actor db =
    (let kept = kept_commissions db ord; total = wrap_sum (map snd kept)
     in if list_ex (\<lambda>(_, k). \<not> in64 k) kept then Inl ErrDb
        else if total \<le> 0 then Inr (0, db)
        else let ps = commission_parts db ord; cs = all_charges db ord;
                 given = wrap_sum (map (\<lambda>rep. if kept_of db ord rep \<le> 0 then 0 else kept_of db ord rep) (firsts (map pa_rep ps)));
                 rest = wrap64 (total - given)
             in bindE (if rest > 0 then
                     (case order_of db ord of
                        None \<Rightarrow> Inl ErrNoRows
                      | Some x \<Rightarrow> (case order_party x of
                          None \<Rightarrow> Inl ErrRepShareNoParty
                        | Some m \<Rightarrow> if m = '''' then Inl ErrRepShareNoParty
                            else bindE (CreateRef PartyMerchant m rest CauseRefundRepShare ord ord actor db) (\<lambda>(_, db). Inr db)))
                   else Inr db) (\<lambda>db.
                bindE (foldE (charge_store ord actor cs) (firsts (map fst cs)) db) (\<lambda>db.
                Inr (total, db))))"

section \<open>Splitting an amount\<close>

text \<open>Floors of the proportional parts never exceed the amount; what is left is below the number of parts.\<close>

lemma floor_parts_le:
  fixes k t :: int
  assumes "0 \<le> k" and "0 < t" and "\<And>s. s \<in> set ss \<Longrightarrow> 0 \<le> s" and "sum_list ss \<le> t"
  shows "sum_list (map (\<lambda>s. k * s div t) ss) \<le> k"
proof -
  have "t * sum_list (map (\<lambda>s. k * s div t) ss) \<le> k * sum_list ss"
  proof (induction ss)
    case (Cons s ss)
    have "t * (k * s div t) \<le> k * s" using mult_div_mod_eq[of t "k * s"] pos_mod_sign[of t "k * s"] assms(2) by linarith
    with Cons show ?case by (simp add: algebra_simps)
  qed simp
  also have "\<dots> \<le> k * t" using assms(1,4) by (rule mult_left_mono[rotated])
  finally show ?thesis using assms(2) by (simp add: mult.commute)
qed

lemma wrap_sum_exact:
  assumes "\<And>x. x \<in> set xs \<Longrightarrow> 0 \<le> x" and "in64 (sum_list xs)"
  shows "wrap_sum xs = sum_list xs"
proof -
  have "foldl (\<lambda>t x. wrap64 (t + x)) a xs = a + sum_list xs" if "0 \<le> a" "a + sum_list xs < 2 ^ 63" for a
    using that assms(1)
  proof (induction xs arbitrary: a)
    case (Cons x xs)
    have "0 \<le> sum_list xs" using Cons.prems(3) by (auto intro: sum_list_nonneg)
    moreover have "0 \<le> x" using Cons.prems(3) by simp
    ultimately have "in64 (a + x)" "0 \<le> a + x" using Cons.prems(1,2) by (auto simp: in64_def)
    with Cons show ?case by (simp add: algebra_simps)
  qed simp
  from this[of 0] assms(2) show ?thesis by (simp add: wrap_sum_def in64_def)
qed

lemma floor_part_bounds:
  fixes k t :: int
  assumes "0 \<le> k" and "0 < t" and "0 \<le> s" and "s \<le> t"
  shows "0 \<le> k * s div t" and "k * s div t \<le> k"
proof -
  show "0 \<le> k * s div t" using assms by (simp add: pos_imp_zdiv_nonneg_iff)
  show "k * s div t \<le> k" using floor_parts_le[of k t "[s]"] assms by simp
qed

text \<open>The parts of the Go code, when no product and no sum leaves 64 bits.\<close>

lemma go_parts:
  assumes "0 \<le> k" and "in64 k" and "\<forall>s\<in>set ss. 0 \<le> s \<and> k * s < 2 ^ 63" and "0 < sum_list ss" and "in64 (sum_list ss)"
  defines "parts \<equiv> map (\<lambda>s. go_div (wrap64 (k * s)) (wrap_sum ss)) ss"
  shows "parts = map (\<lambda>s. k * s div sum_list ss) ss" and "\<forall>p\<in>set parts. 0 \<le> p \<and> p \<le> k"
    and "wrap_sum parts = sum_list parts" and "0 \<le> sum_list parts" and "sum_list parts \<le> k"
proof -
  have t: "wrap_sum ss = sum_list ss" using assms by (intro wrap_sum_exact) auto
  show parts: "parts = map (\<lambda>s. k * s div sum_list ss) ss"
    unfolding parts_def t
  proof (rule map_cong[OF refl])
    fix s assume "s \<in> set ss"
    with assms(1,3) have "0 \<le> k * s" "in64 (k * s)" by (auto simp: in64_def intro: order.trans[of _ 0])
    then show "go_div (wrap64 (k * s)) (sum_list ss) = k * s div sum_list ss" using assms(4) by (simp add: go_div_nonneg)
  qed
  have le: "s \<le> sum_list ss" if "s \<in> set ss" for s using member_le_sum_list[of s ss] that assms(3) by simp
  show b: "\<forall>p\<in>set parts. 0 \<le> p \<and> p \<le> k"
    using floor_part_bounds[OF assms(1,4)] le assms(3) by (auto simp: parts)
  then show nn: "0 \<le> sum_list parts" by (auto intro: sum_list_nonneg)
  show s: "sum_list parts \<le> k" unfolding parts using assms by (intro floor_parts_le) auto
  show "wrap_sum parts = sum_list parts" using b nn s assms(2) by (intro wrap_sum_exact) (auto simp: in64_def)
qed

text \<open>The loop over the sales ends at one of them.\<close>

lemma sum_list_update_int: "k < length xs \<Longrightarrow> sum_list (xs[k := (x :: int)]) = sum_list xs - xs ! k + x"
  by (induction xs arbitrary: k) (auto split: nat.splits)

lemma largest_from_bound: "best < i \<Longrightarrow> largest_from i best sale ss < i + length ss"
  by (induction i best sale ss rule: largest_from.induct) auto

lemma largest_sale_bound: "ss \<noteq> [] \<Longrightarrow> largest_sale ss < length ss"
  using largest_from_bound[of 0 1] by (auto simp: largest_sale_def split: list.split)

text \<open>The debts a refund opened for the share of the representatives of an order.\<close>

definition rep_share_debt :: "string \<Rightarrow> obligation \<Rightarrow> bool" where
  "rep_share_debt ord x \<longleftrightarrow> ob_cause x = CauseRefundRepShare \<and>
     (case ob_source x of None \<Rightarrow> False | Some s \<Rightarrow> s = ord \<or> take (length ord + 1) s = ord @ '':'')"

definition rep_share_charged :: "'a obligations_db_scheme \<Rightarrow> string \<Rightarrow> int" where
  "rep_share_charged db ord = sum_list (map ob_amount [x \<leftarrow> obligations db. rep_share_debt ord x])"

definition source_taken :: "'a obligations_db_scheme \<Rightarrow> string \<Rightarrow> bool" where
  "source_taken db src \<longleftrightarrow> list_ex (\<lambda>x. ob_cause x = CauseRefundRepShare \<and> ob_source x = Some src) (obligations db)"

lemma bumpCache_obligations: "bumpCache k i d db = Inr db' \<Longrightarrow> obligations db' = obligations db"
  by (auto simp: bumpCache_def split: if_splits)

lemma send_notice_obligations [simp]: "obligations (send_notice k i b db) = obligations db"
  by (simp add: send_notice_def split: prod.split)

text \<open>One debt of the share: opened once per source.\<close>

lemma share_debt_new:
  assumes "CreateRef PartyMerchant m a CauseRefundRepShare ord src actor db = Inr (made, db')" and "src \<noteq> ''''"
    and "\<not> source_taken db src" and "src = ord \<or> src = ord @ '':'' @ m"
  shows "rep_share_charged db' ord = rep_share_charged db ord + a"
    and "source_taken db' s \<longleftrightarrow> s = src \<or> source_taken db s" and "0 < a"
proof -
  from assms(3) have f: "\<not> origin_taken db PartyMerchant m CauseRefundRepShare o' (Some src)" for o'
    by (simp add: origin_taken_def source_taken_def)
  from assms(1) show "0 < a" by (auto simp: CreateRef_def split: if_splits)
  from assms(1,2) f obtain x where x: "obligations db' = obligations db @ [x]" "ob_cause x = CauseRefundRepShare"
      "ob_source x = Some src" "ob_amount x = a"
    by (auto simp: CreateRef_def Let_def result_simps split: if_splits dest!: bumpCache_obligations)
  with assms(4) show "rep_share_charged db' ord = rep_share_charged db ord + a"
    by (auto simp: rep_share_charged_def rep_share_debt_def)
  show "source_taken db' s \<longleftrightarrow> s = src \<or> source_taken db s" using x by (auto simp: source_taken_def)
qed

lemma share_debt_again:
  assumes "source_taken db src" and "0 < a" and "in64 a" and "src \<noteq> ''''"
  shows "CreateRef PartyMerchant m a CauseRefundRepShare ord src actor db = Inr (False, db)"
  using assms by (simp add: CreateRef_def Let_def origin_taken_def source_taken_def party_defs
      CauseRefundRepShare_def obligationCauses_def)

lemma charge_stores:
  assumes "foldE (charge_store ord actor cs) ms db = Inr db'" and "distinct ms"
    and "\<forall>m\<in>set ms. \<not> source_taken db (ord @ '':'' @ m)"
  shows "rep_share_charged db' ord = rep_share_charged db ord + sum_list (map (\<lambda>m. max 0 (store_charge cs m)) ms)"
    and "\<forall>m\<in>set ms. 0 < store_charge cs m \<longrightarrow> source_taken db' (ord @ '':'' @ m)"
    and "\<forall>s. source_taken db s \<longrightarrow> source_taken db' s" and "wipe_debts db' = wipe_debts db"
proof -
  have "rep_share_charged db' ord = rep_share_charged db ord + sum_list (map (\<lambda>m. max 0 (store_charge cs m)) ms) \<and>
      (\<forall>m\<in>set ms. 0 < store_charge cs m \<longrightarrow> source_taken db' (ord @ '':'' @ m)) \<and>
      (\<forall>s. source_taken db s \<longrightarrow> source_taken db' s) \<and> wipe_debts db' = wipe_debts db"
    using assms
  proof (induction ms arbitrary: db)
    case (Cons m ms)
    from Cons.prems(1) obtain u where u: "charge_store ord actor cs m db = Inr u"
        "foldE (charge_store ord actor cs) ms u = Inr db'" by (auto simp: result_simps)
    show ?case
    proof (cases "store_charge cs m \<le> 0")
      case True
      then have "u = db" using u(1) by (simp add: charge_store_def)
      with Cons.IH[of u] u(2) Cons.prems(2,3) True show ?thesis by auto
    next
      case False
      with u(1) obtain b where c: "CreateRef PartyMerchant m (store_charge cs m) CauseRefundRepShare ord (ord @ '':'' @ m) actor db = Inr (b, u)"
        by (auto simp: charge_store_def result_simps)
      have free: "\<not> source_taken db (ord @ '':'' @ m)" using Cons.prems(3) by simp
      note n = share_debt_new[OF c _ free]
      have "\<forall>m'\<in>set ms. \<not> source_taken u (ord @ '':'' @ m')"
        using n(2) Cons.prems(2,3) by auto
      with Cons.IH[of u] u(2) Cons.prems(2) n CreateRef_wipe[OF c] show ?thesis by auto
    qed
  qed simp
  then show "rep_share_charged db' ord = rep_share_charged db ord + sum_list (map (\<lambda>m. max 0 (store_charge cs m)) ms)"
    and "\<forall>m\<in>set ms. 0 < store_charge cs m \<longrightarrow> source_taken db' (ord @ '':'' @ m)"
    and "\<forall>s. source_taken db s \<longrightarrow> source_taken db' s" and "wipe_debts db' = wipe_debts db" by auto
qed

lemma wrap_sum_in64: "in64 (wrap_sum xs)"
proof -
  have "in64 a \<Longrightarrow> in64 (foldl (\<lambda>t x. wrap64 (t + x)) a xs)" for a by (induction xs arbitrary: a) simp_all
  then show ?thesis by (simp add: wrap_sum_def in64_def)
qed

lemma charge_stores_again:
  assumes "\<forall>m\<in>set ms. 0 < store_charge cs m \<longrightarrow> source_taken db (ord @ '':'' @ m)"
  shows "foldE (charge_store ord actor cs) ms db = Inr db"
  using assms
proof (induction ms)
  case (Cons m ms)
  have "charge_store ord actor cs m db = Inr db"
    using Cons.prems share_debt_again[of db "ord @ '':'' @ m" "store_charge cs m"] wrap_sum_in64
    by (auto simp: charge_store_def store_charge_def)
  with Cons show ?case by simp
qed simp

text \<open>What one representative kept, and what all did, falls whole on the stores.\<close>

lemma rep_charges_sum:
  assumes "0 < k" and "in64 k" and "ps \<noteq> []" and "\<forall>p\<in>set ps. 0 < pa_commission p \<and> k * pa_commission p < 2 ^ 63"
    and "in64 (sum_list (map pa_commission ps))"
  shows "sum_list (map snd (rep_charges k ps)) = k" and "\<forall>c\<in>set (rep_charges k ps). 0 \<le> snd c"
proof -
  let ?ss = "map pa_commission ps"
  obtain p qs where ps: "ps = p # qs" using assms(3) by (cases ps) auto
  have "0 \<le> sum_list (map pa_commission qs)" using assms(4) by (intro sum_list_map_nonneg) (auto simp: ps)
  with assms(4) have pos: "0 < sum_list ?ss" by (simp add: ps add_pos_nonneg)
  define parts where "parts = map (\<lambda>s. go_div (wrap64 (k * s)) (wrap_sum ?ss)) ?ss"
  have le: "\<forall>s\<in>set ?ss. 0 \<le> s \<and> k * s < 2 ^ 63" using assms(4) by auto
  note g = go_parts[OF _ assms(2) le pos assms(5), folded parts_def]
  obtain a rest where parts: "parts = a # rest" by (simp add: parts_def ps)
  have snds: "map snd (map (\<lambda>p. (pa_merchant p, go_div (wrap64 (k * pa_commission p)) (wrap_sum ?ss))) ps) = parts"
    by (simp add: parts_def comp_def)
  have tail: "map (\<lambda>p. go_div (wrap64 (k * pa_commission p)) (wrap_sum ?ss)) qs = rest"
    and head: "go_div (wrap64 (k * pa_commission p)) (wrap_sum ?ss) = a"
    using parts by (simp_all add: parts_def ps comp_def)
  have k: "0 \<le> k" using assms(1) by simp
  have nn: "0 \<le> a" "\<forall>x\<in>set rest. 0 \<le> x" "0 \<le> sum_list rest"
    using g(2)[OF k] by (auto simp: parts intro!: sum_list_nonneg)
  have s: "sum_list parts = a + sum_list rest" by (simp add: parts)
  have w: "wrap64 (k - wrap_sum parts) = k - sum_list parts" "wrap64 (a + (k - sum_list parts)) = a + (k - sum_list parts)"
    using g(3,4,5)[OF k] assms(2) nn s by (simp_all add: in64_def)
  have r: "rep_charges k ps = (pa_merchant p, a + (k - sum_list parts)) #
      map (\<lambda>p. (pa_merchant p, go_div (wrap64 (k * pa_commission p)) (wrap_sum ?ss))) qs"
    unfolding rep_charges_def Let_def snds w(1) using head w(2) by (simp add: ps)
  show "sum_list (map snd (rep_charges k ps)) = k" by (simp add: r comp_def tail s)
  have "\<forall>q\<in>set qs. 0 \<le> go_div (wrap64 (k * pa_commission q)) (wrap_sum ?ss)" using nn(2) tail by auto
  then show "\<forall>c\<in>set (rep_charges k ps). 0 \<le> snd c" using nn(1) g(5)[OF k] by (auto simp: r)
qed

text \<open>No product or sum of the split leaves 64 bits, and nobody kept less than nothing.\<close>

definition charge_fits :: "'a money_db_scheme \<Rightarrow> string \<Rightarrow> bool" where
  "charge_fits db ord \<longleftrightarrow>
     list_all (\<lambda>(_, k). 0 \<le> k \<and> list_all (\<lambda>p. k * pa_commission p < 2 ^ 63) (commission_parts db ord)) (kept_commissions db ord) \<and>
     in64 (sum_list (map snd (kept_commissions db ord))) \<and>
     in64 (sum_list (map pa_commission (commission_parts db ord)))"

lemma kept_keys: "distinct (map fst (kept_commissions db ord))"
  by (simp add: kept_commissions_def Let_def comp_def)

lemma commission_parts_facts:
  "p \<in> set (commission_parts db ord) \<Longrightarrow> 0 < pa_commission p \<and> pa_rep p \<noteq> None"
  by (simp add: commission_parts_def)

lemma sum_filter_part:
  assumes "\<forall>p\<in>set ps. 0 \<le> pa_commission p" and "in64 (sum_list (map pa_commission ps))"
  shows "in64 (sum_list (map pa_commission (filter P ps)))"
  using sum_list_filter_le[of ps pa_commission P] sum_list_map_nonneg[of "filter P ps" pa_commission] assms
  by (auto simp: in64_def)

lemma all_charges_facts:
  assumes "charge_fits db ord"
  defines "reps \<equiv> firsts (map pa_rep (commission_parts db ord))"
  shows "sum_list (map snd (all_charges db ord)) = sum_list (map (kept_of db ord) reps)"
    and "\<forall>c\<in>set (all_charges db ord). 0 \<le> snd c"
    and "\<forall>r\<in>set reps. 0 \<le> kept_of db ord r"
    and "sum_list (map (kept_of db ord) reps) \<le> sum_list (map snd (kept_commissions db ord))"
proof -
  let ?ps = "commission_parts db ord" and ?kept = "kept_commissions db ord"
  have kept: "0 \<le> k \<and> (\<forall>p\<in>set ?ps. k * pa_commission p < 2 ^ 63)" if "(u, k) \<in> set ?kept" for u k
    using assms(1) that by (auto simp: charge_fits_def list_all_iff)
  have nn: "0 \<le> kept_of db ord r" for r
    using kept by (auto simp: kept_of_def split: option.split dest: map_of_SomeD)
  then show "\<forall>r\<in>set reps. 0 \<le> kept_of db ord r" by simp
  define one where "one r = (if kept_of db ord r \<le> 0 then [] else rep_charges (kept_of db ord r) [p \<leftarrow> ?ps. pa_rep p = r])" for r
  have all: "all_charges db ord = concat (map one reps)"
    by (simp add: all_charges_def one_def[abs_def] Let_def reps_def)
  have one: "sum_list (map snd (one r)) = kept_of db ord r \<and> (\<forall>c\<in>set (one r). 0 \<le> snd c)" if r: "r \<in> set reps" for r
  proof (cases "kept_of db ord r \<le> 0")
    case True
    with nn[of r] show ?thesis by (simp add: one_def)
  next
    case False
    then obtain k where k: "(the r, k) \<in> set ?kept" "kept_of db ord r = k" "0 < k"
      by (auto simp: kept_of_def split: option.splits dest: map_of_SomeD)
    have "k \<le> sum_list (map snd ?kept)"
      using kept by (intro member_le_sum_list) (auto intro: image_eqI[OF _ k(1)])
    then have "in64 k" using assms(1) k(3) by (auto simp: charge_fits_def in64_def)
    moreover have "[p \<leftarrow> ?ps. pa_rep p = r] \<noteq> []" using r by (auto simp: reps_def filter_empty_conv)
    moreover have "in64 (sum_list (map pa_commission [p \<leftarrow> ?ps. pa_rep p = r]))"
      using assms(1) commission_parts_facts[of _ db ord] by (intro sum_filter_part) (auto simp: charge_fits_def dest: less_imp_le)
    ultimately show ?thesis
      using rep_charges_sum[OF k(3), of "[p \<leftarrow> ?ps. pa_rep p = r]"] kept[OF k(1)] commission_parts_facts[of _ db ord] False k(2)
      by (auto simp: one_def)
  qed
  have "sum_list (map snd (concat (map one rs))) = sum_list (map (kept_of db ord) rs)" if "set rs \<subseteq> set reps" for rs
    using that one by (induction rs) auto
  then show "sum_list (map snd (all_charges db ord)) = sum_list (map (kept_of db ord) reps)" by (simp add: all)
  show "\<forall>c\<in>set (all_charges db ord). 0 \<le> snd c" using one by (auto simp: all)
  have some: "\<forall>r\<in>set reps. r \<noteq> None" using commission_parts_facts[of _ db ord] by (auto simp: reps_def)
  then have inj: "inj_on the (set reps)" by (metis inj_onI option.expand)
  have "sum_list (map (kept_of db ord) reps) = (\<Sum>r\<in>set reps. kept_of db ord r)"
    by (simp add: reps_def sum_list_distinct_conv_sum_set)
  also have "\<dots> = (\<Sum>u\<in>the ` set reps. kept_of db ord (Some u))"
    using some by (subst sum.reindex[OF inj]) (auto intro!: sum.cong simp: kept_of_def)
  also have "\<dots> \<le> (\<Sum>u\<in>the ` set reps \<union> fst ` set ?kept. kept_of db ord (Some u))"
    using nn by (intro sum_mono2) auto
  also have "\<dots> = (\<Sum>u\<in>fst ` set ?kept. kept_of db ord (Some u))"
    by (intro sum.mono_neutral_right) (force simp: kept_of_def split: option.split dest: map_of_SomeD)+
  also have "\<dots> = sum_list (map (\<lambda>u. kept_of db ord (Some u)) (map fst ?kept))"
    using kept_keys[of db ord] by (simp add: sum_list_distinct_conv_sum_set del: map_map)
  also have "\<dots> = sum_list (map snd ?kept)"
    using kept_keys[of db ord] by (auto simp: kept_of_def intro!: arg_cong[of _ _ sum_list])
  finally show "sum_list (map (kept_of db ord) reps) \<le> sum_list (map snd ?kept)" .
qed

lemma store_charges_sum:
  assumes "\<forall>c\<in>set cs. 0 \<le> snd c" and "in64 (sum_list (map snd cs))"
  shows "sum_list (map (\<lambda>m. max 0 (store_charge cs m)) (firsts (map fst cs))) = sum_list (map snd cs)"
proof -
  have c: "store_charge cs m = sum_list (map snd [c \<leftarrow> cs. fst c = m])" for m
    unfolding store_charge_def using assms sum_list_filter_le[of cs snd "\<lambda>c. fst c = m"]
      sum_list_map_nonneg[of "[c \<leftarrow> cs. fst c = m]" snd]
    by (intro wrap_sum_exact) (auto simp: in64_def)
  have "0 \<le> store_charge cs m" for m unfolding c using assms(1) by (intro sum_list_map_nonneg) auto
  then have "sum_list (map (\<lambda>m. max 0 (store_charge cs m)) (firsts (map fst cs))) = sum_list (map (store_charge cs) (firsts (map fst cs)))"
    by (simp add: max_def)
  also have "\<dots> = (\<Sum>m\<in>fst ` set cs. sum_list (map snd [c \<leftarrow> cs. fst c = m]))"
    by (simp add: sum_list_distinct_conv_sum_set c)
  also have "\<dots> = sum_list (map snd cs)" by (rule sum_by_key) auto
  finally show ?thesis .
qed

lemma tables_wipe: "wipe_debts db' = wipe_debts db \<Longrightarrow> orders db' = orders db \<and> wallet_txs db' = wallet_txs db"
  by (drule arg_cong[of _ _ "\<lambda>d. (orders d, wallet_txs d)"]) (simp add: wipe_debts_def)

lemma parts_wipe:
  fixes db :: "'a money_db_scheme"
  shows "wipe_debts db' = wipe_debts db \<Longrightarrow> order_parts db' = order_parts db \<and> held_commissions db' = held_commissions db"
  by (drule arg_cong[of _ _ "\<lambda>d. (order_parts d, held_commissions d)"]) (simp add: wipe_debts_def)

lemma charge_env:
  fixes db :: "'a money_db_scheme"
  assumes "wipe_debts db' = wipe_debts db"
  shows "kept_commissions db' ord = kept_commissions db ord" and "commission_parts db' ord = commission_parts db ord"
    and "all_charges db' ord = all_charges db ord" and "order_of db' ord = order_of db ord"
    and "kept_of db' ord = kept_of db ord"
proof -
  note w = tables_wipe[OF assms] parts_wipe[OF assms]
  show k: "kept_commissions db' ord = kept_commissions db ord" and p: "commission_parts db' ord = commission_parts db ord"
    and "order_of db' ord = order_of db ord" using w by (simp_all add: kept_commissions_def commission_parts_def order_of_def)
  then show kept: "kept_of db' ord = kept_of db ord" by (simp add: kept_of_def[abs_def])
  show "all_charges db' ord = all_charges db ord" by (simp add: all_charges_def p kept cong: if_cong)
qed

text \<open>
  The cost of a promotion is shared out whole: the parts of the stores are never negative, add up
  to the cost, and each is the proportional part by sale rounded down, with what rounding leaves on one
  store, so the bases of the commissions are lowered by exactly what the promotion cost.
\<close>

theorem promo_parts_exact:
  assumes "0 \<le> promo" and "in64 promo" and "sales \<noteq> []" and "\<forall>s\<in>set sales. 0 \<le> s \<and> promo * s < 2 ^ 63"
    and "in64 (sum_list sales)"
  shows "sum_list (promo_parts promo sales) = promo \<and> (\<forall>p\<in>set (promo_parts promo sales). 0 \<le> p \<and> p \<le> promo) \<and>
    (\<exists>k < length sales. \<forall>j < length sales. j \<noteq> k \<longrightarrow> promo_parts promo sales ! j = promo * sales ! j div sum_list sales)"
proof (cases "promo = 0")
  case True
  then show ?thesis using assms(3) by (auto simp: promo_parts_def sum_list_triv intro: exI[of _ 0])
next
  case False
  then have promo: "0 < promo" using assms(1) by simp
  let ?t = "sum_list sales"
  have nn: "0 \<le> ?t" using assms(4) by (intro sum_list_nonneg) auto
  have t: "wrap_sum sales = ?t" using assms(4,5) by (intro wrap_sum_exact) auto
  define parts where "parts = map (\<lambda>s. if ?t > 0 then go_div (wrap64 (promo * s)) ?t else 0) sales"
  have p: "wrap_sum parts = sum_list parts \<and> (\<forall>p\<in>set parts. 0 \<le> p \<and> p \<le> promo) \<and> 0 \<le> sum_list parts \<and> sum_list parts \<le> promo \<and>
      parts = map (\<lambda>s. promo * s div ?t) sales"
  proof (cases "0 < ?t")
    case True
    then have "parts = map (\<lambda>s. go_div (wrap64 (promo * s)) (wrap_sum sales)) sales" by (simp add: parts_def t)
    with go_parts[OF assms(1,2,4) True assms(5)] show ?thesis by simp
  next
    case False
    then have "parts = map (\<lambda>_. 0) sales" "?t = 0" using nn by (simp_all add: parts_def)
    then show ?thesis using promo wrap_sum_exact[of "map (\<lambda>_. 0) sales"] by (auto simp: in64_def sum_list_triv)
  qed
  then have ps: "wrap_sum parts = sum_list parts" "\<forall>p\<in>set parts. 0 \<le> p \<and> p \<le> promo" "0 \<le> sum_list parts"
      "sum_list parts \<le> promo" and peq: "parts = map (\<lambda>s. promo * s div ?t) sales" by blast+
  define k where "k = largest_sale sales"
  have k: "k < length parts" using largest_sale_bound[OF assms(3)] by (simp add: k_def parts_def)
  have kp: "parts ! k \<in> set parts" using k by simp
  have le: "parts ! k \<le> sum_list parts" using ps(2) kp by (intro member_le_sum_list) blast+
  have "in64 (promo - sum_list parts)" "in64 (parts ! k + (promo - sum_list parts))"
    using ps(2-4) assms(2) le kp by (force simp: in64_def)+
  then have r: "promo_parts promo sales = parts[k := parts ! k + (promo - sum_list parts)]"
    unfolding promo_parts_def Let_def t parts_def[symmetric] k_def[symmetric] ps(1) using promo assms(3) by simp
  have "\<forall>q\<in>set (promo_parts promo sales). 0 \<le> q \<and> q \<le> promo"
  proof
    fix q assume "q \<in> set (promo_parts promo sales)"
    then have "q = parts ! k + (promo - sum_list parts) \<or> q \<in> set parts"
      unfolding r using set_update_subset_insert[THEN subsetD] by fastforce
    moreover have "0 \<le> parts ! k" "0 \<le> promo - sum_list parts" using ps(2,4) kp by auto
    ultimately show "0 \<le> q \<and> q \<le> promo" using ps(2) le by auto
  qed
  moreover have "sum_list (promo_parts promo sales) = promo" unfolding r using k by (simp add: sum_list_update_int)
  moreover have "\<forall>j < length sales. j \<noteq> k \<longrightarrow> promo_parts promo sales ! j = promo * sales ! j div ?t"
    unfolding r by (simp add: peq)
  ultimately show ?thesis using k by (auto simp: parts_def)
qed

lemma promo_parts_exact_witness:
  "promo_parts 1000 [300, 300, 100] = [430, 428, 142] \<and> sum_list (promo_parts 1000 [300, 300, 100]) = 1000"
proof -
  have "promo_parts 1000 [300, 300, 100] = [430, 428, 142]" by code_simp
  moreover have "sum_list (promo_parts 1000 [300, 300, 100]) = 1000"
    using promo_parts_exact[of 1000 "[300, 300, 100]"] by (simp add: in64_def)
  ultimately show ?thesis by simp
qed

text \<open>What a representative was paid in commissions, before deductions.\<close>

definition commissions_paid :: "'a wallet_db_scheme \<Rightarrow> user_id \<Rightarrow> int" where
  "commissions_paid db rep =
     sum_list (map tx_amount [t \<leftarrow> wallet_txs db. tx_user t = rep \<and> tx_kind t = ''commission'' \<and> tx_amount t > 0])"

lemma applyTx_commissions:
  assumes "applyTx u a kind ref nt actor db = Inr (r, db')"
  shows "commissions_paid db' rep = commissions_paid db rep + (if u = rep \<and> kind = ''commission'' \<and> 0 < a then a else 0)"
proof -
  obtain b i where r: "r = (b, i)" by (cases r)
  show ?thesis using applyTx_log[OF assms[unfolded r]] by (auto simp: commissions_paid_def)
qed

lemma applyTx_held:
  fixes db :: "'a money_db_scheme"
  assumes "applyTx u a kind ref nt actor db = Inr (r, db')"
  shows "held_commissions db' = held_commissions db"
proof -
  obtain ws ts n where "db' = db\<lparr>wallets := ws, wallet_txs := ts, next_tx := n\<rparr>" using applyTx_frame[OF assms] by blast
  then show ?thesis by simp
qed

lemma offsetRepDebt_shape:
  assumes "offsetRepDebt rep available ord actor db = Inr db'"
  shows "db' = db \<or> (\<exists>a nt b tx db1 n. 0 < a \<and> applyTx rep (- a) ''commission'' ord nt (Some actor) db = Inr ((b, tx), db1) \<and>
    SettleDebt PartyRep rep a ord tx (Some actor) db1 = Inr (n, db'))"
  using assms
  unfolding offsetRepDebt_def offset_debt_def deduct_def offset_pay_def ApplyTxID_def Let_def
  by (fastforce simp: result_simps split: if_splits)

lemma creditTreasury_shape:
  assumes "creditTreasury ord actor db = Inr db'"
  shows "db' = db \<or> (\<exists>u a b i. applyTx u a ''platform_profit'' ord ''platform share'' (Some actor) db = Inr ((b, i), db'))"
  using assms
  by (auto simp: creditTreasury_def ApplyTx_def Let_def result_simps split: if_splits option.splits prod.splits)

lemma release_held_effect:
  fixes db :: "'a money_db_scheme"
  assumes "release_held rep actor h db = Inr db'" and "0 < hc_amount h"
  shows "held_commissions db' = map (\<lambda>x. if hc_order x = hc_order h \<and> hc_rep x = hc_rep h
       then x\<lparr>hc_status := ''released''\<rparr> else x) (held_commissions db)"
    and "commissions_paid db' rep = commissions_paid db rep + hc_amount h"
proof -
  obtain r db1 db2 db3 where p: "applyTx rep (hc_amount h) ''commission'' (hc_order h) ''held commission released'' (Some actor) db = Inr (r, db1)"
    and o: "offsetRepDebt rep (hc_amount h) (hc_order h) actor db1 = Inr db2"
    and c: "creditTreasury (hc_order h) actor db2 = Inr db3"
    and db': "db' = db3\<lparr>held_commissions := map (\<lambda>x. if hc_order x = hc_order h \<and> hc_rep x = hc_rep h
       then x\<lparr>hc_status := ''released''\<rparr> else x) (held_commissions db3)\<rparr>"
    using assms(1) by (auto simp: release_held_def ApplyTx_def result_simps split: prod.splits)
  have s2: "held_commissions db2 = held_commissions db1 \<and> commissions_paid db2 rep = commissions_paid db1 rep"
    using offsetRepDebt_shape[OF o]
  proof (elim disjE exE conjE)
    fix a nt b tx d n
    assume a: "0 < a" and q: "applyTx rep (- a) ''commission'' (hc_order h) nt (Some actor) db1 = Inr ((b, tx), d)"
      and sd: "SettleDebt PartyRep rep a (hc_order h) tx (Some actor) d = Inr (n, db2)"
    have w: "wipe_debts db2 = wipe_debts d" using sd unfolding SettleDebt_def by (rule SettleBy_wipe)
    show ?thesis using parts_wipe[OF w] tables_wipe[OF w] applyTx_held[OF q] applyTx_commissions[OF q, of rep] a
      by (simp add: commissions_paid_def)
  qed simp
  have s3: "held_commissions db3 = held_commissions db2 \<and> commissions_paid db3 rep = commissions_paid db2 rep"
    using creditTreasury_shape[OF c] by (auto dest: applyTx_held simp: applyTx_commissions)
  show "held_commissions db' = map (\<lambda>x. if hc_order x = hc_order h \<and> hc_rep x = hc_rep h
       then x\<lparr>hc_status := ''released''\<rparr> else x) (held_commissions db)"
    using s2 s3 applyTx_held[OF p] by (simp add: db')
  show "commissions_paid db' rep = commissions_paid db rep + hc_amount h"
    using s2 s3 applyTx_commissions[OF p, of rep] assms(2) by (simp add: db' commissions_paid_def)
qed

lemma release_loop:
  fixes db :: "'a money_db_scheme"
  assumes "foldE (release_held rep actor) hs db = Inr db'" and "\<forall>h\<in>set hs. 0 < hc_amount h"
  shows "held_commissions db' = map (\<lambda>x. if \<exists>h\<in>set hs. hc_order x = hc_order h \<and> hc_rep x = hc_rep h
       then x\<lparr>hc_status := ''released''\<rparr> else x) (held_commissions db) \<and>
    commissions_paid db' rep = commissions_paid db rep + sum_list (map hc_amount hs)"
  using assms
proof (induction hs arbitrary: db)
  case (Cons h hs)
  from Cons.prems(1) obtain u where u: "release_held rep actor h db = Inr u" "foldE (release_held rep actor) hs u = Inr db'"
    by (auto simp: result_simps)
  have pos: "0 < hc_amount h" "\<forall>h\<in>set hs. 0 < hc_amount h" using Cons.prems(2) by simp_all
  note e = release_held_effect[OF u(1) pos(1)]
  note ih = Cons.IH[OF u(2) pos(2)]
  have "held_commissions db' = map (\<lambda>x. if \<exists>y\<in>set (h # hs). hc_order x = hc_order y \<and> hc_rep x = hc_rep y
       then x\<lparr>hc_status := ''released''\<rparr> else x) (held_commissions db)"
    unfolding ih[THEN conjunct1] e(1) map_map comp_def by (intro map_cong refl) auto
  with ih e(2) show ?case by simp
qed simp

section \<open>Properties\<close>

text \<open>
  Money held for a representative who was not active is paid once: releasing pays exactly the total
  that is shown as held, with its number of orders, leaves nothing of his held and nothing of anyone
  else's changed, and releasing again pays nothing and changes nothing.
\<close>

theorem held_paid_once:
  fixes db :: "'a money_db_scheme"
  assumes "ReleaseHeldCommissionsTx rep actor db = Inr ((n, amt), db')" and "\<forall>h\<in>set (held_commissions db). 0 < hc_amount h"
  shows "HeldCommissionTotal db rep = (amt, n) \<and> commissions_paid db' rep = commissions_paid db rep + amt \<and>
    HeldCommissionTotal db' rep = (0, 0) \<and> (\<forall>r. r \<noteq> rep \<longrightarrow> HeldCommissionTotal db' r = HeldCommissionTotal db r) \<and>
    ReleaseHeldCommissionsTx rep actor2 db' = Inr ((0, 0), db')"
proof -
  define hs where "hs = sort_key hc_created [h \<leftarrow> held_commissions db. hc_rep h = rep \<and> hc_status h = ''held'']"
  from assms(1) have l: "foldE (release_held rep actor) hs db = Inr db'" and n: "n = length hs" and a: "amt = sum_list (map hc_amount hs)"
    by (auto simp: ReleaseHeldCommissionsTx_def hs_def result_simps Let_def)
  have hs: "\<forall>h\<in>set hs. 0 < hc_amount h \<and> hc_rep h = rep" using assms(2) by (auto simp: hs_def)
  have "\<forall>h\<in>set hs. 0 < hc_amount h" using hs by simp
  note rel = release_loop[OF l this]
  note r = rel hs
  have none: "[h \<leftarrow> held_commissions db'. hc_rep h = rep \<and> hc_status h = ''held''] = []"
  proof -
    have "\<not> (hc_rep x = rep \<and> hc_status x = ''held'')" if here: "x \<in> set (held_commissions db')" for x
    proof -
      obtain y where y: "y \<in> set (held_commissions db)"
          "x = (if \<exists>h\<in>set hs. hc_order y = hc_order h \<and> hc_rep y = hc_rep h then y\<lparr>hc_status := ''released''\<rparr> else y)"
        using here unfolding rel[THEN conjunct1] set_map by (elim imageE)
      then show ?thesis by (cases "y \<in> set hs") (auto simp: hs_def)
    qed
    then show ?thesis by (simp add: filter_empty_conv)
  qed
  have other: "HeldCommissionTotal db' r = HeldCommissionTotal db r" if "r \<noteq> rep" for r
  proof -
    have "[h \<leftarrow> map (\<lambda>x. if \<exists>h\<in>set hs. hc_order x = hc_order h \<and> hc_rep x = hc_rep h then x\<lparr>hc_status := ''released''\<rparr> else x) hl.
        hc_rep h = r \<and> hc_status h = ''held''] = [h \<leftarrow> hl. hc_rep h = r \<and> hc_status h = ''held'']" for hl
      using hs that by (induction hl) auto
    note same = this
    show ?thesis unfolding HeldCommissionTotal_def rel[THEN conjunct1] Let_def same ..
  qed
  have "HeldCommissionTotal db rep = (amt, n)"
    by (simp add: HeldCommissionTotal_def Let_def n a hs_def sum_list_map_sort_key)
  with r none other a show ?thesis by (simp add: HeldCommissionTotal_def ReleaseHeldCommissionsTx_def Let_def)
qed

definition example_held_db :: money_db where
  "example_held_db = settle_db.extend example_order_db \<lparr>free_claims = [],
     held_commissions = [\<lparr>hc_rep = ''a'', hc_order = ''o1'', hc_amount = 80, hc_status = ''held'', hc_created = 3\<rparr>,
       \<lparr>hc_rep = ''d'', hc_order = ''o1'', hc_amount = 50, hc_status = ''held'', hc_created = 1\<rparr>],
     order_parts = [], compensation_requests = []\<rparr>"

lemma held_paid_once_witness:
  "\<exists>db. ReleaseHeldCommissionsTx ''a'' ''d'' example_held_db = Inr ((1, 80), db) \<and> commissions_paid db ''a'' = 80 \<and>
     HeldCommissionTotal db ''d'' = (50, 1) \<and> ReleaseHeldCommissionsTx ''a'' ''t'' db = Inr ((0, 0), db)"
proof -
  let ?r = "ReleaseHeldCommissionsTx ''a'' ''d'' example_held_db"
  have "case ?r of Inl _ \<Rightarrow> False | Inr ((n, amt), db) \<Rightarrow> n = 1 \<and> amt = 80" by code_simp
  then obtain db where r: "?r = Inr ((1, 80), db)" by (auto split: sum.splits)
  have "\<forall>h\<in>set (held_commissions example_held_db). 0 < hc_amount h" by code_simp
  note p = held_paid_once[OF r this, of "''t''"]
  have "commissions_paid example_held_db ''a'' = 0" "HeldCommissionTotal example_held_db ''d'' = (50, 1)" by code_simp+
  with r p show ?thesis by auto
qed

text \<open>
  A refund charges the stores of an order for what its representatives kept: the debts it opens add
  up to exactly what was kept, rounding included and whichever stores it is split over, and charging
  again, by anyone, opens nothing. It is assumed that the order has no such debt yet and that no product
  of the split leaves 64 bits.
\<close>

theorem rep_share_charged_once:
  fixes db :: "'a money_db_scheme"
  assumes "chargeRefundRepSharePartsTx ord actor db = Inr (tot, db')" and "charge_fits db ord" and "ord \<noteq> ''''"
    and "\<forall>x\<in>set (obligations db). \<not> rep_share_debt ord x"
  shows "tot = sum_list (map snd (kept_commissions db ord)) \<and> rep_share_charged db' ord = tot \<and>
    chargeRefundRepSharePartsTx ord actor2 db' = Inr (tot, db')"
proof -
  let ?kept = "kept_commissions db ord" and ?cs = "all_charges db ord"
  let ?reps = "firsts (map pa_rep (commission_parts db ord))"
  note f = all_charges_facts[OF assms(2)]
  have nn: "\<forall>x\<in>set (map snd ?kept). 0 \<le> x" and t64: "in64 (sum_list (map snd ?kept))"
    using assms(2) by (auto simp: charge_fits_def list_all_iff)
  then have t: "wrap_sum (map snd ?kept) = sum_list (map snd ?kept)" by (intro wrap_sum_exact) auto
  have t0: "0 \<le> sum_list (map snd ?kept)" using nn by (intro sum_list_nonneg) blast
  have g0: "0 \<le> sum_list (map (kept_of db ord) ?reps)" using f(3) by (intro sum_list_map_nonneg) auto
  define rest where "rest = sum_list (map snd ?kept) - sum_list (map (kept_of db ord) ?reps)"
  have m: "map (\<lambda>rep. if kept_of db ord rep \<le> 0 then 0 else kept_of db ord rep) ?reps = map (kept_of db ord) ?reps"
    using f(3) by auto
  have g: "wrap_sum (map (\<lambda>rep. if kept_of db ord rep \<le> 0 then 0 else kept_of db ord rep) ?reps) =
      sum_list (map (kept_of db ord) ?reps)"
    unfolding m using f(3,4) t64 g0 by (intro wrap_sum_exact) (auto simp: in64_def)
  have r64: "in64 rest" and r0: "0 \<le> rest" using t64 t0 g0 f(4) by (auto simp: rest_def in64_def)
  have in64s: "\<not> list_ex (\<lambda>(_, k). \<not> in64 k) ?kept"
    using assms(1) by (auto simp: chargeRefundRepSharePartsTx_def Let_def split: if_splits)
  have none: "rep_share_charged db ord = 0" using assms(4) by (simp add: rep_share_charged_def filter_False)
  have free: "\<not> source_taken db src" if "src = ord \<or> take (length ord + 1) src = ord @ '':''" for src
    using assms(4) that by (auto simp: source_taken_def list_ex_iff rep_share_debt_def)
  show ?thesis
  proof (cases "sum_list (map snd ?kept) \<le> 0")
    case True
    then have "tot = 0 \<and> db' = db" using assms(1) in64s t by (simp add: chargeRefundRepSharePartsTx_def Let_def)
    with True t0 none in64s t show ?thesis by (simp add: chargeRefundRepSharePartsTx_def Let_def)
  next
    case False
    define primary where "primary = (\<lambda>actor (db :: 'a money_db_scheme). if rest > 0 then
        (case order_of db ord of
           None \<Rightarrow> Inl ErrNoRows
         | Some x \<Rightarrow> (case order_party x of
             None \<Rightarrow> Inl ErrRepShareNoParty
           | Some m \<Rightarrow> if m = '''' then Inl ErrRepShareNoParty
               else bindE (CreateRef PartyMerchant m rest CauseRefundRepShare ord ord actor db) (\<lambda>(_, db). Inr db)))
      else Inr db)"
    have charge: "chargeRefundRepSharePartsTx ord a d =
        bindE (primary a d) (\<lambda>d. bindE (foldE (charge_store ord a ?cs) (firsts (map fst ?cs)) d)
          (\<lambda>d. Inr (sum_list (map snd ?kept), d)))" if "wipe_debts d = wipe_debts db" for a and d :: "'a money_db_scheme"
      unfolding chargeRefundRepSharePartsTx_def Let_def charge_env[OF that, of ord] t g rest_def[symmetric] wrap64_id[OF r64]
      using in64s False r64 by (simp add: primary_def charge_env[OF that, of ord])
    obtain u where u: "primary actor db = Inr u" "foldE (charge_store ord actor ?cs) (firsts (map fst ?cs)) u = Inr db'"
        and tot: "tot = sum_list (map snd ?kept)"
      using assms(1) charge[of db actor] by (auto simp: result_simps)
    have p: "rep_share_charged u ord = rest \<and> (\<forall>m. \<not> source_taken u (ord @ '':'' @ m)) \<and> wipe_debts u = wipe_debts db \<and>
        (0 < rest \<longrightarrow> source_taken u ord)"
    proof (cases "0 < rest")
      case True
      with u(1) obtain m b where c: "CreateRef PartyMerchant m rest CauseRefundRepShare ord ord actor db = Inr (b, u)"
        by (auto simp: primary_def result_simps split: option.splits if_splits)
      note n = share_debt_new[OF c assms(3) free]
      from n CreateRef_wipe[OF c] none free show ?thesis by auto
    next
      case False
      with r0 u(1) none free show ?thesis by (auto simp: primary_def)
    qed
    note l = charge_stores[OF u(2)]
    have "sum_list (map snd ?cs) \<le> sum_list (map snd ?kept)" using f(1,4) by simp
    moreover have "0 \<le> sum_list (map snd ?cs)" using f(2) by (intro sum_list_map_nonneg) auto
    ultimately have "in64 (sum_list (map snd ?cs))" using t64 by (auto simp: in64_def)
    note s = store_charges_sum[OF f(2) this]
    have "rep_share_charged db' ord = rest + sum_list (map (kept_of db ord) ?reps)"
      using l(1) p s f(1) by simp
    then have sum: "rep_share_charged db' ord = tot" by (simp add: rest_def tot)
    have w: "wipe_debts db' = wipe_debts db" using l(4) p by simp
    have "primary actor2 db' = Inr db'"
    proof (cases "0 < rest")
      case True
      with p l(3) have "source_taken db' ord" by auto
      note again = share_debt_again[OF this True r64 assms(3)]
      from True u(1) obtain x m where "order_of db ord = Some x" "order_party x = Some m" "m \<noteq> ''''"
        by (auto simp: primary_def split: option.splits if_splits)
      with charge_env(4)[OF w] again True show ?thesis by (simp add: primary_def)
    qed (simp add: primary_def)
    moreover have "foldE (charge_store ord actor2 ?cs) (firsts (map fst ?cs)) db' = Inr db'"
      by (rule charge_stores_again) (use l(2) p in auto)
    ultimately show ?thesis using charge[OF w, of actor2] sum tot by simp
  qed
qed

text \<open>Two stores share a commission of 100 by 30 and 60, and 7 were kept by a user with no part.\<close>

definition example_kept_db :: money_db where
  "example_kept_db = example_held_db\<lparr>
     wallet_txs := map (\<lambda>(u, a). \<lparr>tx_id = 0, tx_user = u, tx_amount = a, tx_kind = ''commission'', tx_ref = ''o1'',
       tx_note = [], tx_by = None, tx_at = 0\<rparr>) [(''a'', 120), (''d'', 7), (''a'', - 20)],
     merchants := merchants example_held_db @ map (\<lambda>m. m\<lparr>m_id := ''n''\<rparr>) (merchants example_held_db),
     order_parts := map (\<lambda>(m, s, c). (new_part ''o1'' m s)\<lparr>pa_rep := Some ''a'', pa_commission := c\<rparr>)
       [(''m'', 1, 30), (''n'', 2, 60)]\<rparr>"

lemma rep_share_charged_once_witness:
  "\<exists>db. chargeRefundRepSharePartsTx ''o1'' None example_kept_db = Inr (107, db) \<and> rep_share_charged db ''o1'' = 107 \<and>
     map (\<lambda>x. (ob_party x, ob_amount x)) (obligations db) = [(''m'', 7), (''n'', 67), (''m'', 33)] \<and>
     chargeRefundRepSharePartsTx ''o1'' (Some ''t'') db = Inr (107, db)"
proof -
  let ?r = "chargeRefundRepSharePartsTx ''o1'' None example_kept_db"
  have "case ?r of Inl _ \<Rightarrow> False | Inr (t, db) \<Rightarrow> t = 107 \<and>
      map (\<lambda>x. (ob_party x, ob_amount x)) (obligations db) = [(''m'', 7), (''n'', 67), (''m'', 33)]" by code_simp
  then obtain db where r: "?r = Inr (107, db)"
      "map (\<lambda>x. (ob_party x, ob_amount x)) (obligations db) = [(''m'', 7), (''n'', 67), (''m'', 33)]" by (auto split: sum.splits)
  have "charge_fits example_kept_db ''o1''" "\<forall>x\<in>set (obligations example_kept_db). \<not> rep_share_debt ''o1'' x" by code_simp+
  from rep_share_charged_once[OF r(1) this(1) _ this(2), of "Some ''t''"] r show ?thesis by auto
qed

end
