(* ===== verification/Fail_Reasons.thy ===== *)
theory Fail_Reasons
  imports Statuses
begin

text \<open>
  The reasons a driver reports and the reasons the office ends an order with
  (\<open>orders/failreasons.go\<close>): the three lists, the lookups by code and status, who is at
  fault, and which reasons the office is offered at a status. A Go pair of a value and
  \<open>ok\<close> is an option.
\<close>

section \<open>The lists\<close>

record fail_reason =
  fr_code :: string
  fr_fault :: string
  fr_at :: status
  fr_kind :: string
  fr_retired :: bool

definition FaultCustomer :: string where "FaultCustomer = ''customer''"
definition FaultDriver :: string where "FaultDriver = ''driver''"
definition FaultMerchant :: string where "FaultMerchant = ''merchant''"
definition FaultPlatform :: string where "FaultPlatform = ''platform''"

lemmas fault_defs = FaultCustomer_def FaultDriver_def FaultMerchant_def FaultPlatform_def

definition IsFault :: "string \<Rightarrow> bool" where
  "IsFault f \<longleftrightarrow> f = FaultCustomer \<or> f = FaultDriver \<or> f = FaultMerchant \<or> f = FaultPlatform"

definition ReasonReport :: string where "ReasonReport = ''report''"
definition ReasonRelease :: string where "ReasonRelease = ''release''"

definition report_at :: "string \<Rightarrow> string \<Rightarrow> status \<Rightarrow> fail_reason" where
  "report_at c f st =
     \<lparr>fr_code = c, fr_fault = f, fr_at = st, fr_kind = ReasonReport, fr_retired = False\<rparr>"

definition release_at :: "string \<Rightarrow> status \<Rightarrow> fail_reason" where
  "release_at c st =
     \<lparr>fr_code = c, fr_fault = FaultDriver, fr_at = st, fr_kind = ReasonRelease, fr_retired = False\<rparr>"

definition FailReasons :: "fail_reason list" where
  "FailReasons = []"

definition StageReports :: "fail_reason list" where
  "StageReports =
    [report_at ''merchant_not_ready'' FaultMerchant StAtPickup,
     report_at ''merchant_closed'' FaultMerchant StAtPickup,
     report_at ''merchant_refused'' FaultMerchant StAtPickup,
     report_at ''order_unknown'' FaultMerchant StAtPickup,
     report_at ''customer_cancelled_by_phone'' FaultCustomer StAssigned,
     report_at ''customer_cancelled_by_phone'' FaultCustomer StPickedUp,
     report_at ''customer_cancelled_by_phone'' FaultCustomer StOnTheWay,
     report_at ''customer_absent'' FaultCustomer StAtDropoff,
     report_at ''customer_refused'' FaultCustomer StAtDropoff,
     (report_at ''customer_unreachable'' FaultCustomer StAtDropoff)\<lparr>fr_retired := True\<rparr>,
     report_at ''address_wrong'' FaultCustomer StAtDropoff,
     report_at ''driver_late'' FaultDriver StAtDropoff,
     report_at ''customer_no_answer'' FaultCustomer StAtDropoff]"

definition ReleaseReasons :: "fail_reason list" where
  "ReleaseReasons =
    [release_at ''bike_broken'' StAssigned, release_at ''accident'' StAssigned,
     release_at ''force_majeure'' StAssigned, release_at ''bike_broken'' StAtPickup,
     release_at ''accident'' StAtPickup, release_at ''force_majeure'' StAtPickup]"

section \<open>Lookups\<close>

definition reason_in :: "fail_reason list \<Rightarrow> string \<Rightarrow> status \<Rightarrow> fail_reason option" where
  "reason_in rs code st = find (\<lambda>r. fr_code r = code \<and> fr_at r = st) rs"

definition ReleaseReasonAt :: "string \<Rightarrow> status \<Rightarrow> fail_reason option" where
  "ReleaseReasonAt code st = reason_in ReleaseReasons code st"

definition failReasonAt :: "string \<Rightarrow> status \<Rightarrow> fail_reason option" where
  "failReasonAt code st = reason_in FailReasons code st"

definition StageReportAt :: "string \<Rightarrow> status \<Rightarrow> fail_reason option" where
  "StageReportAt code st = reason_in StageReports code st"

definition IsDoorReport :: "string \<Rightarrow> bool" where
  "IsDoorReport code \<longleftrightarrow> StageReportAt code StAtDropoff \<noteq> None"

definition AfterPickup :: "status \<Rightarrow> bool" where
  "AfterPickup st \<longleftrightarrow> st = StPickedUp \<or> st = StOnTheWay \<or> st = StAtDropoff"

definition OfficeReasonAt :: "string \<Rightarrow> status \<Rightarrow> bool" where
  "OfficeReasonAt code from =
     (if from = StAtPickup then StageReportAt code StAtPickup \<noteq> None
      else list_ex (\<lambda>st. StageReportAt code st \<noteq> None) [StPickedUp, StOnTheWay, StAtDropoff])"

definition OfficeDecides :: "status \<Rightarrow> bool" where
  "OfficeDecides st \<longleftrightarrow> st = StAtPickup \<or> AfterPickup st"

fun officeReasonsLoop :: "status \<Rightarrow> string list \<Rightarrow> fail_reason list \<Rightarrow> string list" where
  "officeReasonsLoop st seen [] = []"
| "officeReasonsLoop st seen (r # rs) =
     (if fr_retired r \<or> fr_code r \<in> set seen \<or> \<not> OfficeReasonAt (fr_code r) st
      then officeReasonsLoop st seen rs
      else fr_code r # officeReasonsLoop st (fr_code r # seen) rs)"

definition OfficeReasonsAt :: "status \<Rightarrow> string list" where
  "OfficeReasonsAt st =
     (if \<not> OfficeDecides st then [] else officeReasonsLoop st [] StageReports)"

definition OfficeAnswers :: "status \<Rightarrow> bool" where
  "OfficeAnswers st \<longleftrightarrow> st = StAssigned \<or> OfficeDecides st"

definition IsTripReport :: "string \<Rightarrow> bool" where
  "IsTripReport code =
     list_ex (\<lambda>st. StageReportAt code st \<noteq> None) [StAtPickup, StPickedUp, StOnTheWay, StAtDropoff]"

definition FaultOf :: "string \<Rightarrow> string" where
  "FaultOf code = (case find (\<lambda>r. fr_code r = code) FailReasons of None \<Rightarrow> '''' | Some r \<Rightarrow> fr_fault r)"

definition SuggestedFault :: "string \<Rightarrow> string" where
  "SuggestedFault code =
     (if FaultOf code \<noteq> '''' then FaultOf code
      else case find (\<lambda>r. fr_code r = code) StageReports of None \<Rightarrow> '''' | Some r \<Rightarrow> fr_fault r)"

definition IsStageReport :: "string \<Rightarrow> bool" where
  "IsStageReport code = list_ex (\<lambda>r. fr_code r = code) StageReports"

definition FailReasonsAt :: "status \<Rightarrow> fail_reason list" where
  "FailReasonsAt st =
     concat (map (\<lambda>rs. [r \<leftarrow> rs. fr_at r = st \<and> \<not> fr_retired r])
       [FailReasons, StageReports, ReleaseReasons])"

section \<open>What the lookups answer\<close>

lemma find_Some_set: "find P xs = Some x \<Longrightarrow> x \<in> set xs \<and> P x"
  by (auto simp: find_Some_iff)

lemma reason_in_Some:
  "reason_in rs code st = Some r \<Longrightarrow> r \<in> set rs \<and> fr_code r = code \<and> fr_at r = st"
  by (auto simp: reason_in_def dest: find_Some_set)

lemma reason_in_iff: "reason_in rs code st \<noteq> None \<longleftrightarrow> (\<exists>r\<in>set rs. fr_code r = code \<and> fr_at r = st)"
  by (auto simp: reason_in_def find_None_iff)

lemma officeReasonsLoop_set:
  "set (officeReasonsLoop st seen rs) =
     {fr_code r | r. r \<in> set rs \<and> \<not> fr_retired r \<and> OfficeReasonAt (fr_code r) st} - set seen"
  by (induction st seen rs rule: officeReasonsLoop.induct) auto

lemma officeReasonsLoop_distinct:
  "distinct (officeReasonsLoop st seen rs) \<and> set (officeReasonsLoop st seen rs) \<inter> set seen = {}"
  by (induction st seen rs rule: officeReasonsLoop.induct) auto

lemma OfficeReasonAt_IsStageReport:
  assumes "OfficeReasonAt code st"
  shows "IsStageReport code"
  using assms reason_in_iff[of StageReports code]
  by (auto simp: OfficeReasonAt_def StageReportAt_def IsStageReport_def list_ex_iff split: if_splits)

lemma StageReports_checked:
  "list_all (\<lambda>r. SuggestedFault (fr_code r) = fr_fault r \<and> IsFault (fr_fault r)) StageReports"
  by code_simp

lemma SuggestedFault_stage: "r \<in> set StageReports \<Longrightarrow> SuggestedFault (fr_code r) = fr_fault r"
  and StageReports_faults: "r \<in> set StageReports \<Longrightarrow> IsFault (fr_fault r)"
  using StageReports_checked by (auto simp only: list_all_iff)

section \<open>Properties\<close>

text \<open>
  The office is offered, with no repetition, exactly the reasons that are still in use and
  that the server will then accept at that status; each of them names a fault, the same one at
  whichever stage the driver reported it.
\<close>

theorem office_reasons_offered:
  "distinct (OfficeReasonsAt st) \<and>
   (\<forall>code. code \<in> set (OfficeReasonsAt st) \<longleftrightarrow>
      OfficeDecides st \<and> OfficeReasonAt code st \<and> (\<exists>r\<in>set StageReports. fr_code r = code \<and> \<not> fr_retired r)) \<and>
   (\<forall>code\<in>set (OfficeReasonsAt st). IsFault (SuggestedFault code) \<and>
      (\<forall>at r. StageReportAt code at = Some r \<longrightarrow> fr_fault r = SuggestedFault code))"
proof (intro conjI allI ballI impI)
  show "distinct (OfficeReasonsAt st)"
    by (simp add: OfficeReasonsAt_def officeReasonsLoop_distinct)
  fix code
  show "code \<in> set (OfficeReasonsAt st) \<longleftrightarrow>
      OfficeDecides st \<and> OfficeReasonAt code st \<and> (\<exists>r\<in>set StageReports. fr_code r = code \<and> \<not> fr_retired r)"
    by (auto simp: OfficeReasonsAt_def officeReasonsLoop_set)
next
  fix code assume "code \<in> set (OfficeReasonsAt st)"
  then obtain r where "r \<in> set StageReports" "fr_code r = code"
    by (auto simp: OfficeReasonsAt_def officeReasonsLoop_set split: if_splits)
  then show "IsFault (SuggestedFault code)"
    using SuggestedFault_stage StageReports_faults by auto
next
  fix code at r assume "StageReportAt code at = Some r"
  then show "fr_fault r = SuggestedFault code"
    using reason_in_Some SuggestedFault_stage by (fastforce simp: StageReportAt_def)
qed

lemma office_reasons_offered_witness:
  "IsFault (SuggestedFault ''driver_late'') \<and> ''driver_late'' \<in> set (OfficeReasonsAt StPickedUp)"
proof -
  have "''driver_late'' \<in> set (OfficeReasonsAt StPickedUp)" by code_simp
  with office_reasons_offered[of StPickedUp] show ?thesis by blast
qed

end
