(* ===== verification/Order_Settle.thy ===== *)
theory Order_Settle
  imports Rep_Money Fail_Reasons
begin

text \<open>
  The money of one move of an order: custom orders (\<open>orders/custom.go\<close>,
  \<open>orders/custom_quote.go\<close>, \<open>customStoreCut\<close> of \<open>orders/partner_store.go\<close>), deliveries
  for merchants (\<open>orders/merchant_delivery_money.go\<close>), the compensation a driver may ask
  (\<open>orders/compensation_requests.go\<close>), what a refund takes back (\<open>reverseCommissions\<close>) and
  the dispatcher \<open>settle\<close> of \<open>orders/transitions.go\<close>. Warnings to the log are left out.
\<close>

record settlement_in =
  si_order :: string
  si_from :: status
  si_to :: status
  si_actor :: user_id
  si_customer :: user_id
  si_driver :: "user_id option"
  si_wallet_paid :: int
  si_cash_due :: int
  si_fee :: int
  si_custom :: bool
  si_custom_reserved :: int
  si_merchant_delivery :: bool

definition pastPickup :: "status \<Rightarrow> bool" where
  "pastPickup s \<longleftrightarrow> s \<in> {StPickedUp, StOnTheWay, StAtDropoff}"

definition opt_actor :: "user_id \<Rightarrow> user_id option" where
  "opt_actor a = (if a = '''' then None else Some a)"

section \<open>Custom orders\<close>

definition customStoreCut :: "string \<Rightarrow> 'a orders_db_scheme \<Rightarrow> err + int \<times> int" where
  "customStoreCut ord db =
    (case order_of db ord of
       None \<Rightarrow> Inl ErrNoRows
     | Some x \<Rightarrow>
         let goods = (if o_kind x = KindCustom \<and> o_custom_mode x = ''purchase''
                      then (case o_custom_goods x of None \<Rightarrow> 0 | Some g \<Rightarrow> g) else 0);
             commission = (case (if o_partner_merchant x = None then None else o_partner_pct x) of
                             None \<Rightarrow> 0
                           | Some p \<Rightarrow> Amount_Of \<lparr>am_mode = ModePercent2, am_value = p\<rparr> goods)
         in Inr (wrap64 (goods - commission), commission))"

definition settleCustomStore ::
  "settlement_in \<Rightarrow> settled \<times> 'a money_db_scheme \<Rightarrow> err + settled \<times> 'a money_db_scheme" where
  "settleCustomStore si = (\<lambda>(out, db).
     bindE (customStoreCut (si_order si) db) (\<lambda>(storePaid, commission).
     let db = update_order (si_order si) (\<lambda>x. x\<lparr>o_custom_store_paid := Some storePaid, o_platform_commission := commission\<rparr>) db
     in bindE (case si_driver si of
            None \<Rightarrow> Inr db
          | Some d \<Rightarrow>
              let collect = (if si_cash_due si - storePaid < 0 then 0 else si_cash_due si - storePaid)
              in bindE (if collect > 0 then CollectTx d collect (si_order si) (Some (si_actor si)) db else Inr db) (\<lambda>db.
                 recordAdvanceReturn (si_order si) d (storePaid - si_cash_due si + collect) (si_actor si) db)) (\<lambda>db.
        if commission > 0 then settleRep (si_order si) (si_actor si) (out, db) else Inr (out, db))))"

definition payCustomDriver ::
  "settlement_in \<Rightarrow> user_id \<Rightarrow> int \<Rightarrow> int \<Rightarrow> 'a money_db_scheme \<Rightarrow> err + 'a money_db_scheme" where
  "payCustomDriver si d amount goods db =
    (let fee = amount - (if goods > amount then amount else goods)
     in if fee \<le> 0 then Inr db
        else bindE (ApplyTx d fee ''driver_earning'' (si_order si) ''custom order delivery fee'' (Some (si_actor si)) db)
               (\<lambda>(_, db). offsetDriverDebt d fee (si_order si) (si_actor si) db))"

definition settleCustomCash ::
  "settlement_in \<Rightarrow> settled \<times> 'a money_db_scheme \<Rightarrow> err + settled \<times> 'a money_db_scheme" where
  "settleCustomCash si = (\<lambda>(out, db).
    case si_driver si of
      None \<Rightarrow> Inr (out, db)
    | Some d \<Rightarrow> (case order_of db (si_order si) of
        None \<Rightarrow> Inl ErrNoRows
      | Some x \<Rightarrow>
          if o_custom_paid_at x \<noteq> None \<or> (si_cash_due si \<le> 0 \<and> o_promo_waived x \<le> 0) then Inr (out, db)
          else bindE (settleCustomStore si (out, db)) (\<lambda>(out, db).
               let goods = (case o_custom_goods x of None \<Rightarrow> 0 | Some g \<Rightarrow> g);
                   gets = goods + o_driver_fee x;
                   gets = (if gets > si_cash_due si + o_promo_waived x then si_cash_due si + o_promo_waived x else gets)
               in bindE (payCustomDriver si d gets goods db) (\<lambda>db.
                  bindE (creditTreasury (si_order si) (si_actor si)
                    (update_order (si_order si) (\<lambda>y. y\<lparr>o_custom_paid_at := Some (db_now db)\<rparr>) db)) (\<lambda>db.
                  Inr (out, db))))))"

definition settleCustomWallet ::
  "settlement_in \<Rightarrow> settled \<times> 'a money_db_scheme \<Rightarrow> err + settled \<times> 'a money_db_scheme" where
  "settleCustomWallet si = (\<lambda>(out, db).
    case si_driver si of
      None \<Rightarrow> Inr (out, db)
    | Some d \<Rightarrow> (case order_of db (si_order si) of
        None \<Rightarrow> Inl ErrNoRows
      | Some x \<Rightarrow>
          let reserved = o_custom_reserved x; waived = o_promo_waived x
          in if o_custom_paid_at x \<noteq> None then Inr (out, db)
             else if o_payment_method x \<noteq> ''wallet'' then
               (if waived > 0 then settleCustomCash si (out, db) else Inr (out, db))
             else if reserved \<le> 0 \<and> waived \<le> 0 then Inr (out, db)
             else let goods = (case o_custom_goods x of None \<Rightarrow> 0 | Some g \<Rightarrow> g);
                      gets = goods + o_driver_fee x;
                      gets = (if gets > reserved + waived then reserved + waived else gets)
                  in bindE (if reserved > 0
                            then bindE (SettleReservedTx (si_customer si) reserved ''order_payment'' (si_order si)
                                   ''custom order paid from the wallet'' (Some (si_actor si)) db) (\<lambda>(_, db). Inr db)
                            else Inr db) (\<lambda>db.
                     bindE (payCustomDriver si d gets goods db) (\<lambda>db.
                     bindE (settleCustomStore si (out, update_order (si_order si) (\<lambda>y. y\<lparr>o_custom_reserved := 0,
                         o_custom_paid_at := Some (db_now db), o_wallet_paid := reserved\<rparr>) db)) (\<lambda>(out, db).
                     bindE (creditTreasury (si_order si) (si_actor si) db) (\<lambda>db. Inr (out, db)))))))"

definition settleCustomLostGoods :: "settlement_in \<Rightarrow> 'a money_db_scheme \<Rightarrow> err + 'a money_db_scheme" where
  "settleCustomLostGoods si db =
     bindE (customStoreCut (si_order si) db) (\<lambda>(storePaid, _).
     if storePaid \<le> 0 then Inr db
     else bindE (case si_driver si of
              None \<Rightarrow> Inr (update_order (si_order si) (\<lambda>x. x\<lparr>o_custom_store_paid := Some storePaid\<rparr>) db)
            | Some d \<Rightarrow> recordAdvanceReturn (si_order si) d storePaid (si_actor si)
                (update_order (si_order si) (\<lambda>x. x\<lparr>o_custom_store_paid := Some storePaid\<rparr>) db)) (\<lambda>db.
          creditTreasury (si_order si) (si_actor si) db))"

definition releaseCustomReservationTx ::
  "user_id \<Rightarrow> string \<Rightarrow> int \<Rightarrow> 'a orders_db_scheme \<Rightarrow> err + 'a orders_db_scheme" where
  "releaseCustomReservationTx customer ord amount db =
    (if amount \<le> 0 then Inr db
     else bindE (ReleaseTx customer amount db) (\<lambda>db.
          Inr (update_order ord (\<lambda>x. x\<lparr>o_custom_reserved := o_custom_reserved x - amount\<rparr>) db)))"

definition releaseCustomReservationOnTerminal ::
  "string \<Rightarrow> user_id \<Rightarrow> 'a orders_db_scheme \<Rightarrow> err + 'a orders_db_scheme" where
  "releaseCustomReservationOnTerminal ord customer db =
    (case order_of db ord of
       None \<Rightarrow> Inl ErrNoRows
     | Some x \<Rightarrow> releaseCustomReservationTx customer ord (o_custom_reserved x) db)"

section \<open>The compensation of a driver\<close>

definition new_compensation ::
  "string \<Rightarrow> string \<Rightarrow> string option \<Rightarrow> string option \<Rightarrow> user_id \<Rightarrow> string \<Rightarrow> string \<Rightarrow> int \<Rightarrow> string \<Rightarrow> user_id option \<Rightarrow> int \<Rightarrow> compensation_request" where
  "new_compensation i kind ord ticket beneficiary fault reason amount nt by now = \<lparr>cq_id = i, cq_kind = kind, cq_order = ord, cq_ticket = ticket,
     cq_driver = beneficiary, cq_fault = fault, cq_reason = reason, cq_suggested = amount, cq_status = ''pending'', cq_amount = None,
     cq_note = nt, cq_proposed_by = by, cq_decided_by = None, cq_decided_at = None, cq_decision_note = [], cq_self_approved = False,
     cq_merchant = None, cq_created = now\<rparr>"

definition requestDriverCompensation ::
  "store option \<Rightarrow> string \<Rightarrow> user_id option \<Rightarrow> string \<Rightarrow> string \<Rightarrow> int \<Rightarrow> 'a money_db_scheme \<Rightarrow> err + bool \<times> 'a money_db_scheme" where
  "requestDriverCompensation st ord driver fault failReason driverFee db =
    (case (driver, st) of
       (Some d, Some s) \<Rightarrow>
         if fault \<noteq> FaultCustomer \<and> fault \<noteq> FaultMerchant \<and> fault \<noteq> FaultPlatform then Inr (False, db)
         else if list_ex (\<lambda>t. tx_ref t = ord \<and> tx_kind t = ''compensation'' \<and> tx_user t = d) (wallet_txs db) then Inr (False, db)
         else let pct = (if getInt s ''drivers.failed_compensation_percent'' < 0 then 0
                         else getInt s ''drivers.failed_compensation_percent'');
                  suggested = (if driverFee > 0 then go_div (wrap64 (driverFee * pct)) 100 else 0)
              in if suggested < 0 then Inl ErrDb
                 else if list_ex (\<lambda>c. cq_order c = Some ord \<and> cq_driver c = d \<and> cq_status c \<in> {''pending'', ''approved''})
                           (compensation_requests db) then Inr (False, db)
                 else Inr (True, db\<lparr>compensation_requests := compensation_requests db @ [new_compensation (uuid (next_uuid db)) ''driver'' (Some ord)
                        None d fault failReason suggested '''' None (db_now db)], next_uuid := next_uuid db + 1\<rparr>)
     | _ \<Rightarrow> Inr (False, db))"

definition ask_compensation ::
  "store option \<Rightarrow> settlement_in \<Rightarrow> string \<Rightarrow> string \<Rightarrow> settled \<times> 'a money_db_scheme \<Rightarrow> err + settled \<times> 'a money_db_scheme" where
  "ask_compensation st si fault reason = (\<lambda>(out, db).
     bindE (requestDriverCompensation st (si_order si) (si_driver si) fault reason (si_fee si) db) (\<lambda>(created, db).
     Inr (out\<lparr>so_compensation := so_compensation out \<or> created\<rparr>, db)))"

section \<open>Deliveries for a merchant\<close>

definition FeePayerMerchant :: string where "FeePayerMerchant = ''merchant''"
definition FeePayerMerchantCash :: string where "FeePayerMerchantCash = ''merchant_cash''"
definition FeePayerRecipient :: string where "FeePayerRecipient = ''recipient''"
definition DeliveryModeFetch :: string where "DeliveryModeFetch = ''fetch''"
definition OriginWhatsApp :: string where "OriginWhatsApp = ''whatsapp''"
definition causeMerchantDeliveryFee :: string where "causeMerchantDeliveryFee = ''merchant_delivery_fee''"
definition CauseDeliveryFailedRecipient :: string where "CauseDeliveryFailedRecipient = ''delivery_failed_recipient''"
definition ErrDeliveryCreditExhausted :: err where "ErrDeliveryCreditExhausted = AppError ''delivery_credit_exhausted''"
definition ErrMerchantDeliveryUnpaid :: err where "ErrMerchantDeliveryUnpaid = AppError ''merchant_delivery_unpaid''"

definition merchantCanCover :: "int \<Rightarrow> int \<Rightarrow> bool" where
  "merchantCanCover available fee \<longleftrightarrow> fee \<le> 0 \<or> available \<ge> fee"

definition merchantWallet :: "'a obligations_db_scheme \<Rightarrow> string \<Rightarrow> int \<times> int" where
  "merchantWallet db m =
    (case merchant_of db m of
       None \<Rightarrow> (0, 0)
     | Some row \<Rightarrow> (case m_owner row of
         None \<Rightarrow> (0, 0)
       | Some u \<Rightarrow> (case wallet_of db u of None \<Rightarrow> (0, 0) | Some w \<Rightarrow> (w_balance w, w_balance w - w_reserved w))))"

definition debitMerchantWallet ::
  "string \<Rightarrow> string \<Rightarrow> user_id \<Rightarrow> int \<Rightarrow> string \<Rightarrow> 'a obligations_db_scheme \<Rightarrow> err + bool \<times> 'a obligations_db_scheme" where
  "debitMerchantWallet ord m actor amount nt db =
    (case merchant_of db m of
       None \<Rightarrow> Inl ErrNoRows
     | Some row \<Rightarrow> (case m_owner row of
         None \<Rightarrow> Inl ErrDb
       | Some owner \<Rightarrow>
           if \<not> merchantCanCover (snd (merchantWallet db m)) amount then Inr (False, db)
           else bindE (ApplyTx owner (- amount) ''order_payment'' ord nt (opt_actor actor) db) (\<lambda>(_, db).
                Inr (True, update_order ord (\<lambda>x. x\<lparr>o_wallet_paid := o_wallet_paid x + amount\<rparr>) db))))"

definition chargeMerchantDelivery ::
  "string \<Rightarrow> string \<Rightarrow> user_id \<Rightarrow> int \<Rightarrow> 'a obligations_db_scheme \<Rightarrow> err + 'a obligations_db_scheme" where
  "chargeMerchantDelivery ord m actor fee db =
    (if fee \<le> 0 then Inr db
     else bindE (debitMerchantWallet ord m actor fee ''fee of a delivery from your store'' db) (\<lambda>(ok, db).
          if ok then Inr db else Inl ErrDeliveryCreditExhausted))"

definition merchantDeliveryCollected :: "'a cash_db_scheme \<Rightarrow> string \<Rightarrow> int" where
  "merchantDeliveryCollected db ord =
     sum_list (map ce_amount [e \<leftarrow> cash_entries db. ce_ref e = ord \<and> ce_kind e = ''order_collection''])"

definition cashAtPickup :: "string \<Rightarrow> string \<Rightarrow> bool" where
  "cashAtPickup payer mode = (if mode = DeliveryModeFetch then payer = FeePayerRecipient else payer = FeePayerMerchantCash)"

definition collectMerchantDeliveryCash :: "settlement_in \<Rightarrow> 'a cash_db_scheme \<Rightarrow> err + 'a cash_db_scheme" where
  "collectMerchantDeliveryCash si db =
    (case si_driver si of
       None \<Rightarrow> Inr db
     | Some d \<Rightarrow>
         if si_cash_due si \<le> 0 then Inr db
         else if merchantDeliveryCollected db (si_order si) > 0 then Inr db
         else CollectTx d (si_cash_due si) (si_order si) (Some (si_actor si)) db)"

definition returnRecipientCash :: "string \<Rightarrow> int \<Rightarrow> user_id \<Rightarrow> 'a cash_db_scheme \<Rightarrow> err + 'a cash_db_scheme" where
  "returnRecipientCash ord amount actor db =
    (case find (\<lambda>e. ce_ref e = ord \<and> ce_kind e = ''order_collection'') (cash_entries db) of
       None \<Rightarrow> Inl ErrNoRows
     | Some e \<Rightarrow>
         let held = Held db (ce_driver e); give = (if amount > held then held else amount)
         in ReturnRecipientCashTx (ce_driver e) give ord (opt_actor actor) db)"

definition settleWhatsAppEnded ::
  "store option \<Rightarrow> settlement_in \<Rightarrow> string \<Rightarrow> string \<Rightarrow> int \<Rightarrow> bool \<Rightarrow> settled \<times> 'a money_db_scheme \<Rightarrow>
     err + settled \<times> 'a money_db_scheme" where
  "settleWhatsAppEnded st si fault reason collected afterPickup = (\<lambda>(out, db).
     bindE (if fault \<noteq> FaultCustomer \<and> collected > 0 then returnRecipientCash (si_order si) collected (si_actor si) db
            else Inr db) (\<lambda>db.
     bindE (if afterPickup \<and> fault \<noteq> FaultDriver
            then ask_compensation st si (if fault = FaultCustomer \<or> fault = FaultMerchant then fault else FaultPlatform) reason (out, db)
            else Inr (out, db)) (\<lambda>(out, db).
     bindE (creditTreasury (si_order si) (si_actor si) db) (\<lambda>db. Inr (out, db)))))"

definition merchantBearsFailedDelivery ::
  "settlement_in \<Rightarrow> string \<Rightarrow> int \<Rightarrow> int \<Rightarrow> settled \<times> 'a money_db_scheme \<Rightarrow> err + settled \<times> 'a money_db_scheme" where
  "merchantBearsFailedDelivery si m fee collected = (\<lambda>(out, db).
     let owed = fee - si_wallet_paid si - collected
     in bindE (if owed > 0
               then bindE (debitMerchantWallet (si_order si) m (si_actor si) owed ''fee of a delivery that failed'' db) (\<lambda>(paid, db).
                    if paid then Inr db
                    else bindE (Create PartyMerchant m owed CauseDeliveryFailedRecipient (si_order si) (Some (si_actor si)) db)
                           (\<lambda>(_, db). Inr db))
               else Inr db) (\<lambda>db.
        bindE (payDriver (si_driver si) (si_fee si) (si_order si) (si_actor si) (out, db)) (\<lambda>(out, db).
        bindE (creditTreasury (si_order si) (si_actor si) db) (\<lambda>db. Inr (out, db)))))"

text \<open>A delivery that ends without being delivered.\<close>

definition settleDeliveryEnded ::
  "store option \<Rightarrow> settlement_in \<Rightarrow> settled \<times> 'a money_db_scheme \<Rightarrow> err + settled \<times> 'a money_db_scheme" where
  "settleDeliveryEnded st si = (\<lambda>(out, db).
    case order_of db (si_order si) of
      None \<Rightarrow> Inl ErrNoRows
    | Some x \<Rightarrow>
        let m = (case o_merchant x of None \<Rightarrow> '''' | Some i \<Rightarrow> i);
            owner = (case merchant_of db m of None \<Rightarrow> '''' | Some row \<Rightarrow> (case m_owner row of None \<Rightarrow> '''' | Some u \<Rightarrow> u));
            payer = (case o_fee_payer x of None \<Rightarrow> '''' | Some p \<Rightarrow> p);
            fault = (case o_fault x of None \<Rightarrow> '''' | Some f \<Rightarrow> f);
            reason = (case o_fail_reason x of None \<Rightarrow> '''' | Some r \<Rightarrow> r);
            collected = merchantDeliveryCollected db (si_order si);
            afterPickup = (si_to si = StFailed \<and> si_driver si \<noteq> None \<and> pastPickup (si_from si))
        in if o_origin x = OriginWhatsApp then settleWhatsAppEnded st si fault reason collected afterPickup (out, db)
           else if afterPickup \<and> (fault = FaultCustomer \<or> fault = FaultMerchant)
           then merchantBearsFailedDelivery si m (o_delivery_fee x) collected (out, db)
           else let refund = si_wallet_paid si + (if payer = FeePayerMerchantCash then collected else 0)
                in bindE (if refund > 0
                          then bindE (ApplyTx owner refund ''refund'' (si_order si) ''refund of a delivery fee'' (Some (si_actor si)) db)
                                 (\<lambda>(_, db). Inr (settled_credit owner refund ''refunded2'' ''merchant'' out, db))
                          else Inr (out, db)) (\<lambda>(out, db).
                   bindE (if payer = FeePayerRecipient \<and> fault \<noteq> FaultCustomer \<and> collected > 0
                          then returnRecipientCash (si_order si) collected (si_actor si) db else Inr db) (\<lambda>db.
                   bindE (VoidForOrder PartyMerchant m (si_order si) causeMerchantDeliveryFee (Some (si_actor si)) db) (\<lambda>db.
                   bindE (if afterPickup \<and> fault \<noteq> FaultDriver then ask_compensation st si FaultPlatform reason (out, db)
                          else Inr (out, db)) (\<lambda>(out, db).
                   bindE (creditTreasury (si_order si) (si_actor si) db) (\<lambda>db. Inr (out, db)))))))"

definition settleMerchantDelivery ::
  "store option \<Rightarrow> settlement_in \<Rightarrow> settled \<times> 'a money_db_scheme \<Rightarrow> err + settled \<times> 'a money_db_scheme" where
  "settleMerchantDelivery st si = (\<lambda>(out, db).
    if si_to si = StAccepted \<and> si_from si = StPending then
      (case order_of db (si_order si) of
         None \<Rightarrow> Inl ErrNoRows
       | Some x \<Rightarrow>
           if o_fee_payer x \<noteq> Some FeePayerMerchant then Inr (out, db)
           else (case chargeMerchantDelivery (si_order si) (case o_merchant x of None \<Rightarrow> '''' | Some m \<Rightarrow> m) (si_actor si)
                     (o_delivery_fee x) db of
                   Inl e \<Rightarrow> Inl (if e = ErrDeliveryCreditExhausted then ErrMerchantDeliveryUnpaid else e)
                 | Inr db \<Rightarrow> Inr (out, db)))
    else if si_to si = StPickedUp then
      (case order_of db (si_order si) of
         None \<Rightarrow> Inl ErrNoRows
       | Some x \<Rightarrow>
           if \<not> cashAtPickup (case o_fee_payer x of None \<Rightarrow> '''' | Some p \<Rightarrow> p) (o_delivery_mode x) then Inr (out, db)
           else bindE (collectMerchantDeliveryCash si db) (\<lambda>db. Inr (out, db)))
    else if si_to si = StDelivered then
      bindE (collectMerchantDeliveryCash si db) (\<lambda>db.
      bindE (payDriver (si_driver si) (si_fee si) (si_order si) (si_actor si) (out, db)) (\<lambda>(out, db).
      bindE (creditTreasury (si_order si) (si_actor si) db) (\<lambda>db. Inr (out, db))))
    else if refundOnEnter (si_to si) \<and> si_from si \<noteq> StDelivered then settleDeliveryEnded st si (out, db)
    else Inr (out, db))"

section \<open>What a refund takes back\<close>

definition earning_by_user :: "'a wallet_db_scheme \<Rightarrow> string \<Rightarrow> (user_id \<times> int) list" where
  "earning_by_user db ord =
    (let ts = [t \<leftarrow> wallet_txs db. tx_ref t = ord \<and> tx_kind t = ''merchant_earning'']
     in map (\<lambda>u. (u, sum_list (map tx_amount [t \<leftarrow> ts. tx_user t = u]))) (remdups (map tx_user ts)))"

definition editDebtsByOwner :: "'a settle_db_scheme \<Rightarrow> string \<Rightarrow> user_id \<Rightarrow> int" where
  "editDebtsByOwner db ord owner =
     sum_list (concat (map (\<lambda>a. if ad_order a = ord \<and> ad_debt a > 0
       then map (\<lambda>_. ad_debt a) [s \<leftarrow> settlements db. st_id s = ad_settlement a \<and> st_owner s = owner] else []) (adjustments db)))"

text \<open>The store of an owner a debt is written on: one of the order's first, then the oldest, then by id.\<close>

definition debt_store :: "'a settle_db_scheme \<Rightarrow> string \<Rightarrow> user_id \<Rightarrow> string option" where
  "debt_store db ord owner =
    (case order_of db ord of
       None \<Rightarrow> None
     | Some x \<Rightarrow>
         let own = [m \<leftarrow> merchants db. m_owner m = Some owner];
             of_order = (\<lambda>m. o_merchant x = Some (m_id m) \<or> store_items db x (m_id m) \<noteq> [])
         in (case sort_key (\<lambda>m. (if of_order m then 0 else (1 :: nat), m_created m, map (\<lambda>c. of_char c :: nat) (m_id m))) own of
               [] \<Rightarrow> None | m # _ \<Rightarrow> Some (m_id m)))"

definition take_back_earning ::
  "string \<Rightarrow> user_id \<Rightarrow> user_id \<times> int \<Rightarrow> 'a settle_db_scheme \<Rightarrow> err + 'a settle_db_scheme" where
  "take_back_earning ord actor = (\<lambda>(owner, amount) db.
    if amount \<le> 0 then Inr db
    else let balance = AvailableTx db owner; back = (if balance < amount then balance else amount); rest = amount - back
         in bindE (if rest > 0
                   then (case debt_store db ord owner of
                           None \<Rightarrow> Inl ErrNoRows
                         | Some m \<Rightarrow> bindE (Create PartyMerchant m rest CauseRefundMerchant ord (Some actor) db) (\<lambda>(_, db). Inr db))
                   else Inr db) (\<lambda>db.
            if back \<le> 0 then Inr db
            else bindE (ApplyTx owner (- back) ''merchant_earning'' ord ''earning reversed for a refunded order'' (Some actor) db)
                   (\<lambda>(_, db). Inr db)))"

definition reverseCommissions :: "string \<Rightarrow> user_id \<Rightarrow> 'a settle_db_scheme \<Rightarrow> err + 'a settle_db_scheme" where
  "reverseCommissions ord actor db =
     bindE (foldE (take_back_earning ord actor)
       (map (\<lambda>(u, a). (u, a - editDebtsByOwner db ord u)) (earning_by_user db ord)) db) (\<lambda>db.
     Inr (update_order ord (\<lambda>x. x\<lparr>o_platform_commission := 0\<rparr>) db))"

section \<open>The money of a move\<close>

definition settleCustom ::
  "settlement_in \<Rightarrow> settled \<times> 'a money_db_scheme \<Rightarrow> err + settled \<times> 'a money_db_scheme" where
  "settleCustom si = (\<lambda>(out, db).
    if si_to si = StDelivered then
      (if si_cash_due si > 0 then settleCustomCash si (out, db) else settleCustomWallet si (out, db))
    else bindE (if refundOnEnter (si_to si) \<and> si_from si \<noteq> StDelivered \<and> pastPickup (si_from si)
                then settleCustomLostGoods si db else Inr db) (\<lambda>db.
         if terminal (si_to si) \<and> si_custom_reserved si > 0
         then bindE (releaseCustomReservationOnTerminal (si_order si) (si_customer si) db) (\<lambda>db. Inr (out, db))
         else Inr (out, db)))"

text \<open>The delivery of an ordinary order: stores, cash, driver, representative, treasury.\<close>

definition settleDelivered ::
  "settlement_in \<Rightarrow> settled \<times> 'a money_db_scheme \<Rightarrow> err + settled \<times> 'a money_db_scheme" where
  "settleDelivered si = (\<lambda>(out, db).
     bindE (settleMerchant (si_order si) (si_actor si) (si_driver si) (out, db)) (\<lambda>(out, db).
     bindE (collectAndReturnAdvance (si_order si) (si_driver si) (si_cash_due si) (si_actor si) db) (\<lambda>db.
     bindE (payDriver (si_driver si) (si_fee si) (si_order si) (si_actor si) (out, db)) (\<lambda>(out, db).
     bindE (settleRep (si_order si) (si_actor si) (out, db)) (\<lambda>(out, db).
     bindE (creditTreasury (si_order si) (si_actor si) db) (\<lambda>db. Inr (out, db)))))))"

text \<open>A delivered order taken back: the customer, the stores, the cash settlements, the treasury.\<close>

definition settleTakenBack ::
  "settlement_in \<Rightarrow> settled \<times> 'a money_db_scheme \<Rightarrow> err + settled \<times> 'a money_db_scheme" where
  "settleTakenBack si = (\<lambda>(out, db).
     let amount = si_wallet_paid si + si_cash_due si
     in bindE (if amount > 0
               then bindE (ApplyTx (si_customer si) amount ''refund'' (si_order si) ''refund of a delivered order'' (Some (si_actor si)) db)
                      (\<lambda>(_, db). Inr (settled_credit (si_customer si) amount ''refunded2'' ''customer'' out, db))
               else Inr (out, db)) (\<lambda>(out, db).
        bindE (reverseCommissions (si_order si) (si_actor si) db) (\<lambda>db.
        bindE (reverseCashSettlements (si_order si) (si_actor si) db) (\<lambda>db.
        bindE (creditTreasury (si_order si) (si_actor si) db) (\<lambda>db. Inr (out, db))))))"

text \<open>The part of a move after the refund: the compensation of the driver, the advance given back, the share of the platform.\<close>

definition after_refund ::
  "store option \<Rightarrow> settlement_in \<Rightarrow> settled \<times> 'a money_db_scheme \<Rightarrow> err + settled \<times> 'a money_db_scheme" where
  "after_refund st si = (\<lambda>(out, db).
     bindE (if si_to si = StFailed \<and> si_driver si \<noteq> None
            then (case order_of db (si_order si) of
                    None \<Rightarrow> Inl ErrNoRows
                  | Some x \<Rightarrow> ask_compensation st si (case o_fault x of None \<Rightarrow> '''' | Some f \<Rightarrow> f)
                      (case o_fail_reason x of None \<Rightarrow> '''' | Some f \<Rightarrow> f) (out, db))
            else Inr (out, db)) (\<lambda>(out, db).
     if refundOnEnter (si_to si) \<and> si_from si \<noteq> StDelivered \<and> pastPickup (si_from si) then
       bindE (case si_driver si of
                None \<Rightarrow> Inr db
              | Some d \<Rightarrow> recordAdvanceReturn (si_order si) d (fst (driverPaidFor (si_order si) d db)) (si_actor si) db) (\<lambda>db.
       bindE (creditTreasury (si_order si) (si_actor si) db) (\<lambda>db. Inr (out, db)))
     else if si_to si = StFailed then
       bindE (creditTreasury (si_order si) (si_actor si) db) (\<lambda>db. Inr (out, db))
     else if refundOnEnter (si_to si) \<and> si_from si = StDelivered then settleTakenBack si (out, db)
     else Inr (out, db)))"

definition settle ::
  "store option \<Rightarrow> settlement_in \<Rightarrow> settled \<times> 'a money_db_scheme \<Rightarrow> err + settled \<times> 'a money_db_scheme" where
  "settle st si = (\<lambda>(out, db).
    if si_merchant_delivery si then settleMerchantDelivery st si (out, db)
    else if si_custom si then settleCustom si (out, db)
    else bindE (if refundOnEnter (si_to si) \<and> si_from si \<noteq> StDelivered \<and> si_wallet_paid si > 0
                then bindE (ApplyTx (si_customer si) (si_wallet_paid si) ''refund'' (si_order si) ''refund of an order''
                       (opt_actor (si_actor si)) db)
                     (\<lambda>(_, db). Inr (settled_credit (si_customer si) (si_wallet_paid si) ''refunded2'' ''customer'' out, db))
                else Inr (out, db)) (\<lambda>(out, db).
      if si_to si = StPickedUp then
        bindE (settleMerchant (si_order si) (si_actor si) (si_driver si) (out, db)) (\<lambda>(out, db).
        bindE (creditTreasury (si_order si) (si_actor si) db) (\<lambda>db. Inr (out, db)))
      else if si_to si = StDelivered then settleDelivered si (out, db)
      else after_refund st si (out, db)))"

text \<open>What a branch that returned took.\<close>

lemma case_option_Inr:
  "(case z of None \<Rightarrow> a | Some x \<Rightarrow> f x) = Inr y \<longleftrightarrow> z = None \<and> a = Inr y \<or> (\<exists>x. z = Some x \<and> f x = Inr y)"
  by (cases z) auto

lemma if_Inr: "(if c then a else b) = Inr y \<longleftrightarrow> c \<and> a = Inr y \<or> \<not> c \<and> b = Inr y"
  by simp

lemma case_sum_Inr:
  "(case r of Inl e \<Rightarrow> f e | Inr x \<Rightarrow> g x) = Inr y \<longleftrightarrow> (\<exists>e. r = Inl e \<and> f e = Inr y) \<or> (\<exists>x. r = Inr x \<and> g x = Inr y)"
  by (cases r) auto

lemmas branches = bindE_eq_Inr case_option_Inr if_Inr case_sum_Inr

section \<open>The refunds in the ledger\<close>

text \<open>The refunds posted for an order: to whom and how much.\<close>

definition refund_log :: "'a wallet_db_scheme \<Rightarrow> string \<Rightarrow> (user_id \<times> int) list" where
  "refund_log db ord = map (\<lambda>t. (tx_user t, tx_amount t)) [t \<leftarrow> wallet_txs db. tx_ref t = ord \<and> tx_kind t = ''refund'']"

lemma refund_log_same: "wallet_txs db' = wallet_txs db \<Longrightarrow> refund_log db' = refund_log db"
  by (simp add: refund_log_def fun_eq_iff)

lemma refund_log_applyTx:
  assumes "applyTx u a kind ref nt actor db = Inr (r, db')"
  shows "refund_log db' i = refund_log db i @ (if i = ref \<and> kind = ''refund'' then [(u, a)] else [])"
proof -
  obtain b j where r: "r = (b, j)" by (cases r)
  show ?thesis using applyTx_log[OF assms[unfolded r]] by (auto simp: refund_log_def)
qed

lemma refund_log_other:
  assumes "applyTx u a kind ref nt actor db = Inr (r, db')" and "kind \<noteq> ''refund''"
  shows "refund_log db' = refund_log db"
  using refund_log_applyTx[OF assms(1)] assms(2) by (simp add: fun_eq_iff)

lemma refund_log_ApplyTx:
  "ApplyTx u a kind ref nt actor db = Inr (b, db') \<Longrightarrow>
     refund_log db' i = refund_log db i @ (if i = ref \<and> kind = ''refund'' then [(u, a)] else [])"
  by (auto simp: ApplyTx_def result_simps dest!: refund_log_applyTx)

lemma refund_log_update [simp]: "refund_log (update_order j f db) = refund_log db"
  by (simp add: refund_log_def fun_eq_iff)

lemma refund_log_Create: "CreateRef k m a c ord src actor db = Inr (b, db') \<Longrightarrow> refund_log db' = refund_log db"
  by (rule refund_log_same, rule tables_wipe[THEN conjunct2], rule CreateRef_wipe)

lemma refund_log_treasury:
  assumes "creditTreasury ord actor db = Inr db'"
  shows "refund_log db' = refund_log db"
  using creditTreasury_shape[OF assms]
proof (elim disjE exE)
  fix u a b i assume "applyTx u a ''platform_profit'' ord ''platform share'' (Some actor) db = Inr ((b, i), db')"
  then show ?thesis by (rule refund_log_other) simp
qed simp

lemma refund_log_advance: "recordAdvanceReturn ord d a actor db = Inr db' \<Longrightarrow> refund_log db' = refund_log db"
  by (rule refund_log_same) (auto simp: recordAdvanceReturn_def dest!: Record_Inr(6) split: if_splits)

lemma refund_log_ask: "ask_compensation st si f r (out, db) = Inr (out', db') \<Longrightarrow> refund_log db' = refund_log db"
  by (rule refund_log_same)
    (auto simp: ask_compensation_def requestDriverCompensation_def result_simps Let_def split: if_splits option.splits)

lemma refund_log_reversal:
  assumes "postCashReversal sid hid a cause event ord actor db = Inr (tx, db')"
  shows "refund_log db' = refund_log db"
proof (cases "a \<le> 0 \<or> list_ex (\<lambda>r. rv_settlement r = sid \<and> rv_event r = event) (reversals db)")
  case True
  with assms show ?thesis by (simp add: postCashReversal_same)
next
  case False
  then have n: "0 < a" "\<not> list_ex (\<lambda>r. rv_settlement r = sid \<and> rv_event r = event) (reversals db)" by auto
  obtain b db1 where p: "applyTx hid (- a) ''merchant_cash_accrued'' ord (cashReversalNote cause) (Some actor) db = Inr ((b, tx), db1)"
      and t: "wallet_txs db' = wallet_txs db1"
    by (rule postCashReversal_Inr[OF assms n]) (auto simp: update_settlement_Inr)
  have "refund_log db1 = refund_log db" by (rule refund_log_other[OF p]) simp
  with refund_log_same[OF t] show ?thesis by simp
qed

lemma refund_log_reverse_cash: "reverseCashSettlements ord actor db = Inr db' \<Longrightarrow> refund_log db' = refund_log db"
proof -
  have row: "refund_log v = refund_log u" if "reverse_cash_row ord hid actor s u = Inr v" for hid s u v
    using that by (auto simp: reverse_cash_row_def result_simps Create_def dest: refund_log_reversal refund_log_Create
        split: if_splits)
  have loop: "refund_log v = refund_log u" if "foldE (reverse_cash_row ord hid actor) rows u = Inr v" for hid rows u v
    by (rule foldE_inv[OF that, where P = "\<lambda>x. refund_log x = refund_log u"]) (auto dest: row)
  assume "reverseCashSettlements ord actor db = Inr db'"
  then show ?thesis
    by (auto simp: reverseCashSettlements_def result_simps Let_def dest: loop split: if_splits)
qed

lemma refund_log_take_back:
  assumes "take_back_earning ord actor x db = Inr db'"
  shows "refund_log db' = refund_log db"
proof -
  have post: "refund_log v = refund_log u" if "ApplyTx w a ''merchant_earning'' ord nt (Some actor) u = Inr (b, v)" for w a nt u b v
    using refund_log_ApplyTx[OF that] by (simp add: fun_eq_iff)
  from assms show ?thesis
    by (auto simp: take_back_earning_def Create_def result_simps Let_def dest: refund_log_Create dest!: post
        split: if_splits prod.splits option.splits)
qed

lemma refund_log_reverse: "reverseCommissions ord actor db = Inr db' \<Longrightarrow> refund_log db' = refund_log db"
proof -
  have loop: "refund_log v = refund_log u" if "foldE (take_back_earning ord actor) rows u = Inr v" for rows u v
    by (rule foldE_inv[OF that, where P = "\<lambda>x. refund_log x = refund_log u"]) (auto dest: refund_log_take_back)
  assume "reverseCommissions ord actor db = Inr db'"
  then show ?thesis by (auto simp: reverseCommissions_def result_simps dest: loop)
qed

text \<open>A posting of another kind, and a change of a table beside the ledger, leave every refund log as it is.\<close>

lemma kept_post:
  assumes "kind \<noteq> ''refund''"
  shows "applyTx u a kind ref nt actor db = Inr (r, db') \<Longrightarrow> refund_log db' = refund_log db"
    and "ApplyTx u a kind ref nt actor db = Inr (b, db') \<Longrightarrow> refund_log db' = refund_log db"
  using assms by (auto simp: ApplyTx_def branches dest!: refund_log_other)

lemma kept_tables:
  "refund_log (db\<lparr>wallets := a\<rparr>) = refund_log db" "refund_log (db\<lparr>next_tx := n\<rparr>) = refund_log db"
  "refund_log (db1\<lparr>boxes := c\<rparr>) = refund_log db1" "refund_log (db1\<lparr>cash_entries := d\<rparr>) = refund_log db1"
  "refund_log (db1\<lparr>next_entry := e\<rparr>) = refund_log db1"
  "refund_log (db3\<lparr>settlements := g\<rparr>) = refund_log db3" "refund_log (db3\<lparr>reversals := h\<rparr>) = refund_log db3"
  "refund_log (db3\<lparr>next_uuid := i\<rparr>) = refund_log db3" "refund_log (db4\<lparr>held_commissions := j\<rparr>) = refund_log db4"
  "refund_log (db4\<lparr>order_parts := k\<rparr>) = refund_log db4"
  by (simp_all add: refund_log_def fun_eq_iff)

lemma kept_debt: "SettleDebt k i a ord tx actor db = Inr (n, db') \<Longrightarrow> refund_log db' = refund_log db"
  unfolding SettleDebt_def by (rule refund_log_same, rule tables_wipe[THEN conjunct2], rule SettleBy_wipe)

lemma kept_offset:
  "offsetMerchantDebt m owner av ord actor db = Inr db' \<Longrightarrow> refund_log db' = refund_log db"
  "offsetRepDebt r av ord actor db = Inr db' \<Longrightarrow> refund_log db' = refund_log db"
  "offsetDriverDebt d av ord actor db = Inr db' \<Longrightarrow> refund_log db' = refund_log db"
  by (auto simp: offsetMerchantDebt_def offsetRepDebt_def offsetDriverDebt_def offset_debt_def deduct_def offset_pay_def
      ApplyTxID_def Let_def branches dest!: kept_post(1)[rotated] kept_debt)

lemma kept_box: "box_applyTx d a kind ref nt actor db = Inr (h, db') \<Longrightarrow> refund_log db' = refund_log db"
  by (auto simp: box_applyTx_def insert_cash_entry_def Let_def branches kept_tables)

lemma kept_CollectTx: "CollectTx d a ord actor db = Inr db' \<Longrightarrow> refund_log db' = refund_log db"
  by (auto simp: CollectTx_def branches dest!: kept_box)

lemma kept_payDriver: "payDriver driver fee ord actor (out, db) = Inr (out', db') \<Longrightarrow> refund_log db' = refund_log db"
  by (auto simp: payDriver_def branches dest!: kept_post(2)[rotated] kept_offset(3))

lemma kept_void: "VoidForOrder k i ord cause actor db = Inr db' \<Longrightarrow> refund_log db' = refund_log db"
  by (rule refund_log_same, rule tables_wipe[THEN conjunct2], rule VoidForOrder_wipe)

lemma kept_recipient: "returnRecipientCash ord amount actor db = Inr db' \<Longrightarrow> refund_log db' = refund_log db"
  by (auto simp: returnRecipientCash_def ReturnRecipientCashTx_def Let_def branches dest!: kept_box)

lemma kept_debit: "debitMerchantWallet ord m actor amount nt db = Inr (ok, db') \<Longrightarrow> refund_log db' = refund_log db"
  by (auto simp: debitMerchantWallet_def branches dest!: kept_post(2)[rotated])

lemma kept_release: "ReleaseTx u a db = Inr db' \<Longrightarrow> refund_log db' = refund_log db"
  by (rule refund_log_same) (auto simp: ReleaseTx_def update_wallet_def Let_def branches)

lemma kept_custom:
  assumes "settleCustom si (out, db) = Inr (out', db')" and "refundOnEnter (si_to si)"
  shows "refund_log db' = refund_log db"
proof -
  have lost: "refund_log v = refund_log u" if "settleCustomLostGoods si u = Inr v" for u v :: "'a money_db_scheme"
    using that by (auto simp: settleCustomLostGoods_def branches dest!: refund_log_treasury refund_log_advance)
  have release: "refund_log v = refund_log u" if "releaseCustomReservationOnTerminal ord c u = Inr v" for ord c and u v :: "'a money_db_scheme"
    using that by (auto simp: releaseCustomReservationOnTerminal_def releaseCustomReservationTx_def branches dest!: kept_release)
  from assms show ?thesis by (auto simp: settleCustom_def refundOnEnter_def branches dest!: lost release)
qed

text \<open>
  What a store that had a delivery is refunded when the delivery ends before it is delivered: what its wallet paid, and
  the cash the driver took of it. Nothing of a delivery that came by WhatsApp, and nothing when it failed on the road by
  the fault of the store or of the recipient.
\<close>

definition delivery_refund :: "settlement_in \<Rightarrow> 'a money_db_scheme \<Rightarrow> (user_id \<times> int) list" where
  "delivery_refund si db =
    (case order_of db (si_order si) of
       None \<Rightarrow> []
     | Some x \<Rightarrow>
         let owner = (case merchant_of db (case o_merchant x of None \<Rightarrow> '''' | Some m \<Rightarrow> m) of
               None \<Rightarrow> '''' | Some row \<Rightarrow> (case m_owner row of None \<Rightarrow> '''' | Some u \<Rightarrow> u));
             amount = si_wallet_paid si + (if o_fee_payer x = Some FeePayerMerchantCash then merchantDeliveryCollected db (si_order si) else 0)
         in if o_origin x = OriginWhatsApp \<or> amount \<le> 0 \<or>
               si_to si = StFailed \<and> si_driver si \<noteq> None \<and> pastPickup (si_from si) \<and> o_fault x \<in> {Some FaultCustomer, Some FaultMerchant}
            then [] else [(owner, amount)])"

lemma kept_bears:
  "merchantBearsFailedDelivery si m fee collected (out, db) = Inr (out', db') \<Longrightarrow> refund_log db' = refund_log db"
  by (auto simp: merchantBearsFailedDelivery_def Let_def Create_def branches
      dest!: kept_debit refund_log_Create kept_payDriver refund_log_treasury)

lemma kept_whatsapp:
  "settleWhatsAppEnded st si fault reason collected after (out, db) = Inr (out', db') \<Longrightarrow> refund_log db' = refund_log db"
  by (auto simp: settleWhatsAppEnded_def branches dest!: kept_recipient refund_log_ask refund_log_treasury)

lemma delivery_ended_refunds:
  fixes db :: "'a money_db_scheme"
  assumes "settleDeliveryEnded st si (out, db) = Inr (out', db')"
  shows "refund_log db' r = refund_log db r @ (if r = si_order si then delivery_refund si db else [])"
proof -
  obtain x where x: "order_of db (si_order si) = Some x" using assms by (auto simp: settleDeliveryEnded_def branches)
  define m where "m = (case o_merchant x of None \<Rightarrow> '''' | Some i \<Rightarrow> i)"
  define owner where "owner = (case merchant_of db m of None \<Rightarrow> '''' | Some row \<Rightarrow> (case m_owner row of None \<Rightarrow> '''' | Some u \<Rightarrow> u))"
  define payer where "payer = (case o_fee_payer x of None \<Rightarrow> '''' | Some p \<Rightarrow> p)"
  define fault where "fault = (case o_fault x of None \<Rightarrow> '''' | Some f \<Rightarrow> f)"
  define reason where "reason = (case o_fail_reason x of None \<Rightarrow> '''' | Some r \<Rightarrow> r)"
  define collected where "collected = merchantDeliveryCollected db (si_order si)"
  define after where "after \<longleftrightarrow> si_to si = StFailed \<and> si_driver si \<noteq> None \<and> pastPickup (si_from si)"
  define amount where "amount = si_wallet_paid si + (if payer = FeePayerMerchantCash then collected else 0)"
  note defs = m_def[symmetric] owner_def[symmetric] payer_def[symmetric] fault_def[symmetric] reason_def[symmetric]
    collected_def[symmetric] after_def[symmetric]
  note run = assms[unfolded settleDeliveryEnded_def prod.case x option.case Let_def defs amount_def[symmetric]]
  have names: "payer = FeePayerMerchantCash \<longleftrightarrow> o_fee_payer x = Some FeePayerMerchantCash"
    "fault = FaultCustomer \<or> fault = FaultMerchant \<longleftrightarrow> o_fault x \<in> {Some FaultCustomer, Some FaultMerchant}"
    by (auto simp: payer_def fault_def FeePayerMerchantCash_def FaultCustomer_def FaultMerchant_def split: option.split)
  have owed: "delivery_refund si db = (if o_origin x = OriginWhatsApp \<or> amount \<le> 0 \<or> after \<and> (fault = FaultCustomer \<or> fault = FaultMerchant)
      then [] else [(owner, amount)])"
    unfolding delivery_refund_def x amount_def names collected_def owner_def m_def after_def by (simp add: Let_def conj_assoc)
  consider "o_origin x = OriginWhatsApp" | "o_origin x \<noteq> OriginWhatsApp" "after \<and> (fault = FaultCustomer \<or> fault = FaultMerchant)"
    | "o_origin x \<noteq> OriginWhatsApp" "\<not> (after \<and> (fault = FaultCustomer \<or> fault = FaultMerchant))" by blast
  then show ?thesis
  proof cases
    case 1
    with run have "refund_log db' = refund_log db" by (auto dest: kept_whatsapp)
    with 1 show ?thesis by (simp add: owed)
  next
    case 2
    with run have "refund_log db' = refund_log db" by (auto dest: kept_bears)
    with 2 show ?thesis by (simp add: owed)
  next
    case 3
    note run = run[unfolded if_not_P[OF 3(1)] if_not_P[OF 3(2)]]
    from iffD1[OF bindE_eq_Inr run] obtain z where z: "(if amount > 0
        then bindE (ApplyTx owner amount ''refund'' (si_order si) ''refund of a delivery fee'' (Some (si_actor si)) db)
               (\<lambda>(_, db). Inr (settled_credit owner amount ''refunded2'' ''merchant'' out, db))
        else Inr (out, db)) = Inr z" and rest: "(case z of (out, db) \<Rightarrow>
         bindE (if payer = FeePayerRecipient \<and> fault \<noteq> FaultCustomer \<and> collected > 0
                then returnRecipientCash (si_order si) collected (si_actor si) db else Inr db) (\<lambda>db.
         bindE (VoidForOrder PartyMerchant m (si_order si) causeMerchantDeliveryFee (Some (si_actor si)) db) (\<lambda>db.
         bindE (if after \<and> fault \<noteq> FaultDriver then ask_compensation st si FaultPlatform reason (out, db)
                else Inr (out, db)) (\<lambda>(out, db).
         bindE (creditTreasury (si_order si) (si_actor si) db) (\<lambda>db. Inr (out, db)))))) = Inr (out', db')" by blast
    obtain o1 d1 where o1: "z = (o1, d1)" by (cases z)
    have p: "(if amount > 0
        then bindE (ApplyTx owner amount ''refund'' (si_order si) ''refund of a delivery fee'' (Some (si_actor si)) db)
               (\<lambda>(_, db). Inr (settled_credit owner amount ''refunded2'' ''merchant'' out, db))
        else Inr (out, db)) = Inr (o1, d1)"
      and q: "bindE (if payer = FeePayerRecipient \<and> fault \<noteq> FaultCustomer \<and> collected > 0
                then returnRecipientCash (si_order si) collected (si_actor si) d1 else Inr d1) (\<lambda>db.
         bindE (VoidForOrder PartyMerchant m (si_order si) causeMerchantDeliveryFee (Some (si_actor si)) db) (\<lambda>db.
         bindE (if after \<and> fault \<noteq> FaultDriver then ask_compensation st si FaultPlatform reason (o1, db)
                else Inr (o1, db)) (\<lambda>(out, db).
         bindE (creditTreasury (si_order si) (si_actor si) db) (\<lambda>db. Inr (out, db))))) = Inr (out', db')"
      using z rest by (simp_all only: o1 prod.case)
    have "refund_log db' = refund_log d1"
      using q by (auto simp: branches dest!: kept_recipient kept_void refund_log_ask refund_log_treasury)
    moreover have "refund_log d1 r = refund_log db r @ (if r = si_order si \<and> 0 < amount then [(owner, amount)] else [])"
      using p by (auto simp: branches refund_log_ApplyTx)
    ultimately show ?thesis using 3 unfolding owed by auto
  qed
qed

section \<open>The books after a move\<close>

text \<open>The moves of a standard order that move its money, apart from the refund.\<close>

definition closing :: "settlement_in \<Rightarrow> bool" where
  "closing si \<longleftrightarrow> si_to si \<in> {StPickedUp, StDelivered, StFailed} \<or>
     refundOnEnter (si_to si) \<and> (si_from si = StDelivered \<or> pastPickup (si_from si))"

definition refund_due :: "settlement_in \<Rightarrow> int" where
  "refund_due si = (if si_from si = StDelivered then si_wallet_paid si + si_cash_due si else si_wallet_paid si)"

lemma settleDelivered_share:
  assumes "settleDelivered si (out, db) = Inr (out', db')"
  shows "\<exists>d. creditTreasury (si_order si) (si_actor si) d = Inr db'"
  using assms by (auto simp: settleDelivered_def result_simps split: prod.splits)

lemma settleTakenBack_effect:
  assumes "settleTakenBack si (out, db) = Inr (out', db')"
  shows "\<exists>d. creditTreasury (si_order si) (si_actor si) d = Inr db'"
    and "refund_log db' r = refund_log db r @
      (if r = si_order si \<and> 0 < si_wallet_paid si + si_cash_due si
       then [(si_customer si, si_wallet_paid si + si_cash_due si)] else [])"
proof -
  let ?a = "si_wallet_paid si + si_cash_due si"
  obtain o1 d1 d2 d3 where
      p: "(if ?a > 0
           then bindE (ApplyTx (si_customer si) ?a ''refund'' (si_order si) ''refund of a delivered order'' (Some (si_actor si)) db)
                  (\<lambda>(_, db). Inr (settled_credit (si_customer si) ?a ''refunded2'' ''customer'' out, db))
           else Inr (out, db)) = Inr (o1, d1)"
    and d2: "reverseCommissions (si_order si) (si_actor si) d1 = Inr d2"
    and d3: "reverseCashSettlements (si_order si) (si_actor si) d2 = Inr d3"
    and db': "creditTreasury (si_order si) (si_actor si) d3 = Inr db'"
    using assms unfolding settleTakenBack_def Let_def by (auto simp: result_simps simp del: if_Inl_eq_Inr)
  from db' show "\<exists>d. creditTreasury (si_order si) (si_actor si) d = Inr db'" by blast
  have "refund_log d1 r = refund_log db r @ (if r = si_order si \<and> 0 < ?a then [(si_customer si, ?a)] else [])"
    using p by (auto simp: result_simps refund_log_ApplyTx split: if_splits)
  then show "refund_log db' r = refund_log db r @ (if r = si_order si \<and> 0 < ?a then [(si_customer si, ?a)] else [])"
    using refund_log_treasury[OF db'] refund_log_reverse_cash[OF d3] refund_log_reverse[OF d2] by simp
qed

lemma after_refund_effect:
  assumes "after_refund st si (out, db) = Inr (out', db')"
  shows "closing si \<Longrightarrow> si_to si \<noteq> StPickedUp \<Longrightarrow> si_to si \<noteq> StDelivered \<Longrightarrow>
      \<exists>d. creditTreasury (si_order si) (si_actor si) d = Inr db'"
    and "has_edge KindStandard (si_from si) (si_to si) \<Longrightarrow> refundOnEnter (si_to si) \<Longrightarrow>
      refund_log db' r = refund_log db r @ (if si_from si = StDelivered \<and> r = si_order si \<and> 0 < refund_due si
       then [(si_customer si, refund_due si)] else [])"
proof -
  from assms obtain o1 d1 where
      a: "(if si_to si = StFailed \<and> si_driver si \<noteq> None
            then (case order_of db (si_order si) of
                    None \<Rightarrow> Inl ErrNoRows
                  | Some x \<Rightarrow> ask_compensation st si (case o_fault x of None \<Rightarrow> '''' | Some f \<Rightarrow> f)
                      (case o_fail_reason x of None \<Rightarrow> '''' | Some f \<Rightarrow> f) (out, db))
            else Inr (out, db)) = Inr (o1, d1)"
    and b: "(if refundOnEnter (si_to si) \<and> si_from si \<noteq> StDelivered \<and> pastPickup (si_from si) then
       bindE (case si_driver si of
                None \<Rightarrow> Inr d1
              | Some d \<Rightarrow> recordAdvanceReturn (si_order si) d (fst (driverPaidFor (si_order si) d d1)) (si_actor si) d1) (\<lambda>db.
       bindE (creditTreasury (si_order si) (si_actor si) db) (\<lambda>db. Inr (o1, db)))
     else if si_to si = StFailed then
       bindE (creditTreasury (si_order si) (si_actor si) d1) (\<lambda>db. Inr (o1, db))
     else if refundOnEnter (si_to si) \<and> si_from si = StDelivered then settleTakenBack si (o1, d1)
     else Inr (o1, d1)) = Inr (out', db')"
    unfolding after_refund_def by (auto simp: result_simps simp del: if_Inl_eq_Inr)
  from b show "\<exists>d. creditTreasury (si_order si) (si_actor si) d = Inr db'"
    if "closing si" "si_to si \<noteq> StPickedUp" "si_to si \<noteq> StDelivered"
    using that by (auto simp: closing_def result_simps dest: settleTakenBack_effect(1) split: if_splits)
  have d1: "refund_log d1 = refund_log db"
    using a by (auto dest: refund_log_ask split: if_splits option.splits)
  show "refund_log db' r = refund_log db r @ (if si_from si = StDelivered \<and> r = si_order si \<and> 0 < refund_due si
       then [(si_customer si, refund_due si)] else [])"
    if e: "has_edge KindStandard (si_from si) (si_to si)" "refundOnEnter (si_to si)"
  proof (cases "si_from si = StDelivered")
    case True
    then have "si_to si \<noteq> StFailed" using e by auto
    with True b e have "settleTakenBack si (o1, d1) = Inr (out', db')" by simp
    from settleTakenBack_effect(2)[OF this] True d1 show ?thesis by (simp add: refund_due_def)
  next
    case False
    have "refund_log db' = refund_log d1"
      using b e(2) False by (auto simp: result_simps dest!: refund_log_treasury refund_log_advance split: if_splits option.splits)
    with d1 False show ?thesis by simp
  qed
qed

lemma settle_refunds:
  fixes db :: "'a money_db_scheme"
  assumes "settle st si (out, db) = Inr (out', db')" and "\<not> si_custom si" and "\<not> si_merchant_delivery si"
    and "has_edge KindStandard (si_from si) (si_to si)" and "refundOnEnter (si_to si)"
  shows "refund_log db' r = refund_log db r @
    (if r = si_order si \<and> 0 < refund_due si then [(si_customer si, refund_due si)] else [])"
proof -
  have to: "si_to si \<noteq> StPickedUp" "si_to si \<noteq> StDelivered" using assms(5) by (auto simp: refundOnEnter_def)
  from assms(1-3,5) to obtain o1 d1 where
      p: "(if si_from si \<noteq> StDelivered \<and> si_wallet_paid si > 0
           then bindE (ApplyTx (si_customer si) (si_wallet_paid si) ''refund'' (si_order si) ''refund of an order''
                   (opt_actor (si_actor si)) db)
                 (\<lambda>(_, db). Inr (settled_credit (si_customer si) (si_wallet_paid si) ''refunded2'' ''customer'' out, db))
           else Inr (out, db)) = Inr (o1, d1)"
    and b: "after_refund st si (o1, d1) = Inr (out', db')"
    unfolding settle_def by (auto simp: result_simps simp del: if_Inl_eq_Inr)
  have "refund_log d1 r = refund_log db r @
      (if si_from si \<noteq> StDelivered \<and> r = si_order si \<and> 0 < refund_due si then [(si_customer si, refund_due si)] else [])"
    using p by (auto simp: result_simps refund_log_ApplyTx refund_due_def split: if_splits)
  then show ?thesis using after_refund_effect(2)[OF b assms(4,5)] by auto
qed

section \<open>An order delivered and taken back\<close>

definition example_move :: "status \<Rightarrow> status \<Rightarrow> settlement_in" where
  "example_move s t = \<lparr>si_order = ''o1'', si_from = s, si_to = t, si_actor = ''d'', si_customer = ''a'', si_driver = Some ''d'',
     si_wallet_paid = 700, si_cash_due = 500, si_fee = 100, si_custom = False, si_custom_reserved = 0,
     si_merchant_delivery = False\<rparr>"

definition example_delivered :: "err + settled \<times> money_db" where
  "example_delivered = settle None (example_move StAtDropoff StDelivered)
     (no_report, example_held_db\<lparr>order_items := order_items example_stores_db, settlements := [], reversals := [],
        wallets := (''h'', zero_wallet\<lparr>w_cash_holding := True\<rparr>) # [x \<leftarrow> wallets example_held_db. fst x \<noteq> ''h'']\<rparr>)"

definition example_taken_back :: "err + settled \<times> money_db" where
  "example_taken_back = bindE example_delivered (settle None (example_move StDelivered StRefunded))"

section \<open>Properties\<close>

text \<open>
  C19. Whatever ends an order without its goods or takes it back, the refunds of the ledger grow by exactly what is owed
  for it and no refund of another order is posted. An ordinary order owes its customer what the wallet had paid when
  it ends before it is delivered, and the wallet and the cash together when a delivered one is taken back, in one entry,
  none when that is zero. A delivery for a store owes the store what its wallet paid and the cash the driver took of
  it, unless it came by WhatsApp or failed on the road by the fault of the store or of the recipient. A custom order owes
  none, since its money was only reserved; and neither a custom order nor a delivery for a store is refunded when it is
  taken back after it was delivered.
\<close>

theorem refund_exact:
  fixes db :: "'a money_db_scheme"
  assumes "settle st si (out, db) = Inr (out', db')" and "refundOnEnter (si_to si)"
    and "has_edge (if si_merchant_delivery si then KindMerchantDelivery else if si_custom si then KindCustom else KindStandard)
      (si_from si) (si_to si)"
  shows "refund_log db' r = refund_log db r @
    (if r \<noteq> si_order si then []
     else if si_merchant_delivery si then (if si_from si = StDelivered then [] else delivery_refund si db)
     else if si_custom si then []
     else if 0 < refund_due si then [(si_customer si, refund_due si)] else [])"
proof (cases "si_merchant_delivery si")
  case True
  with assms(1) have s: "settleMerchantDelivery st si (out, db) = Inr (out', db')" by (simp add: settle_def)
  have to: "si_to si \<notin> {StAccepted, StPickedUp, StDelivered}" using assms(2) by (auto simp: refundOnEnter_def)
  show ?thesis
  proof (cases "si_from si = StDelivered")
    case True
    with s to have "db' = db" by (simp add: settleMerchantDelivery_def)
    with True \<open>si_merchant_delivery si\<close> show ?thesis by simp
  next
    case False
    with s to assms(2) have "settleDeliveryEnded st si (out, db) = Inr (out', db')" by (simp add: settleMerchantDelivery_def)
    from delivery_ended_refunds[OF this, of r] False \<open>si_merchant_delivery si\<close> show ?thesis by simp
  qed
next
  case nd: False
  show ?thesis
  proof (cases "si_custom si")
    case True
    with assms(1) nd have "settleCustom si (out, db) = Inr (out', db')" by (simp add: settle_def)
    from kept_custom[OF this assms(2)] True nd show ?thesis by simp
  next
    case False
    with settle_refunds[OF assms(1) False nd _ assms(2), of r] assms(3) nd show ?thesis by simp
  qed
qed

text \<open>An ordinary order, delivered and taken back; and a delivery for a store that ends on the road by nobody's fault.\<close>

definition example_delivery_db :: money_db where
  "example_delivery_db = example_held_db\<lparr>orders := [example_order\<lparr>o_kind := KindMerchantDelivery, o_status := StOnTheWay, o_wallet_paid := 300,
     o_fee_payer := Some FeePayerMerchant, o_delivery_fee := 300\<rparr>]\<rparr>"

lemma refund_exact_witness:
  "(\<exists>out db out' db'. example_delivered = Inr (out, db) \<and>
     settle None (example_move StDelivered StRefunded) (out, db) = Inr (out', db') \<and>
     refund_log db ''o1'' = [] \<and> refund_log db' ''o1'' = [(''a'', 1200)] \<and>
     map (\<lambda>x. (ob_party x, ob_amount x)) (obligations db') = [(''m'', 900)]) \<and>
   (\<exists>out db. settle None (example_move StOnTheWay StFailed\<lparr>si_merchant_delivery := True, si_wallet_paid := 300\<rparr>) (no_report, example_delivery_db) = Inr (out, db) \<and>
     refund_log db ''o1'' = [(''a'', 300)])"
proof
  let ?s = "example_move StDelivered StRefunded"
  have a: "case example_delivered of Inl _ \<Rightarrow> False | Inr (out, db) \<Rightarrow> refund_log db ''o1'' = []"
    and b: "case example_taken_back of Inl _ \<Rightarrow> False
       | Inr (out', db') \<Rightarrow> map (\<lambda>x. (ob_party x, ob_amount x)) (obligations db') = [(''m'', 900)]" by code_simp+
  obtain out db where d: "example_delivered = Inr (out, db)" "refund_log db ''o1'' = []"
    using a by (auto split: sum.splits)
  obtain out' db' where "settle None ?s (out, db) = Inr (out', db')"
      "map (\<lambda>x. (ob_party x, ob_amount x)) (obligations db') = [(''m'', 900)]"
    using b by (auto simp: example_taken_back_def d(1) split: sum.splits)
  note d = d this
  have "refund_log db' ''o1'' = [(''a'', 1200)]"
    using refund_exact[OF d(3), of "''o1''"] d(2) by (simp add: example_move_def refund_due_def refundOnEnter_def)
  with d show "\<exists>out db out' db'. example_delivered = Inr (out, db) \<and> settle None ?s (out, db) = Inr (out', db') \<and>
      refund_log db ''o1'' = [] \<and> refund_log db' ''o1'' = [(''a'', 1200)] \<and>
      map (\<lambda>x. (ob_party x, ob_amount x)) (obligations db') = [(''m'', 900)]"
    by (intro exI[of _ out] exI[of _ db] exI[of _ out'] exI[of _ db'] conjI)
next
  let ?s = "example_move StOnTheWay StFailed\<lparr>si_merchant_delivery := True, si_wallet_paid := 300\<rparr>"
  have "case settle None ?s (no_report, example_delivery_db) of Inl _ \<Rightarrow> False | Inr _ \<Rightarrow> True" by code_simp
  then obtain out db where d: "settle None ?s (no_report, example_delivery_db) = Inr (out, db)" by (auto split: sum.splits)
  have e: "refund_log example_delivery_db ''o1'' = []" "delivery_refund ?s example_delivery_db = [(''a'', 300)]" by code_simp+
  have "refund_log db ''o1'' = [(''a'', 300)]"
    using refund_exact[OF d, of "''o1''"] e by (simp add: example_move_def refundOnEnter_def)
  with d show "\<exists>out db. settle None ?s (no_report, example_delivery_db) = Inr (out, db) \<and> refund_log db ''o1'' = [(''a'', 300)]" by blast
qed
text \<open>
  C20. After a move of a standard order that moves its money, the books of the order are closed: pickup,
  delivery, failure, an end after the pickup and a refund all leave payment, refunds, what the stores, the
  driver and the representatives were given and the share of the platform adding up to the cash that came
  from outside, and taking the share once more, by anyone, posts nothing.
\<close>

theorem settle_closes_the_books:
  fixes db :: "'a money_db_scheme"
  assumes "settle st si (out, db) = Inr (out', db')" and "\<not> si_custom si" and "\<not> si_merchant_delivery si"
    and "closing si" and "treasuryOn db' \<noteq> ''''" and "order_of db' (si_order si) = Some x" and "o_kind x \<noteq> KindCustom"
  shows "tx_sum db' (si_order si) order_kinds = cash_part db' x +
      (if list_ex (\<lambda>t. tx_ref t = si_order si \<and> tx_kind t = ''order_payment'') (wallet_txs db') then 0 else o_wallet_paid x) \<and>
    creditTreasury (si_order si) actor db' = Inr db'"
proof -
  have "\<exists>d :: 'a money_db_scheme. creditTreasury (si_order si) (si_actor si) d = Inr db'"
    using assms(1-4) settleDelivered_share[of si _ _ out' db'] after_refund_effect(1)[of st si _ _ out' db']
    by (auto simp: settle_def result_simps simp del: if_Inl_eq_Inr split: if_splits)
  then obtain d :: "'a money_db_scheme" where d: "creditTreasury (si_order si) (si_actor si) d = Inr db'" by blast
  have keep: "treasuryOn d = treasuryOn db' \<and> order_of d = order_of db' \<and>
      list_ex (\<lambda>t. tx_ref t = si_order si \<and> tx_kind t = ''order_payment'') (wallet_txs d) =
      list_ex (\<lambda>t. tx_ref t = si_order si \<and> tx_kind t = ''order_payment'') (wallet_txs db')"
    using creditTreasury_shape[OF d]
  proof (elim disjE exE)
    fix u a b i assume p: "applyTx u a ''platform_profit'' (si_order si) ''platform share'' (Some (si_actor si)) d = Inr ((b, i), db')"
    show ?thesis using applyTx_system(1)[OF p] applyTx_orders_cash(3)[OF p] applyTx_log[OF p] by auto
  qed simp
  with assms(5,6) have t: "treasuryOn d \<noteq> ''''" "order_of d (si_order si) = Some x" by simp_all
  from treasury_closed[OF d t, of actor] assms(7) keep show ?thesis by simp
qed

lemma settle_closes_the_books_witness:
  "\<exists>out db. example_delivered = Inr (out, db) \<and> tx_sum db ''o1'' order_kinds = 500 \<and>
     tx_sum db ''o1'' [''platform_profit''] = 200 \<and> creditTreasury ''o1'' ''a'' db = Inr db"
proof -
  have "case example_delivered of Inl _ \<Rightarrow> False | Inr (out, db) \<Rightarrow> tx_sum db ''o1'' [''platform_profit''] = 200 \<and>
      treasuryOn db = ''t'' \<and> list_ex (\<lambda>t. tx_ref t = ''o1'' \<and> tx_kind t = ''order_payment'') (wallet_txs db) \<and>
      (case order_of db ''o1'' of None \<Rightarrow> False | Some x \<Rightarrow> o_kind x = KindStandard \<and> cash_part db x = 500)" by code_simp
  then obtain out db x where d: "example_delivered = Inr (out, db)" "tx_sum db ''o1'' [''platform_profit''] = 200"
      "treasuryOn db = ''t''" "list_ex (\<lambda>t. tx_ref t = ''o1'' \<and> tx_kind t = ''order_payment'') (wallet_txs db)"
      "order_of db ''o1'' = Some x" "o_kind x = KindStandard" "cash_part db x = 500"
    by (auto split: sum.splits option.splits)
  from settle_closes_the_books[OF d(1)[unfolded example_delivered_def], of x "''a''"] d(2-7)
  have "tx_sum db ''o1'' order_kinds = 500 \<and> creditTreasury ''o1'' ''a'' db = Inr db"
    by (simp add: example_move_def closing_def)
  with d(1,2) show ?thesis by blast
qed

text \<open>
  C21. What a refund takes back from the owner of a store is what is available in his wallet, up to the
  earning, and the rest becomes a debt of one store of his, with nobody else touched. The two add up to
  the earning only while what is available is not negative: a wallet with an advance is in debt for the
  advance a second time.
\<close>

theorem take_back_exact:
  assumes "take_back_earning ord actor (owner, amount) db = Inr db'" and "0 < amount" and "obligations_inv db"
    and "debt_store db ord owner = Some m" and "\<not> origin_taken db PartyMerchant m CauseRefundMerchant (Some ord) None" and "ord \<noteq> ''''"
  shows "Balance db' u = Balance db u - (if u = owner then max 0 (min (AvailableTx db owner) amount) else 0) \<and>
    Debt db' k i = Debt db k i + (if k = PartyMerchant \<and> i = m then max 0 (amount - AvailableTx db owner) else 0) \<and>
    (Balance db owner - Balance db' owner) + (Debt db' PartyMerchant m - Debt db PartyMerchant m) =
      amount + max 0 (- AvailableTx db owner)"
proof -
  define av where "av = AvailableTx db owner"
  define taken where "taken = (if av < amount then av else amount)"
  obtain d where d: "(if amount - taken > 0 then bindE (Create PartyMerchant m (amount - taken) CauseRefundMerchant ord (Some actor) db) (\<lambda>(_, db). Inr db)
        else Inr db) = Inr d"
    and p: "(if taken \<le> 0 then Inr d
        else bindE (ApplyTx owner (- taken) ''merchant_earning'' ord ''earning reversed for a refunded order'' (Some actor) d) (\<lambda>(_, db). Inr db)) = Inr db'"
    using assms(1,2) unfolding take_back_earning_def Let_def prod.case av_def[symmetric] taken_def[symmetric] assms(4) option.case
    by (simp only: bindE_eq_Inr if_False not_le[symmetric] simp_thms) blast
  have debts: "Balance d v = Balance db v \<and> Debt d k' i' = Debt db k' i' + (if k' = PartyMerchant \<and> i' = m then max 0 (amount - av) else 0)" for v k' i'
  proof (cases "amount - taken > 0")
    case True
    with d obtain made where c: "CreateRef PartyMerchant m (amount - taken) CauseRefundMerchant ord '''' (Some actor) db = Inr (made, d)"
      by (auto simp: Create_def result_simps)
    have made using c assms(5,6) by (auto simp: CreateRef_def Let_def result_simps split: if_splits)
    with CreateRef_inv(2)[OF c assms(3), of k' i'] money_tables_eqD(6)[OF CreateRef_tables[OF c]] True show ?thesis
      by (auto simp: taken_def max_def split: if_splits)
  qed (use d in \<open>auto simp: taken_def max_def split: if_splits\<close>)
  have pay: "Balance db' v = Balance d v - (if v = owner then max 0 taken else 0) \<and> Debt db' k' i' = Debt d k' i'" for v k' i'
  proof (cases "taken \<le> 0")
    case False
    with p obtain b j where a: "applyTx owner (- taken) ''merchant_earning'' ord ''earning reversed for a refunded order'' (Some actor) d = Inr ((b, j), db')"
      by (auto simp: ApplyTx_def result_simps split: prod.splits)
    obtain ws ts n where "db' = d\<lparr>wallets := ws, wallet_txs := ts, next_tx := n\<rparr>" using applyTx_frame[OF a] by blast
    then have "Debt db' k' i' = Debt d k' i'" by (simp add: Debt_def)
    with applyTx_Inr(1)[OF a] False show ?thesis by (auto simp: posted_def)
  qed (use p in simp)
  have b: "max 0 taken = max 0 (min av amount)" by (simp add: taken_def min_def)
  have "Balance db' u = Balance db u - (if u = owner then max 0 (min av amount) else 0)" for u using pay[of u] debts[of u] b by simp
  moreover have "Debt db' k i = Debt db k i + (if k = PartyMerchant \<and> i = m then max 0 (amount - av) else 0)" for k i
    using pay[of _ k i] debts[of _ k i] by simp
  ultimately show ?thesis using assms(2) by (auto simp: av_def[symmetric] max_def min_def)
qed

text \<open>An owner with 50 of an advance still to repay: 100 were earned, 150 become a debt.\<close>

definition example_advance_db :: money_db where
  "example_advance_db = example_held_db\<lparr>wallets := [(''a'', zero_wallet\<lparr>w_balance := - 50, w_advance := 50\<rparr>)]\<rparr>"

lemma take_back_exact_witness:
  "\<exists>db. take_back_earning ''o1'' ''d'' (''a'', 100) example_advance_db = Inr db \<and> Balance db ''a'' = - 50 \<and>
     Debt db PartyMerchant ''m'' = 150"
proof -
  have "\<not> failed (take_back_earning ''o1'' ''d'' (''a'', 100) example_advance_db)" by code_simp
  then obtain db where r: "take_back_earning ''o1'' ''d'' (''a'', 100) example_advance_db = Inr db"
    by (cases "take_back_earning ''o1'' ''d'' (''a'', 100) example_advance_db") auto
  have f: "debt_store example_advance_db ''o1'' ''a'' = Some ''m''" "blank_book example_advance_db"
    "\<not> origin_taken example_advance_db PartyMerchant ''m'' CauseRefundMerchant (Some ''o1'') None"
    "AvailableTx example_advance_db ''a'' = - 50" "Balance example_advance_db ''a'' = - 50" "Debt example_advance_db PartyMerchant ''m'' = 0"
    by code_simp+
  from take_back_exact[OF r _ blank_book_inv[OF f(2)] f(1,3), of "''a''" PartyMerchant "''m''"] f r show ?thesis by auto
qed

end
