(* ===== verification/Order_Frame.thy ===== *)
theory Order_Frame
  imports Order_Settle
begin

text \<open>
  What the money of a move leaves alone (\<open>work_of\<close>): no operation on money changes the status, the kind, the
  customer, the driver or the columns of the work of any order, the work on any part, or any
  table beyond the money.
\<close>

definition work_of :: "'a money_db_scheme \<Rightarrow> _" where
  "work_of db = (map (\<lambda>x. (o_id x, o_status x, o_kind x, (o_customer x, o_driver x), order_money.more x)) (orders db),
     map (\<lambda>p. (pa_order p, pa_merchant p, pa_status p, pa_seq p, pa_arrived p, pa_picked_by p)) (order_parts db), money_db.more db)"

section \<open>Wallets, debts and boxes\<close>

lemma work_of_tables:
  "work_of (db\<lparr>wallets := a\<rparr>) = work_of db" "work_of (db\<lparr>wallet_txs := b\<rparr>) = work_of db" "work_of (db\<lparr>next_tx := n\<rparr>) = work_of db"
  "work_of (db\<lparr>boxes := c\<rparr>) = work_of db" "work_of (db\<lparr>cash_entries := d\<rparr>) = work_of db" "work_of (db\<lparr>next_entry := e\<rparr>) = work_of db"
  "work_of (db\<lparr>office_entries := f\<rparr>) = work_of db" "work_of (db\<lparr>settlements := g\<rparr>) = work_of db"
  "work_of (db\<lparr>reversals := h\<rparr>) = work_of db" "work_of (db\<lparr>next_uuid := i\<rparr>) = work_of db"
  "work_of (db\<lparr>held_commissions := j\<rparr>) = work_of db" "work_of (db\<lparr>compensation_requests := k\<rparr>) = work_of db"
  by (simp_all add: work_of_def)

lemma work_applyTx:
  fixes db :: "'a money_db_scheme"
  assumes "applyTx u a kind ref nt actor db = Inr (r, db')"
  shows "work_of db' = work_of db"
proof -
  obtain ws ts n where "db' = db\<lparr>wallets := ws, wallet_txs := ts, next_tx := n\<rparr>" using applyTx_frame[OF assms] by blast
  then show ?thesis by (simp add: work_of_tables)
qed

lemma work_ApplyTx: "ApplyTx u a kind ref nt actor db = Inr (b, db') \<Longrightarrow> work_of db' = work_of db"
  by (auto simp: ApplyTx_def branches dest!: work_applyTx)

lemma work_wipe:
  fixes db :: "'a money_db_scheme"
  assumes "wipe_debts db' = wipe_debts db"
  shows "work_of db' = work_of db"
proof -
  have "work_of (wipe_debts x) = work_of x" for x :: "'a money_db_scheme" by (simp add: work_of_def wipe_debts_def)
  then show ?thesis by (metis assms)
qed

lemma work_Create: "CreateRef k m a c ord src actor db = Inr (b, db') \<Longrightarrow> work_of db' = work_of db"
  by (rule work_wipe, rule CreateRef_wipe)

lemma work_settle_debt: "SettleDebt k i a ord tx actor db = Inr (n, db') \<Longrightarrow> work_of db' = work_of db"
  unfolding SettleDebt_def by (rule work_wipe, rule SettleBy_wipe)

lemma work_void: "VoidForOrder k i ord cause actor db = Inr db' \<Longrightarrow> work_of db' = work_of db"
  by (rule work_wipe, rule VoidForOrder_wipe)

lemma work_offset:
  fixes db :: "'a money_db_scheme"
  shows "offsetMerchantDebt m owner av ord actor db = Inr db' \<Longrightarrow> work_of db' = work_of db"
    and "offsetRepDebt r av ord actor db = Inr db' \<Longrightarrow> work_of db' = work_of db"
    and "offsetDriverDebt d av ord actor db = Inr db' \<Longrightarrow> work_of db' = work_of db"
  by (auto simp: offsetMerchantDebt_def offsetRepDebt_def offsetDriverDebt_def offset_debt_def deduct_def offset_pay_def
      ApplyTxID_def Let_def branches dest!: work_applyTx work_settle_debt)

lemma work_treasury:
  fixes db :: "'a money_db_scheme"
  shows "creditTreasury ord actor db = Inr db' \<Longrightarrow> work_of db' = work_of db"
  by (drule creditTreasury_shape) (auto dest: work_applyTx)

lemma work_Record:
  fixes db :: "'a money_db_scheme"
  shows "Record e db = Inr db' \<Longrightarrow> work_of db' = work_of db"
  by (auto simp: work_of_tables dest!: Record_Inr(6))

lemma work_advance:
  fixes db :: "'a money_db_scheme"
  shows "recordAdvanceReturn ord d a actor db = Inr db' \<Longrightarrow> work_of db' = work_of db"
  by (auto simp: recordAdvanceReturn_def branches dest!: work_Record)

lemma work_box:
  fixes db :: "'a money_db_scheme"
  shows "box_applyTx d a kind ref nt actor db = Inr (h, db') \<Longrightarrow> work_of db' = work_of db"
  by (auto simp: box_applyTx_def insert_cash_entry_def Let_def branches work_of_tables)

lemma work_collect:
  fixes db :: "'a money_db_scheme"
  shows "CollectTx d a ord actor db = Inr db' \<Longrightarrow> work_of db' = work_of db"
    and "ReturnRecipientCashTx d a ord actor db = Inr db' \<Longrightarrow> work_of db' = work_of db"
    and "collectAndReturnAdvance ord driver due u db = Inr db' \<Longrightarrow> work_of db' = work_of db"
proof -
  show c: "CollectTx d a ord actor db = Inr db' \<Longrightarrow> work_of db' = work_of db" for d a actor db and db' :: "'a money_db_scheme"
    by (auto simp: CollectTx_def branches dest!: work_box)
  show "ReturnRecipientCashTx d a ord actor db = Inr db' \<Longrightarrow> work_of db' = work_of db"
    by (auto simp: ReturnRecipientCashTx_def branches dest!: work_box)
  show "collectAndReturnAdvance ord driver due u db = Inr db' \<Longrightarrow> work_of db' = work_of db"
    by (cases "driverPaidFor ord (the driver) db") (auto simp: collectAndReturnAdvance_def branches Let_def dest!: c work_advance)
qed

lemma work_reserved:
  fixes db :: "'a money_db_scheme"
  shows "ReleaseTx u a db = Inr db' \<Longrightarrow> work_of db' = work_of db"
    and "SettleReservedTx u a kind ref nt actor db = Inr (b, db') \<Longrightarrow> work_of db' = work_of db"
  by (auto simp: SettleReservedTx_def ReleaseTx_def branches update_wallet_Inr work_of_tables dest!: work_ApplyTx)

lemma work_update:
  fixes db :: "'a money_db_scheme"
  assumes "\<And>x. (o_id (f x), o_status (f x), o_kind (f x), (o_customer (f x), o_driver (f x)), order_money.more (f x)) = (o_id x, o_status x, o_kind x, (o_customer x, o_driver x), order_money.more x)"
  shows "work_of (update_order i f db) = work_of db"
  using assms by (simp add: work_of_def update_order_def)

section \<open>Stores, drivers and representatives\<close>

lemma work_update_settlement:
  fixes db :: "'a money_db_scheme"
  shows "update_settlement sid f db = Inr db' \<Longrightarrow> work_of db' = work_of db"
  by (simp add: update_settlement_Inr work_of_tables)

lemma work_reversal:
  fixes db :: "'a money_db_scheme"
  shows "postCashReversal sid hid a cause event ord actor db = Inr (tx, db') \<Longrightarrow> work_of db' = work_of db"
    and "offsetMerchantDebtCash sid m hid av ord actor db = Inr db' \<Longrightarrow> work_of db' = work_of db"
proof -
  show c: "postCashReversal sid hid a cause event ord actor db = Inr (tx, db') \<Longrightarrow> work_of db' = work_of db"
    for a cause event tx db and db' :: "'a money_db_scheme"
    by (auto simp: postCashReversal_def ApplyTxID_def branches work_of_tables dest!: work_applyTx work_update_settlement)
  show "offsetMerchantDebtCash sid m hid av ord actor db = Inr db' \<Longrightarrow> work_of db' = work_of db"
    by (auto simp: offsetMerchantDebtCash_def Let_def branches dest!: c work_settle_debt)
qed

lemma work_accrue:
  fixes db :: "'a money_db_scheme"
  shows "accrueCashSettlement sid ord m due actor db = Inr db' \<Longrightarrow> work_of db' = work_of db"
  by (auto simp: accrueCashSettlement_def ApplyTxID_def branches dest!: work_applyTx work_update_settlement work_reversal(2))

lemma work_pay_cash:
  fixes db :: "'a money_db_scheme"
  shows "payCashByDriver sid ord m d db = Inr db' \<Longrightarrow> work_of db' = work_of db"
  by (auto simp: payCashByDriver_def payCashSettlement_def ApplyTxID_def branches
      dest!: work_applyTx work_update_settlement)

lemma work_insert_settlement:
  fixes db :: "'a money_db_scheme"
  shows "insert_settlement ord sh owner db = Inr (c, db') \<Longrightarrow> work_of db' = work_of db"
  by (auto simp: insert_settlement_def Let_def work_of_tables branches)

lemma work_settle_share:
  fixes db :: "'a money_db_scheme"
  shows "settle_share ord actor driver only sh (out, db) = Inr (out', db') \<Longrightarrow> work_of db' = work_of db"
  by (auto simp: settle_share_def ApplyTxID_def branches
      dest!: work_insert_settlement work_applyTx work_update_settlement work_offset(1) work_accrue work_pay_cash)

lemma work_settleMerchantFor:
  fixes db :: "'a money_db_scheme"
  assumes "settleMerchantFor ord actor driver only (out, db) = Inr (out', db')"
  shows "work_of db' = work_of db"
proof -
  have loop: "work_of (snd y) = work_of (snd x)"
    if "foldE (settle_share ord actor driver only) shs x = Inr y" for shs and x y :: "settled \<times> 'a money_db_scheme"
    by (rule foldE_inv[OF that, where P = "\<lambda>z. work_of (snd z) = work_of (snd x)"]) (auto dest: work_settle_share)
  from assms show ?thesis
    by (auto simp: settleMerchantFor_def branches work_update dest!: loop)
qed

lemma work_payDriver:
  fixes db :: "'a money_db_scheme"
  shows "payDriver driver fee ord actor (out, db) = Inr (out', db') \<Longrightarrow> work_of db' = work_of db"
  by (auto simp: payDriver_def branches dest!: work_ApplyTx work_offset(3))

lemma work_pay_rep: "pay_rep rep a store ord actor (out, db) = Inr (out', db') \<Longrightarrow> work_of db' = work_of db"
  by (auto simp: pay_rep_def holdRepCommissionIfInactive_def branches work_of_tables dest!: work_ApplyTx work_offset(2))

lemma work_write_parts: "work_of (foldl (\<lambda>db sh. write_part ord sh db) db shs) = work_of db"
proof -
  have "work_of (write_part ord sh db) = work_of db" for sh and db :: "'a money_db_scheme"
    by (simp add: write_part_def work_of_def)
  then show ?thesis by (induction shs arbitrary: db) auto
qed

lemma work_settleRep:
  assumes "settleRep ord actor (out, db) = Inr (out', db')"
  shows "work_of db' = work_of db"
proof -
  have one: "work_of v = work_of u" if "settleRepOne ord actor (p, u) = Inr (q, v)" for p q and u v :: "'a money_db_scheme"
    using that by (auto simp: settleRepOne_def Let_def branches dest!: work_pay_rep)
  have loop: "work_of (snd y) = work_of (snd x)"
    if "foldE (\<lambda>r. pay_rep (rp_rep r) (rp_amount r) (rp_store r) ord actor) rs x = Inr y" for rs and x y :: "settled \<times> 'a money_db_scheme"
    by (rule foldE_inv[OF that, where P = "\<lambda>z. work_of (snd z) = work_of (snd x)"]) (auto dest: work_pay_rep)
  have parts: "work_of v = work_of u" if "settleRepParts ord actor (p, u) = Inr (q, v)" for p q and u v :: "'a money_db_scheme"
    using that by (auto simp: settleRepParts_def branches work_write_parts dest!: loop)
  from assms show ?thesis by (auto simp: settleRep_def branches dest: one parts)
qed

lemma work_ask: "ask_compensation st si f r (out, db) = Inr (out', db') \<Longrightarrow> work_of db' = work_of db"
  by (auto simp: ask_compensation_def requestDriverCompensation_def branches Let_def work_of_tables)

section \<open>Custom orders\<close>

lemma work_customStore: "settleCustomStore si (out, db) = Inr (out', db') \<Longrightarrow> work_of db' = work_of db"
  by (auto simp: settleCustomStore_def Let_def branches work_update
      dest!: work_collect(1) work_advance work_settleRep)

lemma work_payCustomDriver: "payCustomDriver si d a goods db = Inr db' \<Longrightarrow> work_of db' = work_of db"
  by (auto simp: payCustomDriver_def Let_def branches dest!: work_ApplyTx work_offset(3))

lemma work_customCash: "settleCustomCash si (out, db) = Inr (out', db') \<Longrightarrow> work_of db' = work_of db"
  by (auto simp: settleCustomCash_def Let_def branches work_update
      dest!: work_customStore work_payCustomDriver work_treasury)

lemma work_customWallet: "settleCustomWallet si (out, db) = Inr (out', db') \<Longrightarrow> work_of db' = work_of db"
  by (auto simp: settleCustomWallet_def Let_def branches work_update
      dest!: work_customStore work_customCash work_payCustomDriver work_treasury work_reserved(2))

lemma work_customLost: "settleCustomLostGoods si db = Inr db' \<Longrightarrow> work_of db' = work_of db"
  by (auto simp: settleCustomLostGoods_def Let_def branches work_update dest!: work_advance work_treasury)

lemma work_releaseCustom:
  fixes db :: "'a money_db_scheme"
  shows "releaseCustomReservationOnTerminal ord cust db = Inr db' \<Longrightarrow> work_of db' = work_of db"
  by (auto simp: releaseCustomReservationOnTerminal_def releaseCustomReservationTx_def branches work_update
      dest!: work_reserved(1))

lemma work_settleCustom: "settleCustom si (out, db) = Inr (out', db') \<Longrightarrow> work_of db' = work_of db"
  by (auto simp: settleCustom_def branches dest!: work_customCash work_customWallet work_customLost work_releaseCustom)

section \<open>Deliveries for a merchant\<close>

lemma work_debit:
  fixes db :: "'a money_db_scheme"
  shows "debitMerchantWallet ord m actor a nt db = Inr (b, db') \<Longrightarrow> work_of db' = work_of db"
    and "chargeMerchantDelivery ord m actor fee db = Inr db' \<Longrightarrow> work_of db' = work_of db"
proof -
  show d: "debitMerchantWallet ord m actor a nt db = Inr (b, db') \<Longrightarrow> work_of db' = work_of db" for a nt b and db' :: "'a money_db_scheme"
    by (auto simp: debitMerchantWallet_def branches work_update dest!: work_ApplyTx)
  show "chargeMerchantDelivery ord m actor fee db = Inr db' \<Longrightarrow> work_of db' = work_of db"
    by (auto simp: chargeMerchantDelivery_def branches dest!: d)
qed

lemma work_deliveryCash:
  fixes db :: "'a money_db_scheme"
  shows "collectMerchantDeliveryCash si db = Inr db' \<Longrightarrow> work_of db' = work_of db"
    and "returnRecipientCash ord a actor db = Inr db' \<Longrightarrow> work_of db' = work_of db"
  by (auto simp: collectMerchantDeliveryCash_def returnRecipientCash_def Let_def branches dest!: work_collect(1,2))

lemma work_whatsapp:
  "settleWhatsAppEnded st si f r c a (out, db) = Inr (out', db') \<Longrightarrow> work_of db' = work_of db"
  by (auto simp: settleWhatsAppEnded_def branches dest!: work_deliveryCash(2) work_ask work_treasury)

lemma work_merchantBears:
  "merchantBearsFailedDelivery si m fee c (out, db) = Inr (out', db') \<Longrightarrow> work_of db' = work_of db"
  by (auto simp: merchantBearsFailedDelivery_def Create_def Let_def branches
      dest!: work_debit(1) work_Create work_payDriver work_treasury)

lemma work_deliveryEnded:
  "settleDeliveryEnded st si (out, db) = Inr (out', db') \<Longrightarrow> work_of db' = work_of db"
  by (auto simp: settleDeliveryEnded_def Let_def branches
      dest!: work_whatsapp work_merchantBears work_ApplyTx work_deliveryCash(2) work_void work_ask work_treasury)

lemma work_merchantDelivery:
  "settleMerchantDelivery st si (out, db) = Inr (out', db') \<Longrightarrow> work_of db' = work_of db"
  by (auto simp: settleMerchantDelivery_def branches dest!: work_debit(2) work_deliveryCash(1) work_payDriver work_treasury
      work_deliveryEnded)

section \<open>Refunds, and the whole move\<close>

lemma work_reverse_cash:
  fixes db :: "'a money_db_scheme"
  assumes "reverseCashSettlements ord actor db = Inr db'"
  shows "work_of db' = work_of db"
proof -
  have row: "work_of v = work_of u" if "reverse_cash_row ord hid actor s u = Inr v" for hid s and u v :: "'a money_db_scheme"
    using that by (auto simp: reverse_cash_row_def branches Create_def dest: work_reversal(1) work_Create)
  have loop: "work_of v = work_of u" if "foldE (reverse_cash_row ord hid actor) rows u = Inr v" for hid rows and u v :: "'a money_db_scheme"
    by (rule foldE_inv[OF that, where P = "\<lambda>x. work_of x = work_of u"]) (auto dest: row)
  from assms show ?thesis by (auto simp: reverseCashSettlements_def branches Let_def dest: loop)
qed

lemma work_reverse:
  fixes db :: "'a money_db_scheme"
  assumes "reverseCommissions ord actor db = Inr db'"
  shows "work_of db' = work_of db"
proof -
  have one: "work_of v = work_of u" if "take_back_earning ord actor x u = Inr v" for x and u v :: "'a money_db_scheme"
    using that by (cases x) (auto simp: take_back_earning_def Create_def Let_def branches dest!: work_Create work_ApplyTx)
  have loop: "work_of v = work_of u" if "foldE (take_back_earning ord actor) rows u = Inr v" for rows and u v :: "'a money_db_scheme"
    by (rule foldE_inv[OF that, where P = "\<lambda>x. work_of x = work_of u"]) (auto dest: one)
  from assms show ?thesis by (auto simp: reverseCommissions_def branches work_update dest: loop)
qed

lemma work_settle_steps:
  fixes db :: "'a money_db_scheme"
  shows "settleDelivered si (out, db) = Inr (out', db') \<Longrightarrow> work_of db' = work_of db"
    and "settleTakenBack si (out, db) = Inr (out', db') \<Longrightarrow> work_of db' = work_of db"
proof -
  show "settleDelivered si (out, db) = Inr (out', db') \<Longrightarrow> work_of db' = work_of db"
    by (auto simp: settleDelivered_def settleMerchant_def branches dest!: work_settleMerchantFor work_collect(3) work_payDriver
        work_settleRep work_treasury)
  show "settleTakenBack si (out, db) = Inr (out', db') \<Longrightarrow> work_of db' = work_of db"
    by (auto simp: settleTakenBack_def Let_def branches dest!: work_ApplyTx work_reverse work_reverse_cash work_treasury)
qed

lemma work_after_refund:
  "after_refund st si (out, db) = Inr (out', db') \<Longrightarrow> work_of db' = work_of db"
  by (auto simp: after_refund_def branches dest!: work_ask work_advance work_treasury work_settle_steps(2))

lemma work_settle:
  "settle st si (out, db) = Inr (out', db') \<Longrightarrow> work_of db' = work_of db"
  by (auto simp: settle_def settleMerchant_def branches dest!: work_merchantDelivery work_settleCustom work_ApplyTx work_settleMerchantFor
      work_treasury work_settle_steps(1) work_after_refund)

end
