(* ===== verification/Modes.thy ===== *)
theory Modes
  imports Fail_Reasons
begin

text \<open>
  The two modes of the platform (\<open>orders/modes.go\<close>) as a filter on the actor's roles in front of
  the status machine, and the machine the code publishes about itself
  (\<open>orders/machine.go\<close>, with the roles and the flow order of \<open>orders/truth.go\<close>).
\<close>

section \<open>The mode filter\<close>

definition officeEndsAtDoor :: "status \<Rightarrow> status \<Rightarrow> bool" where
  "officeEndsAtDoor from to \<longleftrightarrow> OfficeDecides from \<and> to = StFailed"

definition driverOnly :: "status \<Rightarrow> bool" where
  "driverOnly st \<longleftrightarrow> st \<in> {StAtPickup, StPickedUp, StOnTheWay, StAtDropoff, StDelivered, StFailed}"

definition goodsWithDriver :: "status \<Rightarrow> bool" where
  "goodsWithDriver st \<longleftrightarrow> st \<in> {StPickedUp, StOnTheWay, StAtDropoff}"

definition afterHandoff :: "status \<Rightarrow> bool" where
  "afterHandoff st \<longleftrightarrow>
     st \<in> {StDispatching, StAssigned, StAtPickup, StPickedUp, StOnTheWay, StAtDropoff}"

definition drop_role :: "role \<Rightarrow> role list \<Rightarrow> role list" where
  "drop_role r roles = [x \<leftarrow> roles. x \<noteq> r]"

definition rolesUnderMode :: "bool \<Rightarrow> status \<Rightarrow> status \<Rightarrow> role list \<Rightarrow> bool \<Rightarrow> role list" where
  "rolesUnderMode selfManage from to roles driverHolds =
    (let isAdmin = (''admin'' \<in> set roles)
     in if selfManage then roles
        else
          let roles = (if ''merchant'' \<in> set roles then drop_role ''merchant'' roles else roles);
              roles = (if to = StPreparing then drop_role ''admin'' (drop_role ''ops'' roles) else roles);
              roles = (if driverOnly to \<and> \<not> officeEndsAtDoor from to
                       then drop_role ''admin'' (drop_role ''ops'' roles) else roles);
              roles = (if goodsWithDriver from \<and> driverOnly to \<and> \<not> officeEndsAtDoor from to
                       then drop_role ''admin'' (drop_role ''ops'' roles) else roles);
              roles = (if to = StCancelled \<and> afterHandoff from \<and> \<not> isAdmin
                       then drop_role ''ops'' roles else roles)
          in roles)"

definition ModePlatform :: string where "ModePlatform = ''platform''"
definition ModeMerchants :: string where "ModeMerchants = ''merchants''"

text \<open>The settings service may be nil; \<open>getString\<close> is its reader.\<close>

definition MerchantsSelfManage :: "(string \<Rightarrow> string) option \<Rightarrow> bool" where
  "MerchantsSelfManage settings =
     (case settings of None \<Rightarrow> False
      | Some getString \<Rightarrow> getString ''platform.orders_mode'' = ModeMerchants)"

section \<open>The published machine\<close>

definition machineRoles :: "role list" where
  "machineRoles = [''customer'', ''merchant'', ''ops'', ''admin'', ''driver'']"

definition flowOrder :: "status list" where
  "flowOrder =
    [StPending, StAccepted, StPreparing, StDispatching, StAssigned,
     StAtPickup, StPickedUp, StOnTheWay, StAtDropoff, StDelivered,
     StRejected, StCancelled, StFailed, StRefunded]"

definition flowIndex :: "status \<Rightarrow> nat" where
  "flowIndex st = length (takeWhile (\<lambda>s. s \<noteq> st) flowOrder)"

definition effectiveRoles :: "kind \<Rightarrow> status \<Rightarrow> status \<Rightarrow> bool \<Rightarrow> role list" where
  "effectiveRoles k from to selfManage =
     [r \<leftarrow> machineRoles. canTransition k from to (rolesUnderMode selfManage from to [r] True)]"

record machine_status =
  ms_code :: status
  ms_terminal :: bool
  ms_refund :: bool
  ms_index :: nat

record machine_edge =
  me_kind :: kind
  me_from :: status
  me_to :: status
  me_declared :: "role list"
  me_platform :: "role list"
  me_merchants :: "role list"
  me_inherited :: bool
  me_nobody :: bool

definition machine_edge_of :: "kind \<Rightarrow> status \<Rightarrow> transition \<Rightarrow> machine_edge" where
  "machine_edge_of k from t =
    \<lparr>me_kind = k, me_from = from, me_to = t_to t, me_declared = t_roles t,
     me_platform = effectiveRoles k from (t_to t) False,
     me_merchants = effectiveRoles k from (t_to t) True,
     me_inherited = (k = KindCustom \<and> customTransitions from = None),
     me_nobody = (effectiveRoles k from (t_to t) False = [])\<rparr>"

definition machine_kinds :: "kind list" where
  "machine_kinds = [KindStandard, KindCustom, KindMerchantDelivery]"

definition machine_statuses :: "machine_status list" where
  "machine_statuses =
     map (\<lambda>(i, st). \<lparr>ms_code = st, ms_terminal = terminal st, ms_refund = refundOnEnter st, ms_index = i\<rparr>)
       (enumerate 0 flowOrder)"

definition machine_edges :: "machine_edge list" where
  "machine_edges =
     concat (map (\<lambda>k. concat (map (\<lambda>from.
       map (machine_edge_of k from) (sort_key (\<lambda>t. flowIndex (t_to t)) (transitionsFor k from)))
       flowOrder)) machine_kinds)"

definition machine_requires_reason :: "status list" where
  "machine_requires_reason = [StRejected, StCancelled, StFailed, StRefunded]"

text \<open>The statuses in the order of the flow, as the library's linear orders see them.\<close>

instantiation status :: linorder
begin

definition less_eq_status :: "status \<Rightarrow> status \<Rightarrow> bool" where
  "less_eq_status s t \<longleftrightarrow> flowIndex s \<le> flowIndex t"

definition less_status :: "status \<Rightarrow> status \<Rightarrow> bool" where
  "less_status s t \<longleftrightarrow> flowIndex s < flowIndex t"

lemma flowIndex_inj [simp]: "flowIndex s = flowIndex t \<longleftrightarrow> s = t"
  by (cases s; cases t) (simp_all add: flowIndex_def flowOrder_def)

instance
proof
  fix x y z :: status
  show "x < y \<longleftrightarrow> x \<le> y \<and> \<not> y \<le> x" by (auto simp: less_eq_status_def less_status_def)
  show "x \<le> x" by (simp add: less_eq_status_def)
  show "x \<le> y \<Longrightarrow> y \<le> z \<Longrightarrow> x \<le> z" by (simp add: less_eq_status_def)
  show "x \<le> y \<Longrightarrow> y \<le> x \<Longrightarrow> x = y" by (simp add: less_eq_status_def)
  show "x \<le> y \<or> y \<le> x" by (auto simp: less_eq_status_def)
qed

end

section \<open>What the filter leaves\<close>

lemma set_drop_role [simp]: "set (drop_role r roles) = set roles - {r}"
  by (auto simp: drop_role_def)

lemma set_if_drop:
  "set (if c then drop_role r roles else roles) = set roles - (if c then {r} else {})"
  "set (if c then drop_role q (drop_role r roles) else roles) = set roles - (if c then {r, q} else {})"
  by auto

text \<open>The filter as a set: the one fact the later proofs use.\<close>

lemma set_rolesUnderMode:
  "set (rolesUnderMode selfManage from to roles h) =
     (if selfManage then set roles
      else set roles - {''merchant''}
         - (if to = StPreparing \<or> (driverOnly to \<and> \<not> officeEndsAtDoor from to)
            then {''ops'', ''admin''} else {})
         - (if to = StCancelled \<and> afterHandoff from \<and> ''admin'' \<notin> set roles then {''ops''} else {}))"
proof (cases selfManage)
  case False
  have "goodsWithDriver from \<and> driverOnly to \<and> \<not> officeEndsAtDoor from to
      \<Longrightarrow> driverOnly to \<and> \<not> officeEndsAtDoor from to" by simp
  then show ?thesis
    unfolding rolesUnderMode_def Let_def set_if_drop if_not_P[OF False]
    by (auto simp only: split: if_splits)
qed (simp add: rolesUnderMode_def Let_def)

definition may_move :: "bool \<Rightarrow> kind \<Rightarrow> status \<Rightarrow> status \<Rightarrow> role list \<Rightarrow> bool" where
  "may_move selfManage k from to roles \<longleftrightarrow>
     canTransition k from to (rolesUnderMode selfManage from to roles True)"

lemma may_move_iff:
  "may_move m k from to roles \<longleftrightarrow>
     (\<exists>t\<in>set (transitionsFor k from). t_to t = to \<and>
        (''admin'' \<in> set (rolesUnderMode m from to roles True) \<or>
         (\<exists>r\<in>set (t_roles t). r \<in> set (rolesUnderMode m from to roles True))))"
  by (simp add: may_move_def canTransition_iff)

lemma rolesUnderMode_subset: "set (rolesUnderMode m from to roles h) \<subseteq> set roles"
  by (auto simp: set_rolesUnderMode)

lemma rolesUnderMode_self [simp]: "rolesUnderMode True from to roles h = roles"
  by (simp add: rolesUnderMode_def Let_def)

lemma machine_edges_set:
  "set machine_edges = {machine_edge_of k from t | k from t. t \<in> set (transitionsFor k from)}"
proof -
  have "set machine_kinds = UNIV" by (auto simp: machine_kinds_def intro: kind.exhaust)
  moreover have "set flowOrder = UNIV" by (auto simp: flowOrder_def intro: status.exhaust)
  ultimately show ?thesis by (auto simp: machine_edges_def)
qed

lemma in_effectiveRoles:
  "r \<in> set (effectiveRoles k from to m) \<longleftrightarrow> r \<in> set machineRoles \<and> may_move m k from to [r]"
  by (simp add: effectiveRoles_def may_move_def)

lemma may_move_narrows: "may_move False k from to roles \<Longrightarrow> may_move True k from to roles"
  unfolding may_move_def rolesUnderMode_self
  using canTransition_mono[OF rolesUnderMode_subset] by blast

section \<open>Properties\<close>

text \<open>
  In the platform mode the steps of the trip are the driver's alone: whoever moves an order to
  the pickup, takes the goods, sets off, reaches the door or delivers is a driver, and every move
  the filter lets through is one the status machine allows the same actor; whether a driver
  holds the order plays no part.
\<close>

theorem platform_trip_is_the_drivers:
  assumes "canTransition k from to (rolesUnderMode False from to roles driverHolds)"
  shows "canTransition k from to roles \<and>
         canTransition k from to (rolesUnderMode False from to roles (\<not> driverHolds)) \<and>
         (to \<in> {StAtPickup, StPickedUp, StOnTheWay, StAtDropoff, StDelivered} \<longrightarrow> ''driver'' \<in> set roles)"
proof (intro conjI impI)
  show "canTransition k from to roles"
    using canTransition_mono[OF rolesUnderMode_subset assms] .
  have "rolesUnderMode False from to roles (\<not> driverHolds) = rolesUnderMode False from to roles driverHolds"
    by (simp add: rolesUnderMode_def)
  with assms show "canTransition k from to (rolesUnderMode False from to roles (\<not> driverHolds))" by simp
next
  assume to: "to \<in> {StAtPickup, StPickedUp, StOnTheWay, StAtDropoff, StDelivered}"
  then have "''admin'' \<notin> set (rolesUnderMode False from to roles driverHolds)"
    and "''ops'' \<notin> set (rolesUnderMode False from to roles driverHolds)"
    by (auto simp: set_rolesUnderMode driverOnly_def officeEndsAtDoor_def)
  moreover obtain t r where "t \<in> set (transitionsFor k from)" "t_to t = to" "r \<in> set (t_roles t)"
      "r \<in> set (rolesUnderMode False from to roles driverHolds)"
    using assms calculation unfolding canTransition_iff by blast
  moreover have "set (t_roles t) \<subseteq> {''driver'', ''ops''}"
    if "t \<in> set (transitionsFor k from)" "t_to t = to" for t
    using that to by (cases k; cases "from") (auto simp: map_simps)
  ultimately have "r = ''driver''" by blast
  then show "''driver'' \<in> set roles"
    using \<open>r \<in> set (rolesUnderMode False from to roles driverHolds)\<close> rolesUnderMode_subset by blast
qed

lemma platform_trip_is_the_drivers_witness:
  "canTransition KindStandard StAtPickup StPickedUp [''driver'']"
proof -
  have "canTransition KindStandard StAtPickup StPickedUp
      (rolesUnderMode False StAtPickup StPickedUp [''driver''] True)" by code_simp
  from platform_trip_is_the_drivers[OF this] show ?thesis by blast
qed

text \<open>
  In the platform mode nobody but the admin cancels an order that has gone to the queue, with
  one exception: the customer of a custom order, while it is still in the queue. In particular the
  office cannot, whether or not a driver holds the order.
\<close>

theorem platform_cancel_after_handoff:
  assumes "afterHandoff from" and "''admin'' \<notin> set roles"
  shows "canTransition k from StCancelled (rolesUnderMode False from StCancelled roles driverHolds) \<longleftrightarrow>
         k = KindCustom \<and> from = StDispatching \<and> ''customer'' \<in> set roles"
proof -
  have roles: "set (rolesUnderMode False from StCancelled roles driverHolds)
      = set roles - {''merchant''} - {''ops''}"
    using assms by (auto simp: set_rolesUnderMode driverOnly_def)
  show ?thesis
    unfolding canTransition_iff roles using assms
    by (cases k; cases "from") (auto simp: map_simps afterHandoff_def)
qed

lemma platform_cancel_after_handoff_witness:
  "\<not> canTransition KindStandard StDispatching StCancelled
       (rolesUnderMode False StDispatching StCancelled [''ops''] False)"
  using platform_cancel_after_handoff[of StDispatching "[''ops'']" KindStandard False]
  by (simp add: afterHandoff_def)

text \<open>
  C3. The machine the code publishes is the machine it runs: its edges are exactly the moves of the
  status maps, each with the roles that may make it in either mode, the merchants' mode allowing
  all that the platform mode allows; and the one move nobody can make in the platform mode is
  accepted to preparing of a standard order.
\<close>

theorem published_machine_is_the_machine:
  "(\<forall>k from to. (\<exists>e\<in>set machine_edges. me_kind e = k \<and> me_from e = from \<and> me_to e = to) \<longleftrightarrow>
      has_edge k from to) \<and>
   (\<forall>e\<in>set machine_edges. \<forall>r. r \<in> set (me_platform e) \<longrightarrow>
      r \<in> set (me_merchants e) \<and> canTransition (me_kind e) (me_from e) (me_to e) [r]) \<and>
   (\<forall>e\<in>set machine_edges. me_nobody e \<longleftrightarrow>
      me_kind e = KindStandard \<and> me_from e = StAccepted \<and> me_to e = StPreparing)"
proof (intro conjI allI ballI impI)
  fix k "from" to
  show "(\<exists>e\<in>set machine_edges. me_kind e = k \<and> me_from e = from \<and> me_to e = to) \<longleftrightarrow> has_edge k from to"
    by (fastforce simp: machine_edges_set machine_edge_of_def has_edge_def list_ex_iff)
next
  fix e r assume e: "e \<in> set machine_edges" and r: "r \<in> set (me_platform e)"
  then show "r \<in> set (me_merchants e)"
    by (auto simp: machine_edges_set machine_edge_of_def in_effectiveRoles dest: may_move_narrows)
  from e r show "canTransition (me_kind e) (me_from e) (me_to e) [r]"
    using may_move_narrows unfolding may_move_def
    by (fastforce simp: machine_edges_set machine_edge_of_def in_effectiveRoles may_move_def)
next
  have "list_all (\<lambda>e. me_nobody e \<longleftrightarrow>
      me_kind e = KindStandard \<and> me_from e = StAccepted \<and> me_to e = StPreparing) machine_edges"
    by code_simp
  then show "me_nobody e \<longleftrightarrow> me_kind e = KindStandard \<and> me_from e = StAccepted \<and> me_to e = StPreparing"
    if "e \<in> set machine_edges" for e
    using that by (simp only: list_all_iff)
qed

lemma published_machine_is_the_machine_witness:
  "\<exists>e\<in>set machine_edges. me_kind e = KindCustom \<and> me_from e = StAssigned \<and> me_to e = StPickedUp"
proof -
  have "has_edge KindCustom StAssigned StPickedUp" by simp
  then show ?thesis by (rule published_machine_is_the_machine[THEN conjunct1, rule_format, THEN iffD2])
qed

end
