(* ===== verification/Parts.thy ===== *)
theory Parts
  imports Order_Frame Modes
begin

text \<open>
  The parts of an order of several stores and their gates in front of a move of the order
  (\<open>orders/parts_engine.go\<close>, the first half of \<open>orders/parts_stops.go\<close>), with the tables
  the moves write beside the money: events, promo codes and warnings. The \<open>updated_at\<close> columns
  are left out, times are whole seconds, and Arabic notes are represented by the event they tell.
\<close>

section \<open>Tables\<close>

record order_event =
  ev_order :: string
  ev_from :: status
  ev_to :: status
  ev_actor :: "user_id option"
  ev_note :: string
  ev_driver :: "user_id option"
  ev_merchant :: "string option"

record promo_code =
  pc_code :: string
  pc_kind :: string
  pc_value :: int
  pc_max :: "int option"
  pc_used :: int

record campaign =
  ca_id :: string
  ca_active :: bool
  ca_starts :: int
  ca_ends :: int
  ca_kinds :: "string list"
  ca_max :: "int option"
  ca_created :: int

text \<open>A zone is a circle or an area; areas are the names the geometry is asked about.\<close>

record zone =
  zn_id :: string
  zn_active :: bool
  zn_shape :: string
  zn_center :: "point option"
  zn_radius :: int
  zn_area :: "string option"

record engine_db = money_db +
  order_events :: "order_event list"
  promo_codes :: "promo_code list"
  promo_redemptions :: "string list"
  late_warnings :: "(user_id \<times> string) list"
  campaigns :: "campaign list"
  menu_items :: "(string \<times> string) list"
  delivery_zones :: "zone list"

record locked_order =
  lo_id :: string
  lo_from :: status
  lo_driver :: "user_id option"
  lo_wallet_paid :: int
  lo_cash_due :: int
  lo_fee :: int
  lo_reserved :: int
  lo_customer :: user_id
  lo_promo :: string
  lo_kind :: kind
  lo_origin :: string
  lo_stops :: int

record transition_req =
  rq_actor :: user_id
  rq_roles :: "role list"
  rq_to :: status
  rq_note :: string
  rq_reason :: string
  rq_fault :: string
  rq_from_parts :: bool
  rq_handover :: bool

definition ErrBadTransition :: err where "ErrBadTransition = AppError ''invalid_transition''"
definition ErrUsePart :: err where "ErrUsePart = AppError ''use_part''"
definition ErrPartsPending :: err where "ErrPartsPending = AppError ''parts_pending''"
definition ErrPartNotReady :: err where "ErrPartNotReady = ErrMsg ''part not ready''"
definition ErrStopsInHand :: err where "ErrStopsInHand = AppError ''stops_in_hand''"
definition ErrStopNotArrived :: err where "ErrStopNotArrived = AppError ''stop_not_arrived''"
definition ErrStopNotLive :: err where "ErrStopNotLive = AppError ''stop_not_live''"
definition ErrStopRequired :: err where "ErrStopRequired = AppError ''update_required''"

definition PartPending :: string where "PartPending = ''pending''"
definition PartAccepted :: string where "PartAccepted = ''accepted''"
definition PartRejected :: string where "PartRejected = ''rejected''"
definition PartRemoved :: string where "PartRemoved = ''removed''"
definition PartPickedUp :: string where "PartPickedUp = ''picked_up''"

lemmas part_status_defs = PartPending_def PartAccepted_def PartRejected_def PartRemoved_def PartPickedUp_def

definition partsAnsweredNote :: string where "partsAnsweredNote = ''every store answered''"
definition allPartsRejectedReason :: string where "allPartsRejectedReason = ''nothing available''"

definition lockOrderTx :: "string \<Rightarrow> 'a orders_db_scheme \<Rightarrow> err + locked_order" where
  "lockOrderTx ord db =
    (case order_of db ord of
       None \<Rightarrow> Inl ErrNotFound
     | Some x \<Rightarrow> Inr \<lparr>lo_id = ord, lo_from = o_status x, lo_driver = o_driver x, lo_wallet_paid = o_wallet_paid x,
         lo_cash_due = o_cash_due x, lo_fee = o_driver_fee x, lo_reserved = o_custom_reserved x,
         lo_customer = o_customer x, lo_promo = o_promo_code x, lo_kind = o_kind x, lo_origin = o_origin x,
         lo_stops = o_stops x\<rparr>)"

definition add_event :: "order_event \<Rightarrow> 'a engine_db_scheme \<Rightarrow> 'a engine_db_scheme" where
  "add_event e db = db\<lparr>order_events := order_events db @ [e]\<rparr>"

section \<open>Reading the parts\<close>

definition parts_of :: "'a money_db_scheme \<Rightarrow> string \<Rightarrow> order_part list" where
  "parts_of db ord = [p \<leftarrow> order_parts db. pa_order p = ord]"

definition part_live :: "order_part \<Rightarrow> bool" where
  "part_live p \<longleftrightarrow> pa_status p = PartAccepted \<or> pa_status p = PartPickedUp"

definition partStoresOf :: "'a money_db_scheme \<Rightarrow> string \<Rightarrow> string list" where
  "partStoresOf db ord = map pa_merchant (sort_key pa_seq (parts_of db ord))"

text \<open>How many parts wait for an answer, and how many are live.\<close>

definition partCountsTx :: "'a money_db_scheme \<Rightarrow> string \<Rightarrow> nat \<times> nat" where
  "partCountsTx db ord =
    (length [p \<leftarrow> parts_of db ord. pa_status p = PartPending], length [p \<leftarrow> parts_of db ord. part_live p])"

definition partRole :: "user_id \<Rightarrow> role \<Rightarrow> string" where
  "partRole actor r =
    (if actor = '''' then ''system'' else if r = ''merchant'' \<or> r = ''ops'' \<or> r = ''admin'' then r else ''ops'')"

text \<open>An event of a part: the order's status on both sides, and the store.\<close>

definition partEventTx ::
  "string \<Rightarrow> status \<Rightarrow> user_id \<Rightarrow> string \<Rightarrow> user_id option \<Rightarrow> string \<Rightarrow> 'a engine_db_scheme \<Rightarrow> 'a engine_db_scheme" where
  "partEventTx ord st actor nt driver m =
     add_event \<lparr>ev_order = ord, ev_from = st, ev_to = st, ev_actor = opt_actor actor, ev_note = nt, ev_driver = driver,
       ev_merchant = Some m\<rparr>"

definition update_parts :: "(order_part \<Rightarrow> bool) \<Rightarrow> (order_part \<Rightarrow> order_part) \<Rightarrow> 'a money_db_scheme \<Rightarrow> 'a money_db_scheme" where
  "update_parts P f db = db\<lparr>order_parts := map (\<lambda>p. if P p then f p else p) (order_parts db)\<rparr>"

section \<open>Answering\<close>

text \<open>The preparation time of an accepted part, between 0 and 600 minutes; the store's own when none is given.\<close>

definition answer_prep :: "int option \<Rightarrow> int option \<Rightarrow> int" where
  "answer_prep prep own = min (max (case prep of Some p \<Rightarrow> p | None \<Rightarrow> (case own of Some p \<Rightarrow> p | None \<Rightarrow> 0)) 0) 600"

definition answerPartsTx ::
  "locked_order \<Rightarrow> string list \<Rightarrow> user_id \<Rightarrow> string \<Rightarrow> bool \<Rightarrow> int option \<Rightarrow> string \<Rightarrow> string list \<Rightarrow>
     'a engine_db_scheme \<Rightarrow> (string \<times> string) list \<times> 'a engine_db_scheme" where
  "answerPartsTx lo stores actor r accept prep reason from_sts db =
    (let hit = (\<lambda>p. pa_order p = lo_id lo \<and> merchant_of db (pa_merchant p) \<noteq> None \<and> pa_status p \<in> set from_sts \<and>
                   (stores = [] \<or> pa_merchant p \<in> set stores));
         own = (\<lambda>p. case merchant_of db (pa_merchant p) of None \<Rightarrow> None | Some m \<Rightarrow> m_prep m);
         refs = map (\<lambda>p. (pa_merchant p, case merchant_of db (pa_merchant p) of None \<Rightarrow> '''' | Some m \<Rightarrow> m_name m))
           (sort_key pa_seq [p \<leftarrow> order_parts db. hit p]);
         db1 = update_parts hit (\<lambda>p.
           if accept then p\<lparr>pa_status := PartAccepted, pa_answered := Some (db_now db), pa_answered_by := opt_actor actor,
             pa_role := r, pa_prep := Some (answer_prep prep (own p))\<rparr>
           else p\<lparr>pa_status := PartRejected, pa_answered := Some (db_now db), pa_answered_by := opt_actor actor,
             pa_role := r, pa_reason := reason\<rparr>) db
     in (refs, foldl (\<lambda>d (m, name). partEventTx (lo_id lo) (lo_from lo) actor
           ((if accept then ''accepted by '' else ''rejected by '') @ name) (lo_driver lo) m d) db1 refs))"

section \<open>The gates of a move\<close>

text \<open>The move that is made, and its note: accepting an order no store of which is left is rejecting it.\<close>

definition partGatesTx ::
  "locked_order \<Rightarrow> user_id \<Rightarrow> status \<Rightarrow> string \<Rightarrow> role \<Rightarrow> 'a engine_db_scheme \<Rightarrow>
     err + (status \<times> string) \<times> 'a engine_db_scheme" where
  "partGatesTx lo actor to nt endedBy db =
    (if lo_from lo = StPending \<and> (to = StAccepted \<or> to = StRejected) then
       (if endedBy = ''merchant'' then Inl ErrUsePart
        else let (pending, live) = partCountsTx db (lo_id lo); r = partRole actor endedBy
             in if to = StAccepted \<and> pending + live \<noteq> 0 then
                  Inr ((to, nt), snd (answerPartsTx lo [] actor r True None '''' [PartPending] db))
                else let (to, nt) = (if to = StAccepted then (StRejected, allPartsRejectedReason) else (to, nt));
                         reason = (if TrimSpace nt = '''' then allPartsRejectedReason else TrimSpace nt)
                     in Inr ((to, nt), snd (answerPartsTx lo [] actor r False None reason [PartPending, PartAccepted] db)))
     else if to = StCancelled \<and> endedBy = ''merchant'' then Inl ErrUsePart
     else if to = StDispatching \<and> (lo_from lo = StAccepted \<or> lo_from lo = StPreparing) then
       (if fst (partCountsTx db (lo_id lo)) > 0 then Inl ErrPartsPending else Inr ((to, nt), db))
     else Inr ((to, nt), db))"

text \<open>The preparation time of the order is that of its slowest live part, rounded up; \<open>GREATEST\<close> makes it 0 when there is none.\<close>

definition partsPrepTx :: "string \<Rightarrow> 'a money_db_scheme \<Rightarrow> 'a money_db_scheme" where
  "partsPrepTx ord db =
    (let ends = concat (map (\<lambda>p. case pa_answered p of None \<Rightarrow> []
           | Some t \<Rightarrow> [t + 60 * (case pa_prep p of None \<Rightarrow> 0 | Some m \<Rightarrow> m)]) [p \<leftarrow> parts_of db ord. part_live p]);
         prep = (if ends = [] then 0 else max 0 ((Max (set ends) - db_now db + 59) div 60))
     in update_order ord (\<lambda>x. x\<lparr>o_prep_minutes := Some prep\<rparr>) db)"

text \<open>When every live part is ready (or told): the time kept, the latest of the parts', or now.\<close>

definition parts_time :: "int \<Rightarrow> order_part list \<Rightarrow> (order_part \<Rightarrow> int option) \<Rightarrow> int option \<Rightarrow> int option" where
  "parts_time now ps col kept =
    (if list_ex part_live ps \<and> \<not> list_ex (\<lambda>p. pa_status p = PartPending \<or> pa_status p = PartAccepted \<and> col p = None) ps
     then (case kept of Some t \<Rightarrow> Some t
           | None \<Rightarrow> (let ts = concat (map (\<lambda>p. case col p of None \<Rightarrow> [] | Some t \<Rightarrow> [t]) (filter part_live ps))
                      in Some (if ts = [] then now else Max (set ts))))
     else None)"

definition syncPartFieldsTx :: "string \<Rightarrow> 'a money_db_scheme \<Rightarrow> 'a money_db_scheme" where
  "syncPartFieldsTx ord db =
     update_order ord (\<lambda>x. if o_stops x > 1
       then x\<lparr>o_ready_at := parts_time (db_now db) (parts_of db ord) pa_ready (o_ready_at x),
              o_sent_at := parts_time (db_now db) (parts_of db ord) pa_sent (o_sent_at x)\<rparr>
       else x) db"

definition first_answered :: "'a money_db_scheme \<Rightarrow> string \<Rightarrow> int option" where
  "first_answered db ord =
    (let ts = concat (map (\<lambda>p. case pa_answered p of None \<Rightarrow> [] | Some t \<Rightarrow> [t]) [p \<leftarrow> parts_of db ord. part_live p])
     in if ts = [] then None else Some (Min (set ts)))"

definition partCancelWithinWindowTx :: "'a money_db_scheme \<Rightarrow> string \<Rightarrow> int \<Rightarrow> bool" where
  "partCancelWithinWindowTx db ord window =
    (case first_answered db ord of None \<Rightarrow> True | Some t \<Rightarrow> t > db_now db - window)"

definition goodsInHandTx :: "'a money_db_scheme \<Rightarrow> string \<Rightarrow> err + bool" where
  "goodsInHandTx db ord =
    (case order_of db ord of
       None \<Rightarrow> Inl ErrNotFound
     | Some x \<Rightarrow> Inr (o_status x \<in> {StPickedUp, StOnTheWay, StAtDropoff} \<or>
         o_stops x > 1 \<and> o_driver x \<noteq> None \<and>
         list_ex (\<lambda>p. pa_status p = PartPickedUp \<and> pa_picked_by p = o_driver x) (parts_of db ord)))"

definition stopCollectedAnyTx :: "'a money_db_scheme \<Rightarrow> string \<Rightarrow> bool" where
  "stopCollectedAnyTx db ord = list_ex (\<lambda>p. pa_status p = PartPickedUp) (parts_of db ord)"

definition stopGatesTx :: "locked_order \<Rightarrow> transition_req \<Rightarrow> status \<Rightarrow> 'a money_db_scheme \<Rightarrow> err + unit" where
  "stopGatesTx lo req to db =
    (if \<not> rq_from_parts req \<and> (to = StAtPickup \<or> to = StPickedUp) \<and> ''driver'' \<in> set (rq_roles req) \<and>
        ''ops'' \<notin> set (rq_roles req) \<and> ''admin'' \<notin> set (rq_roles req) then Inl ErrStopRequired
     else bindE (if lo_from lo \<in> {StDispatching, StAssigned, StAtPickup} \<and> to \<in> {StDispatching, StFailed, StCancelled} then
                   bindE (goodsInHandTx db (lo_id lo)) (\<lambda>inHand.
                   if inHand \<and> \<not> (rq_handover req \<and> to = StDispatching) then Inl ErrStopsInHand
                   else if to \<noteq> StDispatching \<and> stopCollectedAnyTx db (lo_id lo) then Inl ErrStopsInHand
                   else Inr ())
                 else Inr ()) (\<lambda>_.
          if lo_from lo = StAtPickup \<and> to = StFailed \<and>
             length [p \<leftarrow> parts_of db (lo_id lo). pa_status p = PartPending \<or> part_live p] > 1
          then Inl ErrUsePart else Inr ()))"

definition stopsAfterTransitionTx :: "string \<Rightarrow> status \<Rightarrow> 'a money_db_scheme \<Rightarrow> 'a money_db_scheme" where
  "stopsAfterTransitionTx ord to db =
    (if to \<noteq> StDispatching then db else update_parts (\<lambda>p. pa_order p = ord) (\<lambda>p. p\<lparr>pa_arrived := None\<rparr>) db)"

end
