(* ===== verification/Engine.thy ===== *)
theory Engine
  imports Parts
begin

text \<open>
  One move of an order (\<open>applyTransitionTx\<close> of \<open>orders/transitions.go\<close>, with \<open>fetch_amount.go\<close>,
  \<open>delivery_code.go\<close> and \<open>merchant_late_cancel.go\<close>): the roles that count, the gates, the columns written,
  the event, the money and the delivery code. The settings, the readiness of the notifier and of WhatsApp, the
  random delivery code, the parser of identifiers, whether there is a cash box, and the geometry of PostGIS (the distance of two points,
  whether an area covers a point) are the \<open>env\<close>; the hook of the caller is an argument.
\<close>

record env =
  en_settings :: "store option"
  en_whatsapp :: bool
  en_notify :: bool
  en_code :: "err + string"
  en_uuid :: "string \<Rightarrow> bool"
  en_distance :: "point \<Rightarrow> point \<Rightarrow> rat"
  en_covers :: "string \<Rightarrow> point \<Rightarrow> bool"
  en_cashbox :: bool

text \<open>The defaults of \<open>settings/catalog.go\<close>, when there is no store of settings.\<close>

definition settings_Default :: "string \<Rightarrow> int" where
  "settings_Default key =
    (case map_of [(''drivers.cash_limit'', 5000), (''drivers.max_active_orders'', 1), (''drivers.same_route_extra'', 1),
        (''drivers.same_route_radius_m'', 800), (''drivers.same_route_spread_m'', 2000), (''drivers.location_fresh_sec'', 300),
        (''drivers.dispatch_radius_initial_m'', 3000), (''drivers.dispatch_radius_step_m'', 2000),
        (''drivers.dispatch_radius_max_m'', 15000), (''drivers.proximity_bucket_m'', 1000), (''drivers.offer_timeout_sec'', 60),
        (''drivers.assigned_silence_sec'', 180), (''drivers.same_customer_weekly_max'', 3), (''orders.source_proximity_m'', 1000),
        (''orders.source_far_m'', 3000)] key of None \<Rightarrow> 0 | Some n \<Rightarrow> n)"

definition settingInt :: "env \<Rightarrow> string \<Rightarrow> int" where
  "settingInt env key = (case en_settings env of None \<Rightarrow> settings_Default key | Some s \<Rightarrow> getInt s key)"

definition setting :: "env \<Rightarrow> string \<Rightarrow> bool" where
  "setting env key = (case en_settings env of None \<Rightarrow> False | Some s \<Rightarrow> getBool s key)"

definition self_manage :: "env \<Rightarrow> bool" where
  "self_manage env = MerchantsSelfManage (map_option getString (en_settings env))"

definition cancelWindowSec :: "env \<Rightarrow> int" where
  "cancelWindowSec env = (case en_settings env of None \<Rightarrow> 120 | Some s \<Rightarrow> getInt s ''orders.customer_cancel_window_sec'')"

definition ErrNeedsDriver :: err where "ErrNeedsDriver = AppError ''driver_required''"
definition ErrCancelWindowPassed :: err where "ErrCancelWindowPassed = AppError ''cancel_window_passed''"
definition ErrFailReasonStage :: err where "ErrFailReasonStage = AppError ''fail_reason_wrong_stage''"
definition ErrDoorNeedsOps :: err where "ErrDoorNeedsOps = AppError ''door_needs_ops''"
definition ErrCustomNotAgreed :: err where "ErrCustomNotAgreed = AppError ''custom_not_agreed''"
definition ErrGoodsPending :: err where "ErrGoodsPending = AppError ''goods_pending''"
definition ErrQuoteNotConfirmed :: err where "ErrQuoteNotConfirmed = AppError ''quote_not_confirmed''"
definition ErrQuoteReconfirmPending :: err where "ErrQuoteReconfirmPending = AppError ''quote_reconfirm_pending''"
definition ErrFetchAmountNotApproved :: err where "ErrFetchAmountNotApproved = AppError ''fetch_amount_not_approved''"

section \<open>The roles and the gates\<close>

definition effective_roles :: "env \<Rightarrow> locked_order \<Rightarrow> transition_req \<Rightarrow> role list" where
  "effective_roles env lo req =
    (let roles = rq_roles req; to = rq_to req;
         eff = rolesUnderMode (self_manage env) (lo_from lo) to roles (lo_driver lo \<noteq> None);
         eff = (if lo_kind lo = KindMerchantDelivery \<and> to = StCancelled \<and> ''merchant'' \<in> set roles \<and> ''merchant'' \<notin> set eff
                then eff @ [''merchant''] else eff)
     in if lo_origin lo = OriginWhatsApp \<and> to = StCancelled \<and> \<not> pastPickup (lo_from lo) \<and> ''ops'' \<in> set roles \<and> ''ops'' \<notin> set eff
        then eff @ [''ops''] else eff)"

definition FetchAmountBlocks :: "string \<Rightarrow> bool \<Rightarrow> string \<Rightarrow> bool" where
  "FetchAmountBlocks mode hasEstimate st =
    (if mode \<noteq> DeliveryModeFetch then False
     else if st = ''approved'' then False
     else if st = ''pending'' \<or> st = ''rejected'' then True
     else hasEstimate)"

definition requireFetchAmountApproved :: "'a orders_db_scheme \<Rightarrow> string \<Rightarrow> err + unit" where
  "requireFetchAmountApproved db ord =
    (case order_of db ord of
       None \<Rightarrow> Inl ErrNoRows
     | Some x \<Rightarrow>
         if FetchAmountBlocks (o_delivery_mode x) (o_collect_amount x \<noteq> None)
              (case o_fetch_status x of None \<Rightarrow> '''' | Some s \<Rightarrow> s)
         then Inl ErrFetchAmountNotApproved else Inr ())"

text \<open>What a custom order needs before its goods are picked up, and before it is delivered.\<close>

definition custom_pickup_gate :: "'a orders_db_scheme \<Rightarrow> string \<Rightarrow> err + unit" where
  "custom_pickup_gate db ord =
    (case order_of db ord of
       None \<Rightarrow> Inl ErrNoRows
     | Some x \<Rightarrow>
         if o_agreed_at x = None then Inl ErrCustomNotAgreed
         else if o_goods_pending x then Inl ErrGoodsPending
         else if o_quote_confirmed x \<noteq> Some (o_quote_version x) then Inl ErrQuoteNotConfirmed
         else Inr ())"

definition custom_delivery_gate :: "'a orders_db_scheme \<Rightarrow> string \<Rightarrow> err + unit" where
  "custom_delivery_gate db ord =
    (case order_of db ord of
       None \<Rightarrow> Inl ErrNoRows
     | Some x \<Rightarrow>
         if o_quote_confirmed x \<noteq> None \<and> o_quote_confirmed x \<noteq> Some (o_quote_version x)
         then Inl ErrQuoteReconfirmPending else Inr ())"

definition fail_gate :: "status \<Rightarrow> status \<Rightarrow> string \<Rightarrow> string \<Rightarrow> err + unit" where
  "fail_gate from_st to fault reason =
    (if to = StFailed \<and> OfficeDecides from_st \<and> fault = '''' then Inl ErrDoorNeedsOps
     else if fault \<noteq> '''' then
       (if \<not> IsFault fault \<or> to \<noteq> StFailed then Inl ErrBadTransition
        else if reason \<noteq> '''' \<and> \<not> OfficeReasonAt reason from_st then Inl ErrFailReasonStage
        else Inr ())
     else if to = StFailed \<and> reason \<noteq> '''' \<and> failReasonAt reason from_st = None then Inl ErrFailReasonStage
     else Inr ())"

text \<open>The gates after those of the parts, in the order of the code.\<close>

definition move_gates :: "locked_order \<Rightarrow> transition_req \<Rightarrow> status \<Rightarrow> 'a money_db_scheme \<Rightarrow> err + unit" where
  "move_gates lo req to db =
     bindE (if (to = StAtPickup \<or> to = StPickedUp) \<and> lo_driver lo = None then Inl ErrNeedsDriver else Inr ()) (\<lambda>_.
     bindE (if lo_kind lo = KindCustom \<and> to = StPickedUp then custom_pickup_gate db (lo_id lo) else Inr ()) (\<lambda>_.
     bindE (if lo_kind lo = KindMerchantDelivery \<and> to = StPickedUp then requireFetchAmountApproved db (lo_id lo) else Inr ()) (\<lambda>_.
     bindE (if lo_kind lo = KindCustom \<and> to = StDelivered then custom_delivery_gate db (lo_id lo) else Inr ()) (\<lambda>_.
     fail_gate (lo_from lo) to (rq_fault req) (rq_reason req)))))"

section \<open>The row of the order\<close>

text \<open>The columns of the UPDATE, each from the status entered or left.\<close>

definition move_row :: "'a obligations_db_scheme \<Rightarrow> status \<Rightarrow> status \<Rightarrow> string \<Rightarrow> order \<Rightarrow> order" where
  "move_row db from_st to nt x =
    (let now = db_now db;
         x = x\<lparr>o_status := to\<rparr>;
         x = (if to = StAccepted then x\<lparr>o_accepted_at := Some now, o_prep_minutes := (case o_prep_minutes x of
                   Some p \<Rightarrow> Some p
                 | None \<Rightarrow> (case o_merchant x of None \<Rightarrow> None
                     | Some m \<Rightarrow> (case merchant_of db m of None \<Rightarrow> None | Some row \<Rightarrow> m_prep row)))\<rparr>
              else if to = StPickedUp then x\<lparr>o_picked_up_at := Some now\<rparr>
              else if to = StDelivered then x\<lparr>o_delivered_at := Some now, o_closed_at := Some now\<rparr>
              else if to = StDispatching then
                (if from_st \<noteq> StPreparing \<and> from_st \<noteq> StAccepted then x\<lparr>o_dispatched_at := Some now, o_driver := None\<rparr>
                 else x\<lparr>o_dispatched_at := Some now\<rparr>)
              else x);
         x = (if to \<noteq> from_st then x\<lparr>o_door_instruction := None\<rparr> else x)
     in if terminal to \<and> to \<noteq> StDelivered then x\<lparr>o_closed_at := Some now, o_cancel_reason := Some nt\<rparr> else x)"

definition nullif :: "string \<Rightarrow> string option" where
  "nullif s = (if s = '''' then None else Some s)"

text \<open>The fault and the reason of a failure, and who ended the order.\<close>

definition end_row :: "status \<Rightarrow> string \<Rightarrow> string \<Rightarrow> string \<Rightarrow> role \<Rightarrow> order \<Rightarrow> order" where
  "end_row to reason fault effFault endedBy x =
    (let x = (if to = StFailed \<and> (reason \<noteq> '''' \<or> fault \<noteq> '''')
              then x\<lparr>o_fail_reason := nullif reason, o_fault := nullif effFault\<rparr> else x)
     in if terminal to \<and> endedBy \<noteq> '''' then x\<lparr>o_ended_by := Some endedBy\<rparr> else x)"

definition return_promo :: "string \<Rightarrow> string \<Rightarrow> 'a engine_db_scheme \<Rightarrow> 'a engine_db_scheme" where
  "return_promo ord code db =
     db\<lparr>promo_codes := map (\<lambda>c. if EqualFold (pc_code c) code then c\<lparr>pc_used := max (pc_used c - 1) 0\<rparr> else c) (promo_codes db),
        promo_redemptions := [r \<leftarrow> promo_redemptions db. r \<noteq> ord]\<rparr>"

definition MerchantLateCancelNote :: string where "MerchantLateCancelNote = ''late cancel''"

definition markMerchantLateCancel ::
  "string \<Rightarrow> user_id option \<Rightarrow> user_id option \<Rightarrow> 'a engine_db_scheme \<Rightarrow> err + 'a engine_db_scheme" where
  "markMerchantLateCancel ord actor driver db =
    (let db = add_event \<lparr>ev_order = ord, ev_from = StCancelled, ev_to = StCancelled, ev_actor = actor,
                ev_note = MerchantLateCancelNote, ev_driver = driver, ev_merchant = None\<rparr> db
     in case order_of db ord of
          None \<Rightarrow> Inl ErrNoRows
        | Some x \<Rightarrow> (case o_merchant x of
            None \<Rightarrow> Inl ErrNoRows
          | Some m \<Rightarrow> (case merchant_of db m of
              None \<Rightarrow> Inl ErrNoRows
            | Some row \<Rightarrow>
                let owner = (case m_owner row of None \<Rightarrow> '''' | Some u \<Rightarrow> u)
                in Inr (if owner = '''' then db else db\<lparr>late_warnings := late_warnings db @ [(owner, ord)]\<rparr>))))"

section \<open>The window of the customer\<close>

definition customer_alone :: "role list \<Rightarrow> bool" where
  "customer_alone roles \<longleftrightarrow> ''customer'' \<in> set roles \<and> ''ops'' \<notin> set roles \<and> ''admin'' \<notin> set roles"

definition cancel_window_gate :: "env \<Rightarrow> locked_order \<Rightarrow> role list \<Rightarrow> status \<Rightarrow> 'a money_db_scheme \<Rightarrow> err + unit" where
  "cancel_window_gate env lo roles to db =
     bindE (if to = StCancelled \<and> lo_from lo = StAccepted \<and> customer_alone roles then
              (if lo_stops lo > 1 then
                 (if partCancelWithinWindowTx db (lo_id lo) (cancelWindowSec env) then Inr () else Inl ErrCancelWindowPassed)
               else (case order_of db (lo_id lo) of
                       None \<Rightarrow> Inl ErrNoRows
                     | Some x \<Rightarrow> (case o_accepted_at x of
                         None \<Rightarrow> Inl ErrCancelWindowPassed
                       | Some t \<Rightarrow> if t > db_now db - cancelWindowSec env then Inr () else Inl ErrCancelWindowPassed)))
            else Inr ()) (\<lambda>_.
     if lo_stops lo > 1 \<and> to = StCancelled \<and> lo_from lo = StPending \<and> customer_alone roles \<and>
        \<not> partCancelWithinWindowTx db (lo_id lo) (cancelWindowSec env)
     then Inl ErrCancelWindowPassed else Inr ())"

section \<open>The delivery code\<close>

record code_route =
  rt_code :: string
  rt_number :: int
  rt_app :: string
  rt_phone :: string
  rt_sms :: string
  rt_merchant :: string

definition set_code :: "string \<Rightarrow> string option \<Rightarrow> 'a orders_db_scheme \<Rightarrow> 'a orders_db_scheme" where
  "set_code ord c = update_order ord (\<lambda>x. x\<lparr>o_code := c, o_code_attempts := 0\<rparr>)"

definition issueDeliveryCode ::
  "env \<Rightarrow> string \<Rightarrow> kind \<Rightarrow> user_id \<Rightarrow> 'a obligations_db_scheme \<Rightarrow> err + code_route option \<times> 'a obligations_db_scheme" where
  "issueDeliveryCode env ord k customer db =
    (case en_settings env of
       None \<Rightarrow> Inl (ErrMsg ''no settings'')
     | Some s \<Rightarrow>
         if \<not> getBool s ''delivery.code_required'' then Inr (None, set_code ord None db)
         else let channel = getString s ''delivery.code_channel'';
                  allowApp = (channel \<noteq> ''whatsapp''); allowWA = (channel \<noteq> ''app'')
              in (case order_of db ord of
                    None \<Rightarrow> Inl ErrNoRows
                  | Some x \<Rightarrow>
                      let custPhone = (case find (\<lambda>u. u_id u = o_customer x) (users db) of None \<Rightarrow> '''' | Some u \<Rightarrow> u_phone u);
                          recipPhone = (case o_recipient_phone x of None \<Rightarrow> '''' | Some p \<Rightarrow> p);
                          owner = (case (case o_merchant x of None \<Rightarrow> None | Some m \<Rightarrow> merchant_of db m) of
                                     None \<Rightarrow> '''' | Some row \<Rightarrow> (case m_owner row of None \<Rightarrow> '''' | Some u \<Rightarrow> u));
                          rt = \<lparr>rt_code = '''', rt_number = o_number x, rt_app = '''', rt_phone = '''', rt_sms = '''', rt_merchant = ''''\<rparr>
                      in if k = KindMerchantDelivery \<and> o_delivery_mode x = DeliveryModeFetch then
                           (if owner = '''' then Inr (None, set_code ord None db)
                            else bindE (en_code env) (\<lambda>code.
                                 Inr (Some (rt\<lparr>rt_merchant := owner, rt_code := code\<rparr>), set_code ord (Some code) db)))
                         else let waReady = allowWA \<and> en_whatsapp env;
                                  rt = (if k = KindMerchantDelivery
                                        then rt\<lparr>rt_sms := recipPhone, rt_phone := (if waReady then recipPhone else '''')\<rparr>
                                        else rt\<lparr>rt_sms := custPhone, rt_app := (if allowApp \<and> en_notify env then customer else ''''),
                                               rt_phone := (if waReady then custPhone else '''')\<rparr>)
                              in if rt_app rt = '''' \<and> rt_phone rt = '''' \<and> (rt_sms rt = '''' \<or> \<not> en_notify env)
                                 then Inr (None, set_code ord None db)
                                 else bindE (en_code env) (\<lambda>code.
                                      Inr (Some (rt\<lparr>rt_code := code\<rparr>), set_code ord (Some code) db))))"

section \<open>A move\<close>

record applied =
  ap_lo :: locked_order
  ap_to :: status
  ap_note :: string
  ap_ended_by :: role
  ap_fault :: string
  ap_done :: settled
  ap_code :: "code_route option"
  ap_late :: bool
  ap_blocked :: bool

text \<open>The move that is made after the gates of the parts, with its note and who ends the order by it.\<close>

definition part_gate ::
  "locked_order \<Rightarrow> transition_req \<Rightarrow> role list \<Rightarrow> 'a engine_db_scheme \<Rightarrow> err + (status \<times> string \<times> role) \<times> 'a engine_db_scheme" where
  "part_gate lo req eff db =
    (let endedBy = authorizingRole (lo_kind lo) (lo_from lo) (rq_to req) eff
     in if lo_stops lo > 1 \<and> \<not> rq_from_parts req
        then bindE (partGatesTx lo (rq_actor req) (rq_to req) (rq_note req) endedBy db) (\<lambda>((to, nt), db).
             if to \<noteq> rq_to req then Inr ((to, nt, authorizingRole (lo_kind lo) (lo_from lo) to eff), db)
             else Inr ((rq_to req, rq_note req, endedBy), db))
        else Inr ((rq_to req, rq_note req, endedBy), db))"

text \<open>What is written to the order, its parts, its events and its promotion.\<close>

definition write_move ::
  "locked_order \<Rightarrow> transition_req \<Rightarrow> status \<Rightarrow> string \<Rightarrow> role \<Rightarrow> 'a engine_db_scheme \<Rightarrow> err + 'a engine_db_scheme" where
  "write_move lo req to nt endedBy db =
    (let ord = lo_id lo; multi = (lo_stops lo > 1);
         db = (if multi \<and> to = StAccepted then partsPrepTx ord db else db);
         db = update_order ord (move_row db (lo_from lo) to nt) db;
         db = (if multi then stopsAfterTransitionTx ord to (syncPartFieldsTx ord db) else db);
         effFault = (if rq_fault req = '''' then FaultOf (rq_reason req) else rq_fault req);
         db = update_order ord (end_row to (rq_reason req) (rq_fault req) effFault endedBy) db;
         db = add_event \<lparr>ev_order = ord, ev_from = lo_from lo, ev_to = to, ev_actor = opt_actor (rq_actor req), ev_note = nt,
                ev_driver = lo_driver lo, ev_merchant = None\<rparr> db
     in bindE (if lo_kind lo = KindMerchantDelivery \<and> to = StCancelled \<and> lo_from lo = StAtPickup \<and> endedBy = ''merchant''
               then markMerchantLateCancel ord (opt_actor (rq_actor req)) (lo_driver lo) db else Inr db) (\<lambda>db.
        Inr (if to \<in> {StCancelled, StRejected, StFailed} \<and> lo_promo lo \<noteq> '''' then return_promo ord (lo_promo lo) db else db)))"

definition move_settlement :: "locked_order \<Rightarrow> transition_req \<Rightarrow> status \<Rightarrow> settlement_in" where
  "move_settlement lo req to =
     \<lparr>si_order = lo_id lo, si_from = lo_from lo, si_to = to, si_actor = rq_actor req, si_customer = lo_customer lo,
      si_driver = lo_driver lo, si_wallet_paid = lo_wallet_paid lo, si_cash_due = lo_cash_due lo, si_fee = lo_fee lo,
      si_custom = (lo_kind lo = KindCustom), si_custom_reserved = lo_reserved lo,
      si_merchant_delivery = (lo_kind lo = KindMerchantDelivery)\<rparr>"

definition applyTransitionTx ::
  "env \<Rightarrow> ('a engine_db_scheme \<Rightarrow> err + 'a engine_db_scheme) \<Rightarrow> transition_req \<Rightarrow> locked_order \<Rightarrow> 'a engine_db_scheme \<Rightarrow>
     err + applied \<times> 'a engine_db_scheme" where
  "applyTransitionTx env hook req lo db =
    (let eff = effective_roles env lo req
     in if \<not> canTransition (lo_kind lo) (lo_from lo) (rq_to req) eff then Inl ErrBadTransition
        else bindE (part_gate lo req eff db) (\<lambda>((to, nt, endedBy), db).
             bindE (if lo_stops lo > 1 then stopGatesTx lo req to db else Inr ()) (\<lambda>_.
             bindE (move_gates lo req to db) (\<lambda>_.
             let effFault = (if rq_fault req = '''' then FaultOf (rq_reason req) else rq_fault req);
                 ap = \<lparr>ap_lo = lo, ap_to = to, ap_note = nt, ap_ended_by = endedBy, ap_fault = effFault, ap_done = no_report,
                       ap_code = None, ap_late = False, ap_blocked = False\<rparr>
             in if to = StFailed \<and> lo_from lo = StAtPickup
                then Inr (ap\<lparr>ap_ended_by := '''', ap_fault := '''', ap_blocked := True\<rparr>, db)
                else bindE (write_move lo req to nt endedBy db) (\<lambda>db.
                     bindE (cancel_window_gate env lo (rq_roles req) to db) (\<lambda>_.
                     bindE (settle (en_settings env) (move_settlement lo req to) (no_report, db)) (\<lambda>(done, db).
                     bindE (if to = StPickedUp then issueDeliveryCode env (lo_id lo) (lo_kind lo) (lo_customer lo) db
                            else Inr (None, db)) (\<lambda>(code, db).
                     bindE (hook db) (\<lambda>db.
                     Inr (ap\<lparr>ap_done := done, ap_code := code,
                             ap_late := (lo_kind lo = KindMerchantDelivery \<and> to = StCancelled \<and> lo_from lo = StAtPickup \<and>
                               endedBy = ''merchant'')\<rparr>, db))))))))))"

end
