(* ===== verification/One_Move.thy ===== *)
theory One_Move
  imports Engine
begin

text \<open>
  One transaction of the engine (\<open>transitionTx\<close> up to its commit): the order locked, the move applied, a blocked store
  sent back to the office (\<open>merchant_blocked.go\<close>). Every applied move is an edge of the published machine, open to the
  roles that asked for it, and touches the status of no other order.
\<close>

section \<open>A store that cannot give the goods\<close>

definition merchantBlockedNote :: string where "merchantBlockedNote = ''store blocked''"
definition merchantDeliveryBlockedNote :: string where "merchantDeliveryBlockedNote = ''store blocked, delivery waits''"

definition merchantDeliveryBlocked ::
  "env \<Rightarrow> string \<Rightarrow> user_id \<Rightarrow> status \<Rightarrow> string \<Rightarrow> string \<Rightarrow> string \<Rightarrow> user_id option \<Rightarrow> int \<Rightarrow>
     'a engine_db_scheme \<Rightarrow> err + 'a engine_db_scheme" where
  "merchantDeliveryBlocked env ord actor from_st fault reason nt driver fee db =
    (let body = merchantDeliveryBlockedNote @ (if reason \<noteq> '''' then '' ('' @ reason @ '')'' else '''') @
           (if nt \<noteq> '''' then '' - '' @ nt else '''');
         db = add_event \<lparr>ev_order = ord, ev_from = from_st, ev_to = from_st, ev_actor = opt_actor actor, ev_note = body,
                ev_driver = driver, ev_merchant = None\<rparr> db
     in bindE (requestDriverCompensation (en_settings env) ord driver fault reason fee db) (\<lambda>(_, db). Inr db))"

text \<open>The event of a blocked order takes the actor as it is: the empty identifier is no \<open>uuid\<close>.\<close>

definition merchantBlocked ::
  "env \<Rightarrow> string \<Rightarrow> user_id \<Rightarrow> status \<Rightarrow> kind \<Rightarrow> string \<Rightarrow> string \<Rightarrow> string \<Rightarrow> user_id option \<Rightarrow> int \<Rightarrow>
     'a engine_db_scheme \<Rightarrow> err + 'a engine_db_scheme" where
  "merchantBlocked env ord actor from_st k reason fault nt driver fee db =
    (let fault = (if fault = '''' then SuggestedFault reason else fault)
     in if k = KindMerchantDelivery then merchantDeliveryBlocked env ord actor from_st fault reason nt driver fee db
        else let db = update_order ord (\<lambda>x. x\<lparr>o_status := StAccepted, o_driver := None, o_offered_driver := None,
                   o_offer_expires := None, o_dispatched_at := None, o_sent_at := None,
                   o_fail_reason := Some reason, o_fault := nullif fault\<rparr>) db;
                 db = update_parts (\<lambda>p. pa_order p = ord) (\<lambda>p. p\<lparr>pa_arrived := None,
                   pa_sent := (if pa_status p = PartAccepted then None else pa_sent p),
                   pa_channel := (if pa_status p = PartAccepted then '''' else pa_channel p)\<rparr>) db;
                 body = merchantBlockedNote @ (if nt \<noteq> '''' then '' - '' @ nt else '''')
             in if actor = '''' then Inl ErrDb
                else let db = add_event \<lparr>ev_order = ord, ev_from = from_st, ev_to = StAccepted, ev_actor = Some actor,
                            ev_note = body, ev_driver = driver, ev_merchant = None\<rparr> db
                     in bindE (requestDriverCompensation (en_settings env) ord driver fault reason fee db) (\<lambda>(_, db). Inr db))"

section \<open>One transaction\<close>

definition request :: "user_id \<Rightarrow> role list \<Rightarrow> status \<Rightarrow> string \<Rightarrow> transition_req" where
  "request actor roles to nt = \<lparr>rq_actor = actor, rq_roles = roles, rq_to = to, rq_note = nt, rq_reason = '''', rq_fault = '''',
     rq_from_parts = False, rq_handover = False\<rparr>"

text \<open>One transaction: the lock, the move, and what a blocked store leaves.\<close>

definition one_move ::
  "env \<Rightarrow> ('a engine_db_scheme \<Rightarrow> err + 'a engine_db_scheme) \<Rightarrow> string \<Rightarrow> transition_req \<Rightarrow> 'a engine_db_scheme \<Rightarrow>
     err + applied \<times> 'a engine_db_scheme" where
  "one_move env hook ord req db =
     bindE (lockOrderTx ord db) (\<lambda>lo.
     bindE (applyTransitionTx env hook req lo db) (\<lambda>(ap, db).
     if ap_blocked ap
     then bindE (merchantBlocked env ord (rq_actor req) (lo_from lo) (lo_kind lo) (rq_reason req) (rq_fault req) (rq_note req)
                  (lo_driver lo) (lo_fee lo) db) (\<lambda>db. Inr (ap, db))
     else Inr (ap, db)))"

lemma part_gate_to:
  assumes "part_gate lo req eff db = Inr ((to, nt, by_role), db')"
  shows "to = rq_to req \<or> rq_to req = StAccepted \<and> to = StRejected \<and> lo_from lo = StPending"
  using assms by (auto simp: part_gate_def partGatesTx_def Let_def branches split: if_splits prod.splits)

lemma applied_to:
  assumes "applyTransitionTx env hook req lo db = Inr (ap, db')"
  shows "ap_to ap = rq_to req \<or> rq_to req = StAccepted \<and> ap_to ap = StRejected \<and> lo_from lo = StPending" "ap_lo ap = lo"
  using assms by (auto simp: applyTransitionTx_def Let_def branches dest!: part_gate_to)

section \<open>The statuses of the orders\<close>

text \<open>What the machine speaks of: the kind and the status of every order.\<close>

definition statuses_of :: "'a orders_db_scheme \<Rightarrow> string \<Rightarrow> (kind \<times> status) option" where
  "statuses_of db = (\<lambda>j. map_option (\<lambda>x. (o_kind x, o_status x)) (order_of db j))"

named_theorems same_status

lemma statuses_of_work:
  fixes db db' :: "'a money_db_scheme"
  assumes "work_of db' = work_of db"
  shows "statuses_of db' = statuses_of db"
proof -
  have "map_option (\<lambda>x. (o_kind x, o_status x)) (find (\<lambda>x. o_id x = j) os) =
      map_option (\<lambda>(_, s, k, _, _). (k, s)) (find (\<lambda>r. fst r = j) (map (\<lambda>x. (o_id x, o_status x, o_kind x, (o_customer x, o_driver x), order_money.more x)) os))" for j and os :: "order list"
    by (induction os) auto
  then have "statuses_of d = (\<lambda>j. map_option (\<lambda>(_, s, k, _, _). (k, s)) (find (\<lambda>r. fst r = j) (fst (work_of d))))" for d :: "'a money_db_scheme"
    by (simp add: statuses_of_def order_of_def work_of_def)
  then show ?thesis by (simp add: assms)
qed

lemma statuses_of_orders: "orders db' = orders db \<Longrightarrow> statuses_of db' = statuses_of db"
  by (simp add: statuses_of_def order_of_def)

lemma statuses_Some: "statuses_of db j = Some (k, st) \<Longrightarrow> \<exists>x. order_of db j = Some x \<and> o_kind x = k"
  by (auto simp: statuses_of_def)

lemma statuses_update_same [same_status]:
  assumes "\<And>x. o_id (f x) = o_id x \<and> o_status (f x) = o_status x \<and> o_kind (f x) = o_kind x"
  shows "statuses_of (update_order i f db) = statuses_of db"
  using assms by (auto simp: statuses_of_def order_of_update fun_eq_iff option.map_comp o_def)

lemma statuses_update_to:
  assumes "\<And>x. o_id (f x) = o_id x \<and> o_status (f x) = st \<and> o_kind (f x) = o_kind x" and "order_of db i = Some x"
  shows "statuses_of (update_order i f db) = (statuses_of db)(i \<mapsto> (o_kind x, st))"
  using assms by (auto simp: statuses_of_def order_of_update fun_eq_iff)

lemma statuses_add_event [same_status]:
  "statuses_of (add_event e db) = statuses_of db" "wallet_txs (add_event e db) = wallet_txs db"
  by (simp_all add: statuses_of_def order_of_def add_event_def)

lemma statuses_update_parts [same_status]:
  "statuses_of (update_parts P f db) = statuses_of db" "wallet_txs (update_parts P f db) = wallet_txs db"
  by (simp_all add: statuses_of_def order_of_def update_parts_def)

lemma statuses_answer [same_status]:
  "statuses_of (snd (answerPartsTx lo stores actor r accept prep reason from_sts db)) = statuses_of db"
  "wallet_txs (snd (answerPartsTx lo stores actor r accept prep reason from_sts db)) = wallet_txs db"
proof -
  let ?ev = "\<lambda>i st dr t d refs. foldl (\<lambda>d (m, name). partEventTx i st actor (t name) dr m d) d refs"
  have ev: "statuses_of (?ev i st dr t d refs) = statuses_of d" "wallet_txs (?ev i st dr t d refs) = wallet_txs d" for i st dr t refs
    and d :: "'a engine_db_scheme"
    by (induction refs arbitrary: d) (auto simp: partEventTx_def same_status)
  show "statuses_of (snd (answerPartsTx lo stores actor r accept prep reason from_sts db)) = statuses_of db"
    unfolding answerPartsTx_def Let_def snd_conv ev by (rule same_status)
  show "wallet_txs (snd (answerPartsTx lo stores actor r accept prep reason from_sts db)) = wallet_txs db"
    unfolding answerPartsTx_def Let_def snd_conv ev by (rule same_status)
qed

lemma statuses_prep [same_status]:
  "statuses_of (partsPrepTx ord db) = statuses_of db" "wallet_txs (partsPrepTx ord db) = wallet_txs db"
  by (simp_all add: partsPrepTx_def Let_def same_status)

lemma statuses_sync [same_status]:
  "statuses_of (syncPartFieldsTx ord db) = statuses_of db" "wallet_txs (syncPartFieldsTx ord db) = wallet_txs db"
  by (simp_all add: syncPartFieldsTx_def same_status)

lemma statuses_stops_after [same_status]:
  "statuses_of (stopsAfterTransitionTx ord to db) = statuses_of db" "wallet_txs (stopsAfterTransitionTx ord to db) = wallet_txs db"
  by (simp_all add: stopsAfterTransitionTx_def same_status)

lemma statuses_promo [same_status]:
  "statuses_of (return_promo ord c db) = statuses_of db" "wallet_txs (return_promo ord c db) = wallet_txs db"
  by (simp_all add: statuses_of_def order_of_def return_promo_def)

lemma statuses_code [same_status]:
  "statuses_of (set_code ord c db) = statuses_of db" "wallet_txs (set_code ord c db) = wallet_txs db"
  by (simp_all add: set_code_def same_status)

lemma statuses_late:
  "markMerchantLateCancel ord actor driver db = Inr db' \<Longrightarrow> statuses_of db' = statuses_of db \<and> wallet_txs db' = wallet_txs db"
  by (auto simp: markMerchantLateCancel_def Let_def branches same_status intro!: statuses_of_orders) (simp_all add: add_event_def)

lemma statuses_compensation:
  "requestDriverCompensation st ord driver fault reason fee db = Inr (b, db') \<Longrightarrow>
     statuses_of db' = statuses_of db \<and> wallet_txs db' = wallet_txs db"
  for db db' :: "'a money_db_scheme"
  by (intro conjI statuses_of_work) (auto simp: requestDriverCompensation_def branches Let_def work_of_tables)

lemma statuses_issue: "issueDeliveryCode env ord k c db = Inr (rt, db') \<Longrightarrow> statuses_of db' = statuses_of db \<and> wallet_txs db' = wallet_txs db"
  by (auto simp: issueDeliveryCode_def Let_def branches same_status)

lemma statuses_gate: "part_gate lo req eff db = Inr (m, db') \<Longrightarrow> statuses_of db' = statuses_of db \<and> wallet_txs db' = wallet_txs db"
  by (auto simp: part_gate_def partGatesTx_def Let_def branches same_status split: if_splits prod.splits)

lemma end_row_same: "o_id (end_row to r f ef by_role x) = o_id x \<and> o_status (end_row to r f ef by_role x) = o_status x \<and> o_kind (end_row to r f ef by_role x) = o_kind x"
  by (simp add: end_row_def Let_def)

lemma move_row_to: "o_id (move_row db from_st to nt x) = o_id x \<and> o_status (move_row db from_st to nt x) = to \<and> o_kind (move_row db from_st to nt x) = o_kind x"
  by (simp add: move_row_def Let_def)

lemma statuses_write:
  assumes "write_move lo req to nt by_role db = Inr db'" and "statuses_of db (lo_id lo) = Some (k, st)"
  shows "statuses_of db' = (statuses_of db)(lo_id lo \<mapsto> (k, to))" "wallet_txs db' = wallet_txs db"
proof -
  let ?d1 = "if lo_stops lo > 1 \<and> to = StAccepted then partsPrepTx (lo_id lo) db else db"
  let ?d2 = "update_order (lo_id lo) (move_row ?d1 (lo_from lo) to nt) ?d1"
  let ?d3 = "if lo_stops lo > 1 then stopsAfterTransitionTx (lo_id lo) to (syncPartFieldsTx (lo_id lo) ?d2) else ?d2"
  let ?d4 = "update_order (lo_id lo) (end_row to (rq_reason req) (rq_fault req)
      (if rq_fault req = '''' then FaultOf (rq_reason req) else rq_fault req) by_role) ?d3"
  let ?d5 = "add_event \<lparr>ev_order = lo_id lo, ev_from = lo_from lo, ev_to = to, ev_actor = opt_actor (rq_actor req), ev_note = nt,
      ev_driver = lo_driver lo, ev_merchant = None\<rparr> ?d4"
  have d1: "statuses_of ?d1 = statuses_of db" by (simp add: same_status)
  then obtain x where x: "order_of ?d1 (lo_id lo) = Some x" "o_kind x = k"
    using assms(2) statuses_Some by metis
  have "statuses_of (update_order (lo_id lo) (move_row ?d1 (lo_from lo) to nt) ?d1) = (statuses_of db)(lo_id lo \<mapsto> (k, to))"
    using statuses_update_to[where f = "move_row ?d1 (lo_from lo) to nt", OF move_row_to x(1)] unfolding d1 x(2) .
  then have d2: "statuses_of ?d2 = (statuses_of db)(lo_id lo \<mapsto> (k, to))" "wallet_txs ?d2 = wallet_txs db"
    by (simp_all add: same_status)
  have d5: "statuses_of ?d5 = statuses_of ?d2 \<and> wallet_txs ?d5 = wallet_txs ?d2"
    by (simp add: same_status statuses_update_same[OF end_row_same])
  obtain e where e: "(if lo_kind lo = KindMerchantDelivery \<and> to = StCancelled \<and> lo_from lo = StAtPickup \<and> by_role = ''merchant''
      then markMerchantLateCancel (lo_id lo) (opt_actor (rq_actor req)) (lo_driver lo) ?d5 else Inr ?d5) = Inr e"
    and d': "db' = (if to \<in> {StCancelled, StRejected, StFailed} \<and> lo_promo lo \<noteq> '''' then return_promo (lo_id lo) (lo_promo lo) e else e)"
    using assms(1) unfolding write_move_def Let_def bindE_eq_Inr by blast
  have "statuses_of e = statuses_of ?d5 \<and> wallet_txs e = wallet_txs ?d5" using e unfolding if_Inr by (blast dest: statuses_late)
  then show "statuses_of db' = (statuses_of db)(lo_id lo \<mapsto> (k, to))" "wallet_txs db' = wallet_txs db"
    using d2 d5 by (simp_all add: d' same_status)
qed

lemma lock_status:
  assumes "lockOrderTx ord db = Inr lo"
  shows "lo_id lo = ord" "statuses_of db ord = Some (lo_kind lo, lo_from lo)"
  using assms by (auto simp: lockOrderTx_def statuses_of_def split: option.splits)

text \<open>A hook that leaves orders and ledger alone, as that of a handler that only writes its audit entry.\<close>

definition keeps_work :: "('a engine_db_scheme \<Rightarrow> err + 'a engine_db_scheme) \<Rightarrow> bool" where
  "keeps_work hook \<longleftrightarrow> (\<forall>d d'. hook d = Inr d' \<longrightarrow> statuses_of d' = statuses_of d \<and> wallet_txs d' = wallet_txs d)"

lemma keeps_work_Inr [simp]: "keeps_work Inr"
  by (simp add: keeps_work_def)

text \<open>A move that returned: held at the store's door, or written and settled.\<close>

lemma applied_steps:
  fixes db :: "'a engine_db_scheme"
  assumes "applyTransitionTx env hook req lo db = Inr (ap, db')" and "statuses_of db (lo_id lo) = Some (lo_kind lo, lo_from lo)"
    and "keeps_work hook"
  obtains (held) "ap_blocked ap" "ap_to ap = StFailed" "lo_from lo = StAtPickup" "statuses_of db' = statuses_of db"
      "wallet_txs db' = wallet_txs db"
    | (made) d2 d3 :: "'a engine_db_scheme" and out where "\<not> ap_blocked ap" "statuses_of d2 = (statuses_of db)(lo_id lo \<mapsto> (lo_kind lo, ap_to ap))"
      "wallet_txs d2 = wallet_txs db" "settle (en_settings env) (move_settlement lo req (ap_to ap)) (no_report, d2) = Inr (out, d3)"
      "statuses_of db' = statuses_of d2" "wallet_txs db' = wallet_txs d3"
proof -
  obtain to nt by_role d1 where gate: "part_gate lo req (effective_roles env lo req) db = Inr ((to, nt, by_role), d1)" "ap_to ap = to"
    and rest: "to = StFailed \<and> lo_from lo = StAtPickup \<and> ap_blocked ap \<and> db' = d1 \<or>
      \<not> ap_blocked ap \<and> (\<exists>d2 out d3 code d4. write_move lo req to nt by_role d1 = Inr d2 \<and>
         settle (en_settings env) (move_settlement lo req to) (no_report, d2) = Inr (out, d3) \<and>
         (if to = StPickedUp then issueDeliveryCode env (lo_id lo) (lo_kind lo) (lo_customer lo) d3 else Inr (None, d3)) = Inr (code, d4) \<and>
         hook d4 = Inr db')"
    using assms(1) unfolding applyTransitionTx_def Let_def by (auto simp: branches)
  from gate(1) have d1: "statuses_of d1 = statuses_of db \<and> wallet_txs d1 = wallet_txs db" by (rule statuses_gate)
  from rest show ?thesis
  proof (elim disjE conjE exE)
    assume "to = StFailed" "lo_from lo = StAtPickup" "ap_blocked ap" "db' = d1"
    then show ?thesis using held d1 gate(2) by blast
  next
    fix d2 out d3 code d4
    assume nb: "\<not> ap_blocked ap" and w: "write_move lo req to nt by_role d1 = Inr d2"
      and s: "settle (en_settings env) (move_settlement lo req to) (no_report, d2) = Inr (out, d3)"
      and c: "(if to = StPickedUp then issueDeliveryCode env (lo_id lo) (lo_kind lo) (lo_customer lo) d3 else Inr (None, d3)) = Inr (code, d4)"
      and h: "hook d4 = Inr db'"
    have "statuses_of d4 = statuses_of d3 \<and> wallet_txs d4 = wallet_txs d3" using c unfolding if_Inr by (blast dest: statuses_issue)
    then have e: "statuses_of db' = statuses_of d2 \<and> wallet_txs db' = wallet_txs d3"
      using h assms(3) statuses_of_work[OF work_settle[OF s]] by (simp add: keeps_work_def)
    have "statuses_of d1 (lo_id lo) = Some (lo_kind lo, lo_from lo)" using assms(2) d1 by simp
    note t = statuses_write[OF w this]
    show ?thesis by (rule made[of d2 out d3]) (use t d1 nb s e gate(2) in simp_all)
  qed
qed

lemma canTransition_reject: "canTransition k StPending StAccepted rs \<Longrightarrow> canTransition k StPending StRejected rs"
  by (cases k) (auto simp: canTransition_def map_simps split: if_splits)

lemma applied_admitted:
  assumes "applyTransitionTx env hook req lo db = Inr (ap, db')"
  shows "canTransition (lo_kind lo) (lo_from lo) (ap_to ap) (effective_roles env lo req)"
proof -
  have "canTransition (lo_kind lo) (lo_from lo) (rq_to req) (effective_roles env lo req)"
    using assms by (auto simp: applyTransitionTx_def Let_def split: if_splits)
  then show ?thesis using applied_to(1)[OF assms] canTransition_reject by metis
qed

lemma statuses_blocked:
  assumes "merchantBlocked env ord actor st k reason fault nt driver fee db = Inr db'" and "statuses_of db ord = Some (k, s)"
  shows "statuses_of db' = (if k = KindMerchantDelivery then statuses_of db else (statuses_of db)(ord \<mapsto> (k, StAccepted)))"
    "wallet_txs db' = wallet_txs db"
proof -
  obtain x where x: "order_of db ord = Some x" "o_kind x = k" using statuses_Some[OF assms(2)] by blast
  have row: "statuses_of (update_order ord (\<lambda>x. x\<lparr>o_status := StAccepted, o_driver := None, o_offered_driver := None,
      o_offer_expires := None, o_dispatched_at := None, o_sent_at := None, o_fail_reason := Some reason, o_fault := f\<rparr>) db) =
      (statuses_of db)(ord \<mapsto> (k, StAccepted))" for f
    using statuses_update_to[OF _ x(1)] x(2) by simp
  show "statuses_of db' = (if k = KindMerchantDelivery then statuses_of db else (statuses_of db)(ord \<mapsto> (k, StAccepted)))"
    "wallet_txs db' = wallet_txs db"
    using assms(1) unfolding merchantBlocked_def merchantDeliveryBlocked_def Let_def
    by (auto simp: branches same_status row dest!: statuses_compensation)
qed

section \<open>One transaction on the machine\<close>

text \<open>The step of the machine a move makes: an edge, or a blocked store that goes back to the office.\<close>

definition machine_step :: "kind \<Rightarrow> status \<Rightarrow> status \<Rightarrow> bool" where
  "machine_step k s t \<longleftrightarrow> has_edge k s t \<or>
     s = StAtPickup \<and> has_edge k s StFailed \<and> t = (if k = KindMerchantDelivery then StAtPickup else StAccepted)"

text \<open>The status an applied move leaves.\<close>

definition lands :: "applied \<Rightarrow> status" where
  "lands ap = (if \<not> ap_blocked ap then ap_to ap else if lo_kind (ap_lo ap) = KindMerchantDelivery then StAtPickup else StAccepted)"

lemma one_move_steps:
  fixes db :: "'a engine_db_scheme"
  assumes "one_move env hook ord req db = Inr (ap, db')" and "keeps_work hook"
  shows "lockOrderTx ord db = Inr (ap_lo ap)"
    and "canTransition (lo_kind (ap_lo ap)) (lo_from (ap_lo ap)) (ap_to ap) (effective_roles env (ap_lo ap) req)"
    and "statuses_of db' = (statuses_of db)(ord \<mapsto> (lo_kind (ap_lo ap), lands ap))"
    and "ap_blocked ap \<Longrightarrow> lo_from (ap_lo ap) = StAtPickup \<and> ap_to ap = StFailed \<and> wallet_txs db' = wallet_txs db"
    and "\<not> ap_blocked ap \<Longrightarrow> \<exists>d2 out d3 :: 'a engine_db_scheme. wallet_txs d2 = wallet_txs db \<and> wallet_txs db' = wallet_txs d3 \<and>
           settle (en_settings env) (move_settlement (ap_lo ap) req (ap_to ap)) (no_report, d2) = Inr (out, d3)"
proof -
  obtain lo d where lo: "lockOrderTx ord db = Inr lo" and a: "applyTransitionTx env hook req lo db = Inr (ap, d)"
    and b: "(if ap_blocked ap
       then bindE (merchantBlocked env ord (rq_actor req) (lo_from lo) (lo_kind lo) (rq_reason req) (rq_fault req) (rq_note req)
                    (lo_driver lo) (lo_fee lo) d) (\<lambda>db. Inr (ap, db)) else Inr (ap, d)) = Inr (ap, db')"
    using assms(1) by (auto simp: one_move_def branches)
  have ap: "ap_lo ap = lo" by (rule applied_to(2)[OF a])
  from lo ap show "lockOrderTx ord db = Inr (ap_lo ap)" by simp
  from applied_admitted[OF a] ap
  show "canTransition (lo_kind (ap_lo ap)) (lo_from (ap_lo ap)) (ap_to ap) (effective_roles env (ap_lo ap) req)" by simp
  have st: "statuses_of db (lo_id lo) = Some (lo_kind lo, lo_from lo)" and i: "lo_id lo = ord" using lock_status[OF lo] by simp_all
  have "statuses_of db' = (statuses_of db)(ord \<mapsto> (lo_kind lo, lands ap)) \<and>
    (ap_blocked ap \<longrightarrow> lo_from lo = StAtPickup \<and> ap_to ap = StFailed \<and> wallet_txs db' = wallet_txs db) \<and>
    (\<not> ap_blocked ap \<longrightarrow> (\<exists>d2 out d3 :: 'a engine_db_scheme. wallet_txs d2 = wallet_txs db \<and> wallet_txs db' = wallet_txs d3 \<and>
       settle (en_settings env) (move_settlement lo req (ap_to ap)) (no_report, d2) = Inr (out, d3)))"
    using a st assms(2)
  proof (cases rule: applied_steps)
    case held
    with b have m: "merchantBlocked env ord (rq_actor req) (lo_from lo) (lo_kind lo) (rq_reason req) (rq_fault req) (rq_note req)
        (lo_driver lo) (lo_fee lo) d = Inr db'" by (auto simp: branches)
    have "statuses_of d ord = Some (lo_kind lo, StAtPickup)" using held(3,4) st i by simp
    from statuses_blocked[OF m this] held st i ap show ?thesis by (auto simp: lands_def)
  next
    case (made d2 out d3)
    with b have "db' = d" by simp
    with made i show ?thesis by (auto simp: lands_def)
  qed
  then show "statuses_of db' = (statuses_of db)(ord \<mapsto> (lo_kind (ap_lo ap), lands ap))"
    and "ap_blocked ap \<Longrightarrow> lo_from (ap_lo ap) = StAtPickup \<and> ap_to ap = StFailed \<and> wallet_txs db' = wallet_txs db"
    and "\<not> ap_blocked ap \<Longrightarrow> \<exists>d2 out d3 :: 'a engine_db_scheme. wallet_txs d2 = wallet_txs db \<and> wallet_txs db' = wallet_txs d3 \<and>
           settle (en_settings env) (move_settlement (ap_lo ap) req (ap_to ap)) (no_report, d2) = Inr (out, d3)"
    unfolding ap by simp_all
qed

lemma one_move_machine:
  assumes "one_move env hook ord req db = Inr (ap, db')" and "keeps_work hook"
  shows "machine_step (lo_kind (ap_lo ap)) (lo_from (ap_lo ap)) (lands ap)"
  using one_move_steps(2,4)[OF assms] canTransition_has_edge by (auto simp: machine_step_def lands_def)

section \<open>Paths of the machine\<close>

text \<open>Some moves of one order on the machine, and no other order moves.\<close>

definition machine_path :: "string \<Rightarrow> (string \<Rightarrow> (kind \<times> status) option) \<Rightarrow> status list \<Rightarrow> (string \<Rightarrow> (kind \<times> status) option) \<Rightarrow> bool" where
  "machine_path ord v ss v' \<longleftrightarrow> (\<exists>k s. v ord = Some (k, s) \<and> successively (machine_step k) (s # ss) \<and> v' = v(ord \<mapsto> (k, last (s # ss))))"

lemma machine_path_refl: "v ord = Some (k, s) \<Longrightarrow> machine_path ord v [] v"
  by (auto simp: machine_path_def fun_upd_idem)

lemma machine_path_step:
  "has_edge k s t \<Longrightarrow> v ord = Some (k, s) \<Longrightarrow> machine_path ord v [t] (v(ord \<mapsto> (k, t)))"
  by (auto simp: machine_path_def machine_step_def)

lemma machine_path_trans:
  assumes "machine_path ord u ss v" and "machine_path ord v ts w"
  shows "machine_path ord u (ss @ ts) w"
proof -
  obtain k s where a: "u ord = Some (k, s)" "successively (machine_step k) (s # ss)" "v = u(ord \<mapsto> (k, last (s # ss)))"
    using assms(1) by (auto simp: machine_path_def)
  with assms(2) have b: "successively (machine_step k) (last (s # ss) # ts)" "w = u(ord \<mapsto> (k, last (last (s # ss) # ts)))"
    by (auto simp: machine_path_def)
  have "successively (machine_step k) ((s # ss) @ ts)"
    unfolding successively_append_iff using a(2) b(1) by (cases ts) simp_all
  moreover have "last (s # ss @ ts) = last (last (s # ss) # ts)" by (cases ts rule: rev_cases) auto
  ultimately show ?thesis using a(1) b(2) by (auto simp: machine_path_def)
qed

end
