(* ===== verification/Seats.thy ===== *)
theory Seats
  imports One_Move
begin

text \<open>
  Who carries an order: the kind, the status and the driver of every order (\<open>seats_of\<close>) through one move of the
  engine. From its arrival at the store on, an order has a driver.
\<close>

section \<open>The seats of the orders\<close>

definition seats_of :: "'a orders_db_scheme \<Rightarrow> string \<Rightarrow> (kind \<times> status \<times> user_id option) option" where
  "seats_of db = (\<lambda>j. map_option (\<lambda>x. (o_kind x, o_status x, o_driver x)) (order_of db j))"

named_theorems same_seats

lemma seats_of_orders: "orders db' = orders db \<Longrightarrow> seats_of db' = seats_of db"
  by (simp add: seats_of_def order_of_def)

lemma seats_of_work:
  fixes db db' :: "'a money_db_scheme"
  assumes "work_of db' = work_of db"
  shows "seats_of db' = seats_of db"
proof -
  have "map_option (\<lambda>x. (o_kind x, o_status x, o_driver x)) (find (\<lambda>x. o_id x = j) os) =
      map_option (\<lambda>(_, s, k, (_, d), _). (k, s, d)) (find (\<lambda>r. fst r = j) (map (\<lambda>x. (o_id x, o_status x, o_kind x, (o_customer x, o_driver x), order_money.more x)) os))" for j and os :: "order list"
    by (induction os) auto
  then have "seats_of d = (\<lambda>j. map_option (\<lambda>(_, s, k, (_, d), _). (k, s, d)) (find (\<lambda>r. fst r = j) (fst (work_of d))))" for d :: "'a money_db_scheme"
    by (simp add: seats_of_def order_of_def work_of_def)
  then show ?thesis by (simp add: assms)
qed

lemma seats_update_same [same_seats]:
  assumes "\<And>x. o_id (f x) = o_id x \<and> o_status (f x) = o_status x \<and> o_kind (f x) = o_kind x \<and> o_driver (f x) = o_driver x"
  shows "seats_of (update_order i f db) = seats_of db"
  using assms by (auto simp: seats_of_def order_of_update fun_eq_iff option.map_comp o_def)

lemma seats_update:
  assumes "\<And>x. o_id (f x) = o_id x"
  shows "seats_of (update_order i f db) = (seats_of db)(i := map_option (\<lambda>x. (o_kind (f x), o_status (f x), o_driver (f x))) (order_of db i))"
  using assms by (auto simp: seats_of_def order_of_update fun_eq_iff option.map_comp o_def)

lemma seats_tables [same_seats]:
  "seats_of (add_event e d1) = seats_of d1" "seats_of (update_parts P f d2) = seats_of d2" "seats_of (return_promo ord c d3) = seats_of d3"
  by (simp_all add: seats_of_def order_of_def add_event_def update_parts_def return_promo_def)

lemma seats_answer [same_seats]:
  "seats_of (snd (answerPartsTx lo stores actor r accept prep reason from_sts db)) = seats_of db"
proof -
  let ?ev = "\<lambda>i st dr t d refs. foldl (\<lambda>d (m, name). partEventTx i st actor (t name) dr m d) d refs"
  have ev: "seats_of (?ev i st dr t d refs) = seats_of d" for i st dr t refs and d :: "'a engine_db_scheme"
    by (induction refs arbitrary: d) (auto simp: partEventTx_def same_seats)
  show ?thesis unfolding answerPartsTx_def Let_def snd_conv ev by (rule same_seats)
qed

lemma seats_parts [same_seats]:
  "seats_of (partsPrepTx ord d1) = seats_of d1" "seats_of (syncPartFieldsTx ord d2) = seats_of d2"
  "seats_of (stopsAfterTransitionTx ord to d3) = seats_of d3" "seats_of (set_code ord c d4) = seats_of d4"
  by (simp_all add: partsPrepTx_def syncPartFieldsTx_def stopsAfterTransitionTx_def set_code_def Let_def same_seats)

lemma seats_late: "markMerchantLateCancel ord actor driver db = Inr db' \<Longrightarrow> seats_of db' = seats_of db"
  by (auto simp: markMerchantLateCancel_def Let_def branches same_seats intro!: seats_of_orders) (simp_all add: add_event_def)

lemma seats_compensation:
  "requestDriverCompensation st ord driver fault reason fee db = Inr (b, db') \<Longrightarrow> seats_of db' = seats_of db"
  for db db' :: "'a money_db_scheme"
  by (intro seats_of_work) (auto simp: requestDriverCompensation_def branches Let_def work_of_tables)

lemma seats_issue: "issueDeliveryCode env ord k c db = Inr (rt, db') \<Longrightarrow> seats_of db' = seats_of db"
  by (auto simp: issueDeliveryCode_def Let_def branches same_seats)

lemma seats_gate: "part_gate lo req eff db = Inr (m, db') \<Longrightarrow> seats_of db' = seats_of db"
  by (auto simp: part_gate_def partGatesTx_def Let_def branches same_seats split: if_splits prod.splits)

section \<open>One move\<close>

text \<open>The driver an order has after a move: a return to the queue leaves it without one.\<close>

definition driver_after :: "status \<Rightarrow> status \<Rightarrow> user_id option \<Rightarrow> user_id option" where
  "driver_after from_st to d = (if to = StDispatching \<and> from_st \<noteq> StPreparing \<and> from_st \<noteq> StAccepted then None else d)"

lemma move_row_seat: "o_driver (move_row db from_st to nt x) = driver_after from_st to (o_driver x)"
  by (auto simp: move_row_def driver_after_def Let_def)

lemma end_row_driver: "o_driver (end_row to r f ef by_role x) = o_driver x"
  by (simp add: end_row_def Let_def)

lemma seats_write:
  assumes "write_move lo req to nt by_role db = Inr db'" and "seats_of db (lo_id lo) = Some (k, st, d)"
  shows "seats_of db' = (seats_of db)(lo_id lo \<mapsto> (k, to, driver_after (lo_from lo) to d))"
proof -
  let ?d1 = "if lo_stops lo > 1 \<and> to = StAccepted then partsPrepTx (lo_id lo) db else db"
  let ?d2 = "update_order (lo_id lo) (move_row ?d1 (lo_from lo) to nt) ?d1"
  let ?d3 = "if lo_stops lo > 1 then stopsAfterTransitionTx (lo_id lo) to (syncPartFieldsTx (lo_id lo) ?d2) else ?d2"
  let ?d4 = "update_order (lo_id lo) (end_row to (rq_reason req) (rq_fault req)
      (if rq_fault req = '''' then FaultOf (rq_reason req) else rq_fault req) by_role) ?d3"
  let ?d5 = "add_event \<lparr>ev_order = lo_id lo, ev_from = lo_from lo, ev_to = to, ev_actor = opt_actor (rq_actor req), ev_note = nt,
      ev_driver = lo_driver lo, ev_merchant = None\<rparr> ?d4"
  have d1: "seats_of ?d1 = seats_of db" by (simp add: same_seats)
  then obtain x where x: "order_of ?d1 (lo_id lo) = Some x" "o_kind x = k" "o_driver x = d"
    using assms(2) by (auto simp: seats_of_def fun_eq_iff dest!: spec[of _ "lo_id lo"])
  have "seats_of ?d2 = (seats_of db)(lo_id lo \<mapsto> (k, to, driver_after (lo_from lo) to d))"
    using seats_update[of "move_row ?d1 (lo_from lo) to nt" "lo_id lo" ?d1] x unfolding d1 by (simp add: move_row_to move_row_seat)
  moreover have "seats_of ?d5 = seats_of ?d2"
    by (simp add: same_seats seats_update_same[where f = "end_row a b c d e" for a b c d e] end_row_same end_row_driver)
  moreover obtain e where e: "(if lo_kind lo = KindMerchantDelivery \<and> to = StCancelled \<and> lo_from lo = StAtPickup \<and> by_role = ''merchant''
      then markMerchantLateCancel (lo_id lo) (opt_actor (rq_actor req)) (lo_driver lo) ?d5 else Inr ?d5) = Inr e"
    and d': "db' = (if to \<in> {StCancelled, StRejected, StFailed} \<and> lo_promo lo \<noteq> '''' then return_promo (lo_id lo) (lo_promo lo) e else e)"
    using assms(1) unfolding write_move_def Let_def bindE_eq_Inr by blast
  moreover have "seats_of e = seats_of ?d5" using e unfolding if_Inr by (blast dest: seats_late)
  ultimately show ?thesis by (simp add: same_seats)
qed

lemma lock_seat:
  assumes "lockOrderTx ord db = Inr lo"
  shows "seats_of db ord = Some (lo_kind lo, lo_from lo, lo_driver lo)"
  using assms by (auto simp: lockOrderTx_def seats_of_def split: option.splits)

definition keeps_seats :: "('a engine_db_scheme \<Rightarrow> err + 'a engine_db_scheme) \<Rightarrow> bool" where
  "keeps_seats hook \<longleftrightarrow> (\<forall>d d'. hook d = Inr d' \<longrightarrow> seats_of d' = seats_of d)"

lemma keeps_seats_Inr [simp]: "keeps_seats Inr"
  by (simp add: keeps_seats_def)

text \<open>The driver of an order a move was applied to.\<close>

definition seat_after :: "applied \<Rightarrow> user_id option" where
  "seat_after ap = (if \<not> ap_blocked ap then driver_after (lo_from (ap_lo ap)) (ap_to ap) (lo_driver (ap_lo ap))
     else if lo_kind (ap_lo ap) = KindMerchantDelivery then lo_driver (ap_lo ap) else None)"

lemma applied_seat:
  fixes db :: "'a engine_db_scheme"
  assumes "applyTransitionTx env hook req lo db = Inr (ap, db')"
    and "seats_of db (lo_id lo) = Some (lo_kind lo, lo_from lo, lo_driver lo)" and "keeps_seats hook"
  shows "if ap_blocked ap then seats_of db' = seats_of db
    else seats_of db' = (seats_of db)(lo_id lo \<mapsto> (lo_kind lo, ap_to ap, driver_after (lo_from lo) (ap_to ap) (lo_driver lo))) \<and>
      (ap_to ap \<in> {StAtPickup, StPickedUp} \<longrightarrow> lo_driver lo \<noteq> None)"
proof -
  obtain to nt by_role d1 where gate: "part_gate lo req (effective_roles env lo req) db = Inr ((to, nt, by_role), d1)" "ap_to ap = to"
    and m: "move_gates lo req to d1 = Inr ()"
    and rest: "ap_blocked ap \<and> db' = d1 \<or>
      \<not> ap_blocked ap \<and> (\<exists>d2 out d3 code d4. write_move lo req to nt by_role d1 = Inr d2 \<and>
         settle (en_settings env) (move_settlement lo req to) (no_report, d2) = Inr (out, d3) \<and>
         (if to = StPickedUp then issueDeliveryCode env (lo_id lo) (lo_kind lo) (lo_customer lo) d3 else Inr (None, d3)) = Inr (code, d4) \<and>
         hook d4 = Inr db')"
    using assms(1) unfolding applyTransitionTx_def Let_def by (auto simp: branches)
  have d1: "seats_of d1 = seats_of db" by (rule seats_gate[OF gate(1)])
  have dr: "to \<in> {StAtPickup, StPickedUp} \<longrightarrow> lo_driver lo \<noteq> None" using m by (auto simp: move_gates_def bindE_eq_Inr if_Inr)
  from rest show ?thesis
  proof (elim disjE conjE exE)
    assume "ap_blocked ap" "db' = d1"
    then show ?thesis using d1 by simp
  next
    fix d2 out d3 code d4
    assume nb: "\<not> ap_blocked ap" and w: "write_move lo req to nt by_role d1 = Inr d2"
      and s: "settle (en_settings env) (move_settlement lo req to) (no_report, d2) = Inr (out, d3)"
      and c: "(if to = StPickedUp then issueDeliveryCode env (lo_id lo) (lo_kind lo) (lo_customer lo) d3 else Inr (None, d3)) = Inr (code, d4)"
      and h: "hook d4 = Inr db'"
    have "seats_of d4 = seats_of d3" using c unfolding if_Inr by (blast dest: seats_issue)
    then have "seats_of db' = seats_of d2" using h assms(3) seats_of_work[OF work_settle[OF s]] by (simp add: keeps_seats_def)
    moreover have "seats_of d1 (lo_id lo) = Some (lo_kind lo, lo_from lo, lo_driver lo)" using assms(2) d1 by simp
    note seats_write[OF w this]
    ultimately show ?thesis using d1 nb gate(2) dr by simp
  qed
qed

lemma seats_blocked:
  assumes "merchantBlocked env ord actor st k reason fault nt driver fee db = Inr db'" and "seats_of db ord = Some (k, s, d)"
  shows "seats_of db' = (if k = KindMerchantDelivery then seats_of db else (seats_of db)(ord \<mapsto> (k, StAccepted, None)))"
proof -
  obtain x where x: "order_of db ord = Some x" "o_kind x = k" using assms(2) by (auto simp: seats_of_def)
  have row: "seats_of (update_order ord (\<lambda>x. x\<lparr>o_status := StAccepted, o_driver := None, o_offered_driver := None,
      o_offer_expires := None, o_dispatched_at := None, o_sent_at := None, o_fail_reason := Some reason, o_fault := f\<rparr>) db) =
      (seats_of db)(ord \<mapsto> (k, StAccepted, None))" for f
    using seats_update[of _ ord db] x by simp
  show ?thesis
    using assms(1) unfolding merchantBlocked_def merchantDeliveryBlocked_def Let_def
    by (auto simp: branches same_seats row dest!: seats_compensation)
qed

lemma one_move_seat:
  fixes db :: "'a engine_db_scheme"
  assumes "one_move env hook ord req db = Inr (ap, db')" and "keeps_seats hook" and "keeps_work hook"
  shows "seats_of db ord = Some (lo_kind (ap_lo ap), lo_from (ap_lo ap), lo_driver (ap_lo ap))"
    and "seats_of db' = (seats_of db)(ord \<mapsto> (lo_kind (ap_lo ap), lands ap, seat_after ap))"
    and "\<not> ap_blocked ap \<Longrightarrow> ap_to ap \<in> {StAtPickup, StPickedUp} \<Longrightarrow> lo_driver (ap_lo ap) \<noteq> None"
proof -
  obtain lo d where lo: "lockOrderTx ord db = Inr lo" and a: "applyTransitionTx env hook req lo db = Inr (ap, d)"
    and b: "(if ap_blocked ap
       then bindE (merchantBlocked env ord (rq_actor req) (lo_from lo) (lo_kind lo) (rq_reason req) (rq_fault req) (rq_note req)
                    (lo_driver lo) (lo_fee lo) d) (\<lambda>db. Inr (ap, db)) else Inr (ap, d)) = Inr (ap, db')"
    using assms(1) by (auto simp: one_move_def branches)
  have ap: "ap_lo ap = lo" by (rule applied_to(2)[OF a])
  have i: "lo_id lo = ord" by (rule lock_status(1)[OF lo])
  from lock_seat[OF lo] ap show s: "seats_of db ord = Some (lo_kind (ap_lo ap), lo_from (ap_lo ap), lo_driver (ap_lo ap))" by simp
  note r = applied_seat[OF a _ assms(2), unfolded i, OF lock_seat[OF lo]]
  have at_pickup: "ap_blocked ap \<Longrightarrow> lo_from lo = StAtPickup" using one_move_steps(4)[OF assms(1,3)] ap by simp
  show "seats_of db' = (seats_of db)(ord \<mapsto> (lo_kind (ap_lo ap), lands ap, seat_after ap))"
  proof (cases "ap_blocked ap")
    case True
    with b have m: "merchantBlocked env ord (rq_actor req) (lo_from lo) (lo_kind lo) (rq_reason req) (rq_fault req) (rq_note req)
        (lo_driver lo) (lo_fee lo) d = Inr db'" by (auto simp: branches)
    have "seats_of d = seats_of db" using r True by simp
    with seats_blocked[OF m, of "lo_from lo" "lo_driver lo"] s True at_pickup ap show ?thesis
      by (auto simp: seat_after_def lands_def fun_upd_idem)
  next
    case False
    then have "db' = d" using b by simp
    with r False ap show ?thesis by (auto simp: seat_after_def lands_def)
  qed
  show "\<not> ap_blocked ap \<Longrightarrow> ap_to ap \<in> {StAtPickup, StPickedUp} \<Longrightarrow> lo_driver (ap_lo ap) \<noteq> None"
    using r ap by simp
qed

section \<open>Orders on the road\<close>

text \<open>From the arrival at the store on, an order has a driver.\<close>

definition on_road :: "status \<Rightarrow> bool" where
  "on_road s \<longleftrightarrow> s \<in> {StAtPickup, StPickedUp, StOnTheWay, StAtDropoff, StDelivered, StRefunded}"

definition well_seated :: "'a orders_db_scheme \<Rightarrow> bool" where
  "well_seated db \<longleftrightarrow> (\<forall>j k s d. seats_of db j = Some (k, s, d) \<longrightarrow> on_road s \<longrightarrow> d \<noteq> None)"

lemma well_seated_same: "seats_of db' = seats_of db \<Longrightarrow> well_seated db \<Longrightarrow> well_seated db'"
  by (simp add: well_seated_def)

lemma well_seated_upd:
  "well_seated db \<Longrightarrow> seats_of db' = (seats_of db)(ord \<mapsto> (k, s, d)) \<Longrightarrow> (on_road s \<longrightarrow> d \<noteq> None) \<Longrightarrow> well_seated db'"
  by (auto simp: well_seated_def)

lemma road_entered: "has_edge k from_st to \<Longrightarrow> on_road to \<Longrightarrow> to \<in> {StAtPickup, StPickedUp} \<or> on_road from_st"
  by (cases k; cases from_st) (auto simp: on_road_def has_edge_def map_simps)

lemma one_move_seated:
  fixes db :: "'a engine_db_scheme"
  assumes "one_move env hook ord req db = Inr (ap, db')" and "keeps_seats hook" and "keeps_work hook" and "well_seated db"
  shows "well_seated db'"
proof (rule well_seated_upd[OF assms(4) one_move_seat(2)[OF assms(1-3)]], rule impI)
  note s = one_move_seat[OF assms(1-3)]
  assume r: "on_road (lands ap)"
  have d: "on_road (lo_from (ap_lo ap)) \<Longrightarrow> lo_driver (ap_lo ap) \<noteq> None" using assms(4) s(1) by (auto simp: well_seated_def)
  show "seat_after ap \<noteq> None"
  proof (cases "ap_blocked ap")
    case True
    then have "lo_from (ap_lo ap) = StAtPickup" using one_move_steps(4)[OF assms(1,3)] by simp
    with True r d show ?thesis by (auto simp: seat_after_def lands_def on_road_def split: if_splits)
  next
    case False
    have "has_edge (lo_kind (ap_lo ap)) (lo_from (ap_lo ap)) (ap_to ap)"
      by (rule canTransition_has_edge[OF one_move_steps(2)[OF assms(1,3)]])
    with road_entered r False s(3) d show ?thesis by (auto simp: seat_after_def lands_def driver_after_def on_road_def)
  qed
qed

end
