(* ===== verification/Dispatch.thy ===== *)
theory Dispatch
  imports Seats "HOL-Library.Option_ord"
begin

text \<open>
  Who is offered an order that waits for a driver (\<open>orders/rotation.go\<close>, \<open>sameroute.go\<close>, \<open>customer_rotation.go\<close>,
  \<open>queue_visibility.go\<close>): the drivers that may take it, the one whose turn it is, the offer or the direct assignment,
  and what moves the turn on. The queries that rank drivers are filters and stable sorts of the users; distances and
  areas are the geometry of the \<open>env\<close>. An operation that logs an error and goes on keeps what it had committed.
\<close>

section \<open>Settings\<close>

definition AssignmentMode :: "env \<Rightarrow> string" where
  "AssignmentMode env = (case en_settings env of None \<Rightarrow> ''queue'' | Some s \<Rightarrow> getString s ''drivers.assignment_mode'')"

definition offerTimeout :: "env \<Rightarrow> int" where
  "offerTimeout env = settingInt env ''drivers.offer_timeout_sec''"

definition silenceTimeout :: "env \<Rightarrow> int" where
  "silenceTimeout env = settingInt env ''drivers.assigned_silence_sec''"

definition directAssign :: "env \<Rightarrow> bool" where
  "directAssign env \<longleftrightarrow> AssignmentMode env = ''rotation'' \<and> setting env ''drivers.direct_assign''"

definition ProximityEnabled :: "env \<Rightarrow> bool" where
  "ProximityEnabled env = setting env ''drivers.proximity_enabled''"

record dispatch_proximity =
  dp_cash :: int
  dp_active :: int
  dp_fresh :: int
  dp_initial :: int
  dp_step :: int
  dp_max :: int
  dp_timeout :: int

definition DispatchProximity :: "env \<Rightarrow> dispatch_proximity" where
  "DispatchProximity env = \<lparr>dp_cash = settingInt env ''drivers.cash_limit'', dp_active = settingInt env ''drivers.max_active_orders'',
     dp_fresh = settingInt env ''drivers.location_fresh_sec'', dp_initial = settingInt env ''drivers.dispatch_radius_initial_m'',
     dp_step = settingInt env ''drivers.dispatch_radius_step_m'', dp_max = settingInt env ''drivers.dispatch_radius_max_m'',
     dp_timeout = max (offerTimeout env) 1\<rparr>"

section \<open>The same customer again\<close>

definition sameCustomerCap :: "env \<Rightarrow> int" where
  "sameCustomerCap env = (let n = settingInt env ''drivers.same_customer_weekly_max'' in if n < 0 then 0 else n)"

definition same_customer_over :: "'a orders_db_scheme \<Rightarrow> order \<Rightarrow> int \<Rightarrow> user_id \<Rightarrow> bool" where
  "same_customer_over db x cap d \<longleftrightarrow> cap > 0 \<and>
     int (length [h \<leftarrow> orders db. o_customer h = o_customer x \<and> o_driver h = Some d \<and> o_id h \<noteq> o_id x \<and> o_status h = StDelivered \<and>
       (case o_delivered_at h of None \<Rightarrow> False | Some t \<Rightarrow> t > db_now db - 7 * 86400)]) \<ge> cap"

definition overQuota :: "env \<Rightarrow> user_id \<Rightarrow> string \<Rightarrow> 'a orders_db_scheme \<Rightarrow> bool" where
  "overQuota env d ord db \<longleftrightarrow> sameCustomerCap env > 0 \<and> d \<noteq> '''' \<and>
     (case order_of db ord of None \<Rightarrow> False | Some x \<Rightarrow> same_customer_over db x (sameCustomerCap env) d)"

section \<open>Where the order is\<close>

definition dispatch_anchor :: "'a obligations_db_scheme \<Rightarrow> order \<Rightarrow> point option" where
  "dispatch_anchor db x =
    (case o_pickup_override x of Some p \<Rightarrow> Some p | None \<Rightarrow>
    (case (if o_kind x = KindMerchantDelivery \<and> o_delivery_mode x = DeliveryModeFetch \<and> o_dropoff_known x then o_dropoff x else None) of
       Some p \<Rightarrow> Some p | None \<Rightarrow>
    (case (case o_merchant x of None \<Rightarrow> None | Some m \<Rightarrow> (case merchant_of db m of None \<Rightarrow> None | Some row \<Rightarrow> m_location row)) of
       Some p \<Rightarrow> Some p | None \<Rightarrow>
    (case (if o_kind x = KindCustom then o_dropoff x else None) of
       Some p \<Rightarrow> Some p | None \<Rightarrow>
     if o_origin x = OriginWhatsApp \<and> o_dropoff_known x then o_dropoff x else None))))"

text \<open>How long the order has been waiting.\<close>

definition waiting_since :: "order \<Rightarrow> int" where
  "waiting_since x = (case o_dispatched_at x of None \<Rightarrow> o_created_at x | Some t \<Rightarrow> t)"

definition wait_seconds :: "'a wallet_db_scheme \<Rightarrow> order \<Rightarrow> int" where
  "wait_seconds db x = max 0 (db_now db - waiting_since x)"

definition zone_gate :: "env \<Rightarrow> order \<Rightarrow> user \<Rightarrow> 'a engine_db_scheme \<Rightarrow> bool" where
  "zone_gate env x u db =
    (case o_zone x of
       None \<Rightarrow> True
     | Some z \<Rightarrow> list_ex (\<lambda>r. zn_id r = z \<and> zn_active r \<and>
         (case u_location u of None \<Rightarrow> False | Some p \<Rightarrow>
            zn_shape r = ''radius'' \<and> (case zn_center r of None \<Rightarrow> False | Some c \<Rightarrow> en_distance env c p \<le> of_int (zn_radius r)) \<or>
            zn_shape r = ''polygon'' \<and> (case zn_area r of None \<Rightarrow> False | Some a \<Rightarrow> en_covers env a p))) (delivery_zones db))"

section \<open>Drivers that may take it\<close>

text \<open>The cash in hand and to be collected, with that of the order, is within the limit; stopped drivers only take orders without cash.\<close>

definition cash_fits :: "'a cash_db_scheme \<Rightarrow> user_id \<Rightarrow> int \<Rightarrow> int \<Rightarrow> bool" where
  "cash_fits db d due limit \<longleftrightarrow>
     Exposure db d + due \<le> (case cash_override db d of Some l \<Rightarrow> l | None \<Rightarrow> limit) \<and> (due = 0 \<or> \<not> cash_overdue_stopped db d)"

definition other_offer :: "'a orders_db_scheme \<Rightarrow> string \<Rightarrow> user_id \<Rightarrow> bool" where
  "other_offer db ord d \<longleftrightarrow> list_ex (\<lambda>y. o_offered_driver y = Some d \<and> o_id y \<noteq> ord \<and> o_status y = StDispatching \<and> o_driver y = None \<and>
     (case o_offer_expires y of None \<Rightarrow> False | Some t \<Rightarrow> t > db_now db)) (orders db)"

definition order_due :: "'a orders_db_scheme \<Rightarrow> string \<Rightarrow> int" where
  "order_due db ord = (case order_of db ord of None \<Rightarrow> 0 | Some x \<Rightarrow> o_cash_due x)"

text \<open>What every turn asks of a driver.\<close>

definition may_be_offered :: "'a cash_db_scheme \<Rightarrow> string \<Rightarrow> user_id list \<Rightarrow> int \<Rightarrow> int \<Rightarrow> user \<Rightarrow> bool" where
  "may_be_offered db ord skip limit maxActive u \<longleftrightarrow>
     u_driver u \<and> u_on_shift u \<and> u_status u = ''active'' \<and> u_id u \<notin> set skip \<and> cash_fits db (u_id u) (order_due db ord) limit \<and>
     int (length (open_orders db (u_id u))) < maxActive \<and> \<not> other_offer db ord (u_id u)"

definition fresh_location :: "'a wallet_db_scheme \<Rightarrow> int \<Rightarrow> user \<Rightarrow> point option" where
  "fresh_location db fresh u = (case u_location_at u of None \<Rightarrow> None | Some t \<Rightarrow> if t > db_now db - fresh then u_location u else None)"

section \<open>Whose turn it is\<close>

text \<open>\<open>last_assigned_at NULLS FIRST, shift_started_at, id\<close>, after the keys of the query.\<close>

definition by_turn :: "('a \<Rightarrow> user) \<Rightarrow> 'a list \<Rightarrow> 'a list" where
  "by_turn f us = sort_key (\<lambda>a. u_last_assigned (f a)) (sort_key (\<lambda>a. (u_shift_started (f a) = None, u_shift_started (f a))) (sort_key (\<lambda>a. text_key (u_id (f a))) us))"

definition first_user :: "user list \<Rightarrow> err + user_id" where
  "first_user us = (case us of [] \<Rightarrow> Inl ErrNoRows | u # _ \<Rightarrow> Inr (u_id u))"

definition over_cap :: "env \<Rightarrow> string \<Rightarrow> 'a orders_db_scheme \<Rightarrow> user \<Rightarrow> bool" where
  "over_cap env ord db u = (case order_of db ord of None \<Rightarrow> False | Some x \<Rightarrow> same_customer_over db x (sameCustomerCap env) (u_id u))"

definition legacyRotationCandidate ::
  "env \<Rightarrow> string \<Rightarrow> user_id list \<Rightarrow> int \<Rightarrow> int \<Rightarrow> 'a cash_db_scheme \<Rightarrow> err + user_id" where
  "legacyRotationCandidate env ord skip limit maxActive db =
     first_user (sort_key (over_cap env ord db) (by_turn id [u \<leftarrow> users db. may_be_offered db ord skip limit maxActive u]))"

text \<open>The distance in buckets.\<close>

definition bucket_of :: "env \<Rightarrow> int \<Rightarrow> point \<Rightarrow> point \<Rightarrow> int" where
  "bucket_of env bucket p q = \<lfloor>en_distance env p q / of_int (max bucket 1)\<rfloor>"

definition near_drivers ::
  "env \<Rightarrow> string \<Rightarrow> user_id list \<Rightarrow> int \<Rightarrow> int \<Rightarrow> int \<Rightarrow> 'a engine_db_scheme \<Rightarrow> (user \<times> point) list" where
  "near_drivers env ord skip limit maxActive fresh db =
    (case order_of db ord of
       None \<Rightarrow> []
     | Some x \<Rightarrow> concat (map (\<lambda>u. case fresh_location db fresh u of None \<Rightarrow> [] | Some p \<Rightarrow> [(u, p)])
         [u \<leftarrow> users db. may_be_offered db ord skip limit maxActive u \<and>
            (setting env ''drivers.zone_gate_enabled'' \<longrightarrow> zone_gate env x u db)]))"

definition proximityInRadius ::
  "env \<Rightarrow> string \<Rightarrow> user_id list \<Rightarrow> int \<Rightarrow> int \<Rightarrow> int \<Rightarrow> int \<Rightarrow> int \<Rightarrow> 'a engine_db_scheme \<Rightarrow> err + user_id" where
  "proximityInRadius env ord skip limit maxActive fresh radius bucket db =
    (case order_of db ord of
       None \<Rightarrow> Inl ErrNoRows
     | Some x \<Rightarrow> (case dispatch_anchor db x of
         None \<Rightarrow> Inl ErrNoRows
       | Some a \<Rightarrow> first_user (map fst (sort_key (\<lambda>(u, _). over_cap env ord db u) (sort_key (\<lambda>(_, p). bucket_of env bucket p a)
           (by_turn fst [up \<leftarrow> near_drivers env ord skip limit maxActive fresh db. en_distance env (snd up) a \<le> of_int radius])))))) "

definition freshFallbackCandidate ::
  "env \<Rightarrow> string \<Rightarrow> user_id list \<Rightarrow> int \<Rightarrow> int \<Rightarrow> int \<Rightarrow> int \<Rightarrow> 'a engine_db_scheme \<Rightarrow> err + user_id" where
  "freshFallbackCandidate env ord skip limit maxActive fresh bucket db =
    (case order_of db ord of
       None \<Rightarrow> Inl ErrNoRows
     | Some x \<Rightarrow> first_user (map fst (sort_key (\<lambda>(u, _). over_cap env ord db u)
         (sort_key (\<lambda>(_, p). case dispatch_anchor db x of None \<Rightarrow> 0 | Some a \<Rightarrow> bucket_of env bucket p a)
           (by_turn fst (near_drivers env ord skip limit maxActive fresh db))))))"

definition orderDispatchInfo :: "string \<Rightarrow> 'a obligations_db_scheme \<Rightarrow> err + bool \<times> int" where
  "orderDispatchInfo ord db =
    (case order_of db ord of None \<Rightarrow> Inl ErrNoRows | Some x \<Rightarrow> Inr (dispatch_anchor db x \<noteq> None, wait_seconds db x))"

text \<open>The driver, or whether to wait for the radius to grow.\<close>

definition pickRotationCandidate ::
  "env \<Rightarrow> string \<Rightarrow> user_id list \<Rightarrow> int \<Rightarrow> int \<Rightarrow> 'a engine_db_scheme \<Rightarrow> (err + user_id) \<times> bool" where
  "pickRotationCandidate env ord skip limit maxActive db =
    (if \<not> ProximityEnabled env then (legacyRotationCandidate env ord skip limit maxActive db, False)
     else case orderDispatchInfo ord db of
       Inl e \<Rightarrow> (Inl e, False)
     | Inr (hasPickup, waitSec) \<Rightarrow>
         let fresh = settingInt env ''drivers.location_fresh_sec''; initR = settingInt env ''drivers.dispatch_radius_initial_m'';
             stepR = settingInt env ''drivers.dispatch_radius_step_m''; maxR = settingInt env ''drivers.dispatch_radius_max_m'';
             bucket = settingInt env ''drivers.proximity_bucket_m''; timeout = max (offerTimeout env) 1;
             fallback = (case freshFallbackCandidate env ord skip limit maxActive fresh bucket db of
                           Inr d \<Rightarrow> (Inr d, False) | Inl _ \<Rightarrow> (Inl ErrNoRows, True))
         in if \<not> hasPickup then fallback
            else let radius = wrap64 (initR + wrap64 (stepR * go_div waitSec timeout));
                     radius = (if radius \<ge> maxR then maxR else radius);
                     atMax = (radius \<ge> maxR \<or> stepR \<le> 0)
                 in (case proximityInRadius env ord skip limit maxActive fresh radius bucket db of
                       Inr d \<Rightarrow> (Inr d, False)
                     | Inl _ \<Rightarrow> if atMax then fallback else (Inl ErrNoRows, True)))"

section \<open>The queue\<close>

definition QueueBase :: "order \<Rightarrow> user_id \<Rightarrow> bool" where
  "QueueBase x d \<longleftrightarrow> (o_offered_driver x = None \<or> o_offered_driver x = Some d) \<and> d \<notin> set (o_offer_passed x) \<and> d \<notin> set (o_excluded x)"

definition queueEligible :: "'a cash_db_scheme \<Rightarrow> order \<Rightarrow> int \<Rightarrow> int \<Rightarrow> user \<Rightarrow> bool" where
  "queueEligible db x cash maxActive u \<longleftrightarrow> u_on_shift u \<and> u_status u = ''active'' \<and>
     cash_fits db (u_id u) (o_cash_due x) cash \<and> int (length (open_orders db (u_id u))) < maxActive"

definition queue_radius :: "dispatch_proximity \<Rightarrow> int \<Rightarrow> int" where
  "queue_radius dp wait = min (dp_max dp) (dp_initial dp + dp_step dp * (wait div max (dp_timeout dp) 1))"

definition QueueVisible :: "env \<Rightarrow> order \<Rightarrow> user \<Rightarrow> 'a engine_db_scheme \<Rightarrow> bool" where
  "QueueVisible env x u db =
    (let dp = DispatchProximity env; radius = queue_radius dp (wait_seconds db x)
     in QueueBase x (u_id u) \<and> queueEligible db x (dp_cash dp) (dp_active dp) u \<and>
        (case fresh_location db (dp_fresh dp) u of
           None \<Rightarrow> False
         | Some p \<Rightarrow> (case dispatch_anchor db x of None \<Rightarrow> True | Some a \<Rightarrow> en_distance env p a \<le> of_int radius \<or>
             dp_step dp \<le> 0 \<or> radius \<ge> dp_max dp)))"

text \<open>A driver over his quota of a customer waits while another driver could take the order.\<close>

definition SameCustomerGate :: "env \<Rightarrow> order \<Rightarrow> user \<Rightarrow> 'a engine_db_scheme \<Rightarrow> bool" where
  "SameCustomerGate env x u db =
    (let cap = sameCustomerCap env; dp = DispatchProximity env
     in cap \<le> 0 \<or> AssignmentMode env = ''rotation'' \<or> \<not> same_customer_over db x cap (u_id u) \<or>
        waiting_since x \<le> db_now db - dp_timeout dp \<or>
        \<not> list_ex (\<lambda>v. u_driver v \<and> u_id v \<noteq> u_id u \<and> u_on_shift v \<and> u_status v = ''active'' \<and> \<not> same_customer_over db x cap (u_id v) \<and>
             (if ProximityEnabled env then QueueVisible env x v db
              else QueueBase x (u_id v) \<and> queueEligible db x (dp_cash dp) (dp_active dp) v)) (users db))"

definition queueAudience :: "env \<Rightarrow> string \<Rightarrow> 'a engine_db_scheme \<Rightarrow> user_id list" where
  "queueAudience env ord db =
    (case order_of db ord of
       None \<Rightarrow> []
     | Some x \<Rightarrow> map u_id [u \<leftarrow> users db. u_driver u \<and> u_on_shift u \<and> u_status u = ''active'' \<and> o_status x = StDispatching \<and> o_driver x = None \<and>
         (if ProximityEnabled env then QueueVisible env x u db else QueueBase x (u_id u)) \<and> SameCustomerGate env x u db])"

definition excludedDrivers :: "string \<Rightarrow> 'a orders_db_scheme \<Rightarrow> user_id list" where
  "excludedDrivers ord db = (case order_of db ord of None \<Rightarrow> [] | Some x \<Rightarrow> o_excluded x)"

definition sameCustomerAlternative :: "env \<Rightarrow> string \<Rightarrow> user_id \<Rightarrow> 'a engine_db_scheme \<Rightarrow> bool" where
  "sameCustomerAlternative env ord except db =
    (if AssignmentMode env = ''rotation'' then
       (case fst (pickRotationCandidate env ord (except # excludedDrivers ord db) (settingInt env ''drivers.cash_limit'')
               (settingInt env ''drivers.max_active_orders'') db) of
          Inl _ \<Rightarrow> False
        | Inr d \<Rightarrow> d \<noteq> '''' \<and> d \<noteq> except \<and> \<not> overQuota env d ord db)
     else list_ex (\<lambda>d. d \<noteq> except \<and> \<not> overQuota env d ord db) (queueAudience env ord db))"

section \<open>A driver on the same route\<close>

record same_route =
  sr_driver :: user_id
  sr_anchor :: string
  sr_pickups :: rat
  sr_dropoffs :: rat
  sr_over :: bool
  sr_same :: bool

definition pickup_point :: "'a obligations_db_scheme \<Rightarrow> order \<Rightarrow> point option" where
  "pickup_point db x =
    (case (case o_merchant x of None \<Rightarrow> None | Some m \<Rightarrow> merchant_of db m) of
       None \<Rightarrow> None
     | Some row \<Rightarrow> (case o_pickup_override x of Some p \<Rightarrow> Some p | None \<Rightarrow> m_location row))"

text \<open>One running order of a driver beside the new one; of two at the same distance the first row is taken.\<close>

definition route_row :: "env \<Rightarrow> order \<Rightarrow> 'a engine_db_scheme \<Rightarrow> order \<Rightarrow> same_route list" where
  "route_row env nw db a =
    (case (o_driver a, pickup_point db a, o_dropoff a, pickup_point db nw, o_dropoff nw) of
       (Some d, Some ap, Some ad, Some np, Some nd) \<Rightarrow>
         (case find (\<lambda>u. u_id u = d) (users db) of
            None \<Rightarrow> []
          | Some u \<Rightarrow> (case fresh_location db (settingInt env ''drivers.location_fresh_sec'') u of
              None \<Rightarrow> []
            | Some loc \<Rightarrow>
                if o_closed_at a = None \<and> o_status a \<in> {StAssigned, StAtPickup} \<and> o_stops a = 1 \<and> u_on_shift u \<and> u_status u = ''active'' \<and>
                   en_distance env ap np \<le> of_int (settingInt env ''drivers.same_route_radius_m'') \<and>
                   en_distance env ad nd \<le> of_int (settingInt env ''drivers.same_route_spread_m'') \<and>
                   en_distance env loc np < en_distance env loc nd \<and>
                   cash_fits db d (o_cash_due nw) (settingInt env ''drivers.cash_limit'') \<and>
                   int (length (open_orders db d)) < settingInt env ''drivers.max_active_orders'' + settingInt env ''drivers.same_route_extra''
                then [\<lparr>sr_driver = d, sr_anchor = o_id a, sr_pickups = en_distance env ap np, sr_dropoffs = en_distance env ad nd,
                       sr_over = same_customer_over db nw (sameCustomerCap env) d, sr_same = (o_customer a = o_customer nw)\<rparr>]
                else []))
     | _ \<Rightarrow> [])"

definition SameRouteDriver :: "env \<Rightarrow> string \<Rightarrow> 'a engine_db_scheme \<Rightarrow> same_route option" where
  "SameRouteDriver env ord db =
    (case order_of db ord of
       None \<Rightarrow> None
     | Some nw \<Rightarrow>
         if o_stops nw \<noteq> 1 then None
         else case sort_key sr_over (sort_key sr_pickups (concat (map (route_row env nw db) (orders db)))) of
                [] \<Rightarrow> None | c # _ \<Rightarrow> Some c)"

section \<open>Assigning directly\<close>

definition autoAssignNote :: string where "autoAssignNote = ''assigned by turn''"
definition sameRouteNote :: string where "sameRouteNote = ''assigned on the same route''"

definition update_user :: "user_id \<Rightarrow> (user \<Rightarrow> user) \<Rightarrow> 'a wallet_db_scheme \<Rightarrow> 'a wallet_db_scheme" where
  "update_user d f db = db\<lparr>users := map (\<lambda>u. if u_id u = d then f u else u) (users db)\<rparr>"

definition clear_offer :: "string \<Rightarrow> 'a orders_db_scheme \<Rightarrow> 'a orders_db_scheme" where
  "clear_offer ord = update_order ord (\<lambda>x. x\<lparr>o_offered_driver := None, o_offer_expires := None\<rparr>)"

text \<open>A direct assignment: admitted, written, the turn moved on, and the move of the driver; taken back when the move is refused.\<close>

definition assignDirectly ::
  "env \<Rightarrow> string \<Rightarrow> user_id \<Rightarrow> string \<Rightarrow> 'a engine_db_scheme \<Rightarrow> err option \<times> 'a engine_db_scheme" where
  "assignDirectly env ord d nt db =
    (case order_of db ord of
       None \<Rightarrow> (Some ErrNoRows, db)
     | Some x \<Rightarrow>
         (case AdmitDriverTx (en_cashbox env) d \<lparr>ad_cash_due = o_cash_due x, ad_cash_limit = settingInt env ''drivers.cash_limit'', ad_active_max = -1\<rparr> db of
            Inl _ \<Rightarrow> (None, if o_driver x = None \<and> o_offered_driver x = Some d then clear_offer ord db else db)
          | Inr _ \<Rightarrow>
              if o_status x \<noteq> StDispatching \<or> o_driver x \<noteq> None then (None, db)
              else let db = update_order ord (\<lambda>x. x\<lparr>o_offered_driver := Some d, o_driver := Some d,
                              o_offer_expires := Some (db_now db + silenceTimeout env)\<rparr>) db;
                       db = update_user d (\<lambda>u. u\<lparr>u_last_assigned := Some (db_now db)\<rparr>) db
                   in (case one_move env Inr ord (request d [''driver''] StAssigned nt) db of
                         Inr (_, db) \<Rightarrow> (None, db)
                       | Inl e \<Rightarrow> (Some e, update_order ord (\<lambda>x. if o_driver x = Some d
                           then x\<lparr>o_driver := None, o_offered_driver := None, o_offer_expires := None\<rparr> else x) db))))"

definition TrySameRoute :: "env \<Rightarrow> string \<Rightarrow> 'a engine_db_scheme \<Rightarrow> bool \<times> 'a engine_db_scheme" where
  "TrySameRoute env ord db =
    (case SameRouteDriver env ord db of
       None \<Rightarrow> (False, db)
     | Some c \<Rightarrow>
         if sr_over c \<and> \<not> sr_same c \<and> sameCustomerAlternative env ord (sr_driver c) db then (False, db)
         else let (e, db) = assignDirectly env ord (sr_driver c) sameRouteNote db in (e = None, db))"

section \<open>The next offer\<close>

definition isCustom :: "string \<Rightarrow> 'a orders_db_scheme \<Rightarrow> bool" where
  "isCustom ord db = (case order_of db ord of None \<Rightarrow> False | Some x \<Rightarrow> o_kind x = KindCustom)"

text \<open>The candidate; when everyone has passed, a new round without those excluded.\<close>

definition next_candidate ::
  "env \<Rightarrow> string \<Rightarrow> user_id list \<Rightarrow> 'a engine_db_scheme \<Rightarrow> ((err + user_id) \<times> bool) \<times> 'a engine_db_scheme" where
  "next_candidate env ord skip db =
    (let excluded = excludedDrivers ord db; limit = settingInt env ''drivers.cash_limit''; maxActive = settingInt env ''drivers.max_active_orders'';
         first = pickRotationCandidate env ord skip limit maxActive db
     in if fst first = Inl ErrNoRows \<and> length skip > length excluded then
          (case pickRotationCandidate env ord excluded limit maxActive db of
             (Inr d, wait) \<Rightarrow> ((Inr d, wait), update_order ord (\<lambda>x. x\<lparr>o_offer_passed := []\<rparr>) db)
           | (Inl _, _) \<Rightarrow> (first, db))
        else (first, db))"

definition offer_to :: "env \<Rightarrow> string \<Rightarrow> user_id \<Rightarrow> 'a engine_db_scheme \<Rightarrow> err option \<times> 'a engine_db_scheme" where
  "offer_to env ord d db =
    (if directAssign env \<and> \<not> isCustom ord db then assignDirectly env ord d autoAssignNote db
     else (None, update_order ord (\<lambda>x. if o_status x = StDispatching \<and> o_driver x = None
       then x\<lparr>o_offered_driver := Some d, o_offer_expires := Some (db_now db + offerTimeout env)\<rparr> else x) db))"

definition by_rotation :: "env \<Rightarrow> string \<Rightarrow> user_id list \<Rightarrow> 'a engine_db_scheme \<Rightarrow> err option \<times> 'a engine_db_scheme" where
  "by_rotation env ord skip db =
    (if AssignmentMode env \<noteq> ''rotation'' then (None, db)
     else let ((c, wait), db) = next_candidate env ord skip db
          in (case c of
                Inr d \<Rightarrow> offer_to env ord d db
              | Inl e \<Rightarrow> if e \<noteq> ErrNoRows then (Some e, db) else if wait then (None, db) else (None, clear_offer ord db)))"

definition OfferNext :: "env \<Rightarrow> string \<Rightarrow> user_id list \<Rightarrow> 'a engine_db_scheme \<Rightarrow> err option \<times> 'a engine_db_scheme" where
  "OfferNext env ord skip db =
    (let skip = skip @ excludedDrivers ord db
     in if skip = [] then (let (took, db) = TrySameRoute env ord db in if took then (None, db) else by_rotation env ord skip db)
        else by_rotation env ord skip db)"

section \<open>What moves the turn on\<close>

text \<open>An offer refused.\<close>

definition ErrOfferNotYours :: err where "ErrOfferNotYours = AppError ''offer_not_yours''"

definition DeclineOffer :: "env \<Rightarrow> string \<Rightarrow> user_id \<Rightarrow> 'a engine_db_scheme \<Rightarrow> err option \<times> 'a engine_db_scheme" where
  "DeclineOffer env ord d db =
    (let rotation = (AssignmentMode env = ''rotation'')
     in case order_of db ord of
          None \<Rightarrow> (Some ErrOfferNotYours, db)
        | Some x \<Rightarrow>
            if o_status x \<noteq> StDispatching \<or> o_driver x \<noteq> None \<or> rotation \<and> o_offered_driver x \<noteq> Some d then (Some ErrOfferNotYours, db)
            else let db = update_order ord (\<lambda>x. x\<lparr>o_offer_passed := o_offer_passed x @ [d],
                            o_offered_driver := (if o_offered_driver x = Some d then None else o_offered_driver x),
                            o_offer_expires := (if o_offered_driver x = Some d then None else o_offer_expires x)\<rparr>) db
                 in if \<not> rotation then (None, db) else OfferNext env ord (o_offer_passed x @ [d]) db)"

definition ExcludeDriverTx :: "string \<Rightarrow> user_id \<Rightarrow> 'a orders_db_scheme \<Rightarrow> 'a orders_db_scheme" where
  "ExcludeDriverTx ord d = update_order ord (\<lambda>x. if d \<in> set (o_excluded x) then x else x\<lparr>o_excluded := o_excluded x @ [d]\<rparr>)"

text \<open>An assignment its driver does not act on goes back to the queue, and the turn moves on.\<close>

definition reclaimNote :: string where "reclaimNote = ''taken back, no movement''"

definition silent :: "'a money_db_scheme \<Rightarrow> order \<Rightarrow> bool" where
  "silent db x \<longleftrightarrow> o_status x = StAssigned \<and> o_driver x \<noteq> None \<and> (case o_offer_expires x of None \<Rightarrow> False | Some t \<Rightarrow> t \<le> db_now db) \<and>
     \<not> list_ex (\<lambda>p. pa_order p = o_id x \<and> pa_status p = PartPickedUp) (order_parts db)"

definition reclaim_one :: "env \<Rightarrow> string \<times> user_id \<Rightarrow> 'a engine_db_scheme \<Rightarrow> 'a engine_db_scheme" where
  "reclaim_one env = (\<lambda>(ord, d) db.
    case order_of db ord of
      None \<Rightarrow> db
    | Some x \<Rightarrow>
        if o_status x = StAssigned \<and> o_driver x = Some d \<and> \<not> list_ex (\<lambda>p. pa_order p = ord \<and> pa_status p = PartPickedUp) (order_parts db)
        then let db = update_order ord (\<lambda>x. x\<lparr>o_driver := None, o_status := StDispatching, o_accepted_at := None, o_offered_driver := None,
                   o_offer_expires := None, o_dispatched_at := Some (db_now db), o_offer_passed := o_offer_passed x @ [d]\<rparr>) db;
                 db = add_event \<lparr>ev_order = ord, ev_from = StAssigned, ev_to = StDispatching, ev_actor = None, ev_note = reclaimNote,
                   ev_driver = Some d, ev_merchant = None\<rparr> db
             in snd (OfferNext env ord (o_offer_passed x @ [d]) db)
        else db)"

definition reclaimSilentAssignments :: "env \<Rightarrow> 'a engine_db_scheme \<Rightarrow> 'a engine_db_scheme" where
  "reclaimSilentAssignments env db =
    (if \<not> directAssign env then db
     else foldl (\<lambda>db s. reclaim_one env s db) db (map (\<lambda>x. (o_id x, case o_driver x of None \<Rightarrow> '''' | Some d \<Rightarrow> d)) [x \<leftarrow> orders db. silent db x]))"

text \<open>Offers that ran out.\<close>

definition ran_out :: "'a wallet_db_scheme \<Rightarrow> order \<Rightarrow> bool" where
  "ran_out db x \<longleftrightarrow> o_status x = StDispatching \<and> o_driver x = None \<and> (case o_offer_expires x of None \<Rightarrow> False | Some t \<Rightarrow> t \<le> db_now db)"

definition expire_one :: "env \<Rightarrow> string \<times> user_id \<Rightarrow> 'a engine_db_scheme \<Rightarrow> 'a engine_db_scheme" where
  "expire_one env = (\<lambda>(ord, d) db.
    case order_of db ord of
      None \<Rightarrow> db
    | Some x \<Rightarrow>
        if ran_out db x \<and> o_offered_driver x = Some d
        then let passed = (if d \<in> set (o_offer_passed x) then o_offer_passed x else o_offer_passed x @ [d])
             in snd (OfferNext env ord passed (update_order ord (\<lambda>x. x\<lparr>o_offer_passed := passed, o_offered_driver := None, o_offer_expires := None\<rparr>) db))
        else db)"

definition sweepOfferExpiry :: "env \<Rightarrow> 'a engine_db_scheme \<Rightarrow> 'a engine_db_scheme" where
  "sweepOfferExpiry env db =
    (let db = reclaimSilentAssignments env db
     in foldl (\<lambda>db e. expire_one env e db) db
          (concat (map (\<lambda>x. case o_offered_driver x of None \<Rightarrow> [] | Some d \<Rightarrow> [(o_id x, d)]) [x \<leftarrow> orders db. ran_out db x])))"

text \<open>The fifty orders that have waited longest without an offer.\<close>

definition offerWaiting :: "env \<Rightarrow> 'a engine_db_scheme \<Rightarrow> 'a engine_db_scheme" where
  "offerWaiting env db =
     foldl (\<lambda>db ord. case order_of db ord of None \<Rightarrow> db | Some x \<Rightarrow> snd (OfferNext env ord (o_offer_passed x) db)) db
       (take 50 (map o_id (sort_key o_dispatched_at (sort_key o_created_at
          [x \<leftarrow> orders db. o_status x = StDispatching \<and> o_driver x = None \<and> o_offered_driver x = None]))))"

definition SweepExpiredOffers :: "env \<Rightarrow> 'a engine_db_scheme \<Rightarrow> 'a engine_db_scheme" where
  "SweepExpiredOffers env db = (if AssignmentMode env \<noteq> ''rotation'' then db else offerWaiting env (sweepOfferExpiry env db))"

definition SweepWaitingOffers :: "env \<Rightarrow> 'a engine_db_scheme \<Rightarrow> 'a engine_db_scheme" where
  "SweepWaitingOffers env db = (if AssignmentMode env \<noteq> ''rotation'' then db else offerWaiting env db)"

section \<open>The order an offer moves\<close>

text \<open>An offer leaves every seat, or moves its own order from the queue to a driver.\<close>

definition seated :: "string \<Rightarrow> (string \<Rightarrow> (kind \<times> status \<times> user_id option) option) \<Rightarrow> (string \<Rightarrow> (kind \<times> status \<times> user_id option) option) \<Rightarrow> bool" where
  "seated ord v v' \<longleftrightarrow> v' = v \<or> (\<exists>k d. v ord = Some (k, StDispatching, None) \<and> has_edge k StDispatching StAssigned \<and>
     v' = v(ord \<mapsto> (k, StAssigned, Some d)))"

lemma seated_refl: "seated ord v v"
  by (simp add: seated_def)

lemma seats_update_user [same_seats]: "seats_of (update_user d f db) = seats_of db"
  by (rule seats_of_orders) (simp add: update_user_def)

lemma seats_clear_offer [same_seats]: "seats_of (clear_offer ord db) = seats_of db"
  by (simp add: clear_offer_def same_seats)

text \<open>The move an assignment asks for, once its row is written.\<close>

lemma assigned_seat:
  fixes db :: "'a engine_db_scheme"
  assumes m: "one_move env Inr ord (request actor roles StAssigned nt) db = Inr (ap, d1)"
    and x: "order_of db ord = Some x" "o_status x = StDispatching"
  shows "has_edge (o_kind x) StDispatching StAssigned" "seats_of d1 = (seats_of db)(ord \<mapsto> (o_kind x, StAssigned, o_driver x))"
proof -
  have to: "ap_to ap = StAssigned" using m by (auto simp: one_move_def branches request_def dest!: applied_to(1))
  then have nb: "\<not> ap_blocked ap" using one_move_steps(4)[OF m keeps_work_Inr] by auto
  have f: "lo_kind (ap_lo ap) = o_kind x" "lo_from (ap_lo ap) = StDispatching" "lo_driver (ap_lo ap) = o_driver x"
    using one_move_seat(1)[OF m keeps_seats_Inr keeps_work_Inr] x by (simp_all add: seats_of_def)
  show "has_edge (o_kind x) StDispatching StAssigned"
    using canTransition_has_edge[OF one_move_steps(2)[OF m keeps_work_Inr]] to f by simp
  show "seats_of d1 = (seats_of db)(ord \<mapsto> (o_kind x, StAssigned, o_driver x))"
    using one_move_seat(2)[OF m keeps_seats_Inr keeps_work_Inr] to nb f by (simp add: lands_def seat_after_def driver_after_def)
qed

lemma assignDirectly_seated:
  fixes db :: "'a engine_db_scheme"
  assumes "assignDirectly env ord d nt db = (e, db')"
  shows "seated ord (seats_of db) (seats_of db') \<and> (e \<noteq> None \<longrightarrow> seats_of db' = seats_of db)"
proof (cases "order_of db ord")
  case None
  then show ?thesis using assms by (simp add: assignDirectly_def seated_refl)
next
  case (Some x)
  let ?w = "\<lambda>x. x\<lparr>o_offered_driver := Some d, o_driver := Some d, o_offer_expires := Some (db_now db + silenceTimeout env)\<rparr>"
  let ?undo = "\<lambda>x. if o_driver x = Some d then x\<lparr>o_driver := None, o_offered_driver := None, o_offer_expires := None\<rparr> else x"
  let ?d = "update_user d (\<lambda>u. u\<lparr>u_last_assigned := Some (db_now db)\<rparr>) (update_order ord ?w db)"
  let ?m = "one_move env Inr ord (request d [''driver''] StAssigned nt) ?d"
  have w: "order_of ?d ord = Some (?w x)" using order_of_update[of ?w ord db ord] Some by (simp add: order_of_def update_user_def)
  have s: "seats_of ?d = (seats_of db)(ord \<mapsto> (o_kind x, o_status x, Some d))" using seats_update[of ?w ord db] Some by (simp add: same_seats)
  consider "seats_of db' = seats_of db"
    | ap d1 where "o_status x = StDispatching" "o_driver x = None" "?m = Inr (ap, d1)" "e = None" "db' = d1"
    | "o_status x = StDispatching" "o_driver x = None" "db' = update_order ord ?undo ?d"
    using assms Some unfolding assignDirectly_def Let_def
    by (auto simp: same_seats split: sum.split_asm if_split_asm prod.split_asm)
  then show ?thesis
  proof cases
    case 1
    then show ?thesis by (simp add: seated_refl)
  next
    case 2
    have o: "seats_of db ord = Some (o_kind x, StDispatching, None)" using Some 2 by (simp add: seats_of_def)
    from assigned_seat[OF 2(3) w] 2 s o show ?thesis by (auto simp: seated_def)
  next
    case 3
    have "seats_of db' = (seats_of db)(ord \<mapsto> (o_kind x, o_status x, None))"
      using seats_update[of ?undo ord ?d] w s unfolding 3(3) by simp
    then have "seats_of db' = seats_of db" using Some 3 by (auto simp: seats_of_def fun_upd_idem)
    then show ?thesis by (simp add: seated_refl)
  qed
qed

lemma offer_to_seated: "seated ord (seats_of db) (seats_of (snd (offer_to env ord u db)))"
proof -
  have "seats_of (update_order ord (\<lambda>x. if o_status x = StDispatching \<and> o_driver x = None
     then x\<lparr>o_offered_driver := Some u, o_offer_expires := t\<rparr> else x) db) = seats_of db" for t
    by (rule seats_update_same) simp
  then show ?thesis
    using assignDirectly_seated[of env ord u autoAssignNote db "fst (offer_to env ord u db)" "snd (offer_to env ord u db)"]
    by (simp add: offer_to_def seated_refl)
qed

lemma seats_next_candidate: "seats_of (snd (next_candidate env ord skip db)) = seats_of db"
  by (auto simp: next_candidate_def Let_def same_seats split: sum.split prod.split)

lemma by_rotation_seated: "seated ord (seats_of db) (seats_of (snd (by_rotation env ord skip db)))"
proof -
  obtain c w d where n: "next_candidate env ord skip db = ((c, w), d)" by (metis prod.exhaust)
  then have s: "seats_of d = seats_of db" using seats_next_candidate[of env ord skip db] by simp
  show ?thesis
  proof (cases "\<exists>u. c = Inr u \<and> AssignmentMode env = ''rotation''")
    case True
    then obtain u where "c = Inr u" "AssignmentMode env = ''rotation''" by blast
    then show ?thesis using offer_to_seated[of ord d env u] s by (simp add: by_rotation_def n)
  next
    case False
    then have "seats_of (snd (by_rotation env ord skip db)) = seats_of db"
      using n s by (cases c) (auto simp: by_rotation_def same_seats)
    then show ?thesis by (simp add: seated_refl)
  qed
qed

lemma TrySameRoute_seated:
  fixes db :: "'a engine_db_scheme"
  assumes "TrySameRoute env ord db = (took, db')"
  shows "seated ord (seats_of db) (seats_of db') \<and> (\<not> took \<longrightarrow> seats_of db' = seats_of db)"
proof (cases "SameRouteDriver env ord db")
  case None
  then show ?thesis using assms by (simp add: TrySameRoute_def seated_refl)
next
  case (Some c)
  obtain e d where a: "assignDirectly env ord (sr_driver c) sameRouteNote db = (e, d)"
    by (cases "assignDirectly env ord (sr_driver c) sameRouteNote db")
  then have "db' = db \<and> \<not> took \<or> db' = d \<and> took = (e = None)"
    using assms Some by (auto simp: TrySameRoute_def split: if_split_asm)
  then show ?thesis using assignDirectly_seated[OF a] by (auto simp: seated_refl)
qed

lemma OfferNext_seated: "seated ord (seats_of db) (seats_of (snd (OfferNext env ord skip db)))"
proof -
  obtain took d where t: "TrySameRoute env ord db = (took, d)" by (cases "TrySameRoute env ord db")
  show ?thesis
    using TrySameRoute_seated[OF t] by_rotation_seated[of ord db env "skip @ excludedDrivers ord db"]
      by_rotation_seated[of ord d env "[]"] t
    by (cases took) (auto simp: OfferNext_def Let_def)
qed

text \<open>The same for the statuses alone.\<close>

definition offered :: "string \<Rightarrow> (string \<Rightarrow> (kind \<times> status) option) \<Rightarrow> (string \<Rightarrow> (kind \<times> status) option) \<Rightarrow> bool" where
  "offered ord v v' \<longleftrightarrow> v' = v \<or> (\<exists>k. v ord = Some (k, StDispatching) \<and> has_edge k StDispatching StAssigned \<and> v' = v(ord \<mapsto> (k, StAssigned)))"

lemma OfferNext_offered: "offered ord (statuses_of db) (statuses_of (snd (OfferNext env ord skip db)))"
proof -
  let ?st = "\<lambda>v :: string \<Rightarrow> (kind \<times> status \<times> user_id option) option. \<lambda>j. map_option (\<lambda>(k, s, _). (k, s)) (v j)"
  have "statuses_of d = ?st (seats_of d)" for d :: "'a engine_db_scheme"
    by (simp add: statuses_of_def seats_of_def option.map_comp o_def)
  moreover have "seated ord v v' \<Longrightarrow> offered ord (?st v) (?st v')" for v v'
    by (auto simp: seated_def offered_def fun_eq_iff)
  ultimately show ?thesis using OfferNext_seated by metis
qed

end
