(* ===== verification/Moves.thy ===== *)
theory Moves
  imports Dispatch
begin

text \<open>
  A move from outside (\<open>transitionTx\<close>, \<open>Transition\<close>) and the moves that follow by themselves: accepting, preparing,
  dispatching and the direct assignment of a driver. What is only sent after the commit is left out.
\<close>

section \<open>A move and those that follow it\<close>

definition autoDispatchNote :: string where "autoDispatchNote = ''auto dispatch''"

definition autoPreparing :: "env \<Rightarrow> status \<Rightarrow> bool" where
  "autoPreparing env to \<longleftrightarrow> en_settings env \<noteq> None \<and> to = StAccepted \<and> self_manage env"

definition autoDispatch :: "env \<Rightarrow> status \<Rightarrow> bool" where
  "autoDispatch env to \<longleftrightarrow> en_settings env \<noteq> None \<and> to = StPreparing \<and> setting env ''orders.auto_dispatch'' \<and> self_manage env"

text \<open>The move that follows one that was made: its roles, status and note.\<close>

definition follow_up :: "env \<Rightarrow> kind \<Rightarrow> status \<Rightarrow> role list \<Rightarrow> (role list \<times> status \<times> string) option" where
  "follow_up env k to roles =
    (if k = KindMerchantDelivery then
       (if to = StAccepted \<and> en_settings env \<noteq> None \<and> setting env ''orders.auto_dispatch''
        then Some ([''ops''], StDispatching, autoDispatchNote) else None)
     else if to = StAccepted \<and> k \<noteq> KindCustom \<and> en_settings env \<noteq> None \<and> \<not> setting env ''orders.notify_merchant'' \<and>
             \<not> self_manage env then Some ([''ops''], StDispatching, autoDispatchNote)
     else if autoPreparing env to then Some (roles, StPreparing, '''')
     else if autoDispatch env to then Some ([''ops''], StDispatching, autoDispatchNote)
     else None)"

text \<open>How many moves may still follow one to this status.\<close>

definition followers :: "status \<Rightarrow> nat" where
  "followers st = (if st = StAccepted then 3 else if st = StPreparing then 2 else if st = StDispatching then 1 else 0)"

text \<open>An order sent to the drivers is offered at once, not to the driver it was taken from.\<close>

definition offer_after :: "env \<Rightarrow> applied \<Rightarrow> 'a engine_db_scheme \<Rightarrow> 'a engine_db_scheme" where
  "offer_after env ap db =
    (if ap_to ap = StDispatching
     then snd (OfferNext env (lo_id (ap_lo ap)) (case lo_driver (ap_lo ap) of None \<Rightarrow> [] | Some d \<Rightarrow> [d]) db) else db)"

lemma followers_less: "follow_up env k to roles = Some (rs, to', nt) \<Longrightarrow> followers to' < followers to"
  by (auto simp: follow_up_def followers_def autoPreparing_def autoDispatch_def split: if_splits)

lemma follow_up_none: "to \<notin> {StAccepted, StPreparing} \<Longrightarrow> follow_up env k to roles = None"
  by (auto simp: follow_up_def autoPreparing_def autoDispatch_def)

lemma one_move_to:
  assumes "one_move env hook ord req db = Inr (ap, db')"
  shows "followers (ap_to ap) \<le> followers (rq_to req)"
  using assms by (auto simp: one_move_def branches followers_def dest!: applied_to(1))

function Transition ::
  "env \<Rightarrow> user_id \<Rightarrow> role list \<Rightarrow> string \<Rightarrow> status \<Rightarrow> string \<Rightarrow> 'a engine_db_scheme \<Rightarrow> err + 'a engine_db_scheme" where
  "Transition env actor roles ord to nt db =
    (case one_move env Inr ord (request actor roles to nt) db of
       Inl e \<Rightarrow> Inl e
     | Inr (ap, db') \<Rightarrow>
         if ap_blocked ap then Inr db'
         else case follow_up env (lo_kind (ap_lo ap)) (ap_to ap) roles of
           None \<Rightarrow> Inr (offer_after env ap db')
         | Some (roles', to', nt') \<Rightarrow>
             (case Transition env actor roles' ord to' nt' (offer_after env ap db') of
                Inl _ \<Rightarrow> Inr (offer_after env ap db') | Inr db2 \<Rightarrow> Inr db2))"
  by pat_completeness auto
termination
  by (relation "measure (\<lambda>(_, _, _, _, to, _, _). followers to)")
    (auto simp: request_def dest!: one_move_to followers_less)

declare Transition.simps [simp del]

text \<open>What follows a committed move by itself.\<close>

definition afterTransition :: "env \<Rightarrow> applied \<times> transition_req \<Rightarrow> 'a engine_db_scheme \<Rightarrow> 'a engine_db_scheme" where
  "afterTransition env = (\<lambda>(ap, req) db.
     let db = offer_after env ap db
     in case follow_up env (lo_kind (ap_lo ap)) (ap_to ap) (rq_roles req) of
          None \<Rightarrow> db
        | Some (roles, to, nt) \<Rightarrow> (case Transition env (rq_actor req) roles (lo_id (ap_lo ap)) to nt db of Inl _ \<Rightarrow> db | Inr d \<Rightarrow> d))"

definition transitionTx ::
  "env \<Rightarrow> user_id \<Rightarrow> role list \<Rightarrow> string \<Rightarrow> status \<Rightarrow> string \<Rightarrow> string \<Rightarrow> string \<Rightarrow>
     ('a engine_db_scheme \<Rightarrow> err + 'a engine_db_scheme) \<Rightarrow> 'a engine_db_scheme \<Rightarrow> err + 'a engine_db_scheme" where
  "transitionTx env actor roles ord to nt reason fault hook db =
    (let req = request actor roles to nt\<lparr>rq_reason := reason, rq_fault := fault\<rparr>
     in bindE (one_move env hook ord req db) (\<lambda>(ap, db). Inr (if ap_blocked ap then db else afterTransition env (ap, req) db)))"

lemma Transition_eq: "Transition env actor roles ord to nt db = transitionTx env actor roles ord to nt '''' '''' Inr db"
proof -
  have "lo_id (ap_lo ap) = ord" if "one_move env Inr ord r db = Inr (ap, d)" for r ap d
    using lock_status(1)[OF one_move_steps(1)[OF that keeps_work_Inr]] .
  then show ?thesis
    by (subst Transition.simps) (auto simp: transitionTx_def afterTransition_def bindE_def request_def Let_def split: sum.splits option.splits)
qed

text \<open>The assignment of a driver is followed by nothing: what \<open>assignDirectly\<close> asks of \<open>Transition\<close> is one move.\<close>

lemma Transition_assigned:
  "Transition env actor roles ord StAssigned nt db =
    (case one_move env Inr ord (request actor roles StAssigned nt) db of Inl e \<Rightarrow> Inl e | Inr (_, db) \<Rightarrow> Inr db)"
proof -
  have "ap_to ap = StAssigned \<and> \<not> ap_blocked ap" if "one_move env Inr ord (request actor roles StAssigned nt) db = Inr (ap, d')" for ap d'
    using one_move_steps(4)[OF that keeps_work_Inr] that
    by (auto simp: one_move_def branches request_def dest!: applied_to(1))
  then show ?thesis
    by (subst Transition.simps) (auto simp: follow_up_def autoPreparing_def autoDispatch_def offer_after_def split: sum.splits)
qed

section \<open>Moves that follow by themselves\<close>

lemma offer_after_path:
  assumes "statuses_of db (lo_id (ap_lo ap)) = Some (k, s)"
  shows "\<exists>ss. length ss \<le> (if ap_to ap = StDispatching then 1 else 0) \<and>
    machine_path (lo_id (ap_lo ap)) (statuses_of db) ss (statuses_of (offer_after env ap db))"
proof (cases "statuses_of (offer_after env ap db) = statuses_of db")
  case True
  then show ?thesis using machine_path_refl[where v = "statuses_of db", OF assms] by (intro exI[of _ "[]"]) simp
next
  case False
  then have d: "ap_to ap = StDispatching" by (auto simp: offer_after_def)
  then have "offered (lo_id (ap_lo ap)) (statuses_of db) (statuses_of (offer_after env ap db))" by (simp add: offer_after_def OfferNext_offered)
  with False obtain k where "statuses_of db (lo_id (ap_lo ap)) = Some (k, StDispatching)" "has_edge k StDispatching StAssigned"
      "statuses_of (offer_after env ap db) = (statuses_of db)(lo_id (ap_lo ap) \<mapsto> (k, StAssigned))"
    by (auto simp: offered_def)
  with machine_path_step d show ?thesis by (intro exI[of _ "[StAssigned]"]) simp
qed

text \<open>A move of the engine, and its offer.\<close>

lemma one_move_path:
  assumes "one_move env hook ord req db = Inr (ap, d)" and "keeps_work hook"
  shows "machine_path ord (statuses_of db) [lands ap] (statuses_of d)"
    and "\<not> ap_blocked ap \<Longrightarrow> \<exists>ss. length ss \<le> Suc (if ap_to ap = StDispatching then 1 else 0) \<and> ss \<noteq> [] \<and> hd ss = lands ap \<and>
      machine_path ord (statuses_of db) ss (statuses_of (offer_after env ap d))"
proof -
  note i = lock_status[OF one_move_steps(1)[OF assms]]
  show p: "machine_path ord (statuses_of db) [lands ap] (statuses_of d)"
    using i(2) one_move_machine[OF assms] one_move_steps(3)[OF assms] by (simp add: machine_path_def)
  have "statuses_of d (lo_id (ap_lo ap)) = Some (lo_kind (ap_lo ap), lands ap)" using one_move_steps(3)[OF assms] i(1) by simp
  from offer_after_path[OF this, of env] obtain ss where "length ss \<le> (if ap_to ap = StDispatching then 1 else 0)"
      "machine_path ord (statuses_of d) ss (statuses_of (offer_after env ap d))"
    unfolding i(1) by blast
  with machine_path_trans[OF p] show "\<exists>ss. length ss \<le> Suc (if ap_to ap = StDispatching then 1 else 0) \<and> ss \<noteq> [] \<and> hd ss = lands ap \<and>
      machine_path ord (statuses_of db) ss (statuses_of (offer_after env ap d))"
    by (intro exI[of _ "[lands ap] @ ss"]) simp
qed

text \<open>A request is refused exactly when its own move is.\<close>

lemma Transition_total:
  assumes "one_move env Inr ord (request actor roles to nt) db = Inr (ap, d)"
  shows "\<exists>db'. Transition env actor roles ord to nt db = Inr db'"
  using assms by (simp add: Transition.simps[of env actor roles ord to nt db] split: option.split sum.split)

lemma Transition_first:
  assumes "Transition env actor roles ord to nt db = Inr db'"
  shows "\<exists>ap d. one_move env Inr ord (request actor roles to nt) db = Inr (ap, d)"
  using assms by (auto simp: Transition.simps[of env actor roles ord to nt db] split: sum.splits)

lemma Transition_refused:
  assumes "failed (one_move env Inr ord (request actor roles to nt) db)"
  shows "\<exists>e. Transition env actor roles ord to nt db = Inl e"
  using assms by (simp add: Transition.simps[of env actor roles ord to nt db] failed_def split: sum.splits)

lemma Transition_path:
  fixes db :: "'a engine_db_scheme"
  assumes "Transition env actor roles ord to nt db = Inr db'" and "one_move env Inr ord (request actor roles to nt) db = Inr (ap, d)"
  shows "\<exists>ss. ss \<noteq> [] \<and> hd ss = lands ap \<and> length ss \<le> Suc (followers to) \<and> machine_path ord (statuses_of db) ss (statuses_of db')"
  using assms
proof (induction env actor roles ord to nt db arbitrary: db' ap d rule: Transition.induct)
  case (1 env actor roles ord to nt db)
  note unf = Transition.simps[of env actor roles ord to nt db]
  note m = "1.prems"(2)
  note p = one_move_path[OF m keeps_work_Inr]
  have fl: "followers (ap_to ap) \<le> followers to" using one_move_to[OF m] by (simp add: request_def)
  show ?case
  proof (cases "ap_blocked ap")
    case True
    then have "db' = d" using "1.prems" m by (simp add: unf)
    then show ?thesis using p(1) by (intro exI[of _ "[lands ap]"]) simp
  next
    case nb: False
    from p(2)[OF nb] obtain ss where ss: "length ss \<le> Suc (if ap_to ap = StDispatching then 1 else 0)" "ss \<noteq> []" "hd ss = lands ap"
      "machine_path ord (statuses_of db) ss (statuses_of (offer_after env ap d))" by blast
    then have len: "length ss \<le> Suc (followers to)" using fl by (auto simp: followers_def split: if_splits)
    show ?thesis
    proof (cases "db' = offer_after env ap d")
      case True
      then show ?thesis using ss len by blast
    next
      case False
      then obtain roles' to' nt' where f: "follow_up env (lo_kind (ap_lo ap)) (ap_to ap) roles = Some (roles', to', nt')"
        and t: "Transition env actor roles' ord to' nt' (offer_after env ap d) = Inr db'"
        using "1.prems" m nb by (auto simp: unf split: option.splits sum.splits)
      obtain ap' d' where "one_move env Inr ord (request actor roles' to' nt') (offer_after env ap d) = Inr (ap', d')"
        using Transition_first[OF t] by blast
      from "1.IH"[OF m refl nb f refl refl t this] obtain ts where "length ts \<le> Suc (followers to')"
          "machine_path ord (statuses_of (offer_after env ap d)) ts (statuses_of db')" by blast
      moreover have "ap_to ap \<noteq> StDispatching" using followers_less[OF f] f by (auto simp: follow_up_def autoPreparing_def autoDispatch_def split: if_splits)
      ultimately show ?thesis
        using machine_path_trans[OF ss(4)] ss(1-3) fl followers_less[OF f] by (intro exI[of _ "ss @ ts"]) auto
    qed
  qed
qed

section \<open>Properties\<close>

text \<open>Stores that manage their orders and drivers who are sent at once: an order of one store, just placed.\<close>

definition example_env :: env where
  "example_env = \<lparr>en_settings = Some \<lparr>getString = (\<lambda>k. if k = ''platform.orders_mode'' then ''merchants'' else ''''),
     getInt = (\<lambda>_. 120), getHundredths = (\<lambda>_. 0), getBool = (\<lambda>_. True)\<rparr>, en_whatsapp = False, en_notify = True, en_code = Inr ''1234'', en_uuid = (\<lambda>_. True), en_distance = (\<lambda>p q. of_int (max \<bar>fst p - fst q\<bar> \<bar>snd p - snd q\<bar>)), en_covers = (\<lambda>_ _. True), en_cashbox = True\<rparr>"

definition example_engine_db :: "status \<Rightarrow> engine_db" where
  "example_engine_db st = money_db.extend (example_held_db\<lparr>orders := [example_order\<lparr>o_status := st\<rparr>]\<rparr>)
     \<lparr>order_events = [], promo_codes = [], promo_redemptions = [], late_warnings = [], campaigns = [], menu_items = [], delivery_zones = []\<rparr>"

text \<open>
  C22. A move of the engine is a move of the published machine: whatever \<open>transitionTx\<close> applies, the order was
  in a status the machine leaves by an edge open to the roles that count in this mode, it ends in the
  status the machine steps to (a store blocked at the pickup sends it back to accepted, or leaves a delivery
  where it is), and no other order changes its status or kind.
\<close>

theorem moves_refine_the_machine:
  assumes "one_move env hook ord req db = Inr (ap, db')" and "keeps_work hook"
  shows "\<exists>k s. statuses_of db ord = Some (k, s) \<and> canTransition k s (ap_to ap) (effective_roles env (ap_lo ap) req) \<and>
    machine_step k s (lands ap) \<and> statuses_of db' = (statuses_of db)(ord \<mapsto> (k, lands ap))"
  using lock_status(2)[OF one_move_steps(1)[OF assms]] one_move_steps(2,3)[OF assms] one_move_machine[OF assms] by blast

lemma moves_refine_the_machine_witness:
  "\<exists>ap db. one_move example_env Inr ''o1'' (request ''u'' [''ops''] StFailed ''closed''\<lparr>rq_fault := ''merchant''\<rparr>) (example_engine_db StAtPickup) = Inr (ap, db) \<and>
     ap_to ap = StFailed \<and> statuses_of db ''o1'' = Some (KindStandard, StAccepted)"
proof -
  have "case one_move example_env Inr ''o1'' (request ''u'' [''ops''] StFailed ''closed''\<lparr>rq_fault := ''merchant''\<rparr>) (example_engine_db StAtPickup) of
      Inl _ \<Rightarrow> False | Inr (ap, db) \<Rightarrow> ap_to ap = StFailed \<and> ap_blocked ap \<and> lo_kind (ap_lo ap) = KindStandard"
    by code_simp
  then obtain ap db where m: "one_move example_env Inr ''o1'' (request ''u'' [''ops''] StFailed ''closed''\<lparr>rq_fault := ''merchant''\<rparr>) (example_engine_db StAtPickup) = Inr (ap, db)"
      "ap_to ap = StFailed" "lands ap = StAccepted"
    by (auto simp: lands_def split: sum.splits)
  have "statuses_of (example_engine_db StAtPickup) ''o1'' = Some (KindStandard, StAtPickup)" by code_simp
  with moves_refine_the_machine[OF m(1) keeps_work_Inr] m(2,3) have "statuses_of db ''o1'' = Some (KindStandard, StAccepted)" by auto
  with m(1,2) show ?thesis by blast
qed

text \<open>
  C23. The moves that follow by themselves end, and their refusals stay theirs: a request fails exactly when its own
  move is refused, with that error. Otherwise it succeeds, and makes at most four moves (accepting, preparing,
  dispatching, and the driver whose turn it is), each a step of the machine from where the one before it ended, its
  own the first; and when the move that follows is refused, what the request leaves is what it had made before.
\<close>

theorem four_moves_at_most:
  "case one_move env Inr ord (request actor roles to nt) db of
     Inl e \<Rightarrow> Transition env actor roles ord to nt db = Inl e
   | Inr (ap, d) \<Rightarrow> \<exists>db'. Transition env actor roles ord to nt db = Inr db' \<and>
       (\<exists>k s ss. statuses_of db ord = Some (k, s) \<and> 1 \<le> length ss \<and> length ss \<le> 4 \<and> hd ss = lands ap \<and>
          (to \<notin> {StAccepted, StPreparing, StDispatching} \<longrightarrow> length ss = 1) \<and>
          successively (machine_step k) (s # ss) \<and> statuses_of db' = (statuses_of db)(ord \<mapsto> (k, last ss))) \<and>
       (\<forall>roles' to' nt'. \<not> ap_blocked ap \<and> follow_up env (lo_kind (ap_lo ap)) (ap_to ap) roles = Some (roles', to', nt') \<and>
          failed (one_move env Inr ord (request actor roles' to' nt') (offer_after env ap d)) \<longrightarrow> db' = offer_after env ap d)"
proof (cases "one_move env Inr ord (request actor roles to nt) db")
  case (Inl e)
  then show ?thesis by (simp add: Transition.simps[of env actor roles ord to nt db])
next
  case (Inr z)
  obtain ap d where z: "z = (ap, d)" by (cases z)
  from Transition_total[OF Inr[unfolded z]] obtain db' where t: "Transition env actor roles ord to nt db = Inr db'" ..
  obtain k s ss where r: "statuses_of db ord = Some (k, s)" "ss \<noteq> []" "hd ss = lands ap" "length ss \<le> Suc (followers to)"
      "successively (machine_step k) (s # ss)" "statuses_of db' = (statuses_of db)(ord \<mapsto> (k, last ss))"
    using Transition_path[OF t Inr[unfolded z]] by (auto simp: machine_path_def)
  have "1 \<le> length ss" using r(2) by (cases ss) auto
  moreover have "length ss \<le> 4" using r(4) by (simp add: followers_def split: if_splits)
  moreover have "to \<notin> {StAccepted, StPreparing, StDispatching} \<longrightarrow> length ss \<le> 1" using r(4) by (auto simp: followers_def)
  moreover have "db' = offer_after env ap d" if f: "\<not> ap_blocked ap" "follow_up env (lo_kind (ap_lo ap)) (ap_to ap) roles = Some (roles', to', nt')"
      "failed (one_move env Inr ord (request actor roles' to' nt') (offer_after env ap d))" for roles' to' nt'
  proof -
    obtain e where "Transition env actor roles' ord to' nt' (offer_after env ap d) = Inl e" using Transition_refused[OF f(3)] ..
    with f(1,2) t Inr z show ?thesis by (simp add: Transition.simps[of env actor roles ord to nt db])
  qed
  ultimately show ?thesis using Inr z t r(1,3,5,6) by (simp, intro conjI exI[of _ k] exI[of _ s] exI[of _ ss]) auto
qed

text \<open>The same with drivers who are assigned by turn, and one who waits.\<close>

definition example_turn_env :: env where
  "example_turn_env = example_env\<lparr>en_settings := Some \<lparr>getString = (\<lambda>k. if k = ''drivers.assignment_mode'' then ''rotation'' else ''merchants''),
     getInt = (\<lambda>k. if k = ''drivers.cash_limit'' then 100000 else 120), getHundredths = (\<lambda>_. 0),
     getBool = (\<lambda>k. k \<noteq> ''drivers.proximity_enabled'')\<rparr>\<rparr>"

definition example_turn_db :: engine_db where
  "example_turn_db = example_engine_db StPending\<lparr>orders := [example_order\<lparr>o_status := StPending, o_driver := None\<rparr>],
     users := [\<lparr>u_id = ''d'', u_phone = [], u_admin = False, u_deleted = False, u_created = 0, u_status = ''active'', u_driver = True,
       u_on_shift = True, u_shift_started = Some 0, u_last_assigned = None, u_location = None, u_location_at = None\<rparr>]\<rparr>"

text \<open>An order of two stores, one of which has not answered: it may be prepared, not sent to the drivers.\<close>

definition example_waiting_db :: engine_db where
  "example_waiting_db = example_turn_db\<lparr>orders := [example_order\<lparr>o_status := StAccepted, o_driver := None, o_stops := 2\<rparr>],
     order_parts := [new_part ''o1'' ''m'' 0]\<rparr>"

lemma four_moves_at_most_witness:
  "(\<exists>db. Transition example_turn_env ''u'' [''merchant''] ''o1'' StAccepted '''' example_turn_db = Inr db \<and>
     map ev_to (order_events db) = [StAccepted, StPreparing, StDispatching, StAssigned] \<and>
     (\<exists>ss. length ss \<le> 4 \<and> successively (machine_step KindStandard) (StPending # ss) \<and>
        statuses_of db ''o1'' = Some (KindStandard, last ss))) \<and>
   (\<exists>ap d. one_move example_turn_env Inr ''o1'' (request ''u'' [''merchant''] StPreparing '''') example_waiting_db = Inr (ap, d) \<and>
     failed (one_move example_turn_env Inr ''o1'' (request ''u'' [''ops''] StDispatching autoDispatchNote) (offer_after example_turn_env ap d)) \<and>
     Transition example_turn_env ''u'' [''merchant''] ''o1'' StPreparing '''' example_waiting_db = Inr (offer_after example_turn_env ap d))"
proof
  have "case Transition example_turn_env ''u'' [''merchant''] ''o1'' StAccepted '''' example_turn_db of
      Inl _ \<Rightarrow> False | Inr db \<Rightarrow> map ev_to (order_events db) = [StAccepted, StPreparing, StDispatching, StAssigned]"
    by code_simp
  then obtain db where r: "Transition example_turn_env ''u'' [''merchant''] ''o1'' StAccepted '''' example_turn_db = Inr db"
      "map ev_to (order_events db) = [StAccepted, StPreparing, StDispatching, StAssigned]"
    by (auto split: sum.splits)
  have "\<not> failed (one_move example_turn_env Inr ''o1'' (request ''u'' [''merchant''] StAccepted '''') example_turn_db)" by code_simp
  then obtain ap d where m: "one_move example_turn_env Inr ''o1'' (request ''u'' [''merchant''] StAccepted '''') example_turn_db = Inr (ap, d)"
    by (auto simp: failed_def split: sum.splits)
  have "statuses_of example_turn_db ''o1'' = Some (KindStandard, StPending)" by code_simp
  with four_moves_at_most[of example_turn_env "''u''" "[''merchant'']" "''o1''" StAccepted "''''" example_turn_db] m r
  show "\<exists>db. Transition example_turn_env ''u'' [''merchant''] ''o1'' StAccepted '''' example_turn_db = Inr db \<and>
     map ev_to (order_events db) = [StAccepted, StPreparing, StDispatching, StAssigned] \<and>
     (\<exists>ss. length ss \<le> 4 \<and> successively (machine_step KindStandard) (StPending # ss) \<and>
        statuses_of db ''o1'' = Some (KindStandard, last ss))" by fastforce
next
  have "case one_move example_turn_env Inr ''o1'' (request ''u'' [''merchant''] StPreparing '''') example_waiting_db of Inl _ \<Rightarrow> False
      | Inr (ap, d) \<Rightarrow> failed (one_move example_turn_env Inr ''o1'' (request ''u'' [''ops''] StDispatching autoDispatchNote) (offer_after example_turn_env ap d)) \<and>
          \<not> ap_blocked ap \<and> follow_up example_turn_env (lo_kind (ap_lo ap)) (ap_to ap) [''merchant''] = Some ([''ops''], StDispatching, autoDispatchNote)"
    by code_simp
  then obtain ap d where m: "one_move example_turn_env Inr ''o1'' (request ''u'' [''merchant''] StPreparing '''') example_waiting_db = Inr (ap, d)"
      "failed (one_move example_turn_env Inr ''o1'' (request ''u'' [''ops''] StDispatching autoDispatchNote) (offer_after example_turn_env ap d))"
      "\<not> ap_blocked ap" "follow_up example_turn_env (lo_kind (ap_lo ap)) (ap_to ap) [''merchant''] = Some ([''ops''], StDispatching, autoDispatchNote)"
    by (auto split: sum.splits)
  with four_moves_at_most[of example_turn_env "''u''" "[''merchant'']" "''o1''" StPreparing "''''" example_waiting_db]
  have "Transition example_turn_env ''u'' [''merchant''] ''o1'' StPreparing '''' example_waiting_db = Inr (offer_after example_turn_env ap d)" by auto
  with m(1,2) show "\<exists>ap d. one_move example_turn_env Inr ''o1'' (request ''u'' [''merchant''] StPreparing '''') example_waiting_db = Inr (ap, d) \<and>
     failed (one_move example_turn_env Inr ''o1'' (request ''u'' [''ops''] StDispatching autoDispatchNote) (offer_after example_turn_env ap d)) \<and>
     Transition example_turn_env ''u'' [''merchant''] ''o1'' StPreparing '''' example_waiting_db = Inr (offer_after example_turn_env ap d)" by blast
qed
end
