(* ===== verification/Money_Steps.thy ===== *)
theory Money_Steps
  imports Order_Frame
begin

text \<open>
  What an operation on the money of one order may touch: the rows it adds to the ledger are of that order and of
  some kinds, and the debts it opens are of some parties. The relation composes, so an operation of many steps is
  described by the steps it is made of.
\<close>

definition money_step :: "string \<Rightarrow> string set \<Rightarrow> string set \<Rightarrow> 'a obligations_db_scheme \<Rightarrow> 'a obligations_db_scheme \<Rightarrow> bool" where
  "money_step ord ks ps db db' \<longleftrightarrow>
     (\<exists>ts. wallet_txs db' = wallet_txs db @ ts \<and> (\<forall>t\<in>set ts. tx_ref t = ord \<and> tx_kind t \<in> ks)) \<and>
     (obligations_inv db \<longrightarrow> obligations_inv db') \<and>
     (\<forall>k i. k \<notin> ps \<longrightarrow> Debt db' k i = Debt db k i) \<and>
     (\<forall>k i c r. k \<notin> ps \<longrightarrow> origin_taken db' k i c (Some r) None = origin_taken db k i c (Some r) None) \<and>
     treasuryOn db' = treasuryOn db \<and> db_now db' = db_now db"

text \<open>The rows of a user's ledger of one kind for one order.\<close>

definition earned :: "'a wallet_db_scheme \<Rightarrow> string \<Rightarrow> string \<Rightarrow> user_id \<Rightarrow> int" where
  "earned db ord kind u = sum_list (map tx_amount [t \<leftarrow> wallet_txs db. tx_ref t = ord \<and> tx_kind t = kind \<and> tx_user t = u])"

definition rows_of :: "'a wallet_db_scheme \<Rightarrow> string \<Rightarrow> wallet_tx list" where
  "rows_of db r = [t \<leftarrow> wallet_txs db. tx_ref t = r]"

section \<open>Composition\<close>

lemma money_step_refl [simp]: "money_step ord ks ps db db"
  by (simp add: money_step_def)

lemma money_step_same:
  assumes "wallets db' = wallets db" and "wallet_txs db' = wallet_txs db" and "db_now db' = db_now db"
    and "obligations db' = obligations db" and "obligations_inv db' = obligations_inv db"
  shows "money_step ord ks ps db db'"
proof -
  have "Debt db' k i = Debt db k i" "origin_taken db' k i c r src = origin_taken db k i c r src" for k i c r src
    by (simp_all only: Debt_def origin_taken_def assms(4))
  with assms(2,3,5) system_wallets_eq(1)[OF assms(1)] show ?thesis by (simp add: money_step_def)
qed

lemma money_step_trans:
  assumes a: "money_step ord ks ps db d" and b: "money_step ord ks' ps' d db'" and "ks \<subseteq> ks''" and "ks' \<subseteq> ks''"
    and "ps \<subseteq> ps''" and "ps' \<subseteq> ps''"
  shows "money_step ord ks'' ps'' db db'"
proof -
  obtain ts ts' where "wallet_txs d = wallet_txs db @ ts" "\<forall>t\<in>set ts. tx_ref t = ord \<and> tx_kind t \<in> ks"
      "wallet_txs db' = wallet_txs d @ ts'" "\<forall>t\<in>set ts'. tx_ref t = ord \<and> tx_kind t \<in> ks'"
    using a b by (auto simp: money_step_def)
  then have "wallet_txs db' = wallet_txs db @ (ts @ ts') \<and> (\<forall>t\<in>set (ts @ ts'). tx_ref t = ord \<and> tx_kind t \<in> ks'')"
    using assms(3,4) by auto
  then have "\<exists>ts. wallet_txs db' = wallet_txs db @ ts \<and> (\<forall>t\<in>set ts. tx_ref t = ord \<and> tx_kind t \<in> ks'')" by blast
  moreover have "k \<notin> ps \<and> k \<notin> ps'" if "k \<notin> ps''" for k using that assms(5,6) by blast
  ultimately show ?thesis using a b by (simp add: money_step_def)
qed

lemma money_step_mono: "money_step ord ks ps db db' \<Longrightarrow> ks \<subseteq> ks' \<Longrightarrow> ps \<subseteq> ps' \<Longrightarrow> money_step ord ks' ps' db db'"
  by (rule money_step_trans[of ord ks ps db db' "{}" "{}"]) simp_all

lemma money_step_chain [trans]: "money_step ord ks ps db d \<Longrightarrow> money_step ord ks ps d db' \<Longrightarrow> money_step ord ks ps db db'"
  by (rule money_step_trans[of ord ks ps db d ks ps db' ks ps]) auto

lemma money_step_loop:
  assumes "foldE f xs s = Inr t" and "\<And>x u v. x \<in> set xs \<Longrightarrow> f x u = Inr v \<Longrightarrow> money_step ord ks ps (g u) (g v)"
  shows "money_step ord ks ps (g s) (g t)"
  by (rule foldE_inv[OF assms(1), where P = "\<lambda>u. money_step ord ks ps (g s) (g u)"])
    (auto intro: money_step_trans[OF _ assms(2)])

section \<open>Steps\<close>

lemma obligations_inv_post:
  assumes "applyTx u a kind ref nt actor db = Inr (r, db')"
  shows "obligations db' = obligations db" and "obligations_inv db' = obligations_inv db"
    and "Debt db' k i = Debt db k i" and "origin_taken db' = origin_taken db"
proof -
  obtain ws ts n where d: "db' = db\<lparr>wallets := ws, wallet_txs := ts, next_tx := n\<rparr>" using applyTx_frame[OF assms] by blast
  have "\<And>k i. cached db' k i = cached db k i" "\<And>k i. Debt db' k i = Debt db k i"
    by (simp_all add: d cached_def merchant_of_def Debt_def)
  then show "obligations db' = obligations db" "obligations_inv db' = obligations_inv db" "Debt db' k i = Debt db k i"
    "origin_taken db' = origin_taken db"
    by (simp_all add: d obligations_inv_def book_ok_def caches_off_def caches_sane_def Debt_def fun_eq_iff origin_taken_def
        split: option.splits)
qed

lemma money_step_post:
  assumes "applyTx u a kind ord nt actor db = Inr (r, db')"
  shows "money_step ord {kind} {} db db'"
proof -
  obtain b i where r: "r = (b, i)" by (cases r)
  obtain ws ts n where "db' = db\<lparr>wallets := ws, wallet_txs := ts, next_tx := n\<rparr>" using applyTx_frame[OF assms] by blast
  then have "db_now db' = db_now db" by simp
  with obligations_inv_post[OF assms] applyTx_system(1)[OF assms] applyTx_log[OF assms[unfolded r]] show ?thesis
    by (auto simp: money_step_def)
qed

lemma money_step_ApplyTx: "ApplyTx u a kind ord nt actor db = Inr (b, db') \<Longrightarrow> money_step ord {kind} {} db db'"
  by (auto simp: ApplyTx_def branches intro: money_step_post)

lemma CreateRef_rows:
  fixes db :: "'a obligations_db_scheme"
  assumes "CreateRef k i a c ord src actor db = Inr (m, db')"
  shows "\<exists>os. obligations db' = obligations db @ os \<and> (\<forall>x\<in>set os. ob_kind x = k \<and> ob_party x = i \<and> ob_cause x = c)"
proof -
  have bump: "obligations d' = obligations d" if "bumpCache k i a d = Inr d'" for d d' :: "'a obligations_db_scheme"
    using that by (auto simp: bumpCache_def split: if_splits)
  show ?thesis
  proof (cases m)
    case False
    then have "db' = db" using assms by (auto simp: CreateRef_def Let_def result_simps split: if_splits)
    then show ?thesis by simp
  next
    case True
    then obtain d where d: "bumpCache k i a (new_obligation k i a c (if ord = '''' then None else Some ord)
          (if src = '''' then None else Some src) actor db) = Inr d" "db' = send_notice k i (NoticeCreated a c) d"
      using assms by (auto simp: CreateRef_def Let_def result_simps new_obligation_def split: if_splits)
    from bump[OF d(1)] show ?thesis by (auto simp: d(2) new_obligation_def)
  qed
qed

lemma money_step_CreateRef:
  fixes db :: "'a obligations_db_scheme"
  assumes "CreateRef k i a c ord' src actor db = Inr (m, db')"
  shows "money_step ord {} {k} db db'"
proof -
  obtain os where os: "obligations db' = obligations db @ os" "\<And>x. x \<in> set os \<Longrightarrow> ob_kind x = k"
    using CreateRef_rows[OF assms] by blast
  have "Debt db' k' i' = Debt db k' i'" if "k' \<noteq> k" for k' i'
  proof -
    have "[x \<leftarrow> os. open_of k' i' x] = []" using os(2) that by (auto simp: filter_empty_conv open_of_def)
    then show ?thesis by (simp add: Debt_def os(1))
  qed
  moreover have "origin_taken db' k' i' c' (Some r) None = origin_taken db k' i' c' (Some r) None" if "k' \<noteq> k" for k' i' c' r
    using os(2) that by (auto simp: origin_taken_def os(1) list_ex_iff)
  moreover note t = money_tables_eqD[OF CreateRef_tables[OF assms]]
  ultimately show ?thesis
    using CreateRef_inv(1)[OF assms] system_wallets_eq(1)[OF t(1)] t(2,9) by (simp add: money_step_def)
qed

lemma money_step_Create: "Create k i a c ord actor db = Inr (m, db') \<Longrightarrow> money_step ord {} {k} db db'"
  unfolding Create_def by (rule money_step_CreateRef)

lemma money_step_treasury:
  assumes "creditTreasury ord actor db = Inr db'"
  shows "money_step ord {''platform_profit''} {} db db'"
  using creditTreasury_shape[OF assms] money_step_post by auto

lemma obligations_inv_tables:
  "obligations_inv (db\<lparr>boxes := a\<rparr>) = obligations_inv db" "obligations_inv (db\<lparr>cash_entries := b\<rparr>) = obligations_inv db"
  "obligations_inv (db\<lparr>next_entry := n\<rparr>) = obligations_inv db" "obligations_inv (db\<lparr>orders := c\<rparr>) = obligations_inv db"
  by (simp_all add: obligations_inv_def book_ok_def caches_off_def caches_sane_def Debt_def cached_def merchant_of_def)

lemma obligations_inv_more:
  "obligations_inv (db1\<lparr>office_entries := d\<rparr>) = obligations_inv db1" "obligations_inv (db2\<lparr>settlements := e\<rparr>) = obligations_inv db2"
  "obligations_inv (db2\<lparr>adjustments := f\<rparr>) = obligations_inv db2" "obligations_inv (db2\<lparr>next_uuid := m\<rparr>) = obligations_inv db2"
  "obligations_inv (db2\<lparr>reversals := g\<rparr>) = obligations_inv db2" "obligations_inv (db3\<lparr>held_commissions := h\<rparr>) = obligations_inv db3"
  by (simp_all add: obligations_inv_def book_ok_def caches_off_def caches_sane_def Debt_def cached_def merchant_of_def)

lemmas obligations_inv_simps = obligations_inv_tables obligations_inv_more

text \<open>The book of obligations reads its own tables, the merchants and the cached totals only.\<close>

lemma obligations_inv_cong:
  assumes "obligations db' = obligations db" and "next_obligation db' = next_obligation db" and "payments db' = payments db"
    and "merchants db' = merchants db" and "rep_debt db' = rep_debt db" and "driver_debt db' = driver_debt db" and "users db' = users db"
  shows "obligations_inv db' = obligations_inv db"
proof -
  have "cached db' = cached db" "Debt db' = Debt db" by (simp_all add: cached_def merchant_of_def Debt_def assms fun_eq_iff)
  then show ?thesis by (simp add: obligations_inv_def book_ok_def caches_off_def caches_sane_def assms)
qed

lemma money_step_tables:
  assumes "wallets db' = wallets db" and "wallet_txs db' = wallet_txs db" and "db_now db' = db_now db"
    and "obligations db' = obligations db" and "next_obligation db' = next_obligation db" and "payments db' = payments db"
    and "merchants db' = merchants db" and "rep_debt db' = rep_debt db" and "driver_debt db' = driver_debt db" and "users db' = users db"
  shows "money_step ord ks ps db db'"
  by (rule money_step_same[OF assms(1-4) obligations_inv_cong[OF assms(4-10)]])

lemma money_step_box:
  fixes db :: "'a obligations_db_scheme"
  assumes "box_applyTx d a kind ref nt actor db = Inr (h, db')"
  shows "money_step ord {} {} db db'"
  using assms
  by (auto simp: box_applyTx_def insert_cash_entry_def Let_def branches obligations_inv_simps intro!: money_step_same)

lemma money_step_record: "Record e db = Inr db' \<Longrightarrow> money_step ord {} {} db db'"
  by (auto simp: Record_def branches obligations_inv_simps intro!: money_step_same)

lemma money_step_update_order [simp]:
  fixes db :: "'a obligations_db_scheme"
  shows "money_step ord {} {} db (update_order j f db)"
  by (auto simp: update_order_def obligations_inv_simps intro!: money_step_same)

lemma money_step_update_settlement: "update_settlement j f db = Inr db' \<Longrightarrow> money_step ord {} {} db db'"
  by (auto simp: update_settlement_Inr obligations_inv_simps intro!: money_step_same)

section \<open>Steps that leave the orders alone\<close>

definition money_only :: "string \<Rightarrow> string set \<Rightarrow> string set \<Rightarrow> 'a obligations_db_scheme \<Rightarrow> 'a obligations_db_scheme \<Rightarrow> bool" where
  "money_only ord ks ps db db' \<longleftrightarrow> money_step ord ks ps db db' \<and> orders db' = orders db"

lemma money_only_refl [simp]: "money_only ord ks ps db db"
  by (simp add: money_only_def)

lemma money_only_chain [trans]: "money_only ord ks ps db d \<Longrightarrow> money_only ord ks ps d db' \<Longrightarrow> money_only ord ks ps db db'"
  by (auto simp: money_only_def intro: money_step_chain)

lemma money_only_mono: "money_only ord ks ps db db' \<Longrightarrow> ks \<subseteq> ks' \<Longrightarrow> ps \<subseteq> ps' \<Longrightarrow> money_only ord ks' ps' db db'"
  by (auto simp: money_only_def intro: money_step_mono)

lemma money_only_loop:
  assumes "foldE f xs s = Inr t" and "\<And>x u v. x \<in> set xs \<Longrightarrow> f x u = Inr v \<Longrightarrow> money_only ord ks ps u v"
  shows "money_only ord ks ps s t"
  by (rule foldE_inv[OF assms(1), where P = "\<lambda>u. money_only ord ks ps s u"]) (auto intro: money_only_chain assms(2))

lemma money_only_post:
  fixes db :: "'a obligations_db_scheme"
  assumes "applyTx u a kind ord nt actor db = Inr (r, db')" and "kind \<in> ks"
  shows "money_only ord ks ps db db'"
  using money_step_mono[OF money_step_post[OF assms(1)], of ks ps] applyTx_orders_cash(1)[OF assms(1)] assms(2)
  by (simp add: money_only_def)

lemma money_only_ApplyTx:
  fixes db :: "'a obligations_db_scheme"
  shows "ApplyTx u a kind ord nt actor db = Inr (b, db') \<Longrightarrow> kind \<in> ks \<Longrightarrow> money_only ord ks ps db db'"
  by (auto simp: ApplyTx_def branches intro: money_only_post)

lemma money_only_Create:
  assumes "CreateRef k i a c ord' src actor db = Inr (m, db')" and "k \<in> ps"
  shows "money_only ord ks ps db db'"
  using money_step_mono[OF money_step_CreateRef[OF assms(1)], of ks ps] money_tables_eqD(8)[OF CreateRef_tables[OF assms(1)]] assms(2)
  by (simp add: money_only_def)

lemma money_only_treasury:
  fixes db :: "'a obligations_db_scheme"
  assumes "creditTreasury ord actor db = Inr db'" and "''platform_profit'' \<in> ks"
  shows "money_only ord ks ps db db'"
  using creditTreasury_shape[OF assms(1)] money_only_post[of _ _ "''platform_profit''"] assms(2) by fastforce

lemma money_only_update_settlement:
  fixes db :: "'a settle_db_scheme"
  assumes "update_settlement j f db = Inr db'"
  shows "money_only ord ks ps db db'"
  using money_step_mono[OF money_step_update_settlement[OF assms], of ks ps] assms
  by (auto simp: money_only_def update_settlement_Inr)

lemma money_only_reversal:
  fixes db :: "'a settle_db_scheme"
  assumes "postCashReversal sid hid a cause event ord actor db = Inr (tx, db')" and "''merchant_cash_accrued'' \<in> ks"
  shows "money_only ord ks ps db db'"
proof -
  from assms consider "db' = db"
    | r d where "applyTx hid (- a) ''merchant_cash_accrued'' ord (cashReversalNote cause) (Some actor) db = Inr (r, d)"
        "\<exists>f rv. update_settlement sid f (d\<lparr>reversals := rv\<rparr>) = Inr db'"
    by (fastforce simp: postCashReversal_def ApplyTxID_def branches split: if_splits)
  then show ?thesis
  proof cases
    case (2 r d)
    then obtain f rv where u: "update_settlement sid f (d\<lparr>reversals := rv\<rparr>) = Inr db'" by blast
    have "money_only ord ks ps db d" by (rule money_only_post[OF 2(1) assms(2)])
    also have "money_only ord ks ps d (d\<lparr>reversals := rv\<rparr>)"
      unfolding money_only_def by (intro conjI money_step_tables) simp_all
    also have "money_only ord ks ps (d\<lparr>reversals := rv\<rparr>) db'" by (rule money_only_update_settlement[OF u])
    finally show ?thesis .
  qed simp
qed

section \<open>What a step says of the ledger\<close>

lemma money_step_rows:
  assumes "money_step ord ks ps db db'"
  shows "r \<noteq> ord \<Longrightarrow> rows_of db' r = rows_of db r" and "k \<notin> ks \<or> r \<noteq> ord \<Longrightarrow> earned db' r k u = earned db r k u"
    and "set xs \<inter> ks = {} \<Longrightarrow> tx_sum db' r xs = tx_sum db r xs"
    and "''refund'' \<notin> ks \<Longrightarrow> refund_log db' = refund_log db"
    and "k \<notin> ks \<Longrightarrow> list_ex (\<lambda>t. tx_ref t = r \<and> tx_kind t = k) (wallet_txs db') = list_ex (\<lambda>t. tx_ref t = r \<and> tx_kind t = k) (wallet_txs db)"
    and "k \<notin> ks \<Longrightarrow> [t \<leftarrow> wallet_txs db'. tx_ref t = r \<and> tx_kind t = k] = [t \<leftarrow> wallet_txs db. tx_ref t = r \<and> tx_kind t = k]"
proof -
  obtain ts where ts: "wallet_txs db' = wallet_txs db @ ts" "\<And>t. t \<in> set ts \<Longrightarrow> tx_ref t = ord \<and> tx_kind t \<in> ks"
    using assms by (auto simp: money_step_def)
  have none: "[t \<leftarrow> ts. P t] = []" if "\<And>t. tx_ref t = ord \<Longrightarrow> tx_kind t \<in> ks \<Longrightarrow> \<not> P t" for P
    using ts(2) that by (auto simp: filter_empty_conv)
  show "rows_of db' r = rows_of db r" if "r \<noteq> ord"
    using none[of "\<lambda>t. tx_ref t = r"] that by (simp add: rows_of_def ts(1))
  show "earned db' r k u = earned db r k u" if "k \<notin> ks \<or> r \<noteq> ord"
  proof -
    have "[t \<leftarrow> ts. tx_ref t = r \<and> tx_kind t = k \<and> tx_user t = u] = []" by (rule none) (use that in auto)
    then show ?thesis by (simp add: earned_def ts(1))
  qed
  show "tx_sum db' r xs = tx_sum db r xs" if "set xs \<inter> ks = {}"
  proof -
    have "[t \<leftarrow> ts. tx_ref t = r \<and> tx_kind t \<in> set xs] = []" by (rule none) (use that in auto)
    then show ?thesis by (simp add: tx_sum_def ts(1))
  qed
  show "refund_log db' = refund_log db" if "''refund'' \<notin> ks"
  proof
    fix r
    have "[t \<leftarrow> ts. tx_ref t = r \<and> tx_kind t = ''refund''] = []" by (rule none) (use that in auto)
    then show "refund_log db' r = refund_log db r" by (simp add: refund_log_def ts(1))
  qed
  show "list_ex (\<lambda>t. tx_ref t = r \<and> tx_kind t = k) (wallet_txs db') = list_ex (\<lambda>t. tx_ref t = r \<and> tx_kind t = k) (wallet_txs db)"
    if "k \<notin> ks" using that ts by (auto simp: list_ex_iff)
  show "[t \<leftarrow> wallet_txs db'. tx_ref t = r \<and> tx_kind t = k] = [t \<leftarrow> wallet_txs db. tx_ref t = r \<and> tx_kind t = k]" if "k \<notin> ks"
  proof -
    have "[t \<leftarrow> ts. tx_ref t = r \<and> tx_kind t = k] = []" by (rule none) (use that in auto)
    then show ?thesis by (simp add: ts(1))
  qed
qed

lemma earned_post:
  assumes "applyTx u a kind ref nt actor db = Inr (r, db')"
  shows "earned db' o' k v = earned db o' k v + (if o' = ref \<and> k = kind \<and> v = u then a else 0)"
proof -
  obtain b i where r: "r = (b, i)" by (cases r)
  show ?thesis using applyTx_log[OF assms[unfolded r]] by (auto simp: earned_def)
qed

section \<open>The boxes of the drivers\<close>

lemma same_boxes_ApplyTx:
  fixes db :: "'a cash_db_scheme"
  assumes "ApplyTx u a kind ref nt actor db = Inr (b, db')"
  shows "boxes db' = boxes db"
proof -
  from assms obtain r where "applyTx u a kind ref nt actor db = Inr (r, db')" by (auto simp: ApplyTx_def branches)
  from applyTx_frame[OF this] show ?thesis by auto
qed

lemma same_boxes_wipe:
  assumes "wipe_debts db' = wipe_debts db"
  shows "boxes db' = boxes db"
proof -
  have "boxes (wipe_debts x) = boxes x" for x :: "'a obligations_db_scheme" by (simp add: wipe_debts_def)
  with assms show ?thesis by metis
qed

lemma same_boxes_Create: "Create k i a c ord actor db = Inr (m, db') \<Longrightarrow> boxes db' = boxes db"
  unfolding Create_def by (rule same_boxes_wipe, rule CreateRef_wipe)

lemma same_boxes_treasury: "creditTreasury ord actor db = Inr db' \<Longrightarrow> boxes db' = boxes db"
  by (auto simp: creditTreasury_def Let_def branches split: option.splits if_splits dest: same_boxes_ApplyTx)

end
