(* ===== verification/Undeliver.thy ===== *)
theory Undeliver
  imports Engine Money_Steps
begin

text \<open>
  An order whose delivery was recorded by mistake (\<open>orders/undeliver.go\<close>): the office makes it a cancelled one.
  It is the only way a delivered order changes its status outside the machine. The cash the driver never took leaves
  his box, what the delivery paid is taken back or owed, the customer gets his payment, and the share of the platform
  is taken again. Sums of the answer are unbounded; the page of the order returned after the commit is left out.
\<close>

section \<open>Tables and errors\<close>

record referral =
  rf_invitee :: user_id
  rf_inviter :: user_id
  rf_rewarded_at :: "int option"
  rf_amount :: int

record later_db = engine_db +
  referrals :: "referral list"

definition ErrUndeliverReasonRequired :: err where "ErrUndeliverReasonRequired = AppError ''undeliver_reason_required''"
definition ErrUndeliverAdminOnly :: err where "ErrUndeliverAdminOnly = AppError ''undeliver_admin_only''"
definition ErrUndeliverNotStandard :: err where "ErrUndeliverNotStandard = AppError ''undeliver_not_standard''"
definition ErrUndeliverNotDelivered :: err where "ErrUndeliverNotDelivered = AppError ''undeliver_not_delivered''"
definition ErrUndeliverCommissionWaived :: err where "ErrUndeliverCommissionWaived = AppError ''undeliver_commission_waived''"

definition CauseUndeliveredOrder :: string where "CauseUndeliveredOrder = ''undelivered_order''"
definition SourceUndeliveredReturn :: string where "SourceUndeliveredReturn = ''undelivered_return''"

record undelivered =
  un_box_reversed :: int
  un_box_handed :: int
  un_driver :: user_id
  un_driver_reversed :: int
  un_driver_debt :: int
  un_reps :: "user_id list"
  un_rep_reversed :: int
  un_rep_debt :: int
  un_held_forfeited :: int
  un_referral_reversed :: int
  un_referral_kept :: int
  un_refund :: int
  un_drawer :: int

section \<open>Taking back\<close>

text \<open>\<open>GROUP BY\<close> a user, in the order of the identifiers; a sum outside 64 bits cannot be cast.\<close>

definition sums_by_user :: "(user_id \<times> int) list \<Rightarrow> err + (user_id \<times> int) list" where
  "sums_by_user ps =
    (let gs = map (\<lambda>u. (u, sum_list (map snd [p \<leftarrow> ps. fst p = u]))) (sort_key text_key (remdups (map fst ps)))
     in if list_all (\<lambda>g. in64 (snd g)) gs then Inr gs else Inl ErrDb)"

definition reverse_collection ::
  "string \<Rightarrow> user_id \<Rightarrow> user_id \<times> int \<Rightarrow> (int \<times> int) \<times> 'a cash_db_scheme \<Rightarrow> err + (int \<times> int) \<times> 'a cash_db_scheme" where
  "reverse_collection ord actor = (\<lambda>(d, amount) ((rev_sum, handed), db).
    if amount \<le> 0 then Inr ((rev_sum, handed), db)
    else let taken = min (Held db d) amount
         in bindE (if taken > 0 then bindE (ReverseCollectionTx d taken ord actor db) (\<lambda>(_, db). Inr db) else Inr db) (\<lambda>db.
            Inr ((rev_sum + taken, handed + (amount - taken)), db)))"

text \<open>The box gives back what is still in it; what was handed in already is the office's to return.\<close>

definition reverse_collections :: "string \<Rightarrow> user_id \<Rightarrow> 'a cash_db_scheme \<Rightarrow> err + (int \<times> int) \<times> 'a cash_db_scheme" where
  "reverse_collections ord actor db =
     bindE (sums_by_user [(ce_driver e, ce_amount e). e \<leftarrow> cash_entries db, ce_ref e = ord \<and> ce_kind e = ''order_collection'']) (\<lambda>cols.
     foldE (reverse_collection ord actor) cols ((0, 0), db))"

text \<open>An amount is taken back of a user as far as what he has available goes; the rest he owes.\<close>

definition take_or_owe ::
  "string \<Rightarrow> user_id \<Rightarrow> string \<Rightarrow> string \<Rightarrow> string \<Rightarrow> string \<Rightarrow> user_id \<times> int \<Rightarrow> (int \<times> int) \<times> 'a obligations_db_scheme \<Rightarrow>
     err + (int \<times> int) \<times> 'a obligations_db_scheme" where
  "take_or_owe ord actor kind party cause nt = (\<lambda>(u, amount) ((taken_sum, debt), db).
    let taken = max (min amount (AvailableTx db u)) 0
    in bindE (if taken > 0 then bindE (ApplyTx u (- taken) kind ord nt (Some actor) db) (\<lambda>(_, db). Inr db)
              else Inr db) (\<lambda>db.
       bindE (if amount - taken > 0 then bindE (Create party u (amount - taken) cause ord (Some actor) db) (\<lambda>(_, db). Inr db)
              else Inr db) (\<lambda>db.
       Inr ((taken_sum + taken, debt + (amount - taken)), db))))"

definition paid_rows :: "'a wallet_db_scheme \<Rightarrow> string \<Rightarrow> string \<Rightarrow> (user_id \<times> int) list" where
  "paid_rows db ord kind = [(tx_user t, tx_amount t). t \<leftarrow> wallet_txs db, tx_ref t = ord \<and> tx_kind t = kind \<and> tx_amount t > 0]"

definition reverseEarnings ::
  "string \<Rightarrow> user_id \<Rightarrow> string \<Rightarrow> string \<Rightarrow> 'a obligations_db_scheme \<Rightarrow>
     err + (user_id list \<times> int \<times> int) \<times> 'a obligations_db_scheme" where
  "reverseEarnings ord actor kind party db =
     bindE (sums_by_user (paid_rows db ord kind)) (\<lambda>paid.
     bindE (foldE (take_or_owe ord actor kind party CauseUndeliveredOrder ''earning of a wrongly delivered order'') paid ((0, 0), db)) (\<lambda>((taken, debt), db).
     Inr ((map fst paid, taken, debt), db)))"

definition forfeit_held :: "string \<Rightarrow> 'a money_db_scheme \<Rightarrow> err + int \<times> 'a money_db_scheme" where
  "forfeit_held ord db =
     bindE (sql_int (sum_list (map hc_amount [h \<leftarrow> held_commissions db. hc_order h = ord \<and> hc_status h = ''held'']))) (\<lambda>a.
     Inr (a, db\<lparr>held_commissions := map (\<lambda>h. if hc_order h = ord \<and> hc_status h = ''held''
       then h\<lparr>hc_status := ''forfeited''\<rparr> else h) (held_commissions db)\<rparr>))"

text \<open>The reward of an invitation is taken back whole, or kept.\<close>

definition reward_rows :: "'a later_db_scheme \<Rightarrow> string \<Rightarrow> user_id \<Rightarrow> wallet_tx list" where
  "reward_rows db ord customer = sort_key tx_id
     [t. r \<leftarrow> referrals db, rf_invitee r = customer \<and> rf_rewarded_at r \<noteq> None,
         t \<leftarrow> wallet_txs db, tx_user t = rf_inviter r \<and> tx_ref t = ord \<and> tx_kind t = ''reward'' \<and> tx_amount t > 0]"

definition reverseReferral ::
  "string \<Rightarrow> user_id \<Rightarrow> user_id \<Rightarrow> 'a later_db_scheme \<Rightarrow> err + (int \<times> int) \<times> 'a later_db_scheme" where
  "reverseReferral ord customer actor db =
    (if customer = '''' then Inr ((0, 0), db)
     else case reward_rows db ord customer of
       [] \<Rightarrow> Inr ((0, 0), db)
     | t # _ \<Rightarrow>
         if AvailableTx db (tx_user t) < tx_amount t then Inr ((0, tx_amount t), db)
         else bindE (ApplyTx (tx_user t) (- tx_amount t) ''reward'' ord ''reward of an invitation taken back'' (Some actor) db) (\<lambda>(_, db).
           bindE (let tid = treasuryOn db
                  in if tid = '''' then Inr db
                     else bindE (ApplyTx tid (tx_amount t) ''reward'' ord ''reward back in the treasury'' (Some actor) db) (\<lambda>(_, db). Inr db)) (\<lambda>db.
           Inr ((tx_amount t, 0), db\<lparr>referrals := map (\<lambda>r. if rf_invitee r = customer
             then r\<lparr>rf_rewarded_at := None, rf_amount := 0\<rparr> else r) (referrals db)\<rparr>))))"

section \<open>The operation\<close>

text \<open>What the driver paid the stores, and the cash he handed in, go back to him, less what was returned before.\<close>

definition returned_before :: "'a office_db_scheme \<Rightarrow> string \<Rightarrow> int" where
  "returned_before db ord =
     sum_list (map oe_amount [e \<leftarrow> office_entries db. oe_ref e = ord \<and> oe_source e \<in> {SourceAdvanceReturn, SourceUndeliveredReturn}])"

definition return_from_drawer ::
  "string \<Rightarrow> user_id \<Rightarrow> user_id option \<Rightarrow> int \<Rightarrow> 'a settle_db_scheme \<Rightarrow> err + int \<times> 'a settle_db_scheme" where
  "return_from_drawer ord actor driver handed db =
    (case driver of
       None \<Rightarrow> Inr (0, db)
     | Some d \<Rightarrow>
         bindE (sql_int (returned_before db ord)) (\<lambda>returned.
         let out = wrap64 (fst (driverPaidFor ord d db) + handed - returned)
         in if out > 0
            then bindE (Record \<lparr>oe_direction = CashOut, oe_amount = out, oe_source = SourceUndeliveredReturn, oe_ref = ord,
                   oe_user = d, oe_actor = actor, oe_note = ''undelivered order''\<rparr> db) (\<lambda>db. Inr (out, db))
            else Inr (0, db)))"

definition cancelled_row :: "string \<Rightarrow> int \<Rightarrow> order \<Rightarrow> order" where
  "cancelled_row reason now x = x\<lparr>o_status := StCancelled, o_cancel_reason := Some reason, o_delivered_at := None,
     o_closed_at := Some now, o_ended_by := Some ''admin''\<rparr>"

text \<open>The order itself: its row, its event, the promotion it used.\<close>

definition undeliver_order :: "string \<Rightarrow> user_id \<Rightarrow> string \<Rightarrow> order \<Rightarrow> 'a engine_db_scheme \<Rightarrow> 'a engine_db_scheme" where
  "undeliver_order ord actor reason x db =
    (let db = update_order ord (cancelled_row reason (db_now db)) db;
         db = add_event \<lparr>ev_order = ord, ev_from = StDelivered, ev_to = StCancelled, ev_actor = opt_actor actor,
                ev_note = reason, ev_driver = o_driver x, ev_merchant = None\<rparr> db
     in if o_promo_code x = '''' then db else return_promo ord (o_promo_code x) db)"

definition undeliverTx :: "user_id \<Rightarrow> string \<Rightarrow> string \<Rightarrow> 'a later_db_scheme \<Rightarrow> err + undelivered \<times> 'a later_db_scheme" where
  "undeliverTx actor ord reason db =
    (case order_of db ord of
       None \<Rightarrow> Inl ErrNotFound
     | Some x \<Rightarrow>
         if o_kind x \<noteq> KindStandard then Inl ErrUndeliverNotStandard
         else if o_status x \<noteq> StDelivered then Inl ErrUndeliverNotDelivered
         else if o_commission_waived x > 0 then Inl ErrUndeliverCommissionWaived
         else
           bindE (reverse_collections ord actor db) (\<lambda>((box, handed), db).
           bindE (reverseEarnings ord actor ''driver_earning'' PartyDriver db) (\<lambda>((drivers, dt, dd), db).
           bindE (reverseEarnings ord actor ''commission'' PartyRep db) (\<lambda>((reps, rt, rd), db).
           bindE (forfeit_held ord db) (\<lambda>(held, db).
           bindE (reverseReferral ord (o_customer x) actor db) (\<lambda>((rr, rk), db).
           let db = undeliver_order ord actor reason x db
           in bindE (if o_wallet_paid x > 0 \<and> o_customer x \<noteq> ''''
                     then bindE (ApplyTx (o_customer x) (o_wallet_paid x) ''refund'' ord ''refund of a wrongly delivered order'' (Some actor) db)
                            (\<lambda>(_, db). Inr (o_wallet_paid x, db))
                     else Inr (0, db)) (\<lambda>(refunded, db).
              bindE (return_from_drawer ord actor (o_driver x) handed db) (\<lambda>(out, db).
              bindE (creditTreasury ord actor db) (\<lambda>db.
              Inr (\<lparr>un_box_reversed = box, un_box_handed = handed,
                    un_driver = (if drivers = [] then '''' else last drivers), un_driver_reversed = dt, un_driver_debt = dd,
                    un_reps = reps, un_rep_reversed = rt, un_rep_debt = rd, un_held_forfeited = held,
                    un_referral_reversed = rr, un_referral_kept = rk, un_refund = refunded, un_drawer = out\<rparr>, db))))))))))"

definition Undeliver ::
  "user_id \<Rightarrow> role list \<Rightarrow> string \<Rightarrow> string \<Rightarrow> (undelivered \<Rightarrow> 'a later_db_scheme \<Rightarrow> err + 'a later_db_scheme) option \<Rightarrow>
     'a later_db_scheme \<Rightarrow> err + undelivered \<times> 'a later_db_scheme" where
  "Undeliver actor roles ord reason hook db =
    (if TrimSpace reason = '''' then Inl ErrUndeliverReasonRequired
     else if ''admin'' \<notin> set roles \<and> ''owner_super_admin'' \<notin> set roles then Inl ErrUndeliverAdminOnly
     else bindE (undeliverTx actor ord (TrimSpace reason) db) (\<lambda>(res, db).
          case hook of None \<Rightarrow> Inr (res, db) | Some h \<Rightarrow> bindE (h res db) (\<lambda>db. Inr (res, db))))"


section \<open>Sums by user\<close>

lemma sums_by_user_spec:
  assumes "sums_by_user ps = Inr gs"
  shows "distinct (map fst gs)"
    and "map_of gs u = (if u \<in> fst ` set ps then Some (sum_list (map snd [p \<leftarrow> ps. fst p = u])) else None)"
proof -
  have gs: "gs = map (\<lambda>u. (u, sum_list (map snd [p \<leftarrow> ps. fst p = u]))) (sort_key text_key (remdups (map fst ps)))"
    using assms by (auto simp: sums_by_user_def Let_def split: if_splits)
  show "distinct (map fst gs)" by (simp add: gs comp_def)
  have "map_of (map (\<lambda>u. (u, f u)) us) u = (if u \<in> set us then Some (f u) else None)" for us and f :: "user_id \<Rightarrow> int"
    by (induction us) auto
  then show "map_of gs u = (if u \<in> fst ` set ps then Some (sum_list (map snd [p \<leftarrow> ps. fst p = u])) else None)"
    by (simp add: gs)
qed

lemma sums_by_user_pos:
  assumes "sums_by_user ps = Inr gs" and "\<And>p. p \<in> set ps \<Longrightarrow> 0 < snd p" and "(u, a) \<in> set gs"
  shows "0 < a"
proof -
  note s = sums_by_user_spec[OF assms(1)]
  have "map_of gs u = Some a" using s(1) assms(3) by simp
  then have u: "u \<in> fst ` set ps" and a: "a = sum_list (map snd [p \<leftarrow> ps. fst p = u])"
    unfolding s(2) by (auto split: if_splits)
  obtain x where x: "(u, x) \<in> set ps" using u by force
  have nonneg: "0 \<le> sum_list (map snd [p \<leftarrow> qs. fst p = u])" if "set qs \<subseteq> set ps" for qs
    using that assms(2) by (intro sum_list_nonneg) (auto intro: less_imp_le)
  obtain qs rs where "ps = qs @ (u, x) # rs" using x by (meson split_list)
  then have "a = sum_list (map snd [p \<leftarrow> qs. fst p = u]) + x + sum_list (map snd [p \<leftarrow> rs. fst p = u])"
    and "set qs \<subseteq> set ps" "set rs \<subseteq> set ps" by (auto simp: a)
  with nonneg[of qs] nonneg[of rs] assms(2)[OF x] show ?thesis by simp
qed

section \<open>An earning taken back\<close>

lemma take_or_owe_parts:
  assumes "take_or_owe ord actor kind party cause nt (u, a) (s, db) = Inr (s', db')"
  obtains d where "(if max (min a (AvailableTx db u)) 0 > 0
      then bindE (ApplyTx u (- max (min a (AvailableTx db u)) 0) kind ord nt (Some actor) db) (\<lambda>(_, db). Inr db)
      else Inr db) = Inr d"
    and "(if a - max (min a (AvailableTx db u)) 0 > 0
      then bindE (Create party u (a - max (min a (AvailableTx db u)) 0) cause ord (Some actor) d) (\<lambda>(_, db). Inr db)
      else Inr d) = Inr db'"
  using assms unfolding take_or_owe_def Let_def by (cases s) (simp only: prod.case bindE_eq_Inr, blast)

lemma take_or_owe_step:
  fixes db :: "'a obligations_db_scheme"
  assumes r: "take_or_owe ord actor kind party cause nt (u, a) (s, db) = Inr (s', db')" and "0 < a" and inv: "obligations_inv db"
    and fresh: "\<not> origin_taken db party u cause (Some ord) None" and "ord \<noteq> ''''"
  shows "money_step ord {kind} {party} db db'" and "orders db' = orders db"
    and "earned db' ord kind v = earned db ord kind v - (if v = u then max (min a (AvailableTx db u)) 0 else 0)"
    and "Debt db' party v = Debt db party v + (if v = u then a - max (min a (AvailableTx db u)) 0 else 0)"
    and "v \<noteq> u \<Longrightarrow> origin_taken db' party v c (Some o') None = origin_taken db party v c (Some o') None"
proof -
  define taken where "taken = max (min a (AvailableTx db u)) 0"
  have le: "0 \<le> taken" "taken \<le> a" using assms(2) by (simp_all add: taken_def)
  obtain d where p: "(if taken > 0 then bindE (ApplyTx u (- taken) kind ord nt (Some actor) db) (\<lambda>(_, db). Inr db)
        else Inr db) = Inr d"
    and c: "(if a - taken > 0 then bindE (Create party u (a - taken) cause ord (Some actor) d) (\<lambda>(_, db). Inr db)
        else Inr d) = Inr db'"
    using take_or_owe_parts[OF r] unfolding taken_def by blast
  have pay: "money_step ord {kind} {} db d \<and> orders d = orders db \<and>
      earned d ord kind v = earned db ord kind v - (if v = u then taken else 0) \<and> Debt d party v = Debt db party v \<and>
      origin_taken d = origin_taken db" for v
  proof (cases "taken > 0")
    case True
    with p obtain b i where "applyTx u (- taken) kind ord nt (Some actor) db = Inr ((b, i), d)"
      by (auto simp: ApplyTx_def branches)
    note this = money_step_post[OF this] applyTx_frame[OF this] earned_post[OF this] obligations_inv_post[OF this]
    then show ?thesis by auto
  qed (use p le in auto)
  have inv_d: "obligations_inv d" using pay inv by (auto simp: money_step_def)
  have owe: "money_step ord {} {party} d db' \<and> orders db' = orders d \<and> wallet_txs db' = wallet_txs d \<and>
      Debt db' party v = Debt d party v + (if v = u then a - taken else 0) \<and>
      (v \<noteq> u \<longrightarrow> origin_taken db' party v c (Some o') None = origin_taken d party v c (Some o') None)" for v c o'
  proof (cases "a - taken > 0")
    case True
    with c obtain made where m: "CreateRef party u (a - taken) cause ord '''' (Some actor) d = Inr (made, db')"
      by (auto simp: Create_def branches)
    then have made using fresh pay assms(5) by (auto simp: CreateRef_def Let_def result_simps split: if_splits)
    obtain os where os: "obligations db' = obligations d @ os" "\<And>x. x \<in> set os \<Longrightarrow> ob_party x = u" using CreateRef_rows[OF m] by blast
    have "origin_taken db' party v c (Some o') None = origin_taken d party v c (Some o') None" if "v \<noteq> u"
      using os(2) that by (auto simp: origin_taken_def os(1) list_ex_iff)
    with money_step_CreateRef[OF m] money_tables_eqD[OF CreateRef_tables[OF m]] CreateRef_inv(2)[OF m inv_d, of party v] \<open>made\<close>
    show ?thesis by auto
  qed (use c le in auto)
  show "money_step ord {kind} {party} db db'"
    by (rule money_step_trans[OF conjunct1[OF pay] conjunct1[OF owe]]) auto
  show "orders db' = orders db" using pay owe by simp
  show "earned db' ord kind v = earned db ord kind v - (if v = u then max (min a (AvailableTx db u)) 0 else 0)"
    using pay[of v] owe by (simp add: earned_def taken_def)
  show "Debt db' party v = Debt db party v + (if v = u then a - max (min a (AvailableTx db u)) 0 else 0)"
    using pay[of v] owe[of v] by (simp add: taken_def)
  show "v \<noteq> u \<Longrightarrow> origin_taken db' party v c (Some o') None = origin_taken db party v c (Some o') None"
    using pay owe by simp
qed

lemma take_or_owe_loop:
  fixes db :: "'a obligations_db_scheme"
  assumes "foldE (take_or_owe ord actor kind party cause nt) gs (s, db) = Inr (s', db')" and "distinct (map fst gs)"
    and "\<And>u a. (u, a) \<in> set gs \<Longrightarrow> 0 < a" and "obligations_inv db" and "ord \<noteq> ''''"
    and "\<And>u. u \<in> fst ` set gs \<Longrightarrow> \<not> origin_taken db party u cause (Some ord) None"
  shows "money_step ord {kind} {party} db db' \<and> orders db' = orders db \<and>
    earned db' ord kind v \<le> earned db ord kind v \<and> Debt db party v \<le> Debt db' party v \<and>
    (earned db ord kind v - earned db' ord kind v) + (Debt db' party v - Debt db party v) =
      (case map_of gs v of None \<Rightarrow> 0 | Some a \<Rightarrow> a)"
  using assms
proof (induction gs arbitrary: s db)
  case (Cons g gs)
  obtain u a where g: "g = (u, a)" by (cases g)
  from Cons.prems(1) obtain s1 d where f: "take_or_owe ord actor kind party cause nt (u, a) (s, db) = Inr (s1, d)"
    and rest: "foldE (take_or_owe ord actor kind party cause nt) gs (s1, d) = Inr (s', db')" by (auto simp: g bindE_eq_Inr)
  have a: "0 < a" using Cons.prems(3)[of u a] by (simp add: g)
  have fresh: "\<not> origin_taken db party u cause (Some ord) None" using Cons.prems(6)[of u] by (simp add: g)
  note st = take_or_owe_step[OF f a Cons.prems(4) fresh Cons.prems(5)]
  have inv: "obligations_inv d" using st(1) Cons.prems(4) by (simp add: money_step_def)
  have u: "u \<notin> fst ` set gs" "distinct (map fst gs)" using Cons.prems(2) by (auto simp: g)
  have "money_step ord {kind} {party} d db' \<and> orders db' = orders d \<and>
    earned db' ord kind v \<le> earned d ord kind v \<and> Debt d party v \<le> Debt db' party v \<and>
    (earned d ord kind v - earned db' ord kind v) + (Debt db' party v - Debt d party v) =
      (case map_of gs v of None \<Rightarrow> 0 | Some a \<Rightarrow> a)"
  proof (rule Cons.IH[OF rest u(2) _ inv Cons.prems(5)])
    show "0 < b" if "(w, b) \<in> set gs" for w b using that Cons.prems(3)[of w b] by simp
    show "\<not> origin_taken d party w cause (Some ord) None" if "w \<in> fst ` set gs" for w
    proof -
      have "w \<noteq> u" using that u(1) by blast
      from st(5)[OF this] Cons.prems(6)[of w] that show ?thesis by simp
    qed
  qed
  moreover have "map_of gs u = None" using u(1) by (simp add: map_of_eq_None_iff)
  ultimately show ?case using st(2) st(3)[of v] st(4)[of v] a money_step_trans[OF st(1), of "{kind}" "{party}" db' "{kind}" "{party}"]
    by (auto simp: g)
qed simp


section \<open>The other steps\<close>

lemma reverse_collections_effect:
  fixes db :: "'a obligations_db_scheme"
  assumes "reverse_collections ord actor db = Inr (s, db')"
  shows "money_step ord {} {} db db'" and "orders db' = orders db" and "wallets db' = wallets db" and "wallet_txs db' = wallet_txs db"
    and "Held db' v = Held db v - max 0 (min (Held db v)
      (sum_list (map ce_amount [e \<leftarrow> cash_entries db. ce_driver e = v \<and> ce_ref e = ord \<and> ce_kind e = ''order_collection''])))"
proof -
  have step: "money_step ord {} {} u w \<and> orders w = orders u \<and> wallets w = wallets u \<and> wallet_txs w = wallet_txs u \<and>
      (\<forall>v. Held w v = Held u v - (if v = d then max 0 (min (Held u v) a) else 0))"
    if r: "reverse_collection ord actor (d, a) (p, u) = Inr (q, w)" for d a p q and u w :: "'a obligations_db_scheme"
  proof (cases "a \<le> 0 \<or> \<not> min (Held u d) a > 0")
    case True
    then have "w = u" using r by (cases p) (auto simp: reverse_collection_def Let_def split: if_splits)
    with True show ?thesis by auto
  next
    case False
    with r obtain h where b: "box_applyTx d (- min (Held u d) a) ''collection_reversed'' ord ''collection of a wrongly delivered order'' (Some actor) u = Inr (h, w)"
      by (cases p) (auto simp: reverse_collection_def Let_def ReverseCollectionTx_def branches)
    then have "wallets w = wallets u \<and> wallet_txs w = wallet_txs u \<and> orders w = orders u"
      by (auto simp: box_applyTx_def insert_cash_entry_def Let_def branches)
    with money_step_box[OF b, of ord] box_applyTx_Inr(1)[OF b] False show ?thesis by (auto simp: cash_posted_def)
  qed
  obtain cols where c: "sums_by_user [(ce_driver e, ce_amount e). e \<leftarrow> cash_entries db, ce_ref e = ord \<and> ce_kind e = ''order_collection''] = Inr cols"
    and l: "foldE (reverse_collection ord actor) cols ((0, 0), db) = Inr (s, db')"
    using assms by (auto simp: reverse_collections_def bindE_eq_Inr)
  have loop: "money_step ord {} {} u w \<and> orders w = orders u \<and> wallets w = wallets u \<and> wallet_txs w = wallet_txs u \<and>
      Held w v = Held u v - max 0 (min (Held u v) (case map_of cs v of None \<Rightarrow> 0 | Some a \<Rightarrow> a))"
    if "foldE (reverse_collection ord actor) cs (p, u) = Inr (q, w)" "distinct (map fst cs)" for cs p q v and u w :: "'a obligations_db_scheme"
    using that
  proof (induction cs arbitrary: p u)
    case (Cons g cs)
    obtain d a where g: "g = (d, a)" by (cases g)
    from Cons.prems(1) obtain p1 u1 where f: "reverse_collection ord actor (d, a) (p, u) = Inr (p1, u1)"
      and rest: "foldE (reverse_collection ord actor) cs (p1, u1) = Inr (q, w)" by (auto simp: g bindE_eq_Inr)
    have d: "map_of cs d = None" "distinct (map fst cs)" using Cons.prems(2) by (auto simp: g map_of_eq_None_iff)
    from step[OF f] Cons.IH[OF rest d(2)] d(1) show ?case
      by (auto simp: g intro: money_step_trans[of ord "{}" "{}" u u1])
  qed (auto simp: max_def min_def)
  note s = sums_by_user_spec[OF c]
  have "Held db' v = Held db v - max 0 (min (Held db v) (case map_of cols v of None \<Rightarrow> 0 | Some a \<Rightarrow> a))" for v
    using loop[OF l s(1)] by blast
  moreover have "(case map_of cols v of None \<Rightarrow> 0 | Some a \<Rightarrow> a) =
      sum_list (map ce_amount [e \<leftarrow> cash_entries db. ce_driver e = v \<and> ce_ref e = ord \<and> ce_kind e = ''order_collection''])" for v
  proof -
    have sum: "sum_list (map snd [p \<leftarrow> [(ce_driver e, ce_amount e). e \<leftarrow> es, ce_ref e = ord \<and> ce_kind e = ''order_collection'']. fst p = v]) =
        sum_list (map ce_amount [e \<leftarrow> es. ce_driver e = v \<and> ce_ref e = ord \<and> ce_kind e = ''order_collection''])" for es
      by (induction es) auto
    have "[e \<leftarrow> cash_entries db. ce_driver e = v \<and> ce_ref e = ord \<and> ce_kind e = ''order_collection''] = []"
      if "v \<notin> fst ` set [(ce_driver e, ce_amount e). e \<leftarrow> cash_entries db, ce_ref e = ord \<and> ce_kind e = ''order_collection'']"
      using that by (force simp: filter_empty_conv)
    with sum[of "cash_entries db"] show ?thesis by (simp add: s(2))
  qed
  ultimately show "Held db' v = Held db v - max 0 (min (Held db v)
      (sum_list (map ce_amount [e \<leftarrow> cash_entries db. ce_driver e = v \<and> ce_ref e = ord \<and> ce_kind e = ''order_collection''])))" by simp
  show "money_step ord {} {} db db'" "orders db' = orders db" "wallets db' = wallets db" "wallet_txs db' = wallet_txs db"
    using loop[OF l s(1)] by blast+
qed

lemma take_or_owe_frame:
  fixes u :: "'a obligations_db_scheme"
  assumes st: "take_or_owe ord actor kind party cause nt g (s, u) = Inr (s', w)"
  shows "money_step ord {kind} {party} u w \<and> orders w = orders u \<and> boxes w = boxes u"
proof -
  let ?P = "\<lambda>u w. money_step ord {kind} {party} u w \<and> orders w = orders u \<and> boxes w = boxes u"
  have two: "?P u w" if "?P u v" "?P v w" for u v w :: "'a obligations_db_scheme"
    using that money_step_trans[of ord "{kind}" "{party}" u v "{kind}" "{party}" w "{kind}" "{party}"] by simp
  have post: "?P u w" if "ApplyTx v a kind ord nt m u = Inr (b, w)" for v a nt m b and u w :: "'a obligations_db_scheme"
  proof -
    from that obtain r where "applyTx v a kind ord nt m u = Inr (r, w)" by (auto simp: ApplyTx_def branches)
    from applyTx_orders_cash(1)[OF this] money_step_mono[OF money_step_post[OF this], of "{kind}" "{party}"] same_boxes_ApplyTx[OF that]
    show ?thesis by simp
  qed
  have owe: "?P u w" if "Create party v a c ord m u = Inr (b, w)" for v a c m b and u w :: "'a obligations_db_scheme"
    using money_step_mono[OF money_step_Create[OF that], of "{kind}" "{party}"] same_boxes_Create[OF that]
      money_tables_eqD(8)[OF CreateRef_tables[OF that[unfolded Create_def]]] by simp
  obtain v a where g: "g = (v, a)" by (cases g)
  define taken where "taken = max (min a (AvailableTx u v)) 0"
  obtain d where p: "(if taken > 0 then bindE (ApplyTx v (- taken) kind ord nt (Some actor) u) (\<lambda>(_, db). Inr db)
        else Inr u) = Inr d"
    and c: "(if a - taken > 0 then bindE (Create party v (a - taken) cause ord (Some actor) d) (\<lambda>(_, db). Inr db)
        else Inr d) = Inr w"
    using take_or_owe_parts[OF st[unfolded g]] unfolding taken_def by blast
  have "?P u d" using p by (auto simp: bindE_eq_Inr dest: post split: if_splits)
  moreover have "?P d w" using c by (auto simp: bindE_eq_Inr dest: owe split: if_splits)
  ultimately show ?thesis by (rule two)
qed

lemma take_or_owe_loop_frame:
  fixes db :: "'a obligations_db_scheme"
  assumes "foldE (take_or_owe ord actor kind party cause nt) gs (s, db) = Inr (s', db')"
  shows "money_step ord {kind} {party} db db' \<and> orders db' = orders db \<and> boxes db' = boxes db"
proof -
  let ?P = "\<lambda>u w. money_step ord {kind} {party} u w \<and> orders w = orders u \<and> boxes w = boxes u"
  have two: "?P u w" if "?P u v" "?P v w" for u v w :: "'a obligations_db_scheme"
    using that money_step_trans[of ord "{kind}" "{party}" u v "{kind}" "{party}" w "{kind}" "{party}"] by simp
  have "?P db (snd (s', db'))"
  proof (rule foldE_inv[OF assms, where P = "\<lambda>u. ?P db (snd u)"])
    fix x u v assume "?P db (snd u)" and f: "take_or_owe ord actor kind party cause nt x u = Inr v"
    moreover have "?P (snd u) (snd v)" using f take_or_owe_frame[of ord actor kind party cause nt x "fst u" "snd u" "fst v" "snd v"] by simp
    ultimately show "?P db (snd v)" using two by blast
  qed simp
  then show ?thesis by simp
qed

lemma reverseEarnings_frame:
  fixes db :: "'a obligations_db_scheme"
  assumes "reverseEarnings ord actor kind party db = Inr (res, db')"
  shows "money_step ord {kind} {party} db db' \<and> orders db' = orders db \<and> boxes db' = boxes db"
  using assms by (auto simp: reverseEarnings_def bindE_eq_Inr split: prod.splits dest!: take_or_owe_loop_frame)

lemma reverseEarnings_effect:
  fixes db :: "'a obligations_db_scheme"
  assumes r: "reverseEarnings ord actor kind party db = Inr (res, db')" and "obligations_inv db" and "ord \<noteq> ''''"
    and "\<And>u. \<not> origin_taken db party u CauseUndeliveredOrder (Some ord) None"
  shows "money_step ord {kind} {party} db db' \<and> orders db' = orders db \<and>
    earned db' ord kind v \<le> earned db ord kind v \<and> Debt db party v \<le> Debt db' party v \<and>
    (earned db ord kind v - earned db' ord kind v) + (Debt db' party v - Debt db party v) =
      sum_list (map snd [p \<leftarrow> paid_rows db ord kind. fst p = v])"
proof -
  obtain gs s where g: "sums_by_user (paid_rows db ord kind) = Inr gs"
    and l: "foldE (take_or_owe ord actor kind party CauseUndeliveredOrder ''earning of a wrongly delivered order'') gs ((0, 0), db) = Inr (s, db')"
    using r by (auto simp: reverseEarnings_def bindE_eq_Inr split: prod.splits)
  have pos: "0 < snd p" if "p \<in> set (paid_rows db ord kind)" for p using that by (auto simp: paid_rows_def)
  note s = sums_by_user_spec[OF g]
  have "sum_list (map snd [p \<leftarrow> paid_rows db ord kind. fst p = v]) = 0" if "v \<notin> fst ` set (paid_rows db ord kind)"
  proof -
    have "[p \<leftarrow> paid_rows db ord kind. fst p = v] = []" using that by (force simp: filter_empty_conv)
    then show ?thesis by simp
  qed
  with take_or_owe_loop[OF l s(1) sums_by_user_pos[OF g pos] assms(2,3) assms(4), where v = v] show ?thesis
    by (auto simp: s(2) split: if_splits)
qed

lemma forfeit_held_effect:
  fixes db :: "'a money_db_scheme"
  assumes "forfeit_held ord db = Inr (h, db')"
  shows "money_step ord {} {} db db' \<and> orders db' = orders db \<and> wallets db' = wallets db \<and> wallet_txs db' = wallet_txs db"
  using assms by (auto simp: forfeit_held_def bindE_eq_Inr obligations_inv_simps intro!: money_step_same)

lemma reverseReferral_effect:
  assumes "reverseReferral ord customer actor db = Inr (h, db')"
  shows "money_step ord {''reward''} {} db db' \<and> orders db' = orders db"
proof -
  have keep: "money_step ord {''reward''} {} d (d\<lparr>referrals := rs\<rparr>)" for d :: "'a later_db_scheme" and rs
    by (rule money_step_tables) simp_all
  have post: "money_step ord {''reward''} {} u w \<and> orders w = orders u"
    if "ApplyTx v a ''reward'' ord nt m u = Inr (b, w)" for v a nt m b and u w :: "'a later_db_scheme"
    using that money_step_ApplyTx[OF that] applyTx_orders_cash(1) by (auto simp: ApplyTx_def branches)
  from assms consider "db' = db"
    | a u b d e where "ApplyTx u a ''reward'' ord b (Some actor) db = Inr (e, d)"
        "\<exists>rs. db' = d\<lparr>referrals := rs\<rparr>"
    | a u b d e a' u' b' d' e' where "ApplyTx u a ''reward'' ord b (Some actor) db = Inr (e, d)"
        "ApplyTx u' a' ''reward'' ord b' (Some actor) d = Inr (e', d')" "\<exists>rs. db' = d'\<lparr>referrals := rs\<rparr>"
    by (fastforce simp: reverseReferral_def Let_def branches split: list.splits if_splits)
  then show ?thesis
  proof cases
    case (2 a u b d e)
    from post[OF 2(1)] 2(2) keep[of d] show ?thesis by (auto intro: money_step_trans)
  next
    case (3 a u b d e a' u' b' d' e')
    from 3(3) obtain rs where rs: "db' = d'\<lparr>referrals := rs\<rparr>" by blast
    have "money_step ord {''reward''} {} db d'"
      by (rule money_step_trans[OF conjunct1[OF post[OF 3(1)]] conjunct1[OF post[OF 3(2)]]]) simp_all
    from money_step_trans[OF this keep[of d' rs]] post[OF 3(1)] post[OF 3(2)] show ?thesis by (simp add: rs)
  qed simp
qed

lemma undeliver_order_effect:
  fixes db :: "'a engine_db_scheme"
  shows "money_step ord {} {} db (undeliver_order ord actor reason x db)"
    and "order_of (undeliver_order ord actor reason x db) j = order_of (update_order ord (cancelled_row reason (db_now db)) db) j"
    and "wallet_txs (undeliver_order ord actor reason x db) = wallet_txs db"
proof -
  let ?d = "add_event \<lparr>ev_order = ord, ev_from = StDelivered, ev_to = StCancelled, ev_actor = opt_actor actor,
      ev_note = reason, ev_driver = o_driver x, ev_merchant = None\<rparr> (update_order ord (cancelled_row reason (db_now db)) db)"
  have "money_step ord {} {} d (add_event e d)" "money_step ord {} {} d (return_promo ord c d)" for e c and d :: "'a engine_db_scheme"
    by (rule money_step_tables; simp add: add_event_def return_promo_def)+
  then have "money_step ord {} {} db ?d" "money_step ord {} {} ?d (return_promo ord (o_promo_code x) ?d)"
    using money_step_trans[OF money_step_update_order, of ord "{}" "{}"] by blast+
  then show "money_step ord {} {} db (undeliver_order ord actor reason x db)"
    using money_step_trans[of ord "{}" "{}" db ?d "{}" "{}"] by (simp add: undeliver_order_def Let_def)
  show "order_of (undeliver_order ord actor reason x db) j = order_of (update_order ord (cancelled_row reason (db_now db)) db) j"
    by (simp add: undeliver_order_def add_event_def return_promo_def Let_def order_of_def)
  show "wallet_txs (undeliver_order ord actor reason x db) = wallet_txs db"
    by (simp add: undeliver_order_def add_event_def return_promo_def Let_def)
qed

lemma return_from_drawer_effect:
  fixes db :: "'a settle_db_scheme"
  assumes "return_from_drawer ord actor driver handed db = Inr (out, db')"
  shows "money_step ord {} {} db db' \<and> orders db' = orders db \<and> wallet_txs db' = wallet_txs db"
proof -
  have rec: "money_step ord {} {} db w \<and> orders w = orders db \<and> wallet_txs w = wallet_txs db" if "Record e db = Inr w" for e w
    using money_step_record[OF that] that by (auto simp: Record_def branches)
  show ?thesis
  proof (cases driver)
    case (Some d)
    let ?out = "\<lambda>returned. wrap64 (fst (driverPaidFor ord d db) + handed - returned)"
    from assms obtain returned where "(if ?out returned > 0
        then bindE (Record \<lparr>oe_direction = CashOut, oe_amount = ?out returned, oe_source = SourceUndeliveredReturn, oe_ref = ord,
               oe_user = d, oe_actor = actor, oe_note = ''undelivered order''\<rparr> db) (\<lambda>db. Inr (?out returned, db))
        else Inr (0, db)) = Inr (out, db')"
      unfolding return_from_drawer_def Some option.case Let_def by (simp only: bindE_eq_Inr) blast
    then show ?thesis by (auto simp: bindE_eq_Inr dest: rec split: if_splits)
  qed (use assms in \<open>simp add: return_from_drawer_def\<close>)
qed


section \<open>The whole operation\<close>

lemma undeliverTx_steps:
  fixes db :: "'a later_db_scheme"
  assumes "undeliverTx actor ord reason db = Inr (res, db')"
  obtains x s1 d1 s2 d2 s3 d3 s4 d4 s5 d5 s6 d6 s7 d7 where "order_of db ord = Some x"
    "o_kind x = KindStandard" "o_status x = StDelivered" "o_commission_waived x \<le> 0"
    "reverse_collections ord actor db = Inr (s1, d1)"
    "reverseEarnings ord actor ''driver_earning'' PartyDriver d1 = Inr (s2, d2)"
    "reverseEarnings ord actor ''commission'' PartyRep d2 = Inr (s3, d3)"
    "forfeit_held ord d3 = Inr (s4, d4)" "reverseReferral ord (o_customer x) actor d4 = Inr (s5, d5)"
    "(if o_wallet_paid x > 0 \<and> o_customer x \<noteq> ''''
      then bindE (ApplyTx (o_customer x) (o_wallet_paid x) ''refund'' ord ''refund of a wrongly delivered order'' (Some actor)
               (undeliver_order ord actor reason x d5)) (\<lambda>(_, db). Inr (o_wallet_paid x, db))
      else Inr (0, undeliver_order ord actor reason x d5)) = Inr (s6, d6)"
    "return_from_drawer ord actor (o_driver x) (snd s1) d6 = Inr (s7, d7)" "creditTreasury ord actor d7 = Inr db'"
proof -
  obtain x where x: "order_of db ord = Some x" using assms by (auto simp: undeliverTx_def split: option.splits)
  have c: "o_kind x = KindStandard" "o_status x = StDelivered" "o_commission_waived x \<le> 0"
    using assms by (auto simp: undeliverTx_def x split: if_splits)
  from assms c show thesis
    unfolding undeliverTx_def x option.case Let_def
    by (simp add: bindE_eq_Inr del: if_Inl_eq_Inr split del: if_split)
      (elim exE conjE, rule that[OF x c], (assumption | simp add: case_prod_beta)+)
qed

text \<open>What the operation leaves on the order, in the ledger and in the books.\<close>

lemma undeliverTx_effect:
  fixes db :: "'a later_db_scheme"
  assumes u: "undeliverTx actor ord reason db = Inr (res, db')" and x: "order_of db ord = Some x"
  shows "o_kind x = KindStandard \<and> o_status x = StDelivered \<and> o_commission_waived x \<le> 0"
    and "order_of db' j = (if j = ord then Some (cancelled_row reason (db_now db) x) else order_of db j)"
    and "refund_log db' r = refund_log db r @
      (if r = ord \<and> 0 < o_wallet_paid x \<and> o_customer x \<noteq> '''' then [(o_customer x, o_wallet_paid x)] else [])"
    and "r \<noteq> ord \<Longrightarrow> rows_of db' r = rows_of db r"
    and "treasuryOn db \<noteq> '''' \<Longrightarrow> tx_sum db' ord order_kinds =
      (if list_ex (\<lambda>t. tx_ref t = ord \<and> tx_kind t = ''order_payment'') (wallet_txs db) then 0 else o_wallet_paid x)"
proof -
  obtain y s1 d1 s2 d2 s3 d3 s4 d4 s5 d5 s6 d6 s7 d7 where y: "order_of db ord = Some y"
    and c: "o_kind y = KindStandard" "o_status y = StDelivered" "o_commission_waived y \<le> 0"
    and e1: "reverse_collections ord actor db = Inr (s1, d1)"
    and e2: "reverseEarnings ord actor ''driver_earning'' PartyDriver d1 = Inr (s2, d2)"
    and e3: "reverseEarnings ord actor ''commission'' PartyRep d2 = Inr (s3, d3)"
    and e4: "forfeit_held ord d3 = Inr (s4, d4)" and e5: "reverseReferral ord (o_customer y) actor d4 = Inr (s5, d5)"
    and e6: "(if o_wallet_paid y > 0 \<and> o_customer y \<noteq> ''''
      then bindE (ApplyTx (o_customer y) (o_wallet_paid y) ''refund'' ord ''refund of a wrongly delivered order'' (Some actor)
               (undeliver_order ord actor reason y d5)) (\<lambda>(_, db). Inr (o_wallet_paid y, db))
      else Inr (0, undeliver_order ord actor reason y d5)) = Inr (s6, d6)"
    and e7: "return_from_drawer ord actor (o_driver y) (snd s1) d6 = Inr (s7, d7)" and e8: "creditTreasury ord actor d7 = Inr db'"
    by (rule undeliverTx_steps[OF u])
  note y = y c
  have yx: "y = x" using x y(1) by simp
  note y = y[unfolded yx]
  show "o_kind x = KindStandard \<and> o_status x = StDelivered \<and> o_commission_waived x \<le> 0" using y by blast
  let ?ks = "{''driver_earning'', ''commission'', ''reward'', ''refund''}" and ?ps = "{PartyDriver, PartyRep}"
  let ?d = "undeliver_order ord actor reason x d5"
  note r1 = reverse_collections_effect(1-4)[OF e1] and r2 = reverseEarnings_frame[OF e2] and r3 = reverseEarnings_frame[OF e3]
    and r4 = forfeit_held_effect[OF e4] and r5 = reverseReferral_effect[OF e5] and r7 = return_from_drawer_effect[OF e7]
  have m5: "money_step ord (?ks - {''refund''}) ?ps db d5"
  proof -
    have "money_step ord (?ks - {''refund''}) ?ps db d1" by (rule money_step_mono[OF r1(1)]) simp_all
    also have "money_step ord (?ks - {''refund''}) ?ps d1 d2" by (rule money_step_mono[OF conjunct1[OF r2]]) simp_all
    also have "money_step ord (?ks - {''refund''}) ?ps d2 d3" by (rule money_step_mono[OF conjunct1[OF r3]]) simp_all
    also have "money_step ord (?ks - {''refund''}) ?ps d3 d4" by (rule money_step_mono[OF conjunct1[OF r4]]) simp_all
    also have "money_step ord (?ks - {''refund''}) ?ps d4 d5" by (rule money_step_mono[OF conjunct1[OF r5]]) simp_all
    finally show ?thesis .
  qed
  have o5: "orders d5 = orders db" and now: "db_now d5 = db_now db" using r1(2) r2 r3 r4 r5 m5 by (simp_all add: money_step_def)
  have m6: "money_step ord ?ks ?ps ?d d6" and o6: "orders d6 = orders ?d"
    and l6: "refund_log d6 r = refund_log ?d r @
      (if r = ord \<and> 0 < o_wallet_paid x \<and> o_customer x \<noteq> '''' then [(o_customer x, o_wallet_paid x)] else [])" for r
  proof -
    consider "?d = d6" "\<not> (0 < o_wallet_paid x \<and> o_customer x \<noteq> '''')"
      | b where "0 < o_wallet_paid x \<and> o_customer x \<noteq> ''''"
        "ApplyTx (o_customer x) (o_wallet_paid x) ''refund'' ord ''refund of a wrongly delivered order'' (Some actor) ?d = Inr (b, d6)"
      using e6 unfolding yx by (auto simp: bindE_eq_Inr split: if_splits)
    then have "money_step ord ?ks ?ps ?d d6 \<and> orders d6 = orders ?d \<and> refund_log d6 r = refund_log ?d r @
      (if r = ord \<and> 0 < o_wallet_paid x \<and> o_customer x \<noteq> '''' then [(o_customer x, o_wallet_paid x)] else [])" for r
    proof cases
      case (2 b)
      then obtain q where "applyTx (o_customer x) (o_wallet_paid x) ''refund'' ord ''refund of a wrongly delivered order'' (Some actor) ?d = Inr (q, d6)"
        by (auto simp: ApplyTx_def branches)
      from applyTx_orders_cash(1)[OF this] money_step_mono[OF money_step_post[OF this], of ?ks ?ps] refund_log_ApplyTx[OF 2(2)] 2(1)
      show ?thesis by simp
    qed auto
    then show "money_step ord ?ks ?ps ?d d6" "orders d6 = orders ?d" "refund_log d6 r = refund_log ?d r @
      (if r = ord \<and> 0 < o_wallet_paid x \<and> o_customer x \<noteq> '''' then [(o_customer x, o_wallet_paid x)] else [])" for r by blast+
  qed
  have m7: "money_step ord ?ks ?ps db d7"
  proof -
    have "money_step ord ?ks ?ps db d5" by (rule money_step_mono[OF m5]) auto
    also have "money_step ord ?ks ?ps d5 ?d" by (rule money_step_mono[OF undeliver_order_effect(1)]) simp_all
    also note m6
    also have "money_step ord ?ks ?ps d6 d7" by (rule money_step_mono[OF conjunct1[OF r7]]) simp_all
    finally show ?thesis .
  qed
  have row7: "order_of d7 j = (if j = ord then Some (cancelled_row reason (db_now db) x) else order_of db j)" for j
  proof -
    have "order_of d7 j = order_of (update_order ord (cancelled_row reason (db_now d5)) d5) j"
      using r7 o6 undeliver_order_effect(2)[of ord actor reason x d5 j] by (simp add: order_of_def)
    also have "\<dots> = (if j = ord then Some (cancelled_row reason (db_now db) x) else order_of db j)"
      using o5 now x by (subst order_of_update) (simp_all add: cancelled_row_def order_of_def)
    finally show ?thesis .
  qed
  have o8: "order_of db' = order_of d7"
    using creditTreasury_shape[OF e8] applyTx_orders_cash(3) by auto
  show "order_of db' j = (if j = ord then Some (cancelled_row reason (db_now db) x) else order_of db j)" for j
    using row7[of j] o8 by simp
  show "refund_log db' r = refund_log db r @
      (if r = ord \<and> 0 < o_wallet_paid x \<and> o_customer x \<noteq> '''' then [(o_customer x, o_wallet_paid x)] else [])" for r
    using l6[of r] money_step_rows(4)[OF m5] refund_log_same[OF undeliver_order_effect(3)[of ord actor reason x d5]] refund_log_same[OF conjunct2[OF conjunct2[OF r7]]]
      refund_log_treasury[OF e8] by simp
  have m8: "money_step ord (insert ''platform_profit'' ?ks) ?ps db db'"
    by (rule money_step_trans[OF m7 money_step_treasury[OF e8]]) auto
  show "rows_of db' r = rows_of db r" if "r \<noteq> ord" for r by (rule money_step_rows(1)[OF m8 that])
  assume t: "treasuryOn db \<noteq> ''''"
  have t7: "treasuryOn d7 \<noteq> ''''" using m7 t by (simp add: money_step_def)
  have x7: "order_of d7 ord = Some (cancelled_row reason (db_now db) x)" using row7 by simp
  have "cash_part db' (cancelled_row reason (db_now db) x) = 0" "o_kind (cancelled_row reason (db_now db) x) \<noteq> KindCustom"
    "o_wallet_paid (cancelled_row reason (db_now db) x) = o_wallet_paid x"
    using y(2) by (simp_all add: cash_part_def cancelled_row_def)
  with treasury_closed[OF e8 t7 x7] money_step_rows(5)[OF m7, of "''order_payment''" ord]
  show "tx_sum db' ord order_kinds =
      (if list_ex (\<lambda>t. tx_ref t = ord \<and> tx_kind t = ''order_payment'') (wallet_txs db) then 0 else o_wallet_paid x)" by simp
qed


text \<open>What it takes back, from the boxes and from those who were paid for the delivery.\<close>

lemma same_boxes_undeliver:
  shows "forfeit_held ord db = Inr (h, db') \<Longrightarrow> boxes db' = boxes db"
    and "reverseReferral ord customer actor d = Inr (p, d') \<Longrightarrow> boxes d' = boxes d"
    and "boxes (undeliver_order ord actor reason x e) = boxes e"
    and "return_from_drawer ord actor driver handed f = Inr (out, f') \<Longrightarrow> boxes f' = boxes f"
proof -
  show "boxes db' = boxes db" if "forfeit_held ord db = Inr (h, db')" using that by (auto simp: forfeit_held_def bindE_eq_Inr)
  show "boxes d' = boxes d" if "reverseReferral ord customer actor d = Inr (p, d')"
    using that by (auto simp: reverseReferral_def Let_def branches split: list.splits if_splits dest!: same_boxes_ApplyTx)
  show "boxes (undeliver_order ord actor reason x e) = boxes e"
    by (simp add: undeliver_order_def add_event_def return_promo_def update_order_def Let_def)
  have rec: "boxes w = boxes u" if "Record z u = Inr w" for z and u w :: "'g settle_db_scheme"
    using that by (auto simp: Record_def branches)
  show "boxes f' = boxes f" if "return_from_drawer ord actor driver handed f = Inr (out, f')"
    using that by (auto simp: return_from_drawer_def Let_def bindE_eq_Inr split: option.splits if_splits dest: rec)
qed

lemma undeliverTx_back:
  fixes db :: "'a later_db_scheme"
  assumes u: "undeliverTx actor ord reason db = Inr (res, db')" and inv: "obligations_inv db" and ord: "ord \<noteq> ''''"
    and fresh: "\<And>p v. p \<in> {PartyDriver, PartyRep} \<Longrightarrow> \<not> origin_taken db p v CauseUndeliveredOrder (Some ord) None"
  shows "Held db' v = Held db v - max 0 (min (Held db v)
      (sum_list (map ce_amount [e \<leftarrow> cash_entries db. ce_driver e = v \<and> ce_ref e = ord \<and> ce_kind e = ''order_collection''])))"
    and "(k, p) \<in> {(''driver_earning'', PartyDriver), (''commission'', PartyRep)} \<Longrightarrow>
      earned db' ord k v \<le> earned db ord k v \<and> Debt db p v \<le> Debt db' p v \<and>
      (earned db ord k v - earned db' ord k v) + (Debt db' p v - Debt db p v) =
        sum_list (map snd [q \<leftarrow> paid_rows db ord k. fst q = v])"
proof -
  obtain x s1 d1 s2 d2 s3 d3 s4 d4 s5 d5 s6 d6 s7 d7 where
        e1: "reverse_collections ord actor db = Inr (s1, d1)"
    and e2: "reverseEarnings ord actor ''driver_earning'' PartyDriver d1 = Inr (s2, d2)"
    and e3: "reverseEarnings ord actor ''commission'' PartyRep d2 = Inr (s3, d3)"
    and e4: "forfeit_held ord d3 = Inr (s4, d4)" and e5: "reverseReferral ord (o_customer x) actor d4 = Inr (s5, d5)"
    and e6: "(if o_wallet_paid x > 0 \<and> o_customer x \<noteq> ''''
      then bindE (ApplyTx (o_customer x) (o_wallet_paid x) ''refund'' ord ''refund of a wrongly delivered order'' (Some actor)
               (undeliver_order ord actor reason x d5)) (\<lambda>(_, db). Inr (o_wallet_paid x, db))
      else Inr (0, undeliver_order ord actor reason x d5)) = Inr (s6, d6)"
    and e7: "return_from_drawer ord actor (o_driver x) (snd s1) d6 = Inr (s7, d7)" and e8: "creditTreasury ord actor d7 = Inr db'"
    by (rule undeliverTx_steps[OF u])
  let ?d = "undeliver_order ord actor reason x d5"
  have m6: "money_step ord {''refund''} {} ?d d6 \<and> boxes d6 = boxes ?d"
    using e6 by (auto simp: bindE_eq_Inr split: if_splits intro: money_step_ApplyTx dest: same_boxes_ApplyTx)
  have "boxes db' = boxes d1"
    using reverseEarnings_frame[OF e2] reverseEarnings_frame[OF e3] same_boxes_undeliver(1)[OF e4] same_boxes_undeliver(2)[OF e5]
      same_boxes_undeliver(3)[of ord actor reason x d5] m6 same_boxes_undeliver(4)[OF e7] same_boxes_treasury[OF e8] by simp
  then have "Held db' v = Held d1 v" by (simp add: Held_def)
  with reverse_collections_effect(5)[OF e1, of v]
  show "Held db' v = Held db v - max 0 (min (Held db v)
      (sum_list (map ce_amount [e \<leftarrow> cash_entries db. ce_driver e = v \<and> ce_ref e = ord \<and> ce_kind e = ''order_collection''])))" by simp
  let ?ks = "{''reward'', ''refund'', ''platform_profit''}"
  have m3: "money_step ord ?ks {} d3 db'"
  proof -
    have "money_step ord ?ks {} d3 d4" by (rule money_step_mono[OF conjunct1[OF forfeit_held_effect[OF e4]]]) simp_all
    also have "money_step ord ?ks {} d4 d5" by (rule money_step_mono[OF conjunct1[OF reverseReferral_effect[OF e5]]]) simp_all
    also have "money_step ord ?ks {} d5 ?d" by (rule money_step_mono[OF undeliver_order_effect(1)]) simp_all
    also have "money_step ord ?ks {} ?d d6" by (rule money_step_mono[OF conjunct1[OF m6]]) simp_all
    also have "money_step ord ?ks {} d6 d7" by (rule money_step_mono[OF conjunct1[OF return_from_drawer_effect[OF e7]]]) simp_all
    also have "money_step ord ?ks {} d7 db'" by (rule money_step_mono[OF money_step_treasury[OF e8]]) simp_all
    finally show ?thesis .
  qed
  note m1 = reverse_collections_effect(1)[OF e1] and l1 = reverse_collections_effect(4)[OF e1]
  have i1: "obligations_inv d1" using m1 inv by (simp add: money_step_def)
  have f1: "\<not> origin_taken d1 PartyDriver w CauseUndeliveredOrder (Some ord) None" for w
    using m1 fresh[of PartyDriver w] by (simp add: money_step_def)
  note r2 = reverseEarnings_effect[OF e2 i1 ord f1]
  have m2: "money_step ord {''driver_earning''} {PartyDriver} d1 d2" using r2 by blast
  have i2: "obligations_inv d2" using m2 i1 by (simp add: money_step_def)
  have f2: "\<not> origin_taken d2 PartyRep w CauseUndeliveredOrder (Some ord) None" for w
    using m1 m2 fresh[of PartyRep w] by (simp add: money_step_def party_defs)
  note r3 = reverseEarnings_effect[OF e3 i2 ord f2]
  have m23: "money_step ord {''commission''} {PartyRep} d2 d3" using r3 by blast
  have same: "paid_rows d1 ord k = paid_rows db ord k" "earned d1 ord k w = earned db ord k w" for k w
    using l1 by (simp_all add: paid_rows_def earned_def)
  have paid2: "paid_rows d2 ord ''commission'' = paid_rows d1 ord ''commission''"
  proof -
    have split: "paid_rows z ord k = [(tx_user t, tx_amount t). t \<leftarrow> [t \<leftarrow> wallet_txs z. tx_ref t = ord \<and> tx_kind t = k], tx_amount t > 0]"
      for z :: "'a later_db_scheme" and k
    proof -
      have "[(tx_user t, tx_amount t). t \<leftarrow> ts, tx_ref t = ord \<and> tx_kind t = k \<and> tx_amount t > 0] =
          [(tx_user t, tx_amount t). t \<leftarrow> [t \<leftarrow> ts. tx_ref t = ord \<and> tx_kind t = k], tx_amount t > 0]" for ts
        by (induction ts) auto
      then show ?thesis unfolding paid_rows_def .
    qed
    show ?thesis unfolding split using money_step_rows(6)[OF m2, of "''commission''" ord] by simp
  qed
  have debts: "Debt d1 q w = Debt db q w" "q \<noteq> PartyDriver \<Longrightarrow> Debt d2 q w = Debt d1 q w" "q \<noteq> PartyRep \<Longrightarrow> Debt d3 q w = Debt d2 q w"
      "Debt db' q w = Debt d3 q w" for q w
    using m1 m2 m23 m3 by (simp_all add: money_step_def)
  have other: "PartyDriver \<noteq> PartyRep" by (simp add: party_defs)
  have d: "earned db' ord ''driver_earning'' v = earned d2 ord ''driver_earning'' v"
    using money_step_rows(2)[OF m3, of "''driver_earning''" ord v] money_step_rows(2)[OF m23, of "''driver_earning''" ord v] by simp
  have c: "earned db' ord ''commission'' v = earned d3 ord ''commission'' v" "earned d2 ord ''commission'' v = earned d1 ord ''commission'' v"
    using money_step_rows(2)[OF m3, of "''commission''" ord v] money_step_rows(2)[OF m2, of "''commission''" ord v] by simp_all
  assume "(k, p) \<in> {(''driver_earning'', PartyDriver), (''commission'', PartyRep)}"
  then consider "k = ''driver_earning''" "p = PartyDriver" | "k = ''commission''" "p = PartyRep" by blast
  then show "earned db' ord k v \<le> earned db ord k v \<and> Debt db p v \<le> Debt db' p v \<and>
      (earned db ord k v - earned db' ord k v) + (Debt db' p v - Debt db p v) =
        sum_list (map snd [q \<leftarrow> paid_rows db ord k. fst q = v])"
  proof cases
    case 1
    show ?thesis using r2[of v] d debts other same by (simp add: 1)
  next
    case 2
    show ?thesis using r3[of v] c debts other same paid2 by (simp add: 2)
  qed
qed

lemma Undeliver_Tx:
  assumes "Undeliver actor roles ord reason None db = Inr (res, db')"
  shows "undeliverTx actor ord (TrimSpace reason) db = Inr (res, db')" and "''admin'' \<in> set roles \<or> ''owner_super_admin'' \<in> set roles"
  using assms by (auto simp: Undeliver_def bindE_eq_Inr split: if_splits prod.splits)

section \<open>Properties\<close>

text \<open>
  C36. The delivery of an order is withdrawn whole or not at all: only an administrator withdraws it, and only a standard
  order that is delivered and whose commission was not waived; the order becomes cancelled and no other order
  changes; the customer is refunded what his wallet paid, once; no ledger row of another order is written; the books
  of the order close on nothing but what was paid outside the ledger; and it cannot be withdrawn again.
\<close>

theorem undeliver_exact:
  fixes db :: "'a later_db_scheme"
  assumes "Undeliver actor roles ord reason None db = Inr (res, db')" and "order_of db ord = Some x"
  shows "(''admin'' \<in> set roles \<or> ''owner_super_admin'' \<in> set roles) \<and>
    o_kind x = KindStandard \<and> o_status x = StDelivered \<and> o_commission_waived x \<le> 0 \<and>
    order_of db' j = (if j = ord then Some (cancelled_row (TrimSpace reason) (db_now db) x) else order_of db j) \<and>
    refund_log db' r = refund_log db r @
      (if r = ord \<and> 0 < o_wallet_paid x \<and> o_customer x \<noteq> '''' then [(o_customer x, o_wallet_paid x)] else []) \<and>
    (r \<noteq> ord \<longrightarrow> rows_of db' r = rows_of db r) \<and>
    (treasuryOn db \<noteq> '''' \<longrightarrow> tx_sum db' ord order_kinds =
      (if list_ex (\<lambda>t. tx_ref t = ord \<and> tx_kind t = ''order_payment'') (wallet_txs db) then 0 else o_wallet_paid x)) \<and>
    failed (Undeliver actor2 roles2 ord reason2 hook db')"
proof -
  note u = Undeliver_Tx[OF assms(1)]
  note e = undeliverTx_effect[OF u(1) assms(2)]
  have "order_of db' ord = Some (cancelled_row (TrimSpace reason) (db_now db) x)" using e(2)[of ord] by simp
  then have "failed (Undeliver actor2 roles2 ord reason2 hook db')"
    using e(1) by (simp add: Undeliver_def undeliverTx_def cancelled_row_def)
  with e u(2) show ?thesis by blast
qed

text \<open>An order paid with 700 of the wallet and 500 in cash: the driver has 300 of it left and 60 of the 100 he earned.\<close>

definition example_later_db :: later_db where
  "example_later_db = engine_db.extend (money_db.extend (example_held_db\<lparr>orders := [example_order\<lparr>o_promo_code := ''ten''\<rparr>],
       wallets := [(''t'', zero_wallet\<lparr>w_treasury := True, w_balance := 1100\<rparr>), (''a'', zero_wallet), (''d'', zero_wallet\<lparr>w_balance := 60\<rparr>)],
       wallet_txs := [\<lparr>tx_id = 0, tx_user = ''a'', tx_amount = - 700, tx_kind = ''order_payment'', tx_ref = ''o1'', tx_note = [], tx_by = None, tx_at = 0\<rparr>,
         \<lparr>tx_id = 1, tx_user = ''d'', tx_amount = 100, tx_kind = ''driver_earning'', tx_ref = ''o1'', tx_note = [], tx_by = None, tx_at = 0\<rparr>,
         \<lparr>tx_id = 2, tx_user = ''t'', tx_amount = 1100, tx_kind = ''platform_profit'', tx_ref = ''o1'', tx_note = [], tx_by = None, tx_at = 0\<rparr>],
       next_tx := 3, boxes := [(''d'', 300)],
       cash_entries := [\<lparr>ce_id = 0, ce_driver = ''d'', ce_amount = 500, ce_kind = ''order_collection'', ce_ref = ''o1'', ce_note = [], ce_by = None, ce_at = 0\<rparr>,
         \<lparr>ce_id = 1, ce_driver = ''d'', ce_amount = - 200, ce_kind = ''settlement'', ce_ref = [], ce_note = [], ce_by = None, ce_at = 0\<rparr>],
       next_entry := 2, settlements := [], reversals := [], order_items := []\<rparr>)
     \<lparr>order_events = [], promo_codes = [\<lparr>pc_code = ''TEN'', pc_kind = ''percent'', pc_value = 10, pc_max = None, pc_used = 4\<rparr>],
      promo_redemptions = [''o1''], late_warnings = [], campaigns = [], menu_items = [], delivery_zones = []\<rparr>)
     \<lparr>referrals = []\<rparr>"

definition example_withdrawn :: "err + undelivered \<times> later_db" where
  "example_withdrawn = Undeliver ''a'' [''admin''] ''o1'' '' never delivered '' None example_later_db"

lemma example_withdrawn_runs:
  "\<exists>res db. example_withdrawn = Inr (res, db) \<and> un_box_reversed res = 300 \<and> un_box_handed res = 200 \<and> un_drawer res = 200 \<and>
     un_driver_reversed res = 60 \<and> un_driver_debt res = 40 \<and> un_held_forfeited res = 130 \<and> map pc_used (promo_codes db) = [3]"
proof -
  have "case example_withdrawn of Inl _ \<Rightarrow> False | Inr (res, db) \<Rightarrow> un_box_reversed res = 300 \<and> un_box_handed res = 200 \<and> un_drawer res = 200 \<and>
     un_driver_reversed res = 60 \<and> un_driver_debt res = 40 \<and> un_held_forfeited res = 130 \<and> map pc_used (promo_codes db) = [3]" by code_simp
  note run = this
  then obtain res db where r: "example_withdrawn = Inr (res, db)" by (auto split: sum.splits)
  from run show ?thesis unfolding r sum.case prod.case by (intro exI[of _ res] exI[of _ db] conjI refl) simp_all
qed

lemma undeliver_exact_witness:
  "\<exists>res db. example_withdrawn = Inr (res, db) \<and> refund_log db ''o1'' = [(''a'', 700)] \<and> tx_sum db ''o1'' order_kinds = 0 \<and>
     failed (Undeliver ''a'' [''admin''] ''o1'' ''again'' None db)"
proof -
  obtain res db where r: "example_withdrawn = Inr (res, db)" using example_withdrawn_runs by blast
  have x: "order_of example_later_db ''o1'' = Some (example_order\<lparr>o_promo_code := ''ten''\<rparr>)" "treasuryOn example_later_db = ''t''"
    "list_ex (\<lambda>t. tx_ref t = ''o1'' \<and> tx_kind t = ''order_payment'') (wallet_txs example_later_db)"
    "o_wallet_paid (example_order\<lparr>o_promo_code := ''ten''\<rparr>) = 700" "o_customer (example_order\<lparr>o_promo_code := ''ten''\<rparr>) = ''a''"
    "refund_log example_later_db ''o1'' = []" by code_simp+
  from undeliver_exact[OF r[unfolded example_withdrawn_def] x(1), of _ "''o1''" "''a''" "[''admin'']" "''again''" None] r x(2-6) show ?thesis
    by auto
qed

text \<open>
  C37. What a withdrawn delivery had paid is taken back or owed, exactly: the box of every driver loses what it still
  holds of the cash recorded for the order; and for every driver and every representative what leaves his earnings
  and what is added to his debt are never negative and add up to all the rows that paid him for it.
\<close>

theorem undeliver_takes_back:
  fixes db :: "'a later_db_scheme"
  assumes "Undeliver actor roles ord reason None db = Inr (res, db')" and "obligations_inv db" and "ord \<noteq> ''''"
    and "\<And>p v. p \<in> {PartyDriver, PartyRep} \<Longrightarrow> \<not> origin_taken db p v CauseUndeliveredOrder (Some ord) None"
    and "(k, p) \<in> {(''driver_earning'', PartyDriver), (''commission'', PartyRep)}"
  shows "Held db' v = Held db v - max 0 (min (Held db v)
      (sum_list (map ce_amount [e \<leftarrow> cash_entries db. ce_driver e = v \<and> ce_ref e = ord \<and> ce_kind e = ''order_collection'']))) \<and>
    earned db' ord k v \<le> earned db ord k v \<and> Debt db p v \<le> Debt db' p v \<and>
    (earned db ord k v - earned db' ord k v) + (Debt db' p v - Debt db p v) =
      sum_list (map snd [q \<leftarrow> paid_rows db ord k. fst q = v])"
  using undeliverTx_back[OF Undeliver_Tx(1)[OF assms(1)] assms(2-4)] assms(5) by blast

lemma undeliver_takes_back_witness:
  "\<exists>res db. example_withdrawn = Inr (res, db) \<and> Held db ''d'' = 0 \<and>
     (100 - earned db ''o1'' ''driver_earning'' ''d'') + Debt db PartyDriver ''d'' = 100"
proof -
  obtain res db where r: "example_withdrawn = Inr (res, db)" using example_withdrawn_runs by blast
  have x: "blank_book example_later_db" "obligations example_later_db = []" "Held example_later_db ''d'' = 300"
    "sum_list (map ce_amount [e \<leftarrow> cash_entries example_later_db. ce_driver e = ''d'' \<and> ce_ref e = ''o1'' \<and> ce_kind e = ''order_collection'']) = 500"
    "earned example_later_db ''o1'' ''driver_earning'' ''d'' = 100" "Debt example_later_db PartyDriver ''d'' = 0"
    "sum_list (map snd [q \<leftarrow> paid_rows example_later_db ''o1'' ''driver_earning''. fst q = ''d'']) = 100" by code_simp+
  have f: "\<not> origin_taken example_later_db p v CauseUndeliveredOrder (Some ''o1'') None" for p v by (simp add: origin_taken_def x(2))
  from undeliver_takes_back[OF r[unfolded example_withdrawn_def] blank_book_inv[OF x(1)] _ f, of "''driver_earning''" PartyDriver "''d''"] r x(3-7)
  show ?thesis by auto
qed

end
