(* ===== verification/Refund_Life.thy ===== *)
theory Refund_Life
  imports Moves Undeliver
begin

text \<open>
  The refunds of an order over its whole life: the moves of the engine in any order, interleaved with those of
  other orders, and the withdrawal of deliveries recorded by mistake, post at most one refund of it, and only by ending it; and the window of a customer who
  cancels what was accepted.
\<close>

section \<open>Moves that refund nothing\<close>

lemma kept_collect: "collectAndReturnAdvance ord driver due u db = Inr db' \<Longrightarrow> refund_log db' = refund_log db"
  by (cases "driverPaidFor ord (the driver) db")
    (auto simp: collectAndReturnAdvance_def branches Let_def dest!: kept_CollectTx refund_log_advance)

lemma kept_update_settlement: "update_settlement sid f db = Inr db' \<Longrightarrow> refund_log db' = refund_log db"
  by (simp add: update_settlement_Inr kept_tables)

lemma kept_offset_cash: "offsetMerchantDebtCash sid m hid av ord actor db = Inr db' \<Longrightarrow> refund_log db' = refund_log db"
  by (auto simp: offsetMerchantDebtCash_def Let_def branches dest!: refund_log_reversal kept_debt)

lemma kept_accrue: "accrueCashSettlement sid ord m due actor db = Inr db' \<Longrightarrow> refund_log db' = refund_log db"
  by (auto simp: accrueCashSettlement_def ApplyTxID_def branches dest!: kept_post(1)[rotated] kept_update_settlement kept_offset_cash)

lemma kept_pay_cash: "payCashByDriver sid ord m d db = Inr db' \<Longrightarrow> refund_log db' = refund_log db"
  by (auto simp: payCashByDriver_def payCashSettlement_def ApplyTxID_def branches
      dest!: kept_post(1)[rotated] kept_update_settlement)

lemma kept_insert_settlement: "insert_settlement ord sh owner db = Inr (c, db') \<Longrightarrow> refund_log db' = refund_log db"
  by (auto simp: insert_settlement_def Let_def kept_tables branches)

lemma kept_settle_share: "settle_share ord actor driver only sh (out, db) = Inr (out', db') \<Longrightarrow> refund_log db' = refund_log db"
  by (auto simp: settle_share_def ApplyTxID_def branches
      dest!: kept_insert_settlement kept_post(1)[rotated] kept_update_settlement kept_offset(1) kept_accrue kept_pay_cash)

lemma kept_settleMerchantFor:
  assumes "settleMerchantFor ord actor driver only (out, db) = Inr (out', db')"
  shows "refund_log db' = refund_log db"
proof -
  have loop: "refund_log (snd y) = refund_log (snd x)" if "foldE (settle_share ord actor driver only) shs x = Inr y" for shs x y
    by (rule foldE_inv[OF that, where P = "\<lambda>z. refund_log (snd z) = refund_log (snd x)"]) (auto dest: kept_settle_share)
  from assms show ?thesis by (auto simp: settleMerchantFor_def branches dest!: loop)
qed

lemma kept_pay_rep: "pay_rep rep a store ord actor (out, db) = Inr (out', db') \<Longrightarrow> refund_log db' = refund_log db"
  by (auto simp: pay_rep_def holdRepCommissionIfInactive_def branches kept_tables dest!: kept_post(2)[rotated] kept_offset(2))

lemma kept_write_parts: "refund_log (foldl (\<lambda>db sh. write_part ord sh db) db shs) = refund_log db"
  by (induction shs arbitrary: db) (auto simp: write_part_def kept_tables)

lemma kept_settleRep:
  assumes "settleRep ord actor (out, db) = Inr (out', db')"
  shows "refund_log db' = refund_log db"
proof -
  have one: "refund_log v = refund_log u" if "settleRepOne ord actor (p, u) = Inr (q, v)" for p q u v
    using that by (auto simp: settleRepOne_def Let_def branches dest!: kept_pay_rep)
  have loop: "refund_log (snd y) = refund_log (snd x)"
    if "foldE (\<lambda>r. pay_rep (rp_rep r) (rp_amount r) (rp_store r) ord actor) rs x = Inr y" for rs x y
    by (rule foldE_inv[OF that, where P = "\<lambda>z. refund_log (snd z) = refund_log (snd x)"]) (auto dest: kept_pay_rep)
  have parts: "refund_log v = refund_log u" if "settleRepParts ord actor (p, u) = Inr (q, v)" for p q u v
    using that by (auto simp: settleRepParts_def branches kept_write_parts dest!: loop)
  from assms show ?thesis by (auto simp: settleRep_def branches dest: one parts)
qed

lemma kept_settle:
  assumes "settle st si (out, db) = Inr (out', db')" and "\<not> si_custom si" and "\<not> si_merchant_delivery si" and "\<not> refundOnEnter (si_to si)"
  shows "refund_log db' = refund_log db"
  using assms
  by (auto simp: settle_def after_refund_def settleMerchant_def settleDelivered_def branches
      dest!: kept_settleMerchantFor refund_log_treasury kept_collect kept_payDriver kept_settleRep refund_log_ask refund_log_advance)

section \<open>The life of an order\<close>

text \<open>The moves of standard orders, in any order and under any settings, and deliveries withdrawn by the office.\<close>

inductive life :: "'a later_db_scheme \<Rightarrow> 'a later_db_scheme \<Rightarrow> bool" where
  life_start: "life db db"
| life_move: "life db d \<Longrightarrow> one_move env hook j req d = Inr (ap, d') \<Longrightarrow> keeps_work hook \<Longrightarrow>
    lo_kind (ap_lo ap) = KindStandard \<Longrightarrow> life db d'"
| life_withdraw: "life db d \<Longrightarrow> Undeliver actor roles j reason None d = Inr (res, d') \<Longrightarrow> life db d'"

text \<open>What one move posts: one refund of its own order when it ends it, and nothing else.\<close>

lemma move_refunds:
  fixes d :: "'a engine_db_scheme"
  assumes "one_move env hook j req d = Inr (ap, d')" and "keeps_work hook" and "lo_kind (ap_lo ap) = KindStandard"
  shows "refund_log d' i = refund_log d i @
    (if i = j \<and> refundOnEnter (lands ap) \<and> 0 < refund_due (move_settlement (ap_lo ap) req (ap_to ap))
     then [(lo_customer (ap_lo ap), refund_due (move_settlement (ap_lo ap) req (ap_to ap)))] else [])"
proof (cases "ap_blocked ap")
  case True
  then have "refund_log d' = refund_log d" using one_move_steps(4)[OF assms(1,2)] refund_log_same by blast
  then show ?thesis using True assms(3) by (simp add: lands_def refundOnEnter_def)
next
  case False
  let ?si = "move_settlement (ap_lo ap) req (ap_to ap)"
  from one_move_steps(5)[OF assms(1,2) False] obtain d2 out d3 where w: "wallet_txs d2 = wallet_txs d" "wallet_txs d' = wallet_txs d3"
      and s: "settle (en_settings env) ?si (no_report, d2) = Inr (out, d3 :: 'a engine_db_scheme)" by blast
  have si: "\<not> si_custom ?si" "\<not> si_merchant_delivery ?si" "si_to ?si = ap_to ap" "si_from ?si = lo_from (ap_lo ap)"
      "si_order ?si = j" "si_customer ?si = lo_customer (ap_lo ap)"
    using lock_status(1)[OF one_move_steps(1)[OF assms(1,2)]] assms(3) by (simp_all add: move_settlement_def)
  have e: "has_edge KindStandard (si_from ?si) (si_to ?si)"
    using canTransition_has_edge[OF one_move_steps(2)[OF assms(1,2)]] assms(3) by (simp add: si)
  have "refund_log d3 i = refund_log d2 i @
      (if i = j \<and> refundOnEnter (ap_to ap) \<and> 0 < refund_due ?si then [(lo_customer (ap_lo ap), refund_due ?si)] else [])"
    using settle_refunds[OF s si(1,2) e, of i] kept_settle[OF s si(1,2)] by (cases "refundOnEnter (ap_to ap)") (simp_all add: si)
  then show ?thesis using False refund_log_same[OF w(1)] refund_log_same[OF w(2)] by (simp add: lands_def)
qed

text \<open>
  C24. An order is refunded at most once in its life: however its moves, the withdrawal of its delivery and those of other
  orders are interleaved, under whatever settings, an order that has not ended has no refund in the ledger, and one that
  ended has at most one.
\<close>

theorem refunded_at_most_once:
  assumes "life db d" and "statuses_of db i = Some (KindStandard, s0)" and "\<not> refundOnEnter s0" and "refund_log db i = []"
  shows "\<exists>s. statuses_of d i = Some (KindStandard, s) \<and>
    (if refundOnEnter s then length (refund_log d i) \<le> 1 else refund_log d i = [])"
  using assms
proof (induction rule: life.induct)
  case (life_move db d env hook j req ap d')
  then obtain s where s: "statuses_of d i = Some (KindStandard, s)"
      "if refundOnEnter s then length (refund_log d i) \<le> 1 else refund_log d i = []" by blast
  note m = life_move.hyps(2,3)
  have st: "statuses_of d' = (statuses_of d)(j \<mapsto> (KindStandard, lands ap))" using one_move_steps(3)[OF m] life_move.hyps(4) by simp
  show ?case
  proof (cases "i = j")
    case True
    have "lo_from (ap_lo ap) = s" using lock_status(2)[OF one_move_steps(1)[OF m]] s(1) True by simp
    then have "has_edge KindStandard s (ap_to ap)" using canTransition_has_edge[OF one_move_steps(2)[OF m]] life_move.hyps(4) by simp
    then have "\<not> refundOnEnter s" by (auto simp: refundOnEnter_def)
    then show ?thesis using move_refunds[OF m life_move.hyps(4), of i] s(2) st True by simp
  qed (use move_refunds[OF m life_move.hyps(4), of i] s st in \<open>simp split: if_splits\<close>)
next
  case (life_withdraw db d actor roles j reason res d')
  then obtain s where s: "statuses_of d i = Some (KindStandard, s)"
      "if refundOnEnter s then length (refund_log d i) \<le> 1 else refund_log d i = []" by blast
  note w = Undeliver_Tx(1)[OF life_withdraw.hyps(2)]
  obtain x where x: "order_of d j = Some x" using w by (auto simp: undeliverTx_def split: option.splits)
  note e = undeliverTx_effect[OF w x]
  show ?case
  proof (cases "i = j")
    case True
    then have "s = StDelivered" using s(1) x e(1) by (simp add: statuses_of_def)
    moreover have "statuses_of d' i = Some (KindStandard, StCancelled)" using e(1) e(2)[of j] True by (simp add: statuses_of_def cancelled_row_def)
    ultimately show ?thesis using s(2) e(3)[of i] by (auto simp: refundOnEnter_def)
  next
    case False
    then have "statuses_of d' i = statuses_of d i" "refund_log d' i = refund_log d i" using e(2)[of i] e(3)[of i] by (simp_all add: statuses_of_def)
    with s show ?thesis by (intro exI[of _ s]) (simp split: if_splits)
  qed
qed auto

definition example_life_db :: "status \<Rightarrow> later_db" where
  "example_life_db st = engine_db.extend (example_engine_db st) \<lparr>referrals = []\<rparr>"

lemma refunded_at_most_once_witness:
  "\<exists>d1 d2. life (example_life_db StPending) d1 \<and> life d1 d2 \<and>
     refund_log d1 ''o1'' = [] \<and> refund_log d2 ''o1'' = [(''a'', 700)] \<and> statuses_of d2 ''o1'' = Some (KindStandard, StCancelled)"
proof -
  let ?d0 = "example_life_db StPending"
  let ?m1 = "one_move example_env Inr ''o1'' (request ''u'' [''merchant''] StAccepted '''') ?d0"
  let ?m2 = "\<lambda>d. one_move example_env Inr ''o1'' (request ''u'' [''ops''] StCancelled ''late'') d"
  have c: "case bindE ?m1 (\<lambda>(ap1, d1). bindE (?m2 d1) (\<lambda>(ap2, d2). Inr (ap1, d1, ap2, d2))) of
      Inl _ \<Rightarrow> False | Inr (ap1, d1, ap2, d2) \<Rightarrow> lo_kind (ap_lo ap1) = KindStandard \<and> lo_kind (ap_lo ap2) = KindStandard \<and>
        \<not> refundOnEnter (lands ap1) \<and> refundOnEnter (lands ap2) \<and> lands ap2 = StCancelled \<and> lands ap1 = StAccepted \<and>
        lo_customer (ap_lo ap2) = ''a'' \<and> refund_due (move_settlement (ap_lo ap2) (request ''u'' [''ops''] StCancelled ''late'') (ap_to ap2)) = 700"
    by code_simp
  then obtain ap1 d1 ap2 d2 where b: "bindE ?m1 (\<lambda>(ap1, d1). bindE (?m2 d1) (\<lambda>(ap2, d2). Inr (ap1, d1, ap2, d2))) = Inr (ap1, d1, ap2, d2)"
    by (auto split: sum.split_asm)
  with c have m: "?m1 = Inr (ap1, d1)" "?m2 d1 = Inr (ap2, d2)"
      "lo_kind (ap_lo ap1) = KindStandard" "lo_kind (ap_lo ap2) = KindStandard" "\<not> refundOnEnter (lands ap1)" "refundOnEnter (lands ap2)"
      "lands ap2 = StCancelled" "lands ap1 = StAccepted" "lo_customer (ap_lo ap2) = ''a''"
      "refund_due (move_settlement (ap_lo ap2) (request ''u'' [''ops''] StCancelled ''late'') (ap_to ap2)) = 700"
    by (auto simp: bindE_eq_Inr)
  have l1: "life ?d0 d1" by (rule life_move[OF life_start m(1) keeps_work_Inr m(3)])
  have l2: "life d1 d2" by (rule life_move[OF life_start m(2) keeps_work_Inr m(4)])
  have s0: "statuses_of ?d0 ''o1'' = Some (KindStandard, StPending)" "refund_log ?d0 ''o1'' = []" "\<not> refundOnEnter StPending"
    by code_simp+
  from refunded_at_most_once[OF l1 s0(1,3,2)] one_move_steps(3)[OF m(1) keeps_work_Inr] m(3,8)
  have r1: "refund_log d1 ''o1'' = []" "statuses_of d1 ''o1'' = Some (KindStandard, StAccepted)" by (auto simp: refundOnEnter_def)
  have "refund_log d2 ''o1'' = [(''a'', 700)]"
    using move_refunds[OF m(2) keeps_work_Inr m(4), of "''o1''"] m(6,9,10) r1 by simp
  moreover have "statuses_of d2 ''o1'' = Some (KindStandard, StCancelled)"
    using one_move_steps(3)[OF m(2) keeps_work_Inr] m(4,7) by simp
  ultimately show ?thesis using l1 l2 r1 by blast
qed

section \<open>The window of the customer\<close>

lemma cancelled_row:
  fixes db :: "'a engine_db_scheme"
  assumes "write_move lo req StCancelled nt by_role db = Inr d" and "\<not> lo_stops lo > 1" and "lo_from lo = StAccepted"
    and "order_of db (lo_id lo) = Some x"
  shows "db_now d = db_now db \<and> (\<exists>y. order_of d (lo_id lo) = Some y \<and> o_accepted_at y = o_accepted_at x)"
proof -
  let ?f = "end_row StCancelled (rq_reason req) (rq_fault req) (if rq_fault req = '''' then FaultOf (rq_reason req) else rq_fault req) by_role"
  let ?g = "move_row db StAccepted StCancelled nt"
  let ?e = "update_order (lo_id lo) ?f (update_order (lo_id lo) ?g db)"
  have "order_of d (lo_id lo) = order_of ?e (lo_id lo) \<and> db_now d = db_now ?e"
    using assms(1-3) by (auto simp: write_move_def Let_def order_of_def add_event_def return_promo_def split: if_splits)
  moreover have "order_of ?e (lo_id lo) = Some (?f (?g x))"
    using assms(4) by (simp add: order_of_update end_row_same move_row_to)
  moreover have "o_accepted_at (?f (?g x)) = o_accepted_at x" by (simp add: end_row_def move_row_def Let_def)
  ultimately show ?thesis by simp
qed

text \<open>
  C25. A customer alone may cancel what a store accepted only inside the window: if his cancellation of an
  accepted order of one store is applied, the order had been accepted less than the window ago.
\<close>

theorem cancel_window_kept:
  assumes "one_move env hook ord req db = Inr (ap, db')" and "order_of db ord = Some x"
    and "o_status x = StAccepted" and "ap_to ap = StCancelled" and "customer_alone (rq_roles req)" and "\<not> o_stops x > 1"
  shows "\<exists>t. o_accepted_at x = Some t \<and> db_now db - cancelWindowSec env < t"
proof -
  from assms(1) obtain lo d where lo: "lockOrderTx ord db = Inr lo" and a: "applyTransitionTx env hook req lo db = Inr (ap, d)"
    by (auto simp: one_move_def branches)
  have f: "lo_id lo = ord" "lo_from lo = StAccepted" "\<not> lo_stops lo > 1"
    using lo assms(2,3,6) by (auto simp: lockOrderTx_def)
  from a f assms(4) obtain nt by_role d1 where w: "write_move lo req StCancelled nt by_role db = Inr d1"
      and g: "cancel_window_gate env lo (rq_roles req) StCancelled d1 = Inr ()"
    by (auto simp: applyTransitionTx_def Let_def part_gate_def branches)
  from cancelled_row[OF w f(3,2)] assms(2) f(1) obtain y where y: "order_of d1 ord = Some y" "o_accepted_at y = o_accepted_at x"
      "db_now d1 = db_now db" by auto
  from g y f assms(5) show ?thesis by (auto simp: cancel_window_gate_def branches)
qed

lemma cancel_window_kept_witness:
  "\<exists>ap db. one_move example_env Inr ''o1'' (request ''a'' [''customer''] StCancelled '''')
       (example_engine_db StAccepted\<lparr>orders := [example_order\<lparr>o_status := StAccepted, o_accepted_at := Some 50\<rparr>], db_now := 100\<rparr>) = Inr (ap, db) \<and>
     100 - cancelWindowSec example_env < 50"
proof -
  let ?x = "example_order\<lparr>o_status := StAccepted, o_accepted_at := Some 50\<rparr>"
  let ?d = "example_engine_db StAccepted\<lparr>orders := [?x], db_now := 100\<rparr>"
  have "case one_move example_env Inr ''o1'' (request ''a'' [''customer''] StCancelled '''') ?d of
      Inl _ \<Rightarrow> False | Inr (ap, db) \<Rightarrow> ap_to ap = StCancelled" by code_simp
  then obtain ap db where m: "one_move example_env Inr ''o1'' (request ''a'' [''customer''] StCancelled '''') ?d = Inr (ap, db)"
      "ap_to ap = StCancelled" by (auto split: sum.splits)
  have "order_of ?d ''o1'' = Some ?x" "o_status ?x = StAccepted" "\<not> o_stops ?x > 1" "o_accepted_at ?x = Some 50" "db_now ?d = 100"
    "customer_alone (rq_roles (request ''a'' [''customer''] StCancelled ''''))"
    by code_simp+
  from cancel_window_kept[OF m(1) this(1,2) m(2) this(6,3)] this(4,5) m(1) show ?thesis by auto
qed

end
