(* ===== verification/Free_Delivery.thy ===== *)
theory Free_Delivery
  imports Parts
begin

text \<open>
  Free delivery once per campaign (\<open>orders/free_delivery.go\<close>): the campaign in force, the claim of a customer
  (by the hash of his phone) or of a store, and what is waived when the fee changes. The hash of a phone
  (SHA-256 with a secret, in the database) is an argument. The key of a claim is campaign and claimant,
  and an order has one claim at most.
\<close>

definition FreeKindStandard :: string where "FreeKindStandard = ''standard''"
definition FreeKindPurchase :: string where "FreeKindPurchase = ''purchase''"
definition FreeKindAmanah :: string where "FreeKindAmanah = ''amanah''"
definition FreeKindMerchant :: string where "FreeKindMerchant = ''merchant''"

record free_offer =
  fo_campaign :: string
  fo_claimant :: string
  fo_waive :: int

definition no_offer :: free_offer where
  "no_offer = \<lparr>fo_campaign = '''', fo_claimant = '''', fo_waive = 0\<rparr>"

section \<open>Who claims\<close>

text \<open>The phone of an account that was deleted has no hash, and its own id stands for it.\<close>

definition customerClaimant :: "(string \<Rightarrow> string) \<Rightarrow> user_id \<Rightarrow> 'a wallet_db_scheme \<Rightarrow> string" where
  "customerClaimant hash customer db =
    (if customer = '''' then ''''
     else case find (\<lambda>u. u_id u = customer \<and> take 8 (u_phone u) \<noteq> ''deleted-'') (users db) of
            None \<Rightarrow> customer | Some u \<Rightarrow> hash (u_phone u))"

definition merchantClaimant :: "string \<Rightarrow> string" where
  "merchantClaimant m = (if m = '''' then '''' else ''m:'' @ m)"

definition waiveOf :: "int \<Rightarrow> int option \<Rightarrow> int" where
  "waiveOf fee max_fee =
    (if fee \<le> 0 then 0 else case max_fee of None \<Rightarrow> fee | Some m \<Rightarrow> if m < fee then m else fee)"

section \<open>Offer and claim\<close>

text \<open>The newest campaign in force for a kind of order.\<close>

definition campaign_for :: "string \<Rightarrow> 'a engine_db_scheme \<Rightarrow> campaign option" where
  "campaign_for k db =
    (case sort_key (\<lambda>c. - ca_created c) [c \<leftarrow> campaigns db. ca_active c \<and> ca_starts c \<le> db_now db \<and> db_now db < ca_ends c \<and> k \<in> set (ca_kinds c)] of
       [] \<Rightarrow> None | c # _ \<Rightarrow> Some c)"

definition ended_for_free :: "'a engine_db_scheme \<Rightarrow> free_claim \<Rightarrow> bool" where
  "ended_for_free db c = (case order_of db (fc_order c) of None \<Rightarrow> False | Some x \<Rightarrow> o_status x \<in> {StCancelled, StRejected})"

definition freeDeliveryOffer :: "string \<Rightarrow> string \<Rightarrow> int \<Rightarrow> 'a engine_db_scheme \<Rightarrow> free_offer" where
  "freeDeliveryOffer k claimant fee db =
    (if fee \<le> 0 \<or> claimant = '''' then no_offer
     else case campaign_for k db of
       None \<Rightarrow> no_offer
     | Some c \<Rightarrow>
         if list_ex (\<lambda>r. fc_campaign r = ca_id c \<and> fc_claimant r = claimant \<and> order_of db (fc_order r) \<noteq> None \<and> \<not> ended_for_free db r)
              (free_claims db) then no_offer
         else \<lparr>fo_campaign = ca_id c, fo_claimant = claimant, fo_waive = waiveOf fee (ca_max c)\<rparr>)"

text \<open>The claims of ended orders make room; then the row, with the constraints of the table.\<close>

definition claim_free :: "free_offer \<Rightarrow> string \<Rightarrow> string \<Rightarrow> 'a engine_db_scheme \<Rightarrow> err + 'a engine_db_scheme" where
  "claim_free off ord k db =
    (if fo_waive off \<le> 0 then Inr db
     else let kept = [c \<leftarrow> free_claims db. \<not> (fc_campaign c = fo_campaign off \<and> fc_claimant c = fo_claimant off \<and> ended_for_free db c)]
          in if list_ex (\<lambda>c. fc_campaign c = fo_campaign off \<and> fc_claimant c = fo_claimant off \<or> fc_order c = ord) kept
                \<or> order_of db ord = None \<or> \<not> list_ex (\<lambda>c. ca_id c = fo_campaign off) (campaigns db) then Inl ErrDb
             else Inr (db\<lparr>free_claims := kept @ [\<lparr>fc_campaign = fo_campaign off, fc_claimant = fo_claimant off, fc_order = ord,
                    fc_kind = k, fc_waived = fo_waive off\<rparr>]\<rparr>))"

text \<open>The fee of an order with a claim has changed: what is waived now, by the campaign it was claimed in.\<close>

definition freeDeliveryReapply :: "string \<Rightarrow> int \<Rightarrow> 'a engine_db_scheme \<Rightarrow> int \<times> 'a engine_db_scheme" where
  "freeDeliveryReapply ord fee db =
    (case find (\<lambda>c. fc_order c = ord \<and> (\<exists>f\<in>set (campaigns db). ca_id f = fc_campaign c)) (free_claims db) of
       None \<Rightarrow> (0, db)
     | Some c \<Rightarrow>
         let w = waiveOf fee (case find (\<lambda>f. ca_id f = fc_campaign c) (campaigns db) of None \<Rightarrow> None | Some f \<Rightarrow> ca_max f)
         in if w \<le> 0 then (0, db\<lparr>free_claims := [r \<leftarrow> free_claims db. fc_order r \<noteq> ord]\<rparr>)
            else (w, db\<lparr>free_claims := map (\<lambda>r. if fc_order r = ord then r\<lparr>fc_waived := w\<rparr> else r) (free_claims db)\<rparr>))"

definition freeDeliveryForQuote ::
  "(string \<Rightarrow> string) \<Rightarrow> string \<Rightarrow> user_id \<Rightarrow> string \<Rightarrow> int \<Rightarrow> 'a engine_db_scheme \<Rightarrow> err + int \<times> 'a engine_db_scheme" where
  "freeDeliveryForQuote hash ord customer k fee db =
    (if list_ex (\<lambda>c. fc_order c = ord) (free_claims db) then Inr (freeDeliveryReapply ord fee db)
     else let off = freeDeliveryOffer k (customerClaimant hash customer db) fee db
          in bindE (claim_free off ord k db) (\<lambda>db. Inr (fo_waive off, db)))"

definition FreeDeliveryPreview :: "(string \<Rightarrow> string) \<Rightarrow> user_id \<Rightarrow> string \<Rightarrow> int \<Rightarrow> 'a engine_db_scheme \<Rightarrow> int" where
  "FreeDeliveryPreview hash customer k fee db =
    (let c = customerClaimant hash customer db in fo_waive (freeDeliveryOffer k (if c = '''' then ''anon'' else c) fee db))"

record free_status =
  fs_standard :: bool
  fs_purchase :: bool
  fs_amanah :: bool
  fs_max :: "int option"
  fs_ends :: "int option"

definition FreeDeliveryStatus :: "(string \<Rightarrow> string) \<Rightarrow> user_id \<Rightarrow> 'a engine_db_scheme \<Rightarrow> free_status" where
  "FreeDeliveryStatus hash customer db =
    (let ask = (\<lambda>k. FreeDeliveryPreview hash customer k 1000000 db > 0);
         st = ask FreeKindStandard; p = ask FreeKindPurchase; a = ask FreeKindAmanah;
         newest = (case sort_key (\<lambda>c. - ca_created c) [c \<leftarrow> campaigns db. ca_active c \<and> ca_starts c \<le> db_now db \<and> db_now db < ca_ends c] of
                     [] \<Rightarrow> None | c # _ \<Rightarrow> Some c)
     in \<lparr>fs_standard = st, fs_purchase = p, fs_amanah = a,
         fs_max = (if st \<or> p \<or> a then case newest of None \<Rightarrow> None | Some c \<Rightarrow> ca_max c else None),
         fs_ends = (if st \<or> p \<or> a then map_option ca_ends newest else None)\<rparr>)"

section \<open>One live free delivery\<close>

text \<open>The keys of the table of claims.\<close>

definition claims_ok :: "'a money_db_scheme \<Rightarrow> bool" where
  "claims_ok db \<longleftrightarrow> distinct (map (\<lambda>c. (fc_campaign c, fc_claimant c)) (free_claims db)) \<and> distinct (map fc_order (free_claims db)) \<and>
     list_all (\<lambda>c. 0 < fc_waived c \<and> order_of db (fc_order c) \<noteq> None) (free_claims db)"

lemma find_unique: "distinct (map f xs) \<Longrightarrow> x \<in> set xs \<Longrightarrow> find (\<lambda>y. f y = f x) xs = Some x"
  by (induction xs) (auto dest: imageI)

lemma waiveOf_bounds: "0 \<le> waiveOf fee m \<or> (\<exists>x. m = Some x \<and> x < 0)" "waiveOf fee m \<le> max 0 fee"
  by (auto simp: waiveOf_def split: option.splits)

lemma campaign_for_in: "campaign_for k db = Some c \<Longrightarrow> c \<in> set (campaigns db)"
  by (auto simp: campaign_for_def split: list.splits) (metis (no_types, lifting) filter_is_subset list.set_intros(1) set_sort subsetD)

lemma offer_free:
  assumes "fo_waive (freeDeliveryOffer k claimant fee db) > 0"
  obtains c where "campaign_for k db = Some c" "freeDeliveryOffer k claimant fee db =
      \<lparr>fo_campaign = ca_id c, fo_claimant = claimant, fo_waive = waiveOf fee (ca_max c)\<rparr>" "claimant \<noteq> ''''" "0 < fee"
    "\<not> list_ex (\<lambda>r. fc_campaign r = ca_id c \<and> fc_claimant r = claimant \<and> order_of db (fc_order r) \<noteq> None \<and> \<not> ended_for_free db r) (free_claims db)"
  using assms by (auto simp: freeDeliveryOffer_def no_offer_def split: if_splits option.splits)

lemma claimed:
  fixes db :: "'a engine_db_scheme"
  assumes "claims_ok db" and "fo_waive (freeDeliveryOffer k claimant fee db) > 0" and "order_of db ord \<noteq> None"
    and "\<not> list_ex (\<lambda>c. fc_order c = ord) (free_claims db)"
  shows "\<exists>db'. claim_free (freeDeliveryOffer k claimant fee db) ord k db = Inr db' \<and> claims_ok db' \<and>
    [c \<leftarrow> free_claims db'. fc_campaign c = fo_campaign (freeDeliveryOffer k claimant fee db) \<and> fc_claimant c = claimant] =
      [\<lparr>fc_campaign = fo_campaign (freeDeliveryOffer k claimant fee db), fc_claimant = claimant, fc_order = ord, fc_kind = k,
        fc_waived = fo_waive (freeDeliveryOffer k claimant fee db)\<rparr>] \<and>
    orders db' = orders db \<and> campaigns db' = campaigns db \<and> db_now db' = db_now db"
proof -
  let ?off = "freeDeliveryOffer k claimant fee db"
  obtain c where c: "campaign_for k db = Some c" "?off = \<lparr>fo_campaign = ca_id c, fo_claimant = claimant, fo_waive = waiveOf fee (ca_max c)\<rparr>"
      "\<not> list_ex (\<lambda>r. fc_campaign r = ca_id c \<and> fc_claimant r = claimant \<and> order_of db (fc_order r) \<noteq> None \<and> \<not> ended_for_free db r) (free_claims db)"
    by (rule offer_free[OF assms(2)])
  let ?kept = "[r \<leftarrow> free_claims db. \<not> (fc_campaign r = ca_id c \<and> fc_claimant r = claimant \<and> ended_for_free db r)]"
  have gone: "\<not> (fc_campaign r = ca_id c \<and> fc_claimant r = claimant)" if "r \<in> set ?kept" for r
  proof -
    have "order_of db (fc_order r) \<noteq> None" using that assms(1) by (simp add: claims_ok_def list_all_iff)
    then show ?thesis using that c(3) by (auto simp: list_ex_iff)
  qed
  have fresh: "\<not> list_ex (\<lambda>r. fc_campaign r = ca_id c \<and> fc_claimant r = claimant \<or> fc_order r = ord) ?kept"
    using gone assms(4) by (auto simp: list_ex_iff)
  have known: "list_ex (\<lambda>f. ca_id f = ca_id c) (campaigns db)" using campaign_for_in[OF c(1)] by (auto simp: list_ex_iff)
  let ?row = "\<lparr>fc_campaign = ca_id c, fc_claimant = claimant, fc_order = ord, fc_kind = k, fc_waived = waiveOf fee (ca_max c)\<rparr>"
  have r: "claim_free ?off ord k db = Inr (db\<lparr>free_claims := ?kept @ [?row]\<rparr>)"
    using assms(2,3) fresh known unfolding claim_free_def Let_def c(2) by simp
  have none: "[r \<leftarrow> ?kept. fc_campaign r = ca_id c \<and> fc_claimant r = claimant] = []"
    using gone by (auto simp: filter_empty_conv)
  have ok: "claims_ok (db\<lparr>free_claims := ?kept @ [?row]\<rparr>)"
  proof -
    have d: "distinct (map (\<lambda>c. (fc_campaign c, fc_claimant c)) ?kept)" "distinct (map fc_order ?kept)"
      using assms(1) by (simp_all add: claims_ok_def distinct_map_filter del: filter_filter)
    have g: "(ca_id c, claimant) \<notin> (\<lambda>c. (fc_campaign c, fc_claimant c)) ` set ?kept" "ord \<notin> fc_order ` set ?kept"
      using gone fresh by (auto simp: list_ex_iff)
    have l: "list_all (\<lambda>r. 0 < fc_waived r \<and> order_of db (fc_order r) \<noteq> None) ?kept"
      using assms(1) by (auto simp: claims_ok_def list_all_iff)
    have o: "order_of (db\<lparr>free_claims := x\<rparr>) = order_of db" for x by (simp add: order_of_def fun_eq_iff)
    show ?thesis unfolding claims_ok_def o using d g l assms(2,3) by (simp add: c(2) del: set_filter)
  qed
  show ?thesis
    by (rule exI[of _ "db\<lparr>free_claims := ?kept @ [?row]\<rparr>"], intro conjI, rule r, rule ok) (use none in \<open>simp_all add: c(2)\<close>)
qed

text \<open>
  C31. A claimant has one live free delivery per campaign: an offer that waives something is within the fee, can
  always be claimed for an order without a claim, leaves one claim of that claimant in that campaign, and until
  the order is cancelled or rejected the same claimant is offered nothing more.
\<close>

theorem free_delivery_once:
  assumes "claims_ok db" and "0 < fo_waive (freeDeliveryOffer k claimant fee db)" and "order_of db ord = Some x"
    and "\<not> list_ex (\<lambda>c. fc_order c = ord) (free_claims db)" and "o_status x \<notin> {StCancelled, StRejected}"
  shows "fo_waive (freeDeliveryOffer k claimant fee db) \<le> fee \<and>
    (\<exists>db'. claim_free (freeDeliveryOffer k claimant fee db) ord k db = Inr db' \<and> claims_ok db' \<and>
      claim_waived db' ord = fo_waive (freeDeliveryOffer k claimant fee db) \<and>
      (\<forall>fee'. freeDeliveryOffer k claimant fee' db' = no_offer))"
proof -
  let ?off = "freeDeliveryOffer k claimant fee db"
  obtain c where c: "campaign_for k db = Some c" "?off = \<lparr>fo_campaign = ca_id c, fo_claimant = claimant, fo_waive = waiveOf fee (ca_max c)\<rparr>"
      "claimant \<noteq> ''''" "0 < fee" by (rule offer_free[OF assms(2)])
  have le: "fo_waive ?off \<le> fee" using waiveOf_bounds(2)[of fee "ca_max c"] c by simp
  obtain db' where r: "claim_free ?off ord k db = Inr db'" "claims_ok db'"
      "[r \<leftarrow> free_claims db'. fc_campaign r = fo_campaign ?off \<and> fc_claimant r = claimant] =
        [\<lparr>fc_campaign = fo_campaign ?off, fc_claimant = claimant, fc_order = ord, fc_kind = k, fc_waived = fo_waive ?off\<rparr>]"
      "orders db' = orders db" "campaigns db' = campaigns db" "db_now db' = db_now db"
    using claimed[OF assms(1,2) _ assms(4)] assms(3) by blast
  let ?row = "\<lparr>fc_campaign = ca_id c, fc_claimant = claimant, fc_order = ord, fc_kind = k, fc_waived = waiveOf fee (ca_max c)\<rparr>"
  have "?row \<in> set [r \<leftarrow> free_claims db'. fc_campaign r = fo_campaign ?off \<and> fc_claimant r = claimant]" by (subst r(3)) (simp add: c(2))
  then have row: "?row \<in> set (free_claims db')" by (rule filter_is_subset[THEN subsetD])
  have o: "order_of db' = order_of db" by (simp add: order_of_def r(4) fun_eq_iff)
  have "find (\<lambda>r. fc_order r = ord) (free_claims db') = Some ?row"
    using find_unique[of fc_order "free_claims db'" ?row] r(2) row by (simp add: claims_ok_def)
  then have w: "claim_waived db' ord = fo_waive ?off" by (simp add: claim_waived_def c(2))
  have same: "campaign_for k db' = Some c" using c(1) by (simp add: campaign_for_def r(5,6))
  have live: "\<not> ended_for_free db' ?row" "order_of db' ord \<noteq> None" using assms(3,5) by (simp_all add: ended_for_free_def o)
  have "freeDeliveryOffer k claimant fee' db' = no_offer" for fee'
    using same row live by (auto simp: freeDeliveryOffer_def list_ex_iff)
  with le r(1,2) w show ?thesis by blast
qed

definition example_free_db :: engine_db where
  "example_free_db = money_db.extend (example_held_db\<lparr>orders := [example_order\<lparr>o_status := StPending\<rparr>, example_order\<lparr>o_id := ''o2'', o_status := StCancelled\<rparr>],
       free_claims := [\<lparr>fc_campaign = ''f'', fc_claimant = ''x'', fc_order = ''o2'', fc_kind = ''standard'', fc_waived = 30\<rparr>], db_now := 50\<rparr>)
     \<lparr>order_events = [], promo_codes = [], promo_redemptions = [], late_warnings = [],
      campaigns = [\<lparr>ca_id = ''f'', ca_active = True, ca_starts = 0, ca_ends = 100, ca_kinds = [''standard''], ca_max = Some 40, ca_created = 0\<rparr>],
      menu_items = [], delivery_zones = []\<rparr>"

lemma free_delivery_once_witness:
  "\<exists>db'. claim_free (freeDeliveryOffer ''standard'' ''x'' 150 example_free_db) ''o1'' ''standard'' example_free_db = Inr db' \<and>
     claim_waived db' ''o1'' = 40 \<and> freeDeliveryOffer ''standard'' ''x'' 150 db' = no_offer"
proof -
  have f: "claims_ok example_free_db" "0 < fo_waive (freeDeliveryOffer ''standard'' ''x'' 150 example_free_db)"
    "order_of example_free_db ''o1'' = Some (example_order\<lparr>o_status := StPending\<rparr>)"
    "\<not> list_ex (\<lambda>c. fc_order c = ''o1'') (free_claims example_free_db)"
    "o_status (example_order\<lparr>o_status := StPending\<rparr>) \<notin> {StCancelled, StRejected}"
    "fo_waive (freeDeliveryOffer ''standard'' ''x'' 150 example_free_db) = 40" by code_simp+
  from free_delivery_once[OF f(1-5)] f(6) show ?thesis by auto
qed

end
