(* ===== verification/Removal.thy ===== *)
theory Removal
  imports Free_Delivery Engine
begin

text \<open>
  The money of an order after goods leave it before the pickup (\<open>orders/removal_recompute.go\<close>), with the stores that
  remain and the fee for several (\<open>sources.go\<close>), the promotion (\<open>service.go\<close>) and the driver's fee
  (\<open>merchant_delivery.go\<close>): goods, fee, promotion, free delivery and total again, and the wallet refunded what it
  paid too much.
\<close>

section \<open>The stores of a basket\<close>

definition ErrBadItems :: err where "ErrBadItems = AppError ''invalid_items''"

record order_sources =
  so_ids :: "string list"
  so_far :: bool
  so_max :: rat

text \<open>The stores of the menu items, in the order of the items, and the longest way between two of them.\<close>

definition store_location :: "'a obligations_db_scheme \<Rightarrow> string \<Rightarrow> point option" where
  "store_location db m = (case merchant_of db m of None \<Rightarrow> None | Some row \<Rightarrow> m_location row)"

definition max_meters :: "env \<Rightarrow> string list \<Rightarrow> 'a obligations_db_scheme \<Rightarrow> rat" where
  "max_meters env ids db =
    (let ds = concat (map (\<lambda>a. concat (map (\<lambda>b. if text_key a < text_key b
           then (case (store_location db a, store_location db b) of (Some p, Some q) \<Rightarrow> [en_distance env p q] | _ \<Rightarrow> []) else []) ids)) ids)
     in if ds = [] then 0 else Max (set ds))"

definition sourceProximityM :: "env \<Rightarrow> int" where
  "sourceProximityM env = settingInt env ''orders.source_proximity_m''"

definition SourcesOf :: "env \<Rightarrow> string list \<Rightarrow> 'a engine_db_scheme \<Rightarrow> err + order_sources" where
  "SourcesOf env items db =
    (if items = [] \<or> \<not> list_all (en_uuid env) items then Inl ErrBadItems
     else let ids = firsts (concat (map (\<lambda>i. case map_of (menu_items db) i of None \<Rightarrow> [] | Some m \<Rightarrow> [m]) items))
          in if ids = [] then Inl ErrBadItems
             else if length ids < 2 then Inr \<lparr>so_ids = ids, so_far = False, so_max = 0\<rparr>
             else let d = max_meters env ids db
                  in Inr \<lparr>so_ids = ids, so_far = d > of_int (sourceProximityM env), so_max = d\<rparr>)"

definition extraSourceFee :: "env \<Rightarrow> order_sources \<Rightarrow> int \<Rightarrow> int" where
  "extraSourceFee env src base =
    (case en_settings env of
       None \<Rightarrow> 0
     | Some s \<Rightarrow>
         if length (so_ids src) < 2 \<or> \<not> so_far src then 0
         else let pct = (if so_max src > of_int (settingInt env ''orders.source_far_m'') then getInt s ''orders.source_far_percent''
                         else getInt s ''orders.source_mid_percent'');
                  per = wrap64 (go_div (wrap64 (base * pct)) 100 + getInt s ''orders.extra_source_fee'')
              in wrap64 (per * (int (length (so_ids src)) - 1)))"

section \<open>Promotion and driver's fee\<close>

text \<open>The discount, and the fee that is left.\<close>

definition promoCut :: "string \<Rightarrow> int \<Rightarrow> int option \<Rightarrow> int \<Rightarrow> int \<Rightarrow> int \<times> int" where
  "promoCut k v max_discount subtotal fee =
    (let discount = (if k = ''percent'' then
           (let d = go_div (wrap64 (subtotal * v)) 100 in case max_discount of Some m \<Rightarrow> if d > m then m else d | None \<Rightarrow> d)
         else if k = ''fixed'' then v else 0);
         fee = (if k = ''free_delivery'' then 0 else fee);
         discount = min discount subtotal
     in (if discount < 0 then 0 else discount, fee))"

definition DriverFeeAfterShare :: "int \<Rightarrow> int \<Rightarrow> int" where
  "DriverFeeAfterShare fee pct = (if fee \<le> 0 \<or> pct \<le> 0 then fee else wrap64 (fee - go_div (wrap64 (fee * pct)) 100))"

definition DriverFeeWithShare :: "int \<Rightarrow> int \<Rightarrow> int \<Rightarrow> int" where
  "DriverFeeWithShare fee pct fixed =
    (if fee \<le> 0 then fee else if fixed > 0 then (if fixed \<ge> fee then 0 else fee - fixed) else DriverFeeAfterShare fee pct)"

section \<open>Computing the order again\<close>

definition items_of :: "'a settle_db_scheme \<Rightarrow> string \<Rightarrow> order_item list" where
  "items_of db ord = [i \<leftarrow> order_items db. oi_order i = ord]"

definition item_place :: "string \<Rightarrow> order_item \<Rightarrow> string" where
  "item_place primary i = (case oi_merchant i of None \<Rightarrow> primary | Some m \<Rightarrow> m)"

definition goods_sum :: "order_item list \<Rightarrow> int" where
  "goods_sum is = sum_list (map (\<lambda>i. oi_unit_price i * oi_qty i) is)"

text \<open>The stores left, those of the most goods first, and their menu items.\<close>

definition remainingSources :: "string \<Rightarrow> string \<Rightarrow> 'a settle_db_scheme \<Rightarrow> string list \<times> string list" where
  "remainingSources ord primary db =
    (let is = items_of db ord;
         at_store = (\<lambda>m. [i \<leftarrow> is. item_place primary i = m]);
         ms = sort_key (\<lambda>m. (- goods_sum (at_store m), map (\<lambda>c. of_char c :: nat) m)) (firsts (map (item_place primary) is))
     in (ms, concat (map (\<lambda>m. concat (map (\<lambda>i. case oi_menu i of None \<Rightarrow> [] | Some k \<Rightarrow> [k]) (at_store m))) ms)))"

record removal_money =
  rm_old :: int
  rm_new :: int
  rm_refunded :: int
  rm_gone :: bool

record recount =
  rc_fee :: int
  rc_sources_fee :: int
  rc_driver_fee :: int
  rc_merchant :: string
  rc_gone :: bool

text \<open>Fee, sources fee, driver's fee and store, when a store left with the goods.\<close>

definition recount_sources :: "env \<Rightarrow> order \<Rightarrow> string \<Rightarrow> 'a engine_db_scheme \<Rightarrow> err + recount" where
  "recount_sources env x removed db =
    (let primary = (case o_merchant x of None \<Rightarrow> '''' | Some m \<Rightarrow> m);
         fee = wrap64 (o_delivery_fee x + o_promo_waived x);
         same = \<lparr>rc_fee = fee, rc_sources_fee = o_sources_fee x, rc_driver_fee = o_driver_fee x, rc_merchant = primary, rc_gone = False\<rparr>
     in if list_ex (\<lambda>i. item_place primary i = removed) (items_of db (o_id x)) then Inr same
        else let (ms, items) = remainingSources (o_id x) primary db;
                 same = same\<lparr>rc_gone := True, rc_merchant := (if removed = primary \<and> ms \<noteq> [] then hd ms else primary)\<rparr>
             in if o_sources_fee x \<le> 0 then Inr same
                else let base = wrap64 (fee - o_sources_fee x)
                     in bindE (if items = [] then Inr 0
                               else bindE (SourcesOf env items db) (\<lambda>src. Inr (extraSourceFee env src base))) (\<lambda>extra.
                        let extra = (if extra > o_sources_fee x then o_sources_fee x else extra); fee = wrap64 (base + extra)
                        in Inr (same\<lparr>rc_fee := fee, rc_sources_fee := extra,
                             rc_driver_fee := DriverFeeWithShare fee (o_share_pct x) (o_share_fixed x)\<rparr>)))"

text \<open>Discount, what is waived and what is paid of the fee, by the promotion.\<close>

definition recount_promo :: "order \<Rightarrow> int \<Rightarrow> int \<Rightarrow> 'a engine_db_scheme \<Rightarrow> int \<times> int \<times> int" where
  "recount_promo x subtotal fee db =
    (if o_promo_code x = '''' then (0, 0, fee)
     else case find (\<lambda>c. EqualFold (pc_code c) (o_promo_code x)) (promo_codes db) of
            None \<Rightarrow> (min (o_discount x) subtotal, o_promo_waived x, o_delivery_fee x)
          | Some c \<Rightarrow> let (discount, left) = promoCut (pc_kind c) (pc_value c) (pc_max c) subtotal fee
                      in (discount, if fee > left then wrap64 (fee - left) else 0, left))"

text \<open>Total and discount: never below zero, and what exceeds the old total goes to the discount, up to the goods.\<close>

definition capped_total :: "int \<Rightarrow> int \<Rightarrow> int \<Rightarrow> int \<Rightarrow> int \<times> int" where
  "capped_total old subtotal discount fee =
    (let total = wrap64 (wrap64 (subtotal - discount) + fee); total = (if total < 0 then 0 else total)
     in if total > old then
          (let extra = min (wrap64 (total - old)) (wrap64 (subtotal - discount)) in (wrap64 (total - extra), wrap64 (discount + extra)))
        else (total, discount))"

text \<open>The new amounts, with the free delivery promised on the new fee.\<close>

record recounted =
  rn_discount :: int
  rn_waived :: int
  rn_fee :: int
  rn_total :: int

definition recount_money :: "order \<Rightarrow> int \<Rightarrow> recount \<Rightarrow> 'a engine_db_scheme \<Rightarrow> recounted \<times> 'a engine_db_scheme" where
  "recount_money x subtotal rc db =
    (let (discount, waived, fee) = recount_promo x subtotal (rc_fee rc) db;
         (fw, db) = freeDeliveryReapply (o_id x) fee db;
         fee = (if fw > 0 then wrap64 (fee - fw) else fee);
         waived = (if fw > 0 then wrap64 (waived + fw) else waived);
         (total, discount) = capped_total (o_total x) subtotal discount fee
     in (\<lparr>rn_discount = discount, rn_waived = waived, rn_fee = fee, rn_total = total\<rparr>, db))"

text \<open>What the wallet paid too much goes back, and the row is written, with the constraints of its columns.\<close>

definition pay_recount ::
  "order \<Rightarrow> user_id \<Rightarrow> string \<Rightarrow> int \<Rightarrow> recount \<Rightarrow> recounted \<Rightarrow> 'a engine_db_scheme \<Rightarrow> err + removal_money \<times> 'a engine_db_scheme" where
  "pay_recount x actor nt subtotal rc rn db =
    (let total = rn_total rn; paid = min (o_wallet_paid x) total; diff = wrap64 (o_wallet_paid x - paid);
         cash = wrap64 (total - paid)
     in bindE (if diff > 0 then bindE (ApplyTx (o_customer x) diff ''refund'' (o_id x) nt (Some actor) db) (\<lambda>(_, db). Inr db)
               else Inr db) (\<lambda>db.
        if rc_merchant rc = '''' \<or> subtotal < 0 \<or> rn_fee rn < 0 \<or> rn_discount rn < 0 \<or> total < 0 \<or> paid < 0 \<or> cash < 0 \<or>
           rc_sources_fee rc < 0 then Inl ErrDb
        else Inr (\<lparr>rm_old = o_total x, rm_new = total, rm_refunded = (if diff > 0 then diff else 0), rm_gone = rc_gone rc\<rparr>,
          update_order (o_id x) (\<lambda>y. y\<lparr>o_subtotal := subtotal, o_delivery_fee := rn_fee rn, o_discount := rn_discount rn,
            o_total := total, o_wallet_paid := paid, o_cash_due := cash, o_promo_waived := rn_waived rn,
            o_sources_fee := rc_sources_fee rc, o_driver_fee := rc_driver_fee rc, o_merchant := Some (rc_merchant rc)\<rparr>) db)))"

definition recomputeAfterRemovalTx ::
  "env \<Rightarrow> string \<Rightarrow> string \<Rightarrow> user_id \<Rightarrow> string \<Rightarrow> 'a engine_db_scheme \<Rightarrow> err + removal_money \<times> 'a engine_db_scheme" where
  "recomputeAfterRemovalTx env ord removed actor nt db =
    (case order_of db ord of
       None \<Rightarrow> Inl ErrNoRows
     | Some x \<Rightarrow>
         bindE (sql_int (goods_sum (items_of db ord))) (\<lambda>subtotal.
         bindE (recount_sources env x removed db) (\<lambda>rc.
         let (rn, db) = recount_money x subtotal rc db in pay_recount x actor nt subtotal rc rn db)))"

section \<open>What the customer pays after a removal\<close>

lemma wrap64_add_right: "wrap64 (a + wrap64 b) = wrap64 (a + b)"
  by (simp add: wrap64_def mod_simps algebra_simps)

text \<open>The guard on the total either keeps it or has given all the goods away.\<close>

lemma capped_total_cases:
  assumes "capped_total old subtotal discount fee = (t, d)" and "0 \<le> old" and "in64 old" and "in64 subtotal"
  shows "in64 t" "t \<le> old \<or> d = subtotal" "0 \<le> t \<or> d = subtotal"
proof -
  define t0 where "t0 = (let total = wrap64 (wrap64 (subtotal - discount) + fee) in if total < 0 then 0 else total)"
  have t0: "0 \<le> t0" "in64 t0" by (auto simp: t0_def Let_def in64_def) (use in64_wrap64 in \<open>simp add: in64_def\<close>)
  have r: "(t, d) = (if t0 > old then
      (wrap64 (t0 - min (wrap64 (t0 - old)) (wrap64 (subtotal - discount))),
       wrap64 (discount + min (wrap64 (t0 - old)) (wrap64 (subtotal - discount)))) else (t0, discount))"
    using assms(1) unfolding capped_total_def t0_def Let_def by auto
  have "in64 t \<and> (t \<le> old \<or> d = subtotal) \<and> (0 \<le> t \<or> d = subtotal)"
  proof (cases "t0 > old")
    case True
    have "in64 (t0 - old)" using t0 True assms(2,3) by (auto simp: in64_def)
    then have e: "wrap64 (t0 - old) = t0 - old" by simp
    show ?thesis
    proof (cases "t0 - old \<le> wrap64 (subtotal - discount)")
      case le: True
      then have "t = wrap64 old" using r True by (simp add: e)
      then show ?thesis using assms(2,3) by simp
    next
      case False
      then have "d = wrap64 (discount + wrap64 (subtotal - discount))" "t = wrap64 (t0 - wrap64 (subtotal - discount))"
        using r True by (simp_all add: e min_def)
      then show ?thesis using assms(4) by (simp add: wrap64_add_right)
    qed
  qed (use r t0 in auto)
  then show "in64 t" "t \<le> old \<or> d = subtotal" "0 \<le> t \<or> d = subtotal" by auto
qed

lemma ApplyTx_orders:
  assumes "ApplyTx u a kind ref nt actor db = Inr (b, db')"
  shows "orders db' = orders db"
proof -
  obtain i where "applyTx u a kind ref nt actor db = Inr ((b, i), db')"
    using assms by (auto simp: ApplyTx_def bindE_eq_Inr)
  then show ?thesis using applyTx_frame by fastforce
qed

lemma reapply_keeps:
  "freeDeliveryReapply ord fee db = (w, db') \<Longrightarrow> orders db' = orders db \<and> wallets db' = wallets db"
  by (auto simp: freeDeliveryReapply_def Let_def split: option.splits if_splits)

lemma removal_money:
  assumes "recomputeAfterRemovalTx env ord removed actor nt db = Inr (res, db')" and "order_of db ord = Some x"
    and "0 \<le> o_total x" and "in64 (o_total x)" and "in64 (o_wallet_paid x)"
  shows "\<exists>y. order_of db' ord = Some y \<and> o_total y = rm_new res \<and> o_wallet_paid y + o_cash_due y = o_total y \<and>
    0 \<le> o_wallet_paid y \<and> 0 \<le> o_cash_due y \<and> o_wallet_paid y \<le> o_wallet_paid x \<and>
    Balance db' c = Balance db c + (if c = o_customer x then o_wallet_paid x - o_wallet_paid y else 0) \<and>
    (o_total y \<le> o_total x \<or> o_discount y = o_subtotal y)"
proof -
  obtain subtotal rc where sub: "sql_int (goods_sum (items_of db ord)) = Inr subtotal"
    and r: "(case recount_money x subtotal rc db of (rn, db) \<Rightarrow> pay_recount x actor nt subtotal rc rn db) = Inr (res, db')"
    using assms(1) unfolding recomputeAfterRemovalTx_def assms(2) option.case bindE_eq_Inr Let_def by blast
  obtain rn d1 where rn: "recount_money x subtotal rc db = (rn, d1)" and pay: "pay_recount x actor nt subtotal rc rn d1 = Inr (res, db')"
    using r by (cases "recount_money x subtotal rc db") auto
  have id: "o_id x = ord" using order_of_Some[OF assms(2)] by simp
  obtain discount waived fee fw where re: "freeDeliveryReapply ord fee db = (fw, d1)"
    and cap: "capped_total (o_total x) subtotal discount (rn_fee rn) = (rn_total rn, rn_discount rn)"
    using rn by (auto simp: recount_money_def Let_def id split: prod.splits)
  define paid where "paid = min (o_wallet_paid x) (rn_total rn)"
  define diff where "diff = wrap64 (o_wallet_paid x - paid)"
  let ?row = "\<lambda>y. y\<lparr>o_subtotal := subtotal, o_delivery_fee := rn_fee rn, o_discount := rn_discount rn,
      o_total := rn_total rn, o_wallet_paid := paid, o_cash_due := wrap64 (rn_total rn - paid), o_promo_waived := rn_waived rn,
      o_sources_fee := rc_sources_fee rc, o_driver_fee := rc_driver_fee rc, o_merchant := Some (rc_merchant rc)\<rparr>"
  obtain d2 where post: "(if diff > 0 then bindE (ApplyTx (o_customer x) diff ''refund'' ord nt (Some actor) d1) (\<lambda>(_, db). Inr db)
      else Inr d1) = Inr d2"
    and ok: "0 \<le> rn_total rn" "0 \<le> paid" "0 \<le> wrap64 (rn_total rn - paid)" "rm_new res = rn_total rn"
    and db': "db' = update_order ord ?row d2"
    using pay unfolding pay_recount_def Let_def paid_def[symmetric] diff_def[symmetric] id bindE_eq_Inr by (auto split: if_split_asm)
  have keep: "orders d1 = orders db" "wallets d1 = wallets db" using reapply_keeps[OF re] by simp_all
  have s: "in64 subtotal" using sub by (auto simp: sql_int_def split: if_splits)
  note c = capped_total_cases[OF cap assms(3,4) s]
  have p: "paid \<le> rn_total rn" "paid \<le> o_wallet_paid x" by (simp_all add: paid_def)
  have in_cash: "in64 (rn_total rn - paid)" and in_diff: "in64 (o_wallet_paid x - paid)"
    using ok(1,2) p c(1) assms(5) by (auto simp: in64_def)
  have d2: "orders d2 = orders d1 \<and> Balance d2 c = Balance d1 c + (if c = o_customer x then o_wallet_paid x - paid else 0)"
  proof (cases "diff > 0")
    case True
    with post obtain b where a: "ApplyTx (o_customer x) diff ''refund'' ord nt (Some actor) d1 = Inr (b, d2)" by (auto simp: bindE_eq_Inr)
    show ?thesis using ApplyTx_Inr(1)[OF a] ApplyTx_orders[OF a] in_diff by (simp add: posted_def diff_def)
  next
    case False
    then have "o_wallet_paid x - paid = 0" using p(2) in_diff by (simp add: diff_def)
    with False post show ?thesis by simp
  qed
  have o: "order_of d2 ord = Some x" using d2 keep(1) assms(2) by (simp add: order_of_def)
  have b: "Balance d1 c = Balance db c" using keep(2) by (simp add: Balance_def wallet_of_def)
  show ?thesis unfolding db' using o d2 b p ok c(2) in_cash
    by (simp add: order_of_update)
qed

text \<open>
  C32. Goods that leave an order before the pickup: what is paid by wallet and by cash is the new total again, the
  wallet never pays more than before and its customer gets exactly the difference back, and the total does not
  rise unless the whole of the goods that are left has been given away as discount.
\<close>

theorem removal_money_exact:
  assumes "recomputeAfterRemovalTx env ord removed actor nt db = Inr (res, db')" and "order_of db ord = Some x"
    and "0 \<le> o_total x" and "in64 (o_total x)" and "in64 (o_wallet_paid x)"
  shows "\<exists>y. order_of db' ord = Some y \<and> o_total y = rm_new res \<and> o_wallet_paid y + o_cash_due y = o_total y \<and>
    0 \<le> o_wallet_paid y \<and> 0 \<le> o_cash_due y \<and> o_wallet_paid y \<le> o_wallet_paid x \<and>
    Balance db' c = Balance db c + (if c = o_customer x then o_wallet_paid x - o_wallet_paid y else 0) \<and>
    (o_total y \<le> o_total x \<or> o_discount y = o_subtotal y)"
  by (rule removal_money[OF assms])

text \<open>An order of 1100 of goods left and a fee of 150; and one whose fee of 5000 was waived by a campaign that now waives 40.\<close>

definition example_removal_db :: "(order \<Rightarrow> order) \<Rightarrow> engine_db" where
  "example_removal_db f = money_db.extend (example_held_db\<lparr>orders := [f example_order], order_items := order_items example_stores_db,
       free_claims := [\<lparr>fc_campaign = ''f'', fc_claimant = ''x'', fc_order = ''o2'', fc_kind = ''standard'', fc_waived = 30\<rparr>], db_now := 50\<rparr>)
     \<lparr>order_events = [], promo_codes = [], promo_redemptions = [], late_warnings = [],
      campaigns = [\<lparr>ca_id = ''f'', ca_active = True, ca_starts = 0, ca_ends = 100, ca_kinds = [''standard''], ca_max = Some 40, ca_created = 0\<rparr>],
      menu_items = [], delivery_zones = []\<rparr>"

definition example_plain_env :: env where
  "example_plain_env = \<lparr>en_settings = None, en_whatsapp = False, en_notify = True, en_code = Inr ''1234'',
     en_uuid = (\<lambda>_. True), en_distance = (\<lambda>p q. of_int (max \<bar>fst p - fst q\<bar> \<bar>snd p - snd q\<bar>)), en_covers = (\<lambda>_ _. True), en_cashbox = True\<rparr>"

lemma removal_money_exact_witness:
  "\<exists>res db y. recomputeAfterRemovalTx example_plain_env ''o1'' ''n'' ''u'' ''gone'' (example_removal_db (\<lambda>x. x\<lparr>o_total := 1500, o_wallet_paid := 1300, o_cash_due := 200\<rparr>)) = Inr (res, db) \<and>
     rm_new res = 1250 \<and> order_of db ''o1'' = Some y \<and> o_wallet_paid y + o_cash_due y = 1250 \<and>
     Balance db ''a'' = Balance (example_removal_db (\<lambda>x. x\<lparr>o_total := 1500, o_wallet_paid := 1300, o_cash_due := 200\<rparr>)) ''a'' + (1300 - o_wallet_paid y)"
proof -
  let ?f = "\<lambda>x. x\<lparr>o_total := 1500, o_wallet_paid := 1300, o_cash_due := 200\<rparr>"
  let ?r = "recomputeAfterRemovalTx example_plain_env ''o1'' ''n'' ''u'' ''gone'' (example_removal_db ?f)"
  have "case ?r of Inl _ \<Rightarrow> False | Inr (res, db) \<Rightarrow> rm_new res = 1250" by code_simp
  then obtain res db where r: "?r = Inr (res, db)" "rm_new res = 1250" by (auto split: sum.splits)
  have x: "order_of (example_removal_db ?f) ''o1'' = Some (?f example_order)" "0 \<le> o_total (?f example_order)" "in64 (o_total (?f example_order))"
    "in64 (o_wallet_paid (?f example_order))" "o_customer (?f example_order) = ''a''" "o_wallet_paid (?f example_order) = 1300" by code_simp+
  from removal_money_exact[OF r(1) x(1-4), of "''a''"] r(2) x(5,6) obtain y where "order_of db ''o1'' = Some y"
      "o_wallet_paid y + o_cash_due y = 1250" "Balance db ''a'' = Balance (example_removal_db ?f) ''a'' + (1300 - o_wallet_paid y)"
    by auto
  with r show ?thesis by blast
qed

text \<open>The guard on the total is no bound: when a campaign that waived the fee is capped later, taking goods away makes the order dearer.\<close>

lemma removal_may_raise_total:
  "case recomputeAfterRemovalTx example_plain_env ''o1'' ''n'' ''u'' ''gone'' (example_removal_db (\<lambda>x. x\<lparr>o_total := 1200, o_wallet_paid := 0, o_cash_due := 1200, o_delivery_fee := 0, o_promo_waived := 5000\<rparr>)
       \<lparr>free_claims := [\<lparr>fc_campaign = ''f'', fc_claimant = ''x'', fc_order = ''o1'', fc_kind = ''standard'', fc_waived = 5000\<rparr>]\<rparr>) of
     Inl _ \<Rightarrow> False | Inr (res, _) \<Rightarrow> rm_old res = 1200 \<and> rm_new res = 4960"
  by code_simp

end
