(* ===== verification/Part_Actions.thy ===== *)
theory Part_Actions
  imports Removal Moves
begin

text \<open>
  What stores, drivers and the office do to the parts of an order of several stores (\<open>orders/parts_engine.go\<close>,
  \<open>parts_stops.go\<close>, \<open>parts_remove.go\<close>) and the removal of an item (\<open>item_unavailable.go\<close>). Identifiers are compared
  as identifiers. The moves that follow are those of the engine; warnings and notifications after the commit are
  left out.
\<close>

section \<open>The outcome of an action\<close>

definition ErrPartCollected :: err where "ErrPartCollected = ErrMsg ''part collected''"
definition ErrPartFault :: err where "ErrPartFault = ErrMsg ''part fault''"

record part_removal =
  pr_merchant :: string
  pr_name :: string
  pr_owner :: string
  pr_status :: string
  pr_reason :: string
  pr_fault :: string
  pr_items :: "string list"
  pr_continued :: bool
  pr_by_store :: bool
  pr_transfer :: bool
  pr_money :: removal_money

record remove_req =
  rr_store :: string
  rr_actor :: user_id
  rr_roles :: "role list"
  rr_reason :: string
  rr_fault :: string
  rr_transfer :: bool

record part_outcome =
  po_follow :: "(applied \<times> transition_req) option"
  po_accepted :: "(string \<times> string) list"
  po_reason :: string
  po_noop :: bool
  po_removed :: "part_removal list"
  po_settled :: settled

definition no_outcome :: part_outcome where
  "no_outcome = \<lparr>po_follow = None, po_accepted = [], po_reason = '''', po_noop = False, po_removed = [], po_settled = no_report\<rparr>"

definition no_money :: removal_money where
  "no_money = \<lparr>rm_old = 0, rm_new = 0, rm_refunded = 0, rm_gone = False\<rparr>"

section \<open>Moves that parts ask for\<close>

text \<open>A move of the engine, kept with its request for what follows it.\<close>

definition part_move ::
  "env \<Rightarrow> transition_req \<Rightarrow> locked_order \<Rightarrow> 'a engine_db_scheme \<Rightarrow> err + (applied \<times> transition_req) option \<times> 'a engine_db_scheme" where
  "part_move env req lo db = bindE (applyTransitionTx env Inr req lo db) (\<lambda>(ap, db). Inr (Some (ap, req), db))"

definition parts_request :: "user_id \<Rightarrow> role list \<Rightarrow> status \<Rightarrow> string \<Rightarrow> transition_req" where
  "parts_request actor roles to nt = request actor roles to nt\<lparr>rq_from_parts := True\<rparr>"

definition partsFollowUpTx ::
  "env \<Rightarrow> locked_order \<Rightarrow> 'a engine_db_scheme \<Rightarrow> err + (applied \<times> transition_req) option \<times> 'a engine_db_scheme" where
  "partsFollowUpTx env lo db =
    (if lo_from lo \<noteq> StPending then Inr (None, db)
     else let (pending, live) = partCountsTx db (lo_id lo)
          in if pending > 0 then Inr (None, db)
             else if live = 0 then part_move env (parts_request '''' [''ops''] StRejected allPartsRejectedReason) lo db
             else part_move env (parts_request '''' [''ops''] StAccepted partsAnsweredNote) lo db)"

text \<open>Whether the driver has the goods of every part that is left.\<close>

definition stops_done :: "'a money_db_scheme \<Rightarrow> string \<Rightarrow> user_id \<Rightarrow> bool" where
  "stops_done db ord d \<longleftrightarrow>
     list_ex (\<lambda>p. pa_status p = PartPending \<or> part_live p) (parts_of db ord) \<and>
     \<not> list_ex (\<lambda>p. pa_status p = PartPending \<or> pa_status p = PartAccepted \<or> pa_status p = PartPickedUp \<and> pa_picked_by p \<noteq> Some d)
        (parts_of db ord)"

definition stopsDoneFollowTx ::
  "env \<Rightarrow> locked_order \<Rightarrow> user_id \<Rightarrow> 'a engine_db_scheme \<Rightarrow> err + (applied \<times> transition_req) option \<times> 'a engine_db_scheme" where
  "stopsDoneFollowTx env lo actor db =
    (case lo_driver lo of
       None \<Rightarrow> Inr (None, db)
     | Some d \<Rightarrow>
         if lo_from lo \<noteq> StAtPickup \<or> \<not> stops_done db (lo_id lo) d then Inr (None, db)
         else part_move env (parts_request actor [''driver''] StPickedUp '''') lo db)"

section \<open>One action on the parts\<close>

definition partAction ::
  "env \<Rightarrow> string \<Rightarrow> (locked_order \<Rightarrow> 'a engine_db_scheme \<Rightarrow> err + part_outcome \<times> 'a engine_db_scheme) \<Rightarrow> 'a engine_db_scheme \<Rightarrow>
     err + part_outcome \<times> 'a engine_db_scheme" where
  "partAction env ord act db =
     bindE (lockOrderTx ord db) (\<lambda>lo.
     if lo_stops lo \<le> 1 then Inl ErrBadTransition
     else bindE (act lo db) (\<lambda>(out, db).
          let db = (if po_noop out then db else syncPartFieldsTx ord db)
          in Inr (out, case po_follow out of None \<Rightarrow> db | Some f \<Rightarrow> afterTransition env f db)))"

definition lockPartsTx :: "string \<Rightarrow> string list \<Rightarrow> user_id \<Rightarrow> 'a money_db_scheme \<Rightarrow> err + (string \<times> string) list" where
  "lockPartsTx ord stores owner db =
    (let got = [p \<leftarrow> parts_of db ord. pa_merchant p \<in> set stores \<and> merchant_of db (pa_merchant p) \<noteq> None];
         own = (\<lambda>p. case merchant_of db (pa_merchant p) of None \<Rightarrow> '''' | Some m \<Rightarrow> (case m_owner m of None \<Rightarrow> '''' | Some u \<Rightarrow> u))
     in if owner \<noteq> '''' \<and> list_ex (\<lambda>p. own p \<noteq> owner) got then Inl ErrNotFound
        else if got = [] \<or> card (set (map pa_merchant got)) \<noteq> card (set stores) then Inl ErrNotFound
        else Inr (map (\<lambda>p. (pa_merchant p, pa_status p)) got))"

definition answerRoles :: "role list \<Rightarrow> role \<Rightarrow> role list" where
  "answerRoles roles r = (if r = ''merchant'' then [''merchant''] else roles)"

definition authorRole :: "role list \<Rightarrow> role" where
  "authorRole roles =
    (if ''admin'' \<in> set roles then ''admin'' else if ''ops'' \<in> set roles then ''ops''
     else if ''merchant'' \<in> set roles then ''merchant'' else ''ops'')"

definition partCollectedTx :: "'a money_db_scheme \<Rightarrow> string \<Rightarrow> string \<Rightarrow> bool" where
  "partCollectedTx db ord m =
    (list_ex (\<lambda>s. st_order s = ord \<and> st_merchant s = m) (settlements db) \<or>
     list_ex (\<lambda>p. pa_merchant p = m \<and> pa_status p = PartPickedUp) (parts_of db ord))"

section \<open>Removing a part\<close>

definition partRemoveFrom :: "status \<Rightarrow> bool" where
  "partRemoveFrom st \<longleftrightarrow> st \<in> {StPending, StAccepted, StPreparing, StDispatching, StAssigned, StAtPickup}"

definition merchantRemoveFrom :: "status \<Rightarrow> bool" where
  "merchantRemoveFrom st \<longleftrightarrow> st \<in> {StPending, StAccepted, StPreparing}"

text \<open>Whose fault the removal is, after the gates of the roles.\<close>

definition removal_fault :: "env \<Rightarrow> locked_order \<Rightarrow> remove_req \<Rightarrow> err + bool \<times> string" where
  "removal_fault env lo req =
    (if terminal (lo_from lo) then Inl ErrBadTransition
     else if \<not> partRemoveFrom (lo_from lo) then Inl ErrPartCollected
     else let byStore = ''merchant'' \<in> set (rr_roles req) \<and> ''ops'' \<notin> set (rr_roles req) \<and> ''admin'' \<notin> set (rr_roles req)
          in if byStore then
               (if \<not> merchantRemoveFrom (lo_from lo) then Inl ErrUsePart
                else let to = (if lo_from lo = StPending then StRejected else StCancelled);
                         eff = rolesUnderMode (self_manage env) (lo_from lo) to (rr_roles req) (lo_driver lo \<noteq> None)
                     in if \<not> canTransition (lo_kind lo) (lo_from lo) to eff then Inl ErrBadTransition
                        else Inr (True, FaultMerchant))
             else if rr_fault req \<noteq> FaultMerchant \<and> rr_fault req \<noteq> FaultPlatform then Inl ErrPartFault
             else Inr (False, rr_fault req))"

definition part_items :: "'a settle_db_scheme \<Rightarrow> string \<Rightarrow> string \<Rightarrow> string \<Rightarrow> order_item list" where
  "part_items db ord primary m =
     sort_key (\<lambda>i. (case oi_drink_for i of None \<Rightarrow> [] | Some d \<Rightarrow> 1 # text_key d, text_key (oi_name i), text_key (oi_id i)))
       [i \<leftarrow> items_of db ord. item_place primary i = m]"

text \<open>Deleting a line deletes the drinks that go with it.\<close>

definition delete_items :: "(order_item \<Rightarrow> bool) \<Rightarrow> 'a settle_db_scheme \<Rightarrow> 'a settle_db_scheme" where
  "delete_items P db =
    (let gone = map oi_id (filter P (order_items db))
     in db\<lparr>order_items := [i \<leftarrow> order_items db. \<not> P i \<and> (case oi_drink_for i of None \<Rightarrow> True | Some d \<Rightarrow> d \<notin> set gone)]\<rparr>)"

definition mark_removed ::
  "string \<Rightarrow> string \<Rightarrow> string \<Rightarrow> string \<Rightarrow> string \<Rightarrow> order_item list \<Rightarrow> int \<Rightarrow> user_id \<Rightarrow> role \<Rightarrow> 'a money_db_scheme \<Rightarrow> 'a money_db_scheme" where
  "mark_removed ord m st reason fault items amount actor r db =
     update_parts (\<lambda>p. pa_order p = ord \<and> pa_merchant p = m) (\<lambda>p.
       let p' = p\<lparr>pa_status := st, pa_reason := reason, pa_removed_fault := fault, pa_removed_items := items, pa_removed_total := amount\<rparr>
       in if pa_status p = PartPending
          then p'\<lparr>pa_answered := Some (db_now db), pa_answered_by := opt_actor actor, pa_role := r\<rparr> else p') db"

text \<open>The part after the checks: its items out of the order, its row, its event, and the move that follows.\<close>

definition drop_part ::
  "env \<Rightarrow> locked_order \<Rightarrow> remove_req \<Rightarrow> bool \<Rightarrow> string \<Rightarrow> part_outcome \<Rightarrow> 'a engine_db_scheme \<Rightarrow>
     err + (locked_order \<times> part_outcome) \<times> 'a engine_db_scheme" where
  "drop_part env lo req byStore fault out db =
    (case (order_of db (lo_id lo), merchant_of db (rr_store req)) of
       (Some x, Some row) \<Rightarrow>
         let primary = (case o_merchant x of None \<Rightarrow> '''' | Some m \<Rightarrow> m);
             items = part_items db (lo_id lo) primary (rr_store req);
             others = length [p \<leftarrow> parts_of db (lo_id lo). pa_merchant p \<noteq> rr_store req \<and> (pa_status p = PartPending \<or> part_live p)];
             st = (if lo_from lo = StPending then PartRejected else PartRemoved);
             continued = (others > 0 \<or> rr_transfer req)
         in bindE (sql_int (goods_sum items)) (\<lambda>amount.
            bindE (if others > 0 \<and> \<not> rr_transfer req
                   then bindE (recomputeAfterRemovalTx env (lo_id lo) (rr_store req) (rr_actor req) ''part unavailable''
                                (delete_items (\<lambda>i. oi_order i = lo_id lo \<and> item_place primary i = rr_store req) db)) (\<lambda>(money, db).
                        bindE (lockOrderTx (lo_id lo) db) (\<lambda>fresh. Inr (money, fresh\<lparr>lo_from := lo_from lo\<rparr>, db)))
                   else Inr (no_money, lo, db)) (\<lambda>(money, lo, db).
            let db = mark_removed (lo_id lo) (rr_store req) st (rr_reason req) fault items amount (rr_actor req)
                       (partRole (rr_actor req) (authorRole (rr_roles req))) db;
                db = partEventTx (lo_id lo) (lo_from lo) (rr_actor req) (''part removed: '' @ m_name row @ '' - '' @ rr_reason req)
                       (lo_driver lo) (rr_store req) db;
                r = \<lparr>pr_merchant = rr_store req, pr_name = m_name row, pr_owner = (case m_owner row of None \<Rightarrow> '''' | Some u \<Rightarrow> u),
                     pr_status = st, pr_reason = rr_reason req, pr_fault = fault,
                     pr_items = map oi_name [i \<leftarrow> items. oi_drink_for i = None], pr_continued = continued,
                     pr_by_store = byStore, pr_transfer = rr_transfer req, pr_money = money\<rparr>;
                out = out\<lparr>po_removed := po_removed out @ [r]\<rparr>
            in if continued then
                 bindE (if lo_from lo = StPending \<and> po_follow out = None then partsFollowUpTx env lo db else Inr (po_follow out, db)) (\<lambda>(f, db).
                 bindE (if f = None \<and> \<not> rr_transfer req then stopsDoneFollowTx env lo (rr_actor req) db else Inr (f, db)) (\<lambda>(f, db).
                 Inr ((lo, out\<lparr>po_follow := f\<rparr>), db)))
               else if lo_from lo = StPending then
                 bindE (partsFollowUpTx env lo db) (\<lambda>(f, db). Inr ((lo, out\<lparr>po_follow := f\<rparr>), db))
               else if afterHandoff (lo_from lo) \<and> ''admin'' \<notin> set (rr_roles req) then Inl ErrBadTransition
               else bindE (part_move env (parts_request (rr_actor req) (rr_roles req) StCancelled (rr_reason req)) lo db) (\<lambda>(f, db).
                    Inr ((lo, out\<lparr>po_follow := f\<rparr>), db))))
     | _ \<Rightarrow> Inl ErrNoRows)"

definition removePartTx ::
  "env \<Rightarrow> remove_req \<Rightarrow> (locked_order \<times> part_outcome) \<times> 'a engine_db_scheme \<Rightarrow> err + (locked_order \<times> part_outcome) \<times> 'a engine_db_scheme" where
  "removePartTx env req = (\<lambda>((lo, out), db).
     bindE (removal_fault env lo req) (\<lambda>(byStore, fault).
     bindE (lockPartsTx (lo_id lo) [rr_store req] (if byStore then rr_actor req else '''') db) (\<lambda>got.
     let st = snd (hd got)
     in if st = PartRejected \<or> st = PartRemoved then Inr ((lo, out\<lparr>po_noop := True\<rparr>), db)
        else if st \<noteq> PartPending \<and> st \<noteq> PartAccepted then Inl ErrPartCollected
        else if partCollectedTx db (lo_id lo) (rr_store req) then Inl ErrPartCollected
        else drop_part env lo req byStore fault out db)))"

end
