(* ===== verification/Part_Steps.thy ===== *)
theory Part_Steps
  imports Part_Actions
begin

text \<open>
  The requests on the parts of an order of several stores: a store answers, is ready, is told; the driver arrives at a
  store and takes its goods; the office drops the stores that are left, sends the order to another driver with the
  goods in hand, removes a part (\<open>orders/parts_engine.go\<close>, \<open>parts_stops.go\<close>, \<open>parts_remove.go\<close>), and an item is found
  missing (\<open>item_unavailable.go\<close>). Messages and warnings after the commit are left out, as are the pages they return.
\<close>

definition ErrItemUnavailableTooLate :: err where "ErrItemUnavailableTooLate = AppError ''item_unavailable_too_late''"
definition ErrItemUnavailableLast :: err where "ErrItemUnavailableLast = AppError ''item_unavailable_last_item''"
definition ErrItemUnavailableKind :: err where "ErrItemUnavailableKind = AppError ''item_unavailable_not_standard''"

section \<open>After the commit\<close>

text \<open>The order goes to the drivers when its last store has been told; what is refused waits for the office.\<close>

definition maybeDispatchParts :: "env \<Rightarrow> string \<Rightarrow> 'a engine_db_scheme \<Rightarrow> 'a engine_db_scheme" where
  "maybeDispatchParts env ord db =
    (case order_of db ord of
       None \<Rightarrow> db
     | Some x \<Rightarrow>
         if o_stops x \<le> 1 \<or> o_kind x = KindCustom \<or> o_sent_at x = None \<or> (o_status x \<noteq> StAccepted \<and> o_status x \<noteq> StPreparing)
         then db
         else (case Transition env '''' [''ops''] ord StDispatching autoDispatchNote db of Inl _ \<Rightarrow> db | Inr d \<Rightarrow> d))"

text \<open>The action, and what it starts once it is committed.\<close>

definition then_dispatch ::
  "env \<Rightarrow> string \<Rightarrow> err + part_outcome \<times> 'a engine_db_scheme \<Rightarrow> err + part_outcome \<times> 'a engine_db_scheme" where
  "then_dispatch env ord r = bindE r (\<lambda>(out, db). Inr (out, if po_noop out then db else maybeDispatchParts env ord db))"

section \<open>A store answers\<close>

text \<open>The parts to answer: those that wait; one already answered the other way refuses the whole answer.\<close>

definition parts_todo :: "string \<Rightarrow> (string \<times> string) list \<Rightarrow> err + string list" where
  "parts_todo want got =
    (if list_ex (\<lambda>(_, st). st \<noteq> want \<and> st \<noteq> PartPending) got then Inl ErrBadTransition
     else Inr (map fst [g \<leftarrow> got. snd g \<noteq> want]))"

text \<open>By the place of the store in the order; a store that has none counts as first.\<close>

definition sortBySeq :: "'a money_db_scheme \<Rightarrow> string \<Rightarrow> string list \<Rightarrow> string list" where
  "sortBySeq db ord stores =
    (let order = partStoresOf db ord
     in sort_key (\<lambda>m. case map_of (rev (zip order [0..<length order])) m of None \<Rightarrow> 0 | Some i \<Rightarrow> i) stores)"

definition answer_parts ::
  "env \<Rightarrow> user_id \<Rightarrow> role list \<Rightarrow> string list \<Rightarrow> bool \<Rightarrow> int option \<Rightarrow> string \<Rightarrow> locked_order \<Rightarrow> 'a engine_db_scheme \<Rightarrow>
     err + part_outcome \<times> 'a engine_db_scheme" where
  "answer_parts env actor roles stores accept prep reason lo db =
    (let to = (if accept then StAccepted else StRejected); want = (if accept then PartAccepted else PartRejected);
         eff = rolesUnderMode (self_manage env) StPending to roles (lo_driver lo \<noteq> None)
     in if \<not> canTransition (lo_kind lo) StPending to eff then Inl ErrBadTransition
        else let r = authorizingRole (lo_kind lo) StPending to eff
             in bindE (lockPartsTx (lo_id lo) stores (if r = ''merchant'' then actor else '''') db) (\<lambda>got.
                bindE (parts_todo want got) (\<lambda>todo.
                if todo = [] then Inr (no_outcome\<lparr>po_noop := True\<rparr>, db)
                else if lo_from lo \<noteq> StPending then Inl ErrBadTransition
                else if \<not> accept then
                  bindE (foldE (\<lambda>m. removePartTx env \<lparr>rr_store = m, rr_actor = actor, rr_roles = answerRoles roles r,
                           rr_reason = reason, rr_fault = (if r = ''merchant'' then FaultMerchant else FaultPlatform), rr_transfer = False\<rparr>)
                         (sortBySeq db (lo_id lo) todo) ((lo, no_outcome\<lparr>po_reason := reason\<rparr>), db)) (\<lambda>((_, out), db). Inr (out, db))
                else let (refs, db) = answerPartsTx lo todo actor (partRole actor r) accept prep reason [PartPending] db
                     in bindE (partsFollowUpTx env lo db) (\<lambda>(f, db).
                        Inr (no_outcome\<lparr>po_accepted := refs, po_follow := f\<rparr>, db)))))"

definition AnswerParts ::
  "env \<Rightarrow> user_id \<Rightarrow> role list \<Rightarrow> string \<Rightarrow> string list \<Rightarrow> bool \<Rightarrow> int option \<Rightarrow> string \<Rightarrow> 'a engine_db_scheme \<Rightarrow>
     err + part_outcome \<times> 'a engine_db_scheme" where
  "AnswerParts env actor roles ord stores accept prep reason db =
    (if stores = [] then Inl ErrNotFound
     else then_dispatch env ord (partAction env ord (answer_parts env actor roles stores accept prep (TrimSpace reason)) db))"

section \<open>A store is ready, or told\<close>

definition partReadyable :: "status \<Rightarrow> bool" where
  "partReadyable st \<longleftrightarrow> st \<in> {StPending, StAccepted, StPreparing, StDispatching, StAssigned, StAtPickup}"

definition part_events ::
  "locked_order \<Rightarrow> user_id \<Rightarrow> string \<Rightarrow> (string \<times> string) list \<Rightarrow> 'a engine_db_scheme \<Rightarrow> 'a engine_db_scheme" where
  "part_events lo actor what refs db =
     foldl (\<lambda>d (m, name). partEventTx (lo_id lo) (lo_from lo) actor (what @ name) (lo_driver lo) m d) db refs"

definition ready_parts ::
  "user_id \<Rightarrow> string list \<Rightarrow> user_id \<Rightarrow> locked_order \<Rightarrow> 'a engine_db_scheme \<Rightarrow> err + part_outcome \<times> 'a engine_db_scheme" where
  "ready_parts actor stores owner lo db =
    (if \<not> partReadyable (lo_from lo) then Inl ErrPartNotReady
     else bindE (lockPartsTx (lo_id lo) stores owner db) (\<lambda>got.
          if list_ex (\<lambda>(_, st). st \<noteq> PartAccepted) got then Inl ErrPartNotReady
          else let hit = (\<lambda>p. pa_order p = lo_id lo \<and> pa_merchant p \<in> set stores \<and> merchant_of db (pa_merchant p) \<noteq> None \<and>
                         pa_status p = PartAccepted \<and> pa_ready p = None);
                   refs = map (\<lambda>p. (pa_merchant p, case merchant_of db (pa_merchant p) of None \<Rightarrow> '''' | Some m \<Rightarrow> m_name m))
                     [p \<leftarrow> order_parts db. hit p]
               in if refs = [] then Inr (no_outcome\<lparr>po_noop := True\<rparr>, db)
                  else Inr (no_outcome, part_events lo actor ''ready: '' refs
                         (update_parts hit (\<lambda>p. p\<lparr>pa_ready := Some (db_now db)\<rparr>) db))))"

definition PartReady ::
  "env \<Rightarrow> user_id \<Rightarrow> string \<Rightarrow> string list \<Rightarrow> user_id \<Rightarrow> 'a engine_db_scheme \<Rightarrow> err + part_outcome \<times> 'a engine_db_scheme" where
  "PartReady env actor ord stores owner = partAction env ord (ready_parts actor stores owner)"

definition PartSentChannels :: "string \<Rightarrow> bool" where
  "PartSentChannels c \<longleftrightarrow> c = ''whatsapp'' \<or> c = ''manual''"

definition sent_part ::
  "user_id \<Rightarrow> string \<Rightarrow> string \<Rightarrow> locked_order \<Rightarrow> 'a engine_db_scheme \<Rightarrow> err + part_outcome \<times> 'a engine_db_scheme" where
  "sent_part actor m channel lo db =
    (if terminal (lo_from lo) \<or> AfterPickup (lo_from lo) then Inl ErrBadTransition
     else bindE (lockPartsTx (lo_id lo) [m] '''' db) (\<lambda>got.
          if list_ex (\<lambda>(_, st). st \<noteq> PartAccepted) got then Inl ErrBadTransition
          else case merchant_of db m of
                 None \<Rightarrow> Inl ErrNoRows
               | Some row \<Rightarrow> Inr (no_outcome, part_events lo actor (''told by '' @ channel @ '': '') [(m, m_name row)]
                   (update_parts (\<lambda>p. pa_order p = lo_id lo \<and> pa_merchant p = m)
                     (\<lambda>p. p\<lparr>pa_sent := Some (db_now db), pa_channel := channel\<rparr>) db))))"

definition MarkPartSent ::
  "env \<Rightarrow> user_id \<Rightarrow> string \<Rightarrow> string \<Rightarrow> string \<Rightarrow> 'a engine_db_scheme \<Rightarrow> err + part_outcome \<times> 'a engine_db_scheme" where
  "MarkPartSent env actor ord m channel db =
    (if \<not> PartSentChannels channel then Inl ErrBadTransition
     else then_dispatch env ord (partAction env ord (sent_part actor m channel) db))"

section \<open>The stops of the driver\<close>

definition lockStopTx :: "env \<Rightarrow> string \<Rightarrow> string \<Rightarrow> 'a money_db_scheme \<Rightarrow> err + order_part \<times> string" where
  "lockStopTx env ord store db =
    (if \<not> en_uuid env store then Inl ErrDb
     else case find (\<lambda>p. pa_merchant p = store \<and> merchant_of db store \<noteq> None) (parts_of db ord) of
            None \<Rightarrow> Inl ErrNotFound
          | Some p \<Rightarrow> Inr (p, case merchant_of db store of None \<Rightarrow> '''' | Some m \<Rightarrow> m_name m))"

definition normStop :: "string \<Rightarrow> err + string" where
  "normStop stop =
    (let stop = map lower_char (TrimSpace stop)
     in if stop = '''' then Inl ErrStopRequired
        else if length stop \<noteq> 36 \<or> count_list stop CHR ''-'' \<noteq> 4 then Inl ErrNotFound
        else Inr stop)"

definition holds :: "locked_order \<Rightarrow> user_id \<Rightarrow> bool" where
  "holds lo d \<longleftrightarrow> lo_driver lo = Some d"

definition stop_arrive ::
  "env \<Rightarrow> user_id \<Rightarrow> string \<Rightarrow> locked_order \<Rightarrow> 'a engine_db_scheme \<Rightarrow> err + part_outcome \<times> 'a engine_db_scheme" where
  "stop_arrive env d stop lo db =
    (if \<not> holds lo d then Inl ErrBadTransition
     else bindE (lockStopTx env (lo_id lo) stop db) (\<lambda>(p, name).
          if pa_status p = PartRemoved \<or> pa_status p = PartRejected then Inl ErrStopNotLive
          else if pa_arrived p \<noteq> None \<or> pa_status p = PartPickedUp \<and> pa_picked_by p = Some d
          then Inr (no_outcome\<lparr>po_noop := True\<rparr>, db)
          else if lo_from lo \<noteq> StAssigned \<and> lo_from lo \<noteq> StAtPickup then Inl ErrBadTransition
          else let db = update_parts (\<lambda>q. pa_order q = lo_id lo \<and> pa_merchant q = stop) (\<lambda>q. q\<lparr>pa_arrived := Some (db_now db)\<rparr>) db;
                   db = partEventTx (lo_id lo) (lo_from lo) d
                     ((if pa_status p = PartPickedUp then ''arrived for the goods of '' else ''arrived at '') @ name) (lo_driver lo) stop db
               in if lo_from lo = StAssigned then
                    bindE (part_move env (parts_request d [''driver''] StAtPickup '''') lo db) (\<lambda>(f, db).
                    Inr (no_outcome\<lparr>po_follow := f\<rparr>, db))
                  else Inr (no_outcome, update_order (lo_id lo) (\<lambda>x. x\<lparr>o_door_instruction := None\<rparr>) db)))"

definition StopArrive :: "env \<Rightarrow> user_id \<Rightarrow> string \<Rightarrow> string \<Rightarrow> 'a engine_db_scheme \<Rightarrow> err + part_outcome \<times> 'a engine_db_scheme" where
  "StopArrive env d ord stop db = bindE (normStop stop) (\<lambda>stop. partAction env ord (stop_arrive env d stop) db)"

text \<open>The parts and the ledger, before the order follows.\<close>

definition hand_over ::
  "user_id \<Rightarrow> string \<Rightarrow> locked_order \<Rightarrow> order_part \<Rightarrow> string \<Rightarrow> 'a engine_db_scheme \<Rightarrow> err + settled \<times> 'a engine_db_scheme" where
  "hand_over d stop lo p name db =
    (let this = (\<lambda>q. pa_order q = lo_id lo \<and> pa_merchant q = stop)
     in if pa_status p = PartPickedUp then
          Inr (no_report, partEventTx (lo_id lo) (lo_from lo) d (''took over the goods of '' @ name) (lo_driver lo) stop
            (update_parts this (\<lambda>q. q\<lparr>pa_picked_by := Some d\<rparr>) db))
        else if pa_status p \<noteq> PartAccepted then Inl ErrBadTransition
        else bindE (settleMerchantFor (lo_id lo) d (lo_driver lo) stop (no_report, db)) (\<lambda>(out, db).
             bindE (creditTreasury (lo_id lo) d db) (\<lambda>db.
             Inr (out, partEventTx (lo_id lo) (lo_from lo) d (''took the goods of '' @ name) (lo_driver lo) stop
               (update_parts this (\<lambda>q. q\<lparr>pa_status := PartPickedUp, pa_picked_at := Some (db_now db),
                  pa_picked_by := Some d\<rparr>) db)))))"

definition stop_pickup ::
  "env \<Rightarrow> user_id \<Rightarrow> string \<Rightarrow> locked_order \<Rightarrow> 'a engine_db_scheme \<Rightarrow> err + part_outcome \<times> 'a engine_db_scheme" where
  "stop_pickup env d stop lo db =
    (if \<not> holds lo d then Inl ErrBadTransition
     else bindE (lockStopTx env (lo_id lo) stop db) (\<lambda>(p, name).
          if pa_status p = PartRemoved \<or> pa_status p = PartRejected then Inl ErrStopNotLive
          else if pa_status p = PartPickedUp \<and> pa_picked_by p = Some d then Inr (no_outcome\<lparr>po_noop := True\<rparr>, db)
          else if lo_from lo = StAssigned then Inl ErrStopNotArrived
          else if lo_from lo \<noteq> StAtPickup then Inl ErrBadTransition
          else if pa_arrived p = None then Inl ErrStopNotArrived
          else bindE (hand_over d stop lo p name db) (\<lambda>(out, db).
               bindE (stopsDoneFollowTx env lo d db) (\<lambda>(f, db). Inr (no_outcome\<lparr>po_follow := f, po_settled := out\<rparr>, db)))))"

definition StopPickup :: "env \<Rightarrow> user_id \<Rightarrow> string \<Rightarrow> string \<Rightarrow> 'a engine_db_scheme \<Rightarrow> err + part_outcome \<times> 'a engine_db_scheme" where
  "StopPickup env d ord stop db = bindE (normStop stop) (\<lambda>stop. partAction env ord (stop_pickup env d stop) db)"

section \<open>The office\<close>

definition drop_stops ::
  "env \<Rightarrow> user_id \<Rightarrow> role list \<Rightarrow> string \<Rightarrow> locked_order \<Rightarrow> 'a engine_db_scheme \<Rightarrow> err + part_outcome \<times> 'a engine_db_scheme" where
  "drop_stops env actor roles reason lo db =
    (if lo_from lo \<noteq> StAssigned \<and> lo_from lo \<noteq> StAtPickup then Inl ErrBadTransition
     else bindE (goodsInHandTx db (lo_id lo)) (\<lambda>inHand.
          if \<not> inHand then Inl ErrBadTransition
          else let todo = map pa_merchant (sort_key pa_seq [p \<leftarrow> parts_of db (lo_id lo). pa_status p = PartPending \<or> pa_status p = PartAccepted])
               in if todo = [] then Inr (no_outcome\<lparr>po_noop := True\<rparr>, db)
                  else bindE (foldE (\<lambda>m. removePartTx env \<lparr>rr_store = m, rr_actor = actor, rr_roles = roles, rr_reason = reason,
                                rr_fault = FaultPlatform, rr_transfer = False\<rparr>) todo ((lo, no_outcome), db)) (\<lambda>((lo, out), db).
                       if po_follow out \<noteq> None then Inr (out, db)
                       else bindE (stopsDoneFollowTx env lo actor db) (\<lambda>(f, db). Inr (out\<lparr>po_follow := f\<rparr>, db)))))"

definition DropRemainingStops ::
  "env \<Rightarrow> user_id \<Rightarrow> role list \<Rightarrow> string \<Rightarrow> string \<Rightarrow> 'a engine_db_scheme \<Rightarrow> err + part_outcome \<times> 'a engine_db_scheme" where
  "DropRemainingStops env actor roles ord reason db =
     then_dispatch env ord (partAction env ord (drop_stops env actor roles (TrimSpace reason)) db)"

definition RedispatchWithGoods ::
  "env \<Rightarrow> user_id \<Rightarrow> role list \<Rightarrow> string \<Rightarrow> string \<Rightarrow> 'a engine_db_scheme \<Rightarrow> err + 'a engine_db_scheme" where
  "RedispatchWithGoods env actor roles ord nt db =
     bindE (lockOrderTx ord db) (\<lambda>lo.
     if lo_stops lo \<le> 1 \<or> (lo_from lo \<noteq> StAssigned \<and> lo_from lo \<noteq> StAtPickup) then Inl ErrBadTransition
     else let req = request actor roles StDispatching nt\<lparr>rq_handover := True\<rparr>
          in bindE (applyTransitionTx env Inr req lo db) (\<lambda>(ap, db). Inr (afterTransition env (ap, req) db)))"

definition removePart ::
  "env \<Rightarrow> user_id \<Rightarrow> role list \<Rightarrow> string \<Rightarrow> string \<Rightarrow> string \<Rightarrow> string \<Rightarrow>
     (part_removal \<Rightarrow> 'a engine_db_scheme \<Rightarrow> err + 'a engine_db_scheme) \<Rightarrow> 'a engine_db_scheme \<Rightarrow> err + part_outcome \<times> 'a engine_db_scheme" where
  "removePart env actor roles ord store reason fault hook db =
     then_dispatch env ord (partAction env ord (\<lambda>lo db.
       bindE (removePartTx env \<lparr>rr_store = store, rr_actor = actor, rr_roles = roles, rr_reason = TrimSpace reason,
                rr_fault = fault, rr_transfer = False\<rparr> ((lo, no_outcome), db)) (\<lambda>((_, out), db).
       if po_removed out = [] then Inr (out, db)
       else bindE (hook (last (po_removed out)) db) (\<lambda>db. Inr (out, db)))) db)"

definition RemovePart ::
  "env \<Rightarrow> user_id \<Rightarrow> role list \<Rightarrow> string \<Rightarrow> string \<Rightarrow> string \<Rightarrow> string \<Rightarrow> ('a engine_db_scheme \<Rightarrow> err + 'a engine_db_scheme) \<Rightarrow>
     'a engine_db_scheme \<Rightarrow> err + part_outcome \<times> 'a engine_db_scheme" where
  "RemovePart env actor roles ord store reason fault hook = removePart env actor roles ord store reason fault (\<lambda>_. hook)"

section \<open>An item is missing\<close>

definition GoodsLeftStore :: "'a settle_db_scheme \<Rightarrow> string \<Rightarrow> bool" where
  "GoodsLeftStore db ord \<longleftrightarrow>
     list_ex (\<lambda>x. o_id x = ord \<and> o_picked_up_at x \<noteq> None) (orders db) \<or>
     list_ex (\<lambda>s. st_order s = ord) (settlements db) \<or>
     list_ex (\<lambda>t. tx_ref t = ord \<and> tx_kind t \<in> {''merchant_earning'', ''merchant_cash_accrued''}) (wallet_txs db)"

definition itemUnavailableFrom :: "status \<Rightarrow> bool" where
  "itemUnavailableFrom st \<longleftrightarrow> st \<in> {StPending, StAccepted, StPreparing, StDispatching, StAssigned, StAtPickup}"

record item_result =
  ir_name :: string
  ir_qty :: int
  ir_old :: int
  ir_new :: int
  ir_refunded :: int
  ir_gone :: bool

definition itemUnavailableRemovesPart ::
  "env \<Rightarrow> user_id \<Rightarrow> string \<Rightarrow> string \<Rightarrow> item_result \<Rightarrow> (item_result \<Rightarrow> 'a engine_db_scheme \<Rightarrow> err + 'a engine_db_scheme) \<Rightarrow>
     'a engine_db_scheme \<Rightarrow> err + item_result \<times> 'a engine_db_scheme" where
  "itemUnavailableRemovesPart env actor ord store res hook db =
    (let res = res\<lparr>ir_gone := True\<rparr>;
         with = (\<lambda>m. res\<lparr>ir_old := rm_old m, ir_new := rm_new m, ir_refunded := rm_refunded m\<rparr>)
     in bindE (removePart env actor [''ops''] ord store (''item unavailable: '' @ ir_name res) FaultPlatform
                (\<lambda>r. hook (with (pr_money r))) db) (\<lambda>(out, db).
        Inr (if po_removed out = [] then res else with (pr_money (last (po_removed out))), db)))"

text \<open>The quantities left: of the whole order, and of the store's own lines that are no drinks.\<close>

definition left_all :: "order_item \<Rightarrow> bool \<Rightarrow> order_item list \<Rightarrow> int" where
  "left_all i whole is = sum_list (map oi_qty [j \<leftarrow> is. \<not> (whole \<and> oi_drink_for j = Some (oi_id i))])"

definition left_store :: "order_item \<Rightarrow> bool \<Rightarrow> string \<Rightarrow> order_item list \<Rightarrow> int" where
  "left_store i whole primary is =
     sum_list (map oi_qty [j \<leftarrow> is. item_place primary j = item_place primary i \<and>
       \<not> (whole \<and> oi_drink_for j = Some (oi_id i)) \<and> oi_drink_for j = None])"

definition take_items :: "order_item \<Rightarrow> int \<Rightarrow> 'a settle_db_scheme \<Rightarrow> 'a settle_db_scheme" where
  "take_items i removed db =
    (if removed = oi_qty i then delete_items (\<lambda>j. oi_id j = oi_id i) db
     else db\<lparr>order_items := map (\<lambda>j. if oi_id j = oi_id i then j\<lparr>oi_qty := oi_qty j - removed\<rparr> else j) (order_items db)\<rparr>)"

definition MarkItemUnavailable ::
  "env \<Rightarrow> user_id \<Rightarrow> string \<Rightarrow> string \<Rightarrow> int \<Rightarrow> (item_result \<Rightarrow> 'a engine_db_scheme \<Rightarrow> err + 'a engine_db_scheme) \<Rightarrow>
     'a engine_db_scheme \<Rightarrow> err + item_result \<times> 'a engine_db_scheme" where
  "MarkItemUnavailable env actor ord item qty hook db =
    (if \<not> en_uuid env ord \<or> \<not> en_uuid env item then Inl ErrNotFound
     else case order_of db ord of
       None \<Rightarrow> Inl ErrNotFound
     | Some x \<Rightarrow>
         if o_kind x \<noteq> KindStandard then Inl ErrItemUnavailableKind
         else if \<not> itemUnavailableFrom (o_status x) \<or> GoodsLeftStore db ord then Inl ErrItemUnavailableTooLate
         else let primary = (case o_merchant x of None \<Rightarrow> '''' | Some m \<Rightarrow> m)
              in (case find (\<lambda>i. oi_id i = item) (items_of db ord) of
                    None \<Rightarrow> Inl ErrNotFound
                  | Some i \<Rightarrow>
                      let removed = (if qty > 0 \<and> qty < oi_qty i then qty else oi_qty i); whole = (removed = oi_qty i);
                          m = item_place primary i;
                          res = \<lparr>ir_name = oi_name i, ir_qty = removed, ir_old = 0, ir_new = 0, ir_refunded = 0, ir_gone = False\<rparr>
                      in if left_all i whole (items_of db ord) - removed \<le> 0 then Inl ErrItemUnavailableLast
                         else if o_stops x > 1 \<and> partCollectedTx db ord m then Inl ErrPartCollected
                         else if o_stops x > 1 \<and> whole \<and> oi_drink_for i = None \<and>
                                 left_store i whole primary (items_of db ord) - removed \<le> 0
                         then itemUnavailableRemovesPart env actor ord m res hook db
                         else bindE (recomputeAfterRemovalTx env ord m actor (''item unavailable: '' @ oi_name i) (take_items i removed db)) (\<lambda>(rm, db).
                              let res = res\<lparr>ir_gone := rm_gone rm, ir_old := rm_old rm, ir_new := rm_new rm, ir_refunded := rm_refunded rm\<rparr>;
                                  db = add_event \<lparr>ev_order = ord, ev_from = o_status x, ev_to = o_status x, ev_actor = opt_actor actor,
                                    ev_note = ''item unavailable: '' @ oi_name i, ev_driver = o_driver x, ev_merchant = None\<rparr> db
                              in bindE (hook res db) (\<lambda>db. Inr (res, db)))))"

end
