(* ===== verification/Stop_Goods.thy ===== *)
theory Stop_Goods
  imports Part_Steps
begin

text \<open>
  The goods at the stops (\<open>StopPickup\<close>): the order is picked up exactly when the driver has the goods of every
  part that is left, and asking again changes nothing. Frames of the parts first.
\<close>

section \<open>What the parts are doing\<close>

definition parts_view :: "'a money_db_scheme \<Rightarrow> _" where
  "parts_view db = map (\<lambda>p. (pa_order p, pa_merchant p, pa_status p, pa_seq p, pa_arrived p, pa_picked_by p)) (order_parts db)"

named_theorems same_parts

lemma parts_view_work: "work_of db' = work_of db \<Longrightarrow> parts_view db' = parts_view db"
  by (simp add: work_of_def parts_view_def)

lemma parts_view_tables [same_parts]:
  "parts_view (update_order i f db) = parts_view db" "parts_view (add_event e db2) = parts_view db2"
  "parts_view (partsPrepTx ord db) = parts_view db" "parts_view (syncPartFieldsTx ord db) = parts_view db"
  "parts_view (return_promo ord c db2) = parts_view db2" "parts_view (set_code ord x db) = parts_view db"
  "parts_view (partEventTx ord st actor nt driver m db2) = parts_view db2"
  by (simp_all add: parts_view_def update_order_def add_event_def partsPrepTx_def syncPartFieldsTx_def return_promo_def
      set_code_def partEventTx_def Let_def)

lemma parts_view_late: "markMerchantLateCancel ord actor driver db = Inr db' \<Longrightarrow> parts_view db' = parts_view db"
  by (auto simp: markMerchantLateCancel_def Let_def branches parts_view_def add_event_def)

lemma parts_view_issue: "issueDeliveryCode env ord k c db = Inr (rt, db') \<Longrightarrow> parts_view db' = parts_view db"
  by (auto simp: issueDeliveryCode_def Let_def branches same_parts)

lemma parts_view_write:
  assumes "write_move lo req to nt by_role db = Inr db'" and "to \<noteq> StDispatching"
  shows "parts_view db' = parts_view db"
  using assms by (auto simp: write_move_def Let_def branches same_parts stopsAfterTransitionTx_def dest!: parts_view_late)

lemma list_ex_map: "list_ex P (map f xs) \<longleftrightarrow> list_ex (\<lambda>x. P (f x)) xs"
  by (induction xs) auto

lemma stops_done_view:
  "stops_done db ord d = (let ts = filter (\<lambda>t. fst t = ord) (parts_view db) in
     list_ex (\<lambda>(_, _, st, _). st = PartPending \<or> st = PartAccepted \<or> st = PartPickedUp) ts \<and>
     \<not> list_ex (\<lambda>(_, _, st, _, _, b). st = PartPending \<or> st = PartAccepted \<or> st = PartPickedUp \<and> b \<noteq> Some d) ts)"
  by (simp add: stops_done_def parts_of_def parts_view_def part_live_def list_ex_map filter_map comp_def Let_def disj_commute disj_left_commute)

text \<open>A move that parts ask for leaves them as they are, and the order where it was asked to go.\<close>

lemma part_move_made:
  fixes db :: "'a engine_db_scheme"
  assumes "part_move env (parts_request actor roles to nt) lo db = Inr (f, db')"
    and "to \<noteq> StDispatching" and "to \<noteq> StFailed"
    and "statuses_of db (lo_id lo) = Some (lo_kind lo, lo_from lo)"
  obtains ap where "f = Some (ap, parts_request actor roles to nt)" "ap_to ap = to" "ap_lo ap = lo" "has_edge (lo_kind lo) (lo_from lo) to"
    "parts_view db' = parts_view db" "statuses_of db' = (statuses_of db)(lo_id lo \<mapsto> (lo_kind lo, to))"
proof -
  let ?req = "parts_request actor roles to nt"
  obtain ap where ap: "applyTransitionTx env Inr ?req lo db = Inr (ap, db')" and f: "f = Some (ap, ?req)"
    using assms(1) by (auto simp: part_move_def branches)
  have to: "rq_to ?req = to" "rq_from_parts ?req" by (simp_all add: parts_request_def request_def)
  have ap_to: "ap_to ap = to" "ap_lo ap = lo" using ap unfolding applyTransitionTx_def part_gate_def Let_def by (auto simp: to branches)
  have edge: "has_edge (lo_kind lo) (lo_from lo) to" using canTransition_has_edge[OF applied_admitted[OF ap]] ap_to by simp
  have "parts_view db' = parts_view db"
    using ap assms(2,3) unfolding applyTransitionTx_def part_gate_def Let_def
    by (auto simp: to branches dest!: parts_view_write parts_view_issue work_settle[THEN parts_view_work])
  moreover have "statuses_of db' = (statuses_of db)(lo_id lo \<mapsto> (lo_kind lo, to))"
    using ap assms(4) keeps_work_Inr by (cases rule: applied_steps) (use ap_to assms(3) in auto)
  ultimately show ?thesis using that f ap_to edge by blast
qed

section \<open>Taking the goods of one store\<close>

text \<open>The parts once the driver has the goods of one of them.\<close>

definition taken :: "string \<Rightarrow> string \<Rightarrow> user_id \<Rightarrow> 'a money_db_scheme \<Rightarrow> _" where
  "taken ord m d db = map (\<lambda>(i, n, st, q, a, b). if i = ord \<and> n = m then (i, n, PartPickedUp, q, a, Some d) else (i, n, st, q, a, b)) (parts_view db)"

lemma taken_view: "parts_view db' = parts_view db \<Longrightarrow> taken ord m d db' = taken ord m d db"
  by (simp add: taken_def)

lemma taken_now:
  "parts_view (update_parts (\<lambda>q. pa_order q = ord \<and> pa_merchant q = m)
     (\<lambda>q. q\<lparr>pa_status := PartPickedUp, pa_picked_at := t, pa_picked_by := Some d\<rparr>) db) = taken ord m d db"
  by (simp add: parts_view_def taken_def update_parts_def)

lemma taken_over:
  assumes "\<forall>q\<in>set (order_parts db). pa_order q = ord \<and> pa_merchant q = m \<longrightarrow> pa_status q = PartPickedUp"
  shows "parts_view (update_parts (\<lambda>q. pa_order q = ord \<and> pa_merchant q = m) (\<lambda>q. q\<lparr>pa_picked_by := Some d\<rparr>) db) = taken ord m d db"
  using assms by (auto simp: parts_view_def taken_def update_parts_def)

lemma stop_of:
  assumes "lockStopTx env ord m db = Inr (p, name)"
  shows "p \<in> set (parts_of db ord)" "pa_merchant p = m" "pa_order p = ord" "p \<in> set (order_parts db)"
proof -
  have "find (\<lambda>p. pa_merchant p = m \<and> merchant_of db m \<noteq> None) (parts_of db ord) = Some p"
    using assms by (auto simp: lockStopTx_def branches)
  then have "p \<in> set (parts_of db ord) \<and> pa_merchant p = m" by (auto simp: find_Some_iff)
  then show "p \<in> set (parts_of db ord)" "pa_merchant p = m" "pa_order p = ord" "p \<in> set (order_parts db)"
    by (auto simp: parts_of_def)
qed

lemma hand_over_made:
  fixes db :: "'a engine_db_scheme"
  assumes "hand_over d m lo p name db = Inr (so, db1)" and "lockStopTx env (lo_id lo) m db = Inr (p, name)"
    and "distinct (map pa_merchant (parts_of db (lo_id lo)))"
  shows "parts_view db1 = taken (lo_id lo) m d db \<and> statuses_of db1 = statuses_of db \<and> pa_status p \<in> {PartAccepted, PartPickedUp}"
proof (cases "pa_status p = PartPickedUp")
  case True
  have key: "q = p" if "q \<in> set (order_parts db)" "pa_order q = lo_id lo" "pa_merchant q = m" for q
    using assms(3) stop_of[OF assms(2)] that by (auto simp: parts_of_def distinct_map dest: inj_onD)
  then have "\<forall>q\<in>set (order_parts db). pa_order q = lo_id lo \<and> pa_merchant q = m \<longrightarrow> pa_status q = PartPickedUp"
    using True by blast
  from taken_over[OF this] True assms(1) show ?thesis by (auto simp: hand_over_def same_parts partEventTx_def same_status)
next
  case False
  with assms(1) obtain dm dt where s: "settleMerchantFor (lo_id lo) d (lo_driver lo) m (no_report, db) = Inr (so, dm)"
      "creditTreasury (lo_id lo) d dm = Inr dt"
    and db1: "db1 = partEventTx (lo_id lo) (lo_from lo) d (''took the goods of '' @ name) (lo_driver lo) m
       (update_parts (\<lambda>q. pa_order q = lo_id lo \<and> pa_merchant q = m)
          (\<lambda>q. q\<lparr>pa_status := PartPickedUp, pa_picked_at := Some (db_now dt), pa_picked_by := Some d\<rparr>) dt)"
    and acc: "pa_status p = PartAccepted"
    by (auto simp: hand_over_def bindE_eq_Inr split: if_split_asm)
  have w: "work_of dt = work_of db" using work_settleMerchantFor[OF s(1)] work_treasury[OF s(2)] by simp
  show ?thesis unfolding db1 using acc
    by (simp add: same_parts taken_now taken_view[OF parts_view_work[OF w]] partEventTx_def same_status statuses_of_work[OF w])
qed

text \<open>What one pickup makes of the parts and of the order.\<close>

lemma stop_pickup_made:
  fixes db :: "'a engine_db_scheme"
  assumes "stop_pickup env d m lo db = Inr (out, db')" and "\<not> po_noop out"
    and "distinct (map pa_merchant (parts_of db (lo_id lo)))" and "statuses_of db (lo_id lo) = Some (lo_kind lo, lo_from lo)"
  obtains p name db1 where "lockStopTx env (lo_id lo) m db = Inr (p, name)" "pa_arrived p \<noteq> None" "pa_status p \<in> {PartAccepted, PartPickedUp}"
    "lo_driver lo = Some d" "lo_from lo = StAtPickup" "parts_view (db1 :: 'a engine_db_scheme) = taken (lo_id lo) m d db"
    "parts_view db' = taken (lo_id lo) m d db"
    "\<not> stops_done db1 (lo_id lo) d \<Longrightarrow> po_follow out = None \<and> statuses_of db' = statuses_of db"
    "stops_done db1 (lo_id lo) d \<Longrightarrow> \<exists>ap. po_follow out = Some (ap, parts_request d [''driver''] StPickedUp '''') \<and> ap_to ap = StPickedUp \<and>
       ap_lo ap = lo \<and> statuses_of db' = (statuses_of db)(lo_id lo \<mapsto> (lo_kind lo, StPickedUp))"
proof -
  obtain p name so db1 f where p: "lockStopTx env (lo_id lo) m db = Inr (p, name)" and d: "lo_driver lo = Some d"
    and st: "lo_from lo = StAtPickup" "pa_arrived p \<noteq> None" and one: "hand_over d m lo p name db = Inr (so, db1)"
    and two: "stopsDoneFollowTx env lo d db1 = Inr (f, db')" "out = no_outcome\<lparr>po_follow := f, po_settled := so\<rparr>"
    using assms(1,2) unfolding stop_pickup_def holds_def
    by (auto simp: bindE_eq_Inr no_outcome_def split: if_split_asm)
  note view = hand_over_made[OF one p assms(3)]
  then have s1: "statuses_of db1 (lo_id lo) = Some (lo_kind lo, lo_from lo)" using assms(4) by simp
  show ?thesis
  proof (cases "stops_done db1 (lo_id lo) d")
    case True
    with two(1) d st have m: "part_move env (parts_request d [''driver''] StPickedUp '''') lo db1 = Inr (f, db')"
      by (simp add: stopsDoneFollowTx_def)
    obtain ap where "f = Some (ap, parts_request d [''driver''] StPickedUp '''')" "ap_to ap = StPickedUp" "ap_lo ap = lo"
        "parts_view db' = parts_view db1" "statuses_of db' = (statuses_of db1)(lo_id lo \<mapsto> (lo_kind lo, StPickedUp))"
      by (rule part_move_made[OF m _ _ s1]) simp_all
    with True view p d st two(2) show ?thesis by (intro that[of p name db1]) auto
  next
    case False
    with two(1) d st have "f = None" "db' = db1" by (auto simp: stopsDoneFollowTx_def)
    with False view p d st two(2) show ?thesis by (intro that[of p name db1]) auto
  qed
qed

lemma stops_done_taken:
  assumes "parts_view db1 = taken ord m d db" and "p \<in> set (parts_of db ord)" and "pa_merchant p = m"
  shows "stops_done db1 ord d \<longleftrightarrow> (\<forall>q\<in>set (parts_of db ord). pa_merchant q \<noteq> m \<longrightarrow>
    pa_status q \<noteq> PartPending \<and> pa_status q \<noteq> PartAccepted \<and> (pa_status q = PartPickedUp \<longrightarrow> pa_picked_by q = Some d))"
proof -
  let ?g = "\<lambda>q. if pa_order q = ord \<and> pa_merchant q = m then q\<lparr>pa_status := PartPickedUp, pa_picked_at := None, pa_picked_by := Some d\<rparr> else q"
  let ?d = "db\<lparr>order_parts := map ?g (order_parts db)\<rparr>"
  have "parts_view ?d = taken ord m d db" by (simp add: parts_view_def taken_def)
  then have e: "stops_done db1 ord d = stops_done ?d ord d" using assms(1) by (simp add: stops_done_view)
  have same: "pa_order (?g q) = pa_order q" for q by simp
  have ps: "parts_of ?d ord = map ?g (parts_of db ord)" by (simp add: parts_of_def filter_map comp_def same del: if_split)
  have ne: "PartPickedUp \<noteq> PartPending" "PartPickedUp \<noteq> PartAccepted" by (simp_all add: part_status_defs)
  have own: "pa_order q = ord" if "q \<in> set (parts_of db ord)" for q using that by (simp add: parts_of_def)
  have "part_live (?g p)" using assms(2,3) own by (simp add: part_live_def)
  then have live: "list_ex (\<lambda>p. pa_status p = PartPending \<or> part_live p) (parts_of ?d ord)"
    unfolding ps list_ex_map unfolding list_ex_iff by (rule bexI[OF disjI2 assms(2)])
  have "list_ex (\<lambda>p. pa_status p = PartPending \<or> pa_status p = PartAccepted \<or> pa_status p = PartPickedUp \<and> pa_picked_by p \<noteq> Some d) (parts_of ?d ord) \<longleftrightarrow>
      (\<exists>q\<in>set (parts_of db ord). pa_merchant q \<noteq> m \<and> (pa_status q = PartPending \<or> pa_status q = PartAccepted \<or>
         pa_status q = PartPickedUp \<and> pa_picked_by q \<noteq> Some d))"
    unfolding ps list_ex_map unfolding list_ex_iff using own ne by (intro bex_cong) auto
  then show ?thesis unfolding e by (simp only: stops_done_def live simp_thms) blast
qed

section \<open>Properties\<close>

lemma sync_view [same_parts]: "parts_view (syncPartFieldsTx ord db) = parts_view db"
  by (rule same_parts)

lemma picked_up_alone: "ap_to ap = StPickedUp \<Longrightarrow> afterTransition env (ap, req) db = db"
  by (simp add: afterTransition_def offer_after_def follow_up_def autoPreparing_def autoDispatch_def)

text \<open>A pickup that did something, from the lock to the commit.\<close>

lemma StopPickup_made:
  fixes db :: "'a engine_db_scheme"
  assumes "StopPickup env d ord stop db = Inr (out, db')" and "\<not> po_noop out" and "normStop stop = Inr m"
    and "distinct (map pa_merchant (parts_of db ord))"
  obtains lo p db1 where "lockOrderTx ord db = Inr lo" "lo_from lo = StAtPickup" "p \<in> set (parts_of db ord)" "pa_merchant p = m"
    "pa_arrived p \<noteq> None" "pa_status p \<in> {PartAccepted, PartPickedUp}" "parts_view (db1 :: 'a engine_db_scheme) = taken ord m d db"
    "parts_view db' = taken ord m d db"
    "statuses_of db' = (if stops_done db1 ord d then (statuses_of db)(ord \<mapsto> (lo_kind lo, StPickedUp)) else statuses_of db)"
proof -
  obtain lo d1 where lo: "lockOrderTx ord db = Inr lo" and act: "stop_pickup env d m lo db = Inr (out, d1)"
    and db': "db' = (case po_follow out of None \<Rightarrow> syncPartFieldsTx ord d1 | Some f \<Rightarrow> afterTransition env f (syncPartFieldsTx ord d1))"
    using assms(1-3) by (auto simp: StopPickup_def partAction_def bindE_eq_Inr Let_def split: if_split_asm)
  note l = lock_status[OF lo]
  obtain p name db1 where r: "lockStopTx env (lo_id lo) m db = Inr (p, name)" "pa_arrived p \<noteq> None" "pa_status p \<in> {PartAccepted, PartPickedUp}"
    "lo_driver lo = Some d" "lo_from lo = StAtPickup" "parts_view (db1 :: 'a engine_db_scheme) = taken (lo_id lo) m d db"
    "parts_view d1 = taken (lo_id lo) m d db"
    "\<not> stops_done db1 (lo_id lo) d \<Longrightarrow> po_follow out = None \<and> statuses_of d1 = statuses_of db"
    "stops_done db1 (lo_id lo) d \<Longrightarrow> \<exists>ap. po_follow out = Some (ap, parts_request d [''driver''] StPickedUp '''') \<and> ap_to ap = StPickedUp \<and>
       ap_lo ap = lo \<and> statuses_of d1 = (statuses_of db)(lo_id lo \<mapsto> (lo_kind lo, StPickedUp))"
    using stop_pickup_made[OF act assms(2)] assms(4) l by metis
  have "db' = syncPartFieldsTx ord d1" using db' r(8,9) picked_up_alone by (cases "stops_done db1 (lo_id lo) d") auto
  then show ?thesis using r stop_of[OF r(1)] l by (intro that[of lo p db1]) (auto simp: lo same_parts same_status)
qed

text \<open>
  C34. The goods of an order of several stores: a driver's pickup at a store he has arrived at, whose part is
  accepted or held by another driver, moves the order to picked up exactly when no other part waits, is accepted
  or is in other hands; otherwise no order changes its status.
\<close>

theorem goods_of_all_stops:
  fixes db :: "'a engine_db_scheme"
  assumes "StopPickup env d ord stop db = Inr (out, db')" and "\<not> po_noop out" and "normStop stop = Inr m"
    and "distinct (map pa_merchant (parts_of db ord))"
  shows "\<exists>k. statuses_of db ord = Some (k, StAtPickup) \<and>
    (\<exists>p\<in>set (parts_of db ord). pa_merchant p = m \<and> pa_arrived p \<noteq> None \<and> (pa_status p = PartAccepted \<or> pa_status p = PartPickedUp)) \<and>
    statuses_of db' = (if \<forall>q\<in>set (parts_of db ord). pa_merchant q \<noteq> m \<longrightarrow>
        pa_status q \<noteq> PartPending \<and> pa_status q \<noteq> PartAccepted \<and> (pa_status q = PartPickedUp \<longrightarrow> pa_picked_by q = Some d)
      then (statuses_of db)(ord \<mapsto> (k, StPickedUp)) else statuses_of db)"
proof -
  obtain lo p and db1 :: "'a engine_db_scheme" where r: "lockOrderTx ord db = Inr lo" "lo_from lo = StAtPickup" "p \<in> set (parts_of db ord)" "pa_merchant p = m"
    "pa_arrived p \<noteq> None" "pa_status p \<in> {PartAccepted, PartPickedUp}" "parts_view db1 = taken ord m d db"
    "statuses_of db' = (if stops_done db1 ord d then (statuses_of db)(ord \<mapsto> (lo_kind lo, StPickedUp)) else statuses_of db)"
    using StopPickup_made[OF assms] by metis
  from r(8) have "statuses_of db' = (if \<forall>q\<in>set (parts_of db ord). pa_merchant q \<noteq> m \<longrightarrow>
        pa_status q \<noteq> PartPending \<and> pa_status q \<noteq> PartAccepted \<and> (pa_status q = PartPickedUp \<longrightarrow> pa_picked_by q = Some d)
      then (statuses_of db)(ord \<mapsto> (lo_kind lo, StPickedUp)) else statuses_of db)"
    unfolding stops_done_taken[OF r(7,3,4)] .
  moreover have "statuses_of db ord = Some (lo_kind lo, StAtPickup)" using lock_status(2)[OF r(1)] r(2) by simp
  ultimately show ?thesis using r(3-6) by blast
qed

text \<open>
  The goods of a store are taken once: asked again by the driver who has them, a pickup that returns changes
  nothing at all, so the store is not paid twice.
\<close>

theorem goods_taken_once:
  assumes "StopPickup env d ord stop db = Inr (out, db')" and "distinct (map pa_merchant (parts_of db ord))"
    and "StopPickup env d ord stop db' = Inr (out2, db2)"
  shows "po_noop out2 \<and> db2 = db'"
proof -
  obtain m where m: "normStop stop = Inr m" using assms(1) by (auto simp: StopPickup_def bindE_eq_Inr)
  show ?thesis
  proof (cases "po_noop out")
    case True
    then have "db' = db" using assms(1) m
      by (auto simp: StopPickup_def partAction_def stop_pickup_def bindE_eq_Inr Let_def no_outcome_def split: if_split_asm)
    with True assms(1,3) show ?thesis by simp
  next
    case False
    obtain p where p: "p \<in> set (parts_of db ord)" "pa_merchant p = m" and v: "parts_view db' = taken ord m d db"
      using StopPickup_made[OF assms(1) False m assms(2)] by metis
    have have_it: "pa_status q = PartPickedUp \<and> pa_picked_by q = Some d" if "lockStopTx env ord m db' = Inr (q, name)" for q name
    proof -
      have "(ord, m, pa_status q, pa_seq q, pa_arrived q, pa_picked_by q) \<in> set (parts_view db')"
        using stop_of[OF that] by (force simp: parts_view_def)
      then show ?thesis unfolding v taken_def by (auto split: if_split_asm)
    qed
    have ne: "PartPickedUp \<noteq> PartRemoved" "PartPickedUp \<noteq> PartRejected" by (simp_all add: part_status_defs)
    obtain lo d2 where lo: "lo_id lo = ord" and act: "stop_pickup env d m lo db' = Inr (out2, d2)"
      and db2: "db2 = (let db = (if po_noop out2 then d2 else syncPartFieldsTx ord d2)
          in case po_follow out2 of None \<Rightarrow> db | Some f \<Rightarrow> afterTransition env f db)"
      using assms(3) by (auto simp: StopPickup_def m partAction_def bindE_eq_Inr Let_def dest!: lock_status(1) split: if_split_asm)
    obtain q name where q: "lockStopTx env ord m db' = Inr (q, name)"
      using act lo by (auto simp: stop_pickup_def bindE_eq_Inr split: if_split_asm)
    have "out2 = no_outcome\<lparr>po_noop := True\<rparr> \<and> d2 = db'"
      using act q have_it[OF q] lo by (auto simp: stop_pickup_def bindE_eq_Inr ne split: if_split_asm)
    then show ?thesis by (simp add: db2 no_outcome_def)
  qed
qed

text \<open>An order of two stores, with the goods of one in the hand of the driver, who stands at the other.\<close>

definition example_store :: string where
  "example_store = ''aaaaaaaa-aaaa-aaaa-aaaa-aaaaaaaaaaaa''"

definition example_stops_db :: engine_db where
  "example_stops_db = money_db.extend (example_held_db\<lparr>orders := [example_order\<lparr>o_status := StAtPickup, o_stops := 2\<rparr>],
       merchants := map (\<lambda>m. m\<lparr>m_id := example_store\<rparr>) (take 1 (merchants example_held_db)),
       wallets := wallets example_stores_db,
       order_items := map (\<lambda>i. i\<lparr>oi_merchant := Some example_store\<rparr>) (order_items example_stores_db),
       settlements := [], reversals := [], next_uuid := 0,
       order_parts := [(new_part ''o1'' example_store 1)\<lparr>pa_status := PartAccepted, pa_arrived := Some 1\<rparr>,
         (new_part ''o1'' ''n'' 2)\<lparr>pa_status := PartPickedUp, pa_picked_by := Some ''d''\<rparr>]\<rparr>)
     \<lparr>order_events = [], promo_codes = [], promo_redemptions = [], late_warnings = [], campaigns = [], menu_items = [], delivery_zones = []\<rparr>"

lemma example_pickup:
  obtains out db where "StopPickup example_env ''d'' ''o1'' example_store example_stops_db = Inr (out, db)" "\<not> po_noop out"
    "length (settlements db) = 1"
proof -
  have "case StopPickup example_env ''d'' ''o1'' example_store example_stops_db of
      Inl _ \<Rightarrow> False | Inr (out, db) \<Rightarrow> \<not> po_noop out \<and> length (settlements db) = 1" by code_simp
  then show ?thesis using that by (auto split: sum.splits)
qed

lemma goods_of_all_stops_witness:
  "\<exists>out db. StopPickup example_env ''d'' ''o1'' example_store example_stops_db = Inr (out, db) \<and>
     length (settlements db) = 1 \<and> statuses_of db ''o1'' = Some (KindStandard, StPickedUp)"
proof -
  obtain out db where r: "StopPickup example_env ''d'' ''o1'' example_store example_stops_db = Inr (out, db)" "\<not> po_noop out"
    "length (settlements db) = 1" by (rule example_pickup)
  have "normStop example_store = Inr example_store" "distinct (map pa_merchant (parts_of example_stops_db ''o1''))"
    "statuses_of example_stops_db ''o1'' = Some (KindStandard, StAtPickup)"
    "\<forall>q\<in>set (parts_of example_stops_db ''o1''). pa_merchant q \<noteq> example_store \<longrightarrow>
        pa_status q \<noteq> PartPending \<and> pa_status q \<noteq> PartAccepted \<and> (pa_status q = PartPickedUp \<longrightarrow> pa_picked_by q = Some ''d'')"
    by code_simp+
  with goods_of_all_stops[OF r(1,2)] have "statuses_of db ''o1'' = Some (KindStandard, StPickedUp)" by auto
  with r show ?thesis by blast
qed

lemma goods_taken_once_witness:
  "\<exists>out db out2. StopPickup example_env ''d'' ''o1'' example_store example_stops_db = Inr (out, db) \<and> \<not> po_noop out \<and>
     StopPickup example_env ''d'' ''o1'' example_store db = Inr (out2, db) \<and> length (settlements db) = 1"
proof -
  let ?p = "StopPickup example_env ''d'' ''o1'' example_store"
  obtain out db where r: "?p example_stops_db = Inr (out, db)" "\<not> po_noop out" "length (settlements db) = 1"
    by (rule example_pickup)
  have "case ?p example_stops_db of Inl _ \<Rightarrow> False | Inr (_, db) \<Rightarrow> (case ?p db of Inl _ \<Rightarrow> False | Inr _ \<Rightarrow> True)" by code_simp
  then obtain out2 db2 where r2: "?p db = Inr (out2, db2)" using r(1) by (auto split: sum.splits)
  have "distinct (map pa_merchant (parts_of example_stops_db ''o1''))" by code_simp
  from goods_taken_once[OF r(1) this r2] r2 r show ?thesis by auto
qed

end
