(* ===== verification/Part_Answers.thy ===== *)
theory Part_Answers
  imports Stop_Goods
begin

text \<open>
  Stores that accept their parts (\<open>AnswerParts\<close>): the order is accepted, and goes on by itself, exactly when no other
  store still has to answer.
\<close>

section \<open>What follows an answer\<close>

lemma Transition_machine_path: "Transition env actor roles ord to nt db = Inr db' \<Longrightarrow> \<exists>ss. machine_path ord (statuses_of db) ss (statuses_of db')"
  using Transition_first[of env actor roles ord to nt db db'] Transition_path[of env actor roles ord to nt db db'] by blast

lemma afterTransition_path:
  assumes "statuses_of db ord = Some (k, s)" and "lo_id (ap_lo ap) = ord"
  shows "\<exists>ss. machine_path ord (statuses_of db) ss (statuses_of (afterTransition env (ap, req) db))"
proof -
  let ?d = "offer_after env ap db"
  obtain ss where ss: "machine_path ord (statuses_of db) ss (statuses_of ?d)"
    using offer_after_path[of db ap k s env] assms by auto
  have "\<exists>ts. machine_path ord (statuses_of ?d) ts (statuses_of d')"
    if "Transition env actor roles ord to nt ?d = Inr d'" for actor roles to nt d'
    using Transition_machine_path[OF that] .
  then show ?thesis
    using ss machine_path_trans[OF ss] assms(2)
    by (auto simp: afterTransition_def Let_def split: option.split sum.split prod.split) blast+
qed

lemma maybe_dispatch_path:
  assumes "statuses_of db ord = Some (k, s)"
  shows "\<exists>ss. machine_path ord (statuses_of db) ss (statuses_of (maybeDispatchParts env ord db))"
    "s = StPending \<Longrightarrow> maybeDispatchParts env ord db = db"
  using assms machine_path_refl[where v = "statuses_of db", OF assms(1)] Transition_machine_path
  by (auto simp: maybeDispatchParts_def statuses_of_def split: option.split sum.split) blast+

section \<open>The parts that still wait\<close>

text \<open>Stores that were locked are rows of the order, all of them.\<close>

lemma lock_parts_all:
  assumes "lockPartsTx ord stores owner db = Inr got"
  shows "set (map fst got) = set stores" "\<forall>(m, st)\<in>set got. \<exists>p\<in>set (parts_of db ord). pa_merchant p = m \<and> pa_status p = st"
    "\<forall>p\<in>set (parts_of db ord). pa_merchant p \<in> set stores \<longrightarrow> merchant_of db (pa_merchant p) \<noteq> None \<and> (pa_merchant p, pa_status p) \<in> set got"
proof -
  let ?got = "[p \<leftarrow> parts_of db ord. pa_merchant p \<in> set stores \<and> merchant_of db (pa_merchant p) \<noteq> None]"
  have g: "got = map (\<lambda>p. (pa_merchant p, pa_status p)) ?got" and c: "card (set (map pa_merchant ?got)) = card (set stores)"
    using assms by (auto simp: lockPartsTx_def Let_def split: if_split_asm)
  have "set (map pa_merchant ?got) \<subseteq> set stores" by auto
  then have all: "set (map pa_merchant ?got) = set stores" by (rule card_subset_eq[OF finite_set _ c])
  then show "set (map fst got) = set stores" by (simp add: g comp_def)
  show "\<forall>(m, st)\<in>set got. \<exists>p\<in>set (parts_of db ord). pa_merchant p = m \<and> pa_status p = st" by (auto simp: g)
  have "merchant_of db m \<noteq> None" if "m \<in> set stores" for m
  proof -
    have "m \<in> set (map pa_merchant ?got)" unfolding all by (rule that)
    then show ?thesis by auto
  qed
  then show "\<forall>p\<in>set (parts_of db ord). pa_merchant p \<in> set stores \<longrightarrow> merchant_of db (pa_merchant p) \<noteq> None \<and> (pa_merchant p, pa_status p) \<in> set got"
    by (auto simp: g)
qed

text \<open>The parts after an acceptance: those asked for are accepted, the others as they were.\<close>

lemma answer_parts_of:
  fixes db :: "'a engine_db_scheme"
  shows "order_parts (snd (answerPartsTx lo stores actor r True prep reason [PartPending] db)) =
    map (\<lambda>p. if pa_order p = lo_id lo \<and> merchant_of db (pa_merchant p) \<noteq> None \<and> pa_status p = PartPending \<and>
                (stores = [] \<or> pa_merchant p \<in> set stores)
             then p\<lparr>pa_status := PartAccepted, pa_answered := Some (db_now db), pa_answered_by := opt_actor actor, pa_role := r,
               pa_prep := Some (answer_prep prep (case merchant_of db (pa_merchant p) of None \<Rightarrow> None | Some m \<Rightarrow> m_prep m))\<rparr> else p) (order_parts db)"
proof -
  have ev: "order_parts (foldl (\<lambda>d (m, name). partEventTx i st actor (t name) dr m d) d refs) = order_parts d" for i st t dr refs and d :: "'a engine_db_scheme"
    by (induction refs arbitrary: d) (auto simp: partEventTx_def add_event_def)
  show ?thesis unfolding answerPartsTx_def Let_def snd_conv ev by (simp add: update_parts_def)
qed

lemma pending_after:
  fixes db :: "'a engine_db_scheme"
  assumes "lockPartsTx (lo_id lo) stores owner db = Inr got" and "parts_todo PartAccepted got = Inr todo" and "todo \<noteq> []"
    and "answerPartsTx lo todo actor r True prep reason [PartPending] db = (refs, db1)"
  shows "fst (partCountsTx db1 (lo_id lo)) > 0 \<longleftrightarrow> (\<exists>p\<in>set (parts_of db (lo_id lo)). pa_status p = PartPending \<and> pa_merchant p \<notin> set stores)"
    "snd (partCountsTx db1 (lo_id lo)) > 0"
proof -
  note g = lock_parts_all[OF assms(1)]
  have todo: "todo = map fst [g \<leftarrow> got. snd g \<noteq> PartAccepted]" and only: "\<forall>(m, st)\<in>set got. st = PartAccepted \<or> st = PartPending"
    using assms(2) by (auto simp: parts_todo_def list_ex_iff split: if_split_asm)
  let ?hit = "\<lambda>p. merchant_of db (pa_merchant p) \<noteq> None \<and> pa_status p = PartPending \<and> pa_merchant p \<in> set todo"
  have parts: "order_parts db1 = map (\<lambda>p. if pa_order p = lo_id lo \<and> ?hit p then p\<lparr>pa_status := PartAccepted, pa_answered := Some (db_now db),
      pa_answered_by := opt_actor actor, pa_role := r, pa_prep := Some (answer_prep prep (case merchant_of db (pa_merchant p) of None \<Rightarrow> None | Some m \<Rightarrow> m_prep m))\<rparr> else p)
      (order_parts db)"
    using answer_parts_of[of lo todo actor r prep reason db] assms(3,4) by simp
  have ne: "PartAccepted \<noteq> PartPending" by (simp add: part_status_defs)
  have hit: "?hit p \<longleftrightarrow> pa_merchant p \<in> set stores" if "p \<in> set (parts_of db (lo_id lo))" "pa_status p = PartPending" for p
  proof -
    have "pa_merchant p \<in> set stores" if "pa_merchant p \<in> set todo" using that g(1) by (auto simp: todo)
    moreover have "?hit p" if s: "pa_merchant p \<in> set stores"
    proof -
      have "merchant_of db (pa_merchant p) \<noteq> None \<and> (pa_merchant p, PartPending) \<in> set got"
        using g(3) s \<open>p \<in> set (parts_of db (lo_id lo))\<close> \<open>pa_status p = PartPending\<close> by metis
      then show ?thesis using \<open>pa_status p = PartPending\<close> ne by (force simp: todo)
    qed
    ultimately show ?thesis by blast
  qed
  have "fst (partCountsTx db1 (lo_id lo)) > 0 \<longleftrightarrow> (\<exists>p\<in>set (order_parts db1). pa_order p = lo_id lo \<and> pa_status p = PartPending)"
    by (auto simp: partCountsTx_def parts_of_def filter_empty_conv length_greater_0_conv simp del: length_0_conv)
  also have "\<dots> \<longleftrightarrow> (\<exists>p\<in>set (parts_of db (lo_id lo)). pa_status p = PartPending \<and> \<not> ?hit p)"
    unfolding parts using ne by (auto simp: parts_of_def)
  also have "\<dots> \<longleftrightarrow> (\<exists>p\<in>set (parts_of db (lo_id lo)). pa_status p = PartPending \<and> pa_merchant p \<notin> set stores)"
    using hit by blast
  finally show "fst (partCountsTx db1 (lo_id lo)) > 0 \<longleftrightarrow> (\<exists>p\<in>set (parts_of db (lo_id lo)). pa_status p = PartPending \<and> pa_merchant p \<notin> set stores)" .
  obtain m st where "(m, st) \<in> set got" "st \<noteq> PartAccepted" using assms(3) by (auto simp: todo filter_empty_conv)
  then obtain p where p: "p \<in> set (parts_of db (lo_id lo))" "pa_merchant p = m" "pa_status p = PartPending" "m \<in> set stores"
    using g(1,2) only by force
  then have "?hit p" using hit by blast
  with p(1) have "p\<lparr>pa_status := PartAccepted, pa_answered := Some (db_now db),
      pa_answered_by := opt_actor actor, pa_role := r, pa_prep := Some (answer_prep prep (case merchant_of db (pa_merchant p) of None \<Rightarrow> None | Some m \<Rightarrow> m_prep m))\<rparr>
      \<in> set (order_parts db1)" unfolding parts by (auto simp: parts_of_def image_iff intro!: bexI[of _ p])
  then have "\<exists>q\<in>set (order_parts db1). pa_order q = lo_id lo \<and> part_live q"
    by (rule bexI[rotated]) (use p(1) in \<open>simp add: parts_of_def part_live_def\<close>)
  then show "snd (partCountsTx db1 (lo_id lo)) > 0"
    by (auto simp: partCountsTx_def parts_of_def filter_empty_conv)
qed

section \<open>The order after the answer\<close>

lemma answer_parts_made:
  fixes db :: "'a engine_db_scheme"
  assumes "answer_parts env actor roles stores True prep reason lo db = Inr (out, db')" and "\<not> po_noop out"
    and "statuses_of db (lo_id lo) = Some (lo_kind lo, lo_from lo)"
  obtains "lo_from lo = StPending" "\<exists>p\<in>set (parts_of db (lo_id lo)). pa_status p = PartPending \<and> pa_merchant p \<notin> set stores"
      "po_follow out = None" "statuses_of db' = statuses_of db"
    | ap req where "lo_from lo = StPending" "\<not> (\<exists>p\<in>set (parts_of db (lo_id lo)). pa_status p = PartPending \<and> pa_merchant p \<notin> set stores)"
      "po_follow out = Some (ap, req)" "ap_lo ap = lo" "has_edge (lo_kind lo) StPending StAccepted"
      "statuses_of db' = (statuses_of db)(lo_id lo \<mapsto> (lo_kind lo, StAccepted))"
proof -
  let ?r = "authorizingRole (lo_kind lo) StPending StAccepted (rolesUnderMode (self_manage env) StPending StAccepted roles (lo_driver lo \<noteq> None))"
  obtain got todo where l: "lockPartsTx (lo_id lo) stores (if ?r = ''merchant'' then actor else '''') db = Inr got" "parts_todo PartAccepted got = Inr todo"
      "todo \<noteq> []" and from_st: "lo_from lo = StPending"
    and m: "(let (refs, db) = answerPartsTx lo todo actor (partRole actor ?r) True prep reason [PartPending] db
       in bindE (partsFollowUpTx env lo db) (\<lambda>(f, db). Inr (no_outcome\<lparr>po_accepted := refs, po_follow := f\<rparr>, db))) = Inr (out, db')"
    using assms(1,2) unfolding answer_parts_def Let_def by (auto simp: bindE_eq_Inr no_outcome_def split: if_split_asm)
  obtain refs d1 where a: "answerPartsTx lo todo actor (partRole actor ?r) True prep reason [PartPending] db = (refs, d1)" by fastforce
  with m obtain f where f: "partsFollowUpTx env lo d1 = Inr (f, db')" "po_follow out = f" by (auto simp: bindE_eq_Inr)
  have s1: "statuses_of d1 = statuses_of db" using statuses_answer(1)[of lo todo actor "partRole actor ?r" True prep reason "[PartPending]" db] a by simp
  note c = pending_after[OF l a]
  show ?thesis
  proof (cases "fst (partCountsTx d1 (lo_id lo)) > 0")
    case True
    then have "f = None" "db' = d1" using f(1) from_st by (auto simp: partsFollowUpTx_def split: prod.split_asm)
    with True c(1) f(2) s1 from_st show ?thesis by (intro that(1)) simp_all
  next
    case False
    then have "part_move env (parts_request '''' [''ops''] StAccepted partsAnsweredNote) lo d1 = Inr (f, db')"
      using f(1) from_st c(2) by (auto simp: partsFollowUpTx_def split: prod.split_asm)
    then obtain ap where "f = Some (ap, parts_request '''' [''ops''] StAccepted partsAnsweredNote)" "ap_lo ap = lo"
        "has_edge (lo_kind lo) (lo_from lo) StAccepted" "statuses_of db' = (statuses_of d1)(lo_id lo \<mapsto> (lo_kind lo, StAccepted))"
      by (rule part_move_made) (simp_all add: s1 assms(3))
    with False c(1) f(2) s1 from_st show ?thesis by (intro that(2)) simp_all
  qed
qed

text \<open>
  C35. Stores that accept: an answer that changes something finds the order pending; while another store still has
  to answer no order moves, and with the last answer the order is accepted and may go on by itself, each move
  a step of the machine, and no other order moves.
\<close>

theorem last_answer_accepts:
  fixes db :: "'a engine_db_scheme"
  assumes "AnswerParts env actor roles ord stores True prep reason db = Inr (out, db')" and "\<not> po_noop out"
  shows "\<exists>k. statuses_of db ord = Some (k, StPending) \<and>
    (if \<exists>p\<in>set (parts_of db ord). pa_status p = PartPending \<and> pa_merchant p \<notin> set stores
     then statuses_of db' = statuses_of db
     else \<exists>ss. successively (machine_step k) (StPending # StAccepted # ss) \<and>
       statuses_of db' = (statuses_of db)(ord \<mapsto> (k, last (StAccepted # ss))))"
proof -
  let ?wait = "\<exists>p\<in>set (parts_of db ord). pa_status p = PartPending \<and> pa_merchant p \<notin> set stores"
  obtain lo d1 d2 where lo: "lockOrderTx ord db = Inr lo" and act: "answer_parts env actor roles stores True prep (TrimSpace reason) lo db = Inr (out, d1)"
    and d2: "d2 = (case po_follow out of None \<Rightarrow> syncPartFieldsTx ord d1 | Some f \<Rightarrow> afterTransition env f (syncPartFieldsTx ord d1))"
    and db': "db' = maybeDispatchParts env ord d2"
    using assms by (auto simp: AnswerParts_def then_dispatch_def partAction_def bindE_eq_Inr Let_def split: if_split_asm)
  have i: "lo_id lo = ord" and st: "statuses_of db ord = Some (lo_kind lo, lo_from lo)" using lock_status[OF lo] by simp_all
  have st1: "statuses_of db (lo_id lo) = Some (lo_kind lo, lo_from lo)" using i st by simp
  show ?thesis
  proof (rule answer_parts_made[OF act assms(2) st1])
    assume w: "lo_from lo = StPending" "\<exists>p\<in>set (parts_of db (lo_id lo)). pa_status p = PartPending \<and> pa_merchant p \<notin> set stores"
      "po_follow out = None" "statuses_of d1 = statuses_of db"
    then have "statuses_of d2 = statuses_of db" by (simp add: d2 same_status)
    moreover from this have "db' = d2" using maybe_dispatch_path(2)[of d2 ord] st w(1) by (simp add: db')
    ultimately show ?thesis using st w(1,2) i by simp
  next
    fix ap req
    assume m: "lo_from lo = StPending" "\<not> (\<exists>p\<in>set (parts_of db (lo_id lo)). pa_status p = PartPending \<and> pa_merchant p \<notin> set stores)"
      "po_follow out = Some (ap, req)" "ap_lo ap = lo" "has_edge (lo_kind lo) StPending StAccepted"
      "statuses_of d1 = (statuses_of db)(lo_id lo \<mapsto> (lo_kind lo, StAccepted))"
    let ?d = "syncPartFieldsTx ord d1"
    have s: "statuses_of ?d = (statuses_of db)(ord \<mapsto> (lo_kind lo, StAccepted))" using m(6) i by (simp add: same_status)
    then have sd: "statuses_of ?d ord = Some (lo_kind lo, StAccepted)" by simp
    obtain ss where ss: "machine_path ord (statuses_of ?d) ss (statuses_of d2)"
      using afterTransition_path[OF sd, of ap env req] m(3,4) i by (auto simp: d2)
    then obtain k2 s2 where "statuses_of d2 ord = Some (k2, s2)" by (auto simp: machine_path_def)
    then obtain ts where "machine_path ord (statuses_of d2) ts (statuses_of db')" using maybe_dispatch_path(1) db' by blast
    then have "machine_path ord (statuses_of ?d) (ss @ ts) (statuses_of db')" using machine_path_trans[OF ss] by blast
    then have "machine_path ord (statuses_of db) ([StAccepted] @ ss @ ts) (statuses_of db')"
      using machine_path_trans machine_path_step[OF m(5), of "statuses_of db" ord] st m(1) s by metis
    then show ?thesis using st m(1,2) i by (auto simp: machine_path_def)
  qed
qed

text \<open>One store has said no, the other says yes.\<close>

definition example_answers_db :: engine_db where
  "example_answers_db = example_stops_db\<lparr>orders := [example_order\<lparr>o_status := StPending, o_stops := 2\<rparr>],
     order_parts := [new_part ''o1'' example_store 1, (new_part ''o1'' ''n'' 2)\<lparr>pa_status := PartRejected\<rparr>]\<rparr>"

lemma last_answer_accepts_witness:
  "\<exists>out db. AnswerParts example_env ''a'' [''merchant''] ''o1'' [example_store] True (Some 900) '''' example_answers_db = Inr (out, db) \<and>
     map pa_prep (order_parts db) = [Some 600, None] \<and> hd (map ev_to (tl (order_events db))) = StAccepted \<and>
     (\<exists>ss. successively (machine_step KindStandard) (StPending # StAccepted # ss) \<and>
        statuses_of db ''o1'' = Some (KindStandard, last (StAccepted # ss)))"
proof -
  let ?r = "AnswerParts example_env ''a'' [''merchant''] ''o1'' [example_store] True (Some 900) '''' example_answers_db"
  have "case ?r of Inl _ \<Rightarrow> False | Inr (out, db) \<Rightarrow> \<not> po_noop out \<and> map pa_prep (order_parts db) = [Some 600, None] \<and>
      hd (map ev_to (tl (order_events db))) = StAccepted" by code_simp
  then obtain out db where r: "?r = Inr (out, db)" "\<not> po_noop out" "map pa_prep (order_parts db) = [Some 600, None]"
      "hd (map ev_to (tl (order_events db))) = StAccepted"
    by (auto split: sum.splits)
  have s: "statuses_of example_answers_db ''o1'' = Some (KindStandard, StPending)"
    and n: "(\<exists>p\<in>set (parts_of example_answers_db ''o1''). pa_status p = PartPending \<and> pa_merchant p \<notin> set [example_store]) = False"
    by code_simp+
  obtain ss where "successively (machine_step KindStandard) (StPending # StAccepted # ss)"
      "statuses_of db = (statuses_of example_answers_db)(''o1'' \<mapsto> (KindStandard, last (StAccepted # ss)))"
    using last_answer_accepts[OF r(1,2)] unfolding n if_False s by blast
  then have "\<exists>ss. successively (machine_step KindStandard) (StPending # StAccepted # ss) \<and>
      statuses_of db ''o1'' = Some (KindStandard, last (StAccepted # ss))" by (intro exI[of _ ss] conjI) simp_all
  with r(1,3,4) show ?thesis by (intro exI[of _ out] exI[of _ db] conjI)
qed

end
