(* ===== verification/Missing_Item.thy ===== *)
theory Missing_Item
  imports Part_Steps
begin

text \<open>
  What an item found missing leaves of an order of one store (\<open>MarkItemUnavailable\<close>): its lines, their
  quantities and its money.
\<close>

section \<open>The lines\<close>

lemma sum_list_split:
  "sum_list (map f [x \<leftarrow> xs. P x]) = sum_list (map f [x \<leftarrow> xs. P x \<and> Q x]) + sum_list (map f [x \<leftarrow> xs. P x \<and> \<not> Q x])"
  for f :: "'a \<Rightarrow> int"
  by (induction xs) auto

lemma filter_key: "distinct (map k xs) \<Longrightarrow> x \<in> set xs \<Longrightarrow> [y \<leftarrow> xs. k y = k x] = [x]"
proof (induction xs)
  case (Cons z xs)
  show ?case
  proof (cases "z = x")
    case True
    then have "[y \<leftarrow> xs. k y = k x] = []" using Cons.prems(1) by (auto simp: filter_empty_conv) (metis image_eqI)
    with True show ?thesis by simp
  next
    case False
    then have "x \<in> set xs" "k z \<noteq> k x" using Cons.prems by auto
    with Cons show ?thesis by simp
  qed
qed simp

lemma items_of_take:
  "items_of (take_items i removed db) ord =
    (if removed = oi_qty i then [j \<leftarrow> items_of db ord. oi_id j \<noteq> oi_id i \<and> \<not> (\<exists>k\<in>set (order_items db). oi_id k = oi_id i \<and> oi_drink_for j = Some (oi_id k))]
     else map (\<lambda>j. if oi_id j = oi_id i then j\<lparr>oi_qty := oi_qty j - removed\<rparr> else j) (items_of db ord))"
proof -
  have "oi_order (if c then j\<lparr>oi_qty := q\<rparr> else j) = oi_order j" for c j q by simp
  then show ?thesis
    by (auto simp: take_items_def delete_items_def items_of_def filter_map comp_def Let_def intro!: filter_cong split: option.splits)
qed

text \<open>What is left of the goods: never nothing.\<close>

lemma goods_left:
  assumes "i \<in> set is" and "distinct (map oi_id is)" and "0 < oi_qty i"
    and "left_all i (removed = oi_qty i) is - removed > 0"
  shows "0 < sum_list (map oi_qty (if removed = oi_qty i
      then [j \<leftarrow> is. oi_id j \<noteq> oi_id i \<and> oi_drink_for j \<noteq> Some (oi_id i)]
      else map (\<lambda>j. if oi_id j = oi_id i then j\<lparr>oi_qty := oi_qty j - removed\<rparr> else j) is))"
proof (cases "removed = oi_qty i")
  case True
  have one: "[j \<leftarrow> is. oi_id j = oi_id i] = [i]" by (rule filter_key[OF assms(2,1)])
  have "[j \<leftarrow> is. oi_drink_for j \<noteq> Some (oi_id i) \<and> \<not> oi_id j \<noteq> oi_id i] = [j \<leftarrow> [j \<leftarrow> is. oi_id j = oi_id i]. oi_drink_for j \<noteq> Some (oi_id i)]"
    by (auto intro: filter_cong)
  then have "sum_list (map oi_qty [j \<leftarrow> is. oi_drink_for j \<noteq> Some (oi_id i) \<and> \<not> oi_id j \<noteq> oi_id i]) \<in> {0, oi_qty i}" by (simp add: one)
  then show ?thesis using assms(3,4) True sum_list_split[of oi_qty "\<lambda>j. oi_drink_for j \<noteq> Some (oi_id i)" "is" "\<lambda>j. oi_id j \<noteq> oi_id i"]
    by (auto simp: left_all_def conj_commute)
next
  case False
  have "sum_list (map oi_qty (map (\<lambda>j. if oi_id j = oi_id i then j\<lparr>oi_qty := oi_qty j - removed\<rparr> else j) is)) =
      sum_list (map oi_qty is) - removed * int (length [j \<leftarrow> is. oi_id j = oi_id i])" for "is" :: "order_item list"
    by (induction "is") (auto simp: algebra_simps)
  then show ?thesis using assms(4) False filter_key[OF assms(2,1)] by (simp add: left_all_def)
qed

text \<open>The recount leaves the lines and the statuses alone.\<close>

lemma recount_items:
  fixes db :: "'a engine_db_scheme"
  assumes "recomputeAfterRemovalTx env ord m actor nt db = Inr (rm, db')"
  shows "order_items db' = order_items db \<and> statuses_of db' = statuses_of db"
proof -
  have post: "order_items d' = order_items d \<and> orders d' = orders d"
    if "ApplyTx u a k r n b d = Inr (s, d')" for u a k r n b s and d d' :: "'a engine_db_scheme"
    using that by (auto simp: ApplyTx_def bindE_eq_Inr dest!: applyTx_frame)
  have re: "order_items d' = order_items d \<and> orders d' = orders d" if "recount_money x sub rc d = (rn, d')" for x sub rc rn and d d' :: "'a engine_db_scheme"
    using that by (auto simp: recount_money_def freeDeliveryReapply_def Let_def split: prod.split_asm option.split_asm if_split_asm)
  have keep: "order_items (update_order i f d) = order_items d" for i f and d :: "'a engine_db_scheme"
    by (simp add: update_order_def)
  obtain x sub rc where q: "(case recount_money x sub rc db of (rn, db) \<Rightarrow> pay_recount x actor nt sub rc rn db) = Inr (rm, db')"
    using assms unfolding recomputeAfterRemovalTx_def case_option_Inr bindE_eq_Inr Let_def by blast
  obtain rn d1 where r: "recount_money x sub rc db = (rn, d1)" and p: "pay_recount x actor nt sub rc rn d1 = Inr (rm, db')"
    using q by (cases "recount_money x sub rc db") auto
  define paid where "paid = min (o_wallet_paid x) (rn_total rn)"
  define diff where "diff = wrap64 (o_wallet_paid x - paid)"
  let ?row = "\<lambda>y. y\<lparr>o_subtotal := sub, o_delivery_fee := rn_fee rn, o_discount := rn_discount rn,
      o_total := rn_total rn, o_wallet_paid := paid, o_cash_due := wrap64 (rn_total rn - paid), o_promo_waived := rn_waived rn,
      o_sources_fee := rc_sources_fee rc, o_driver_fee := rc_driver_fee rc, o_merchant := Some (rc_merchant rc)\<rparr>"
  obtain d2 where pd: "(if diff > 0 then bindE (ApplyTx (o_customer x) diff ''refund'' (o_id x) nt (Some actor) d1) (\<lambda>(_, db). Inr db)
      else Inr d1) = Inr d2" and db': "db' = update_order (o_id x) ?row d2"
    using p unfolding pay_recount_def Let_def paid_def[symmetric] diff_def[symmetric] bindE_eq_Inr by (auto split: if_split_asm)
  from pd have "order_items d2 = order_items d1 \<and> orders d2 = orders d1" by (auto simp: bindE_eq_Inr split: if_split_asm dest: post)
  then have d2: "order_items d2 = order_items db" "orders d2 = orders db" using re[OF r] by simp_all
  have "statuses_of db' = statuses_of d2" unfolding db' by (rule statuses_update_same) simp
  also have "\<dots> = statuses_of db" by (rule statuses_of_orders[OF d2(2)])
  finally show ?thesis using d2(1) by (simp add: db' keep)
qed

section \<open>The order after it\<close>

text \<open>A hook that leaves orders, lines and wallets alone, as that of a handler that writes its audit entry.\<close>

definition keeps_desk :: "(item_result \<Rightarrow> 'a engine_db_scheme \<Rightarrow> err + 'a engine_db_scheme) \<Rightarrow> bool" where
  "keeps_desk hook \<longleftrightarrow> (\<forall>r d d'. hook r d = Inr d' \<longrightarrow> orders d' = orders d \<and> order_items d' = order_items d \<and> wallets d' = wallets d)"

lemma take_items_frame [simp]:
  "orders (take_items i removed db) = orders db" "wallets (take_items i removed db) = wallets db"
  by (simp_all add: take_items_def delete_items_def Let_def)

lemma MarkItemUnavailable_made:
  fixes db :: "'a engine_db_scheme"
  assumes "MarkItemUnavailable env actor ord item qty hook db = Inr (res, db')" and "order_of db ord = Some x" and "o_stops x \<le> 1"
    and "keeps_desk hook"
  obtains i removed rm d where "i \<in> set (items_of db ord)" "oi_id i = item" "removed = (if qty > 0 \<and> qty < oi_qty i then qty else oi_qty i)"
    "left_all i (removed = oi_qty i) (items_of db ord) - removed > 0" "itemUnavailableFrom (o_status x)" "\<not> GoodsLeftStore db ord"
    "recomputeAfterRemovalTx env ord (item_place (case o_merchant x of None \<Rightarrow> '''' | Some m \<Rightarrow> m) i) actor (''item unavailable: '' @ oi_name i)
       (take_items i removed db) = Inr (rm, d :: 'a engine_db_scheme)"
    "ir_new res = rm_new rm" "ir_qty res = removed" "orders db' = orders d" "order_items db' = order_items d" "wallets db' = wallets d"
proof -
  let ?m = "item_place (case o_merchant x of None \<Rightarrow> '''' | Some m \<Rightarrow> m)"
  obtain i where i: "find (\<lambda>i. oi_id i = item) (items_of db ord) = Some i" and g: "itemUnavailableFrom (o_status x)" "\<not> GoodsLeftStore db ord"
    using assms(1,2) by (auto simp: MarkItemUnavailable_def Let_def split: if_split_asm option.split_asm)
  define removed where "removed = (if qty > 0 \<and> qty < oi_qty i then qty else oi_qty i)"
  have u: "\<not> (\<not> en_uuid env ord \<or> \<not> en_uuid env item)" "o_kind x = KindStandard" "\<not> o_stops x > 1"
    using assms(1-3) by (auto simp: MarkItemUnavailable_def split: if_split_asm)
  obtain rm d where left: "left_all i (removed = oi_qty i) (items_of db ord) - removed > 0"
    and r: "recomputeAfterRemovalTx env ord (?m i) actor (''item unavailable: '' @ oi_name i) (take_items i removed db) = Inr (rm, d)"
    and h: "hook (\<lparr>ir_name = oi_name i, ir_qty = removed, ir_old = rm_old rm, ir_new = rm_new rm, ir_refunded = rm_refunded rm, ir_gone = rm_gone rm\<rparr>)
       (add_event \<lparr>ev_order = ord, ev_from = o_status x, ev_to = o_status x, ev_actor = opt_actor actor,
          ev_note = ''item unavailable: '' @ oi_name i, ev_driver = o_driver x, ev_merchant = None\<rparr> d) = Inr db'"
    and res: "ir_new res = rm_new rm" "ir_qty res = removed"
    using assms(1) u g unfolding MarkItemUnavailable_def assms(2) i option.case Let_def removed_def[symmetric]
    by (auto simp: bindE_eq_Inr split: if_split_asm)
  from h assms(4) have "orders db' = orders d" "order_items db' = order_items d" "wallets db' = wallets d"
    by (auto simp: keeps_desk_def add_event_def)
  with left r res g i show ?thesis by (intro that[of i removed rm d]) (auto simp: removed_def dest: find_Some_set)
qed

text \<open>
  C33. An item found missing in an order of one store: only before its goods leave the store, exactly the missing
  quantity leaves its line (the quantity asked for when it is at least one and less than the line's, the whole line otherwise,
  and then the drinks that came with it too), something is always left, what
  is paid by wallet and by cash is the new total, the customer's wallet gets back exactly what it paid too much and
  nobody else's moves, and no order changes its status.
\<close>

theorem missing_item_exact:
  fixes db :: "'a engine_db_scheme"
  assumes "MarkItemUnavailable env actor ord item qty hook db = Inr (res, db')" and "order_of db ord = Some x" and "o_stops x \<le> 1"
    and "keeps_desk hook" and "distinct (map oi_id (items_of db ord))" and "\<forall>i\<in>set (items_of db ord). 0 < oi_qty i"
    and "0 \<le> o_total x" and "in64 (o_total x)" and "in64 (o_wallet_paid x)"
  shows "\<exists>i y. i \<in> set (items_of db ord) \<and> oi_id i = item \<and> ir_qty res = (if 1 \<le> qty \<and> qty < oi_qty i then qty else oi_qty i) \<and>
    o_picked_up_at x = None \<and>
    items_of db' ord = (if ir_qty res = oi_qty i then [j \<leftarrow> items_of db ord. oi_id j \<noteq> item \<and> oi_drink_for j \<noteq> Some item]
      else map (\<lambda>j. if oi_id j = item then j\<lparr>oi_qty := oi_qty j - ir_qty res\<rparr> else j) (items_of db ord)) \<and>
    0 < sum_list (map oi_qty (items_of db' ord)) \<and>
    order_of db' ord = Some y \<and> o_total y = ir_new res \<and> o_wallet_paid y + o_cash_due y = o_total y \<and>
    Balance db' c = Balance db c + (if c = o_customer x then o_wallet_paid x - o_wallet_paid y else 0) \<and>
    statuses_of db' = statuses_of db"
proof -
  obtain i removed rm and d :: "'a engine_db_scheme" where i: "i \<in> set (items_of db ord)" "oi_id i = item"
    and q: "removed = (if qty > 0 \<and> qty < oi_qty i then qty else oi_qty i)"
    and left: "left_all i (removed = oi_qty i) (items_of db ord) - removed > 0" and g: "\<not> GoodsLeftStore db ord"
    and r: "recomputeAfterRemovalTx env ord (item_place (case o_merchant x of None \<Rightarrow> '''' | Some m \<Rightarrow> m) i) actor
       (''item unavailable: '' @ oi_name i) (take_items i removed db) = Inr (rm, d)"
    and e: "ir_new res = rm_new rm" "ir_qty res = removed" "orders db' = orders d" "order_items db' = order_items d" "wallets db' = wallets d"
    by (rule MarkItemUnavailable_made[OF assms(1-4)])
  have o: "order_of (take_items i removed db) ord = Some x" using assms(2) by (simp add: order_of_def)
  obtain y where y: "order_of d ord = Some y" "o_total y = rm_new rm" "o_wallet_paid y + o_cash_due y = o_total y"
    "Balance d c = Balance (take_items i removed db) c + (if c = o_customer x then o_wallet_paid x - o_wallet_paid y else 0)"
    using removal_money[OF r o assms(7-9), of c] by blast
  have own: "\<exists>k\<in>set (order_items db). oi_id k = oi_id i" using i(1) by (auto simp: items_of_def)
  note lines = recount_items[OF r]
  have items: "items_of db' ord = (if ir_qty res = oi_qty i then [j \<leftarrow> items_of db ord. oi_id j \<noteq> item \<and> oi_drink_for j \<noteq> Some item]
      else map (\<lambda>j. if oi_id j = item then j\<lparr>oi_qty := oi_qty j - ir_qty res\<rparr> else j) (items_of db ord))"
    using lines items_of_take[of i removed db ord] own e(2,4) i(2) by (auto simp: items_of_def)
  moreover have "0 < sum_list (map oi_qty (items_of db' ord))"
    unfolding items e(2) i(2)[symmetric] by (rule goods_left[OF i(1) assms(5) _ left]) (use assms(6) i(1) in blast)
  moreover have "statuses_of db' = statuses_of db"
    using lines statuses_of_orders[OF e(3)] statuses_of_orders[of "take_items i removed db" db] by simp
  moreover have "Balance db' c = Balance db c + (if c = o_customer x then o_wallet_paid x - o_wallet_paid y else 0)"
    using y(4) e(5) by (simp add: Balance_def wallet_of_def)
  moreover have "order_of db' ord = Some y" using y(1) e(3) by (simp add: order_of_def)
  moreover have "o_picked_up_at x = None"
    using g order_of_Some[OF assms(2)] by (auto simp: GoodsLeftStore_def list_ex_iff)
  moreover have "ir_qty res = (if 1 \<le> qty \<and> qty < oi_qty i then qty else oi_qty i)" using e(2) q by simp
  ultimately show ?thesis using i y(2,3) e(1) by (intro exI[of _ i] exI[of _ y]) (simp only: simp_thms)
qed

definition example_missing_db :: engine_db where
  "example_missing_db = example_removal_db (\<lambda>x. x\<lparr>o_status := StAccepted, o_total := 1500, o_wallet_paid := 1300, o_cash_due := 200\<rparr>)
     \<lparr>settlements := []\<rparr>"

lemma missing_item_exact_witness:
  "\<exists>res db y. MarkItemUnavailable example_plain_env ''u'' ''o1'' ''i1'' 1 (\<lambda>_. Inr) example_missing_db = Inr (res, db) \<and>
     ir_qty res = 1 \<and> order_of db ''o1'' = Some y \<and> o_total y = ir_new res \<and> o_wallet_paid y + o_cash_due y = o_total y \<and>
     map oi_qty (items_of db ''o1'') = [1]"
proof -
  let ?f = "\<lambda>x. x\<lparr>o_status := StAccepted, o_total := 1500, o_wallet_paid := 1300, o_cash_due := 200\<rparr>"
  let ?r = "MarkItemUnavailable example_plain_env ''u'' ''o1'' ''i1'' 1 (\<lambda>_. Inr) example_missing_db"
  have "case ?r of Inl _ \<Rightarrow> False | Inr (res, db) \<Rightarrow> ir_qty res = 1 \<and> map oi_qty (items_of db ''o1'') = [1]" by code_simp
  then obtain res db where r: "?r = Inr (res, db)" "ir_qty res = 1" "map oi_qty (items_of db ''o1'') = [1]" by (auto split: sum.splits)
  have x: "order_of example_missing_db ''o1'' = Some (?f example_order)" "o_stops (?f example_order) \<le> 1"
    "distinct (map oi_id (items_of example_missing_db ''o1''))" "\<forall>i\<in>set (items_of example_missing_db ''o1''). 0 < oi_qty i"
    "0 \<le> o_total (?f example_order)" "in64 (o_total (?f example_order))" "in64 (o_wallet_paid (?f example_order))"
    by code_simp+
  have h: "keeps_desk (\<lambda>_. Inr :: engine_db \<Rightarrow> err + engine_db)" by (simp add: keeps_desk_def)
  obtain y where "order_of db ''o1'' = Some y" "o_total y = ir_new res" "o_wallet_paid y + o_cash_due y = o_total y"
    using missing_item_exact[OF r(1) x(1,2) h x(3-7), of "''a''"] by (elim exE conjE) (rule that)
  with r show ?thesis by (intro exI[of _ res] exI[of _ db] exI[of _ y] conjI)
qed

end
