(* ===== verification/Turns.thy ===== *)
theory Turns
  imports Moves
begin

text \<open>
  Whose turn it is: the driver the queries of the rotation pick is one that may take the order, the guard of the
  assignment admits him, and nobody who may take it comes before him.
\<close>

section \<open>Sorting by two keys\<close>

lemma sorted_insort_pair:
  fixes f :: "'a \<Rightarrow> 'b::linorder" and g :: "'a \<Rightarrow> 'c::linorder"
  assumes "sorted (map (\<lambda>x. (f x, g x)) ys)" and "\<forall>y\<in>set ys. g x \<le> g y"
  shows "sorted (map (\<lambda>x. (f x, g x)) (insort_key f x ys))"
  using assms
proof (induction ys)
  case (Cons y ys)
  then show ?case by (auto simp: set_insort_key less_eq_prod_def)
qed simp

lemma sorted_sort_pair:
  fixes f :: "'a \<Rightarrow> 'b::linorder" and g :: "'a \<Rightarrow> 'c::linorder"
  assumes "sorted (map g xs)"
  shows "sorted (map (\<lambda>x. (f x, g x)) (sort_key f xs))"
  using assms
proof (induction xs)
  case (Cons x xs)
  then have "\<forall>y\<in>set (sort_key f xs). g x \<le> g y" by simp
  with Cons show ?case by (auto intro!: sorted_insort_pair)
qed simp

text \<open>The key of a turn: over the quota of the customer, the bucket of the distance, the last assignment, the shift, the id.\<close>

definition turn_key :: "user \<Rightarrow> int option \<times> (bool \<times> int option) \<times> nat list" where
  "turn_key u = (u_last_assigned u, (u_shift_started u = None, u_shift_started u), text_key (u_id u))"

lemma sorted_by_turn: "sorted (map (\<lambda>a. turn_key (f a)) (by_turn f xs))"
  using sorted_sort_pair[where f = "\<lambda>a. u_last_assigned (f a)" and g = "\<lambda>a. ((u_shift_started (f a) = None, u_shift_started (f a)), text_key (u_id (f a)))",
      OF sorted_sort_pair[where f = "\<lambda>a. (u_shift_started (f a) = None, u_shift_started (f a))" and g = "\<lambda>a. text_key (u_id (f a))", OF sorted_sort_key]]
  by (simp add: by_turn_def turn_key_def)

lemma set_by_turn [simp]: "set (by_turn f xs) = set xs"
  by (simp add: by_turn_def)

lemma first_user_sorted:
  fixes h :: "'a \<Rightarrow> 'b::linorder"
  assumes "first_user (map f xs) = Inr d" and "sorted (map h xs)"
  shows "\<exists>a\<in>set xs. u_id (f a) = d \<and> (\<forall>b\<in>set xs. h a \<le> h b)"
  using assms by (cases xs) (auto simp: first_user_def)

section \<open>The filters of the queries and the guard\<close>

text \<open>The filter on cash is the guard on cash, for an order that collects cash.\<close>

lemma cash_fits_guard: "0 < due \<Longrightarrow> cash_fits db d due limit \<longleftrightarrow> GuardTx d due limit db = Inr ()"
  by (auto simp: cash_fits_def GuardTx_def Let_def split: option.splits)

lemma cash_fits_admits: "cash_fits db d due limit \<Longrightarrow> GuardTx d due limit db = Inr ()"
  by (auto simp: cash_fits_def GuardTx_def Let_def split: option.splits)

lemma may_be_offered_admitted:
  assumes "may_be_offered db ord skip limit maxActive u"
  shows "AdmitDriverTx box (u_id u) \<lparr>ad_cash_due = order_due db ord, ad_cash_limit = limit, ad_active_max = maxActive\<rparr> db = Inr ()"
  using assms cash_fits_admits by (auto simp: may_be_offered_def AdmitDriverTx_def)

lemma legacy_pick:
  assumes "legacyRotationCandidate env ord skip limit maxActive db = Inr d"
  shows "\<exists>u\<in>set (users db). u_id u = d \<and> may_be_offered db ord skip limit maxActive u \<and>
    (\<forall>v\<in>set (users db). may_be_offered db ord skip limit maxActive v \<longrightarrow>
       (over_cap env ord db u, turn_key u) \<le> (over_cap env ord db v, turn_key v))"
proof -
  let ?us = "[u \<leftarrow> users db. may_be_offered db ord skip limit maxActive u]"
  have "sorted (map (\<lambda>u. (over_cap env ord db u, turn_key u)) (sort_key (over_cap env ord db) (by_turn id ?us)))"
    using sorted_sort_pair[of turn_key, OF sorted_by_turn[of id, simplified]] .
  from first_user_sorted[where f = id, OF _ this] assms show ?thesis
    by (auto simp: legacyRotationCandidate_def)
qed

text \<open>Where the distance is measured from, if it is, and its bucket.\<close>

definition not_farther :: "env \<Rightarrow> point option \<Rightarrow> point \<Rightarrow> point \<Rightarrow> bool" where
  "not_farther env a q p \<longleftrightarrow> (case a of None \<Rightarrow> True | Some c \<Rightarrow> en_distance env q c \<le> en_distance env p c)"

definition near_key :: "env \<Rightarrow> string \<Rightarrow> point option \<Rightarrow> 'a orders_db_scheme \<Rightarrow> user \<times> point \<Rightarrow> bool \<times> int \<times> _" where
  "near_key env ord a db = (\<lambda>(u, p). (over_cap env ord db u,
     (case a of None \<Rightarrow> 0 | Some c \<Rightarrow> bucket_of env (settingInt env ''drivers.proximity_bucket_m'') p c), turn_key u))"

lemma near_driver:
  assumes "(u, p) \<in> set (near_drivers env ord skip limit maxActive fresh db)"
  shows "u \<in> set (users db)" "may_be_offered db ord skip limit maxActive u" "fresh_location db fresh u = Some p"
    "\<exists>x. order_of db ord = Some x \<and> (setting env ''drivers.zone_gate_enabled'' \<longrightarrow> zone_gate env x u db)"
  using assms by (cases "order_of db ord"; auto simp: near_drivers_def split: option.split_asm if_split_asm)+

lemma near_sorted:
  "sorted (map (near_key env ord a db) (sort_key (\<lambda>(u, _). over_cap env ord db u) (sort_key (\<lambda>(_, p). case a of None \<Rightarrow> 0
     | Some c \<Rightarrow> bucket_of env (settingInt env ''drivers.proximity_bucket_m'') p c) (by_turn fst xs))))"
  using sorted_sort_pair[where f = "\<lambda>(u, _). over_cap env ord db u", OF sorted_sort_pair[where f = "\<lambda>(_, p). case a of None \<Rightarrow> 0
     | Some c \<Rightarrow> bucket_of env (settingInt env ''drivers.proximity_bucket_m'') p c", OF sorted_by_turn[of fst xs]]]
  by (simp add: near_key_def split_def)

lemma proximity_pick:
  assumes "proximityInRadius env ord skip limit maxActive fresh radius (settingInt env ''drivers.proximity_bucket_m'') db = Inr d \<or>
    freshFallbackCandidate env ord skip limit maxActive fresh (settingInt env ''drivers.proximity_bucket_m'') db = Inr d"
  shows "\<exists>u p x. (u, p) \<in> set (near_drivers env ord skip limit maxActive fresh db) \<and> u_id u = d \<and> order_of db ord = Some x \<and>
    (\<forall>(v, q)\<in>set (near_drivers env ord skip limit maxActive fresh db). not_farther env (dispatch_anchor db x) q p \<longrightarrow>
       near_key env ord (dispatch_anchor db x) db (u, p) \<le> near_key env ord (dispatch_anchor db x) db (v, q))"
  using assms
proof
  let ?near = "near_drivers env ord skip limit maxActive fresh db"
  assume "proximityInRadius env ord skip limit maxActive fresh radius (settingInt env ''drivers.proximity_bucket_m'') db = Inr d"
  then obtain x a where x: "order_of db ord = Some x" "dispatch_anchor db x = Some a"
    and f: "first_user (map fst (sort_key (\<lambda>(u, _). over_cap env ord db u) (sort_key (\<lambda>(_, p). bucket_of env (settingInt env ''drivers.proximity_bucket_m'') p a)
           (by_turn fst [up \<leftarrow> ?near. en_distance env (snd up) a \<le> of_int radius])))) = Inr d"
    by (auto simp: proximityInRadius_def split: option.splits)
  from first_user_sorted[OF f near_sorted[of env ord "Some a" db, simplified option.case]] obtain u p where "(u, p) \<in> set ?near" "en_distance env p a \<le> of_int radius" "u_id u = d"
    "\<forall>vq\<in>{vq\<in>set ?near. en_distance env (snd vq) a \<le> of_int radius}. near_key env ord (Some a) db (u, p) \<le> near_key env ord (Some a) db vq"
    by auto
  then show ?thesis using x by (intro exI[of _ u] exI[of _ p] exI[of _ x]) (auto simp: not_farther_def)
next
  let ?near = "near_drivers env ord skip limit maxActive fresh db"
  assume "freshFallbackCandidate env ord skip limit maxActive fresh (settingInt env ''drivers.proximity_bucket_m'') db = Inr d"
  then obtain x where x: "order_of db ord = Some x"
    and f: "first_user (map fst (sort_key (\<lambda>(u, _). over_cap env ord db u) (sort_key (\<lambda>(_, p). case dispatch_anchor db x of None \<Rightarrow> 0
        | Some a \<Rightarrow> bucket_of env (settingInt env ''drivers.proximity_bucket_m'') p a) (by_turn fst ?near)))) = Inr d"
    by (auto simp: freshFallbackCandidate_def split: option.splits)
  from first_user_sorted[OF f near_sorted] obtain u p where "(u, p) \<in> set ?near" "u_id u = d"
    "\<forall>vq\<in>set ?near. near_key env ord (dispatch_anchor db x) db (u, p) \<le> near_key env ord (dispatch_anchor db x) db vq"
    by auto
  then show ?thesis using x by (intro exI[of _ u] exI[of _ p] exI[of _ x]) auto
qed

lemma legacy_none:
  "(\<forall>u\<in>set (users db). \<not> may_be_offered db ord skip limit maxActive u) \<longleftrightarrow> legacyRotationCandidate env ord skip limit maxActive db = Inl ErrNoRows"
  "legacyRotationCandidate env ord skip limit maxActive db = Inl e \<Longrightarrow> e = ErrNoRows"
proof -
  let ?us = "sort_key (over_cap env ord db) (by_turn id [u \<leftarrow> users db. may_be_offered db ord skip limit maxActive u])"
  have s: "set ?us = {u \<in> set (users db). may_be_offered db ord skip limit maxActive u}" by simp
  show "(\<forall>u\<in>set (users db). \<not> may_be_offered db ord skip limit maxActive u) \<longleftrightarrow> legacyRotationCandidate env ord skip limit maxActive db = Inl ErrNoRows"
    unfolding legacyRotationCandidate_def first_user_def using s by (cases ?us) auto
  show "legacyRotationCandidate env ord skip limit maxActive db = Inl e \<Longrightarrow> e = ErrNoRows"
    unfolding legacyRotationCandidate_def first_user_def by (cases ?us) auto
qed

section \<open>Properties\<close>

text \<open>
  C26. The driver the rotation picks may take the order: he is a driver on shift, active, not among those skipped, below
  the number of orders, with no other live offer, and the guard of the assignment admits him with the same limits.
  Without proximity nobody who may take it comes before him (over the quota of the customer last, then the longest
  without an assignment, the start of the shift, the identifier); with proximity his position is fresh, the zone of the
  order covers him if zones are asked, and nobody with a fresh position who is not farther comes before him.
\<close>

theorem turn_kept:
  assumes "pickRotationCandidate env ord skip limit maxActive db = (Inr d, w)"
  shows "\<exists>u\<in>set (users db). u_id u = d \<and> may_be_offered db ord skip limit maxActive u \<and> \<not> w \<and>
    AdmitDriverTx box d \<lparr>ad_cash_due = order_due db ord, ad_cash_limit = limit, ad_active_max = maxActive\<rparr> db = Inr () \<and>
    (if ProximityEnabled env
     then \<exists>p x. order_of db ord = Some x \<and> fresh_location db (settingInt env ''drivers.location_fresh_sec'') u = Some p \<and>
       (setting env ''drivers.zone_gate_enabled'' \<longrightarrow> zone_gate env x u db) \<and>
       (\<forall>(v, q)\<in>set (near_drivers env ord skip limit maxActive (settingInt env ''drivers.location_fresh_sec'') db).
          not_farther env (dispatch_anchor db x) q p \<longrightarrow>
          near_key env ord (dispatch_anchor db x) db (u, p) \<le> near_key env ord (dispatch_anchor db x) db (v, q))
     else \<forall>v\<in>set (users db). may_be_offered db ord skip limit maxActive v \<longrightarrow>
       (over_cap env ord db u, turn_key u) \<le> (over_cap env ord db v, turn_key v))"
proof (cases "ProximityEnabled env")
  case False
  then have "legacyRotationCandidate env ord skip limit maxActive db = Inr d" "\<not> w"
    using assms by (simp_all add: pickRotationCandidate_def)
  moreover from legacy_pick[OF this(1)] obtain u where "u \<in> set (users db)" "u_id u = d" "may_be_offered db ord skip limit maxActive u"
    "\<forall>v\<in>set (users db). may_be_offered db ord skip limit maxActive v \<longrightarrow> (over_cap env ord db u, turn_key u) \<le> (over_cap env ord db v, turn_key v)"
    by blast
  ultimately show ?thesis using False may_be_offered_admitted by (intro bexI[of _ u]) auto
next
  case True
  let ?fresh = "settingInt env ''drivers.location_fresh_sec''" and ?bucket = "settingInt env ''drivers.proximity_bucket_m''"
  have "(\<exists>r. proximityInRadius env ord skip limit maxActive ?fresh r ?bucket db = Inr d) \<or>
      freshFallbackCandidate env ord skip limit maxActive ?fresh ?bucket db = Inr d" and w: "\<not> w"
    using assms True unfolding pickRotationCandidate_def Let_def
    by (auto split: sum.split_asm prod.split_asm if_split_asm)
  then obtain u p x where "(u, p) \<in> set (near_drivers env ord skip limit maxActive ?fresh db)" "u_id u = d" "order_of db ord = Some x"
    "\<forall>(v, q)\<in>set (near_drivers env ord skip limit maxActive ?fresh db). not_farther env (dispatch_anchor db x) q p \<longrightarrow>
       near_key env ord (dispatch_anchor db x) db (u, p) \<le> near_key env ord (dispatch_anchor db x) db (v, q)"
    using proximity_pick by blast
  moreover note n = near_driver[OF calculation(1)]
  ultimately show ?thesis using True w may_be_offered_admitted[OF n(2)] n(1,3,4)
    by (intro bexI[of _ u]) auto
qed

text \<open>Two drivers on shift near a store, a third who is not; the offers are answered by the drivers.\<close>

definition example_driver :: "user_id \<Rightarrow> int \<Rightarrow> user" where
  "example_driver d p = \<lparr>u_id = d, u_phone = [], u_admin = False, u_deleted = False, u_created = 0, u_status = ''active'', u_driver = True,
     u_on_shift = True, u_shift_started = Some 0, u_last_assigned = Some p, u_location = Some (p, 0), u_location_at = Some 0\<rparr>"

definition example_rotation_env :: "bool \<Rightarrow> env" where
  "example_rotation_env near = example_env\<lparr>en_settings := Some \<lparr>getString = (\<lambda>_. ''rotation''),
     getInt = (\<lambda>k. if k = ''drivers.cash_limit'' then 100000 else 120), getHundredths = (\<lambda>_. 0),
     getBool = (\<lambda>k. k = ''drivers.proximity_enabled'' \<and> near)\<rparr>\<rparr>"

definition example_rotation_db :: engine_db where
  "example_rotation_db = example_engine_db StPending\<lparr>
     orders := [example_order\<lparr>o_status := StDispatching, o_driver := None, o_pickup_override := Some (0, 0), o_offer_passed := [''e'']\<rparr>],
     users := [example_driver ''d'' 500, example_driver ''e'' 50, (example_driver ''f'' 40)\<lparr>u_on_shift := False\<rparr>]\<rparr>"

lemma turn_kept_witness:
  "pickRotationCandidate (example_rotation_env True) ''o1'' [] 100000 120 example_rotation_db = (Inr ''e'', False) \<and>
   AdmitDriverTx True ''e'' \<lparr>ad_cash_due = order_due example_rotation_db ''o1'', ad_cash_limit = 100000, ad_active_max = 120\<rparr> example_rotation_db = Inr ()"
proof -
  have "pickRotationCandidate (example_rotation_env True) ''o1'' [] 100000 120 example_rotation_db = (Inr ''e'', False)" by code_simp
  from this turn_kept[OF this, of True] show ?thesis by blast
qed

text \<open>
  C27. An order that waits in the rotation, without proximity and without direct assignment, when nobody is on its
  route: it is offered to a driver who may take it and has not passed in this round, for the time of an offer; if there
  is none it is offered in a new round, which forgets who passed but not who is excluded; if there is none either the
  offer is cleared. Nothing else of the order changes, and no other order.
\<close>

theorem rotation_offers:
  assumes "order_of db ord = Some x" and "o_status x = StDispatching" and "o_driver x = None"
    and "AssignmentMode env = ''rotation''" and "\<not> ProximityEnabled env" and "\<not> setting env ''drivers.direct_assign''"
    and "SameRouteDriver env ord db = None"
  shows "let limit = settingInt env ''drivers.cash_limit''; maxActive = settingInt env ''drivers.max_active_orders'';
      may = (\<lambda>skip u. u \<in> set (users db) \<and> may_be_offered db ord skip limit maxActive u);
      until = Some (db_now db + offerTimeout env)
    in \<exists>y db'. OfferNext env ord passed db = (None, db') \<and> order_of db' ord = Some y \<and> (\<forall>j. j \<noteq> ord \<longrightarrow> order_of db' j = order_of db j) \<and>
      (if \<exists>u. may (passed @ o_excluded x) u
       then \<exists>u. may (passed @ o_excluded x) u \<and> y = x\<lparr>o_offered_driver := Some (u_id u), o_offer_expires := until\<rparr>
       else if passed \<noteq> [] \<and> (\<exists>u. may (o_excluded x) u)
       then \<exists>u. may (o_excluded x) u \<and> y = x\<lparr>o_offered_driver := Some (u_id u), o_offer_expires := until, o_offer_passed := []\<rparr>
       else y = x\<lparr>o_offered_driver := None, o_offer_expires := None\<rparr>)"
proof -
  let ?l = "settingInt env ''drivers.cash_limit''" and ?m = "settingInt env ''drivers.max_active_orders''"
  let ?leg = "\<lambda>skip. legacyRotationCandidate env ord skip ?l ?m db"
  have ex: "excludedDrivers ord db = o_excluded x" using assms(1) by (simp add: excludedDrivers_def)
  have pick: "pickRotationCandidate env ord skip ?l ?m db = (?leg skip, False)" for skip
    using assms(5) by (simp add: pickRotationCandidate_def)
  have next_: "OfferNext env ord passed db = by_rotation env ord (passed @ o_excluded x) db"
    using assms(7) by (simp add: OfferNext_def TrySameRoute_def ex Let_def)
  have d: "\<not> directAssign env" using assms(6) by (simp add: directAssign_def)
  have some: "\<exists>u. u \<in> set (users db) \<and> may_be_offered db ord skip ?l ?m u \<and> u_id u = v" if "?leg skip = Inr v" for skip v
    using legacy_pick[OF that] by blast
  have none: "(\<exists>u. u \<in> set (users db) \<and> may_be_offered db ord skip ?l ?m u) \<longleftrightarrow> (\<exists>v. ?leg skip = Inr v)" for skip
    using legacy_none(1)[of db ord skip ?l ?m env] legacy_none(2)[of env ord skip ?l ?m db] by (cases "?leg skip") auto
  let ?may = "\<lambda>skip u. u \<in> set (users db) \<and> may_be_offered db ord skip ?l ?m u" and ?until = "Some (db_now db + offerTimeout env)"
  let ?all = "passed @ o_excluded x"
  let ?good = "\<lambda>y. if \<exists>u. ?may ?all u then \<exists>u. ?may ?all u \<and> y = x\<lparr>o_offered_driver := Some (u_id u), o_offer_expires := ?until\<rparr>
      else if passed \<noteq> [] \<and> (\<exists>u. ?may (o_excluded x) u)
      then \<exists>u. ?may (o_excluded x) u \<and> y = x\<lparr>o_offered_driver := Some (u_id u), o_offer_expires := ?until, o_offer_passed := []\<rparr>
      else y = x\<lparr>o_offered_driver := None, o_offer_expires := None\<rparr>"
  have fin: ?thesis if "OfferNext env ord passed db = (None, d)" "?good y" "order_of d ord = Some y" "\<forall>j. j \<noteq> ord \<longrightarrow> order_of d j = order_of db j" for d y
    unfolding Let_def using that by blast
  show ?thesis
  proof (cases "?leg ?all")
    case (Inr v)
    then obtain u where u: "?may ?all u" "u_id u = v" using some by blast
    have "OfferNext env ord passed db = (None, snd (offer_to env ord v db))"
      using assms(4) d Inr by (simp add: next_ by_rotation_def next_candidate_def ex pick offer_to_def Let_def)
    moreover have "?good (x\<lparr>o_offered_driver := Some v, o_offer_expires := ?until\<rparr>)" using u by auto
    ultimately show ?thesis
      by (rule fin) (use assms(1-3) d in \<open>simp_all add: offer_to_def order_of_update\<close>)
  next
    case (Inl e)
    then have e: "e = ErrNoRows" and no: "\<not> (\<exists>u. ?may ?all u)" using legacy_none(2) none[of ?all] by auto
    show ?thesis
    proof (cases "passed \<noteq> [] \<and> (\<exists>v. ?leg (o_excluded x) = Inr v)")
      case True
      then obtain v where v: "?leg (o_excluded x) = Inr v" by blast
      then obtain u where u: "?may (o_excluded x) u" "u_id u = v" using some by blast
      have "OfferNext env ord passed db = (None, snd (offer_to env ord v (update_order ord (\<lambda>x. x\<lparr>o_offer_passed := []\<rparr>) db)))"
        using assms(4) d Inl e conjunct1[OF True] v by (simp add: next_ by_rotation_def next_candidate_def ex pick offer_to_def Let_def)
      moreover have "?good (x\<lparr>o_offered_driver := Some v, o_offer_expires := ?until, o_offer_passed := []\<rparr>)" using u no True by auto
      ultimately show ?thesis
        by (rule fin) (use assms(1-3) d in \<open>simp_all add: offer_to_def order_of_update\<close>)
    next
      case False
      then have "passed = [] \<or> (\<exists>e. ?leg (o_excluded x) = Inl e)" by (cases "?leg (o_excluded x)") auto
      then have "OfferNext env ord passed db = (None, clear_offer ord db)"
        using assms(4) Inl e by (auto simp: next_ by_rotation_def next_candidate_def ex pick Let_def split: sum.split)
      moreover have "\<not> (passed \<noteq> [] \<and> (\<exists>u. ?may (o_excluded x) u))" using False none[of "o_excluded x"] by metis
      then have "?good (x\<lparr>o_offered_driver := None, o_offer_expires := None\<rparr>)" unfolding if_not_P[OF no] by (simp only: if_not_P if_False)
      ultimately show ?thesis
        by (rule fin) (use assms(1) in \<open>simp_all add: clear_offer_def order_of_update\<close>)
    qed
  qed
qed

lemma rotation_offers_witness:
  "\<exists>db. OfferNext (example_rotation_env False) ''o1'' [''e''] example_rotation_db = (None, db) \<and>
     (\<exists>y. order_of db ''o1'' = Some y \<and> o_offered_driver y = Some ''d'' \<and> o_offer_passed y = [''e''])"
proof -
  let ?env = "example_rotation_env False" and ?db = "example_rotation_db"
  let ?x = "example_order\<lparr>o_status := StDispatching, o_driver := None, o_pickup_override := Some (0, 0), o_offer_passed := [''e'']\<rparr>"
  have x: "order_of ?db ''o1'' = Some ?x" "AssignmentMode ?env = ''rotation''" "\<not> ProximityEnabled ?env"
    "\<not> setting ?env ''drivers.direct_assign''" "SameRouteDriver ?env ''o1'' ?db = None" by code_simp+
  have may: "filter (may_be_offered ?db ''o1'' [''e''] (settingInt ?env ''drivers.cash_limit'') (settingInt ?env ''drivers.max_active_orders''))
      (users ?db) = [example_driver ''d'' 500]" by code_simp
  have o: "u = example_driver ''d'' 500" if "u \<in> set (users ?db)"
    "may_be_offered ?db ''o1'' [''e''] (settingInt ?env ''drivers.cash_limit'') (settingInt ?env ''drivers.max_active_orders'') u" for u
    using that arg_cong[OF may, of set] by auto
  have e: "\<exists>u. u \<in> set (users ?db) \<and> may_be_offered ?db ''o1'' [''e''] (settingInt ?env ''drivers.cash_limit'') (settingInt ?env ''drivers.max_active_orders'') u"
    using arg_cong[OF may, of set] by auto
  have "[''e''] @ o_excluded ?x = [''e'']" by code_simp
  note r = rotation_offers[OF x(1) _ _ x(2-5), of "[''e'']", unfolded this Let_def if_P[OF e]]
  from r obtain y db u where "OfferNext ?env ''o1'' [''e''] ?db = (None, db)" "order_of db ''o1'' = Some y"
      "u \<in> set (users ?db)" "may_be_offered ?db ''o1'' [''e''] (settingInt ?env ''drivers.cash_limit'') (settingInt ?env ''drivers.max_active_orders'') u"
      "y = ?x\<lparr>o_offered_driver := Some (u_id u), o_offer_expires := Some (db_now ?db + offerTimeout ?env)\<rparr>"
    by auto
  with o[of u] show ?thesis by (auto simp: example_driver_def)
qed

end
