(* ===== verification/Assign.thy ===== *)
theory Assign
  imports Turns
begin

text \<open>
  An order given to a driver: the driver who accepts it (\<open>handleDriverAccept\<close> of \<open>server/driver_handlers.go\<close>) and the
  office that assigns it (\<open>AssignDriver\<close>). Both check, write the driver in a transaction of its own, and then ask the
  engine for the move.
\<close>

section \<open>Acceptance by a driver\<close>

definition errNotOnShift :: err where "errNotOnShift = AppError ''not_on_shift''"
definition errOrderTaken :: err where "errOrderTaken = AppError ''order_taken''"
definition errCashLimitFull :: err where "errCashLimitFull = AppError ''cash_limit_reached''"
definition errDriverExcluded :: err where "errDriverExcluded = AppError ''driver_excluded''"

definition StopsOf :: "string \<Rightarrow> 'a orders_db_scheme \<Rightarrow> int" where
  "StopsOf ord db = (case order_of db ord of None \<Rightarrow> 0 | Some x \<Rightarrow> o_stops x)"

definition accept_error :: "err \<Rightarrow> err" where
  "accept_error e = (if e = ErrLimitExceed then errCashLimitFull else e)"

text \<open>The driver who is offered the order, now.\<close>

definition offered_to :: "'a wallet_db_scheme \<Rightarrow> order \<Rightarrow> user_id \<Rightarrow> bool" where
  "offered_to db x d \<longleftrightarrow> o_offered_driver x = Some d \<and> (case o_offer_expires x of None \<Rightarrow> False | Some t \<Rightarrow> t > db_now db)"

text \<open>The row an acceptance takes: free, and not offered to another.\<close>

definition may_take :: "env \<Rightarrow> order \<Rightarrow> user_id \<Rightarrow> bool" where
  "may_take env x d \<longleftrightarrow> o_driver x = None \<and> o_status x = StDispatching \<and>
     (if AssignmentMode env = ''rotation'' then o_offered_driver x = Some d else o_offered_driver x = None \<or> o_offered_driver x = Some d)"

definition in_queue :: "env \<Rightarrow> order \<Rightarrow> user \<Rightarrow> 'a engine_db_scheme \<Rightarrow> bool" where
  "in_queue env x u db \<longleftrightarrow> o_status x = StDispatching \<and> o_driver x = None \<and>
     (if ProximityEnabled env then QueueVisible env x u db else QueueBase x (u_id u)) \<and> SameCustomerGate env x u db"

text \<open>\<open>below\<close> says that the build of the application of the driver does not know stops.\<close>

definition handleDriverAccept ::
  "env \<Rightarrow> bool \<Rightarrow> user_id \<Rightarrow> string \<Rightarrow> 'a engine_db_scheme \<Rightarrow> err option \<times> 'a engine_db_scheme" where
  "handleDriverAccept env below d ord db =
    (case find (\<lambda>u. u_id u = d) (users db) of
       None \<Rightarrow> (Some ErrNoRows, db)
     | Some u \<Rightarrow>
         let offeredToMe = (case order_of db ord of None \<Rightarrow> False | Some x \<Rightarrow> offered_to db x d);
             activeMax = (if offeredToMe then -1 else settingInt env ''drivers.max_active_orders'');
             gateQueue = (\<not> offeredToMe \<and> AssignmentMode env \<noteq> ''rotation'')
         in if \<not> u_on_shift u then (Some errNotOnShift, db)
            else if below \<and> StopsOf ord db > 1 then (Some ErrStopRequired, db)
            else if d \<in> set (excludedDrivers ord db) then (Some errDriverExcluded, db)
            else (case AdmitDriverTx (en_cashbox env) d \<lparr>ad_cash_due = order_due db ord,
                     ad_cash_limit = settingInt env ''drivers.cash_limit'', ad_active_max = activeMax\<rparr> db of
                    Inl e \<Rightarrow> (Some (accept_error e), db)
                  | Inr _ \<Rightarrow> (case order_of db ord of
                      None \<Rightarrow> (Some errOrderTaken, db)
                    | Some x \<Rightarrow>
                        if gateQueue \<and> \<not> in_queue env x u db \<or> \<not> may_take env x d then (Some errOrderTaken, db)
                        else let db = update_order ord (\<lambda>x. x\<lparr>o_driver := Some d, o_offered_driver := None, o_offer_expires := None\<rparr>) db;
                                 db = update_user d (\<lambda>u. u\<lparr>u_last_assigned := Some (db_now db)\<rparr>) db
                             in (case Transition env d [''driver''] ord StAssigned '''' db of
                                   Inr db \<Rightarrow> (None, db)
                                 | Inl e \<Rightarrow> (Some e, update_order ord (\<lambda>x. if o_driver x = Some d then x\<lparr>o_driver := None\<rparr> else x) db)))))"

section \<open>Assignment by the office\<close>

definition ErrOrderTaken :: err where "ErrOrderTaken = ErrMsg ''order taken''"
definition ErrDriverExcluded :: err where "ErrDriverExcluded = ErrMsg ''driver excluded''"
definition ErrDriverOffShift :: err where "ErrDriverOffShift = ErrMsg ''driver off shift''"

text \<open>The two moves after the row is written; what the first made stays when the second is refused.\<close>

definition assign_moves ::
  "env \<Rightarrow> user_id \<Rightarrow> role list \<Rightarrow> string \<Rightarrow> string \<Rightarrow> bool \<Rightarrow> 'a engine_db_scheme \<Rightarrow> err option \<times> 'a engine_db_scheme" where
  "assign_moves env actor roles ord nt prep db =
    (case (if prep then Transition env actor roles ord StDispatching nt db else Inr db) of
       Inl e \<Rightarrow> (Some e, db)
     | Inr db \<Rightarrow> (case Transition env actor [''ops''] ord StAssigned nt db of Inl e \<Rightarrow> (Some e, db) | Inr db \<Rightarrow> (None, db)))"

definition AssignDriver ::
  "env \<Rightarrow> user_id \<Rightarrow> role list \<Rightarrow> string \<Rightarrow> user_id \<Rightarrow> string \<Rightarrow> 'a engine_db_scheme \<Rightarrow> err option \<times> 'a engine_db_scheme" where
  "AssignDriver env actor roles ord d nt db =
    (case find (\<lambda>u. u_id u = d \<and> u_driver u \<and> u_status u = ''active'') (users db) of
       None \<Rightarrow> (Some ErrNeedsDriver, db)
     | Some u \<Rightarrow> (case order_of db ord of
         None \<Rightarrow> (Some ErrNotFound, db)
       | Some x \<Rightarrow>
           if o_status x \<noteq> StPreparing \<and> o_status x \<noteq> StDispatching then (Some ErrBadTransition, db)
           else if o_driver x \<noteq> None then (Some ErrOrderTaken, db)
           else if d \<in> set (o_excluded x) then (Some ErrDriverExcluded, db)
           else if \<not> u_on_shift u then (Some ErrDriverOffShift, db)
           else (case AdmitDriverTx (en_cashbox env) d \<lparr>ad_cash_due = o_cash_due x, ad_cash_limit = settingInt env ''drivers.cash_limit'',
                    ad_active_max = settingInt env ''drivers.max_active_orders''\<rparr> db of
                   Inl e \<Rightarrow> (Some e, db)
                 | Inr _ \<Rightarrow> assign_moves env actor roles ord nt (o_status x = StPreparing)
                     (update_order ord (\<lambda>x. x\<lparr>o_driver := Some d, o_offered_driver := None, o_offer_expires := None\<rparr>) db))))"

section \<open>What they leave\<close>

lemma Transition_assigned_seat:
  fixes db :: "'a engine_db_scheme"
  assumes "Transition env actor roles ord StAssigned nt db = Inr db'" and "order_of db ord = Some x" and "o_status x = StDispatching"
  shows "seats_of db' = (seats_of db)(ord \<mapsto> (o_kind x, StAssigned, o_driver x))"
  using assms assigned_seat(2) unfolding Transition_assigned by (auto split: sum.splits)

lemma written_seat:
  assumes "order_of db ord = Some x"
  shows "seats_of (update_order ord (\<lambda>x. x\<lparr>o_driver := Some d, o_offered_driver := None, o_offer_expires := None\<rparr>) db) =
    (seats_of db)(ord \<mapsto> (o_kind x, o_status x, Some d))"
  using seats_update[of "\<lambda>x. x\<lparr>o_driver := Some d, o_offered_driver := None, o_offer_expires := None\<rparr>" ord db] assms by simp

lemma seat_order: "seats_of db ord = Some (k, s, d) \<Longrightarrow> \<exists>x. order_of db ord = Some x \<and> o_kind x = k \<and> o_status x = s \<and> o_driver x = d"
  by (auto simp: seats_of_def)

text \<open>An order that has its driver is not offered by its move to the queue.\<close>

lemma Transition_queue_seat:
  fixes db :: "'a engine_db_scheme"
  assumes "Transition env actor roles ord StDispatching nt db = Inr db'" and "seats_of db ord = Some (k, StPreparing, Some d)"
  shows "seats_of db' = (seats_of db)(ord \<mapsto> (k, StDispatching, Some d))"
proof -
  obtain ap d1 where m: "one_move env Inr ord (request actor roles StDispatching nt) db = Inr (ap, d1)"
    using assms(1) by (auto simp: Transition.simps split: sum.splits)
  have to: "ap_to ap = StDispatching" using m by (auto simp: one_move_def branches request_def dest!: applied_to(1))
  then have nb: "\<not> ap_blocked ap" using one_move_steps(4)[OF m keeps_work_Inr] by auto
  note s = one_move_seat[OF m keeps_seats_Inr keeps_work_Inr]
  have d1: "seats_of d1 = (seats_of db)(ord \<mapsto> (k, StDispatching, Some d))"
    using s(1,2) assms(2) to nb by (simp add: lands_def seat_after_def driver_after_def)
  have "db' = offer_after env ap d1"
    using assms(1) m nb to by (simp add: Transition.simps follow_up_none)
  moreover have "lo_id (ap_lo ap) = ord" by (rule lock_status(1)[OF one_move_steps(1)[OF m keeps_work_Inr]])
  ultimately show ?thesis
    using OfferNext_seated[of ord d1 env] d1 to by (auto simp: offer_after_def seated_def)
qed

lemma assign_moves_seat:
  fixes db :: "'a engine_db_scheme"
  assumes "assign_moves env actor roles ord nt prep db = (e, db')"
    and "seats_of db ord = Some (k, if prep then StPreparing else StDispatching, Some d)"
  shows "if e = None then seats_of db' = (seats_of db)(ord \<mapsto> (k, StAssigned, Some d))
    else \<exists>s. (s = StPreparing \<or> s = StDispatching) \<and> seats_of db' = (seats_of db)(ord \<mapsto> (k, s, Some d))"
proof (cases "if prep then Transition env actor roles ord StDispatching nt db else Inr db")
  case (Inl e1)
  then have "e = Some e1" "db' = db" using assms(1) by (simp_all add: assign_moves_def)
  then show ?thesis using assms(2) by (cases prep) (auto simp: fun_upd_idem)
next
  case (Inr d1)
  have s1: "seats_of d1 = (seats_of db)(ord \<mapsto> (k, StDispatching, Some d))"
    using Inr assms(2) Transition_queue_seat by (cases prep) (auto simp: fun_upd_idem)
  then obtain x where x: "order_of d1 ord = Some x" "o_kind x = k" "o_status x = StDispatching" "o_driver x = Some d"
    using seat_order[of d1 ord k StDispatching "Some d"] by auto
  show ?thesis
    using assms(1) Inr s1 x Transition_assigned_seat[OF _ x(1,3)] by (auto simp: assign_moves_def split: sum.split_asm)
qed

text \<open>An acceptance, from its checks to the move.\<close>

lemma accepted_or_nothing:
  assumes "handleDriverAccept env below d ord db = (e, db')"
  shows "if e = None
    then \<exists>u x. u \<in> set (users db) \<and> u_id u = d \<and> u_on_shift u \<and> order_of db ord = Some x \<and> o_status x = StDispatching \<and>
      o_driver x = None \<and> d \<notin> set (o_excluded x) \<and> may_take env x d \<and>
      (en_cashbox env \<longrightarrow> GuardTx d (o_cash_due x) (settingInt env ''drivers.cash_limit'') db = Inr ()) \<and>
      (\<not> offered_to db x d \<and> settingInt env ''drivers.max_active_orders'' > 0 \<longrightarrow>
         int (length (open_orders db d)) < settingInt env ''drivers.max_active_orders'') \<and>
      seats_of db' = (seats_of db)(ord \<mapsto> (o_kind x, StAssigned, Some d))
    else seats_of db' = seats_of db"
proof -
  let ?w = "\<lambda>x. x\<lparr>o_driver := Some d, o_offered_driver := None, o_offer_expires := None\<rparr>"
  let ?d = "update_user d (\<lambda>u. u\<lparr>u_last_assigned := Some (db_now db)\<rparr>) (update_order ord ?w db)"
  let ?undo = "\<lambda>x. if o_driver x = Some d then x\<lparr>o_driver := None\<rparr> else x"
  let ?limit = "settingInt env ''drivers.cash_limit''" and ?max = "settingInt env ''drivers.max_active_orders''"
  show ?thesis
  proof (cases "db' = db \<and> e \<noteq> None")
    case True
    then show ?thesis by auto
  next
    case False
    then obtain u x where u: "find (\<lambda>u. u_id u = d) (users db) = Some u" "u_on_shift u" and x: "order_of db ord = Some x" "d \<notin> set (o_excluded x)"
      and a: "AdmitDriverTx (en_cashbox env) d \<lparr>ad_cash_due = order_due db ord, ad_cash_limit = ?limit,
         ad_active_max = (if offered_to db x d then -1 else ?max)\<rparr> db = Inr ()" and t: "may_take env x d"
      and r: "(case Transition env d [''driver''] ord StAssigned '''' ?d of Inr db \<Rightarrow> (None, db) | Inl e \<Rightarrow> (Some e, update_order ord ?undo ?d)) = (e, db')"
      using assms unfolding handleDriverAccept_def Let_def excludedDrivers_def
      by (auto split: option.split_asm sum.split_asm if_split_asm)
    have free: "o_status x = StDispatching" "o_driver x = None" using t by (auto simp: may_take_def)
    have w: "order_of ?d ord = Some (?w x)" using order_of_update[of ?w ord db ord] x(1) by (simp add: order_of_def update_user_def)
    have s: "seats_of ?d = (seats_of db)(ord \<mapsto> (o_kind x, StDispatching, Some d))" using written_seat[OF x(1)] free by (simp add: same_seats)
    show ?thesis
    proof (cases "Transition env d [''driver''] ord StAssigned '''' ?d")
      case (Inl e1)
      then have e: "e = Some e1" "db' = update_order ord ?undo ?d" using r by simp_all
      have "seats_of db' = (seats_of db)(ord \<mapsto> (o_kind x, StDispatching, None))"
        using seats_update[of ?undo ord ?d] w s free unfolding e(2) by simp
      then show ?thesis using e(1) x free by (auto simp: seats_of_def fun_upd_idem)
    next
      case (Inr d1)
      then have e: "e = None" "db' = d1" using r by simp_all
      have "seats_of db' = (seats_of db)(ord \<mapsto> (o_kind x, StAssigned, Some d))"
        using Transition_assigned_seat[OF Inr w] s free unfolding e(2) by simp
      moreover have "u \<in> set (users db)" "u_id u = d" using u(1) by (auto simp: find_Some_iff)
      moreover have "en_cashbox env \<Longrightarrow> GuardTx d (o_cash_due x) ?limit db = Inr ()"
        "\<not> offered_to db x d \<Longrightarrow> ?max > 0 \<Longrightarrow> int (length (open_orders db d)) < ?max"
        using a x(1) by (auto simp: AdmitDriverTx_def order_due_def split: if_splits)
      ultimately show ?thesis using e(1) u(2) x t free by (auto intro!: exI[of _ u] exI[of _ x])
    qed
  qed
qed

lemma AssignDriver_taken:
  assumes "seats_of db ord = Some (k, s, Some d)"
  shows "\<exists>e. AssignDriver env actor roles ord v nt db = (Some e, db)"
  using seat_order[OF assms] by (auto simp: AssignDriver_def split: option.split)

lemma handleDriverAccept_taken:
  assumes "seats_of db ord = Some (k, s, Some d)"
  shows "fst (handleDriverAccept env below v ord db) \<noteq> None"
  using seat_order[OF assms] by (auto simp: handleDriverAccept_def may_take_def Let_def split: option.split sum.split)

text \<open>An assignment, likewise.\<close>

lemma assigned_or_stuck:
  assumes "AssignDriver env actor roles ord d nt db = (e, db')"
  shows "if e = None
    then \<exists>u x. u \<in> set (users db) \<and> u_id u = d \<and> u_driver u \<and> u_status u = ''active'' \<and> u_on_shift u \<and> order_of db ord = Some x \<and>
      o_driver x = None \<and> d \<notin> set (o_excluded x) \<and> (o_status x = StPreparing \<or> o_status x = StDispatching) \<and>
      AdmitDriverTx (en_cashbox env) d \<lparr>ad_cash_due = o_cash_due x, ad_cash_limit = settingInt env ''drivers.cash_limit'',
        ad_active_max = settingInt env ''drivers.max_active_orders''\<rparr> db = Inr () \<and>
      seats_of db' = (seats_of db)(ord \<mapsto> (o_kind x, StAssigned, Some d))
    else db' = db \<or>
      (\<exists>k s. (s = StPreparing \<or> s = StDispatching) \<and> seats_of db' = (seats_of db)(ord \<mapsto> (k, s, Some d)) \<and>
        (\<forall>env2 actor2 roles2 v nt2. \<exists>e2. AssignDriver env2 actor2 roles2 ord v nt2 db' = (Some e2, db')) \<and>
        (\<forall>env2 below v. fst (handleDriverAccept env2 below v ord db') \<noteq> None))"
proof -
  let ?w = "\<lambda>x. x\<lparr>o_driver := Some d, o_offered_driver := None, o_offer_expires := None\<rparr>"
  show ?thesis
  proof (cases "db' = db \<and> e \<noteq> None")
    case True
    then show ?thesis by auto
  next
    case False
    then obtain u x where u: "find (\<lambda>u. u_id u = d \<and> u_driver u \<and> u_status u = ''active'') (users db) = Some u" "u_on_shift u"
      and x: "order_of db ord = Some x" "o_driver x = None" "d \<notin> set (o_excluded x)" "o_status x = StPreparing \<or> o_status x = StDispatching"
      and a: "AdmitDriverTx (en_cashbox env) d \<lparr>ad_cash_due = o_cash_due x, ad_cash_limit = settingInt env ''drivers.cash_limit'',
        ad_active_max = settingInt env ''drivers.max_active_orders''\<rparr> db = Inr ()"
      and m: "assign_moves env actor roles ord nt (o_status x = StPreparing) (update_order ord ?w db) = (e, db')"
      using assms unfolding AssignDriver_def by (auto split: option.split_asm sum.split_asm if_split_asm)
    have uu: "u \<in> set (users db)" "u_id u = d" "u_driver u" "u_status u = ''active''" using u(1) by (auto simp: find_Some_iff)
    have w: "seats_of (update_order ord ?w db) = (seats_of db)(ord \<mapsto> (o_kind x, o_status x, Some d))" by (rule written_seat[OF x(1)])
    then have "seats_of (update_order ord ?w db) ord = Some (o_kind x, if o_status x = StPreparing then StPreparing else StDispatching, Some d)"
      using x(4) by auto
    note r = assign_moves_seat[OF m this]
    show ?thesis
    proof (cases e)
      case None
      then show ?thesis using r w uu u(2) x a by (auto intro!: exI[of _ u] exI[of _ x])
    next
      case (Some e1)
      with r w obtain s where s: "s = StPreparing \<or> s = StDispatching" "seats_of db' = (seats_of db)(ord \<mapsto> (o_kind x, s, Some d))" by auto
      then have "seats_of db' ord = Some (o_kind x, s, Some d)" by simp
      note t = AssignDriver_taken[OF this] handleDriverAccept_taken[OF this]
      show ?thesis using s t Some by (intro if_not_P[THEN iffD2] disjI2) blast+
    qed
  qed
qed

section \<open>Properties\<close>

text \<open>
  C28. An acceptance is all or nothing: when it succeeds the order waited without a driver, the driver is on shift and not
  excluded from it, nobody else had the offer (in the rotation he had it), the guard admitted him, and the order alone
  is now assigned to him; when it fails, even in the move after his row was written, no order changes its status or its
  driver.
\<close>

theorem acceptance_exact:
  assumes "handleDriverAccept env below d ord db = (e, db')"
  shows "if e = None
    then \<exists>u x. u \<in> set (users db) \<and> u_id u = d \<and> u_on_shift u \<and> order_of db ord = Some x \<and> o_status x = StDispatching \<and>
      o_driver x = None \<and> d \<notin> set (o_excluded x) \<and> may_take env x d \<and>
      (en_cashbox env \<longrightarrow> GuardTx d (o_cash_due x) (settingInt env ''drivers.cash_limit'') db = Inr ()) \<and>
      (\<not> offered_to db x d \<and> settingInt env ''drivers.max_active_orders'' > 0 \<longrightarrow>
         int (length (open_orders db d)) < settingInt env ''drivers.max_active_orders'') \<and>
      seats_of db' = (seats_of db)(ord \<mapsto> (o_kind x, StAssigned, Some d))
    else seats_of db' = seats_of db"
  using assms by (rule accepted_or_nothing)

text \<open>Drivers who see a queue.\<close>

definition example_queue_env :: env where
  "example_queue_env = example_env\<lparr>en_settings := Some \<lparr>getString = (\<lambda>_. ''queue''),
     getInt = (\<lambda>k. if k = ''drivers.cash_limit'' then 100000 else 120), getHundredths = (\<lambda>_. 0), getBool = (\<lambda>_. False)\<rparr>\<rparr>"

lemma acceptance_exact_witness:
  "\<exists>db. handleDriverAccept example_queue_env False ''d'' ''o1'' example_rotation_db = (None, db) \<and>
     seats_of db ''o1'' = Some (KindStandard, StAssigned, Some ''d'')"
proof -
  let ?r = "handleDriverAccept example_queue_env False ''d'' ''o1'' example_rotation_db"
  have "fst ?r = None" "order_of example_rotation_db ''o1'' = Some (hd (orders example_rotation_db))"
    "o_kind (hd (orders example_rotation_db)) = KindStandard" by code_simp+
  with acceptance_exact[of example_queue_env False "''d''" "''o1''" example_rotation_db None "snd ?r"] show ?thesis
    by (cases ?r) auto
qed

text \<open>
  C29. An assignment by the office that succeeds found an active driver on shift, not excluded and admitted by the guard
  for an order without a driver, and the order alone is now assigned to him. One that fails before the driver is written
  changes no seat; one that fails after it (the move to the queue or to the driver is refused) leaves the driver on an
  order that is not assigned, and from then on neither the office nor an acceptance can give the order to anyone.
\<close>

theorem assignment_sticks:
  assumes "AssignDriver env actor roles ord d nt db = (e, db')"
  shows "if e = None
    then \<exists>u x. u \<in> set (users db) \<and> u_id u = d \<and> u_driver u \<and> u_status u = ''active'' \<and> u_on_shift u \<and> order_of db ord = Some x \<and>
      o_driver x = None \<and> d \<notin> set (o_excluded x) \<and> (o_status x = StPreparing \<or> o_status x = StDispatching) \<and>
      AdmitDriverTx (en_cashbox env) d \<lparr>ad_cash_due = o_cash_due x, ad_cash_limit = settingInt env ''drivers.cash_limit'',
        ad_active_max = settingInt env ''drivers.max_active_orders''\<rparr> db = Inr () \<and>
      seats_of db' = (seats_of db)(ord \<mapsto> (o_kind x, StAssigned, Some d))
    else db' = db \<or>
      (\<exists>k s. (s = StPreparing \<or> s = StDispatching) \<and> seats_of db' = (seats_of db)(ord \<mapsto> (k, s, Some d)) \<and>
        (\<forall>env2 actor2 roles2 v nt2. \<exists>e2. AssignDriver env2 actor2 roles2 ord v nt2 db' = (Some e2, db')) \<and>
        (\<forall>env2 below v. fst (handleDriverAccept env2 below v ord db') \<noteq> None))"
  using assms by (rule assigned_or_stuck)

text \<open>An order of two stores in preparation; one store has not answered.\<close>

definition example_unanswered_db :: engine_db where
  "example_unanswered_db = example_rotation_db\<lparr>
     orders := [example_order\<lparr>o_status := StPreparing, o_driver := None, o_stops := 2\<rparr>],
     order_parts := [new_part ''o1'' ''m'' 1]\<rparr>"

lemma assignment_sticks_witness:
  "\<exists>db. AssignDriver example_queue_env ''u'' [''ops''] ''o1'' ''d'' '''' example_unanswered_db = (Some ErrPartsPending, db) \<and>
     (\<exists>e. AssignDriver example_queue_env ''u'' [''ops''] ''o1'' ''e'' '''' db = (Some e, db)) \<and>
     seats_of db ''o1'' = Some (KindStandard, StPreparing, Some ''d'')"
proof -
  let ?r = "AssignDriver example_queue_env ''u'' [''ops''] ''o1'' ''d'' '''' example_unanswered_db"
  have r: "fst ?r = Some ErrPartsPending" "seats_of (snd ?r) ''o1'' = Some (KindStandard, StPreparing, Some ''d'')"
    "seats_of example_unanswered_db ''o1'' = Some (KindStandard, StPreparing, None)" by code_simp+
  obtain db where a: "?r = (Some ErrPartsPending, db)" using r(1) by (cases ?r) auto
  have "db \<noteq> example_unanswered_db" "seats_of db ''o1'' = Some (KindStandard, StPreparing, Some ''d'')" using r(2,3) a by auto
  with assignment_sticks[OF a] a show ?thesis by auto
qed

end
