(* ===== verification/Road.thy ===== *)
theory Road
  imports Assign
begin

text \<open>
  Orders on the road: whatever drivers, stores, customers and the office ask for, in any order and under whatever
  settings, an order that has reached its store, or left it, has a driver.
\<close>

section \<open>Steps\<close>

text \<open>Requests to move an order, acceptances, assignments, refusals, exclusions, the sweeps of the dispatch, time, and drivers who come and go.\<close>

inductive work_step :: "'a engine_db_scheme \<Rightarrow> 'a engine_db_scheme \<Rightarrow> bool" where
  moved: "transitionTx env actor roles ord to nt reason fault hook db = Inr db' \<Longrightarrow> keeps_seats hook \<Longrightarrow> keeps_work hook \<Longrightarrow> work_step db db'"
| accepted: "handleDriverAccept env below d ord db = (e, db') \<Longrightarrow> work_step db db'"
| assigned: "AssignDriver env actor roles ord d nt db = (e, db') \<Longrightarrow> work_step db db'"
| declined: "DeclineOffer env ord d db = (e, db') \<Longrightarrow> work_step db db'"
| excluded: "work_step db (ExcludeDriverTx ord d db)"
| swept: "work_step db (SweepExpiredOffers env db)"
| waited: "work_step db (SweepWaitingOffers env db)"
| later: "db_now db \<le> t \<Longrightarrow> work_step db (db\<lparr>db_now := t\<rparr>)"
| shifts: "work_step db (db\<lparr>users := us\<rparr>)"

section \<open>Every step keeps the drivers of the orders on the road\<close>

lemma seated_well: "seated ord (seats_of db) (seats_of db') \<Longrightarrow> well_seated db \<Longrightarrow> well_seated db'"
  unfolding seated_def by (elim disjE exE conjE) (blast intro: well_seated_same well_seated_upd)+

lemma OfferNext_well: "well_seated db \<Longrightarrow> well_seated (snd (OfferNext env ord skip db))"
  by (rule seated_well[OF OfferNext_seated])

lemma offer_after_well: "well_seated db \<Longrightarrow> well_seated (offer_after env ap db)"
  by (simp add: offer_after_def OfferNext_well)

lemma Transition_well:
  fixes db :: "'a engine_db_scheme"
  assumes "Transition env actor roles ord to nt db = Inr db'" and "well_seated db"
  shows "well_seated db'"
  using assms
proof (induction env actor roles ord to nt db arbitrary: db' rule: Transition.induct)
  case (1 env actor roles ord to nt db)
  note unf = Transition.simps[of env actor roles ord to nt db]
  obtain ap d where m: "one_move env Inr ord (request actor roles to nt) db = Inr (ap, d)"
    using "1.prems"(1) by (auto simp: unf split: sum.splits)
  have w: "well_seated d" by (rule one_move_seated[OF m keeps_seats_Inr keeps_work_Inr "1.prems"(2)])
  then have w2: "well_seated (offer_after env ap d)" by (rule offer_after_well)
  show ?case
  proof (cases "db' = d \<or> db' = offer_after env ap d")
    case True
    then show ?thesis using w w2 by auto
  next
    case False
    then obtain roles' to' nt' where nb: "\<not> ap_blocked ap" and f: "follow_up env (lo_kind (ap_lo ap)) (ap_to ap) roles = Some (roles', to', nt')"
      and t: "Transition env actor roles' ord to' nt' (offer_after env ap d) = Inr db'"
      using "1.prems"(1) m by (auto simp: unf split: option.splits sum.splits if_split_asm)
    show ?thesis by (rule "1.IH"[OF m refl nb f refl refl t w2])
  qed
qed

lemma transitionTx_well:
  fixes db :: "'a engine_db_scheme"
  assumes "transitionTx env actor roles ord to nt reason fault hook db = Inr db'" and "keeps_seats hook" and "keeps_work hook" and "well_seated db"
  shows "well_seated db'"
proof -
  let ?r = "request actor roles to nt\<lparr>rq_reason := reason, rq_fault := fault\<rparr>"
  obtain ap d where m: "one_move env hook ord ?r db = Inr (ap, d)" and db': "db' = (if ap_blocked ap then d else afterTransition env (ap, ?r) d)"
    using assms(1) by (auto simp: transitionTx_def Let_def bindE_eq_Inr)
  have w: "well_seated d" by (rule one_move_seated[OF m assms(2,3,4)])
  note o = offer_after_well[OF w, of env ap]
  show ?thesis
    using w o Transition_well[OF _ o] by (auto simp: db' afterTransition_def Let_def split: option.split sum.split)
qed

lemma foldl_well:
  assumes "\<And>d x. well_seated d \<Longrightarrow> well_seated (f d x)" and "well_seated db"
  shows "well_seated (foldl f db xs)"
  using assms(2) by (induction xs arbitrary: db) (auto intro: assms(1))

lemma DeclineOffer_well:
  assumes "DeclineOffer env ord d db = (e, db')" and "well_seated db"
  shows "well_seated db'"
proof -
  let ?d = "update_order ord (\<lambda>x. x\<lparr>o_offer_passed := o_offer_passed x @ [d],
      o_offered_driver := (if o_offered_driver x = Some d then None else o_offered_driver x),
      o_offer_expires := (if o_offered_driver x = Some d then None else o_offer_expires x)\<rparr>) db"
  have "well_seated ?d" using assms(2) by (rule well_seated_same[rotated]) (simp add: same_seats)
  moreover have "db' = db \<or> db' = ?d \<or> (\<exists>s. db' = snd (OfferNext env ord s ?d))"
    using assms(1) by (cases "order_of db ord") (auto simp: DeclineOffer_def Let_def split: if_split_asm dest!: arg_cong[of _ _ snd])
  ultimately show ?thesis using assms(2) OfferNext_well by blast
qed

lemma reclaim_well:
  assumes "well_seated db"
  shows "well_seated (reclaim_one env s db)"
proof -
  obtain ord d where s: "s = (ord, d)" by (cases s)
  have "well_seated (update_order ord (\<lambda>x. x\<lparr>o_driver := None, o_status := StDispatching, o_accepted_at := None, o_offered_driver := None,
      o_offer_expires := None, o_dispatched_at := Some t, o_offer_passed := o_offer_passed x @ [d]\<rparr>) db)" for t
    using assms seats_update[of "\<lambda>x. x\<lparr>o_driver := None, o_status := StDispatching, o_accepted_at := None, o_offered_driver := None,
      o_offer_expires := None, o_dispatched_at := Some t, o_offer_passed := o_offer_passed x @ [d]\<rparr>" ord db]
    by (auto simp: well_seated_def on_road_def)
  then have "well_seated (add_event ev (update_order ord (\<lambda>x. x\<lparr>o_driver := None, o_status := StDispatching, o_accepted_at := None, o_offered_driver := None,
      o_offer_expires := None, o_dispatched_at := Some t, o_offer_passed := o_offer_passed x @ [d]\<rparr>) db))" for t ev
    by (rule well_seated_same[rotated]) (simp add: same_seats)
  then show ?thesis using assms by (auto simp: reclaim_one_def s Let_def OfferNext_well split: option.split)
qed

lemma expire_well:
  assumes "well_seated db"
  shows "well_seated (expire_one env s db)"
proof -
  obtain ord d where s: "s = (ord, d)" by (cases s)
  have "well_seated (update_order ord (\<lambda>x. x\<lparr>o_offer_passed := ps, o_offered_driver := None, o_offer_expires := None\<rparr>) db)" for ps
    using assms by (rule well_seated_same[rotated]) (simp add: same_seats)
  then show ?thesis using assms by (auto simp: expire_one_def s Let_def OfferNext_well split: option.split)
qed

lemma offerWaiting_well: "well_seated db \<Longrightarrow> well_seated (offerWaiting env db)"
  unfolding offerWaiting_def by (rule foldl_well) (auto simp: OfferNext_well split: option.split)

lemma sweepOfferExpiry_well: "well_seated db \<Longrightarrow> well_seated (sweepOfferExpiry env db)"
  unfolding sweepOfferExpiry_def Let_def reclaimSilentAssignments_def
  by (auto intro!: foldl_well expire_well reclaim_well)

lemma well_seatedD: "well_seated db \<Longrightarrow> order_of db ord = Some x \<Longrightarrow> on_road (o_status x) \<Longrightarrow> o_driver x \<noteq> None"
  unfolding well_seated_def by (drule spec[of _ ord]) (simp add: seats_of_def)

lemma work_step_well: "work_step db db' \<Longrightarrow> well_seated db \<Longrightarrow> well_seated db'"
proof (induction rule: work_step.induct)
  case (moved env actor roles ord to nt reason fault hook db db')
  then show ?case by (blast intro: transitionTx_well)
next
  case (accepted env below d ord db e db')
  from accepted_or_nothing[OF accepted(1)] have "seats_of db' = seats_of db \<or> (\<exists>k. seats_of db' = (seats_of db)(ord \<mapsto> (k, StAssigned, Some d)))"
    by (auto split: if_split_asm)
  with accepted(2) show ?case by (elim disjE exE) (erule well_seated_same, assumption, erule (1) well_seated_upd, simp)
next
  case (assigned env actor roles ord d nt db e db')
  from assigned_or_stuck[OF assigned(1)] have "db' = db \<or> (\<exists>k s. seats_of db' = (seats_of db)(ord \<mapsto> (k, s, Some d)))"
    by (auto split: if_split_asm)
  with assigned(2) show ?case by (elim disjE exE) (simp, erule (1) well_seated_upd, simp)
next
  case (declined env ord d db e db')
  then show ?case by (rule DeclineOffer_well)
next
  case (excluded ord d db)
  then show ?case by (rule well_seated_same[rotated]) (simp add: ExcludeDriverTx_def same_seats)
next
  case (swept env db)
  then show ?case by (simp add: SweepExpiredOffers_def offerWaiting_well sweepOfferExpiry_well)
next
  case (waited env db)
  then show ?case by (simp add: SweepWaitingOffers_def offerWaiting_well)
next
  case (later db t)
  then show ?case by (intro well_seated_same[OF _ later(2)] seats_of_orders) simp
next
  case (shifts db us)
  then show ?case by (intro well_seated_same[OF _ shifts] seats_of_orders) simp
qed

section \<open>Properties\<close>

text \<open>
  C30. However requests to move orders, acceptances, assignments, refusals, exclusions, the sweeps of the dispatch, time
  and the shifts of the drivers are interleaved, under whatever settings and whether they succeed or fail, an order
  that has reached its store or is beyond it (at the store, picked up, on the way, at the door, delivered, refunded)
  has a driver, if all did at first.
\<close>

theorem road_orders_have_drivers:
  assumes "rtranclp work_step db db'" and "well_seated db" and "order_of db' ord = Some x" and "on_road (o_status x)"
  shows "o_driver x \<noteq> None"
proof -
  have "well_seated db'" using assms(1,2) by (induction rule: rtranclp_induct) (auto intro: work_step_well)
  then show ?thesis using assms(3,4) by (rule well_seatedD)
qed

lemma road_orders_have_drivers_witness:
  "\<exists>db' x. rtranclp work_step example_rotation_db db' \<and> order_of db' ''o1'' = Some x \<and> o_status x = StAtPickup \<and> o_driver x \<noteq> None"
proof -
  let ?a = "handleDriverAccept example_queue_env False ''d'' ''o1'' example_rotation_db"
  let ?m = "transitionTx example_queue_env ''d'' [''driver''] ''o1'' StAtPickup '''' '''' '''' Inr (snd ?a)"
  have "case ?m of Inl _ \<Rightarrow> False | Inr db \<Rightarrow> seats_of db ''o1'' = Some (KindStandard, StAtPickup, Some ''d'')" by code_simp
  then obtain db where m: "?m = Inr db" "seats_of db ''o1'' = Some (KindStandard, StAtPickup, Some ''d'')" by (auto split: sum.splits)
  then obtain x where x: "order_of db ''o1'' = Some x" "o_status x = StAtPickup" using seat_order by blast
  have "work_step example_rotation_db (snd ?a)" by (rule work_step.accepted[of _ _ _ _ _ "fst ?a"]) simp
  moreover have "work_step (snd ?a) db" by (rule work_step.moved[OF m(1)]) simp_all
  ultimately have r: "rtranclp work_step example_rotation_db db" by auto
  have "map o_status (orders example_rotation_db) = [StDispatching]" by code_simp
  then have "well_seated example_rotation_db"
    by (auto simp: well_seated_def seats_of_def on_road_def dest!: order_of_Some)
  from road_orders_have_drivers[OF r this x(1)] x r show ?thesis by (auto simp: on_road_def)
qed

end
