(* ===== verification/Goods.thy ===== *)
theory Goods
  imports Money_Steps
begin

text \<open>
  The goods of a failed order (\<open>orders/goods.go\<close>, \<open>HandGoods\<close> of \<open>orders/return_trip.go\<close>): the driver hands them over, the
  office settles where they went. Goods that go back to their store are taken back from it: what the store earned
  leaves its owner's wallet, or its cash settlement, or becomes a debt, and the share of the platform is taken
  again. Stores come in the order of the lines; the sums of one order fit 64 bits and a division by zero is an error; the
  author and the reason of a refused compensation and the point where the goods were handed over are left out.
\<close>

section \<open>Errors and places\<close>

definition GoodsToMerchant :: string where "GoodsToMerchant = ''merchant''"
definition GoodsToOffice :: string where "GoodsToOffice = ''platform''"
definition ReturnToOffice :: string where "ReturnToOffice = ''office''"
definition ReturnToStore :: string where "ReturnToStore = ''store''"

definition ErrGoodsNotFailed :: err where "ErrGoodsNotFailed = ErrMsg ''goods: not failed''"
definition ErrGoodsAlreadySettled :: err where "ErrGoodsAlreadySettled = ErrMsg ''goods: settled''"
definition ErrGoodsLedgerMismatch :: err where "ErrGoodsLedgerMismatch = ErrMsg ''goods: ledger mismatch''"
definition ErrGoodsBadCompensation :: err where "ErrGoodsBadCompensation = ErrMsg ''goods: bad compensation''"
definition ErrGoodsNotHanded :: err where "ErrGoodsNotHanded = ErrMsg ''goods: not handed''"
definition ErrGoodsWrongPlace :: err where "ErrGoodsWrongPlace = ErrMsg ''goods: wrong place''"
definition ErrGoodsCompensationCap :: err where "ErrGoodsCompensationCap = ErrMsg ''goods: compensation cap''"
definition ErrGoodsAlreadyCompensated :: err where "ErrGoodsAlreadyCompensated = ErrMsg ''goods: compensated''"
definition ErrGoodsCompNone :: err where "ErrGoodsCompNone = ErrMsg ''goods: no compensation''"
definition ErrGoodsCompPending :: err where "ErrGoodsCompPending = ErrMsg ''goods: compensation pending''"
definition ErrReturnStoreRefused :: err where "ErrReturnStoreRefused = AppError ''return_store_refused''"
definition ErrNotDriversOrder :: err where "ErrNotDriversOrder = ErrNotFound"
definition ErrNoReturnTrip :: err where "ErrNoReturnTrip = AppError ''no_return_trip''"
definition ErrGoodsAlreadyHanded :: err where "ErrGoodsAlreadyHanded = AppError ''goods_already_handed''"
definition ErrReturnBadTarget :: err where "ErrReturnBadTarget = AppError ''return_bad_target''"

definition CauseReturnedGoods :: string where "CauseReturnedGoods = ''returned_goods''"
definition CompKindMerchantGoods :: string where "CompKindMerchantGoods = ''merchant_goods''"
definition CompensationPending :: string where "CompensationPending = ''pending''"

definition normalizeReturnTo :: "string \<Rightarrow> err + string" where
  "normalizeReturnTo raw =
    (let s = TrimSpace raw
     in if s = '''' \<or> s = ReturnToOffice then Inr ReturnToOffice
        else if s = ReturnToStore then Inr ReturnToStore else Inl ErrReturnBadTarget)"

text \<open>The driver hands the goods over; the caller may add to the transaction.\<close>

definition HandGoods ::
  "string \<Rightarrow> user_id \<Rightarrow> ('a orders_db_scheme \<Rightarrow> err + 'a orders_db_scheme) option \<Rightarrow> 'a orders_db_scheme \<Rightarrow>
     err + int \<times> 'a orders_db_scheme" where
  "HandGoods ord driver hook db =
    (case order_of db ord of
       None \<Rightarrow> Inl ErrNotDriversOrder
     | Some x \<Rightarrow>
         if o_driver x \<noteq> Some driver then Inl ErrNotDriversOrder
         else if o_goods_handed_at x \<noteq> None then Inl ErrGoodsAlreadyHanded
         else if o_status x \<noteq> StFailed \<or> o_return_to x = None then Inl ErrNoReturnTrip
         else let now = db_now db; db = update_order ord (\<lambda>x. x\<lparr>o_goods_handed_at := Some now\<rparr>) db
              in bindE (case hook of None \<Rightarrow> Inr db | Some h \<Rightarrow> h db) (\<lambda>db. Inr (now, db)))"

section \<open>What the stores earned of the goods\<close>

definition MultiStoreGoods :: "string \<Rightarrow> 'a settle_db_scheme \<Rightarrow> bool" where
  "MultiStoreGoods ord db =
    (case order_of db ord of None \<Rightarrow> False
     | Some x \<Rightarrow> 1 < length (remdups [m. i \<leftarrow> order_items db, oi_order i = ord, m \<leftarrow> (case item_store x i of None \<Rightarrow> [] | Some m \<Rightarrow> [m])]))"

definition goodsCost :: "string \<Rightarrow> 'a settle_db_scheme \<Rightarrow> err + int" where
  "goodsCost ord db = items_cost [i \<leftarrow> order_items db. oi_order i = ord]"

text \<open>The owner of the order's store; no order, store or owner is the same error.\<close>

definition goods_owner :: "string \<Rightarrow> 'a obligations_db_scheme \<Rightarrow> user_id option" where
  "goods_owner ord db =
    (case order_of db ord of None \<Rightarrow> None
     | Some x \<Rightarrow> (case o_merchant x of None \<Rightarrow> None
         | Some m \<Rightarrow> (case merchant_of db m of None \<Rightarrow> None | Some row \<Rightarrow> m_owner row)))"

definition compensateMerchant ::
  "string \<Rightarrow> user_id \<Rightarrow> int \<Rightarrow> 'a obligations_db_scheme \<Rightarrow> err + 'a obligations_db_scheme" where
  "compensateMerchant ord actor amount db =
    (if amount \<le> 0 then Inr db
     else case goods_owner ord db of
       None \<Rightarrow> Inl ErrGoodsBadCompensation
     | Some owner \<Rightarrow>
         bindE (ApplyTx owner amount ''compensation'' ord ''compensation for returned goods'' (Some actor) db) (\<lambda>(_, db).
         DebitTreasury amount ord ''compensation for returned goods'' actor db))"

text \<open>What the ledger gave each owner for the order, less what an edit of the order left him owing.\<close>

definition debt_owners :: "'a settle_db_scheme \<Rightarrow> string \<Rightarrow> user_id list" where
  "debt_owners db ord =
     [st_owner s. a \<leftarrow> adjustments db, ad_order a = ord \<and> ad_debt a > 0, s \<leftarrow> settlements db, st_id s = ad_settlement a]"

definition goods_posted :: "'a settle_db_scheme \<Rightarrow> string \<Rightarrow> (user_id \<times> int) list" where
  "goods_posted db ord =
     map (\<lambda>u. (u, (case map_of (earning_by_user db ord) u of None \<Rightarrow> 0 | Some a \<Rightarrow> a) - editDebtsByOwner db ord u))
       (remdups (map fst (earning_by_user db ord) @ debt_owners db ord))"

record merchant_share =
  gs_merchant :: string
  gs_owner :: user_id
  gs_earned :: int

text \<open>The lines of the order by store, with the owner and the cost; a store without an owner is left out.\<close>

definition goods_lines :: "'a settle_db_scheme \<Rightarrow> order \<Rightarrow> (string \<times> user_id \<times> int) list" where
  "goods_lines db x =
     [(m, u, sum_list (map (\<lambda>i. oi_price i * oi_qty i) (store_items db x m))).
        m \<leftarrow> order_stores db x, u \<leftarrow> (case merchant_of db m of None \<Rightarrow> [] | Some row \<Rightarrow> (case m_owner row of None \<Rightarrow> [] | Some u \<Rightarrow> [u]))]"

definition sharesOf :: "merchant_share list \<Rightarrow> user_id \<Rightarrow> int" where
  "sharesOf shs u = sum_list (map gs_earned [s \<leftarrow> shs. gs_owner s = u])"

fun share_goods :: "(user_id \<times> int) list \<Rightarrow> (user_id \<Rightarrow> int) \<Rightarrow> (string \<times> user_id \<times> int) list \<Rightarrow> merchant_share list \<Rightarrow> err + merchant_share list" where
  "share_goods given byOwner [] out = Inr out"
| "share_goods given byOwner ((m, u, c) # rest) out =
    (case map_of given u of
       None \<Rightarrow> Inl ErrGoodsLedgerMismatch
     | Some amount \<Rightarrow>
         if byOwner u = 0 then Inl (ErrMsg ''divide by zero'')
         else let share = (if rest = [] \<or> u \<noteq> fst (snd (hd rest)) then amount - sharesOf out u
                           else go_div (wrap64 (amount * c)) (byOwner u))
              in share_goods given byOwner rest (out @ [\<lparr>gs_merchant = m, gs_owner = u, gs_earned = share\<rparr>]))"

definition goodsShares :: "string \<Rightarrow> 'a settle_db_scheme \<Rightarrow> err + merchant_share list" where
  "goodsShares ord db =
    (let given = goods_posted db ord; postedTotal = sum_list (map snd given)
     in if postedTotal \<le> 0 then Inr []
        else case order_of db ord of
          None \<Rightarrow> Inl ErrNoRows
        | Some x \<Rightarrow>
            bindE (if goods_lines db x = []
                   then (case (o_merchant x, goods_owner ord db) of (Some m, Some u) \<Rightarrow> Inr [(m, u, 1)] | _ \<Rightarrow> Inl ErrNoRows)
                   else Inr (goods_lines db x)) (\<lambda>lines.
            let owners = remdups (map (\<lambda>(m, u, c). u) lines);
                byOwner = (\<lambda>u. sum_list (map (\<lambda>(m, v, c). c) [l \<leftarrow> lines. fst (snd l) = u]))
            in if length given \<noteq> length owners then Inl ErrGoodsLedgerMismatch
               else bindE (share_goods given byOwner lines []) (\<lambda>out.
                    if sum_list (map gs_earned out) \<noteq> postedTotal then Inl ErrGoodsLedgerMismatch else Inr out)))"

section \<open>Taking them back\<close>

definition claw_back_share :: "string \<Rightarrow> user_id \<Rightarrow> merchant_share \<Rightarrow> 'a obligations_db_scheme \<Rightarrow> err + 'a obligations_db_scheme" where
  "claw_back_share ord actor sh db =
    (if gs_earned sh \<le> 0 then Inr db
     else let balance = AvailableTx db (gs_owner sh); taken = (if balance < gs_earned sh then balance else gs_earned sh)
          in bindE (if taken > 0
                    then bindE (ApplyTx (gs_owner sh) (- taken) ''merchant_earning'' ord ''returned goods'' (Some actor) db) (\<lambda>(_, db). Inr db)
                    else Inr db) (\<lambda>db.
             if gs_earned sh - taken > 0
             then bindE (Create PartyMerchant (gs_merchant sh) (gs_earned sh - taken) CauseReturnedGoods ord (Some actor) db) (\<lambda>(_, db). Inr db)
             else Inr db))"

definition clawBackGoods :: "string \<Rightarrow> user_id \<Rightarrow> 'a settle_db_scheme \<Rightarrow> err + 'a settle_db_scheme" where
  "clawBackGoods ord actor db = bindE (goodsShares ord db) (\<lambda>shs. foldE (claw_back_share ord actor) shs db)"

definition claw_back_cash_row :: "string \<Rightarrow> user_id \<Rightarrow> user_id \<Rightarrow> settlement \<Rightarrow> 'a settle_db_scheme \<Rightarrow> err + 'a settle_db_scheme" where
  "claw_back_cash_row ord hid actor s db =
    (if st_state s = ''cash_due'' then
       bindE (postCashReversal (st_id s) hid (st_outstanding s) CauseReturnedGoods (''goods:'' @ ord) ord actor db) (\<lambda>(_, db). Inr db)
     else if st_state s = ''cash_paid'' \<and> st_outstanding s > 0 then
       bindE (Create PartyMerchant (st_merchant s) (st_outstanding s) CauseReturnedGoods ord (Some actor) db) (\<lambda>(_, db). Inr db)
     else Inr db)"

definition clawBackCashGoods :: "string \<Rightarrow> user_id \<Rightarrow> 'a settle_db_scheme \<Rightarrow> err + 'a settle_db_scheme" where
  "clawBackCashGoods ord actor db =
    (let rows = [s \<leftarrow> settlements db. st_order s = ord \<and> st_method s = ''cash'' \<and> merchant_of db (st_merchant s) \<noteq> None]
     in if list_ex (\<lambda>s. map_option m_owner (merchant_of db (st_merchant s)) = Some None) rows then Inl ErrDb
        else if rows = [] then Inr db
        else bindE (cashHoldingOn db) (\<lambda>hid. foldE (claw_back_cash_row ord hid actor) rows db))"

section \<open>Settling the goods\<close>

definition goods_gate :: "string \<Rightarrow> order \<Rightarrow> err + unit" where
  "goods_gate to x =
    (if o_status x \<noteq> StFailed then Inl ErrGoodsNotFailed
     else if o_goods_settled x \<noteq> None then Inl ErrGoodsAlreadySettled
     else case o_return_to x of None \<Rightarrow> Inr ()
       | Some place \<Rightarrow>
           if o_goods_handed_at x = None then Inl ErrGoodsNotHanded
           else if to \<noteq> (if place = ReturnToStore then GoodsToMerchant else GoodsToOffice) then Inl ErrGoodsWrongPlace
           else Inr ())"

definition goods_row :: "string \<Rightarrow> int \<Rightarrow> order \<Rightarrow> order" where
  "goods_row to now x = x\<lparr>o_goods_settled := Some to, o_returned_at := (if to = GoodsToMerchant then Some now else None)\<rparr>"

text \<open>The two places are a \<open>CHECK\<close> of the column the goods are settled in.\<close>

definition SettleGoods :: "string \<Rightarrow> string \<Rightarrow> user_id \<Rightarrow> int \<Rightarrow> 'a settle_db_scheme \<Rightarrow> err + 'a settle_db_scheme" where
  "SettleGoods ord to actor compensation db =
    (if compensation < 0 \<or> compensation > 0 \<and> to \<noteq> GoodsToMerchant then Inl ErrGoodsBadCompensation
     else case order_of db ord of
       None \<Rightarrow> Inl ErrNoRows
     | Some x \<Rightarrow>
         bindE (goods_gate to x) (\<lambda>_.
         if to = GoodsToMerchant \<and> MultiStoreGoods ord db then Inl ErrReturnStoreRefused
         else bindE (if compensation > 0
                     then bindE (goodsCost ord db) (\<lambda>cost. if compensation > cost then Inl ErrGoodsCompensationCap else Inr ())
                     else Inr ()) (\<lambda>_.
              bindE (if to = GoodsToMerchant
                     then bindE (compensateMerchant ord actor compensation db) (\<lambda>db.
                          bindE (clawBackGoods ord actor db) (\<lambda>db.
                          bindE (clawBackCashGoods ord actor db) (\<lambda>db.
                          creditTreasury ord actor db)))
                     else Inr db) (\<lambda>db.
              if to \<notin> {GoodsToMerchant, GoodsToOffice} then Inl ErrDb
              else Inr (update_order ord (goods_row to (db_now db)) db)))))"

section \<open>Compensating a store later\<close>

definition goods_compensated :: "string \<Rightarrow> 'a obligations_db_scheme \<Rightarrow> wallet_tx list" where
  "goods_compensated ord db =
    (case goods_owner ord db of None \<Rightarrow> []
     | Some u \<Rightarrow> [t \<leftarrow> wallet_txs db. tx_user t = u \<and> tx_ref t = ord \<and> tx_kind t = ''compensation''])"

definition GoodsCompensableTx :: "string \<Rightarrow> int \<Rightarrow> 'a settle_db_scheme \<Rightarrow> err + unit" where
  "GoodsCompensableTx ord amount db =
    (if amount \<le> 0 then Inl ErrGoodsBadCompensation
     else case order_of db ord of
       None \<Rightarrow> Inl ErrNoRows
     | Some x \<Rightarrow>
         if o_goods_settled x \<noteq> Some GoodsToMerchant then Inl ErrGoodsBadCompensation
         else if o_goods_comp_none_at x \<noteq> None then Inl ErrGoodsCompNone
         else if sum_list (map tx_amount (goods_compensated ord db)) > 0 then Inl ErrGoodsAlreadyCompensated
         else bindE (goodsCost ord db) (\<lambda>cost. if amount > cost then Inl ErrGoodsCompensationCap else Inr ()))"

definition CompensateGoodsTx :: "string \<Rightarrow> user_id \<Rightarrow> int \<Rightarrow> 'a settle_db_scheme \<Rightarrow> err + 'a settle_db_scheme" where
  "CompensateGoodsTx ord actor amount db =
     bindE (GoodsCompensableTx ord amount db) (\<lambda>_. compensateMerchant ord actor amount db)"

definition CompensateGoods :: "string \<Rightarrow> user_id \<Rightarrow> int \<Rightarrow> 'a settle_db_scheme \<Rightarrow> err + 'a settle_db_scheme" where
  "CompensateGoods ord actor amount db =
    (if amount \<le> 0 then Inl ErrGoodsBadCompensation else CompensateGoodsTx ord actor amount db)"

definition MarkGoodsNoCompensationTx :: "string \<Rightarrow> 'a money_db_scheme \<Rightarrow> err + 'a money_db_scheme" where
  "MarkGoodsNoCompensationTx ord db =
    (case order_of db ord of
       None \<Rightarrow> Inl ErrNoRows
     | Some x \<Rightarrow>
         if o_goods_settled x \<noteq> Some GoodsToMerchant then Inl ErrGoodsBadCompensation
         else if o_goods_comp_none_at x \<noteq> None then Inl ErrGoodsCompNone
         else if goods_compensated ord db \<noteq> [] then Inl ErrGoodsAlreadyCompensated
         else if list_ex (\<lambda>r. cq_order r = Some ord \<and> cq_kind r = CompKindMerchantGoods \<and> cq_status r = CompensationPending)
                   (compensation_requests db) then Inl ErrGoodsCompPending
         else Inr (update_order ord (\<lambda>x. x\<lparr>o_goods_comp_none_at := Some (db_now db)\<rparr>) db))"


section \<open>What taking the goods back touches\<close>

definition goods_kinds :: "string set" where
  "goods_kinds = {''merchant_earning'', ''merchant_cash_accrued'', ''platform_profit''}"

lemma DebitTreasury_only:
  fixes db :: "'a obligations_db_scheme"
  shows "DebitTreasury a ord nt actor db = Inr db' \<Longrightarrow> ''platform_expense'' \<in> ks \<Longrightarrow> money_only ord ks ps db db'"
  by (auto simp: DebitTreasury_def Let_def branches split: if_splits intro: money_only_ApplyTx)

text \<open>A compensation is one row of the owner, and an expense of the platform.\<close>

definition kind_log :: "'a wallet_db_scheme \<Rightarrow> string \<Rightarrow> string \<Rightarrow> (user_id \<times> int) list" where
  "kind_log db r k = map (\<lambda>t. (tx_user t, tx_amount t)) [t \<leftarrow> wallet_txs db. tx_ref t = r \<and> tx_kind t = k]"

lemma kind_log_step: "money_step ord ks ps db db' \<Longrightarrow> k \<notin> ks \<Longrightarrow> kind_log db' r k = kind_log db r k"
  by (simp add: kind_log_def money_step_rows(6))

lemma compensateMerchant_effect:
  fixes db :: "'a obligations_db_scheme"
  assumes "compensateMerchant ord actor a db = Inr db'"
  shows "money_only ord {''compensation'', ''platform_expense''} {} db db'"
    and "kind_log db' ord ''compensation'' = kind_log db ord ''compensation'' @
      (if a > 0 then [(the (goods_owner ord db), a)] else [])"
    and "a > 0 \<Longrightarrow> goods_owner ord db \<noteq> None"
proof -
  have all: "money_only ord {''compensation'', ''platform_expense''} {} db db' \<and>
      kind_log db' ord ''compensation'' = kind_log db ord ''compensation'' @ (if a > 0 then [(the (goods_owner ord db), a)] else []) \<and>
      (a > 0 \<longrightarrow> goods_owner ord db \<noteq> None)"
  proof (cases "a > 0")
    case True
    then obtain u where u: "goods_owner ord db = Some u" using assms by (auto simp: compensateMerchant_def split: option.splits)
    with True assms obtain b d where p: "ApplyTx u a ''compensation'' ord ''compensation for returned goods'' (Some actor) db = Inr (b, d)"
      and t: "DebitTreasury a ord ''compensation for returned goods'' actor d = Inr db'"
      by (auto simp: compensateMerchant_def bindE_eq_Inr)
    have "money_only ord {''compensation'', ''platform_expense''} {} db d" by (rule money_only_ApplyTx[OF p]) simp
    also have "money_only ord {''compensation'', ''platform_expense''} {} d db'" by (rule DebitTreasury_only[OF t]) simp
    finally have m: "money_only ord {''compensation'', ''platform_expense''} {} db db'" .
    from p obtain q i where "applyTx u a ''compensation'' ord ''compensation for returned goods'' (Some actor) db = Inr ((q, i), d)"
      by (auto simp: ApplyTx_def branches)
    from applyTx_log[OF this] have "kind_log d ord ''compensation'' = kind_log db ord ''compensation'' @ [(u, a)]"
      by (auto simp: kind_log_def)
    moreover have "money_only ord {''platform_expense''} {} d db'" by (rule DebitTreasury_only[OF t]) simp
    then have "kind_log db' ord ''compensation'' = kind_log d ord ''compensation''"
      by (intro kind_log_step[of ord "{''platform_expense''}" "{}"]) (simp_all add: money_only_def)
    ultimately show ?thesis using True u m by simp
  qed (use assms in \<open>simp add: compensateMerchant_def\<close>)
  then show "money_only ord {''compensation'', ''platform_expense''} {} db db'"
    "kind_log db' ord ''compensation'' = kind_log db ord ''compensation'' @ (if a > 0 then [(the (goods_owner ord db), a)] else [])"
    "a > 0 \<Longrightarrow> goods_owner ord db \<noteq> None" by blast+
qed

lemma clawBackGoods_only:
  fixes db :: "'a settle_db_scheme"
  assumes "clawBackGoods ord actor db = Inr db'"
  shows "money_only ord goods_kinds {PartyMerchant} db db'"
proof -
  have step: "money_only ord goods_kinds {PartyMerchant} u v" if "claw_back_share ord actor sh u = Inr v" for sh and u v :: "'a settle_db_scheme"
  proof (cases "gs_earned sh \<le> 0")
    case False
    define taken where "taken = (if AvailableTx u (gs_owner sh) < gs_earned sh then AvailableTx u (gs_owner sh) else gs_earned sh)"
    from that False obtain d where p: "(if taken > 0
          then bindE (ApplyTx (gs_owner sh) (- taken) ''merchant_earning'' ord ''returned goods'' (Some actor) u) (\<lambda>(_, db). Inr db)
          else Inr u) = Inr d"
      and c: "(if gs_earned sh - taken > 0
          then bindE (Create PartyMerchant (gs_merchant sh) (gs_earned sh - taken) CauseReturnedGoods ord (Some actor) d) (\<lambda>(_, db). Inr db)
          else Inr d) = Inr v"
      unfolding claw_back_share_def Let_def taken_def[symmetric] by (simp only: if_False bindE_eq_Inr) blast
    have "money_only ord goods_kinds {PartyMerchant} u d"
      using p by (auto simp: bindE_eq_Inr goods_kinds_def intro: money_only_ApplyTx split: if_splits)
    also have "money_only ord goods_kinds {PartyMerchant} d v"
      using c by (auto simp: bindE_eq_Inr Create_def intro: money_only_Create split: if_splits)
    finally show ?thesis .
  qed (use that in \<open>simp add: claw_back_share_def\<close>)
  from assms obtain shs where "foldE (claw_back_share ord actor) shs db = Inr db'" by (auto simp: clawBackGoods_def bindE_eq_Inr)
  then show ?thesis by (rule money_only_loop) (rule step)
qed

lemma clawBackGoods_settlements:
  fixes db :: "'a settle_db_scheme"
  assumes "clawBackGoods ord actor db = Inr db'"
  shows "settlements db' = settlements db"
proof -
  have post: "settlements v = settlements u" if "ApplyTx y n k r nt by u = Inr (b, v)" for y n k r nt "by" b and u v :: "'a settle_db_scheme"
    using that settle_tables_eqD(1)[OF applyTx_settle_tables] by (auto simp: ApplyTx_def branches)
  have made: "settlements v = settlements u" if "Create p y n k r by u = Inr (b, v)" for p y n k r "by" b and u v :: "'a settle_db_scheme"
    by (rule settle_tables_eqD(1)[OF wipe_settle_tables(1)[OF CreateRef_wipe[OF that[unfolded Create_def]]]])
  have step: "settlements v = settlements u" if "claw_back_share ord actor sh u = Inr v" for sh and u v :: "'a settle_db_scheme"
    using that unfolding claw_back_share_def Let_def bindE_eq_Inr
    by (auto simp: bindE_eq_Inr simp del: if_Inl_eq_Inr split: if_split_asm dest!: post made)
  from assms obtain shs where "foldE (claw_back_share ord actor) shs db = Inr db'" by (auto simp: clawBackGoods_def bindE_eq_Inr)
  then show ?thesis by (rule foldE_inv[where P = "\<lambda>u. settlements u = settlements db"]) (simp_all add: step)
qed

lemma clawBackCashGoods_only:
  fixes db :: "'a settle_db_scheme"
  assumes "clawBackCashGoods ord actor db = Inr db'"
  shows "money_only ord goods_kinds {PartyMerchant} db db'"
proof -
  have step: "money_only ord goods_kinds {PartyMerchant} u v" if "claw_back_cash_row ord hid actor s u = Inr v" for hid s and u v :: "'a settle_db_scheme"
    using that by (auto simp: claw_back_cash_row_def bindE_eq_Inr Create_def goods_kinds_def split: if_splits
        intro: money_only_Create money_only_reversal)
  define rows where "rows = [s \<leftarrow> settlements db. st_order s = ord \<and> st_method s = ''cash'' \<and> merchant_of db (st_merchant s) \<noteq> None]"
  from assms have "(if list_ex (\<lambda>s. map_option m_owner (merchant_of db (st_merchant s)) = Some None) rows then Inl ErrDb
        else if rows = [] then Inr db
        else bindE (cashHoldingOn db) (\<lambda>hid. foldE (claw_back_cash_row ord hid actor) rows db)) = Inr db'"
    unfolding clawBackCashGoods_def Let_def rows_def .
  then have "db' = db \<or> (\<exists>hid. foldE (claw_back_cash_row ord hid actor) rows db = Inr db')"
    by (cases "rows = []") (simp_all only: if_Inl_eq_Inr bindE_eq_Inr if_True if_False simp_thms, blast+)
  then consider "db' = db" | hid where "foldE (claw_back_cash_row ord hid actor) rows db = Inr db'" by blast
  then show ?thesis
  proof cases
    case (2 hid)
    then show ?thesis by (rule money_only_loop) (rule step)
  qed simp
qed

section \<open>The settlement as a whole\<close>

lemma SettleGoods_steps:
  fixes db :: "'a settle_db_scheme"
  assumes "SettleGoods ord to actor extra db = Inr db'" and "order_of db ord = Some x"
  shows "\<exists>d. extra \<ge> 0 \<and> (extra > 0 \<longrightarrow> to = GoodsToMerchant \<and> (\<exists>cost. goodsCost ord db = Inr cost \<and> extra \<le> cost)) \<and>
    to \<in> {GoodsToMerchant, GoodsToOffice} \<and> (to = GoodsToMerchant \<longrightarrow> \<not> MultiStoreGoods ord db) \<and> goods_gate to x = Inr () \<and>
    db' = update_order ord (goods_row to (db_now d)) d \<and> (to \<noteq> GoodsToMerchant \<longrightarrow> d = db) \<and>
    (to = GoodsToMerchant \<longrightarrow> (\<exists>d1 d2 d3. compensateMerchant ord actor extra db = Inr d1 \<and> clawBackGoods ord actor d1 = Inr d2 \<and>
       clawBackCashGoods ord actor d2 = Inr d3 \<and> creditTreasury ord actor d3 = Inr d))"
proof -
  from assms have g: "extra \<ge> 0" "extra > 0 \<Longrightarrow> to = GoodsToMerchant" "goods_gate to x = Inr ()"
    by (auto simp: SettleGoods_def bindE_eq_Inr split: if_splits)
  have c: "extra > 0 \<Longrightarrow> \<exists>cost. goodsCost ord db = Inr cost \<and> extra \<le> cost"
    using assms by (auto simp: SettleGoods_def bindE_eq_Inr split: if_splits)
  have m: "to = GoodsToMerchant \<Longrightarrow> \<not> MultiStoreGoods ord db" "to \<in> {GoodsToMerchant, GoodsToOffice}"
    using assms by (auto simp: SettleGoods_def bindE_eq_Inr split: if_splits)
  from assms obtain d where d: "(if to = GoodsToMerchant
       then bindE (compensateMerchant ord actor extra db) (\<lambda>db. bindE (clawBackGoods ord actor db) (\<lambda>db.
            bindE (clawBackCashGoods ord actor db) (\<lambda>db. creditTreasury ord actor db)))
       else Inr db) = Inr d" "db' = update_order ord (goods_row to (db_now d)) d"
    unfolding SettleGoods_def by (auto simp: bindE_eq_Inr simp del: if_Inl_eq_Inr split: if_splits)
  from d(1) have "to = GoodsToMerchant \<Longrightarrow> \<exists>d1 d2 d3. compensateMerchant ord actor extra db = Inr d1 \<and> clawBackGoods ord actor d1 = Inr d2 \<and>
       clawBackCashGoods ord actor d2 = Inr d3 \<and> creditTreasury ord actor d3 = Inr d" by (simp add: bindE_eq_Inr)
  moreover from d(1) have "to \<noteq> GoodsToMerchant \<Longrightarrow> d = db" by simp
  ultimately show ?thesis using g c d(2) m by blast
qed

lemma SettleGoods_effect:
  fixes db :: "'a settle_db_scheme"
  assumes s: "SettleGoods ord to actor extra db = Inr db'" and x: "order_of db ord = Some x"
  shows "goods_gate to x = Inr () \<and> 0 \<le> extra \<and> (0 < extra \<longrightarrow> to = GoodsToMerchant \<and> (\<exists>cost. goodsCost ord db = Inr cost \<and> extra \<le> cost))"
    and "order_of db' j = (if j = ord then Some (goods_row to (db_now db) x) else order_of db j)"
    and "r \<noteq> ord \<Longrightarrow> rows_of db' r = rows_of db r"
    and "to \<noteq> GoodsToMerchant \<Longrightarrow> to = GoodsToOffice \<and> db' = update_order ord (goods_row to (db_now db)) db"
    and "kind_log db' ord ''compensation'' = kind_log db ord ''compensation'' @ (if extra > 0 then [(the (goods_owner ord db), extra)] else [])"
proof -
  obtain d where g: "extra \<ge> 0" "extra > 0 \<longrightarrow> to = GoodsToMerchant \<and> (\<exists>cost. goodsCost ord db = Inr cost \<and> extra \<le> cost)"
      "goods_gate to x = Inr ()" "to \<in> {GoodsToMerchant, GoodsToOffice}"
    and db': "db' = update_order ord (goods_row to (db_now d)) d" and off: "to \<noteq> GoodsToMerchant \<longrightarrow> d = db"
    and on: "to = GoodsToMerchant \<longrightarrow> (\<exists>d1 d2 d3. compensateMerchant ord actor extra db = Inr d1 \<and> clawBackGoods ord actor d1 = Inr d2 \<and>
       clawBackCashGoods ord actor d2 = Inr d3 \<and> creditTreasury ord actor d3 = Inr d)"
    using SettleGoods_steps[OF s x] by blast
  let ?ks = "{''compensation'', ''platform_expense''} \<union> goods_kinds"
  have m: "money_only ord ?ks {PartyMerchant} db d \<and>
      kind_log d ord ''compensation'' = kind_log db ord ''compensation'' @ (if extra > 0 then [(the (goods_owner ord db), extra)] else [])"
  proof (cases "to = GoodsToMerchant")
    case True
    from on True obtain d1 d2 d3 where e: "compensateMerchant ord actor extra db = Inr d1" "clawBackGoods ord actor d1 = Inr d2"
        "clawBackCashGoods ord actor d2 = Inr d3" "creditTreasury ord actor d3 = Inr d" by blast
    note c = compensateMerchant_effect[OF e(1)]
    have g3: "money_only ord goods_kinds {PartyMerchant} d1 d3"
      using money_only_chain[OF clawBackGoods_only[OF e(2)] clawBackCashGoods_only[OF e(3)]] .
    have g4: "money_only ord goods_kinds {PartyMerchant} d1 d"
      by (rule money_only_chain[OF g3 money_only_treasury[OF e(4)]]) (simp add: goods_kinds_def)
    have "money_only ord ?ks {PartyMerchant} db d"
      by (rule money_only_chain[OF money_only_mono[OF c(1)] money_only_mono[OF g4]]) auto
    moreover have "kind_log d ord ''compensation'' = kind_log d1 ord ''compensation''"
      by (rule kind_log_step) (use g4 in \<open>auto simp: money_only_def goods_kinds_def\<close>)
    ultimately show ?thesis using c(2) by simp
  next
    case False
    then show ?thesis using off g(2) by auto
  qed
  have md: "money_step ord ?ks {PartyMerchant} db d" and od: "orders d = orders db" and now: "db_now d = db_now db"
    using m by (auto simp: money_only_def money_step_def)
  show "goods_gate to x = Inr () \<and> 0 \<le> extra \<and> (0 < extra \<longrightarrow> to = GoodsToMerchant \<and> (\<exists>cost. goodsCost ord db = Inr cost \<and> extra \<le> cost))"
    using g by blast
  have "order_of d = order_of db" by (simp add: order_of_def od fun_eq_iff)
  then show "order_of db' j = (if j = ord then Some (goods_row to (db_now db) x) else order_of db j)"
    unfolding db' by (subst order_of_update) (use x now in \<open>simp_all add: goods_row_def\<close>)
  show "rows_of db' r = rows_of db r" if "r \<noteq> ord" using money_step_rows(1)[OF md that] by (simp add: db' rows_of_def)
  show "to = GoodsToOffice \<and> db' = update_order ord (goods_row to (db_now db)) db" if "to \<noteq> GoodsToMerchant"
    using off that g(4) by (simp add: db')
  show "kind_log db' ord ''compensation'' = kind_log db ord ''compensation'' @ (if extra > 0 then [(the (goods_owner ord db), extra)] else [])"
    using m by (simp add: db' kind_log_def)
qed

text \<open>With the store the books close again.\<close>

lemma SettleGoods_books:
  fixes db :: "'a settle_db_scheme"
  assumes s: "SettleGoods ord GoodsToMerchant actor extra db = Inr db'" and x: "order_of db ord = Some x" and "treasuryOn db \<noteq> ''''"
  defines "unposted \<equiv> (if list_ex (\<lambda>t. tx_ref t = ord \<and> tx_kind t = ''order_payment'') (wallet_txs db) then 0 else o_wallet_paid x)"
  shows "tx_sum db' ord order_kinds = cash_part db' x + unposted - office_goods x (unposted - tx_sum db' ord [''order_payment''] + cash_part db' x)"
proof -
  obtain d1 d2 d3 d where e: "compensateMerchant ord actor extra db = Inr d1" "clawBackGoods ord actor d1 = Inr d2"
      "clawBackCashGoods ord actor d2 = Inr d3" "creditTreasury ord actor d3 = Inr d"
    and db': "db' = update_order ord (goods_row GoodsToMerchant (db_now d)) d"
    using SettleGoods_steps[OF s x] by blast
  let ?ks = "{''compensation'', ''platform_expense''} \<union> goods_kinds"
  have g3: "money_only ord goods_kinds {PartyMerchant} d1 d3"
    using money_only_chain[OF clawBackGoods_only[OF e(2)] clawBackCashGoods_only[OF e(3)]] .
  have to3: "money_only ord ?ks {PartyMerchant} db d3"
    by (rule money_only_chain[OF money_only_mono[OF compensateMerchant_effect(1)[OF e(1)]] money_only_mono[OF g3]]) auto
  have "treasuryOn d3 \<noteq> ''''" "order_of d3 ord = Some x"
    using to3 assms(3) x by (simp_all add: money_only_def money_step_def order_of_def)
  note b = treasury_books[OF e(4) this]
  have "list_ex (\<lambda>t. tx_ref t = ord \<and> tx_kind t = ''order_payment'') (wallet_txs d3) =
      list_ex (\<lambda>t. tx_ref t = ord \<and> tx_kind t = ''order_payment'') (wallet_txs db)"
    by (rule money_step_rows(5)[OF conjunct1[OF to3[unfolded money_only_def]]]) (simp add: goods_kinds_def)
  with b show ?thesis by (simp add: db' unposted_def tx_sum_def cash_part_def collected_at_door_def update_order_def)
qed

text \<open>
  What is taken back of one share: what is available, up to what was earned, and the rest becomes a debt of the store.
  As in a refund the two exceed the earning by what the available money is below zero.
\<close>

definition store_returns :: "string \<Rightarrow> string \<Rightarrow> user_id \<Rightarrow> int \<Rightarrow> int \<Rightarrow> 'a obligations_db_scheme \<Rightarrow> 'a obligations_db_scheme \<Rightarrow> bool" where
  "store_returns ord m u earning available db db' \<longleftrightarrow>
     (\<forall>v. earned db ord ''merchant_earning'' v - earned db' ord ''merchant_earning'' v =
        (if v = u then max 0 (min available earning) else 0)) \<and>
     (\<forall>k i. Debt db' k i - Debt db k i = (if k = PartyMerchant \<and> i = m then max 0 (earning - available) else 0))"

definition no_returns :: "string \<Rightarrow> 'a obligations_db_scheme \<Rightarrow> bool" where
  "no_returns ord db \<longleftrightarrow> (\<forall>m. \<not> origin_taken db PartyMerchant m CauseReturnedGoods (Some ord) None)"

lemma claw_back_share_exact:
  fixes db :: "'a obligations_db_scheme"
  assumes "claw_back_share ord actor sh db = Inr db'" and "0 < gs_earned sh" and inv: "obligations_inv db" and "ord \<noteq> ''''"
    and fresh: "no_returns ord db"
  shows "store_returns ord (gs_merchant sh) (gs_owner sh) (gs_earned sh) (AvailableTx db (gs_owner sh)) db db'"
proof -
  define taken where "taken = (if AvailableTx db (gs_owner sh) < gs_earned sh then AvailableTx db (gs_owner sh) else gs_earned sh)"
  from assms(2) have pos: "\<not> gs_earned sh \<le> 0" by simp
  from assms(1) pos obtain d where p: "(if taken > 0
        then bindE (ApplyTx (gs_owner sh) (- taken) ''merchant_earning'' ord ''returned goods'' (Some actor) db) (\<lambda>(_, db). Inr db)
        else Inr db) = Inr d"
    and c: "(if gs_earned sh - taken > 0
        then bindE (Create PartyMerchant (gs_merchant sh) (gs_earned sh - taken) CauseReturnedGoods ord (Some actor) d) (\<lambda>(_, db). Inr db)
        else Inr d) = Inr db'"
    unfolding claw_back_share_def Let_def taken_def[symmetric] by (simp only: if_False bindE_eq_Inr) blast
  have pay: "earned d ord ''merchant_earning'' v = earned db ord ''merchant_earning'' v - (if v = gs_owner sh then max 0 taken else 0) \<and>
      obligations_inv d \<and> Debt d k i = Debt db k i \<and> origin_taken d = origin_taken db" for v k i
  proof (cases "taken > 0")
    case True
    with p obtain q where "applyTx (gs_owner sh) (- taken) ''merchant_earning'' ord ''returned goods'' (Some actor) db = Inr (q, d)"
      by (auto simp: ApplyTx_def branches)
    from earned_post[OF this] obligations_inv_post[OF this] inv True show ?thesis by auto
  qed (use p inv in auto)
  have owe: "earned db' ord ''merchant_earning'' v = earned d ord ''merchant_earning'' v \<and>
      Debt db' k i = Debt d k i + (if k = PartyMerchant \<and> i = gs_merchant sh then max 0 (gs_earned sh - taken) else 0)" for v k i
  proof (cases "gs_earned sh - taken > 0")
    case True
    with c obtain made where m: "CreateRef PartyMerchant (gs_merchant sh) (gs_earned sh - taken) CauseReturnedGoods ord '''' (Some actor) d = Inr (made, db')"
      by (auto simp: Create_def branches)
    then have made using fresh pay assms(4) by (auto simp: no_returns_def CreateRef_def Let_def result_simps split: if_splits)
    with CreateRef_inv(2)[OF m] pay money_tables_eqD(2)[OF CreateRef_tables[OF m]] True show ?thesis by (simp add: earned_def)
  qed (use c in auto)
  from pay owe assms(2) show ?thesis by (simp add: store_returns_def taken_def min_def max_def)
qed

text \<open>Goods of one store are one share, the whole of what was posted.\<close>

lemma goodsShares_one:
  assumes "goodsShares ord db = Inr shs" and "\<not> MultiStoreGoods ord db" and "order_of db ord = Some x"
  defines "P \<equiv> sum_list (map snd (goods_posted db ord))"
  shows "P \<le> 0 \<Longrightarrow> shs = []"
    and "0 < P \<Longrightarrow> \<exists>m row u. goods_posted db ord = [(u, P)] \<and> merchant_of db m = Some row \<and> m_owner row = Some u \<and>
      shs = [\<lparr>gs_merchant = m, gs_owner = u, gs_earned = P\<rparr>]"
proof -
  show "P \<le> 0 \<Longrightarrow> shs = []" using assms(1) by (simp add: goodsShares_def P_def)
  assume pos: "0 < P"
  define stores where "stores = remdups [m. i \<leftarrow> order_items db, oi_order i = ord, m \<leftarrow> (case item_store x i of None \<Rightarrow> [] | Some m \<Rightarrow> [m])]"
  have few: "length stores \<le> 1" using assms(2,3) by (simp add: MultiStoreGoods_def stores_def)
  have "set (order_stores db x) \<subseteq> set stores"
    using order_of_Some[OF assms(3)] by (fastforce simp: order_stores_def stores_def split: option.splits if_splits)
  then have "card (set (order_stores db x)) \<le> card (set stores)" by (intro card_mono) simp_all
  moreover have "distinct (order_stores db x)" "distinct stores" by (simp_all add: order_stores_def stores_def)
  ultimately have "length (order_stores db x) \<le> length stores" by (simp only: distinct_card)
  with few have "length (order_stores db x) \<le> 1" by simp
  then consider "order_stores db x = []" | m where "order_stores db x = [m]" by (cases "order_stores db x") auto
  then have one: "goods_lines db x = [] \<or> (\<exists>m row u c. merchant_of db m = Some row \<and> m_owner row = Some u \<and> goods_lines db x = [(m, u, c)])"
    by cases (auto simp: goods_lines_def split: option.splits)
  obtain lines out where l: "(if goods_lines db x = []
        then (case (o_merchant x, goods_owner ord db) of (Some m, Some u) \<Rightarrow> Inr [(m, u, 1)] | _ \<Rightarrow> Inl ErrNoRows)
        else Inr (goods_lines db x)) = Inr lines"
    and len: "length (goods_posted db ord) = length (remdups (map (\<lambda>(m, u, c). u) lines))"
    and s: "share_goods (goods_posted db ord) (\<lambda>u. sum_list (map (\<lambda>(m, v, c). c) [l \<leftarrow> lines. fst (snd l) = u])) lines [] = Inr out"
    and out: "shs = out"
    using assms(1) pos unfolding goodsShares_def Let_def P_def[symmetric] assms(3) option.case
    by (auto simp: bindE_eq_Inr split: if_split_asm)
  have "\<exists>m row u c. merchant_of db m = Some row \<and> m_owner row = Some u \<and> lines = [(m, u, c)]"
    using one l assms(3) by (auto simp: goods_owner_def split: if_splits option.splits)
  then obtain m row u c where m: "merchant_of db m = Some row" "m_owner row = Some u" "lines = [(m, u, c)]" by blast
  then obtain v P' where g: "goods_posted db ord = [(v, P')]" using len by (auto simp: length_Suc_conv)
  then have "v = u \<and> P' = P \<and> out = [\<lparr>gs_merchant = m, gs_owner = u, gs_earned = P\<rparr>]"
    using s m(3) by (auto simp: P_def sharesOf_def Let_def split: if_splits option.splits)
  with g m out show "\<exists>m row u. goods_posted db ord = [(u, P)] \<and> merchant_of db m = Some row \<and> m_owner row = Some u \<and>
      shs = [\<lparr>gs_merchant = m, gs_owner = u, gs_earned = P\<rparr>]" by blast
qed
text \<open>What the compensation leaves as it was, and what its owner has then.\<close>

lemma compensateMerchant_frame:
  fixes db :: "'a settle_db_scheme"
  assumes "compensateMerchant ord actor a db = Inr d"
  shows "settle_tables d = settle_tables db" and "merchants d = merchants db" and "cashHoldingOn d = cashHoldingOn db"
    and "0 \<le> a \<Longrightarrow> u \<noteq> treasuryOn db \<Longrightarrow> AvailableTx d u = AvailableTx db u + (if goods_owner ord db = Some u then a else 0)"
proof -
  have same: "settle_tables w = settle_tables v \<and> merchants w = merchants v \<and> cashHoldingOn w = cashHoldingOn v \<and> treasuryOn w = treasuryOn v \<and>
      AvailableTx w u = AvailableTx v u + (if u = y then n else 0)" if "ApplyTx y n kind ref nt by v = Inr (b, w)" for y n kind ref nt "by" b and v w :: "'a settle_db_scheme"
  proof -
    from that obtain r where p: "applyTx y n kind ref nt by v = Inr (r, w)" by (auto simp: ApplyTx_def branches)
    from applyTx_frame[OF p] have "merchants w = merchants v" by auto
    with applyTx_settle_tables[OF p] applyTx_system[OF p] applyTx_available(1)[OF p, of u] show ?thesis by simp
  qed
  have all: "settle_tables d = settle_tables db \<and> merchants d = merchants db \<and> cashHoldingOn d = cashHoldingOn db \<and>
      (0 \<le> a \<longrightarrow> u \<noteq> treasuryOn db \<longrightarrow> AvailableTx d u = AvailableTx db u + (if goods_owner ord db = Some u then a else 0))"
  proof (cases "a > 0")
    case True
    with assms obtain v b e where v: "goods_owner ord db = Some v"
      and p: "ApplyTx v a ''compensation'' ord ''compensation for returned goods'' (Some actor) db = Inr (b, e)"
      and t: "DebitTreasury a ord ''compensation for returned goods'' actor e = Inr d"
      by (auto simp: compensateMerchant_def bindE_eq_Inr split: option.splits)
    from t consider "d = e" | c where "ApplyTx (treasuryOn e) (- a) ''platform_expense'' ord ''compensation for returned goods'' (Some actor) e = Inr (c, d)"
      by (auto simp: DebitTreasury_def Let_def bindE_eq_Inr split: if_splits)
    then show ?thesis by cases (use same[OF p] same v in auto)
  qed (use assms in \<open>auto simp: compensateMerchant_def\<close>)
  then show "settle_tables d = settle_tables db" "merchants d = merchants db" "cashHoldingOn d = cashHoldingOn db"
    "0 \<le> a \<Longrightarrow> u \<noteq> treasuryOn db \<Longrightarrow> AvailableTx d u = AvailableTx db u + (if goods_owner ord db = Some u then a else 0)" by blast+
qed

lemma goods_posted_step:
  fixes db :: "'a settle_db_scheme"
  assumes "money_only ord ks ps db d" and "''merchant_earning'' \<notin> ks" and "settle_tables d = settle_tables db"
  shows "goods_posted d ord = goods_posted db ord"
proof -
  have "earning_by_user d ord = earning_by_user db ord"
    using money_step_rows(6)[OF conjunct1[OF assms(1)[unfolded money_only_def]] assms(2)] by (simp add: earning_by_user_def)
  then show ?thesis unfolding goods_posted_def editDebtsByOwner_def debt_owners_def settle_tables_eqD(1,3)[OF assms(3)] by simp
qed

text \<open>What was due in cash is reversed; what was paid in cash becomes a debt.\<close>

definition cash_rows :: "string \<Rightarrow> 'a settle_db_scheme \<Rightarrow> settlement list" where
  "cash_rows ord db = [s \<leftarrow> settlements db. st_order s = ord \<and> st_method s = ''cash'']"

definition cash_returns :: "string \<Rightarrow> settlement \<Rightarrow> 'a settle_db_scheme \<Rightarrow> 'a settle_db_scheme \<Rightarrow> bool" where
  "cash_returns ord s db db' \<longleftrightarrow>
     (st_state s = ''cash_due'' \<longrightarrow> settlement_of db' (st_id s) = Some (reversed_row (st_outstanding s) s) \<and>
        (\<exists>hid. cashHoldingOn db = Inr hid \<and>
          kind_log db' ord ''merchant_cash_accrued'' = kind_log db ord ''merchant_cash_accrued'' @ [(hid, - st_outstanding s)])) \<and>
     (\<forall>k i. Debt db' k i = Debt db k i + (if st_state s = ''cash_paid'' \<and> k = PartyMerchant \<and> i = st_merchant s then st_outstanding s else 0))"

lemma claw_back_no_cash: "cash_rows ord db = [] \<Longrightarrow> clawBackCashGoods ord actor db = Inr db' \<Longrightarrow> db' = db"
proof -
  assume r: "cash_rows ord db = []" "clawBackCashGoods ord actor db = Inr db'"
  then have "[s \<leftarrow> settlements db. st_order s = ord \<and> st_method s = ''cash'' \<and> merchant_of db (st_merchant s) \<noteq> None] = []"
    by (auto simp: cash_rows_def filter_empty_conv)
  with r(2) show ?thesis by (simp add: clawBackCashGoods_def)
qed

lemma settlement_of_update:
  assumes "update_settlement i f db = Inr db'" and "\<And>x. st_id (f x) = st_id x"
  shows "settlement_of db' i = map_option f (settlement_of db i)"
proof -
  have "find (\<lambda>s. st_id s = i) (map (\<lambda>s. if st_id s = i then f s else s) xs) = map_option f (find (\<lambda>s. st_id s = i) xs)" for xs
    by (induction xs) (simp_all add: assms(2))
  then show ?thesis using assms(1) by (simp add: update_settlement_Inr settlement_of_def)
qed

lemma claw_back_cash_exact:
  fixes db :: "'a settle_db_scheme"
  assumes "clawBackCashGoods ord actor db = Inr db'" and rows: "cash_rows ord db = [s]" and "settlement_of db (st_id s) = Some s"
    and "merchant_of db (st_merchant s) \<noteq> None" and pos: "0 < st_outstanding s"
    and fresh: "\<not> list_ex (\<lambda>r. rv_settlement r = st_id s \<and> rv_event r = ''goods:'' @ ord) (reversals db)"
    and inv: "obligations_inv db" and "ord \<noteq> ''''" and new: "no_returns ord db"
  shows "cash_returns ord s db db'"
proof -
  have "[s \<leftarrow> settlements db. st_order s = ord \<and> st_method s = ''cash'' \<and> merchant_of db (st_merchant s) \<noteq> None] =
      [s \<leftarrow> cash_rows ord db. merchant_of db (st_merchant s) \<noteq> None]" by (simp add: cash_rows_def conj_ac cong: conj_cong)
  with rows assms(4) have l: "[s \<leftarrow> settlements db. st_order s = ord \<and> st_method s = ''cash'' \<and> merchant_of db (st_merchant s) \<noteq> None] = [s]"
    by simp
  from assms(1) obtain hid where h: "cashHoldingOn db = Inr hid" and c: "claw_back_cash_row ord hid actor s db = Inr db'"
    unfolding clawBackCashGoods_def Let_def l by (auto simp: bindE_eq_Inr split: if_splits)
  consider (due) tx where "st_state s = ''cash_due''"
      "postCashReversal (st_id s) hid (st_outstanding s) CauseReturnedGoods (''goods:'' @ ord) ord actor db = Inr (tx, db')"
    | (paid) made where "st_state s = ''cash_paid''"
      "CreateRef PartyMerchant (st_merchant s) (st_outstanding s) CauseReturnedGoods ord '''' (Some actor) db = Inr (made, db')"
    | (other) "st_state s \<notin> {''cash_due'', ''cash_paid''}" "db' = db"
    using c pos by (auto simp: claw_back_cash_row_def Create_def bindE_eq_Inr split: if_splits)
  then show ?thesis
  proof cases
    case (due tx)
    obtain b d where p: "applyTx hid (- st_outstanding s) ''merchant_cash_accrued'' ord (cashReversalNote CauseReturnedGoods) (Some actor) db = Inr ((b, tx), d)"
      and u: "update_settlement (st_id s) (reversed_row (st_outstanding s)) (d\<lparr>reversals := reversals d @
        [\<lparr>rv_settlement = st_id s, rv_tx = tx, rv_amount = st_outstanding s, rv_cause = CauseReturnedGoods, rv_event = ''goods:'' @ ord\<rparr>]\<rparr>) = Inr db'"
      by (rule postCashReversal_Inr[OF due(2) pos fresh])
    have "settlements d = settlements db" by (rule settle_tables_eqD[OF applyTx_settle_tables[OF p]])
    then have "settlement_of db' (st_id s) = Some (reversed_row (st_outstanding s) s)"
      using settlement_of_update[OF u] assms(3) by (simp add: settlement_of_def reversed_row_def)
    moreover have "kind_log db' ord ''merchant_cash_accrued'' = kind_log db ord ''merchant_cash_accrued'' @ [(hid, - st_outstanding s)]"
      using applyTx_log[OF p] u by (auto simp: kind_log_def update_settlement_Inr)
    moreover have "Debt db' k i = Debt db k i" for k i
      using applyTx_frame[OF p] u by (auto simp: Debt_def update_settlement_Inr)
    ultimately show ?thesis using h due(1) by (auto simp: cash_returns_def)
  next
    case (paid made)
    then have made using new assms(8) by (auto simp: no_returns_def CreateRef_def Let_def result_simps split: if_splits)
    with CreateRef_inv(2)[OF paid(2) inv] paid(1) show ?thesis by (simp add: cash_returns_def)
  qed (simp add: cash_returns_def)
qed

text \<open>What the settlement with the store takes back, of goods paid out by the ledger and of goods due in cash.\<close>

lemma SettleGoods_returned:
  fixes db :: "'a settle_db_scheme"
  assumes r: "SettleGoods ord GoodsToMerchant actor extra db = Inr db'" and x: "order_of db ord = Some x"
    and inv: "obligations_inv db" and o: "ord \<noteq> ''''" and new: "no_returns ord db"
  defines "P \<equiv> sum_list (map snd (goods_posted db ord))"
  shows "cash_rows ord db = [] \<Longrightarrow> P \<le> 0 \<Longrightarrow>
      earned db' ord ''merchant_earning'' v = earned db ord ''merchant_earning'' v \<and> Debt db' k i = Debt db k i"
    and "cash_rows ord db = [] \<Longrightarrow> 0 < P \<Longrightarrow> \<exists>m row u. goods_posted db ord = [(u, P)] \<and> merchant_of db m = Some row \<and> m_owner row = Some u \<and>
      (u \<noteq> treasuryOn db \<longrightarrow> store_returns ord m u P (AvailableTx db u + (if goods_owner ord db = Some u then extra else 0)) db db')"
    and "P \<le> 0 \<Longrightarrow> cash_rows ord db = [s] \<Longrightarrow> settlement_of db (st_id s) = Some s \<Longrightarrow> merchant_of db (st_merchant s) \<noteq> None \<Longrightarrow>
      0 < st_outstanding s \<Longrightarrow> \<not> list_ex (\<lambda>r. rv_settlement r = st_id s \<and> rv_event r = ''goods:'' @ ord) (reversals db) \<Longrightarrow>
      cash_returns ord s db db'"
proof -
  obtain d1 d2 d3 d where e: "compensateMerchant ord actor extra db = Inr d1" "clawBackGoods ord actor d1 = Inr d2"
      "clawBackCashGoods ord actor d2 = Inr d3" "creditTreasury ord actor d3 = Inr d"
    and multi: "\<not> MultiStoreGoods ord db" and db': "db' = update_order ord (goods_row GoodsToMerchant (db_now d)) d" and pos: "0 \<le> extra"
    using SettleGoods_steps[OF r x] by blast
  note f = compensateMerchant_frame[OF e(1)]
  note m1 = compensateMerchant_effect(1)[OF e(1)]
  have m1': "money_step ord {''compensation'', ''platform_expense''} {} db d1" "orders d1 = orders db" using m1 by (simp_all add: money_only_def)
  have s1: "Debt d1 k i = Debt db k i" "obligations_inv d1" "no_returns ord d1" for k i
    using m1'(1) inv new by (simp_all add: money_step_def no_returns_def)
  have posted: "goods_posted d1 ord = goods_posted db ord" by (rule goods_posted_step[OF m1 _ f(1)]) simp
  have x1: "order_of d1 ord = Some x" using x m1'(2) by (simp add: order_of_def)
  have multi1: "\<not> MultiStoreGoods ord d1"
    using multi x x1 settle_tables_eqD(4)[OF f(1)] by (simp add: MultiStoreGoods_def)
  have e1: "earned d1 ord ''merchant_earning'' v = earned db ord ''merchant_earning'' v" for v
    by (rule money_step_rows(2)[OF m1'(1)]) simp
  have l1: "kind_log d1 ord ''merchant_cash_accrued'' = kind_log db ord ''merchant_cash_accrued''"
    by (rule kind_log_step[OF m1'(1)]) simp
  have m4: "money_step ord {''platform_profit''} {} d3 d" using money_only_treasury[OF e(4), of "{''platform_profit''}" "{}"] by (simp add: money_only_def)
  have s4: "Debt db' k i = Debt d3 k i" for k i using m4 by (simp add: db' money_step_def Debt_def update_order_def)
  have e4: "earned db' ord ''merchant_earning'' v = earned d3 ord ''merchant_earning'' v" for v
    using money_step_rows(2)[OF m4, of "''merchant_earning''" ord v] by (simp add: db' earned_def update_order_def)
  have l4: "kind_log db' ord ''merchant_cash_accrued'' = kind_log d3 ord ''merchant_cash_accrued''"
    using kind_log_step[OF m4, of "''merchant_cash_accrued''" ord] by (simp add: db' kind_log_def update_order_def)
  have "settlements d = settlements d3"
    using creditTreasury_shape[OF e(4)] settle_tables_eqD(1)[OF applyTx_settle_tables] by fastforce
  then have t4: "settlement_of db' j = settlement_of d3 j" for j by (simp add: db' settlement_of_def update_order_def)
  obtain shs where shs: "goodsShares ord d1 = Inr shs" "foldE (claw_back_share ord actor) shs d1 = Inr d2"
    using e(2) by (auto simp: clawBackGoods_def bindE_eq_Inr)
  note one = goodsShares_one[OF shs(1) multi1 x1, unfolded posted, folded P_def]
  have none: "d2 = d1" if "P \<le> 0" using one(1)[OF that] shs(2) by simp
  have cash1: "cash_rows ord d1 = cash_rows ord db" using settle_tables_eqD(1)[OF f(1)] by (simp add: cash_rows_def)
  have m2: "settlements d2 = settlements d1" by (rule clawBackGoods_settlements[OF e(2)])
  have no_cash: "d3 = d2" if "cash_rows ord db = []"
    by (rule claw_back_no_cash[OF _ e(3)]) (use that cash1 m2 in \<open>simp add: cash_rows_def\<close>)
  show "earned db' ord ''merchant_earning'' v = earned db ord ''merchant_earning'' v \<and> Debt db' k i = Debt db k i"
    if "cash_rows ord db = []" "P \<le> 0" using no_cash[OF that(1)] none[OF that(2)] e4 e1 s4 s1(1) by simp
  show "\<exists>m row u. goods_posted db ord = [(u, P)] \<and> merchant_of db m = Some row \<and> m_owner row = Some u \<and>
      (u \<noteq> treasuryOn db \<longrightarrow> store_returns ord m u P (AvailableTx db u + (if goods_owner ord db = Some u then extra else 0)) db db')"
    if c: "cash_rows ord db = []" "0 < P"
  proof -
    from one(2)[OF c(2)] obtain m row u where g: "goods_posted db ord = [(u, P)]" "merchant_of d1 m = Some row" "m_owner row = Some u"
      "shs = [\<lparr>gs_merchant = m, gs_owner = u, gs_earned = P\<rparr>]" by blast
    have "store_returns ord m u P (AvailableTx d1 u) d1 d2"
      using claw_back_share_exact[of ord actor "\<lparr>gs_merchant = m, gs_owner = u, gs_earned = P\<rparr>" d1 d2] shs(2) g(4) c(2) s1 o
      by (simp add: bindE_def split: sum.splits)
    then have "store_returns ord m u P (AvailableTx d1 u) db db'"
      by (simp add: store_returns_def no_cash[OF c(1)] e4 e1 s4 s1(1))
    then have "u \<noteq> treasuryOn db \<Longrightarrow> store_returns ord m u P (AvailableTx db u + (if goods_owner ord db = Some u then extra else 0)) db db'"
      using f(4)[OF pos, of u] by simp
    moreover have "merchant_of db m = Some row" using g(2) f(2) by (simp add: merchant_of_def)
    ultimately show ?thesis using g(1,3) by blast
  qed
  show "cash_returns ord s db db'" if c: "P \<le> 0" "cash_rows ord db = [s]" "settlement_of db (st_id s) = Some s"
    "merchant_of db (st_merchant s) \<noteq> None" "0 < st_outstanding s"
    "\<not> list_ex (\<lambda>r. rv_settlement r = st_id s \<and> rv_event r = ''goods:'' @ ord) (reversals db)"
  proof -
    have "cash_returns ord s d1 d3"
      by (rule claw_back_cash_exact[OF e(3)[unfolded none[OF c(1)]]])
        (use c s1 o cash1 settle_tables_eqD[OF f(1)] f(2) in \<open>simp_all add: settlement_of_def merchant_of_def\<close>)
    then show ?thesis by (simp add: cash_returns_def s4 s1(1) t4 l4 l1 f(3))
  qed
qed

section \<open>Properties\<close>

text \<open>
  C38. The goods of a failed order are settled once: only of an order that failed and whose goods were not settled, and
  after a return trip only once they were handed over and to the place of the trip; a compensation goes only to the
  store they came back to, within their cost, and is one row of its owner. Where they stay with the platform no money
  moves at all. Where they go back to their store, what it earned of them is taken back: of the ledger's earnings, which are
  then of one owner, what the owner has available (the compensation included), and the rest is a debt of the store; a settlement
  due in cash is reversed out of the holding wallet, one that was paid in cash becomes a debt, and no other debt moves. Where there is
  a treasury the books of the order close again on the cash that came from outside (an order without a payment entry counts what its
  row says the wallet paid, and of a custom purchase the office's money for the goods is left out). No other order's row changes and
  no row of the ledger that is of another order, and the goods are never settled a second time. (What is taken back is stated for an
  order whose store owes nothing for returned goods of it yet, and for each of the two ways of paying a store alone, the owner not
  being the treasury.)
\<close>

theorem goods_settled_once:
  fixes db :: "'a settle_db_scheme"
  assumes "SettleGoods ord to actor extra db = Inr db'" and "order_of db ord = Some x"
  defines "P \<equiv> sum_list (map snd (goods_posted db ord))"
    and "unposted \<equiv> (if list_ex (\<lambda>t. tx_ref t = ord \<and> tx_kind t = ''order_payment'') (wallet_txs db) then 0 else o_wallet_paid x)"
  shows "o_status x = StFailed \<and> o_goods_settled x = None \<and>
    (\<forall>place. o_return_to x = Some place \<longrightarrow> o_goods_handed_at x \<noteq> None \<and>
       to = (if place = ReturnToStore then GoodsToMerchant else GoodsToOffice)) \<and>
    0 \<le> extra \<and> (0 < extra \<longrightarrow> to = GoodsToMerchant \<and> (\<exists>cost. goodsCost ord db = Inr cost \<and> extra \<le> cost)) \<and>
    kind_log db' ord ''compensation'' = kind_log db ord ''compensation'' @ (if extra > 0 then [(the (goods_owner ord db), extra)] else []) \<and>
    order_of db' j = (if j = ord then Some (goods_row to (db_now db) x) else order_of db j) \<and>
    (r \<noteq> ord \<longrightarrow> rows_of db' r = rows_of db r) \<and>
    (to \<noteq> GoodsToMerchant \<longrightarrow> to = GoodsToOffice \<and> db' = update_order ord (goods_row to (db_now db)) db) \<and>
    (to = GoodsToMerchant \<and> obligations_inv db \<and> ord \<noteq> '''' \<and> no_returns ord db \<longrightarrow>
       (cash_rows ord db = [] \<and> P \<le> 0 \<longrightarrow>
          earned db' ord ''merchant_earning'' v = earned db ord ''merchant_earning'' v \<and> Debt db' k i = Debt db k i) \<and>
       (cash_rows ord db = [] \<and> 0 < P \<longrightarrow>
          (\<exists>m row u. goods_posted db ord = [(u, P)] \<and> merchant_of db m = Some row \<and> m_owner row = Some u \<and>
             (u \<noteq> treasuryOn db \<longrightarrow>
                store_returns ord m u P (AvailableTx db u + (if goods_owner ord db = Some u then extra else 0)) db db'))) \<and>
       (\<forall>s. P \<le> 0 \<and> cash_rows ord db = [s] \<and> settlement_of db (st_id s) = Some s \<and> merchant_of db (st_merchant s) \<noteq> None \<and>
          0 < st_outstanding s \<and> \<not> list_ex (\<lambda>r. rv_settlement r = st_id s \<and> rv_event r = ''goods:'' @ ord) (reversals db) \<longrightarrow>
          cash_returns ord s db db')) \<and>
    (to = GoodsToMerchant \<and> treasuryOn db \<noteq> '''' \<longrightarrow> tx_sum db' ord order_kinds =
       cash_part db' x + unposted - office_goods x (unposted - tx_sum db' ord [''order_payment''] + cash_part db' x)) \<and>
    failed (SettleGoods ord to2 actor2 extra2 db')"
proof -
  note e = SettleGoods_effect[OF assms(1,2)]
  have g: "o_status x = StFailed \<and> o_goods_settled x = None \<and>
    (\<forall>place. o_return_to x = Some place \<longrightarrow> o_goods_handed_at x \<noteq> None \<and>
       to = (if place = ReturnToStore then GoodsToMerchant else GoodsToOffice))"
    using e(1) by (auto simp: goods_gate_def split: if_splits option.splits)
  have "order_of db' ord = Some (goods_row to (db_now db) x)" using e(2)[of ord] by simp
  then have again: "failed (SettleGoods ord to2 actor2 extra2 db')"
    using g by (simp add: SettleGoods_def goods_gate_def goods_row_def)
  have m: "to = GoodsToMerchant \<Longrightarrow> SettleGoods ord GoodsToMerchant actor extra db = Inr db'" using assms(1) by simp
  show ?thesis
    using e g again SettleGoods_returned[OF m assms(2), folded P_def] SettleGoods_books[OF m assms(2), folded unposted_def]
    by (intro conjI impI allI) blast+
qed

text \<open>An order paid by wallet, refunded when it failed; its store earned 900 and has 300 left: 50 of compensation go first.\<close>

definition example_goods_db :: settle_db where
  "example_goods_db = example_stores_db\<lparr>
     orders := [example_order\<lparr>o_status := StFailed, o_return_to := Some ReturnToStore, o_goods_handed_at := Some 5\<rparr>],
     wallets := [(''t'', zero_wallet\<lparr>w_treasury := True, w_balance := 100\<rparr>), (''h'', zero_wallet\<lparr>w_cash_holding := True\<rparr>), (''a'', zero_wallet\<lparr>w_balance := 300\<rparr>)],
     wallet_txs := [\<lparr>tx_id = 0, tx_user = ''a'', tx_amount = - 700, tx_kind = ''order_payment'', tx_ref = ''o1'', tx_note = [], tx_by = None, tx_at = 0\<rparr>,
       \<lparr>tx_id = 1, tx_user = ''a'', tx_amount = 900, tx_kind = ''merchant_earning'', tx_ref = ''o1'', tx_note = [], tx_by = None, tx_at = 0\<rparr>,
       \<lparr>tx_id = 2, tx_user = ''a'', tx_amount = 700, tx_kind = ''refund'', tx_ref = ''o1'', tx_note = [], tx_by = None, tx_at = 0\<rparr>,
       \<lparr>tx_id = 3, tx_user = ''t'', tx_amount = - 900, tx_kind = ''platform_profit'', tx_ref = ''o1'', tx_note = [], tx_by = None, tx_at = 0\<rparr>],
     next_tx := 4\<rparr>"

text \<open>The same order where the store was to be paid 900 in cash, 200 of it reversed before.\<close>

definition example_goods_cash_db :: settle_db where
  "example_goods_cash_db = example_goods_db\<lparr>
     wallets := [(''t'', zero_wallet\<lparr>w_treasury := True, w_balance := 100\<rparr>), (''h'', zero_wallet\<lparr>w_cash_holding := True, w_balance := 700\<rparr>), (''a'', zero_wallet)],
     wallet_txs := [],
     settlements := [\<lparr>st_id = ''s1'', st_order = ''o1'', st_merchant = ''m'', st_owner = ''a'', st_method = ''cash'',
       st_amount = 900, st_adjusted = 0, st_reversed = 200, st_state = ''cash_due'', st_pct = Some 0, st_waived = 0,
       st_earning_tx = None, st_accrued_tx = Some 0, st_paid_tx = None, st_paid_by = None, st_paid_owner = None,
       st_paid_via = None, st_note = [], st_created = 1\<rparr>]\<rparr>"

lemma goods_settled_once_witness:
  "(\<exists>db. SettleGoods ''o1'' GoodsToMerchant ''a'' 50 example_goods_db = Inr db \<and> kind_log db ''o1'' ''compensation'' = [(''a'', 50)] \<and>
      tx_sum db ''o1'' order_kinds = 0 \<and> earned db ''o1'' ''merchant_earning'' ''a'' = 550 \<and> Debt db PartyMerchant ''m'' = 550 \<and>
      failed (SettleGoods ''o1'' GoodsToMerchant ''a'' 0 db)) \<and>
   (\<exists>db s. SettleGoods ''o1'' GoodsToMerchant ''a'' 0 example_goods_cash_db = Inr db \<and> settlement_of db ''s1'' = Some s \<and>
      st_state s = ''cash_reversed'' \<and> st_reversed s = 900 \<and> kind_log db ''o1'' ''merchant_cash_accrued'' = [(''h'', - 700)] \<and>
      Debt db PartyMerchant ''m'' = 0)"
proof
  let ?r = "SettleGoods ''o1'' GoodsToMerchant ''a'' 50 example_goods_db"
  let ?x = "example_order\<lparr>o_status := StFailed, o_return_to := Some ReturnToStore, o_goods_handed_at := Some 5\<rparr>"
  have "case ?r of Inl _ \<Rightarrow> False | Inr db \<Rightarrow> cash_part db ?x = 0" by code_simp
  then obtain db where r: "?r = Inr db" "cash_part db ?x = 0" by (auto split: sum.splits)
  have x: "order_of example_goods_db ''o1'' = Some ?x" "goods_owner ''o1'' example_goods_db = Some ''a''" "treasuryOn example_goods_db = ''t''"
    "kind_log example_goods_db ''o1'' ''compensation'' = []" "o_kind ?x = KindStandard"
    "list_ex (\<lambda>t. tx_ref t = ''o1'' \<and> tx_kind t = ''order_payment'') (wallet_txs example_goods_db)"
    "blank_book example_goods_db" "obligations example_goods_db = []" "cash_rows ''o1'' example_goods_db = []"
    "goods_posted example_goods_db ''o1'' = [(''a'', 900)]" "AvailableTx example_goods_db ''a'' = 300"
    "earned example_goods_db ''o1'' ''merchant_earning'' ''a'' = 900" "Debt example_goods_db PartyMerchant ''m'' = 0"
    "m_owner (hd (merchants example_goods_db)) = Some ''a''" "map m_id (merchants example_goods_db) = [''m'']" by code_simp+
  have new: "no_returns ''o1'' example_goods_db" by (simp add: no_returns_def origin_taken_def x(8))
  have only: "m = ''m''" if "merchant_of example_goods_db m = Some row" for m row
    using that x(15) by (auto simp: merchant_of_def find_Some_iff)
  note g = goods_settled_once[OF r(1) x(1), of "''o1''" "''o1''" "''a''" PartyMerchant "''m''" GoodsToMerchant "''a''" 0]
  from g new blank_book_inv[OF x(7)] obtain m row where "merchant_of example_goods_db m = Some row"
    "store_returns ''o1'' m ''a'' 900 350 example_goods_db db" by (auto simp: x(2,3,9-11))
  with only have ret: "store_returns ''o1'' ''m'' ''a'' 900 350 example_goods_db db" by blast
  have "earned db ''o1'' ''merchant_earning'' ''a'' = 550" "Debt db PartyMerchant ''m'' = 550"
    using ret[unfolded store_returns_def, THEN conjunct1, rule_format, of "''a''"] ret[unfolded store_returns_def, THEN conjunct2, rule_format, of PartyMerchant "''m''"]
    by (simp_all add: x(12,13))
  then show "\<exists>db. ?r = Inr db \<and> kind_log db ''o1'' ''compensation'' = [(''a'', 50)] \<and>
      tx_sum db ''o1'' order_kinds = 0 \<and> earned db ''o1'' ''merchant_earning'' ''a'' = 550 \<and> Debt db PartyMerchant ''m'' = 550 \<and>
      failed (SettleGoods ''o1'' GoodsToMerchant ''a'' 0 db)"
    using g r x(2-6) by (intro exI[of _ db]) (simp add: office_goods_def)
next
  let ?r = "SettleGoods ''o1'' GoodsToMerchant ''a'' 0 example_goods_cash_db"
  let ?s = "hd (settlements example_goods_cash_db)"
  have "\<not> failed ?r" by code_simp
  then obtain db where r: "?r = Inr db" by (auto simp: failed_def split: sum.splits)
  have x: "order_of example_goods_cash_db ''o1'' = Some (hd (orders example_goods_db))" "blank_book example_goods_cash_db"
    "obligations example_goods_cash_db = []" "goods_posted example_goods_cash_db ''o1'' = []" "cash_rows ''o1'' example_goods_cash_db = [?s]"
    "settlement_of example_goods_cash_db ''s1'' = Some ?s" "st_id ?s = ''s1''" "merchant_of example_goods_cash_db (st_merchant ?s) \<noteq> None" "st_outstanding ?s = 700"
    "reversals example_goods_cash_db = []" "cashHoldingOn example_goods_cash_db = Inr ''h''" "Debt example_goods_cash_db PartyMerchant ''m'' = 0"
    "kind_log example_goods_cash_db ''o1'' ''merchant_cash_accrued'' = []" "st_state ?s = ''cash_due''"
    "st_state (reversed_row 700 ?s) = ''cash_reversed''" "st_reversed (reversed_row 700 ?s) = 900" by code_simp+
  have new: "no_returns ''o1'' example_goods_cash_db" by (simp add: no_returns_def origin_taken_def x(3))
  have "cash_returns ''o1'' ?s example_goods_cash_db db"
    using goods_settled_once[OF r x(1)] x(4-10) new blank_book_inv[OF x(2)] by simp
  then show "\<exists>db s. ?r = Inr db \<and> settlement_of db ''s1'' = Some s \<and> st_state s = ''cash_reversed'' \<and> st_reversed s = 900 \<and>
      kind_log db ''o1'' ''merchant_cash_accrued'' = [(''h'', - 700)] \<and> Debt db PartyMerchant ''m'' = 0"
    using r x(7,9,11-16) by (intro exI[of _ db] exI[of _ "reversed_row 700 ?s"]) (simp add: cash_returns_def)
qed

end
