(* ===== verification/Waiver.thy ===== *)
theory Waiver
  imports Undeliver
begin

text \<open>
  The commission of a delivered order that the store did not leave with the driver (\<open>orders/commission_waiver.go\<close>,
  \<open>repSharesToReverse\<close> of \<open>orders/rep_parts.go\<close>): the store kept it in cash out of what it was due, so it leaves the
  driver's box, passes through the holding wallet, is written on the settlements of the stores, what the
  representatives earned of it is taken back or owed, and the share of the platform is taken again. The columns that
  only tell who waived it, when and by which rows are left out; of drivers who collected the same the first is taken.
\<close>

section \<open>Errors and rows\<close>

definition ErrWaiverReasonRequired :: err where "ErrWaiverReasonRequired = AppError ''commission_waiver_reason_required''"
definition ErrWaiverNotDelivered :: err where "ErrWaiverNotDelivered = AppError ''commission_waiver_not_delivered''"
definition ErrWaiverNotStandard :: err where "ErrWaiverNotStandard = AppError ''commission_waiver_not_standard''"
definition ErrWaiverNoCommission :: err where "ErrWaiverNoCommission = AppError ''commission_waiver_no_commission''"
definition ErrCommissionAlreadyWaived :: err where "ErrCommissionAlreadyWaived = AppError ''commission_already_waived''"
definition ErrWaiverNotDriverCash :: err where "ErrWaiverNotDriverCash = AppError ''commission_waiver_not_driver_cash''"
definition ErrWaiverWalletStore :: err where "ErrWaiverWalletStore = AppError ''commission_waiver_wallet_store''"
definition ErrWaiverDriverCashShort :: err where "ErrWaiverDriverCashShort = AppError ''commission_waiver_driver_cash_short''"

definition CauseWaivedRepCommission :: string where "CauseWaivedRepCommission = ''waived_rep_commission''"

record waiver_result =
  wr_waived :: int
  wr_held :: int
  wr_driver :: user_id
  wr_rep :: user_id
  wr_reps :: "user_id list"
  wr_rep_reversed :: int
  wr_rep_debt :: int

record waiver_share =
  ws_settle :: string
  ws_merchant :: string
  ws_commission :: int

section \<open>Who kept the commission\<close>

text \<open>The driver who collected most of the order.\<close>

definition collector :: "string \<Rightarrow> int \<Rightarrow> 'a cash_db_scheme \<Rightarrow> err + user_id" where
  "collector ord commission db =
     bindE (sums_by_user [(ce_driver e, ce_amount e). e \<leftarrow> cash_entries db, ce_ref e = ord \<and> ce_kind e = ''order_collection'']) (\<lambda>cols.
     case sort_key (\<lambda>c. - snd c) cols of
       [] \<Rightarrow> Inl ErrWaiverNotDriverCash
     | (d, a) # _ \<Rightarrow> if a < commission then Inl ErrWaiverNotDriverCash else Inr d)"

definition paid_in_cash :: "settlement \<Rightarrow> bool" where
  "paid_in_cash s \<longleftrightarrow> st_method s = ''cash'' \<and> st_state s = ''cash_paid'' \<and> st_paid_via s = Some paidViaDriver"

definition waiver_share_of :: "order \<Rightarrow> 'a settle_db_scheme \<Rightarrow> settlement \<Rightarrow> err + waiver_share" where
  "waiver_share_of x db s =
     bindE (items_cost (store_items db x (st_merchant s))) (\<lambda>cost.
     Inr \<lparr>ws_settle = st_id s, ws_merchant = st_merchant s, ws_commission = wrap64 (cost - st_amount s)\<rparr>)"

definition waiver_rows :: "string \<Rightarrow> 'a settle_db_scheme \<Rightarrow> settlement list" where
  "waiver_rows ord db = sort_key (\<lambda>s. (st_created s, text_key (st_id s))) [s \<leftarrow> settlements db. st_order s = ord]"

definition waiver_shares :: "order \<Rightarrow> 'a settle_db_scheme \<Rightarrow> err + waiver_share list" where
  "waiver_shares x db =
     bindE (foldE (\<lambda>s acc. bindE (waiver_share_of x db s) (\<lambda>sh. Inr (acc @ [sh]))) (waiver_rows (o_id x) db) []) (\<lambda>shares.
     let total = wrap_sum (map ws_commission shares)
     in if shares = [] \<or> list_ex (\<lambda>s. \<not> paid_in_cash s) (waiver_rows (o_id x) db) then Inl ErrWaiverWalletStore
        else let fix = (total \<le> 0 \<and> length shares = 1);
                 shares = (if fix then map (\<lambda>sh. sh\<lparr>ws_commission := o_platform_commission x\<rparr>) shares else shares);
                 total = (if fix then o_platform_commission x else total)
             in if total \<noteq> o_platform_commission x then Inl (ErrMsg ''waiver: commissions do not add up'') else Inr shares)"

section \<open>What the representatives earned of it\<close>

definition waive_held :: "string \<Rightarrow> user_id \<Rightarrow> int \<Rightarrow> held_commission \<Rightarrow> 'a money_db_scheme \<Rightarrow> 'a money_db_scheme" where
  "waive_held ord rep remain h db =
    (let cut = wrap64 (hc_amount h - remain)
     in if cut \<le> 0 then db
        else db\<lparr>held_commissions := map (\<lambda>y. if hc_order y = ord \<and> hc_rep y = rep
          then (if wrap64 (hc_amount h - cut) \<le> 0 then y\<lparr>hc_status := ''forfeited''\<rparr> else y\<lparr>hc_amount := hc_amount y - cut\<rparr>)
          else y) (held_commissions db)\<rparr>)"

definition held_row :: "string \<Rightarrow> user_id \<Rightarrow> 'a money_db_scheme \<Rightarrow> held_commission option" where
  "held_row ord rep db = find (\<lambda>h. hc_order h = ord \<and> hc_rep h = rep \<and> hc_status h = ''held'') (held_commissions db)"

definition commission_paid :: "string \<Rightarrow> user_id \<Rightarrow> 'a wallet_db_scheme \<Rightarrow> err + int" where
  "commission_paid ord rep db = sql_int (sum_list (map snd [p \<leftarrow> paid_rows db ord ''commission''. fst p = rep]))"

text \<open>What a representative still earns when the commission is zero; without a snapshot nothing.\<close>

definition rep_remain :: "string \<Rightarrow> int \<Rightarrow> 'a money_db_scheme \<Rightarrow> err + int" where
  "rep_remain ord promo db =
    (case snapshotOf ord db of
       Inl e \<Rightarrow> if e = ErrNoSnapshot then Inr 0 else Inl e
     | Inr snap \<Rightarrow>
         bindE (line_margin [i \<leftarrow> order_items db. oi_order i = ord]) (\<lambda>margin.
         Inr (Amount_Of (rep_percent snap) (rep_base (es_source snap) 0 margin promo))))"

definition repShareToReverse :: "string \<Rightarrow> 'a money_db_scheme \<Rightarrow> err + (user_id \<times> int) option \<times> 'a money_db_scheme" where
  "repShareToReverse ord db =
    (case order_of db ord of
       None \<Rightarrow> Inr (None, db)
     | Some x \<Rightarrow> (case order_party x of
         None \<Rightarrow> Inr (None, db)
       | Some m \<Rightarrow> (case merchant_of db m of
           None \<Rightarrow> Inr (None, db)
         | Some row \<Rightarrow>
             bindE (promo_cost db x) (\<lambda>promo.
             case m_rep row of
               None \<Rightarrow> Inr (None, db)
             | Some rep \<Rightarrow>
                 bindE (rep_remain ord promo db) (\<lambda>remain.
                 case held_row ord rep db of
                   Some h \<Rightarrow> Inr (Some (rep, 0), waive_held ord rep remain h db)
                 | None \<Rightarrow>
                     bindE (commission_paid ord rep db) (\<lambda>paid.
                     Inr (Some (rep, if wrap64 (paid - remain) \<le> 0 then 0 else wrap64 (paid - remain)), db)))))))"

definition repStoreSharesNoAmount :: "string \<Rightarrow> 'a money_db_scheme \<Rightarrow> rep_store_share list" where
  "repStoreSharesNoAmount ord db =
     map (\<lambda>p. \<lparr>rs_merchant = pa_merchant p, rs_name = '''', rs_rep = None, rs_part_rep = pa_rep p, rs_is_buyer = False, rs_amount = 0\<rparr>)
       (sort_key pa_seq [p \<leftarrow> order_parts db. pa_order p = ord \<and> pa_rep p \<noteq> None])"

text \<open>One representative of an order of several stores, with what he still earns.\<close>

definition reverse_part ::
  "string \<Rightarrow> user_id \<times> int \<Rightarrow> (user_id \<times> int) list \<times> 'a money_db_scheme \<Rightarrow> err + (user_id \<times> int) list \<times> 'a money_db_scheme" where
  "reverse_part ord = (\<lambda>(rep, remain) (out, db).
    (case held_row ord rep db of
       Some h \<Rightarrow> Inr (out @ [(rep, 0)], waive_held ord rep remain h db)
     | None \<Rightarrow>
         bindE (commission_paid ord rep db) (\<lambda>paid.
         Inr (out @ [(rep, max (wrap64 (paid - remain)) 0)], db))))"

definition part_remains :: "rep_store_share list \<Rightarrow> (user_id \<times> int) list" where
  "part_remains shares =
     map (\<lambda>r. (r, wrap_sum (map rs_amount [sh \<leftarrow> shares. rs_part_rep sh = Some r])))
       (firsts [r. sh \<leftarrow> shares, r \<leftarrow> (case rs_part_rep sh of None \<Rightarrow> [] | Some r \<Rightarrow> [r])])"

definition repSharesToReverse :: "string \<Rightarrow> 'a money_db_scheme \<Rightarrow> err + (user_id \<times> int) list \<times> 'a money_db_scheme" where
  "repSharesToReverse ord db =
     bindE (stopsAbove1 ord db) (\<lambda>multi.
     if \<not> multi
     then bindE (repShareToReverse ord db) (\<lambda>(r, db). Inr (case r of None \<Rightarrow> [] | Some p \<Rightarrow> [p], db))
     else bindE (case snapshotOf ord db of
                   Inl e \<Rightarrow> if e = ErrNoSnapshot then Inr (repStoreSharesNoAmount ord db) else Inl e
                 | Inr snap \<Rightarrow> repStoreShares ord snap True db) (\<lambda>shares.
          foldE (reverse_part ord) (part_remains shares) ([], db)))"

definition reverseRepForWaiver ::
  "string \<Rightarrow> user_id \<Rightarrow> user_id \<times> int \<Rightarrow> (int \<times> int) \<times> 'a obligations_db_scheme \<Rightarrow> err + (int \<times> int) \<times> 'a obligations_db_scheme" where
  "reverseRepForWaiver ord actor = take_or_owe ord actor ''commission'' PartyRep CauseWaivedRepCommission ''commission of a waived order''"

section \<open>The waiver\<close>

definition waive_share :: "string \<Rightarrow> user_id \<Rightarrow> user_id \<Rightarrow> waiver_share \<Rightarrow> 'a settle_db_scheme \<Rightarrow> err + 'a settle_db_scheme" where
  "waive_share ord hid actor sh db =
    (if ws_commission sh \<le> 0 then Inr db
     else bindE (ApplyTxID hid (ws_commission sh) ''merchant_cash_accrued'' ord ''commission the store kept'' (Some actor) db) (\<lambda>(_, db).
          bindE (ApplyTxID hid (- ws_commission sh) ''merchant_cash_paid'' ord ''commission the driver paid the store'' (Some actor) db) (\<lambda>(_, db).
          update_settlement (ws_settle sh) (\<lambda>s. s\<lparr>st_waived := ws_commission sh\<rparr>) db)))"

definition waived_row :: "order \<Rightarrow> order" where
  "waived_row x = x\<lparr>o_platform_commission := 0, o_commission_waived := o_platform_commission x\<rparr>"

definition waiver_gate :: "order \<Rightarrow> err + unit" where
  "waiver_gate x =
    (if o_commission_waived x > 0 then Inl ErrCommissionAlreadyWaived
     else if o_kind x \<noteq> KindStandard then Inl ErrWaiverNotStandard
     else if o_status x \<noteq> StDelivered then Inl ErrWaiverNotDelivered
     else if o_platform_commission x \<le> 0 then Inl ErrWaiverNoCommission else Inr ())"

definition waive_commission :: "string \<Rightarrow> user_id \<Rightarrow> string \<Rightarrow> 'a money_db_scheme \<Rightarrow> err + waiver_result \<times> 'a money_db_scheme" where
  "waive_commission ord actor reason db =
    (if TrimSpace reason = '''' then Inl ErrWaiverReasonRequired
     else case order_of db ord of
       None \<Rightarrow> Inl ErrNotFound
     | Some x \<Rightarrow>
         bindE (waiver_gate x) (\<lambda>_.
         bindE (collector ord (o_platform_commission x) db) (\<lambda>d.
         bindE (waiver_shares x db) (\<lambda>shares.
         if Held db d < o_platform_commission x then Inl ErrWaiverDriverCashShort
         else
           bindE (repSharesToReverse ord db) (\<lambda>(reps, db).
           bindE (WaiveCommissionTx d (o_platform_commission x) ord (TrimSpace reason) actor db) (\<lambda>(held, db).
           bindE (cashHoldingOn db) (\<lambda>hid.
           bindE (foldE (waive_share ord hid actor) shares db) (\<lambda>db.
           let reps = [r \<leftarrow> reps. snd r > 0]
           in bindE (foldE (reverseRepForWaiver ord actor) reps ((0, 0), db)) (\<lambda>((taken, debt), db).
              bindE (creditTreasury ord actor (update_order ord waived_row db)) (\<lambda>db.
              Inr (\<lparr>wr_waived = o_platform_commission x, wr_held = held, wr_driver = d, wr_rep = (if reps = [] then '''' else fst (hd reps)),
                    wr_reps = map fst reps, wr_rep_reversed = taken, wr_rep_debt = debt\<rparr>, db)))))))))))"

section \<open>The representatives\<close>

lemma waive_held_shape: "\<exists>hs. waive_held ord rep r h db = db\<lparr>held_commissions := hs\<rparr>"
  by (auto simp: waive_held_def Let_def intro: exI[of _ "held_commissions db"])

lemma reverse_part_shape:
  assumes "reverse_part ord p (out, db) = Inr (out', db')"
  shows "\<exists>hs rs. db' = db\<lparr>held_commissions := hs\<rparr> \<and> out' = out @ rs \<and> map fst rs = [fst p]"
proof -
  obtain rep r where p: "p = (rep, r)" by (cases p)
  show ?thesis
  proof (cases "held_row ord rep db")
    case (Some h)
    with assms waive_held_shape[of ord rep r h db] show ?thesis by (auto simp: reverse_part_def p)
  next
    case None
    with assms show ?thesis by (auto simp: reverse_part_def p branches intro: exI[of _ "held_commissions db"])
  qed
qed

lemma reverse_parts_shape:
  assumes "foldE (reverse_part ord) ps (out, db) = Inr (out', db')"
  shows "\<exists>hs rs. db' = db\<lparr>held_commissions := hs\<rparr> \<and> out' = out @ rs \<and> map fst rs = map fst ps"
  using assms
proof (induction ps arbitrary: out db)
  case Nil
  then show ?case by (auto intro: exI[of _ "held_commissions db"])
next
  case (Cons p ps)
  from Cons.prems obtain o1 d1 where f: "reverse_part ord p (out, db) = Inr (o1, d1)"
    and rest: "foldE (reverse_part ord) ps (o1, d1) = Inr (out', db')" by (auto simp: bindE_eq_Inr)
  from reverse_part_shape[OF f] Cons.IH[OF rest] show ?case by auto
qed

text \<open>Only held commissions change, and a representative comes once.\<close>

lemma repSharesToReverse_shape:
  assumes "repSharesToReverse ord db = Inr (reps, db')"
  shows "\<exists>hs. db' = db\<lparr>held_commissions := hs\<rparr>" and "distinct (map fst reps)"
proof -
  have one: "\<exists>hs. d = db\<lparr>held_commissions := hs\<rparr>" if "repShareToReverse ord db = Inr (r, d)" for r d
  proof -
    have "d = db \<or> (\<exists>rep m h. d = waive_held ord rep m h db)"
      using that by (auto simp: repShareToReverse_def bindE_eq_Inr split: option.splits) blast
    then show ?thesis using waive_held_shape[of ord _ _ _ db] by (auto intro: exI[of _ "held_commissions db"])
  qed
  have d: "distinct (map fst (part_remains shares))" for shares by (simp add: part_remains_def comp_def)
  from assms obtain multi where m: "stopsAbove1 ord db = Inr multi" and r: "(if \<not> multi
     then bindE (repShareToReverse ord db) (\<lambda>(r, db). Inr (case r of None \<Rightarrow> [] | Some p \<Rightarrow> [p], db))
     else bindE (case snapshotOf ord db of
                   Inl e \<Rightarrow> if e = ErrNoSnapshot then Inr (repStoreSharesNoAmount ord db) else Inl e
                 | Inr snap \<Rightarrow> repStoreShares ord snap True db) (\<lambda>shares.
          foldE (reverse_part ord) (part_remains shares) ([], db))) = Inr (reps, db')"
    unfolding repSharesToReverse_def by (simp only: bindE_eq_Inr) blast
  have "(\<exists>hs. db' = db\<lparr>held_commissions := hs\<rparr>) \<and> distinct (map fst reps)"
  proof (cases multi)
    case True
    with r obtain shares where "foldE (reverse_part ord) (part_remains shares) ([], db) = Inr (reps, db')"
      by (auto simp: bindE_eq_Inr simp del: foldE.simps)
    from reverse_parts_shape[OF this] d[of shares] show ?thesis by auto
  next
    case False
    with r show ?thesis by (auto simp: bindE_eq_Inr dest: one split: option.splits prod.splits)
  qed
  then show "\<exists>hs. db' = db\<lparr>held_commissions := hs\<rparr>" "distinct (map fst reps)" by blast+
qed

section \<open>The shares of the stores\<close>

definition waived_of :: "waiver_share list \<Rightarrow> settlement \<Rightarrow> settlement" where
  "waived_of shares s = (case find (\<lambda>sh. ws_settle sh = st_id s \<and> 0 < ws_commission sh) shares of
     None \<Rightarrow> s | Some sh \<Rightarrow> s\<lparr>st_waived := ws_commission sh\<rparr>)"

definition kept_shares :: "waiver_share list \<Rightarrow> int" where
  "kept_shares shares = sum_list (map (\<lambda>sh. max 0 (ws_commission sh)) shares)"

lemma waive_share_effect:
  fixes db :: "'a settle_db_scheme"
  assumes "waive_share ord hid actor sh db = Inr db'"
  shows "money_only ord {''merchant_cash_accrued'', ''merchant_cash_paid''} {} db db'" and "boxes db' = boxes db"
    and "settlements db' = map (waived_of [sh]) (settlements db)"
    and "tx_sum db' ord [''merchant_cash_accrued''] = tx_sum db ord [''merchant_cash_accrued''] + max 0 (ws_commission sh)"
    and "tx_sum db' ord [''merchant_cash_paid''] = tx_sum db ord [''merchant_cash_paid''] - max 0 (ws_commission sh)"
proof -
  have "money_only ord {''merchant_cash_accrued'', ''merchant_cash_paid''} {} db db' \<and> boxes db' = boxes db \<and>
     settlements db' = map (waived_of [sh]) (settlements db) \<and>
     tx_sum db' ord [''merchant_cash_accrued''] = tx_sum db ord [''merchant_cash_accrued''] + max 0 (ws_commission sh) \<and>
     tx_sum db' ord [''merchant_cash_paid''] = tx_sum db ord [''merchant_cash_paid''] - max 0 (ws_commission sh)"
  proof (cases "ws_commission sh \<le> 0")
    case True
    then have "waived_of [sh] s = s" for s by (simp add: waived_of_def)
    with True assms show ?thesis by (simp add: waive_share_def max_def cong: map_cong)
  next
    case False
    with assms obtain b1 i1 d1 b2 i2 d2 where
        a: "applyTx hid (ws_commission sh) ''merchant_cash_accrued'' ord ''commission the store kept'' (Some actor) db = Inr ((b1, i1), d1)"
      and b: "applyTx hid (- ws_commission sh) ''merchant_cash_paid'' ord ''commission the driver paid the store'' (Some actor) d1 = Inr ((b2, i2), d2)"
      and u: "update_settlement (ws_settle sh) (\<lambda>s. s\<lparr>st_waived := ws_commission sh\<rparr>) d2 = Inr db'"
      by (auto simp: waive_share_def ApplyTxID_def bindE_eq_Inr)
    have "money_only ord {''merchant_cash_accrued'', ''merchant_cash_paid''} {} db db'"
      using money_only_chain[OF money_only_chain[OF money_only_post[OF a] money_only_post[OF b]] money_only_update_settlement[OF u]] by simp
    moreover have "boxes d1 = boxes db" "boxes d2 = boxes d1" "settlements d1 = settlements db" "settlements d2 = settlements d1"
      using applyTx_frame[OF a] applyTx_frame[OF b] by auto
    moreover have "boxes db' = boxes d2" "wallet_txs db' = wallet_txs d2"
      "settlements db' = map (\<lambda>s. if st_id s = ws_settle sh then s\<lparr>st_waived := ws_commission sh\<rparr> else s) (settlements d2)"
      using u by (auto simp: update_settlement_Inr)
    moreover have "tx_sum d2 ord [k] = tx_sum db ord [k] + (if k = ''merchant_cash_accrued'' then ws_commission sh else 0) -
        (if k = ''merchant_cash_paid'' then ws_commission sh else 0)" for k
      by (auto simp: applyTx_tx_sum[OF b] applyTx_tx_sum[OF a])
    moreover have "tx_sum db' ord ks = tx_sum d2 ord ks" for ks using \<open>wallet_txs db' = wallet_txs d2\<close> by (simp add: tx_sum_def)
    moreover have "waived_of [sh] s = (if st_id s = ws_settle sh then s\<lparr>st_waived := ws_commission sh\<rparr> else s)" for s
      using False by (auto simp: waived_of_def)
    ultimately show ?thesis using False by (simp add: max_def)
  qed
  then show "money_only ord {''merchant_cash_accrued'', ''merchant_cash_paid''} {} db db'" "boxes db' = boxes db"
    "settlements db' = map (waived_of [sh]) (settlements db)"
    "tx_sum db' ord [''merchant_cash_accrued''] = tx_sum db ord [''merchant_cash_accrued''] + max 0 (ws_commission sh)"
    "tx_sum db' ord [''merchant_cash_paid''] = tx_sum db ord [''merchant_cash_paid''] - max 0 (ws_commission sh)" by blast+
qed

lemma waive_shares_effect:
  fixes db :: "'a settle_db_scheme"
  assumes "foldE (waive_share ord hid actor) shares db = Inr db'" and "distinct (map ws_settle shares)"
  shows "money_only ord {''merchant_cash_accrued'', ''merchant_cash_paid''} {} db db'" and "boxes db' = boxes db"
    and "settlements db' = map (waived_of shares) (settlements db)"
    and "tx_sum db' ord [''merchant_cash_accrued''] = tx_sum db ord [''merchant_cash_accrued''] + kept_shares shares"
    and "tx_sum db' ord [''merchant_cash_paid''] = tx_sum db ord [''merchant_cash_paid''] - kept_shares shares"
proof -
  have step: "waived_of shares (waived_of [sh] s) = waived_of (sh # shares) s" if "ws_settle sh \<notin> ws_settle ` set shares" for sh shares s
  proof -
    have "find (\<lambda>y. ws_settle y = st_id s \<and> 0 < ws_commission y) shares = None" if "st_id s = ws_settle sh"
      unfolding find_None_iff that using \<open>ws_settle sh \<notin> ws_settle ` set shares\<close> by (metis image_eqI)
    then show ?thesis by (auto simp: waived_of_def split: option.splits)
  qed
  have "money_only ord {''merchant_cash_accrued'', ''merchant_cash_paid''} {} db db' \<and> boxes db' = boxes db \<and>
     settlements db' = map (waived_of shares) (settlements db) \<and>
     tx_sum db' ord [''merchant_cash_accrued''] = tx_sum db ord [''merchant_cash_accrued''] + kept_shares shares \<and>
     tx_sum db' ord [''merchant_cash_paid''] = tx_sum db ord [''merchant_cash_paid''] - kept_shares shares"
    using assms
  proof (induction shares arbitrary: db)
    case Nil
    have "waived_of [] = (\<lambda>s. s)" by (simp add: fun_eq_iff waived_of_def)
    with Nil show ?case by (simp add: kept_shares_def)
  next
    case (Cons sh shares)
    from Cons.prems obtain d where f: "waive_share ord hid actor sh db = Inr d"
      and rest: "foldE (waive_share ord hid actor) shares d = Inr db'" by (auto simp: bindE_eq_Inr)
    have new: "ws_settle sh \<notin> ws_settle ` set shares" and "distinct (map ws_settle shares)" using Cons.prems(2) by auto
    note e = waive_share_effect[OF f] and i = Cons.IH[OF rest this(2)]
    have "money_only ord {''merchant_cash_accrued'', ''merchant_cash_paid''} {} db db'"
      using money_only_chain[OF e(1)] i by blast
    with e i step[OF new] show ?case by (simp add: kept_shares_def comp_def)
  qed
  then show "money_only ord {''merchant_cash_accrued'', ''merchant_cash_paid''} {} db db'" "boxes db' = boxes db"
    "settlements db' = map (waived_of shares) (settlements db)"
    "tx_sum db' ord [''merchant_cash_accrued''] = tx_sum db ord [''merchant_cash_accrued''] + kept_shares shares"
    "tx_sum db' ord [''merchant_cash_paid''] = tx_sum db ord [''merchant_cash_paid''] - kept_shares shares" by blast+
qed

section \<open>The whole waiver\<close>

lemma waive_commission_steps:
  fixes db :: "'a money_db_scheme"
  assumes "waive_commission ord actor reason db = Inr (res, db')" and x: "order_of db ord = Some x"
  obtains d shares reps d1 held d2 hid d3 s d4 where "TrimSpace reason \<noteq> ''''" "waiver_gate x = Inr ()"
    "collector ord (o_platform_commission x) db = Inr d" "waiver_shares x db = Inr shares" "o_platform_commission x \<le> Held db d"
    "repSharesToReverse ord db = Inr (reps, d1)" "WaiveCommissionTx d (o_platform_commission x) ord (TrimSpace reason) actor d1 = Inr (held, d2)"
    "cashHoldingOn d2 = Inr hid" "foldE (waive_share ord hid actor) shares d2 = Inr d3"
    "foldE (reverseRepForWaiver ord actor) [r \<leftarrow> reps. snd r > 0] ((0, 0), d3) = Inr (s, d4)"
    "creditTreasury ord actor (update_order ord waived_row d4) = Inr db'"
    "wr_waived res = o_platform_commission x" "wr_driver res = d" "wr_reps res = map fst [r \<leftarrow> reps. snd r > 0]"
proof -
  have t: "TrimSpace reason \<noteq> ''''" using assms(1) by (auto simp: waive_commission_def)
  from assms(1) obtain u d shares where g: "waiver_gate x = Inr u" and c: "collector ord (o_platform_commission x) db = Inr d"
    and sh: "waiver_shares x db = Inr shares" and r: "(if Held db d < o_platform_commission x then Inl ErrWaiverDriverCashShort
         else
           bindE (repSharesToReverse ord db) (\<lambda>(reps, db).
           bindE (WaiveCommissionTx d (o_platform_commission x) ord (TrimSpace reason) actor db) (\<lambda>(held, db).
           bindE (cashHoldingOn db) (\<lambda>hid.
           bindE (foldE (waive_share ord hid actor) shares db) (\<lambda>db.
           let reps = [r \<leftarrow> reps. snd r > 0]
           in bindE (foldE (reverseRepForWaiver ord actor) reps ((0, 0), db)) (\<lambda>((taken, debt), db).
              bindE (creditTreasury ord actor (update_order ord waived_row db)) (\<lambda>db.
              Inr (\<lparr>wr_waived = o_platform_commission x, wr_held = held, wr_driver = d, wr_rep = (if reps = [] then '''' else fst (hd reps)),
                    wr_reps = map fst reps, wr_rep_reversed = taken, wr_rep_debt = debt\<rparr>, db)))))))) = Inr (res, db')"
    unfolding waive_commission_def x option.case if_not_P[OF t] by (simp only: bindE_eq_Inr) blast
  have h: "o_platform_commission x \<le> Held db d" using r by (auto split: if_splits)
  from r h obtain reps d1 held d2 hid d3 taken debt d4 where *:
      "repSharesToReverse ord db = Inr (reps, d1)" "WaiveCommissionTx d (o_platform_commission x) ord (TrimSpace reason) actor d1 = Inr (held, d2)"
      "cashHoldingOn d2 = Inr hid" "foldE (waive_share ord hid actor) shares d2 = Inr d3"
      "foldE (reverseRepForWaiver ord actor) [r \<leftarrow> reps. snd r > 0] ((0, 0), d3) = Inr ((taken, debt), d4)"
      "creditTreasury ord actor (update_order ord waived_row d4) = Inr db'"
      "wr_waived res = o_platform_commission x" "wr_driver res = d" "wr_reps res = map fst [r \<leftarrow> reps. snd r > 0]"
    by (auto simp: bindE_eq_Inr Let_def not_less simp del: foldE.simps split: prod.splits)
  have g2: "waiver_gate x = Inr ()" using g by simp
  from that[OF t g2 c sh h *] show thesis .
qed

lemma take_or_owe_settlements:
  fixes db :: "'a settle_db_scheme"
  assumes "foldE (take_or_owe ord actor kind party cause nt) gs (s, db) = Inr (s', db')"
  shows "settlements db' = settlements db"
proof -
  have owe: "settlements w = settlements u" if "Create p v a c r m u = Inr (b, w)" for p v a c r m b and u w :: "'a settle_db_scheme"
    using settle_tables_eqD(1)[OF wipe_settle_tables(1)[OF CreateRef_wipe[OF that[unfolded Create_def]]]] .
  have post: "settlements w = settlements u" if "ApplyTx v a k r nt' m u = Inr (b, w)" for v a k r nt' m b and u w :: "'a settle_db_scheme"
  proof -
    from that obtain q where "applyTx v a k r nt' m u = Inr (q, w)" by (auto simp: ApplyTx_def branches)
    from settle_tables_eqD(1)[OF applyTx_settle_tables[OF this]] show ?thesis .
  qed
  have step: "settlements w = settlements u" if st: "take_or_owe ord actor kind party cause nt g (t, u) = Inr (t', w)"
    for g t t' and u w :: "'a settle_db_scheme"
  proof -
    obtain v a where g: "g = (v, a)" by (cases g)
    define taken where "taken = max (min a (AvailableTx u v)) 0"
    obtain d where p: "(if taken > 0 then bindE (ApplyTx v (- taken) kind ord nt (Some actor) u) (\<lambda>(_, db). Inr db) else Inr u) = Inr d"
      and c: "(if a - taken > 0 then bindE (Create party v (a - taken) cause ord (Some actor) d) (\<lambda>(_, db). Inr db) else Inr d) = Inr w"
      using take_or_owe_parts[OF st[unfolded g]] unfolding taken_def by blast
    have "settlements d = settlements u" using p by (auto simp: bindE_eq_Inr dest: post split: if_splits)
    moreover have "settlements w = settlements d" using c by (auto simp: bindE_eq_Inr dest: owe split: if_splits)
    ultimately show ?thesis by simp
  qed
  have "settlements (snd (s', db')) = settlements db"
  proof (rule foldE_inv[OF assms, where P = "\<lambda>u. settlements (snd u) = settlements db"])
    fix x and u v :: "(int \<times> int) \<times> 'a settle_db_scheme" assume "settlements (snd u) = settlements db" and f: "take_or_owe ord actor kind party cause nt x u = Inr v"
    then show "settlements (snd v) = settlements db" using step[of x "fst u" "snd u" "fst v" "snd v"] by simp
  qed simp
  then show ?thesis by simp
qed

lemma treasury_order_of: "creditTreasury ord actor db = Inr db' \<Longrightarrow> order_of db' = order_of db"
  using creditTreasury_shape applyTx_orders_cash(3) by blast

text \<open>There is a share for each row of the order; together they are the commission.\<close>

lemma waiver_shares_rows:
  assumes "waiver_shares x db = Inr shares"
  shows "map ws_settle shares = map st_id (waiver_rows (o_id x) db)"
    and "list_all paid_in_cash (waiver_rows (o_id x) db)"
    and "sum_list (map ws_commission shares) = o_platform_commission x \<or> wrap_sum (map ws_commission shares) = o_platform_commission x"
proof -
  let ?fix = "\<lambda>ss. wrap_sum (map ws_commission ss) \<le> 0 \<and> length ss = 1"
  from assms obtain ss where l: "foldE (\<lambda>s acc. bindE (waiver_share_of x db s) (\<lambda>sh. Inr (acc @ [sh]))) (waiver_rows (o_id x) db) [] = Inr ss"
    and g: "list_all paid_in_cash (waiver_rows (o_id x) db)"
    and shares: "shares = (if ?fix ss then map (\<lambda>sh. sh\<lparr>ws_commission := o_platform_commission x\<rparr>) ss else ss)"
    and sum: "?fix ss \<or> wrap_sum (map ws_commission ss) = o_platform_commission x"
    unfolding waiver_shares_def Let_def
    by (auto simp: bindE_eq_Inr list_ex_iff list_all_iff simp del: foldE.simps split: if_splits)
  show "list_all paid_in_cash (waiver_rows (o_id x) db)" by (rule g)
  from foldE_collect[OF l] have "list_all2 (\<lambda>s y. waiver_share_of x db s = Inr y) (waiver_rows (o_id x) db) ss" by simp
  then have "map ws_settle ss = map st_id (waiver_rows (o_id x) db)"
    by (induction rule: list_all2_induct) (auto simp: waiver_share_of_def bindE_eq_Inr)
  then show "map ws_settle shares = map st_id (waiver_rows (o_id x) db)" by (simp add: shares comp_def)
  show "sum_list (map ws_commission shares) = o_platform_commission x \<or> wrap_sum (map ws_commission shares) = o_platform_commission x"
    using sum by (auto simp: shares length_Suc_conv)
qed

lemma waiver_shares_distinct:
  assumes "waiver_shares x db = Inr shares" and "distinct (map st_id (settlements db))"
  shows "distinct (map ws_settle shares)"
proof -
  have "distinct (map st_id [s \<leftarrow> settlements db. st_order s = o_id x])" using assms(2) by (rule distinct_map_filter)
  then have "distinct (map st_id (waiver_rows (o_id x) db))" by (simp add: waiver_rows_def distinct_map)
  then show ?thesis by (simp add: waiver_shares_rows(1)[OF assms(1)])
qed

lemma kept_shares_commission:
  assumes "waiver_shares x db = Inr shares" and "\<And>sh. sh \<in> set shares \<Longrightarrow> 0 \<le> ws_commission sh" and "in64 (kept_shares shares)"
  shows "kept_shares shares = o_platform_commission x"
proof -
  have "kept_shares shares = sum_list (map ws_commission shares)"
    unfolding kept_shares_def by (rule arg_cong[where f = sum_list]) (use assms(2) in \<open>simp add: max_def\<close>)
  moreover have "wrap_sum (map ws_commission shares) = sum_list (map ws_commission shares)"
    by (rule wrap_sum_exact) (use assms(2,3) calculation in auto)
  ultimately show ?thesis using waiver_shares_rows(3)[OF assms(1)] by simp
qed

lemma waive_commission_effect:
  fixes db :: "'a money_db_scheme"
  assumes w: "waive_commission ord actor reason db = Inr (res, db')" and x: "order_of db ord = Some x"
    and ids: "distinct (map st_id (settlements db))" and sh: "waiver_shares x db = Inr shares"
  shows "order_of db' j = (if j = ord then Some (waived_row x) else order_of db j)"
    and "Held db' v = Held db v - (if v = wr_driver res then o_platform_commission x else 0)"
    and "r \<noteq> ord \<Longrightarrow> rows_of db' r = rows_of db r" and "settlements db' = map (waived_of shares) (settlements db)"
    and "tx_sum db' ord [''merchant_cash_accrued''] = tx_sum db ord [''merchant_cash_accrued''] + kept_shares shares"
    and "tx_sum db' ord [''merchant_cash_paid''] = tx_sum db ord [''merchant_cash_paid''] - kept_shares shares"
    and "treasuryOn db \<noteq> '''' \<Longrightarrow> tx_sum db' ord order_kinds = o_cash_due x +
      (if list_ex (\<lambda>t. tx_ref t = ord \<and> tx_kind t = ''order_payment'') (wallet_txs db) then 0 else o_wallet_paid x)"
proof -
  obtain d ss reps d1 held d2 hid d3 s d4 where gate: "waiver_gate x = Inr ()" and ss: "waiver_shares x db = Inr ss"
    and e1: "repSharesToReverse ord db = Inr (reps, d1)"
    and e2: "WaiveCommissionTx d (o_platform_commission x) ord (TrimSpace reason) actor d1 = Inr (held, d2)"
    and e3: "foldE (waive_share ord hid actor) ss d2 = Inr d3"
    and e4: "foldE (reverseRepForWaiver ord actor) [r \<leftarrow> reps. snd r > 0] ((0, 0), d3) = Inr (s, d4)"
    and e5: "creditTreasury ord actor (update_order ord waived_row d4) = Inr db'" and drv: "wr_driver res = d"
    by (rule waive_commission_steps[OF w x])
  have [simp]: "ss = shares" using ss sh by simp
  let ?c = "o_platform_commission x"
  obtain hs where d1: "d1 = db\<lparr>held_commissions := hs\<rparr>" using repSharesToReverse_shape(1)[OF e1] by blast
  from e2 have box: "box_applyTx d (- ?c) ''commission_waived'' ord (TrimSpace reason) (Some actor) d1 = Inr (held, d2)"
    by (auto simp: WaiveCommissionTx_def split: if_splits)
  have same2: "orders d2 = orders d1 \<and> settlements d2 = settlements d1 \<and> wallet_txs d2 = wallet_txs d1"
    using box by (auto simp: box_applyTx_def insert_cash_entry_def Let_def branches)
  have held2: "Held d2 v = Held d1 v - (if v = d then ?c else 0)" for v
    using box_applyTx_Inr(1)[OF box] by (auto simp: cash_posted_def)
  have m1: "money_step ord {} {} db d1" unfolding d1 by (rule money_step_tables) simp_all
  note m2 = money_step_box[OF box, of ord]
  note m3 = waive_shares_effect[OF e3[unfolded \<open>ss = shares\<close>] waiver_shares_distinct[OF sh ids]]
  note m4 = take_or_owe_loop_frame[OF e4[unfolded reverseRepForWaiver_def]]
  let ?ks = "{''merchant_cash_accrued'', ''merchant_cash_paid'', ''commission''}"
  have m: "money_step ord ?ks {PartyRep} db d4"
  proof -
    have "money_step ord ?ks {PartyRep} db d1" by (rule money_step_mono[OF m1]) simp_all
    also have "money_step ord ?ks {PartyRep} d1 d2" by (rule money_step_mono[OF m2]) simp_all
    also have "money_step ord ?ks {PartyRep} d2 d3" using m3(1) by (auto simp: money_only_def intro: money_step_mono)
    also have "money_step ord ?ks {PartyRep} d3 d4" by (rule money_step_mono[OF conjunct1[OF m4]]) simp_all
    finally show ?thesis .
  qed
  have later: "tx_sum db' ord [k] = tx_sum d3 ord [k]" if "k \<notin> {''commission'', ''platform_profit''}" for k
  proof -
    have "tx_sum db' ord [k] = tx_sum (update_order ord waived_row d4) ord [k]"
      by (rule money_step_rows(3)[OF money_step_treasury[OF e5]]) (use that in simp)
    also have "\<dots> = tx_sum d4 ord [k]" by (simp add: tx_sum_def update_order_def)
    also have "\<dots> = tx_sum d3 ord [k]" by (rule money_step_rows(3)[OF conjunct1[OF m4]]) (use that in simp)
    finally show ?thesis .
  qed
  have before: "tx_sum d2 ord [k] = tx_sum db ord [k]" for k using same2 by (simp add: tx_sum_def d1)
  show "tx_sum db' ord [''merchant_cash_accrued''] = tx_sum db ord [''merchant_cash_accrued''] + kept_shares shares"
    "tx_sum db' ord [''merchant_cash_paid''] = tx_sum db ord [''merchant_cash_paid''] - kept_shares shares"
    using later m3(4,5) before by simp_all
  have o4: "order_of d4 = order_of db" using m4 m3(1) same2 by (simp add: money_only_def d1 order_of_def fun_eq_iff)
  have row: "order_of (update_order ord waived_row d4) j = (if j = ord then Some (waived_row x) else order_of db j)" for j
    using x by (subst order_of_update) (simp_all add: o4 waived_row_def)
  then show "order_of db' j = (if j = ord then Some (waived_row x) else order_of db j)" for j
    using treasury_order_of[OF e5] by simp
  have "boxes db' = boxes d2" using same_boxes_treasury[OF e5] m4 m3(2) by (simp add: update_order_def)
  then show "Held db' v = Held db v - (if v = wr_driver res then ?c else 0)"
    using held2[of v] drv by (simp add: Held_def d1)
  have all: "money_step ord (insert ''platform_profit'' ?ks) {PartyRep} db db'"
    using money_step_trans[OF money_step_trans[OF m money_step_update_order subset_refl empty_subsetI subset_refl empty_subsetI] money_step_treasury[OF e5]]
    by auto
  show "rows_of db' r = rows_of db r" if "r \<noteq> ord" by (rule money_step_rows(1)[OF all that])
  have "settlements d4 = settlements d3"
    using take_or_owe_settlements[OF e4[unfolded reverseRepForWaiver_def]] .
  then show "settlements db' = map (waived_of shares) (settlements db)"
    using creditTreasury_shape[OF e5] applyTx_frame m3(3) same2 by (fastforce simp: update_order_def d1)
  assume t: "treasuryOn db \<noteq> ''''"
  have t4: "treasuryOn (update_order ord waived_row d4) \<noteq> ''''" using m t by (simp add: money_step_def update_order_def treasuryOn_def)
  have x4: "order_of (update_order ord waived_row d4) ord = Some (waived_row x)" using row by simp
  have "o_kind (waived_row x) \<noteq> KindCustom" "cash_part db' (waived_row x) = o_cash_due x" "o_wallet_paid (waived_row x) = o_wallet_paid x"
    using gate by (auto simp: waiver_gate_def cash_part_def waived_row_def split: if_splits)
  with treasury_closed[OF e5 t4 x4] money_step_rows(5)[OF m, of "''order_payment''" ord]
  show "tx_sum db' ord order_kinds = o_cash_due x +
      (if list_ex (\<lambda>t. tx_ref t = ord \<and> tx_kind t = ''order_payment'') (wallet_txs db) then 0 else o_wallet_paid x)"
    by (simp add: update_order_def)
qed


text \<open>What the representatives lose and owe.\<close>

lemma waiver_reps:
  fixes db :: "'a money_db_scheme"
  assumes w: "waive_commission ord actor reason db = Inr (res, db')" and x: "order_of db ord = Some x"
    and reps: "repSharesToReverse ord db = Inr (reps, d)" and inv: "obligations_inv db" and "ord \<noteq> ''''"
    and fresh: "\<And>u. \<not> origin_taken db PartyRep u CauseWaivedRepCommission (Some ord) None"
  shows "(earned db ord ''commission'' v - earned db' ord ''commission'' v) + (Debt db' PartyRep v - Debt db PartyRep v) =
      (case map_of [r \<leftarrow> reps. 0 < snd r] v of None \<Rightarrow> 0 | Some a \<Rightarrow> a)"
proof -
  obtain dr ss rs d1 held d2 hid d3 s d4 where e1: "repSharesToReverse ord db = Inr (rs, d1)"
    and e2: "WaiveCommissionTx dr (o_platform_commission x) ord (TrimSpace reason) actor d1 = Inr (held, d2)"
    and e3: "foldE (waive_share ord hid actor) ss d2 = Inr d3"
    and e4: "foldE (reverseRepForWaiver ord actor) [r \<leftarrow> rs. snd r > 0] ((0, 0), d3) = Inr (s, d4)"
    and e5: "creditTreasury ord actor (update_order ord waived_row d4) = Inr db'"
    by (rule waive_commission_steps[OF w x])
  have [simp]: "rs = reps" using e1 reps by simp
  obtain hs where d1: "d1 = db\<lparr>held_commissions := hs\<rparr>" using repSharesToReverse_shape(1)[OF e1] by blast
  let ?ks = "{''merchant_cash_accrued'', ''merchant_cash_paid''}"
  have "money_step ord ?ks {} db d1" unfolding d1 by (rule money_step_tables) simp_all
  moreover have "money_step ord ?ks {} d1 d2"
    using e2 by (auto simp: WaiveCommissionTx_def split: if_splits intro: money_step_mono[OF money_step_box])
  moreover have "money_step ord ?ks {} d2 d3"
    by (rule money_step_loop[OF e3, where g = "\<lambda>u. u"]) (auto dest: waive_share_effect(1) simp: money_only_def)
  ultimately have m: "money_step ord ?ks {} db d3" using money_step_chain by blast
  then have inv3: "obligations_inv d3" and f3: "\<And>u. \<not> origin_taken d3 PartyRep u CauseWaivedRepCommission (Some ord) None"
    using inv fresh by (auto simp: money_step_def)
  have "distinct (map fst [r \<leftarrow> reps. 0 < snd r])" using repSharesToReverse_shape(2)[OF reps] by (rule distinct_map_filter)
  note l = take_or_owe_loop[OF e4[unfolded reverseRepForWaiver_def \<open>rs = reps\<close>] this _ inv3 assms(5) f3, of v]
  have "money_step ord {''platform_profit''} {} d4 db'"
    by (rule money_step_trans[OF money_step_update_order money_step_treasury[OF e5]]) auto
  note m5 = this money_step_rows(2)[OF this, of "''commission''" ord v]
  show ?thesis
    using l m m5 money_step_rows(2)[OF m, of "''commission''" ord v] by (auto simp: money_step_def)
qed

section \<open>Properties\<close>

text \<open>
  C39. A commission is waived whole or not at all: only of a delivered standard order that has one, all of whose stores were
  paid in cash by the driver; exactly the commission leaves the box of the driver who collected it; what is written
  on the settlements of the order is what passes through the holding wallet, in and out, and is the commission when
  no store was due more than its goods cost; what every representative loses and owes is what he was paid too much;
  the order keeps no commission and nothing else of it changes, nor any other order, nor a row of another; its books
  close; and it can be waived only once, and its delivery is not withdrawn any more.
\<close>

theorem waiver_exact:
  fixes db :: "'a later_db_scheme"
  assumes w: "waive_commission ord actor reason db = Inr (res, db')" and x: "order_of db ord = Some x"
    and "distinct (map st_id (settlements db))" and "waiver_shares x db = Inr shares"
    and "repSharesToReverse ord db = Inr (reps, d)" and "obligations_inv db" and "ord \<noteq> ''''"
    and "\<And>u. \<not> origin_taken db PartyRep u CauseWaivedRepCommission (Some ord) None"
  shows "(o_kind x = KindStandard \<and> o_status x = StDelivered \<and> o_commission_waived x \<le> 0 \<and> 0 < o_platform_commission x \<and>
      list_all paid_in_cash (waiver_rows ord db)) \<and>
    wr_waived res = o_platform_commission x \<and>
    Held db' v = Held db v - (if v = wr_driver res then o_platform_commission x else 0) \<and>
    settlements db' = map (waived_of shares) (settlements db) \<and>
    tx_sum db' ord [''merchant_cash_accrued''] = tx_sum db ord [''merchant_cash_accrued''] + kept_shares shares \<and>
    tx_sum db' ord [''merchant_cash_paid''] = tx_sum db ord [''merchant_cash_paid''] - kept_shares shares \<and>
    ((\<forall>sh\<in>set shares. 0 \<le> ws_commission sh) \<and> in64 (kept_shares shares) \<longrightarrow> kept_shares shares = o_platform_commission x) \<and>
    (earned db ord ''commission'' v - earned db' ord ''commission'' v) + (Debt db' PartyRep v - Debt db PartyRep v) =
      (case map_of [r \<leftarrow> reps. 0 < snd r] v of None \<Rightarrow> 0 | Some a \<Rightarrow> a) \<and>
    order_of db' j = (if j = ord then Some (waived_row x) else order_of db j) \<and>
    (r \<noteq> ord \<longrightarrow> rows_of db' r = rows_of db r) \<and>
    (treasuryOn db \<noteq> '''' \<longrightarrow> tx_sum db' ord order_kinds = o_cash_due x +
      (if list_ex (\<lambda>t. tx_ref t = ord \<and> tx_kind t = ''order_payment'') (wallet_txs db) then 0 else o_wallet_paid x)) \<and>
    failed (waive_commission ord actor2 reason2 db') \<and> failed (Undeliver actor2 roles2 ord reason2 hook db')"
proof -
  note e = waive_commission_effect[OF w x assms(3,4)]
  have id: "o_id x = ord" using order_of_Some[OF x] by simp
  have g: "waiver_gate x = Inr ()" and res: "wr_waived res = o_platform_commission x" by (rule waive_commission_steps[OF w x], assumption)+
  then have gate: "o_kind x = KindStandard" "o_status x = StDelivered" "o_commission_waived x \<le> 0" "0 < o_platform_commission x"
    by (auto simp: waiver_gate_def split: if_splits)
  have x2: "order_of db' ord = Some (waived_row x)" using e(1)[of ord] by simp
  have again: "failed (waive_commission ord actor2 reason2 db')" "failed (Undeliver actor2 roles2 ord reason2 hook db')"
    using gate x2 by (auto simp: waive_commission_def waiver_gate_def Undeliver_def undeliverTx_def waived_row_def)
  show ?thesis
    using e gate res again waiver_shares_rows(2)[OF assms(4)] kept_shares_commission[OF assms(4)] waiver_reps[OF w x assms(5-8), of v]
    by (simp add: id)
qed


text \<open>The store was due 900 of 1000; its representative earned 20 of the commission and has 5 of it left.\<close>

definition example_kept :: settlement where
  "example_kept = \<lparr>st_id = ''s1'', st_order = ''o1'', st_merchant = ''m'', st_owner = ''d'', st_method = ''cash'', st_amount = 900, st_adjusted = 0,
     st_reversed = 0, st_state = ''cash_paid'', st_pct = Some 1000, st_waived = 0, st_earning_tx = None, st_accrued_tx = Some 7, st_paid_tx = Some 8,
     st_paid_by = Some ''d'', st_paid_owner = None, st_paid_via = Some ''driver'', st_note = [], st_created = 0\<rparr>"

definition example_kept_db :: later_db where
  "example_kept_db = example_later_db\<lparr>orders := [example_order\<lparr>o_platform_commission := 100\<rparr>],
     merchants := map (\<lambda>m. m\<lparr>m_rep := Some ''r''\<rparr>) (merchants example_later_db),
     wallets := [(''t'', zero_wallet\<lparr>w_treasury := True, w_balance := 1100\<rparr>), (''h'', zero_wallet\<lparr>w_cash_holding := True\<rparr>), (''r'', zero_wallet\<lparr>w_balance := 5\<rparr>)],
     wallet_txs := wallet_txs example_later_db @
       [\<lparr>tx_id = 3, tx_user = ''r'', tx_amount = 20, tx_kind = ''commission'', tx_ref = ''o1'', tx_note = [], tx_by = None, tx_at = 0\<rparr>],
     next_tx := 4, settlements := [example_kept],
     order_items := [\<lparr>oi_order = ''o1'', oi_merchant = Some ''m'', oi_price = 500, oi_unit_price = 550, oi_qty = 2, oi_method = Some ''cash'',
       oi_id = ''i1'', oi_name = ''tea'', oi_menu = Some ''k1'', oi_drink_for = None\<rparr>]\<rparr>"

definition example_waived :: "err + waiver_result \<times> later_db" where
  "example_waived = waive_commission ''o1'' ''a'' '' kept '' example_kept_db"

lemma example_waived_runs:
  "\<exists>res db. example_waived = Inr (res, db) \<and> wr_driver res = ''d'' \<and> wr_rep_reversed res = 5 \<and> wr_rep_debt res = 5 \<and>
     map st_waived (settlements db) = [100]"
proof -
  have "case example_waived of Inl _ \<Rightarrow> False | Inr (res, db) \<Rightarrow> wr_driver res = ''d'' \<and> wr_rep_reversed res = 5 \<and> wr_rep_debt res = 5 \<and>
     map st_waived (settlements db) = [100]" by code_simp
  note run = this
  then obtain res db where r: "example_waived = Inr (res, db)" by (auto split: sum.splits)
  from run show ?thesis unfolding r sum.case prod.case by (intro exI[of _ res] exI[of _ db] conjI refl) simp_all
qed

lemma waiver_exact_witness:
  "\<exists>res db. example_waived = Inr (res, db) \<and> Held db ''d'' = 200 \<and> (20 - earned db ''o1'' ''commission'' ''r'') + Debt db PartyRep ''r'' = 10 \<and>
     tx_sum db ''o1'' order_kinds = 500 \<and> failed (Undeliver ''a'' [''admin''] ''o1'' ''late'' None db)"
proof -
  obtain res db where r: "example_waived = Inr (res, db)" "wr_driver res = ''d''" using example_waived_runs by blast
  have x: "order_of example_kept_db ''o1'' = Some (example_order\<lparr>o_platform_commission := 100\<rparr>)"
    "distinct (map st_id (settlements example_kept_db))" "blank_book example_kept_db" "obligations example_kept_db = []"
    "waiver_shares (example_order\<lparr>o_platform_commission := 100\<rparr>) example_kept_db = Inr [\<lparr>ws_settle = ''s1'', ws_merchant = ''m'', ws_commission = 100\<rparr>]"
    "Held example_kept_db ''d'' = 300" "earned example_kept_db ''o1'' ''commission'' ''r'' = 20" "Debt example_kept_db PartyRep ''r'' = 0"
    "treasuryOn example_kept_db = ''t''" "o_platform_commission (example_order\<lparr>o_platform_commission := 100\<rparr>) = 100"
    "o_cash_due (example_order\<lparr>o_platform_commission := 100\<rparr>) = 500"
    "list_ex (\<lambda>t. tx_ref t = ''o1'' \<and> tx_kind t = ''order_payment'') (wallet_txs example_kept_db)" by code_simp+
  have "case repSharesToReverse ''o1'' example_kept_db of Inl _ \<Rightarrow> False | Inr (reps, d) \<Rightarrow> reps = [(''r'', 10)]" by code_simp
  then obtain d where reps: "repSharesToReverse ''o1'' example_kept_db = Inr ([(''r'', 10)], d)" by (auto split: sum.splits)
  have f: "\<not> origin_taken example_kept_db p u CauseWaivedRepCommission (Some ''o1'') None" for p u by (simp add: origin_taken_def x(4))
  note w = waiver_exact[OF r(1)[unfolded example_waived_def] x(1,2,5) reps blank_book_inv[OF x(3)] _ f]
  have "failed (Undeliver ''a'' [''admin''] ''o1'' ''late'' None db)" using w by blast
  moreover have "Held db ''d'' = 200" using w[where v = "''d''"] r(2) x(6,10) by simp
  moreover have "(20 - earned db ''o1'' ''commission'' ''r'') + Debt db PartyRep ''r'' = 10" using w[where v = "''r''"] x(7,8) by simp
  moreover have "tx_sum db ''o1'' order_kinds = 500" using w x(9,11,12) by simp
  ultimately show ?thesis using r(1) by blast
qed

text \<open>
  An order that was edited after the pickup: its store is due 1080 of 1200, of which the row keeps 900 and an adjustment
  of 180. The shares are computed without the adjustment, and the commission of 120 cannot be waived.
\<close>

definition example_edited_db :: later_db where
  "example_edited_db = example_kept_db\<lparr>orders := [example_order\<lparr>o_platform_commission := 120\<rparr>], settlements := [example_kept\<lparr>st_adjusted := 180\<rparr>],
     order_items := map (\<lambda>i. i\<lparr>oi_price := 600, oi_unit_price := 650\<rparr>) (order_items example_kept_db)\<rparr>"

lemma waiver_forgets_edits:
  "merchantShares ''o1'' example_edited_db = Inr ([\<lparr>ss_merchant = ''m'', ss_owner = Some ''a'', ss_commission = 120, ss_due = 1080, ss_method = ''cash'', ss_pct = 1000\<rparr>], 120)"
  "(case waive_commission ''o1'' ''a'' ''kept'' example_edited_db of Inl e \<Rightarrow> e = ErrMsg ''waiver: commissions do not add up'' | Inr _ \<Rightarrow> False)"
  by code_simp+

end
