(* ===== verification/Edit_Money.thy ===== *)
theory Edit_Money
  imports Money_Steps
begin

text \<open>
  What the stores of an order are due after its goods changed hands and were edited (\<open>orders/order_edit_money.go\<close>):
  the shares are computed again with the percentage every store was settled with, and the difference alone is
  posted, as a new entry beside the old one. A store of a wallet is credited, or gives back what it has and owes the
  rest; the difference of a store paid in cash passes through the holding wallet, paid or taken back by the driver.
  The author and the reason of an adjustment are left out.
\<close>

section \<open>Errors, rows and the difference\<close>

definition ErrOrderEditSettlement :: err where "ErrOrderEditSettlement = AppError ''order_edit_settlement_state''"
definition ErrOrderEditNoDriver :: err where "ErrOrderEditNoDriver = AppError ''order_edit_needs_driver''"
definition CauseOrderEdit :: string where "CauseOrderEdit = ''order_edit''"

record edit_delta =
  ed_merchant :: string
  ed_name :: string
  ed_method :: string
  ed_old_due :: int
  ed_new_due :: int
  ed_driver_pays :: int
  ed_debt :: int

text \<open>The new due of a store; a store without a share, or due nothing, is due zero.\<close>

definition new_due :: "source_share list \<Rightarrow> string \<Rightarrow> int" where
  "new_due shares m = (case find (\<lambda>sh. ss_merchant sh = m \<and> ss_due sh > 0) (rev shares) of None \<Rightarrow> 0 | Some sh \<Rightarrow> ss_due sh)"

definition current_due :: "settlement \<Rightarrow> int" where
  "current_due s = wrap64 (st_amount s + st_adjusted s)"

definition due_delta :: "source_share list \<Rightarrow> settlement \<Rightarrow> int" where
  "due_delta shares s = wrap64 (new_due shares (st_merchant s) - current_due s)"

definition edit_rows :: "string \<Rightarrow> 'a settle_db_scheme \<Rightarrow> settlement list" where
  "edit_rows ord db = sort_key (\<lambda>s. (st_created s, text_key (st_id s)))
     [s \<leftarrow> settlements db. st_order s = ord \<and> merchant_of db (st_merchant s) \<noteq> None]"

definition add_adjustment :: "string \<Rightarrow> string \<Rightarrow> int \<Rightarrow> 'a settle_db_scheme \<Rightarrow> string \<times> 'a settle_db_scheme" where
  "add_adjustment sid ord delta db =
    (uuid (next_uuid db), db\<lparr>adjustments := adjustments db @ [\<lparr>ad_id = uuid (next_uuid db), ad_settlement = sid, ad_order = ord, ad_delta = delta,
       ad_earning_tx = None, ad_accrued_tx = None, ad_paid_tx = None, ad_paid_by = None, ad_paid_via = None, ad_debt = 0\<rparr>],
       next_uuid := next_uuid db + 1\<rparr>)"

definition update_adjustment :: "string \<Rightarrow> (adjustment \<Rightarrow> adjustment) \<Rightarrow> 'a settle_db_scheme \<Rightarrow> 'a settle_db_scheme" where
  "update_adjustment i f db = db\<lparr>adjustments := map (\<lambda>a. if ad_id a = i then f a else a) (adjustments db)\<rparr>"

section \<open>The entries\<close>

text \<open>A store of a wallet: the amount of its entry and what it is left owing.\<close>

definition wallet_change :: "settlement \<Rightarrow> int \<Rightarrow> 'a wallet_db_scheme \<Rightarrow> int \<times> int" where
  "wallet_change s delta db =
    (if delta < 0
     then let avail = max (AvailableTx db (st_owner s)) 0; taken = min (- delta) avail in (- taken, - delta - taken)
     else (delta, 0))"

definition correct_wallet ::
  "string \<Rightarrow> user_id \<Rightarrow> settlement \<Rightarrow> int \<Rightarrow> string \<Rightarrow> 'a settle_db_scheme \<Rightarrow> err + int \<times> 'a settle_db_scheme" where
  "correct_wallet ord actor s delta adj db =
    (if st_state s \<noteq> ''wallet_credited'' then Inl ErrOrderEditSettlement
     else let (amount, debt) = wallet_change s delta db
          in bindE (if amount \<noteq> 0
                    then bindE (ApplyTxID (st_owner s) amount ''merchant_earning'' ord ''due of the store corrected'' (Some actor) db) (\<lambda>((_, tx), db).
                         Inr (update_adjustment adj (\<lambda>a. a\<lparr>ad_earning_tx := Some tx\<rparr>) db))
                    else Inr db) (\<lambda>db.
             bindE (if debt > 0
                    then bindE (CreateRef PartyMerchant (st_merchant s) debt CauseOrderEdit ord adj (Some actor) db) (\<lambda>(_, db).
                         Inr (update_adjustment adj (\<lambda>a. a\<lparr>ad_debt := debt\<rparr>) db))
                    else Inr db) (\<lambda>db.
             Inr (debt, db))))"

text \<open>Two entries on the holding wallet, the one that adds first.\<close>

definition cash_entries_for ::
  "string \<Rightarrow> user_id \<Rightarrow> user_id \<Rightarrow> user_id \<Rightarrow> int \<Rightarrow> 'a settle_db_scheme \<Rightarrow> err + (int \<times> int) \<times> 'a settle_db_scheme" where
  "cash_entries_for ord actor driver hid delta db =
    (if delta > 0
     then bindE (ApplyTxID hid delta ''merchant_cash_accrued'' ord ''due of the store corrected'' (Some actor) db) (\<lambda>((_, acc), db).
          bindE (ApplyTxID hid (- delta) ''merchant_cash_paid'' ord ''difference paid by the driver'' (Some driver) db) (\<lambda>((_, paid), db).
          Inr ((acc, paid), db)))
     else bindE (ApplyTxID hid (- delta) ''merchant_cash_paid'' ord ''difference given back to the driver'' (Some driver) db) (\<lambda>((_, paid), db).
          bindE (ApplyTxID hid delta ''merchant_cash_accrued'' ord ''due of the store corrected'' (Some actor) db) (\<lambda>((_, acc), db).
          Inr ((acc, paid), db))))"

definition correct_cash ::
  "string \<Rightarrow> user_id \<Rightarrow> user_id option \<Rightarrow> settlement \<Rightarrow> int \<Rightarrow> string \<Rightarrow> 'a settle_db_scheme \<Rightarrow> err + 'a settle_db_scheme" where
  "correct_cash ord actor driver s delta adj db =
    (if st_state s \<noteq> ''cash_paid'' then Inl ErrOrderEditSettlement
     else case driver of
       None \<Rightarrow> Inl ErrOrderEditNoDriver
     | Some d \<Rightarrow>
         if d = '''' then Inl ErrOrderEditNoDriver
         else if delta < 0 \<and> - delta > current_due s - st_reversed s then Inl ErrOrderEditSettlement
         else bindE (cashHoldingOn db) (\<lambda>hid.
              bindE (cash_entries_for ord actor d hid delta db) (\<lambda>((acc, paid), db).
              Inr (update_adjustment adj (\<lambda>a. a\<lparr>ad_accrued_tx := Some acc, ad_paid_tx := Some paid, ad_paid_by := Some d,
                     ad_paid_via := Some paidViaDriver\<rparr>) db))))"

section \<open>The correction\<close>

definition correct_row ::
  "string \<Rightarrow> user_id \<Rightarrow> user_id option \<Rightarrow> source_share list \<Rightarrow> settlement \<Rightarrow> edit_delta list \<times> 'a settle_db_scheme \<Rightarrow>
     err + edit_delta list \<times> 'a settle_db_scheme" where
  "correct_row ord actor driver shares s = (\<lambda>(out, db).
    let delta = due_delta shares s; cur = current_due s
    in if delta = 0 then Inr (out, db)
       else if st_waived s > 0 then Inl ErrOrderEditSettlement
       else let (adj, db) = add_adjustment (st_id s) ord delta db;
                name = (case merchant_of db (st_merchant s) of None \<Rightarrow> '''' | Some row \<Rightarrow> m_name row)
            in bindE (if st_method s = ''wallet''
                      then bindE (correct_wallet ord actor s delta adj db) (\<lambda>(debt, db). Inr ((0, debt), db))
                      else if st_method s = ''cash''
                      then bindE (correct_cash ord actor driver s delta adj db) (\<lambda>db. Inr ((delta, 0), db))
                      else Inl ErrOrderEditSettlement) (\<lambda>((pays, debt), db).
               bindE (update_settlement (st_id s) (\<lambda>y. y\<lparr>st_adjusted := st_adjusted y + delta\<rparr>) db) (\<lambda>db.
               Inr (out @ [\<lparr>ed_merchant = st_merchant s, ed_name = name, ed_method = st_method s, ed_old_due = cur,
                      ed_new_due = wrap64 (cur + delta), ed_driver_pays = pays, ed_debt = debt\<rparr>], db))))"

definition correctSettlementsTx ::
  "string \<Rightarrow> user_id \<Rightarrow> user_id option \<Rightarrow> 'a settle_db_scheme \<Rightarrow> err + edit_delta list \<times> 'a settle_db_scheme" where
  "correctSettlementsTx ord actor driver db =
     bindE (merchantShares ord db) (\<lambda>(shares, commission).
     let db = update_order ord (\<lambda>x. x\<lparr>o_platform_commission := commission\<rparr>) db
     in foldE (correct_row ord actor driver shares) (edit_rows ord db) ([], db))"

section \<open>One row\<close>

definition fresh_uuids :: "'a settle_db_scheme \<Rightarrow> bool" where
  "fresh_uuids db \<longleftrightarrow> (\<forall>n\<ge>next_uuid db. uuid n \<notin> ad_id ` set (adjustments db) \<and>
     \<not> list_ex (\<lambda>y. ob_cause y = CauseOrderEdit \<and> ob_source y = Some (uuid n)) (obligations db))"

lemma uuid_simps [simp]: "uuid m = uuid n \<longleftrightarrow> m = n" "uuid n \<noteq> ''''"
  by (simp_all add: uuid_def replicate_eq_replicate)

lemma update_adjustment_simps [simp]:
  "wallets (update_adjustment i f db) = wallets db" "wallet_txs (update_adjustment i f db) = wallet_txs db"
  "db_now (update_adjustment i f db) = db_now db" "boxes (update_adjustment i f db) = boxes db" "orders (update_adjustment i f db) = orders db"
  "settlements (update_adjustment i f db) = settlements db" "next_uuid (update_adjustment i f db) = next_uuid db"
  "obligations (update_adjustment i f db) = obligations db" "share_env (update_adjustment i f db) = share_env db"
  "merchants (update_adjustment i f db) = merchants db" "users (update_adjustment i f db) = users db"
  by (simp_all add: update_adjustment_def share_env_def)

lemma money_only_update_adjustment [simp]: "money_only ord ks ps db (update_adjustment i f db)"
  unfolding money_only_def by (intro conjI money_step_tables) (simp_all add: update_adjustment_def)

lemma update_last:
  assumes "adjustments db = as @ [a0]" and "ad_id a0 = i" and "i \<notin> ad_id ` set as"
  shows "adjustments (update_adjustment i f db) = as @ [f a0]"
proof -
  have "map (\<lambda>a. if ad_id a = i then f a else a) as = as" using assms(3) by (intro map_idI) auto
  then show ?thesis using assms(1,2) by (simp add: update_adjustment_def)
qed

lemma correct_wallet_effect:
  fixes db :: "'a settle_db_scheme"
  assumes c: "correct_wallet ord actor s delta adj db = Inr (debt, db')" and "delta \<noteq> 0" and inv: "obligations_inv db"
    and adj: "adj \<noteq> ''''" "\<not> list_ex (\<lambda>y. ob_cause y = CauseOrderEdit \<and> ob_source y = Some adj) (obligations db)"
    and last: "adjustments db = as @ [a0]" "ad_id a0 = adj" "ad_debt a0 = 0" "adj \<notin> ad_id ` set as"
  shows "money_only ord {''merchant_earning'', ''merchant_cash_accrued'', ''merchant_cash_paid''} {PartyMerchant} db db'"
    and "boxes db' = boxes db \<and> share_env db' = share_env db \<and> settlements db' = settlements db \<and> next_uuid db' = next_uuid db"
    and "\<exists>tx. adjustments db' = as @ [a0\<lparr>ad_earning_tx := tx, ad_debt := debt\<rparr>]"
    and "0 \<le> debt" and "tx_sum db' ord [''merchant_earning''] = tx_sum db ord [''merchant_earning''] + delta + debt"
    and "tx_sum db' ord [''merchant_cash_accrued''] = tx_sum db ord [''merchant_cash_accrued'']"
    and "tx_sum db' ord [''merchant_cash_paid''] = tx_sum db ord [''merchant_cash_paid'']"
    and "Debt db' PartyMerchant m = Debt db PartyMerchant m + (if m = st_merchant s then debt else 0)"
    and "list_ex (\<lambda>y. ob_cause y = CauseOrderEdit \<and> ob_source y = Some u) (obligations db') \<Longrightarrow>
      u = adj \<or> list_ex (\<lambda>y. ob_cause y = CauseOrderEdit \<and> ob_source y = Some u) (obligations db)"
proof -
  obtain am where am: "wallet_change s delta db = (am, debt)" and w: "bindE (if am \<noteq> 0
      then bindE (ApplyTxID (st_owner s) am ''merchant_earning'' ord ''due of the store corrected'' (Some actor) db) (\<lambda>((_, tx), db).
           Inr (update_adjustment adj (\<lambda>a. a\<lparr>ad_earning_tx := Some tx\<rparr>) db))
      else Inr db) (\<lambda>db. if debt > 0
      then bindE (CreateRef PartyMerchant (st_merchant s) debt CauseOrderEdit ord adj (Some actor) db) (\<lambda>(_, db).
           Inr (update_adjustment adj (\<lambda>a. a\<lparr>ad_debt := debt\<rparr>) db))
      else Inr db) = Inr db'"
    using c by (auto simp: correct_wallet_def bindE_eq_Inr split: prod.splits if_splits)
  have sum: "0 \<le> debt" "am = delta + debt" using am by (auto simp: wallet_change_def Let_def split: if_splits)
  then show "0 \<le> debt" by simp
  from w obtain d where p: "(if am \<noteq> 0
      then bindE (ApplyTxID (st_owner s) am ''merchant_earning'' ord ''due of the store corrected'' (Some actor) db) (\<lambda>((_, tx), db).
           Inr (update_adjustment adj (\<lambda>a. a\<lparr>ad_earning_tx := Some tx\<rparr>) db))
      else Inr db) = Inr d"
    and q: "(if debt > 0
      then bindE (CreateRef PartyMerchant (st_merchant s) debt CauseOrderEdit ord adj (Some actor) d) (\<lambda>(_, db).
           Inr (update_adjustment adj (\<lambda>a. a\<lparr>ad_debt := debt\<rparr>) db))
      else Inr d) = Inr db'"
    by (auto simp: bindE_eq_Inr)
  let ?ks = "{''merchant_earning'', ''merchant_cash_accrued'', ''merchant_cash_paid''}"
  have pay: "money_only ord ?ks {PartyMerchant} db d \<and> boxes d = boxes db \<and> share_env d = share_env db \<and> settlements d = settlements db \<and>
      next_uuid d = next_uuid db \<and> (\<exists>tx. adjustments d = as @ [a0\<lparr>ad_earning_tx := tx\<rparr>]) \<and> obligations d = obligations db \<and>
      tx_sum d ord [k] = tx_sum db ord [k] + (if k = ''merchant_earning'' then am else 0) \<and>
      obligations_inv d \<and> Debt d PartyMerchant m = Debt db PartyMerchant m" for k
  proof (cases "am = 0")
    case True
    have "a0\<lparr>ad_earning_tx := ad_earning_tx a0\<rparr> = a0" by simp
    with True p last inv show ?thesis by (auto intro: exI[of _ "ad_earning_tx a0"])
  next
    case False
    with p obtain b tx u where a: "applyTx (st_owner s) am ''merchant_earning'' ord ''due of the store corrected'' (Some actor) db = Inr ((b, tx), u)"
      and d: "d = update_adjustment adj (\<lambda>a. a\<lparr>ad_earning_tx := Some tx\<rparr>) u" by (auto simp: ApplyTxID_def bindE_eq_Inr)
    have "money_only ord ?ks {PartyMerchant} db u" by (rule money_only_post[OF a]) simp
    moreover have "money_only ord ?ks {PartyMerchant} u d" unfolding d by simp
    ultimately have m: "money_only ord ?ks {PartyMerchant} db d" by (rule money_only_chain)
    have u: "boxes u = boxes db" "adjustments u = adjustments db" "next_uuid u = next_uuid db" using applyTx_frame[OF a] by auto
    have "adjustments d = as @ [a0\<lparr>ad_earning_tx := Some tx\<rparr>]" unfolding d by (rule update_last) (use last u in simp_all)
    moreover have "tx_sum d ord [k] = tx_sum u ord [k]" "Debt d PartyMerchant m = Debt u PartyMerchant m" for k by (simp_all add: d tx_sum_def Debt_def)
    moreover have "obligations_inv d" using m inv by (simp add: money_only_def money_step_def)
    ultimately show ?thesis using m u applyTx_share_env[OF a] applyTx_tx_sum[OF a] obligations_inv_post(1,3)[OF a] by (auto simp: d)
  qed
  then obtain tx where tx: "adjustments d = as @ [a0\<lparr>ad_earning_tx := tx\<rparr>]" by blast
  have owe: "money_only ord ?ks {PartyMerchant} d db' \<and> boxes db' = boxes d \<and> share_env db' = share_env d \<and> settlements db' = settlements d \<and>
      next_uuid db' = next_uuid d \<and> adjustments db' = as @ [a0\<lparr>ad_earning_tx := tx, ad_debt := debt\<rparr>] \<and> wallet_txs db' = wallet_txs d \<and>
      Debt db' PartyMerchant m = Debt d PartyMerchant m + (if m = st_merchant s then debt else 0) \<and>
      (\<exists>os. obligations db' = obligations d @ os \<and> (\<forall>y\<in>set os. ob_source y = Some adj))"
  proof (cases "debt > 0")
    case False
    have "a0\<lparr>ad_earning_tx := tx, ad_debt := 0\<rparr> = a0\<lparr>ad_earning_tx := tx\<rparr>" using last(3) by simp
    with False sum(1) q tx show ?thesis by auto
  next
    case True
    with q obtain made u where m: "CreateRef PartyMerchant (st_merchant s) debt CauseOrderEdit ord adj (Some actor) d = Inr (made, u)"
      and db': "db' = update_adjustment adj (\<lambda>a. a\<lparr>ad_debt := debt\<rparr>) u" by (auto simp: bindE_eq_Inr)
    have made using m adj pay by (auto simp: CreateRef_def Let_def origin_taken_def result_simps split: if_splits)
    have src: "\<exists>os. obligations u = obligations d @ os \<and> (\<forall>y\<in>set os. ob_source y = Some adj)"
    proof -
      have bump: "obligations w' = obligations w" if "bumpCache k i a w = Inr w'" for k i a and w w' :: "'a settle_db_scheme"
        using that by (auto simp: bumpCache_def split: if_splits)
      have notice: "obligations (send_notice k i nt w) = obligations w" for k i nt and w :: "'a settle_db_scheme"
        by (simp add: send_notice_def Let_def split: prod.splits)
      show ?thesis using m adj(1) \<open>made\<close>
        by (auto simp: CreateRef_def Let_def result_simps notice dest!: bump split: if_splits option.splits)
    qed
    note t = settle_tables_eqD[OF wipe_settle_tables(1)[OF CreateRef_wipe[OF m]]] and e = wipe_share_env(1)[OF CreateRef_wipe[OF m]]
      and b = same_boxes_wipe[OF CreateRef_wipe[OF m]]
    have "adjustments db' = as @ [a0\<lparr>ad_earning_tx := tx, ad_debt := debt\<rparr>]"
      unfolding db' by (subst update_last[of _ as "a0\<lparr>ad_earning_tx := tx\<rparr>"]) (use tx t last in simp_all)
    moreover have "money_only ord ?ks {PartyMerchant} d db'"
      unfolding db' by (rule money_only_chain[OF money_only_Create[OF m]]) simp_all
    moreover have "Debt db' PartyMerchant m = Debt u PartyMerchant m" by (simp add: db' Debt_def)
    ultimately show ?thesis
      using t e b src CreateRef_inv(2)[OF m, of PartyMerchant m] pay \<open>made\<close> money_tables_eqD(2)[OF CreateRef_tables[OF m]] by (simp add: db')
  qed
  show "money_only ord ?ks {PartyMerchant} db db'" using pay owe money_only_chain by blast
  show "boxes db' = boxes db \<and> share_env db' = share_env db \<and> settlements db' = settlements db \<and> next_uuid db' = next_uuid db" using pay owe by simp
  show "\<exists>tx. adjustments db' = as @ [a0\<lparr>ad_earning_tx := tx, ad_debt := debt\<rparr>]" using owe by blast
  have same: "tx_sum db' ord [k] = tx_sum d ord [k]" for k using owe by (simp add: tx_sum_def)
  show "tx_sum db' ord [''merchant_earning''] = tx_sum db ord [''merchant_earning''] + delta + debt"
    "tx_sum db' ord [''merchant_cash_accrued''] = tx_sum db ord [''merchant_cash_accrued'']"
    "tx_sum db' ord [''merchant_cash_paid''] = tx_sum db ord [''merchant_cash_paid'']"
    using pay sum by (simp_all add: same)
  show "Debt db' PartyMerchant m = Debt db PartyMerchant m + (if m = st_merchant s then debt else 0)" using pay owe by simp
  show "u = adj \<or> list_ex (\<lambda>y. ob_cause y = CauseOrderEdit \<and> ob_source y = Some u) (obligations db)"
    if "list_ex (\<lambda>y. ob_cause y = CauseOrderEdit \<and> ob_source y = Some u) (obligations db')"
    using that pay owe by (auto simp: list_ex_iff)
qed

lemma correct_cash_effect:
  fixes db :: "'a settle_db_scheme"
  assumes c: "correct_cash ord actor driver s delta adj db = Inr db'"
    and last: "adjustments db = as @ [a0]" "ad_id a0 = adj" "adj \<notin> ad_id ` set as"
  shows "money_only ord {''merchant_earning'', ''merchant_cash_accrued'', ''merchant_cash_paid''} {PartyMerchant} db db'"
    and "boxes db' = boxes db \<and> share_env db' = share_env db \<and> settlements db' = settlements db \<and> next_uuid db' = next_uuid db"
    and "\<exists>d acc paid. driver = Some d \<and> adjustments db' =
      as @ [a0\<lparr>ad_accrued_tx := Some acc, ad_paid_tx := Some paid, ad_paid_by := Some d, ad_paid_via := Some paidViaDriver\<rparr>]"
    and "tx_sum db' ord [''merchant_earning''] = tx_sum db ord [''merchant_earning'']"
    and "tx_sum db' ord [''merchant_cash_accrued''] = tx_sum db ord [''merchant_cash_accrued''] + delta"
    and "tx_sum db' ord [''merchant_cash_paid''] = tx_sum db ord [''merchant_cash_paid''] - delta"
    and "obligations db' = obligations db" and "st_state s = ''cash_paid''" and "delta < 0 \<Longrightarrow> - delta \<le> current_due s - st_reversed s"
proof -
  obtain d where d: "driver = Some d" and st: "st_state s = ''cash_paid''" and room: "delta < 0 \<Longrightarrow> - delta \<le> current_due s - st_reversed s"
    using c by (auto simp: correct_cash_def split: option.splits if_splits)
  show "st_state s = ''cash_paid''" "delta < 0 \<Longrightarrow> - delta \<le> current_due s - st_reversed s" by (fact st) (fact room)
  obtain hid acc paid u where e: "cash_entries_for ord actor d hid delta db = Inr ((acc, paid), u)"
    and db': "db' = update_adjustment adj (\<lambda>a. a\<lparr>ad_accrued_tx := Some acc, ad_paid_tx := Some paid, ad_paid_by := Some d, ad_paid_via := Some paidViaDriver\<rparr>) u"
    using c by (auto simp: correct_cash_def d bindE_eq_Inr split: if_splits)
  let ?ks = "{''merchant_earning'', ''merchant_cash_accrued'', ''merchant_cash_paid''}"
  obtain h1 a1 k1 n1 y1 b1 i1 v h2 a2 k2 n2 y2 b2 i2 where
      p: "applyTx h1 a1 k1 ord n1 y1 db = Inr ((b1, i1), v)" "applyTx h2 a2 k2 ord n2 y2 v = Inr ((b2, i2), u)"
      and k: "k1 = ''merchant_cash_accrued'' \<and> a1 = delta \<and> k2 = ''merchant_cash_paid'' \<and> a2 = - delta \<or>
         k1 = ''merchant_cash_paid'' \<and> a1 = - delta \<and> k2 = ''merchant_cash_accrued'' \<and> a2 = delta"
    using e by (fastforce simp: cash_entries_for_def ApplyTxID_def bindE_eq_Inr split: if_splits)
  have "money_only ord ?ks {PartyMerchant} db v" by (rule money_only_post[OF p(1)]) (use k in auto)
  moreover have "money_only ord ?ks {PartyMerchant} v u" by (rule money_only_post[OF p(2)]) (use k in auto)
  moreover have "money_only ord ?ks {PartyMerchant} u db'" by (simp add: db')
  ultimately show "money_only ord ?ks {PartyMerchant} db db'" using money_only_chain by blast
  have u: "boxes u = boxes db" "adjustments u = adjustments db" "next_uuid u = next_uuid db" "obligations u = obligations db"
    using applyTx_frame[OF p(1)] applyTx_frame[OF p(2)] by auto
  then show "boxes db' = boxes db \<and> share_env db' = share_env db \<and> settlements db' = settlements db \<and> next_uuid db' = next_uuid db"
    using applyTx_share_env[OF p(1)] applyTx_share_env[OF p(2)] by (simp add: db')
  show "\<exists>d acc paid. driver = Some d \<and> adjustments db' =
      as @ [a0\<lparr>ad_accrued_tx := Some acc, ad_paid_tx := Some paid, ad_paid_by := Some d, ad_paid_via := Some paidViaDriver\<rparr>]"
    using update_last[of u as a0 adj] last u d by (auto simp: db')
  show "obligations db' = obligations db" by (simp add: db' u)
  have s: "tx_sum db' ord [k] = tx_sum db ord [k] + (if k = k1 then a1 else 0) + (if k = k2 then a2 else 0)" for k
  proof -
    have "tx_sum db' ord [k] = tx_sum u ord [k]" by (simp add: db' tx_sum_def)
    then show ?thesis
      by (simp add: applyTx_tx_sum[OF p(1)] applyTx_tx_sum[OF p(2)])
  qed
  show "tx_sum db' ord [''merchant_earning''] = tx_sum db ord [''merchant_earning'']"
    "tx_sum db' ord [''merchant_cash_accrued''] = tx_sum db ord [''merchant_cash_accrued''] + delta"
    "tx_sum db' ord [''merchant_cash_paid''] = tx_sum db ord [''merchant_cash_paid''] - delta"
    using k by (auto simp: s)
qed

text \<open>A corrected row: its adjustment, its new due, and what is posted and owed for it.\<close>

definition adjusted_row :: "string \<Rightarrow> source_share list \<Rightarrow> settlement \<Rightarrow> adjustment \<Rightarrow> 'a settle_db_scheme \<Rightarrow> 'a settle_db_scheme \<Rightarrow> bool" where
  "adjusted_row ord shares s a db db' \<longleftrightarrow>
     ad_settlement a = st_id s \<and> ad_order a = ord \<and> ad_delta a = due_delta shares s \<and> 0 \<le> ad_debt a \<and>
     adjustments db' = adjustments db @ [a] \<and>
     settlements db' = map (\<lambda>y. if st_id y = st_id s then y\<lparr>st_adjusted := st_adjusted y + due_delta shares s\<rparr> else y) (settlements db) \<and>
     (st_method s = ''wallet'' \<or> st_method s = ''cash'' \<and> ad_debt a = 0) \<and>
     tx_sum db' ord [''merchant_earning''] = tx_sum db ord [''merchant_earning''] + (if st_method s = ''wallet'' then due_delta shares s + ad_debt a else 0) \<and>
     tx_sum db' ord [''merchant_cash_accrued''] = tx_sum db ord [''merchant_cash_accrued''] + (if st_method s = ''wallet'' then 0 else due_delta shares s) \<and>
     tx_sum db' ord [''merchant_cash_paid''] = tx_sum db ord [''merchant_cash_paid''] - (if st_method s = ''wallet'' then 0 else due_delta shares s) \<and>
     (\<forall>m. Debt db' PartyMerchant m = Debt db PartyMerchant m + (if m = st_merchant s then ad_debt a else 0))"

definition edit_frame :: "string \<Rightarrow> 'a settle_db_scheme \<Rightarrow> 'a settle_db_scheme \<Rightarrow> bool" where
  "edit_frame ord db db' \<longleftrightarrow>
     money_only ord {''merchant_earning'', ''merchant_cash_accrued'', ''merchant_cash_paid''} {PartyMerchant} db db' \<and>
     boxes db' = boxes db \<and> share_env db' = share_env db \<and> (obligations_inv db \<longrightarrow> fresh_uuids db \<longrightarrow> fresh_uuids db')"

lemma edit_frame_refl [simp]: "edit_frame ord db db"
  by (simp add: edit_frame_def)

lemma edit_frame_trans: "edit_frame ord db d \<Longrightarrow> edit_frame ord d db' \<Longrightarrow> edit_frame ord db db'"
  unfolding edit_frame_def using money_only_chain by (auto simp: money_only_def money_step_def)

lemma correct_row_effect:
  fixes db :: "'a settle_db_scheme"
  assumes c: "correct_row ord actor driver shares s (out, db) = Inr (out', db')" and inv: "obligations_inv db" and fresh: "fresh_uuids db"
  shows "edit_frame ord db db'" and "due_delta shares s = 0 \<Longrightarrow> (out', db') = (out, db)"
    and "due_delta shares s \<noteq> 0 \<Longrightarrow> st_waived s \<le> 0 \<and> (\<exists>a. adjusted_row ord shares s a db db')"
proof -
  let ?delta = "due_delta shares s"
  show zero: "(out', db') = (out, db)" if "?delta = 0" using c that by (simp add: correct_row_def)
  have main: "edit_frame ord db db' \<and> st_waived s \<le> 0 \<and> (\<exists>a. adjusted_row ord shares s a db db')" if delta: "?delta \<noteq> 0"
  proof -
    define adj where "adj = uuid (next_uuid db)"
    define a0 where "a0 = \<lparr>ad_id = adj, ad_settlement = st_id s, ad_order = ord, ad_delta = ?delta,
       ad_earning_tx = None, ad_accrued_tx = None, ad_paid_tx = None, ad_paid_by = None, ad_paid_via = None, ad_debt = 0\<rparr>"
    define d1 where "d1 = db\<lparr>adjustments := adjustments db @ [a0], next_uuid := next_uuid db + 1\<rparr>"
    have add: "add_adjustment (st_id s) ord ?delta db = (adj, d1)" by (simp add: add_adjustment_def adj_def a0_def d1_def)
    from c delta have waived: "st_waived s \<le> 0" by (auto simp: correct_row_def Let_def split: if_splits)
    from c delta waived obtain debt d2 where e: "(if st_method s = ''wallet''
          then bindE (correct_wallet ord actor s ?delta adj d1) (\<lambda>(debt, db). Inr (debt, db))
          else if st_method s = ''cash'' then bindE (correct_cash ord actor driver s ?delta adj d1) (\<lambda>db. Inr (0, db))
          else Inl ErrOrderEditSettlement) = Inr (debt, d2)"
      and u: "update_settlement (st_id s) (\<lambda>y. y\<lparr>st_adjusted := st_adjusted y + ?delta\<rparr>) d2 = Inr db'"
      by (auto simp: correct_row_def Let_def add bindE_eq_Inr split: if_splits prod.splits)
    have one: "money_only ord {''merchant_earning'', ''merchant_cash_accrued'', ''merchant_cash_paid''} {PartyMerchant} db d1" and inv1: "obligations_inv d1"
      using inv by (auto simp: money_only_def d1_def obligations_inv_simps intro!: money_step_tables)
    have new: "adj \<notin> ad_id ` set (adjustments db)" "\<not> list_ex (\<lambda>y. ob_cause y = CauseOrderEdit \<and> ob_source y = Some adj) (obligations d1)"
      "adj \<noteq> ''''" using fresh by (simp_all add: fresh_uuids_def adj_def d1_def)
    have last: "adjustments d1 = adjustments db @ [a0]" "ad_id a0 = adj" "ad_debt a0 = 0" by (simp_all add: d1_def a0_def)
    have same: "tx_sum d1 ord ks = tx_sum db ord ks" "Debt d1 PartyMerchant m = Debt db PartyMerchant m" "obligations d1 = obligations db" for ks m
      by (simp_all add: d1_def tx_sum_def Debt_def)
    let ?P = "money_only ord {''merchant_earning'', ''merchant_cash_accrued'', ''merchant_cash_paid''} {PartyMerchant} d1 d2 \<and>
       boxes d2 = boxes d1 \<and> share_env d2 = share_env d1 \<and> settlements d2 = settlements d1 \<and> next_uuid d2 = next_uuid d1 \<and>
       (\<forall>w. list_ex (\<lambda>y. ob_cause y = CauseOrderEdit \<and> ob_source y = Some w) (obligations d2) \<longrightarrow>
          w = adj \<or> list_ex (\<lambda>y. ob_cause y = CauseOrderEdit \<and> ob_source y = Some w) (obligations d1))"
    let ?A = "\<lambda>a. ad_id a = adj \<and> ad_settlement a = st_id s \<and> ad_order a = ord \<and> ad_delta a = ?delta \<and> ad_debt a = debt"
    have step: "?P \<and> (\<exists>a. ?A a \<and> adjustments d2 = adjustments db @ [a]) \<and> 0 \<le> debt \<and> (st_method s = ''wallet'' \<or> st_method s = ''cash'' \<and> debt = 0) \<and>
       tx_sum d2 ord [''merchant_earning''] = tx_sum db ord [''merchant_earning''] + (if st_method s = ''wallet'' then ?delta + debt else 0) \<and>
       tx_sum d2 ord [''merchant_cash_accrued''] = tx_sum db ord [''merchant_cash_accrued''] + (if st_method s = ''wallet'' then 0 else ?delta) \<and>
       tx_sum d2 ord [''merchant_cash_paid''] = tx_sum db ord [''merchant_cash_paid''] - (if st_method s = ''wallet'' then 0 else ?delta) \<and>
       Debt d2 PartyMerchant m = Debt db PartyMerchant m + (if m = st_merchant s then debt else 0)" for m
    proof (cases "st_method s = ''wallet''")
      case True
      with e have w: "correct_wallet ord actor s ?delta adj d1 = Inr (debt, d2)" by (auto simp: bindE_eq_Inr)
      note f = correct_wallet_effect[OF w delta inv1 new(3,2) last new(1)]
      from f(3) obtain tx where "adjustments d2 = adjustments db @ [a0\<lparr>ad_earning_tx := tx, ad_debt := debt\<rparr>]" by blast
      moreover have "?A (a0\<lparr>ad_earning_tx := tx, ad_debt := debt\<rparr>)" by (simp add: a0_def)
      ultimately have "\<exists>a. ?A a \<and> adjustments d2 = adjustments db @ [a]" by blast
      moreover have "?P" using f(1,2) f(9) by blast
      ultimately show ?thesis using f(4-7) f(8)[of m] True same by simp
    next
      case False
      with e have w: "correct_cash ord actor driver s ?delta adj d1 = Inr d2" and m: "st_method s = ''cash''" "debt = 0"
        by (auto simp: bindE_eq_Inr split: if_splits)
      note f = correct_cash_effect[OF w last(1,2) new(1)]
      from f(3) obtain acc paid d where "adjustments d2 = adjustments db @
          [a0\<lparr>ad_accrued_tx := Some acc, ad_paid_tx := Some paid, ad_paid_by := Some d, ad_paid_via := Some paidViaDriver\<rparr>]" by blast
      moreover have "?A (a0\<lparr>ad_accrued_tx := Some acc, ad_paid_tx := Some paid, ad_paid_by := Some d, ad_paid_via := Some paidViaDriver\<rparr>)"
        by (simp add: a0_def m)
      ultimately have "\<exists>a. ?A a \<and> adjustments d2 = adjustments db @ [a]" by blast
      moreover have "Debt d2 PartyMerchant m = Debt d1 PartyMerchant m" by (simp add: Debt_def f(7))
      moreover have "?P" using f(1,2,7) by simp
      ultimately show ?thesis using f(4-6) m False same by simp
    qed
    then obtain a where a: "?A a" "adjustments d2 = adjustments db @ [a]" by blast
    have P: ?P using step by blast
    have db': "db' = d2\<lparr>settlements := map (\<lambda>y. if st_id y = st_id s then y\<lparr>st_adjusted := st_adjusted y + ?delta\<rparr> else y) (settlements d2)\<rparr>"
      using u by (simp add: update_settlement_Inr)
    have keep: "tx_sum db' ord ks = tx_sum d2 ord ks" "Debt db' PartyMerchant m = Debt d2 PartyMerchant m" for ks m
      by (simp_all add: db' tx_sum_def Debt_def)
    have "adjusted_row ord shares s a db db'"
      using step a P by (simp add: adjusted_row_def keep) (simp add: db' d1_def)
    moreover have "edit_frame ord db db'"
    proof -
      have "fresh_uuids db'"
        unfolding fresh_uuids_def
      proof (intro allI impI conjI)
        fix n assume n: "next_uuid db' \<le> n"
        then have n1: "Suc (next_uuid db) \<le> n" using P by (simp add: db' d1_def)
        with fresh show "uuid n \<notin> ad_id ` set (adjustments db')" using a by (auto simp: db' fresh_uuids_def adj_def)
        have srcs: "\<forall>w. list_ex (\<lambda>y. ob_cause y = CauseOrderEdit \<and> ob_source y = Some w) (obligations d2) \<longrightarrow>
            w = adj \<or> list_ex (\<lambda>y. ob_cause y = CauseOrderEdit \<and> ob_source y = Some w) (obligations db)"
          using conjunct2[OF conjunct2[OF conjunct2[OF conjunct2[OF conjunct2[OF P]]]]] unfolding same(3) .
        show "\<not> list_ex (\<lambda>y. ob_cause y = CauseOrderEdit \<and> ob_source y = Some (uuid n)) (obligations db')"
        proof
          assume "list_ex (\<lambda>y. ob_cause y = CauseOrderEdit \<and> ob_source y = Some (uuid n)) (obligations db')"
          then have "list_ex (\<lambda>y. ob_cause y = CauseOrderEdit \<and> ob_source y = Some (uuid n)) (obligations d2)" by (simp add: db')
          then have "uuid n = adj \<or> list_ex (\<lambda>y. ob_cause y = CauseOrderEdit \<and> ob_source y = Some (uuid n)) (obligations db)"
            using srcs by blast
          then show False using fresh n1 by (auto simp: adj_def fresh_uuids_def)
        qed
      qed
      moreover have "money_only ord {''merchant_earning'', ''merchant_cash_accrued'', ''merchant_cash_paid''} {PartyMerchant} db db'"
        using money_only_chain[OF money_only_chain[OF one] money_only_update_settlement[OF u]] P by blast
      moreover have "boxes db' = boxes db" "share_env db' = share_env db" using P by (simp_all add: db' d1_def share_env_def)
      ultimately show ?thesis by (simp add: edit_frame_def)
    qed
    ultimately show ?thesis using waived by blast
  qed
  show "edit_frame ord db db'" using main zero by (cases "?delta = 0") auto
  show "st_waived s \<le> 0 \<and> (\<exists>a. adjusted_row ord shares s a db db')" if "?delta \<noteq> 0" using main[OF that] by blast
qed

section \<open>All the rows\<close>

definition owed_for :: "settlement list \<Rightarrow> adjustment list \<Rightarrow> string \<Rightarrow> int" where
  "owed_for rows as m = sum_list (map (\<lambda>(s, a). if st_merchant s = m then ad_debt a else 0) (zip rows as))"

definition deltas :: "source_share list \<Rightarrow> (settlement \<Rightarrow> bool) \<Rightarrow> settlement list \<Rightarrow> int" where
  "deltas shares P rows = sum_list (map (due_delta shares) [s \<leftarrow> rows. P s])"

definition corrected :: "source_share list \<Rightarrow> settlement list \<Rightarrow> settlement \<Rightarrow> settlement" where
  "corrected shares rows y = (case find (\<lambda>s. st_id s = st_id y) rows of None \<Rightarrow> y
     | Some s \<Rightarrow> y\<lparr>st_adjusted := st_adjusted y + due_delta shares s\<rparr>)"

abbreviation by_wallet :: "settlement \<Rightarrow> bool" where "by_wallet s \<equiv> st_method s = ''wallet''"

definition posted_for :: "string \<Rightarrow> source_share list \<Rightarrow> settlement list \<Rightarrow> adjustment list \<Rightarrow> 'a settle_db_scheme \<Rightarrow> 'a settle_db_scheme \<Rightarrow> bool" where
  "posted_for ord shares rows as db db' \<longleftrightarrow>
     map (\<lambda>a. (ad_settlement a, ad_order a, ad_delta a)) as = map (\<lambda>s. (st_id s, ord, due_delta shares s)) [s \<leftarrow> rows. due_delta shares s \<noteq> 0] \<and>
     (\<forall>a\<in>set as. 0 \<le> ad_debt a) \<and> adjustments db' = adjustments db @ as \<and>
     tx_sum db' ord [''merchant_earning''] = tx_sum db ord [''merchant_earning''] + deltas shares by_wallet rows + sum_list (map ad_debt as) \<and>
     tx_sum db' ord [''merchant_cash_accrued''] = tx_sum db ord [''merchant_cash_accrued''] + deltas shares (\<lambda>s. \<not> by_wallet s) rows \<and>
     tx_sum db' ord [''merchant_cash_paid''] = tx_sum db ord [''merchant_cash_paid''] - deltas shares (\<lambda>s. \<not> by_wallet s) rows \<and>
     (\<forall>m. Debt db' PartyMerchant m = Debt db PartyMerchant m + owed_for [s \<leftarrow> rows. due_delta shares s \<noteq> 0] as m)"

lemma posted_for_Cons:
  assumes "adjusted_row ord shares s a db d" and "posted_for ord shares rows as d db'" and "due_delta shares s \<noteq> 0"
  shows "posted_for ord shares (s # rows) (a # as) db db'"
  using assms by (auto simp: adjusted_row_def posted_for_def deltas_def owed_for_def)

lemma corrected_Cons:
  assumes "st_id s \<notin> st_id ` set rows"
  shows "corrected shares rows (if st_id y = st_id s then y\<lparr>st_adjusted := st_adjusted y + due_delta shares s\<rparr> else y) = corrected shares (s # rows) y"
proof (cases "st_id y = st_id s")
  case True
  then have "find (\<lambda>x. st_id x = st_id y) rows = None" unfolding find_None_iff using assms by (metis image_eqI)
  with True show ?thesis by (simp add: corrected_def)
qed (simp add: corrected_def eq_commute)

lemma correct_rows_effect:
  fixes db :: "'a settle_db_scheme"
  assumes "foldE (correct_row ord actor driver shares) rows (out, db) = Inr (out', db')" and "distinct (map st_id rows)"
    and "obligations_inv db" and "fresh_uuids db"
  shows "edit_frame ord db db' \<and> settlements db' = map (corrected shares rows) (settlements db) \<and> (\<exists>as. posted_for ord shares rows as db db')"
  using assms
proof (induction rows arbitrary: out db)
  case Nil
  have "corrected shares [] y = y" for y by (simp add: corrected_def)
  moreover have "posted_for ord shares [] [] db db" by (simp add: posted_for_def deltas_def owed_for_def)
  ultimately show ?case using Nil by (auto simp: map_idI)
next
  case (Cons s rows)
  from Cons.prems(1) obtain o1 d where f: "correct_row ord actor driver shares s (out, db) = Inr (o1, d)"
    and rest: "foldE (correct_row ord actor driver shares) rows (o1, d) = Inr (out', db')" by (auto simp: bindE_eq_Inr)
  note e = correct_row_effect[OF f Cons.prems(3,4)]
  have new: "st_id s \<notin> st_id ` set rows" "distinct (map st_id rows)" using Cons.prems(2) by auto
  have "obligations_inv d" "fresh_uuids d" using e(1) Cons.prems(3,4) by (auto simp: edit_frame_def money_only_def money_step_def)
  note i = Cons.IH[OF rest new(2) this]
  then obtain as where as: "posted_for ord shares rows as d db'" by blast
  have frame: "edit_frame ord db db'" using edit_frame_trans[OF e(1)] i by blast
  show ?case
  proof (cases "due_delta shares s = 0")
    case True
    then have d: "d = db" using e(2) by simp
    have "corrected shares (s # rows) y = corrected shares rows y" for y
      using corrected_Cons[OF new(1), of shares y] True by (cases "st_id y = st_id s") simp_all
    then have "settlements db' = map (corrected shares (s # rows)) (settlements db)" using i d by simp
    moreover have "posted_for ord shares (s # rows) as db db'" using as True unfolding d by (auto simp: posted_for_def deltas_def)
    ultimately show ?thesis using frame by blast
  next
    case False
    from e(3)[OF this] obtain a where a: "adjusted_row ord shares s a db d" by blast
    have "settlements db' = map (corrected shares (s # rows)) (settlements db)"
      using i a by (auto simp: adjusted_row_def corrected_Cons[OF new(1)])
    with posted_for_Cons[OF a as False] frame show ?thesis by blast
  qed
qed

section \<open>The new dues\<close>

lemma merchantShares_in64:
  assumes "merchantShares ord db = Inr (shares, c)" and "sh \<in> set shares"
  shows "in64 (ss_due sh)"
proof -
  have one: "store_share db snap x m = Inr y \<Longrightarrow> in64 (ss_due y)" "sole_share db snap x = Inr y \<Longrightarrow> in64 (ss_due y)" for snap x m y
    by (auto simp: store_share_def sole_share_def share_of_def Let_def bindE_eq_Inr split: option.splits)
  from assms(1) obtain snap x shs where f: "foldE (\<lambda>m shares. bindE (store_share db snap x m) (\<lambda>sh. Inr (shares @ [sh]))) (order_stores db x) [] = Inr shs"
    and res: "shares = shs \<or> (\<exists>y. sole_share db snap x = Inr y \<and> shares = [y])"
    unfolding merchantShares_def by (auto simp: bindE_eq_Inr simp del: foldE.simps split: option.splits if_splits)
  have "\<forall>y\<in>set shs. in64 (ss_due y)"
    by (rule foldE_inv[OF f, where P = "\<lambda>acc. \<forall>y\<in>set acc. in64 (ss_due y)"]) (auto simp: bindE_eq_Inr dest: one)
  with res one assms(2) show ?thesis by auto
qed

lemma find_SomeD: "find P xs = Some y \<Longrightarrow> y \<in> set xs \<and> P y"
  by (induction xs) (auto split: if_splits)

lemma new_due_range:
  assumes "merchantShares ord db = Inr (shares, c)"
  shows "0 \<le> new_due shares m" and "in64 (new_due shares m)"
  by (auto simp: new_due_def in64_def split: option.splits dest!: find_SomeD)
    (use merchantShares_in64[OF assms] in \<open>auto simp: in64_def\<close>)

text \<open>Dues that fit 64 bits and are not negative.\<close>

definition dues_fit :: "'a settle_db_scheme \<Rightarrow> bool" where
  "dues_fit db \<longleftrightarrow> (\<forall>s\<in>set (settlements db). 0 \<le> st_amount s + st_adjusted s \<and> in64 (st_amount s + st_adjusted s))"

lemma due_delta_exact:
  assumes "merchantShares ord db = Inr (shares, c)" and "0 \<le> st_amount s + st_adjusted s" and "in64 (st_amount s + st_adjusted s)"
  shows "due_delta shares s = new_due shares (st_merchant s) - (st_amount s + st_adjusted s)"
proof -
  have "in64 (new_due shares (st_merchant s) - (st_amount s + st_adjusted s))"
    using new_due_range[OF assms(1), of "st_merchant s"] assms(2,3) by (auto simp: in64_def)
  then show ?thesis using assms(3) by (simp add: due_delta_def current_due_def)
qed

definition edited :: "string \<Rightarrow> 'a settle_db_scheme \<Rightarrow> settlement \<Rightarrow> bool" where
  "edited ord db s \<longleftrightarrow> st_order s = ord \<and> merchant_of db (st_merchant s) \<noteq> None"

lemma edit_rows_set: "set (edit_rows ord db) = {s \<in> set (settlements db). edited ord db s}"
  by (auto simp: edit_rows_def edited_def)

lemma corrected_edit_rows:
  assumes "distinct (map st_id (settlements db))" and "y \<in> set (settlements db)"
  shows "corrected shares (edit_rows ord db) y = (if edited ord db y then y\<lparr>st_adjusted := st_adjusted y + due_delta shares y\<rparr> else y)"
proof -
  have same: "s = y" if "s \<in> set (edit_rows ord db)" "st_id s = st_id y" for s
    using that assms by (auto simp: edit_rows_set distinct_map inj_on_def)
  show ?thesis
  proof (cases "find (\<lambda>s. st_id s = st_id y) (edit_rows ord db)")
    case None
    then have "y \<notin> set (edit_rows ord db)" by (auto simp: find_None_iff)
    with None assms(2) show ?thesis by (simp add: corrected_def edit_rows_set)
  next
    case (Some s)
    then have "s = y" using same by (auto simp: find_Some_iff)
    with Some have "y \<in> set (edit_rows ord db)" by (auto simp: find_Some_iff)
    with Some \<open>s = y\<close> show ?thesis by (simp add: corrected_def edit_rows_set)
  qed
qed

lemma nothing_to_correct:
  "(\<And>s. s \<in> set rows \<Longrightarrow> due_delta shares s = 0) \<Longrightarrow> foldE (correct_row ord actor driver shares) rows (out, db) = Inr (out, db)"
  by (induction rows) (simp_all add: correct_row_def)

lemma correctSettlementsTx_effect:
  fixes db :: "'a settle_db_scheme"
  assumes r: "correctSettlementsTx ord actor driver db = Inr (out, db')" and ms: "merchantShares ord db = Inr (shares, c)"
    and ids: "distinct (map st_id (settlements db))" and inv: "obligations_inv db" and fresh: "fresh_uuids db"
  shows "settlements db' = map (\<lambda>y. if edited ord db y then y\<lparr>st_adjusted := st_adjusted y + due_delta shares y\<rparr> else y) (settlements db)"
    and "\<exists>as. posted_for ord shares (edit_rows ord db) as db db'"
    and "orders db' = orders (update_order ord (\<lambda>x. x\<lparr>o_platform_commission := c\<rparr>) db)"
    and "r \<noteq> ord \<Longrightarrow> rows_of db' r = rows_of db r" and "merchantShares ord db' = Inr (shares, c)"
    and "\<And>m. merchant_of db' m = None \<longleftrightarrow> merchant_of db m = None"
proof -
  let ?d = "update_order ord (\<lambda>x. x\<lparr>o_platform_commission := c\<rparr>) db"
  have l: "foldE (correct_row ord actor driver shares) (edit_rows ord db) ([], ?d) = Inr (out, db')"
  proof -
    have "edit_rows ord ?d = edit_rows ord db" by (simp add: edit_rows_def update_order_def merchant_of_def)
    then show ?thesis using r by (simp add: correctSettlementsTx_def ms)
  qed
  have "distinct (map st_id [s \<leftarrow> settlements db. st_order s = ord \<and> merchant_of db (st_merchant s) \<noteq> None])" using ids by (rule distinct_map_filter)
  then have dist: "distinct (map st_id (edit_rows ord db))" by (simp add: edit_rows_def distinct_map)
  have d: "obligations_inv ?d" "fresh_uuids ?d" using inv fresh by (simp_all add: update_order_def obligations_inv_simps fresh_uuids_def)
  note e = correct_rows_effect[OF l dist d]
  have "settlements db' = map (corrected shares (edit_rows ord db)) (settlements db)" using e by (simp add: update_order_def)
  also have "\<dots> = map (\<lambda>y. if edited ord db y then y\<lparr>st_adjusted := st_adjusted y + due_delta shares y\<rparr> else y) (settlements db)"
    by (rule map_cong[OF refl]) (rule corrected_edit_rows[OF ids])
  finally show st: "settlements db' = map (\<lambda>y. if edited ord db y then y\<lparr>st_adjusted := st_adjusted y + due_delta shares y\<rparr> else y) (settlements db)" .
  have "tx_sum ?d ord ks = tx_sum db ord ks" "Debt ?d PartyMerchant m = Debt db PartyMerchant m" "adjustments ?d = adjustments db" for ks m
    by (simp_all add: tx_sum_def Debt_def update_order_def)
  then show "\<exists>as. posted_for ord shares (edit_rows ord db) as db db'" using e by (simp add: posted_for_def)
  show "orders db' = orders ?d" using e by (simp add: edit_frame_def money_only_def)
  show "rows_of db' r = rows_of db r" if "r \<noteq> ord"
  proof -
    have m: "money_step ord {''merchant_earning'', ''merchant_cash_accrued'', ''merchant_cash_paid''} {PartyMerchant} ?d db'"
      using e by (simp add: edit_frame_def money_only_def)
    from money_step_rows(1)[OF m that] show ?thesis by (simp add: rows_of_def update_order_def)
  qed
  have env: "share_env (blank_commission db') = share_env (blank_commission db)"
    using share_env_blank[of db' ?d] e order_env(1)[of ord c db] by (simp add: edit_frame_def)
  have "map_option st_pct (settlement_for db' ord m) = map_option st_pct (settlement_for db ord m)" for m
  proof -
    have "map_option st_pct (find (\<lambda>s. st_order s = ord \<and> st_merchant s = m) (map (\<lambda>y. if edited ord db y then y\<lparr>st_adjusted := st_adjusted y + due_delta shares y\<rparr> else y) ss)) =
        map_option st_pct (find (\<lambda>s. st_order s = ord \<and> st_merchant s = m) ss)" for ss by (induction ss) auto
    then show ?thesis by (simp add: settlement_for_def st)
  qed
  moreover have "frozen_pct d ord m = (case map_option st_pct (settlement_for d ord m) of None \<Rightarrow> None | Some p \<Rightarrow> p)" for m and d :: "'a settle_db_scheme"
    by (simp add: frozen_pct_def split: option.split)
  ultimately have "frozen_pct db' ord m = frozen_pct db ord m" for m by (simp only:)
  with merchantShares_env[OF env] ms show "merchantShares ord db' = Inr (shares, c)" by simp
  show "merchant_of db' m = None \<longleftrightarrow> merchant_of db m = None" for m
    using share_env_eqD(3)[OF env, of m] by (metis option.map_disc_iff)
qed

section \<open>Properties\<close>

text \<open>
  C40. After the correction every store of the order that has a settlement is due exactly its new share, and no other
  settlement changed; each row whose due moved has one adjustment by exactly the difference; what the wallets of
  the stores gained is the difference of theirs plus what they were left owing, and those debts are opened; what
  passed through the holding wallet went in and out; of the orders only the commission of this one is written, and
  no row of another order; and correcting again, by anyone, changes nothing.
\<close>

theorem edit_dues_exact:
  fixes db :: "'a settle_db_scheme"
  assumes r: "correctSettlementsTx ord actor driver db = Inr (out, db')" and ms: "merchantShares ord db = Inr (shares, c)"
    and ids: "distinct (map st_id (settlements db))" and fit: "dues_fit db" and inv: "obligations_inv db" and fresh: "fresh_uuids db"
  shows "(\<forall>s\<in>set (settlements db'). edited ord db s \<longrightarrow> st_amount s + st_adjusted s = new_due shares (st_merchant s)) \<and>
    settlements db' = map (\<lambda>y. if edited ord db y then y\<lparr>st_adjusted := new_due shares (st_merchant y) - st_amount y\<rparr> else y) (settlements db) \<and>
    (\<exists>as. posted_for ord shares (edit_rows ord db) as db db') \<and>
    orders db' = orders (update_order ord (\<lambda>x. x\<lparr>o_platform_commission := c\<rparr>) db) \<and>
    (r \<noteq> ord \<longrightarrow> rows_of db' r = rows_of db r) \<and>
    correctSettlementsTx ord actor2 driver2 db' = Inr ([], db')"
proof -
  note e = correctSettlementsTx_effect[OF r ms ids inv fresh]
  have exact: "due_delta shares y = new_due shares (st_merchant y) - (st_amount y + st_adjusted y)" if "y \<in> set (settlements db)" for y
    by (rule due_delta_exact[OF ms]) (use fit that in \<open>auto simp: dues_fit_def\<close>)
  have st: "settlements db' = map (\<lambda>y. if edited ord db y then y\<lparr>st_adjusted := new_due shares (st_merchant y) - st_amount y\<rparr> else y) (settlements db)"
    unfolding e(1) by (rule map_cong[OF refl]) (simp add: exact)
  have due: "\<forall>s\<in>set (settlements db'). edited ord db s \<longrightarrow> st_amount s + st_adjusted s = new_due shares (st_merchant s)"
  proof (intro ballI impI)
    fix s assume "s \<in> set (settlements db')" and s: "edited ord db s"
    then obtain y where y: "s = (if edited ord db y then y\<lparr>st_adjusted := new_due shares (st_merchant y) - st_amount y\<rparr> else y)"
      unfolding st set_map by blast
    then show "st_amount s + st_adjusted s = new_due shares (st_merchant s)" using s by (cases "edited ord db y") simp_all
  qed
  have "due_delta shares s = 0" if s: "s \<in> set (edit_rows ord db')" for s
  proof -
    have "s \<in> set (settlements db')" "edited ord db s" using s e(6) by (auto simp: edit_rows_set edited_def)
    then have n: "st_amount s + st_adjusted s = new_due shares (st_merchant s)" using due by blast
    have "due_delta shares s = new_due shares (st_merchant s) - (st_amount s + st_adjusted s)"
      by (rule due_delta_exact[OF ms]) (simp_all add: n new_due_range[OF ms])
    then show ?thesis using n by simp
  qed
  note same = nothing_to_correct[OF this]
  have once: "update_order ord (\<lambda>x. x\<lparr>o_platform_commission := c\<rparr>) db' = db'"
  proof -
    have "map (\<lambda>x. if o_id x = ord then x\<lparr>o_platform_commission := c\<rparr> else x) (orders db') = orders db'"
      unfolding e(3) by (simp add: update_order_def)
    then show ?thesis by (simp add: update_order_def)
  qed
  have "correctSettlementsTx ord actor2 driver2 db' = Inr ([], db')"
    unfolding correctSettlementsTx_def e(5) bindE_Inr prod.case Let_def once by (rule same)
  with due st e(2-4) show ?thesis by blast
qed


text \<open>
  A store of a wallet was paid 900 and is due 450 now, of which its owner has 30; another, paid 180 in cash, is due
  270: the driver pays it 90 more.
\<close>

definition example_row :: settlement where
  "example_row = \<lparr>st_id = ''s1'', st_order = ''o1'', st_merchant = ''m'', st_owner = ''a'', st_method = ''wallet'', st_amount = 900, st_adjusted = 0,
     st_reversed = 0, st_state = ''wallet_credited'', st_pct = Some 1000, st_waived = 0, st_earning_tx = Some 1, st_accrued_tx = None, st_paid_tx = None,
     st_paid_by = None, st_paid_owner = None, st_paid_via = None, st_note = [], st_created = 0\<rparr>"

definition example_edit_db :: settle_db where
  "example_edit_db = example_stores_db\<lparr>
     merchants := merchants example_stores_db @ [(hd (merchants example_stores_db))\<lparr>m_id := ''n''\<rparr>],
     wallets := wallets example_stores_db @ [(''a'', zero_wallet\<lparr>w_balance := 30\<rparr>)],
     settlements := [example_row, example_row\<lparr>st_id := ''s2'', st_merchant := ''n'', st_method := ''cash'', st_amount := 180, st_state := ''cash_paid'', st_paid_via := Some ''driver''\<rparr>],
     order_items := [\<lparr>oi_order = ''o1'', oi_merchant = Some ''m'', oi_price = 500, oi_unit_price = 550, oi_qty = 1, oi_method = Some ''wallet'',
         oi_id = ''i1'', oi_name = ''tea'', oi_menu = Some ''k1'', oi_drink_for = None\<rparr>,
       \<lparr>oi_order = ''o1'', oi_merchant = Some ''n'', oi_price = 100, oi_unit_price = 110, oi_qty = 3, oi_method = Some ''cash'',
         oi_id = ''i2'', oi_name = ''mate'', oi_menu = Some ''k2'', oi_drink_for = None\<rparr>]\<rparr>"

lemma edit_dues_exact_witness:
  "\<exists>out db. correctSettlementsTx ''o1'' ''a'' (Some ''d'') example_edit_db = Inr (out, db) \<and>
     map ed_debt out = [420, 0] \<and> map ed_driver_pays out = [0, 90] \<and> map st_adjusted (settlements db) = [- 450, 90] \<and>
     correctSettlementsTx ''o1'' ''t'' None db = Inr ([], db)"
proof -
  have run: "case correctSettlementsTx ''o1'' ''a'' (Some ''d'') example_edit_db of Inl _ \<Rightarrow> False
    | Inr (out, db) \<Rightarrow> map ed_debt out = [420, 0] \<and> map ed_driver_pays out = [0, 90] \<and> map st_adjusted (settlements db) = [- 450, 90]" by code_simp
  then obtain out db where r: "correctSettlementsTx ''o1'' ''a'' (Some ''d'') example_edit_db = Inr (out, db)" by (auto split: sum.splits)
  have x: "distinct (map st_id (settlements example_edit_db))" "blank_book example_edit_db" "adjustments example_edit_db = []" "obligations example_edit_db = []"
    "dues_fit example_edit_db" by code_simp+
  have "case merchantShares ''o1'' example_edit_db of Inl _ \<Rightarrow> False | Inr _ \<Rightarrow> True" by code_simp
  then obtain shares c where ms: "merchantShares ''o1'' example_edit_db = Inr (shares, c)" by (auto split: sum.splits)
  have "fresh_uuids example_edit_db" by (simp add: fresh_uuids_def x(3,4))
  from edit_dues_exact[OF r ms x(1,5) blank_book_inv[OF x(2)] this] have "correctSettlementsTx ''o1'' ''t'' None db = Inr ([], db)" by blast
  with run show ?thesis unfolding r sum.case prod.case by (intro exI[of _ out] exI[of _ db]) simp
qed

end
