(* ===== verification/Spec2Isabelle.thy ===== *)
theory Spec2Isabelle
  imports Percent2 Office_Cash Platform Refund_Life Part_Answers Missing_Item Road Goods Waiver Edit_Money
begin

text \<open>
  RahalGo: a verification library for the order, money and dispatch core of the backend
  (\<open>src/backend/internal\<close>, Go over PostgreSQL).

  \<^bold>\<open>The program.\<close> Customers order goods from stores, drivers carry them, representatives bring stores in, an office
  runs the day. Every request is one handler that opens a database transaction, locks the order, moves it along a
  status machine, lets the money follow (wallets, cash boxes of drivers, what stores are owed in cash, obligations,
  the treasury of the platform) and commits; after the commit further moves may follow by themselves (accepted,
  preparing, the search of a driver, his assignment). The prices, percentages and limits are settings read at the
  moment of use. The theories follow this order from the tables up.

  \<^bold>\<open>Theories and code.\<close> Paths are under \<open>src/backend/internal\<close>.
  \<^item> \<open>Prelude\<close>: errors, \<open>err + 'a\<close> with \<open>bindE\<close>, loops that stop at the first error, 64-bit arithmetic, transactions.
    \<open>Ledger\<close>: the locale of a balance kept beside a log of signed entries, interpreted on the wallets
    (\<open>Wallet\<close>), the boxes (\<open>Cashbox\<close>) and the drawer (\<open>Office_Cash\<close>).
  \<^item> \<open>Statuses\<close>: \<open>orders/statuses.go\<close>, the maps of moves of the three kinds of order. \<open>Fail_Reasons\<close>:
    \<open>orders/failreasons.go\<close>. \<open>Modes\<close>: \<open>orders/modes.go\<close>, \<open>machine.go\<close>, \<open>truth.go\<close>, the two modes of the platform
    as a filter on roles, and the machine the code publishes.
  \<^item> \<open>Pricing\<close>, \<open>Percent2\<close>: \<open>pricing/pricing.go\<close>, \<open>commission_source.go\<close>, \<open>percent2.go\<close>.
  \<^item> \<open>Wallet\<close>: \<open>wallet/wallet.go\<close>, \<open>reserve.go\<close>. \<open>Cashbox\<close>: \<open>cashbox/cashbox.go\<close>, \<open>exposure.go\<close> and
    \<open>orders/admission.go\<close>. \<open>Obligations\<close>, \<open>Credit\<close>: \<open>obligations/obligations.go\<close>, \<open>credit.go\<close> and the deductions of
    \<open>orders/transitions.go\<close>. \<open>Office_Cash\<close>: \<open>officecash/officecash.go\<close>. \<open>Orders_Table\<close>, \<open>Settlements_Table\<close>: rows
    and constraints of the migrations.
  \<^item> \<open>Hours\<close>, \<open>Platform\<close>: \<open>platform/hours.go\<close>, \<open>workday.go\<close>, \<open>state.go\<close>, \<open>zones.go\<close>, \<open>service.go\<close>.
  \<^item> \<open>Cash_Settlement\<close>, \<open>Treasury\<close>, \<open>Settlement\<close>, \<open>Rep_Money\<close>, \<open>Order_Settle\<close>: what a move does to the money
    (\<open>orders/cash_settlement.go\<close>, \<open>treasury.go\<close>, \<open>economics_snapshot.go\<close>, \<open>accounts_rep_held.go\<close>, \<open>rep_parts.go\<close>,
    \<open>merchant_delivery_money.go\<close>, \<open>settle\<close>, \<open>settleRep\<close>, \<open>payDriver\<close>, \<open>reverseCommissions\<close> of \<open>transitions.go\<close>).
    \<open>Order_Frame\<close>: none of it touches the status, the driver or the work of an order.
  \<^item> \<open>Parts\<close>: the parts of an order of several stores and their gates (\<open>orders/parts_engine.go\<close>, \<open>parts_stops.go\<close>).
    \<open>Engine\<close>, \<open>One_Move\<close>: \<open>applyTransitionTx\<close> and \<open>transitionTx\<close> of \<open>orders/transitions.go\<close> with
    \<open>merchant_blocked.go\<close>, \<open>merchant_late_cancel.go\<close>, \<open>delivery_code.go\<close>, \<open>fetch_amount.go\<close>.
  \<^item> \<open>Seats\<close>, \<open>Dispatch\<close>, \<open>Turns\<close>: who carries an order and whose turn it is (\<open>orders/rotation.go\<close>, \<open>sameroute.go\<close>,
    \<open>customer_rotation.go\<close>, \<open>queue_visibility.go\<close>). \<open>Moves\<close>: \<open>Transition\<close> with the moves that follow a commit.
    \<open>Assign\<close>: \<open>AssignDriver\<close> and \<open>handleDriverAccept\<close> (\<open>server/driver_handlers.go\<close>). \<open>Road\<close>: all of these interleaved.
    \<open>Refund_Life\<close>: the refunds of an order over its life.
  \<^item> \<open>Money_Steps\<close>: what every step of money keeps (rows of other orders, the book of obligations). \<open>Undeliver\<close>:
    \<open>orders/undeliver.go\<close>, a delivery that is withdrawn. \<open>Waiver\<close>:
    \<open>orders/commission_waiver.go\<close>, a commission the store kept. \<open>Edit_Money\<close>: \<open>orders/order_edit_money.go\<close>,
    what stores are due after an edit. \<open>Goods\<close>: \<open>orders/goods.go\<close>, the goods of a failed order, with
    \<open>HandGoods\<close> of \<open>return_trip.go\<close>.
  \<^item> \<open>Free_Delivery\<close>, \<open>Removal\<close>, \<open>Missing_Item\<close>: \<open>orders/free_delivery.go\<close>, \<open>removal_recompute.go\<close>,
    \<open>item_unavailable.go\<close>, \<open>goods_left.go\<close>. \<open>Part_Actions\<close>, \<open>Part_Steps\<close>, \<open>Stop_Goods\<close>, \<open>Part_Answers\<close>: the requests on
    parts (\<open>parts_engine.go\<close>, \<open>parts_stops.go\<close>, \<open>parts_remove.go\<close>).

  \<^bold>\<open>State.\<close> A table is a list of rows (a record) or a map from its key. The databases extend one another as records:
  wallets, then boxes, orders, obligations, settlements, events and parts; an operation is stated over the
  smallest one it needs and used at the larger. The constraints, partial unique indexes and triggers of the migrations are
  part of the writes, because the code relies on their refusals (\<open>ON CONFLICT\<close>, a unique violation, a failed
  check). A transaction is a function to \<open>err + tables\<close>: on \<open>Inl\<close> the caller rolls back and nothing survives. An
  operation that logs an error after its commit and goes on keeps what it had committed. The settings, the clock, the
  geometry of PostGIS, random codes and hashes, and the readiness of outside services are arguments (mostly the
  fields of \<open>env\<close>), so every property holds under all of them.

  \<^bold>\<open>What the lemmas show.\<close>
  \<^item> \<^emph>\<open>Machines.\<close> A closed order stays closed, a delivery is always possible, the published machine is the machine
    (\<open>Statuses\<close>, \<open>Modes\<close>); whatever the engine applies is a step of it, open to the roles that count (\<open>Moves\<close>); an
    order on the road has a driver (\<open>Road\<close>, an invariant over an inductive step relation).
  \<^item> \<^emph>\<open>Books.\<close> Every balance is the sum of its log; boxes, obligations, the holding wallet and the treasury are
    explained by their rows; stores, representatives, cash and refunds are paid once; after a move of an order payment,
    refunds, shares and the cut of the platform close; the caps on orders and cash of a driver hold over his day.
  \<^item> \<^emph>\<open>Exactness.\<close> Admission, refunds of orders of every kind, what a refund or returned goods take back, settlements of debts
    (the payments the database refuses included), missing items, the answers of stores, goods at stops, acceptance
    and assignment: each states when the operation succeeds and what it changes, and that nothing else changes.
  \<^item> \<^emph>\<open>Time.\<close> The schedule validator and the first opening agree with an abstract notion of a moment inside a window.
  \<^item> \<^emph>\<open>Dispatch.\<close> The query that picks a driver agrees with the guard that assigns him, and nobody entitled comes
    before him.

  \<^bold>\<open>Loops, bounds and fuel.\<close> Loops over rows are structural. \<open>Transition\<close> calls itself after a commit: it terminates by the
  number of moves that can follow a status (\<open>followers\<close>, at most three, so four moves in all). The end of a work day
  follows at most sixteen windows, and \<open>NextAllOpen\<close> looks eight days ahead, as the code does. \<open>int64\<close> is \<open>int\<close>
  with the wrap-around written out where it can happen (\<open>Pricing\<close>, \<open>Percent2\<close>); sums the database makes in
  \<open>numeric\<close> are exact and a result outside 64 bits is a database error.

  \<^bold>\<open>Assumptions.\<close> Transactions run one after another: the locks of the code have this as their aim. Times are whole
  seconds. Texts that name an identifier are compared as identifiers. An actor that is not empty is a user (of the
  payments of debts this is not assumed: they are refused where their author, order or ledger entry is missing). An
  Arabic note is represented by the event or cause it tells. Drivers on the same route that tie are taken in row
  order. The offset of Asia/Damascus is constant.

  \<^bold>\<open>Not modelled.\<close> What is sent after a commit (notifications, messages, warnings, the grants of targets and
  referrals, the enforcement of violations); the agreement of a price with a customer of a custom order;
  the placing and editing of orders; the handlers of HTTP beyond the two named; accounts, permissions, catalogue,
  media, maps and floating-point geometry; reports and pages, which change nothing. They are over tables and services
  that are outside the tables above. The manifest lists each with its files.
\<close>

end
